(* ===== verification/Prelude.thy ===== *)
theory Prelude
  imports Main "HOL-Library.Word"
begin

text \<open>
  Shared vocabulary of the development.

  \<^item> \<open>outcome\<close> is the result of a Rust function returning \<^verbatim>\<open>Result<T, E>\<close> that may also panic: \<open>Ok\<close>,
    \<open>Err\<close>, or \<open>Panic\<close> (an index out of bounds, an \<^verbatim>\<open>unwrap\<close> on nothing, a failed \<^verbatim>\<open>assert!\<close>, a
    \<^verbatim>\<open>todo!()\<close>, an arithmetic overflow under the overflow checks of the dev profile).
  \<^item> \<open>at\<close> and \<open>put\<close> are \<^verbatim>\<open>v[i]\<close> and \<^verbatim>\<open>v[i] = x\<close>: they panic out of bounds and otherwise pass the
    element (the updated vector) to the rest of the computation.
  \<^item> \<open>need\<close> is \<^verbatim>\<open>opt.ok_or(e)?\<close>, \<open>expect\<close> is \<^verbatim>\<open>opt.unwrap()\<close>, \<open>andthen\<close> is \<^verbatim>\<open>?\<close>.
  \<^item> the \<open>outcome_simps\<close> collection inverts them, so that a goal about a handler's result splits into
    the guards of the source.
\<close>

type_synonym u64 = "64 word"
type_synonym u32 = "32 word"
type_synonym u8 = "8 word"

datatype ('e, 'a) outcome = Ok 'a | Err 'e | Panic

text \<open>A function without \<^verbatim>\<open>Result\<close>.\<close>

type_synonym 'a total = "(unit, 'a) outcome"

named_theorems outcome_simps

definition at :: "'x list \<Rightarrow> nat \<Rightarrow> ('x \<Rightarrow> ('e, 'a) outcome) \<Rightarrow> ('e, 'a) outcome" where
  "at xs i k = (if i < length xs then k (xs ! i) else Panic)"

definition put :: "'x list \<Rightarrow> nat \<Rightarrow> 'x \<Rightarrow> ('x list \<Rightarrow> ('e, 'a) outcome) \<Rightarrow> ('e, 'a) outcome" where
  "put xs i v k = (if i < length xs then k (xs[i := v]) else Panic)"

definition need :: "'e \<Rightarrow> 'x option \<Rightarrow> ('x \<Rightarrow> ('e, 'a) outcome) \<Rightarrow> ('e, 'a) outcome" where
  "need e opt k = (case opt of None \<Rightarrow> Err e | Some x \<Rightarrow> k x)"

definition expect :: "'x option \<Rightarrow> ('x \<Rightarrow> ('e, 'a) outcome) \<Rightarrow> ('e, 'a) outcome" where
  "expect opt k = (case opt of None \<Rightarrow> Panic | Some x \<Rightarrow> k x)"

fun andthen :: "('e, 'a) outcome \<Rightarrow> ('a \<Rightarrow> ('e, 'b) outcome) \<Rightarrow> ('e, 'b) outcome" where
  "andthen (Ok x) k = k x"
| "andthen (Err e) k = Err e"
| "andthen Panic k = Panic"

fun map_err :: "('e \<Rightarrow> 'f) \<Rightarrow> ('e, 'a) outcome \<Rightarrow> ('f, 'a) outcome" where
  "map_err f (Ok x) = Ok x"
| "map_err f (Err e) = Err (f e)"
| "map_err f Panic = Panic"

text \<open>Run a check over a list, left to right, stopping at the first failure (a \<^verbatim>\<open>for\<close> loop whose
  body returns early).\<close>

fun each :: "('x \<Rightarrow> ('e, unit) outcome) \<Rightarrow> 'x list \<Rightarrow> ('e, unit) outcome" where
  "each f [] = Ok ()"
| "each f (x # xs) = andthen (f x) (\<lambda>_. each f xs)"

text \<open>A \<^verbatim>\<open>for\<close> loop over a list that threads a state and may return early.\<close>

fun fold_out :: "('x \<Rightarrow> 's \<Rightarrow> ('e, 's) outcome) \<Rightarrow> 'x list \<Rightarrow> 's \<Rightarrow> ('e, 's) outcome" where
  "fold_out f [] s = Ok s"
| "fold_out f (x # xs) s = andthen (f x s) (fold_out f xs)"

text \<open>Collecting the results of a fallible map (\<^verbatim>\<open>iter().map(..).collect()\<close> over panicking reads).\<close>

fun map_out :: "('x \<Rightarrow> ('e, 'y) outcome) \<Rightarrow> 'x list \<Rightarrow> ('e, 'y list) outcome" where
  "map_out f [] = Ok []"
| "map_out f (x # xs) = andthen (f x) (\<lambda>y. andthen (map_out f xs) (\<lambda>ys. Ok (y # ys)))"

text \<open>A call of a function without errors from one with errors.\<close>

fun lift :: "'a total \<Rightarrow> ('e, 'a) outcome" where
  "lift (Ok x) = Ok x"
| "lift _ = Panic"

text \<open>\<^verbatim>\<open>a || b\<close> and \<^verbatim>\<open>iter().any(..)\<close>, left to right.\<close>

definition or_out :: "('e, bool) outcome \<Rightarrow> ('e, bool) outcome \<Rightarrow> ('e, bool) outcome" where
  "or_out a b = andthen a (\<lambda>x. if x then Ok True else b)"

fun any_out :: "('x \<Rightarrow> ('e, bool) outcome) \<Rightarrow> 'x list \<Rightarrow> ('e, bool) outcome" where
  "any_out f [] = Ok False"
| "any_out f (x # xs) = or_out (f x) (any_out f xs)"

subsection \<open>Inversion rules\<close>

lemma at_eq [outcome_simps]:
  "at xs i k = Ok r \<longleftrightarrow> i < length xs \<and> k (xs ! i) = Ok r"
  "at xs i k = Err e \<longleftrightarrow> i < length xs \<and> k (xs ! i) = Err e"
  "at xs i k = Panic \<longleftrightarrow> (i < length xs \<longrightarrow> k (xs ! i) = Panic)"
  by (simp_all add: at_def)

lemma put_eq [outcome_simps]:
  "put xs i v k = Ok r \<longleftrightarrow> i < length xs \<and> k (xs[i := v]) = Ok r"
  "put xs i v k = Err e \<longleftrightarrow> i < length xs \<and> k (xs[i := v]) = Err e"
  "put xs i v k = Panic \<longleftrightarrow> (i < length xs \<longrightarrow> k (xs[i := v]) = Panic)"
  by (simp_all add: put_def)

lemma need_eq [outcome_simps]:
  "need e opt k = Ok r \<longleftrightarrow> (\<exists>x. opt = Some x \<and> k x = Ok r)"
  "need e opt k = Err e' \<longleftrightarrow> (opt = None \<and> e' = e) \<or> (\<exists>x. opt = Some x \<and> k x = Err e')"
  "need e opt k = Panic \<longleftrightarrow> (\<exists>x. opt = Some x \<and> k x = Panic)"
  by (auto simp: need_def split: option.splits)

lemma expect_eq [outcome_simps]:
  "expect opt k = Ok r \<longleftrightarrow> (\<exists>x. opt = Some x \<and> k x = Ok r)"
  "expect opt k = Err e \<longleftrightarrow> (\<exists>x. opt = Some x \<and> k x = Err e)"
  "expect opt k = Panic \<longleftrightarrow> opt = None \<or> (\<exists>x. opt = Some x \<and> k x = Panic)"
  by (auto simp: expect_def split: option.splits)

lemma andthen_eq [outcome_simps]:
  "andthen m k = Ok r \<longleftrightarrow> (\<exists>x. m = Ok x \<and> k x = Ok r)"
  "andthen m k = Err e \<longleftrightarrow> m = Err e \<or> (\<exists>x. m = Ok x \<and> k x = Err e)"
  "andthen m k = Panic \<longleftrightarrow> m = Panic \<or> (\<exists>x. m = Ok x \<and> k x = Panic)"
  by (cases m; auto)+

lemma andthen_assoc: "andthen (andthen m f) g = andthen m (\<lambda>x. andthen (f x) g)"
  by (cases m) simp_all

lemma map_err_eq [outcome_simps]:
  "map_err f m = Ok r \<longleftrightarrow> m = Ok r"
  "map_err f m = Err e \<longleftrightarrow> (\<exists>e'. m = Err e' \<and> e = f e')"
  "map_err f m = Panic \<longleftrightarrow> m = Panic"
  by (cases m; auto)+

lemma each_Ok: "each f xs = Ok u \<longleftrightarrow> (\<forall>x\<in>set xs. f x = Ok ())"
  by (induction xs) (auto simp: outcome_simps)

lemma each_Panic: "each f xs = Panic \<Longrightarrow> \<exists>x\<in>set xs. f x = Panic"
  by (induction xs) (auto simp: outcome_simps)

lemma each_Err: "each f xs = Err e \<Longrightarrow> \<exists>x\<in>set xs. f x = Err e"
  by (induction xs) (auto simp: outcome_simps)

lemma map_out_Ok:
  "map_out f xs = Ok ys \<longleftrightarrow> list_all2 (\<lambda>x y. f x = Ok y) xs ys"
proof (induction xs arbitrary: ys)
  case Nil
  then show ?case by auto
next
  case (Cons x xs)
  then show ?case by (cases ys) (auto simp: outcome_simps)
qed

lemma map_out_cong [fundef_cong]:
  "xs = ys \<Longrightarrow> (\<And>x. x \<in> set ys \<Longrightarrow> f x = g x) \<Longrightarrow> map_out f xs = map_out g ys"
  by (induction ys arbitrary: xs) auto

lemma at_cong [fundef_cong]:
  "xs = xs' \<Longrightarrow> i = i' \<Longrightarrow> (i' < length xs' \<Longrightarrow> k (xs' ! i') = k' (xs' ! i')) \<Longrightarrow> at xs i k = at xs' i' k'"
  by (simp add: at_def)

lemma expect_cong [fundef_cong]:
  "opt = opt' \<Longrightarrow> (\<And>x. opt' = Some x \<Longrightarrow> k x = k' x) \<Longrightarrow> expect opt k = expect opt' k'"
  by (auto simp: expect_def split: option.splits)

lemma andthen_cong [fundef_cong]:
  "m = m' \<Longrightarrow> (\<And>x. m' = Ok x \<Longrightarrow> k x = k' x) \<Longrightarrow> andthen m k = andthen m' k'"
  by (cases m') auto

lemma map_out_Err: "map_out f xs = Err e \<Longrightarrow> \<exists>x\<in>set xs. f x = Err e"
  by (induction xs) (auto simp: outcome_simps)

lemma map_out_Panic: "map_out f xs = Panic \<Longrightarrow> \<exists>x\<in>set xs. f x = Panic"
  by (induction xs) (auto simp: outcome_simps)

lemma outcome_Ok_if: "m \<noteq> Panic \<Longrightarrow> (\<And>e. m \<noteq> Err e) \<Longrightarrow> \<exists>r. m = Ok r"
  by (cases m) auto

lemma fold_out_append:
  "fold_out f (xs @ ys) s = andthen (fold_out f xs s) (fold_out f ys)"
proof (induction xs arbitrary: s)
  case Nil
  then show ?case by simp
next
  case (Cons x xs)
  then show ?case by (cases "f x s") simp_all
qed

text \<open>The loop invariant rule of \<open>fold_out\<close>.\<close>

lemma fold_out_invariant:
  assumes "fold_out f xs s = Ok s'" and "I s"
    and "\<And>x s s'. x \<in> set xs \<Longrightarrow> I s \<Longrightarrow> f x s = Ok s' \<Longrightarrow> I s'"
  shows "I s'"
  using assms
proof (induction xs arbitrary: s)
  case Nil
  then show ?case by simp
next
  case (Cons x xs)
  then obtain t where "f x s = Ok t" and "fold_out f xs t = Ok s'"
    by (auto simp: outcome_simps)
  with Cons.prems(2,3) show ?case by (intro Cons.IH [of t]) auto
qed

text \<open>Loops that do not panic, by an invariant over the items left.\<close>

lemma fold_out_no_panic:
  assumes "I xs s"
    and "\<And>x xs s. I (x # xs) s \<Longrightarrow> f x s \<noteq> Panic"
    and "\<And>x xs s s'. I (x # xs) s \<Longrightarrow> f x s = Ok s' \<Longrightarrow> I xs s'"
  shows "fold_out f xs s \<noteq> Panic"
  using assms(1)
proof (induction xs arbitrary: s)
  case Nil
  then show ?case by simp
next
  case (Cons x xs)
  from assms(2,3) [OF Cons.prems] Cons.IH show ?case by (cases "f x s") auto
qed

lemma fold_out_Err: "fold_out f xs s = Err e \<Longrightarrow> \<exists>x\<in>set xs. \<exists>t. f x t = Err e"
  by (induction xs arbitrary: s) (auto simp: outcome_simps)

subsection \<open>Loops that keep an invariant and advance a preorder\<close>

text \<open>The contract of a \<^verbatim>\<open>for\<close> loop over a list: on the items that are \<open>ok\<close>, its body keeps \<open>inv\<close> and
  moves the state along \<open>rel\<close>. Then so does the loop, and each item is visited in between.\<close>

locale loop_contract =
  fixes body :: "'x \<Rightarrow> 's \<Rightarrow> ('e, 's) outcome"
    and ok :: "'x \<Rightarrow> bool" and inv :: "'s \<Rightarrow> bool" and rel :: "'s \<Rightarrow> 's \<Rightarrow> bool"
  assumes body_inv: "ok x \<Longrightarrow> inv s \<Longrightarrow> body x s = Ok s' \<Longrightarrow> inv s'"
    and body_rel: "ok x \<Longrightarrow> inv s \<Longrightarrow> body x s = Ok s' \<Longrightarrow> rel s s'"
    and rel_refl: "inv s \<Longrightarrow> rel s s"
    and rel_trans: "rel s t \<Longrightarrow> rel t u \<Longrightarrow> rel s u"
begin

lemma loop: "fold_out body xs s = Ok s' \<Longrightarrow> \<forall>x\<in>set xs. ok x \<Longrightarrow> inv s \<Longrightarrow> inv s' \<and> rel s s'"
proof (induction xs arbitrary: s)
  case Nil
  then show ?case by (simp add: rel_refl)
next
  case (Cons x xs)
  then obtain t where t: "body x s = Ok t" "fold_out body xs t = Ok s'" by (auto simp: outcome_simps)
  with Cons show ?case using body_inv [of x s t] body_rel [of x s t] rel_trans [of s t s'] by auto
qed

lemma loop_visits:
  assumes "fold_out body (xs @ x # ys) s = Ok s'" and "\<forall>z\<in>set (xs @ x # ys). ok z" and "inv s"
  shows "\<exists>t t'. inv t \<and> rel s t \<and> body x t = Ok t' \<and> inv t' \<and> rel t' s'"
proof -
  from assms(1) obtain t t' where "fold_out body xs s = Ok t" "body x t = Ok t'" "fold_out body ys t' = Ok s'"
    by (auto simp: fold_out_append outcome_simps)
  with loop [of xs s t] loop [of ys t' s'] body_inv [of x t t'] assms(2,3) show ?thesis by auto
qed

end

subsection \<open>Checked machine arithmetic\<close>

text \<open>\<^verbatim>\<open>usize\<close> and \<^verbatim>\<open>u64\<close> quantities that only count or index are naturals below \<open>2 ^ 64\<close>; an
  operation on them that would leave that range panics, as with Rust's overflow checks on.\<close>

definition USIZE_LIMIT :: nat where
  "USIZE_LIMIT = 2 ^ 64"

definition checked64 :: "nat \<Rightarrow> (nat \<Rightarrow> ('e, 'a) outcome) \<Rightarrow> ('e, 'a) outcome" where
  "checked64 n k = (if n < USIZE_LIMIT then k n else Panic)"

text \<open>Evaluation compares with the limit in binary.\<close>

lemma checked64_code [code]:
  "checked64 n k = (if int n < 18446744073709551616 then k n else Panic)"
  by (auto simp: checked64_def USIZE_LIMIT_def)

lemma checked64_eq [outcome_simps]:
  "checked64 n k = Ok r \<longleftrightarrow> n < USIZE_LIMIT \<and> k n = Ok r"
  "checked64 n k = Err e \<longleftrightarrow> n < USIZE_LIMIT \<and> k n = Err e"
  "checked64 n k = Panic \<longleftrightarrow> (n < USIZE_LIMIT \<longrightarrow> k n = Panic)"
  by (simp_all add: checked64_def)

subsection \<open>Lists\<close>

lemma nth_list_update_if: "i < length xs \<Longrightarrow> (xs[i := v]) ! j = (if i = j then v else xs ! j)"
  by simp

lemma last_take_Suc: "0 < n \<Longrightarrow> n \<le> length xs \<Longrightarrow> last (take n xs) = xs ! (n - 1)"
  by (cases n) (simp_all add: take_Suc_conv_app_nth)

end
