(* ===== verification/Interleaving_Types.thy ===== *)
theory Interleaving_Types
  imports Prelude
begin

text \<open>
  The data of the interleaving specification
  (\<^verbatim>\<open>interleaving/starstream-interleaving-spec-legacy\<close>): identifiers, opaque values and references, the
  ledger effects a process traces (\<^verbatim>\<open>WitLedgerEffect\<close>) with their numeric discriminants, the argument
  positions of the circuit ABI, the memory tags, and the public instance with its shape check.

  A \<^verbatim>\<open>ProcessId\<close> is its index (\<^verbatim>\<open>usize\<close>, a natural); \<^verbatim>\<open>Ref\<close> wraps the \<^verbatim>\<open>u64\<close> counter value, a
  natural below \<open>2 ^ 64\<close>; \<^verbatim>\<open>Value\<close> is an opaque \<^verbatim>\<open>u64\<close>. A \<^verbatim>\<open>FunctionId\<close> is the canonical value of its
  field element. The phantom type of \<^verbatim>\<open>Hash<T>\<close> is dropped.
\<close>

section \<open>Identifiers and values\<close>

datatype Hash = Hash u64 u64 u64 u64

datatype Value = Value u64

definition Value_nil :: Value where
  "Value_nil = Value 0"

datatype Ref = Ref nat

type_synonym ProcessId = nat

type_synonym InterfaceId = Hash

datatype FunctionId = FunctionId nat

text \<open>\<^verbatim>\<open>LedgerEffectsCommitment\<close>: four Goldilocks field elements, by canonical value.\<close>

datatype LedgerEffectsCommitment = LedgerEffectsCommitment nat nat nat nat

datatype CoroutineState =
    Utxo (storage: "Value list")
  | Token (storage: "Value list")

fun state_kind :: "CoroutineState \<Rightarrow> string" where
  "state_kind (Utxo _) = ''utxo''"
| "state_kind (Token _) = ''token''"

text \<open>\<^verbatim>\<open>matches!(state, CoroutineState::Token { .. })\<close>; two states have the same
  \<^verbatim>\<open>std::mem::discriminant\<close> exactly when this test agrees on them.\<close>

fun is_token_state :: "CoroutineState \<Rightarrow> bool" where
  "is_token_state (Utxo _) = False"
| "is_token_state (Token _) = True"

section \<open>Traced effects\<close>

definition REF_PUSH_WIDTH :: nat where "REF_PUSH_WIDTH = 4"
definition REF_GET_WIDTH :: nat where "REF_GET_WIDTH = 4"
definition REF_WRITE_WIDTH :: nat where "REF_WRITE_WIDTH = 4"

text \<open>The fixed-size array \<^verbatim>\<open>[Value; 4]\<close>.\<close>

datatype Vals4 = Vals4 Value Value Value Value

fun vals_list :: "Vals4 \<Rightarrow> Value list" where
  "vals_list (Vals4 a b c d) = [a, b, c, d]"

datatype 'a WitEffectOutput = Resolved (unwrap: 'a)

definition is_resolved :: "'a WitEffectOutput \<Rightarrow> bool" where
  "is_resolved w = True"

fun to_option :: "'a WitEffectOutput \<Rightarrow> 'a option" where
  "to_option (Resolved t) = Some t"

datatype WitLedgerEffect =
    Resume ProcessId FunctionId Ref "Ref WitEffectOutput" "ProcessId option WitEffectOutput"
  | Yield Ref
  | Return
  | ProgramHash ProcessId "Hash WitEffectOutput"
  | NewUtxo Hash Ref "ProcessId WitEffectOutput"
  | NewToken Hash Ref "ProcessId WitEffectOutput"
  | NewCoord Hash Ref "ProcessId WitEffectOutput"
  | InstallHandler InterfaceId
  | UninstallHandler InterfaceId
  | GetHandlerFor InterfaceId "ProcessId WitEffectOutput"
  | CallEffectHandler InterfaceId FunctionId Ref "Ref WitEffectOutput"
  | Enter FunctionId
  | Burn
  | Activation "Ref WitEffectOutput" "ProcessId WitEffectOutput"
  | Init "Ref WitEffectOutput" "ProcessId WitEffectOutput"
  | NewRef nat "Ref WitEffectOutput"
  | RefPush Vals4
  | RefGet Ref nat "Vals4 WitEffectOutput"
  | RefWrite Ref nat Vals4
  | Bind ProcessId
  | Unbind ProcessId

datatype EffectDiscriminant =
    D_Resume | D_Yield | D_NewUtxo | D_NewCoord | D_InstallHandler | D_UninstallHandler
  | D_GetHandlerFor | D_Burn | D_Activation | D_Init | D_NewRef | D_RefPush | D_RefGet | D_Bind
  | D_Unbind | D_ProgramHash | D_RefWrite | D_Return | D_CallEffectHandler | D_NewToken | D_Enter

text \<open>The numeric discriminants (\<^verbatim>\<open>EffectDiscriminant::Resume as u64\<close>, and so on).\<close>

fun discriminant_value :: "EffectDiscriminant \<Rightarrow> u64" where
  "discriminant_value D_Resume = 0"
| "discriminant_value D_Yield = 1"
| "discriminant_value D_NewUtxo = 2"
| "discriminant_value D_NewCoord = 3"
| "discriminant_value D_InstallHandler = 4"
| "discriminant_value D_UninstallHandler = 5"
| "discriminant_value D_GetHandlerFor = 6"
| "discriminant_value D_Burn = 7"
| "discriminant_value D_Activation = 8"
| "discriminant_value D_Init = 9"
| "discriminant_value D_NewRef = 10"
| "discriminant_value D_RefPush = 11"
| "discriminant_value D_RefGet = 12"
| "discriminant_value D_Bind = 13"
| "discriminant_value D_Unbind = 14"
| "discriminant_value D_ProgramHash = 15"
| "discriminant_value D_RefWrite = 16"
| "discriminant_value D_Return = 17"
| "discriminant_value D_CallEffectHandler = 18"
| "discriminant_value D_NewToken = 19"
| "discriminant_value D_Enter = 20"

datatype EffectDiscriminantError = EffectDiscriminantError u64

definition try_from_u64 :: "u64 \<Rightarrow> (EffectDiscriminantError, EffectDiscriminant) outcome" where
  "try_from_u64 v =
    (if v = 0 then Ok D_Resume
     else if v = 1 then Ok D_Yield
     else if v = 2 then Ok D_NewUtxo
     else if v = 3 then Ok D_NewCoord
     else if v = 4 then Ok D_InstallHandler
     else if v = 5 then Ok D_UninstallHandler
     else if v = 6 then Ok D_GetHandlerFor
     else if v = 7 then Ok D_Burn
     else if v = 8 then Ok D_Activation
     else if v = 9 then Ok D_Init
     else if v = 10 then Ok D_NewRef
     else if v = 11 then Ok D_RefPush
     else if v = 12 then Ok D_RefGet
     else if v = 13 then Ok D_Bind
     else if v = 14 then Ok D_Unbind
     else if v = 15 then Ok D_ProgramHash
     else if v = 16 then Ok D_RefWrite
     else if v = 17 then Ok D_Return
     else if v = 18 then Ok D_CallEffectHandler
     else if v = 19 then Ok D_NewToken
     else if v = 20 then Ok D_Enter
     else Err (EffectDiscriminantError v))"

lemma try_from_discriminant_value: "try_from_u64 (discriminant_value d) = Ok d"
  by (cases d) (simp_all add: try_from_u64_def)

lemma try_from_u64_Ok: "try_from_u64 v = Ok d \<Longrightarrow> discriminant_value d = v"
  unfolding try_from_u64_def by (auto split: if_splits)

section \<open>The circuit ABI\<close>

definition OPCODE_ARG_COUNT :: nat where "OPCODE_ARG_COUNT = 7"

datatype ArgName =
    A_Target | A_Val | A_Ret | A_Caller | A_Offset | A_Size
  | A_ProgramHash0 | A_ProgramHash1 | A_ProgramHash2 | A_ProgramHash3
  | A_ActivationCaller | A_OwnerId | A_TokenId
  | A_InterfaceId0 | A_InterfaceId1 | A_InterfaceId2 | A_InterfaceId3
  | A_FunctionId0 | A_FunctionId1
  | A_PackedRef0 | A_PackedRef1 | A_PackedRef2 | A_PackedRef3 | A_PackedRef4 | A_PackedRef5

fun arg_idx :: "ArgName \<Rightarrow> nat" where
  "arg_idx A_Target = 0"
| "arg_idx A_OwnerId = 0"
| "arg_idx A_TokenId = 0"
| "arg_idx A_Val = 1"
| "arg_idx A_Ret = 2"
| "arg_idx A_Caller = 3"
| "arg_idx A_Offset = 3"
| "arg_idx A_Size = 3"
| "arg_idx A_ActivationCaller = 3"
| "arg_idx A_InterfaceId0 = 3"
| "arg_idx A_InterfaceId1 = 4"
| "arg_idx A_InterfaceId2 = 5"
| "arg_idx A_InterfaceId3 = 6"
| "arg_idx A_ProgramHash0 = 3"
| "arg_idx A_ProgramHash1 = 4"
| "arg_idx A_ProgramHash2 = 5"
| "arg_idx A_ProgramHash3 = 6"
| "arg_idx A_FunctionId0 = 0"
| "arg_idx A_FunctionId1 = 4"
| "arg_idx A_PackedRef0 = 0"
| "arg_idx A_PackedRef1 = 1"
| "arg_idx A_PackedRef2 = 2"
| "arg_idx A_PackedRef3 = 3"
| "arg_idx A_PackedRef4 = 4"
| "arg_idx A_PackedRef5 = 5"

lemma arg_idx_bound: "arg_idx a < OPCODE_ARG_COUNT"
  by (cases a) (simp_all add: OPCODE_ARG_COUNT_def)

datatype RomMemoryTag = ProcessTable | MustBurn | IsUtxo | Interfaces | IsToken

fun rom_tag :: "RomMemoryTag \<Rightarrow> u64" where
  "rom_tag ProcessTable = 0"
| "rom_tag MustBurn = 1"
| "rom_tag IsUtxo = 2"
| "rom_tag Interfaces = 3"
| "rom_tag IsToken = 4"

datatype RamMemoryTag =
    RExpectedInput | RActivation | RInitialized | RFinalized | RDidBurn | ROwnership | RInit
  | RRefArena | RRefSizes | RRefBases | RHandlerStackArenaProcess | RHandlerStackArenaNextPtr
  | RHandlerStackHeads | RTraceCommitments | RExpectedResumer | ROnYield | RYieldTo | RInitCaller
  | RMustEnter | RMustExit

fun ram_tag :: "RamMemoryTag \<Rightarrow> u64" where
  "ram_tag RExpectedInput = 0"
| "ram_tag RActivation = 1"
| "ram_tag RInitialized = 2"
| "ram_tag RFinalized = 3"
| "ram_tag RDidBurn = 4"
| "ram_tag ROwnership = 5"
| "ram_tag RInit = 6"
| "ram_tag RRefArena = 7"
| "ram_tag RRefSizes = 8"
| "ram_tag RRefBases = 9"
| "ram_tag RHandlerStackArenaProcess = 10"
| "ram_tag RHandlerStackArenaNextPtr = 11"
| "ram_tag RHandlerStackHeads = 12"
| "ram_tag RTraceCommitments = 13"
| "ram_tag RExpectedResumer = 14"
| "ram_tag ROnYield = 15"
| "ram_tag RYieldTo = 16"
| "ram_tag RInitCaller = 17"
| "ram_tag RMustEnter = 18"
| "ram_tag RMustExit = 19"

section \<open>Errors\<close>

datatype InterleavingError =
    Shape string
  | BadPid ProcessId
  | SelfResume ProcessId
  | UtxoResumesUtxo ProcessId ProcessId
  | TargetNotInitialized ProcessId
  | ResumeClaimMismatch ProcessId Ref Ref
  | YieldClaimMismatch "ProcessId option" "Value list" "Value list"
  | ResumerMismatch ProcessId ProcessId ProcessId
  | ProgramHashMismatch ProcessId Hash Hash
  | CoordOnly ProcessId
  | UtxoOnly ProcessId
  | InstalledHandlerIsNotCurrent InterfaceId ProcessId
  | HandlerNotFound InterfaceId ProcessId
  | HandlerGetMismatch InterfaceId "ProcessId option" ProcessId
  | TokenAlreadyOwned ProcessId "ProcessId option"
  | OwnerNotUtxo ProcessId
  | UnbindNotOwner ProcessId "ProcessId option" ProcessId
  | YieldWithNoParent ProcessId
  | BurnWithNoParent ProcessId
  | UtxoNotFinalized ProcessId
  | UtxoShouldBurn ProcessId
  | UtxoShouldNotBurn ProcessId
  | FinishedInUtxo ProcessId
  | BurnedInputNoBurn ProcessId
  | OwnershipOutMismatch ProcessId "ProcessId option" "ProcessId option"
  | LiveTokenMustBeBound ProcessId
  | ProcessNotInitialized ProcessId
  | ReentrantResume ProcessId
  | RefNotFound Ref
  | RefPushNotBuilding ProcessId
  | BuildingRefButCalledOther ProcessId
  | RefPushOutOfBounds ProcessId nat
  | RefGetOutOfBounds Ref nat nat
  | RefInitializationMismatch Ref Ref
  | MustEnterPending ProcessId FunctionId
  | EnterMismatch ProcessId FunctionId FunctionId

section \<open>The public instance\<close>

record InterleavingInstance =
  host_calls_roots :: "LedgerEffectsCommitment list"
  process_table :: "Hash list"
  is_utxo :: "bool list"
  is_token :: "bool list"
  must_burn :: "bool list"
  n_inputs :: nat
  n_new :: nat
  n_coords :: nat
  ownership_in :: "ProcessId option list"
  ownership_out :: "ProcessId option list"
  entrypoint :: ProcessId
  input_states :: "CoroutineState list"

definition check_shape :: "InterleavingInstance \<Rightarrow> (InterleavingError, unit) outcome" where
  "check_shape inst =
    (let n = length (process_table inst) in
     if length (is_utxo inst) \<noteq> n then Err (Shape ''is_utxo len != process_table len'')
     else if length (is_token inst) \<noteq> n then Err (Shape ''is_token len != process_table len'')
     else if list_ex (\<lambda>(tok, utxo). tok \<and> \<not> utxo) (zip (is_token inst) (is_utxo inst))
       then Err (Shape ''is_token implies is_utxo for every process'')
     else if length (ownership_in inst) \<noteq> n_inputs inst + n_new inst
           \<or> length (ownership_out inst) \<noteq> n_inputs inst + n_new inst
       then Err (Shape ''ownership_* len != self.n_inputs len + self.n_new len'')
     else if entrypoint inst \<ge> n then Err (BadPid (entrypoint inst))
     else if length (must_burn inst) \<noteq> n_inputs inst then Err (Shape ''burned len != n_inputs'')
     else Ok ())"

lemma check_shape_Ok:
  assumes "check_shape inst = Ok u"
  shows "length (is_utxo inst) = length (process_table inst)"
    and "length (is_token inst) = length (process_table inst)"
    and "length (ownership_in inst) = n_inputs inst + n_new inst"
    and "length (ownership_out inst) = n_inputs inst + n_new inst"
    and "entrypoint inst < length (process_table inst)"
    and "length (must_burn inst) = n_inputs inst"
    and "i < length (process_table inst) \<Longrightarrow> is_token inst ! i \<Longrightarrow> is_utxo inst ! i"
proof -
  have ok: "length (is_utxo inst) = length (process_table inst)
    \<and> length (is_token inst) = length (process_table inst)
    \<and> \<not> list_ex (\<lambda>(tok, utxo). tok \<and> \<not> utxo) (zip (is_token inst) (is_utxo inst))
    \<and> length (ownership_in inst) = n_inputs inst + n_new inst
    \<and> length (ownership_out inst) = n_inputs inst + n_new inst
    \<and> entrypoint inst < length (process_table inst)
    \<and> length (must_burn inst) = n_inputs inst"
    using assms unfolding check_shape_def Let_def by (simp split: if_splits)
  then show "length (is_utxo inst) = length (process_table inst)"
    and "length (is_token inst) = length (process_table inst)"
    and "length (ownership_in inst) = n_inputs inst + n_new inst"
    and "length (ownership_out inst) = n_inputs inst + n_new inst"
    and "entrypoint inst < length (process_table inst)"
    and "length (must_burn inst) = n_inputs inst"
    by simp_all
  show "is_utxo inst ! i" if "i < length (process_table inst)" "is_token inst ! i"
  proof (rule ccontr)
    assume no: "\<not> is_utxo inst ! i"
    have "(is_token inst ! i, is_utxo inst ! i) \<in> set (zip (is_token inst) (is_utxo inst))"
      using ok that(1) by (auto simp: set_zip)
    with ok no that(2) show False by (auto simp: list_ex_iff)
  qed
qed

lemma check_shape_no_panic: "check_shape inst \<noteq> Panic"
  by (simp add: check_shape_def Let_def)

end
