(* ===== verification/Interleaving_Machine.thy ===== *)
theory Interleaving_Machine
  imports Interleaving_Types
begin

text \<open>
  The interleaving machine of \<^verbatim>\<open>mocked_verifier.rs\<close>: its read-only memory (\<open>Rom\<close>), its state
  (\<open>InterleavingState\<close>), one definition per arm of \<^verbatim>\<open>state_transition\<close>, the transition itself, the run
  loop and the final conditions of \<^verbatim>\<open>verify_interleaving_semantics\<close>.

  A \<^verbatim>\<open>Vec\<close> indexed by process id is a list read with \<open>at\<close> and written with \<open>put\<close>; the updates of an
  arm keep the order of the source. A state in which an arm returned an error is dropped, as the
  source drops the moved \<^verbatim>\<open>state\<close>.
\<close>

record InterleavingWitness =
  traces :: "WitLedgerEffect list list"

record Rom =
  rom_process_table :: "Hash list"
  rom_must_burn :: "bool list"
  rom_is_utxo :: "bool list"
  rom_is_token :: "bool list"
  rom_traces :: "WitLedgerEffect list list"

record InterleavingState =
  id_curr :: ProcessId
  id_prev :: "ProcessId option"
  s_entrypoint :: ProcessId
  expected_input :: "Ref option list"
  expected_resumer :: "ProcessId option list"
  on_yield :: "bool list"
  yield_to :: "ProcessId option list"
  activation :: "(Ref \<times> ProcessId) option list"
  init :: "(Ref \<times> ProcessId) option list"
  ref_counter :: nat
  ref_store :: "Ref \<rightharpoonup> Value list"
  ref_sizes :: "Ref \<rightharpoonup> nat"
  ref_building :: "ProcessId \<rightharpoonup> Ref \<times> nat \<times> nat"
  initialized :: "bool list"
  finalized :: "bool list"
  did_burn :: "bool list"
  must_enter :: "FunctionId option list"
  must_exit :: "bool list"
  ownership :: "ProcessId option list"
  handler_stack :: "InterfaceId \<rightharpoonup> ProcessId list"

type_synonym step_result = "(InterleavingError, InterleavingState) outcome"

text \<open>\<^verbatim>\<open>if let Some(expected) = opt && expected != got { return Err(..) }\<close>\<close>

definition claim :: "'x option \<Rightarrow> 'x \<Rightarrow> ('x \<Rightarrow> 'e) \<Rightarrow> ('e, 'a) outcome \<Rightarrow> ('e, 'a) outcome" where
  "claim opt got err k =
    (case opt of None \<Rightarrow> k | Some expected \<Rightarrow> if expected \<noteq> got then Err (err expected) else k)"

lemma claim_eq [outcome_simps]:
  "claim opt got err k = Ok r \<longleftrightarrow> (opt = None \<or> opt = Some got) \<and> k = Ok r"
  "claim opt got err k = Err e \<longleftrightarrow>
     (opt = None \<or> opt = Some got) \<and> k = Err e
     \<or> (\<exists>x. opt = Some x \<and> x \<noteq> got \<and> e = err x)"
  "claim opt got err k = Panic \<longleftrightarrow> (opt = None \<or> opt = Some got) \<and> k = Panic"
  by (auto simp: claim_def split: option.splits if_splits)

text \<open>\<^verbatim>\<open>a && xs[i]\<close>: the vector is read only when \<^verbatim>\<open>a\<close> holds.\<close>

definition and_at :: "bool \<Rightarrow> bool list \<Rightarrow> nat \<Rightarrow> (bool \<Rightarrow> ('e, 'a) outcome) \<Rightarrow> ('e, 'a) outcome" where
  "and_at b xs i k = (if b then at xs i k else k False)"

lemma and_at_eq [outcome_simps]:
  "and_at b xs i k = Ok r \<longleftrightarrow> (if b then i < length xs \<and> k (xs ! i) = Ok r else k False = Ok r)"
  "and_at b xs i k = Err e \<longleftrightarrow> (if b then i < length xs \<and> k (xs ! i) = Err e else k False = Err e)"
  "and_at b xs i k = Panic \<longleftrightarrow> (if b then (i < length xs \<longrightarrow> k (xs ! i) = Panic) else k False = Panic)"
  by (simp_all add: and_at_def outcome_simps)

section \<open>Control transfer\<close>

definition op_resume ::
  "Rom \<Rightarrow> InterleavingState \<Rightarrow> ProcessId \<Rightarrow> FunctionId \<Rightarrow> Ref \<Rightarrow> Ref WitEffectOutput
    \<Rightarrow> ProcessId option WitEffectOutput \<Rightarrow> step_result" where
  "op_resume rom s target f_id val ret caller =
    (let c = id_curr s in
     if c = target then Err (SelfResume c) else
     at (rom_is_utxo rom) c (\<lambda>curr_utxo.
     and_at curr_utxo (rom_is_utxo rom) target (\<lambda>both_utxo.
     if both_utxo then Err (UtxoResumesUtxo c target) else
     at (initialized s) target (\<lambda>target_init.
     if \<not> target_init then Err (TargetNotInitialized target) else
     at (activation s) target (\<lambda>target_act.
     if target_act \<noteq> None then Err (ReentrantResume target) else
     put (activation s) c None (\<lambda>act1.
     at (expected_input s) target (\<lambda>exp_in.
     claim exp_in val (\<lambda>e. ResumeClaimMismatch target e val) (
     at (expected_resumer s) target (\<lambda>exp_res.
     claim exp_res c (\<lambda>e. ResumerMismatch target e c) (
     put (expected_input s) target None (\<lambda>ei1.
     put (expected_resumer s) target None (\<lambda>er1.
     put act1 target (Some (val, c)) (\<lambda>act2.
     put ei1 c (to_option ret) (\<lambda>ei2.
     put er1 c (Option.bind (to_option caller) (\<lambda>o'. o')) (\<lambda>er2.
     put (must_exit s) c False (\<lambda>mx.
     put (must_enter s) target (Some f_id) (\<lambda>me.
     at (on_yield s) target (\<lambda>yielded.
     let finish = (\<lambda>yt oy. put (finalized s) target False (\<lambda>fin.
           Ok (s\<lparr>activation := act2, expected_input := ei2, expected_resumer := er2,
                 must_exit := mx, must_enter := me, yield_to := yt, on_yield := oy,
                 id_prev := Some c, id_curr := target, finalized := fin\<rparr>)))
     in if yielded \<and> \<not> curr_utxo
        then put (yield_to s) target (Some c) (\<lambda>yt. put (on_yield s) target False (\<lambda>oy. finish yt oy))
        else finish (yield_to s) (on_yield s)))))))))))))))))))"

definition op_yield :: "Rom \<Rightarrow> InterleavingState \<Rightarrow> Ref \<Rightarrow> step_result" where
  "op_yield rom s val_ref =
    (let c = id_curr s in
     at (rom_is_utxo rom) c (\<lambda>curr_utxo.
     if \<not> curr_utxo then Err (UtxoOnly c) else
     need (YieldWithNoParent c) (if c < length (yield_to s) then yield_to s ! c else None) (\<lambda>parent.
     need (RefNotFound val_ref) (ref_store s val_ref) (\<lambda>val.
     at (expected_resumer s) parent (\<lambda>exp_res.
     claim exp_res c (\<lambda>e. ResumerMismatch parent e c) (
     put (finalized s) c True (\<lambda>fin.
     at (expected_input s) parent (\<lambda>exp_in.
     let finish =
       put (on_yield s) c True (\<lambda>oy. put (activation s) c None (\<lambda>act. put (must_exit s) c False (\<lambda>mx.
         Ok (s\<lparr>finalized := fin, on_yield := oy, id_prev := Some c, activation := act,
               must_exit := mx, id_curr := parent\<rparr>))))
     in case exp_in of
          None \<Rightarrow> finish
        | Some expected_ref \<Rightarrow>
            need (RefNotFound expected_ref) (ref_store s expected_ref) (\<lambda>expected.
            if expected \<noteq> val then Err (YieldClaimMismatch (id_prev s) expected val)
            else finish)))))))))"

definition op_return :: "Rom \<Rightarrow> InterleavingState \<Rightarrow> step_result" where
  "op_return rom s =
    (let c = id_curr s in
     at (rom_is_utxo rom) c (\<lambda>curr_utxo.
     if curr_utxo then Err (CoordOnly c) else
     put (finalized s) c True (\<lambda>fin.
     put (activation s) c None (\<lambda>act.
     put (must_exit s) c False (\<lambda>mx.
     let s' = s\<lparr>finalized := fin, activation := act, must_exit := mx\<rparr> in
     at (yield_to s) c (\<lambda>parent.
     case parent of
       Some p \<Rightarrow> Ok (s'\<lparr>id_prev := Some c, id_curr := p\<rparr>)
     | None \<Rightarrow>
         if c \<noteq> s_entrypoint s
         then Err (Shape ''Return requires parent unless current process is entrypoint'')
         else Ok s'))))))"

definition op_program_hash ::
  "Rom \<Rightarrow> InterleavingState \<Rightarrow> ProcessId \<Rightarrow> Hash WitEffectOutput \<Rightarrow> step_result" where
  "op_program_hash rom s target program_hash =
    at (rom_process_table rom) target (\<lambda>expected.
    if expected \<noteq> unwrap program_hash
    then Err (ProgramHashMismatch target expected (unwrap program_hash))
    else Ok s)"

section \<open>Creation\<close>

text \<open>The assignments that end the three \<^verbatim>\<open>New*\<close> arms.\<close>

definition init_new_process :: "InterleavingState \<Rightarrow> ProcessId \<Rightarrow> Ref \<Rightarrow> step_result" where
  "init_new_process s pid val =
    put (initialized s) pid True (\<lambda>ini.
    put (init s) pid (Some (val, id_curr s)) (\<lambda>inits.
    put (expected_input s) pid None (\<lambda>ei.
    put (expected_resumer s) pid None (\<lambda>er.
    put (on_yield s) pid True (\<lambda>oy.
    put (yield_to s) pid None (\<lambda>yt.
    Ok (s\<lparr>initialized := ini, init := inits, expected_input := ei, expected_resumer := er,
          on_yield := oy, yield_to := yt\<rparr>)))))))"

definition op_new_utxo ::
  "Rom \<Rightarrow> InterleavingState \<Rightarrow> Hash \<Rightarrow> Ref \<Rightarrow> ProcessId WitEffectOutput \<Rightarrow> step_result" where
  "op_new_utxo rom s program_hash val wid =
    (let pid = unwrap wid; c = id_curr s in
     at (rom_is_utxo rom) c (\<lambda>curr_utxo.
     if curr_utxo then Err (CoordOnly c) else
     at (rom_is_utxo rom) pid (\<lambda>utxo.
     if \<not> utxo then Err (Shape ''NewUtxo id must be utxo'') else
     at (rom_is_token rom) pid (\<lambda>tok.
     if tok then Err (Shape ''NewUtxo id must not be token'') else
     at (rom_process_table rom) pid (\<lambda>expected.
     if expected \<noteq> program_hash then Err (ProgramHashMismatch pid expected program_hash) else
     at (initialized s) pid (\<lambda>ini.
     if ini then Err (Shape ''NewUtxo requires initialized[id]==false'') else
     init_new_process s pid val))))))"

definition op_new_token ::
  "Rom \<Rightarrow> InterleavingState \<Rightarrow> Hash \<Rightarrow> Ref \<Rightarrow> ProcessId WitEffectOutput \<Rightarrow> step_result" where
  "op_new_token rom s program_hash val wid =
    (let pid = unwrap wid; c = id_curr s in
     at (rom_is_utxo rom) c (\<lambda>curr_utxo.
     if curr_utxo then Err (CoordOnly c) else
     at (rom_is_utxo rom) pid (\<lambda>utxo.
     if \<not> utxo then Err (Shape ''NewToken id must be utxo'') else
     at (rom_is_token rom) pid (\<lambda>tok.
     if \<not> tok then Err (Shape ''NewToken id must be token'') else
     at (rom_process_table rom) pid (\<lambda>expected.
     if expected \<noteq> program_hash then Err (ProgramHashMismatch pid expected program_hash) else
     at (initialized s) pid (\<lambda>ini.
     if ini then Err (Shape ''NewToken requires initialized[id]==false'') else
     init_new_process s pid val))))))"

definition op_new_coord ::
  "Rom \<Rightarrow> InterleavingState \<Rightarrow> Hash \<Rightarrow> Ref \<Rightarrow> ProcessId WitEffectOutput \<Rightarrow> step_result" where
  "op_new_coord rom s program_hash val wid =
    (let pid = unwrap wid; c = id_curr s in
     at (rom_is_utxo rom) c (\<lambda>curr_utxo.
     if curr_utxo then Err (CoordOnly c) else
     at (rom_is_utxo rom) pid (\<lambda>utxo.
     if utxo then Err (Shape ''NewCoord id must be coord'') else
     at (rom_process_table rom) pid (\<lambda>expected.
     if expected \<noteq> program_hash then Err (ProgramHashMismatch pid expected program_hash) else
     at (initialized s) pid (\<lambda>ini.
     if ini then Err (Shape ''NewCoord requires initialized[id]==false'') else
     init_new_process s pid val)))))"

section \<open>Effect handlers\<close>

text \<open>\<^verbatim>\<open>handler_stack.entry(interface_id).or_default()\<close>: the stack, and the map that now holds it.
  The last element is the top.\<close>

definition stack_of :: "InterleavingState \<Rightarrow> InterfaceId \<Rightarrow> ProcessId list" where
  "stack_of s i = (case handler_stack s i of None \<Rightarrow> [] | Some st \<Rightarrow> st)"

definition top_of :: "ProcessId list \<Rightarrow> ProcessId option" where
  "top_of st = (if st = [] then None else Some (last st))"

definition op_install_handler :: "Rom \<Rightarrow> InterleavingState \<Rightarrow> InterfaceId \<Rightarrow> step_result" where
  "op_install_handler rom s interface_id =
    at (rom_is_utxo rom) (id_curr s) (\<lambda>curr_utxo.
    if curr_utxo then Err (CoordOnly (id_curr s)) else
    Ok (s\<lparr>handler_stack := (handler_stack s)(interface_id \<mapsto> stack_of s interface_id @ [id_curr s])\<rparr>))"

definition op_uninstall_handler :: "Rom \<Rightarrow> InterleavingState \<Rightarrow> InterfaceId \<Rightarrow> step_result" where
  "op_uninstall_handler rom s interface_id =
    at (rom_is_utxo rom) (id_curr s) (\<lambda>curr_utxo.
    if curr_utxo then Err (CoordOnly (id_curr s)) else
    let stack = stack_of s interface_id in
    need (HandlerNotFound interface_id (id_curr s)) (top_of stack) (\<lambda>top'.
    if top' \<noteq> id_curr s then Err (InstalledHandlerIsNotCurrent interface_id (id_curr s)) else
    Ok (s\<lparr>handler_stack := (handler_stack s)(interface_id \<mapsto> butlast stack)\<rparr>)))"

definition op_get_handler_for ::
  "InterleavingState \<Rightarrow> InterfaceId \<Rightarrow> ProcessId WitEffectOutput \<Rightarrow> step_result" where
  "op_get_handler_for s interface_id handler_id =
    (let stack = stack_of s interface_id; expected = top_of stack in
     if expected \<noteq> Some (unwrap handler_id)
     then Err (HandlerGetMismatch interface_id expected (unwrap handler_id))
     else Ok (s\<lparr>handler_stack := (handler_stack s)(interface_id \<mapsto> stack)\<rparr>))"

definition op_call_effect_handler ::
  "InterleavingState \<Rightarrow> InterfaceId \<Rightarrow> FunctionId \<Rightarrow> Ref \<Rightarrow> Ref WitEffectOutput \<Rightarrow> step_result" where
  "op_call_effect_handler s interface_id f_id val ret =
    (let c = id_curr s; stack = stack_of s interface_id in
     need (HandlerNotFound interface_id c) (top_of stack) (\<lambda>target.
     at (activation s) target (\<lambda>target_act.
     if target_act \<noteq> None then Err (ReentrantResume target) else
     put (activation s) c None (\<lambda>act1.
     at (expected_input s) target (\<lambda>exp_in.
     claim exp_in val (\<lambda>e. ResumeClaimMismatch target e val) (
     at (expected_resumer s) target (\<lambda>exp_res.
     claim exp_res c (\<lambda>e. ResumerMismatch target e c) (
     put (expected_input s) target None (\<lambda>ei1.
     put (expected_resumer s) target None (\<lambda>er1.
     put act1 target (Some (val, c)) (\<lambda>act2.
     put ei1 c (to_option ret) (\<lambda>ei2.
     put er1 c (Some target) (\<lambda>er2.
     put (must_exit s) c False (\<lambda>mx.
     put (must_enter s) target (Some f_id) (\<lambda>me.
     put (finalized s) target False (\<lambda>fin.
     Ok (s\<lparr>handler_stack := (handler_stack s)(interface_id \<mapsto> stack),
           activation := act2, expected_input := ei2, expected_resumer := er2,
           must_exit := mx, must_enter := me, id_prev := Some c, id_curr := target,
           finalized := fin\<rparr>)))))))))))))))))"

definition op_enter :: "InterleavingState \<Rightarrow> FunctionId \<Rightarrow> step_result" where
  "op_enter s f_id =
    (let c = id_curr s in
     at (must_enter s) c (\<lambda>pending.
     need (MustEnterPending c f_id) pending (\<lambda>expected.
     if expected \<noteq> f_id then Err (EnterMismatch c expected f_id) else
     at (must_exit s) c (\<lambda>active.
     if active then Err (Shape ''Enter called while function frame already active'') else
     put (must_enter s) c None (\<lambda>me.
     put (must_exit s) c True (\<lambda>mx.
     Ok (s\<lparr>must_enter := me, must_exit := mx\<rparr>)))))))"

definition op_activation ::
  "InterleavingState \<Rightarrow> Ref WitEffectOutput \<Rightarrow> ProcessId WitEffectOutput \<Rightarrow> step_result" where
  "op_activation s val caller =
    at (activation s) (id_curr s) (\<lambda>act.
    case act of
      None \<Rightarrow> Err (Shape ''Activation called with no arg set'')
    | Some (v, c) \<Rightarrow>
        if v \<noteq> unwrap val \<or> c \<noteq> unwrap caller then Err (Shape ''Activation result mismatch'')
        else Ok s)"

definition op_init ::
  "InterleavingState \<Rightarrow> Ref WitEffectOutput \<Rightarrow> ProcessId WitEffectOutput \<Rightarrow> step_result" where
  "op_init s val caller =
    at (init s) (id_curr s) (\<lambda>taken.
    put (init s) (id_curr s) None (\<lambda>inits.
    case taken of
      None \<Rightarrow> Err (Shape ''Init called with no arg set'')
    | Some (v, c) \<Rightarrow>
        if v \<noteq> unwrap val \<or> c \<noteq> unwrap caller then Err (Shape ''Init result mismatch'')
        else Ok (s\<lparr>init := inits\<rparr>)))"

section \<open>The reference arena\<close>

text \<open>\<^verbatim>\<open>vec![Value(0); n]\<close> panics with a capacity overflow when the \<open>n\<close> values of eight bytes exceed
  \<^verbatim>\<open>isize::MAX\<close> bytes.\<close>

definition ISIZE_MAX :: nat where
  "ISIZE_MAX = 2 ^ 63 - 1"

definition zeroed_values :: "nat \<Rightarrow> (Value list \<Rightarrow> ('e, 'a) outcome) \<Rightarrow> ('e, 'a) outcome" where
  "zeroed_values n k = (if n * 8 \<le> ISIZE_MAX then k (replicate n (Value 0)) else Panic)"

lemma zeroed_values_code [code]:
  "zeroed_values n k = (if int n < 1152921504606846976 then k (replicate n (Value 0)) else Panic)"
  by (auto simp: zeroed_values_def ISIZE_MAX_def)

lemma zeroed_values_eq [outcome_simps]:
  "zeroed_values n k = Ok r \<longleftrightarrow> n * 8 \<le> ISIZE_MAX \<and> k (replicate n (Value 0)) = Ok r"
  "zeroed_values n k = Err e \<longleftrightarrow> n * 8 \<le> ISIZE_MAX \<and> k (replicate n (Value 0)) = Err e"
  "zeroed_values n k = Panic \<longleftrightarrow> (n * 8 \<le> ISIZE_MAX \<longrightarrow> k (replicate n (Value 0)) = Panic)"
  by (simp_all add: zeroed_values_def)

definition op_new_ref :: "InterleavingState \<Rightarrow> nat \<Rightarrow> Ref WitEffectOutput \<Rightarrow> step_result" where
  "op_new_ref s size_words ret =
    (if ref_building s (id_curr s) \<noteq> None then Err (BuildingRefButCalledOther (id_curr s)) else
     let new_ref = Ref (ref_counter s) in
     checked64 (size_words * REF_PUSH_WIDTH) (\<lambda>size_elems.
     checked64 (ref_counter s + 1) (\<lambda>counter.
     if new_ref \<noteq> unwrap ret then Err (RefInitializationMismatch (unwrap ret) new_ref) else
     zeroed_values size_elems (\<lambda>vec.
     Ok (s\<lparr>ref_counter := counter,
           ref_store := (ref_store s)(new_ref \<mapsto> vec),
           ref_sizes := (ref_sizes s)(new_ref \<mapsto> size_words),
           ref_building :=
             (if size_words > 0 then (ref_building s)(id_curr s \<mapsto> (new_ref, 0, size_words))
              else ref_building s)\<rparr>)))))"

text \<open>The loop over \<^verbatim>\<open>vals.iter().enumerate()\<close>; \<open>i\<close> is the position of the first value.\<close>

fun push_vals ::
  "ProcessId \<Rightarrow> nat \<Rightarrow> nat \<Rightarrow> nat \<Rightarrow> Value list \<Rightarrow> Value list \<Rightarrow> (InterleavingError, Value list) outcome" where
  "push_vals pid offset_words size_words i [] vec = Ok vec"
| "push_vals pid offset_words size_words i (v # vals) vec =
    (let pos = offset_words * REF_PUSH_WIDTH + i in
     if pos \<ge> size_words * REF_PUSH_WIDTH \<and> v \<noteq> Value_nil then Err (RefPushOutOfBounds pid size_words)
     else push_vals pid offset_words size_words (Suc i) vals
            (if pos < length vec then vec[pos := v] else vec))"

definition op_ref_push :: "InterleavingState \<Rightarrow> Vals4 \<Rightarrow> step_result" where
  "op_ref_push s vals =
    (let c = id_curr s in
     need (RefPushNotBuilding c) (ref_building s c) (\<lambda>(reff, offset_words, size_words).
     let building1 = (ref_building s)(c := None); new_offset = offset_words + 1 in
     need (RefNotFound reff) (ref_store s reff) (\<lambda>vec.
     andthen (push_vals c offset_words size_words 0 (vals_list vals) vec) (\<lambda>vec'.
     Ok (s\<lparr>ref_store := (ref_store s)(reff \<mapsto> vec'),
           ref_building :=
             (if new_offset < size_words then building1(c \<mapsto> (reff, new_offset, size_words))
              else building1)\<rparr>)))))"

definition op_ref_get :: "InterleavingState \<Rightarrow> Ref \<Rightarrow> nat \<Rightarrow> Vals4 WitEffectOutput \<Rightarrow> step_result" where
  "op_ref_get s reff offset ret =
    need (RefNotFound reff) (ref_store s reff) (\<lambda>vec.
    need (RefNotFound reff) (ref_sizes s reff) (\<lambda>size_words.
    if offset \<ge> size_words then Err (Shape ''RefGet out of bounds'') else
    andthen
      (map_out (\<lambda>i. let idx = offset * REF_GET_WIDTH + i in
                    if idx < size_words * REF_GET_WIDTH then at vec idx Ok else Ok Value_nil)
               [0..<REF_GET_WIDTH])
      (\<lambda>val. if val \<noteq> vals_list (unwrap ret) then Err (Shape ''RefGet result mismatch'') else Ok s)))"

text \<open>\<^verbatim>\<open>for (i, val) in vals.iter().enumerate() { vec[offset * REF_WRITE_WIDTH + i] = *val; }\<close>\<close>

definition write_vals :: "nat \<Rightarrow> Value list \<Rightarrow> Value list \<Rightarrow> (InterleavingError, Value list) outcome" where
  "write_vals offset vals =
    fold_out (\<lambda>(i, v) xs. put xs (offset * REF_WRITE_WIDTH + i) v Ok) (enumerate 0 vals)"

definition op_ref_write :: "InterleavingState \<Rightarrow> Ref \<Rightarrow> nat \<Rightarrow> Vals4 \<Rightarrow> step_result" where
  "op_ref_write s reff offset vals =
    need (RefNotFound reff) (ref_store s reff) (\<lambda>vec.
    need (RefNotFound reff) (ref_sizes s reff) (\<lambda>size_words.
    if offset \<ge> size_words then Err (Shape ''RefWrite out of bounds'') else
    andthen (write_vals offset (vals_list vals) vec) (\<lambda>vec'.
    Ok (s\<lparr>ref_store := (ref_store s)(reff \<mapsto> vec')\<rparr>))))"

section \<open>Utxos and tokens\<close>

definition op_burn :: "Rom \<Rightarrow> InterleavingState \<Rightarrow> step_result" where
  "op_burn rom s =
    (let c = id_curr s in
     at (rom_is_utxo rom) c (\<lambda>curr_utxo.
     if \<not> curr_utxo then Err (UtxoOnly c) else
     at (rom_must_burn rom) c (\<lambda>burns.
     if \<not> burns then Err (UtxoShouldNotBurn c) else
     put (did_burn s) c True (\<lambda>db. Ok (s\<lparr>did_burn := db\<rparr>)))))"

definition op_bind :: "Rom \<Rightarrow> InterleavingState \<Rightarrow> ProcessId \<Rightarrow> step_result" where
  "op_bind rom s owner_id =
    (let token_id = id_curr s in
     at (rom_is_utxo rom) token_id (\<lambda>token_utxo.
     if \<not> token_utxo then Err (Shape ''Bind: token_id must be utxo'') else
     at (rom_is_utxo rom) owner_id (\<lambda>owner_utxo.
     if \<not> owner_utxo then Err (OwnerNotUtxo owner_id) else
     at (initialized s) token_id (\<lambda>token_init.
     if \<not> token_init then Err (Shape ''Bind: both must be initialized'') else
     at (initialized s) owner_id (\<lambda>owner_init.
     if \<not> owner_init then Err (Shape ''Bind: both must be initialized'') else
     at (ownership s) token_id (\<lambda>cur_owner.
     if cur_owner \<noteq> None then Err (TokenAlreadyOwned token_id cur_owner) else
     put (ownership s) token_id (Some owner_id) (\<lambda>ow. Ok (s\<lparr>ownership := ow\<rparr>))))))))"

definition op_unbind :: "Rom \<Rightarrow> InterleavingState \<Rightarrow> ProcessId \<Rightarrow> step_result" where
  "op_unbind rom s token_id =
    (let owner_id = id_curr s in
     at (rom_is_utxo rom) owner_id (\<lambda>owner_utxo.
     if \<not> owner_utxo then Err (Shape ''Unbind: caller must be utxo'') else
     at (rom_is_utxo rom) token_id (\<lambda>token_utxo.
     if \<not> token_utxo then Err (Shape ''Unbind: token must exist and be utxo'') else
     at (initialized s) token_id (\<lambda>token_init.
     if \<not> token_init then Err (Shape ''Unbind: token must exist and be utxo'') else
     at (ownership s) token_id (\<lambda>cur_owner.
     if cur_owner \<noteq> Some owner_id then Err (UnbindNotOwner token_id cur_owner owner_id) else
     put (ownership s) token_id None (\<lambda>ow. Ok (s\<lparr>ownership := ow\<rparr>)))))))"

section \<open>The transition\<close>

text \<open>The \<^verbatim>\<open>match op\<close> of \<^verbatim>\<open>state_transition\<close>.\<close>

fun dispatch :: "Rom \<Rightarrow> InterleavingState \<Rightarrow> WitLedgerEffect \<Rightarrow> step_result" where
  "dispatch rom s (Resume target f_id val ret caller) = op_resume rom s target f_id val ret caller"
| "dispatch rom s (Yield val) = op_yield rom s val"
| "dispatch rom s Return = op_return rom s"
| "dispatch rom s (ProgramHash target program_hash) = op_program_hash rom s target program_hash"
| "dispatch rom s (NewUtxo program_hash val wid) = op_new_utxo rom s program_hash val wid"
| "dispatch rom s (NewToken program_hash val wid) = op_new_token rom s program_hash val wid"
| "dispatch rom s (NewCoord program_hash val wid) = op_new_coord rom s program_hash val wid"
| "dispatch rom s (InstallHandler interface_id) = op_install_handler rom s interface_id"
| "dispatch rom s (UninstallHandler interface_id) = op_uninstall_handler rom s interface_id"
| "dispatch rom s (GetHandlerFor interface_id handler_id) = op_get_handler_for s interface_id handler_id"
| "dispatch rom s (CallEffectHandler interface_id f_id val ret) =
     op_call_effect_handler s interface_id f_id val ret"
| "dispatch rom s (Enter f_id) = op_enter s f_id"
| "dispatch rom s (Activation val caller) = op_activation s val caller"
| "dispatch rom s (Init val caller) = op_init s val caller"
| "dispatch rom s (NewRef size_words ret) = op_new_ref s size_words ret"
| "dispatch rom s (RefPush vals) = op_ref_push s vals"
| "dispatch rom s (RefGet reff offset ret) = op_ref_get s reff offset ret"
| "dispatch rom s (RefWrite reff offset vals) = op_ref_write s reff offset vals"
| "dispatch rom s Burn = op_burn rom s"
| "dispatch rom s (Bind owner_id) = op_bind rom s owner_id"
| "dispatch rom s (Unbind token_id) = op_unbind rom s token_id"

fun is_RefPush :: "WitLedgerEffect \<Rightarrow> bool" where
  "is_RefPush (RefPush _) = True"
| "is_RefPush _ = False"

fun is_Enter :: "WitLedgerEffect \<Rightarrow> bool" where
  "is_Enter (Enter _) = True"
| "is_Enter _ = False"

definition state_transition ::
  "InterleavingState \<Rightarrow> Rom \<Rightarrow> nat list \<Rightarrow> WitLedgerEffect
    \<Rightarrow> (InterleavingError, InterleavingState \<times> nat list) outcome" where
  "state_transition s rom next_op_idx op =
    (let c = id_curr s in
     at next_op_idx c (\<lambda>i.
     at (rom_traces rom) c (\<lambda>trace.
     if i \<ge> length trace then Err (Shape ''host call index out of bounds'')
     else if trace ! i \<noteq> op then Err (Shape ''host call mismatch'')
     else if ref_building s c \<noteq> None \<and> \<not> is_RefPush op then Err (BuildingRefButCalledOther c)
     else put next_op_idx c (i + 1) (\<lambda>idx'.
     at (must_enter s) c (\<lambda>pending.
     if pending \<noteq> None \<and> \<not> is_Enter op then Err (MustEnterPending c (the pending))
     else andthen (dispatch rom s op) (\<lambda>s'. Ok (s', idx')))))))"

end
