(* ===== verification/Interleaving_Verify.thy ===== *)
theory Interleaving_Verify
  imports Interleaving_Machine
begin

text \<open>
  The run loop and the final conditions of \<^verbatim>\<open>verify_interleaving_semantics\<close>. The loop is a recursive
  function; it terminates because every transition consumes one entry of the current process's
  trace (\<open>transition_consumes\<close>), so the number of unread entries shrinks.
\<close>

section \<open>What a transition does to the trace positions\<close>

lemma state_transition_Ok:
  "state_transition s rom idx op = Ok (s', idx') \<longleftrightarrow>
     id_curr s < length idx \<and> id_curr s < length (rom_traces rom)
     \<and> idx ! id_curr s < length (rom_traces rom ! id_curr s)
     \<and> rom_traces rom ! id_curr s ! (idx ! id_curr s) = op
     \<and> (ref_building s (id_curr s) = None \<or> is_RefPush op)
     \<and> id_curr s < length (must_enter s)
     \<and> (must_enter s ! id_curr s = None \<or> is_Enter op)
     \<and> dispatch rom s op = Ok s'
     \<and> idx' = idx[id_curr s := Suc (idx ! id_curr s)]"
  by (cases "ref_building s (id_curr s)")
    (auto simp: state_transition_def Let_def outcome_simps split: if_splits)

lemma transition_consumes:
  assumes "state_transition s rom idx op = Ok (s', idx')"
  shows "id_curr s < length idx" "id_curr s < length (rom_traces rom)"
    "idx ! id_curr s < length (rom_traces rom ! id_curr s)"
    "idx' = idx[id_curr s := Suc (idx ! id_curr s)]"
  using assms by (auto simp: state_transition_Ok)

text \<open>The number of trace entries not yet consumed.\<close>

definition unread :: "Rom \<Rightarrow> nat list \<Rightarrow> nat" where
  "unread rom idx = sum_list (map2 (\<lambda>t i. length t - i) (rom_traces rom) idx)"

lemma sum_map2_update_less:
  fixes f :: "'x \<Rightarrow> 'y \<Rightarrow> nat"
  assumes "i < length xs" "i < length ys" "f (xs ! i) v < f (xs ! i) (ys ! i)"
  shows "sum_list (map2 f xs (ys[i := v])) < sum_list (map2 f xs ys)"
  using assms
proof (induction xs arbitrary: ys i)
  case Nil
  then show ?case by simp
next
  case (Cons x xs)
  then show ?case by (cases ys; cases i) auto
qed

lemma unread_decreases:
  assumes "state_transition s rom idx op = Ok (s', idx')"
  shows "unread rom idx' < unread rom idx"
  unfolding unread_def transition_consumes(4) [OF assms]
  using transition_consumes [OF assms] by (intro sum_map2_update_less) auto

section \<open>The run loop\<close>

function run ::
  "Rom \<Rightarrow> InterleavingState \<Rightarrow> nat list
    \<Rightarrow> (InterleavingError, InterleavingState \<times> nat list) outcome" where
  "run rom s next_op_idx =
    at next_op_idx (id_curr s) (\<lambda>c.
    at (rom_traces rom) (id_curr s) (\<lambda>trace.
    if c \<ge> length trace then Ok (s, next_op_idx)
    else andthen (state_transition s rom next_op_idx (trace ! c))
           (\<lambda>r. run rom (fst r) (snd r))))"
  by pat_completeness auto
termination
  by (relation "measure (\<lambda>(rom, s, idx). unread rom idx)") (auto dest: unread_decreases)

declare run.simps [simp del]

text \<open>The loop with its tests as conditionals, which evaluation does not unfold ahead of them.\<close>

lemma run_code [code]:
  "run rom s idx =
    (if id_curr s < length idx \<and> id_curr s < length (rom_traces rom)
     then let c = idx ! id_curr s; trace = rom_traces rom ! id_curr s in
          if c \<ge> length trace then Ok (s, idx)
          else (case state_transition s rom idx (trace ! c) of
                  Ok r \<Rightarrow> run rom (fst r) (snd r) | Err e \<Rightarrow> Err e | Panic \<Rightarrow> Panic)
     else Panic)"
  by (subst run.simps) (simp add: at_def Let_def split: outcome.split)

section \<open>Verification\<close>

definition initial_state :: "InterleavingInstance \<Rightarrow> nat \<Rightarrow> (InterleavingError, InterleavingState) outcome" where
  "initial_state inst n =
    (let ini = map (\<lambda>pid. pid < n_inputs inst) [0..<n] in
     put ini (entrypoint inst) True (\<lambda>ini'.
     Ok \<lparr>id_curr = entrypoint inst,
         id_prev = None,
         s_entrypoint = entrypoint inst,
         expected_input = replicate n None,
         expected_resumer = replicate n None,
         on_yield = replicate n True,
         yield_to = replicate n None,
         activation = replicate n None,
         init = replicate n None,
         ref_counter = 0,
         ref_store = Map.empty,
         ref_sizes = Map.empty,
         ref_building = Map.empty,
         initialized = ini',
         finalized = replicate n False,
         did_burn = replicate n False,
         must_enter = replicate n None,
         must_exit = replicate n False,
         ownership = ownership_in inst,
         handler_stack = Map.empty\<rparr>))"

definition make_rom :: "InterleavingInstance \<Rightarrow> InterleavingWitness \<Rightarrow> Rom" where
  "make_rom inst wit =
    \<lparr>rom_process_table = process_table inst,
     rom_must_burn = must_burn inst,
     rom_is_utxo = is_utxo inst,
     rom_is_token = is_token inst,
     rom_traces = traces wit\<rparr>"

text \<open>The seven final conditions, in the order of the source.\<close>

definition check_burn_traced :: "InterleavingInstance \<Rightarrow> Rom \<Rightarrow> (InterleavingError, unit) outcome" where
  "check_burn_traced inst rom =
    each (\<lambda>i. at (rom_must_burn rom) i (\<lambda>b.
              if b then at (rom_traces rom) i (\<lambda>t.
                          if list_ex (\<lambda>hc. hc = Burn) t then Ok () else Err (BurnedInputNoBurn i))
              else Ok ()))
         [0..<n_inputs inst]"

definition check_finalized ::
  "InterleavingInstance \<Rightarrow> InterleavingState \<Rightarrow> (InterleavingError, unit) outcome" where
  "check_finalized inst s =
    each (\<lambda>pid. at (finalized s) pid (\<lambda>f. if f then Ok () else Err (UtxoNotFinalized pid)))
         [0..<n_inputs inst + n_new inst]"

definition check_did_burn ::
  "InterleavingInstance \<Rightarrow> Rom \<Rightarrow> InterleavingState \<Rightarrow> (InterleavingError, unit) outcome" where
  "check_did_burn inst rom s =
    each (\<lambda>pid. at (rom_must_burn rom) pid (\<lambda>b.
                if b then at (did_burn s) pid (\<lambda>d. if d then Ok () else Err (UtxoShouldBurn pid))
                else Ok ()))
         [0..<n_inputs inst]"

definition check_finish :: "Rom \<Rightarrow> InterleavingState \<Rightarrow> (InterleavingError, unit) outcome" where
  "check_finish rom s =
    at (rom_is_utxo rom) (id_curr s) (\<lambda>u. if u then Err (FinishedInUtxo (id_curr s)) else Ok ())"

definition check_ownership ::
  "InterleavingInstance \<Rightarrow> InterleavingState \<Rightarrow> (InterleavingError, unit) outcome" where
  "check_ownership inst s =
    each (\<lambda>pid. at (ownership_out inst) pid (\<lambda>expected. at (ownership s) pid (\<lambda>got.
                if expected \<noteq> got then Err (OwnershipOutMismatch pid expected got) else Ok ())))
         [0..<n_inputs inst + n_new inst]"

definition check_tokens_bound ::
  "InterleavingInstance \<Rightarrow> Rom \<Rightarrow> InterleavingState \<Rightarrow> (InterleavingError, unit) outcome" where
  "check_tokens_bound inst rom s =
    each (\<lambda>pid. at (rom_is_token rom) pid (\<lambda>tok.
                if \<not> tok then Ok () else
                at (did_burn s) pid (\<lambda>d.
                if d then Ok () else
                at (ownership s) pid (\<lambda>owner.
                if owner = None then Err (LiveTokenMustBeBound pid) else Ok ()))))
         [0..<n_inputs inst + n_new inst]"

definition check_initialized :: "nat \<Rightarrow> InterleavingState \<Rightarrow> (InterleavingError, unit) outcome" where
  "check_initialized n s =
    each (\<lambda>pid. at (initialized s) pid (\<lambda>i. if i then Ok () else Err (ProcessNotInitialized pid)))
         [0..<n]"

definition final_conditions ::
  "InterleavingInstance \<Rightarrow> Rom \<Rightarrow> nat \<Rightarrow> InterleavingState \<Rightarrow> (InterleavingError, unit) outcome" where
  "final_conditions inst rom n s =
    andthen (check_burn_traced inst rom) (\<lambda>_.
    andthen (check_finalized inst s) (\<lambda>_.
    andthen (check_did_burn inst rom s) (\<lambda>_.
    andthen (check_finish rom s) (\<lambda>_.
    andthen (check_ownership inst s) (\<lambda>_.
    andthen (check_tokens_bound inst rom s) (\<lambda>_.
    check_initialized n s))))))"

definition n_processes :: "InterleavingInstance \<Rightarrow> nat" where
  "n_processes inst = n_inputs inst + n_new inst + n_coords inst"

definition verify_interleaving_semantics ::
  "InterleavingInstance \<Rightarrow> InterleavingWitness \<Rightarrow> (InterleavingError, unit) outcome" where
  "verify_interleaving_semantics inst wit =
    andthen (check_shape inst) (\<lambda>_.
    let n = n_processes inst in
    if length (traces wit) \<noteq> n then Err (Shape ''witness traces len != process_table len'') else
    let rom = make_rom inst wit in
    andthen (initial_state inst n) (\<lambda>s0.
    andthen (run rom s0 (replicate n 0)) (\<lambda>r.
    final_conditions inst rom n (fst r))))"

text \<open>What acceptance means: the run ends in a state that meets the seven conditions.\<close>

lemma verify_Ok:
  "verify_interleaving_semantics inst wit = Ok u \<longleftrightarrow>
     check_shape inst = Ok ()
     \<and> length (traces wit) = n_processes inst
     \<and> (\<exists>s0 s idx. initial_state inst (n_processes inst) = Ok s0
          \<and> run (make_rom inst wit) s0 (replicate (n_processes inst) 0) = Ok (s, idx)
          \<and> final_conditions inst (make_rom inst wit) (n_processes inst) s = Ok ())"
  by (auto simp: verify_interleaving_semantics_def Let_def outcome_simps split: if_splits)

lemma final_conditions_Ok:
  "final_conditions inst rom n s = Ok u \<longleftrightarrow>
     check_burn_traced inst rom = Ok () \<and> check_finalized inst s = Ok ()
     \<and> check_did_burn inst rom s = Ok () \<and> check_finish rom s = Ok ()
     \<and> check_ownership inst s = Ok () \<and> check_tokens_bound inst rom s = Ok ()
     \<and> check_initialized n s = Ok ()"
  by (auto simp: final_conditions_def outcome_simps)

end
