(* ===== verification/Interleaving_Steps.thy ===== *)
theory Interleaving_Steps
  imports Interleaving_Verify
begin

text \<open>
  What each arm of the transition does when it succeeds: its guards, and the new state as one record
  update. The invariants of the machine are proved from these facts, collected in \<open>step_facts\<close>.
\<close>

named_theorems step_facts

lemma op_resume_Ok [step_facts]:
  assumes "op_resume rom s target f_id val ret caller = Ok s'"
  shows "id_curr s \<noteq> target \<and> id_curr s < length (rom_is_utxo rom)
    \<and> (rom_is_utxo rom ! id_curr s \<longrightarrow> target < length (rom_is_utxo rom) \<and> \<not> rom_is_utxo rom ! target)
    \<and> target < length (initialized s) \<and> initialized s ! target
    \<and> target < length (activation s) \<and> activation s ! target = None
    \<and> (expected_input s ! target = None \<or> expected_input s ! target = Some val)
    \<and> (expected_resumer s ! target = None \<or> expected_resumer s ! target = Some (id_curr s))
    \<and> s' = s\<lparr>activation := (activation s)[id_curr s := None, target := Some (val, id_curr s)],
            expected_input := (expected_input s)[target := None, id_curr s := to_option ret],
            expected_resumer := (expected_resumer s)
              [target := None, id_curr s := Option.bind (to_option caller) (\<lambda>o'. o')],
            must_exit := (must_exit s)[id_curr s := False],
            must_enter := (must_enter s)[target := Some f_id],
            yield_to := (if on_yield s ! target \<and> \<not> rom_is_utxo rom ! id_curr s
                         then (yield_to s)[target := Some (id_curr s)] else yield_to s),
            on_yield := (if on_yield s ! target \<and> \<not> rom_is_utxo rom ! id_curr s
                         then (on_yield s)[target := False] else on_yield s),
            id_prev := Some (id_curr s), id_curr := target,
            finalized := (finalized s)[target := False]\<rparr>"
  using assms
  by (auto simp: op_resume_def Let_def outcome_simps simp del: not_None_eq split: if_splits)

lemma op_yield_Ok [step_facts]:
  assumes "op_yield rom s val_ref = Ok s'"
  shows "\<exists>parent val. id_curr s < length (rom_is_utxo rom) \<and> rom_is_utxo rom ! id_curr s
    \<and> id_curr s < length (yield_to s) \<and> yield_to s ! id_curr s = Some parent
    \<and> ref_store s val_ref = Some val
    \<and> (expected_resumer s ! parent = None \<or> expected_resumer s ! parent = Some (id_curr s))
    \<and> (case expected_input s ! parent of None \<Rightarrow> True | Some r \<Rightarrow> ref_store s r = Some val)
    \<and> s' = s\<lparr>finalized := (finalized s)[id_curr s := True],
            on_yield := (on_yield s)[id_curr s := True],
            id_prev := Some (id_curr s),
            activation := (activation s)[id_curr s := None],
            must_exit := (must_exit s)[id_curr s := False],
            id_curr := parent\<rparr>"
  using assms
  by (auto simp: op_yield_def Let_def outcome_simps split: if_splits option.splits)

lemma op_return_Ok [step_facts]:
  assumes "op_return rom s = Ok s'"
  shows "id_curr s < length (rom_is_utxo rom) \<and> \<not> rom_is_utxo rom ! id_curr s
    \<and> id_curr s < length (yield_to s)
    \<and> (yield_to s ! id_curr s = None \<longrightarrow> id_curr s = s_entrypoint s)
    \<and> s' = s\<lparr>finalized := (finalized s)[id_curr s := True],
            activation := (activation s)[id_curr s := None],
            must_exit := (must_exit s)[id_curr s := False],
            id_prev := (if yield_to s ! id_curr s = None then id_prev s else Some (id_curr s)),
            id_curr := (case yield_to s ! id_curr s of None \<Rightarrow> id_curr s | Some p \<Rightarrow> p)\<rparr>"
  using assms
  by (auto simp: op_return_def Let_def outcome_simps split: if_splits option.splits)

lemma op_program_hash_Ok [step_facts]:
  assumes "op_program_hash rom s target h = Ok s'"
  shows "target < length (rom_process_table rom) \<and> rom_process_table rom ! target = unwrap h \<and> s' = s"
  using assms by (auto simp: op_program_hash_def outcome_simps split: if_splits)

text \<open>The three creation arms share their guards and their effect.\<close>

definition creates :: "Rom \<Rightarrow> InterleavingState \<Rightarrow> Hash \<Rightarrow> Ref \<Rightarrow> ProcessId \<Rightarrow> InterleavingState \<Rightarrow> bool" where
  "creates rom s h val pid s' \<longleftrightarrow>
     id_curr s < length (rom_is_utxo rom) \<and> \<not> rom_is_utxo rom ! id_curr s
     \<and> pid < length (rom_is_utxo rom)
     \<and> pid < length (rom_process_table rom) \<and> rom_process_table rom ! pid = h
     \<and> pid < length (initialized s) \<and> \<not> initialized s ! pid
     \<and> s' = s\<lparr>initialized := (initialized s)[pid := True],
             init := (init s)[pid := Some (val, id_curr s)],
             expected_input := (expected_input s)[pid := None],
             expected_resumer := (expected_resumer s)[pid := None],
             on_yield := (on_yield s)[pid := True],
             yield_to := (yield_to s)[pid := None]\<rparr>"

lemma op_new_utxo_Ok [step_facts]:
  assumes "op_new_utxo rom s h val wid = Ok s'"
  shows "creates rom s h val (unwrap wid) s' \<and> rom_is_utxo rom ! unwrap wid \<and> \<not> rom_is_token rom ! unwrap wid"
  using assms
  by (auto simp: op_new_utxo_def init_new_process_def creates_def Let_def outcome_simps split: if_splits)

lemma op_new_token_Ok [step_facts]:
  assumes "op_new_token rom s h val wid = Ok s'"
  shows "creates rom s h val (unwrap wid) s' \<and> rom_is_utxo rom ! unwrap wid \<and> rom_is_token rom ! unwrap wid"
  using assms
  by (auto simp: op_new_token_def init_new_process_def creates_def Let_def outcome_simps split: if_splits)

lemma op_new_coord_Ok [step_facts]:
  assumes "op_new_coord rom s h val wid = Ok s'"
  shows "creates rom s h val (unwrap wid) s' \<and> \<not> rom_is_utxo rom ! unwrap wid"
  using assms
  by (auto simp: op_new_coord_def init_new_process_def creates_def Let_def outcome_simps split: if_splits)

lemma op_install_handler_Ok [step_facts]:
  assumes "op_install_handler rom s i = Ok s'"
  shows "id_curr s < length (rom_is_utxo rom) \<and> \<not> rom_is_utxo rom ! id_curr s
    \<and> s' = s\<lparr>handler_stack := (handler_stack s)(i \<mapsto> stack_of s i @ [id_curr s])\<rparr>"
  using assms by (auto simp: op_install_handler_def outcome_simps split: if_splits)

lemma op_uninstall_handler_Ok [step_facts]:
  assumes "op_uninstall_handler rom s i = Ok s'"
  shows "id_curr s < length (rom_is_utxo rom) \<and> \<not> rom_is_utxo rom ! id_curr s
    \<and> top_of (stack_of s i) = Some (id_curr s)
    \<and> s' = s\<lparr>handler_stack := (handler_stack s)(i \<mapsto> butlast (stack_of s i))\<rparr>"
  using assms by (auto simp: op_uninstall_handler_def Let_def outcome_simps split: if_splits)

lemma op_get_handler_for_Ok [step_facts]:
  assumes "op_get_handler_for s i h = Ok s'"
  shows "top_of (stack_of s i) = Some (unwrap h)
    \<and> s' = s\<lparr>handler_stack := (handler_stack s)(i \<mapsto> stack_of s i)\<rparr>"
  using assms by (auto simp: op_get_handler_for_def Let_def split: if_splits)

lemma op_call_effect_handler_Ok [step_facts]:
  assumes "op_call_effect_handler s i f_id val ret = Ok s'"
  shows "\<exists>target. top_of (stack_of s i) = Some target
    \<and> target < length (activation s) \<and> activation s ! target = None
    \<and> id_curr s < length (activation s)
    \<and> (expected_input s ! target = None \<or> expected_input s ! target = Some val)
    \<and> (expected_resumer s ! target = None \<or> expected_resumer s ! target = Some (id_curr s))
    \<and> s' = s\<lparr>handler_stack := (handler_stack s)(i \<mapsto> stack_of s i),
            activation := (activation s)[id_curr s := None, target := Some (val, id_curr s)],
            expected_input := (expected_input s)[target := None, id_curr s := to_option ret],
            expected_resumer := (expected_resumer s)[target := None, id_curr s := Some target],
            must_exit := (must_exit s)[id_curr s := False],
            must_enter := (must_enter s)[target := Some f_id],
            id_prev := Some (id_curr s), id_curr := target,
            finalized := (finalized s)[target := False]\<rparr>"
  using assms
  by (auto simp: op_call_effect_handler_def Let_def outcome_simps simp del: not_None_eq split: if_splits)

lemma op_enter_Ok [step_facts]:
  assumes "op_enter s f_id = Ok s'"
  shows "id_curr s < length (must_enter s) \<and> must_enter s ! id_curr s = Some f_id
    \<and> \<not> must_exit s ! id_curr s
    \<and> s' = s\<lparr>must_enter := (must_enter s)[id_curr s := None],
            must_exit := (must_exit s)[id_curr s := True]\<rparr>"
  using assms by (auto simp: op_enter_def Let_def outcome_simps split: if_splits)

lemma op_activation_Ok [step_facts]:
  assumes "op_activation s val caller = Ok s'"
  shows "id_curr s < length (activation s)
    \<and> activation s ! id_curr s = Some (unwrap val, unwrap caller) \<and> s' = s"
  using assms by (auto simp: op_activation_def outcome_simps split: option.splits if_splits)

lemma op_init_Ok [step_facts]:
  assumes "op_init s val caller = Ok s'"
  shows "id_curr s < length (init s) \<and> init s ! id_curr s = Some (unwrap val, unwrap caller)
    \<and> s' = s\<lparr>init := (init s)[id_curr s := None]\<rparr>"
  using assms by (auto simp: op_init_def outcome_simps split: option.splits if_splits)

lemma op_new_ref_Ok [step_facts]:
  assumes "op_new_ref s size_words ret = Ok s'"
  shows "ref_building s (id_curr s) = None
    \<and> size_words * 4 < USIZE_LIMIT \<and> Suc (ref_counter s) < USIZE_LIMIT
    \<and> unwrap ret = Ref (ref_counter s)
    \<and> s' = s\<lparr>ref_counter := Suc (ref_counter s),
            ref_store := (ref_store s)(Ref (ref_counter s) \<mapsto> replicate (size_words * 4) (Value 0)),
            ref_sizes := (ref_sizes s)(Ref (ref_counter s) \<mapsto> size_words),
            ref_building :=
              (if size_words > 0
               then (ref_building s)(id_curr s \<mapsto> (Ref (ref_counter s), 0, size_words))
               else ref_building s)\<rparr>"
proof (cases "ref_building s (id_curr s)")
  case None
  with assms show ?thesis
    by (auto simp: op_new_ref_def Let_def outcome_simps REF_PUSH_WIDTH_def split: if_splits)
next
  case (Some b)
  with assms show ?thesis by (simp add: op_new_ref_def)
qed

lemma op_ref_push_Ok [step_facts]:
  assumes "op_ref_push s vals = Ok s'"
  shows "\<exists>reff offset_words size_words vec vec'.
      ref_building s (id_curr s) = Some (reff, offset_words, size_words)
    \<and> ref_store s reff = Some vec
    \<and> push_vals (id_curr s) offset_words size_words 0 (vals_list vals) vec = Ok vec'
    \<and> s' = s\<lparr>ref_store := (ref_store s)(reff \<mapsto> vec'),
            ref_building := (if Suc offset_words < size_words
              then (ref_building s)(id_curr s \<mapsto> (reff, Suc offset_words, size_words))
              else (ref_building s)(id_curr s := None))\<rparr>"
proof -
  from assms obtain reff off sz vec vec'
    where *: "ref_building s (id_curr s) = Some (reff, off, sz)" "ref_store s reff = Some vec"
      "push_vals (id_curr s) off sz 0 (vals_list vals) vec = Ok vec'"
    unfolding op_ref_push_def Let_def outcome_simps by (force simp: outcome_simps)
  with assms show ?thesis
    by (cases "Suc off < sz") (auto simp: op_ref_push_def Let_def need_def)
qed

lemma op_ref_get_Ok [step_facts]:
  assumes "op_ref_get s reff offset ret = Ok s'"
  shows "\<exists>vec size_words. ref_store s reff = Some vec \<and> ref_sizes s reff = Some size_words
    \<and> offset < size_words \<and> s' = s"
  using assms by (auto simp: op_ref_get_def outcome_simps split: if_splits)

lemma op_ref_write_Ok [step_facts]:
  assumes "op_ref_write s reff offset vals = Ok s'"
  shows "\<exists>vec size_words vec'. ref_store s reff = Some vec \<and> ref_sizes s reff = Some size_words
    \<and> offset < size_words
    \<and> write_vals offset (vals_list vals) vec = Ok vec'
    \<and> s' = s\<lparr>ref_store := (ref_store s)(reff \<mapsto> vec')\<rparr>"
  using assms by (auto simp: op_ref_write_def outcome_simps split: if_splits)

lemma op_burn_Ok [step_facts]:
  assumes "op_burn rom s = Ok s'"
  shows "id_curr s < length (rom_is_utxo rom) \<and> rom_is_utxo rom ! id_curr s
    \<and> id_curr s < length (rom_must_burn rom) \<and> rom_must_burn rom ! id_curr s
    \<and> s' = s\<lparr>did_burn := (did_burn s)[id_curr s := True]\<rparr>"
  using assms by (auto simp: op_burn_def Let_def outcome_simps split: if_splits)

lemma op_bind_Ok [step_facts]:
  assumes "op_bind rom s owner = Ok s'"
  shows "id_curr s < length (rom_is_utxo rom) \<and> rom_is_utxo rom ! id_curr s
    \<and> owner < length (rom_is_utxo rom) \<and> rom_is_utxo rom ! owner
    \<and> id_curr s < length (initialized s) \<and> initialized s ! id_curr s
    \<and> owner < length (initialized s) \<and> initialized s ! owner
    \<and> id_curr s < length (ownership s) \<and> ownership s ! id_curr s = None
    \<and> s' = s\<lparr>ownership := (ownership s)[id_curr s := Some owner]\<rparr>"
  using assms by (auto simp: op_bind_def Let_def outcome_simps split: if_splits)

lemma op_unbind_Ok [step_facts]:
  assumes "op_unbind rom s token_id = Ok s'"
  shows "id_curr s < length (rom_is_utxo rom) \<and> rom_is_utxo rom ! id_curr s
    \<and> token_id < length (rom_is_utxo rom) \<and> rom_is_utxo rom ! token_id
    \<and> token_id < length (initialized s) \<and> initialized s ! token_id
    \<and> token_id < length (ownership s) \<and> ownership s ! token_id = Some (id_curr s)
    \<and> s' = s\<lparr>ownership := (ownership s)[token_id := None]\<rparr>"
  using assms by (auto simp: op_unbind_def Let_def outcome_simps split: if_splits)

end
