(* ===== verification/Interleaving_Invariants.thy ===== *)
theory Interleaving_Invariants
  imports Interleaving_Steps
begin

text \<open>
  Invariants of the interleaving machine. The locales state what a run needs of a property to
  preserve it (\<open>run_invariant\<close>), the simpler contract of a property of the state alone
  (\<open>step_invariant\<close>) and of a relation between the state before and after (\<open>step_preorder\<close>); the
  interpretations discharge them for the model's invariants.
\<close>

section \<open>Contracts\<close>

locale run_invariant =
  fixes inv :: "Rom \<Rightarrow> InterleavingState \<Rightarrow> nat list \<Rightarrow> bool"
  assumes transition_inv:
    "inv rom s idx \<Longrightarrow> state_transition s rom idx op = Ok (s', idx') \<Longrightarrow> inv rom s' idx'"
begin

lemma run_inv: "run rom s idx = Ok (s', idx') \<Longrightarrow> inv rom s idx \<Longrightarrow> inv rom s' idx'"
proof (induction rom s idx rule: run.induct)
  case (1 rom s idx)
  let ?tr = "rom_traces rom ! id_curr s" and ?c = "idx ! id_curr s"
  have b: "id_curr s < length idx" "id_curr s < length (rom_traces rom)"
    using "1.prems"(1) by (subst (asm) run.simps, auto simp: outcome_simps)+
  show ?case
  proof (cases "length ?tr \<le> ?c")
    case True
    with "1.prems" b show ?thesis by (simp add: run.simps [of rom s idx] at_def)
  next
    case False
    with "1.prems"(1) b obtain t idx1
      where t: "state_transition s rom idx (?tr ! ?c) = Ok (t, idx1)" "run rom t idx1 = Ok (s', idx')"
      by (auto simp: run.simps [of rom s idx] at_def outcome_simps)
    from "1.IH" [OF b False t(1)] t transition_inv [OF "1.prems"(2) t(1)] show ?thesis by simp
  qed
qed

end

locale step_invariant =
  fixes inv :: "Rom \<Rightarrow> InterleavingState \<Rightarrow> bool"
  assumes dispatch_inv: "inv rom s \<Longrightarrow> dispatch rom s op = Ok s' \<Longrightarrow> inv rom s'"

sublocale step_invariant \<subseteq> run_invariant "\<lambda>rom s idx. inv rom s"
  by unfold_locales (auto simp: state_transition_Ok intro: dispatch_inv)

locale step_preorder = step_invariant +
  fixes rel :: "InterleavingState \<Rightarrow> InterleavingState \<Rightarrow> bool"
  assumes rel_refl: "rel s s"
    and rel_trans: "rel s t \<Longrightarrow> rel t u \<Longrightarrow> rel s u"
    and dispatch_rel: "inv rom s \<Longrightarrow> dispatch rom s op = Ok s' \<Longrightarrow> rel s s'"
begin

lemma run_rel:
  assumes "run rom s idx = Ok (s', idx')" and "inv rom s"
  shows "rel s s'"
proof -
  have "run_invariant (\<lambda>rom' t idx. inv rom' t \<and> rel s t)"
    by unfold_locales (auto simp: state_transition_Ok dest: dispatch_rel dispatch_inv intro: rel_trans)
  from run_invariant.run_inv [OF this assms(1)] assms(2) rel_refl show ?thesis by simp
qed

end

section \<open>Vectors keep their length\<close>

text \<open>\<open>n\<close> processes, the first \<open>m\<close> of which are utxos and have an ownership entry.\<close>

definition sized :: "nat \<Rightarrow> nat \<Rightarrow> InterleavingState \<Rightarrow> bool" where
  "sized n m s \<longleftrightarrow>
     length (expected_input s) = n \<and> length (expected_resumer s) = n \<and> length (on_yield s) = n
     \<and> length (yield_to s) = n \<and> length (activation s) = n \<and> length (init s) = n
     \<and> length (initialized s) = n \<and> length (finalized s) = n \<and> length (did_burn s) = n
     \<and> length (must_enter s) = n \<and> length (must_exit s) = n \<and> length (ownership s) = m"

lemma resume_sized:
  "sized n m s \<Longrightarrow> op_resume rom s target f_id val ret caller = Ok s' \<Longrightarrow> sized n m s'"
  by (drule op_resume_Ok) (simp add: sized_def)

lemma dispatch_sized: "sized n m s \<Longrightarrow> dispatch rom s op = Ok s' \<Longrightarrow> sized n m s'"
proof (cases op)
  case (Resume target f_id val ret caller)
  then show "sized n m s \<Longrightarrow> dispatch rom s op = Ok s' \<Longrightarrow> sized n m s'"
    by (simp add: resume_sized)
qed (clarsimp simp: sized_def creates_def dest!: step_facts)+

interpretation sized: step_invariant "\<lambda>rom s. sized n m s" for n m
  by unfold_locales (rule dispatch_sized)

section \<open>Control stays with initialized processes, and never passes from utxo to utxo\<close>

definition coord_pid :: "Rom \<Rightarrow> InterleavingState \<Rightarrow> ProcessId \<Rightarrow> bool" where
  "coord_pid rom s q \<longleftrightarrow> q < length (initialized s) \<and> initialized s ! q \<and> \<not> rom_is_utxo rom ! q"

definition control_inv :: "Rom \<Rightarrow> InterleavingState \<Rightarrow> bool" where
  "control_inv rom s \<longleftrightarrow>
     length (yield_to s) = length (initialized s)
     \<and> id_curr s < length (initialized s) \<and> initialized s ! id_curr s
     \<and> (\<forall>p q. p < length (yield_to s) \<longrightarrow> yield_to s ! p = Some q \<longrightarrow> coord_pid rom s q)
     \<and> (\<forall>i. \<forall>q \<in> set (stack_of s i). coord_pid rom s q)"

lemma top_of_Some: "top_of st = Some q \<Longrightarrow> q \<in> set st"
  by (auto simp: top_of_def split: if_splits)

lemma in_butlast: "q \<in> set (butlast st) \<Longrightarrow> q \<in> set st"
  by (rule in_set_butlastD)

lemma coord_pid_frame:
  "initialized s' = initialized s \<Longrightarrow> coord_pid rom s' q = coord_pid rom s q"
  by (simp add: coord_pid_def)

lemma resume_control:
  assumes "control_inv rom s" and "op_resume rom s target f_id val ret caller = Ok s'"
  shows "control_inv rom s'"
proof -
  note r = op_resume_Ok [OF assms(2)]
  then have "initialized s' = initialized s" and "handler_stack s' = handler_stack s"
    and "id_curr s' = target"
    and "yield_to s' = yield_to s \<or> (yield_to s' = (yield_to s)[target := Some (id_curr s)]
           \<and> \<not> rom_is_utxo rom ! id_curr s)"
    by auto
  with r assms(1) show ?thesis
    by (auto simp: control_inv_def coord_pid_def stack_of_def nth_list_update_if split: if_splits)
qed

lemma creates_control: "control_inv rom s \<Longrightarrow> creates rom s h val pid s' \<Longrightarrow> control_inv rom s'"
  by (auto simp: control_inv_def creates_def coord_pid_def stack_of_def nth_list_update)

lemma call_handler_control:
  assumes "control_inv rom s" and "op_call_effect_handler s i f_id val ret = Ok s'"
  shows "control_inv rom s'"
proof -
  from op_call_effect_handler_Ok [OF assms(2)] obtain q where
    "top_of (stack_of s i) = Some q" "id_curr s' = q" "initialized s' = initialized s"
    "yield_to s' = yield_to s" "handler_stack s' = (handler_stack s)(i \<mapsto> stack_of s i)"
    by auto
  with assms(1) show ?thesis
    by (auto simp: control_inv_def coord_pid_def stack_of_def dest!: top_of_Some split: if_splits)
qed

lemma control_frame:
  assumes "control_inv rom s" and "initialized s' = initialized s" "yield_to s' = yield_to s"
    "id_curr s' = id_curr s \<or> coord_pid rom s (id_curr s')"
    "\<And>i q. q \<in> set (stack_of s' i) \<Longrightarrow> q \<in> set (stack_of s i) \<or> coord_pid rom s q"
  shows "control_inv rom s'"
proof -
  have eq: "coord_pid rom s' = coord_pid rom s"
    using assms(2) by (simp add: coord_pid_def fun_eq_iff)
  have "id_curr s' < length (initialized s) \<and> initialized s ! id_curr s'"
    using assms(1,4) by (auto simp: control_inv_def coord_pid_def)
  with assms(1,5) show ?thesis
    unfolding control_inv_def eq assms(2,3) by blast
qed

lemma control_coord:
  assumes "control_inv rom s"
  shows "id_curr s < length (initialized s)" "initialized s ! id_curr s"
    "p < length (yield_to s) \<Longrightarrow> yield_to s ! p = Some q \<Longrightarrow> coord_pid rom s q"
    "q \<in> set (stack_of s i) \<Longrightarrow> coord_pid rom s q"
    "\<not> rom_is_utxo rom ! id_curr s \<Longrightarrow> coord_pid rom s (id_curr s)"
  using assms by (auto simp: control_inv_def coord_pid_def)

lemma dispatch_control:
  assumes c: "control_inv rom s" and d: "dispatch rom s op = Ok s'"
  shows "control_inv rom s'"
proof (cases op)
  case (Resume target f_id val ret caller)
  with c d show ?thesis by (simp add: resume_control)
next
  case (CallEffectHandler i f_id val ret)
  with c d show ?thesis by (simp add: call_handler_control)
next
  case (Yield v)
  with d obtain q where "id_curr s < length (yield_to s)" "yield_to s ! id_curr s = Some q"
    "initialized s' = initialized s" "yield_to s' = yield_to s" "handler_stack s' = handler_stack s"
    "id_curr s' = q"
    by (auto dest!: op_yield_Ok)
  with control_coord(3) [OF c] show ?thesis
    by (intro control_frame [OF c]) (auto simp: stack_of_def)
next
  case Return
  with d have r: "id_curr s < length (yield_to s)" "initialized s' = initialized s"
    "yield_to s' = yield_to s" "handler_stack s' = handler_stack s"
    "id_curr s' = (case yield_to s ! id_curr s of None \<Rightarrow> id_curr s | Some p \<Rightarrow> p)"
    by (auto dest!: op_return_Ok)
  with control_coord(3) [OF c] show ?thesis
    by (intro control_frame [OF c]) (auto simp: stack_of_def split: option.splits)
next
  case (InstallHandler i)
  with d have "\<not> rom_is_utxo rom ! id_curr s"
    "s' = s\<lparr>handler_stack := (handler_stack s)(i \<mapsto> stack_of s i @ [id_curr s])\<rparr>"
    by (auto dest!: op_install_handler_Ok)
  with control_coord(5) [OF c] show ?thesis
    by (intro control_frame [OF c]) (auto simp: stack_of_def split: if_splits)
next
  case (UninstallHandler i)
  with d show ?thesis
    by (intro control_frame [OF c])
      (auto simp: stack_of_def dest!: op_uninstall_handler_Ok in_butlast split: if_splits)
next
  case (GetHandlerFor i h)
  with d show ?thesis
    by (intro control_frame [OF c])
      (auto simp: stack_of_def dest!: op_get_handler_for_Ok split: if_splits)
next
  case (NewUtxo h v w)
  with d show ?thesis by (auto dest!: op_new_utxo_Ok intro: creates_control [OF c])
next
  case (NewToken h v w)
  with d show ?thesis by (auto dest!: op_new_token_Ok intro: creates_control [OF c])
next
  case (NewCoord h v w)
  with d show ?thesis by (auto dest!: op_new_coord_Ok intro: creates_control [OF c])
qed (use d in \<open>auto intro!: control_frame [OF c] simp: stack_of_def dest!: step_facts\<close>)

interpretation control: step_invariant control_inv
  by unfold_locales (rule dispatch_control)

text \<open>A change of the current process has a coordination script at one end.\<close>

lemma transfer_coord:
  assumes "control_inv rom s" and "dispatch rom s op = Ok s'" and "id_curr s' \<noteq> id_curr s"
  shows "\<not> rom_is_utxo rom ! id_curr s \<or> \<not> rom_is_utxo rom ! id_curr s'"
proof (cases op)
  case (Resume target f_id val ret caller)
  with assms(2) op_resume_Ok show ?thesis by fastforce
next
  case (Yield v)
  with assms(1,2) show ?thesis
    by (auto simp: control_inv_def coord_pid_def dest!: op_yield_Ok)
next
  case (CallEffectHandler i f_id val ret)
  with assms(2) obtain q where "top_of (stack_of s i) = Some q" "id_curr s' = q"
    by (auto dest!: op_call_effect_handler_Ok)
  with assms(1) show ?thesis by (auto simp: control_inv_def coord_pid_def dest!: top_of_Some)
qed (use assms(2,3) in \<open>auto simp: creates_def dest!: step_facts\<close>)

section \<open>The reference arena\<close>

definition arena_inv :: "InterleavingState \<Rightarrow> bool" where
  "arena_inv s \<longleftrightarrow>
     dom (ref_store s) = Ref ` {..<ref_counter s} \<and> dom (ref_sizes s) = dom (ref_store s)
     \<and> (\<forall>r vec sz. ref_store s r = Some vec \<longrightarrow> ref_sizes s r = Some sz \<longrightarrow>
          length vec = sz * 4 \<and> sz * 4 < USIZE_LIMIT)
     \<and> (\<forall>p r off sz. ref_building s p = Some (r, off, sz) \<longrightarrow> off < sz \<and> ref_sizes s r = Some sz)
     \<and> (\<forall>p q r off sz off' sz'. ref_building s p = Some (r, off, sz) \<longrightarrow>
          ref_building s q = Some (r, off', sz') \<longrightarrow> p = q)"

lemma push_vals_length: "push_vals c off sz i vals vec = Ok vec' \<Longrightarrow> length vec' = length vec"
  by (induction c off sz i vals vec rule: push_vals.induct) (auto simp: Let_def split: if_splits)

lemma write_vals_length: "write_vals off vals vec = Ok vec' \<Longrightarrow> length vec' = length vec"
  unfolding write_vals_def
  by (erule fold_out_invariant [where I = "\<lambda>xs. length xs = length vec"]) (auto simp: outcome_simps)

lemma fresh_ref:
  assumes "arena_inv s"
  shows "ref_store s (Ref (ref_counter s)) = None" "ref_sizes s (Ref (ref_counter s)) = None"
    "ref_building s p \<noteq> Some (Ref (ref_counter s), off, sz)"
proof -
  from assms have "Ref (ref_counter s) \<notin> dom (ref_store s)" by (auto simp: arena_inv_def)
  with assms show "ref_store s (Ref (ref_counter s)) = None"
    and sz: "ref_sizes s (Ref (ref_counter s)) = None"
    using assms by (blast, metis (no_types, lifting) arena_inv_def domIff)
  with assms show "ref_building s p \<noteq> Some (Ref (ref_counter s), off, sz)"
    by (auto simp: arena_inv_def)
qed

lemma new_ref_arena:
  assumes "arena_inv s" and "op_new_ref s size_words ret = Ok s'"
  shows "arena_inv s'"
proof -
  let ?r = "Ref (ref_counter s)"
  from op_new_ref_Ok [OF assms(2)]
  have sz: "size_words * 4 < USIZE_LIMIT" and s': "ref_counter s' = Suc (ref_counter s)"
    "ref_store s' = (ref_store s)(?r \<mapsto> replicate (size_words * 4) (Value 0))"
    "ref_sizes s' = (ref_sizes s)(?r \<mapsto> size_words)"
    "ref_building s' = (if size_words > 0 then (ref_building s)(id_curr s \<mapsto> (?r, 0, size_words))
                        else ref_building s)"
    by simp_all
  have "dom (ref_store s') = Ref ` {..<ref_counter s'}"
    using assms(1) by (auto simp: s' arena_inv_def lessThan_Suc)
  moreover have "dom (ref_sizes s') = dom (ref_store s')"
    using assms(1) by (simp add: s' arena_inv_def)
  moreover have "\<forall>r vec sz. ref_store s' r = Some vec \<longrightarrow> ref_sizes s' r = Some sz \<longrightarrow>
      length vec = sz * 4 \<and> sz * 4 < USIZE_LIMIT"
    using assms(1) sz by (auto simp: s' arena_inv_def)
  moreover have "\<forall>p r off sz. ref_building s' p = Some (r, off, sz) \<longrightarrow> off < sz \<and> ref_sizes s' r = Some sz"
    using assms(1) fresh_ref [OF assms(1)] by (auto simp: s' arena_inv_def split: if_splits)
  moreover have "\<forall>p q r off sz off' sz'. ref_building s' p = Some (r, off, sz) \<longrightarrow>
      ref_building s' q = Some (r, off', sz') \<longrightarrow> p = q"
    using assms(1) fresh_ref(3) [OF assms(1)] by (auto simp: s' arena_inv_def split: if_splits)
  ultimately show ?thesis by (simp add: arena_inv_def)
qed

lemma store_update_arena:
  assumes "arena_inv s" and "ref_store s r = Some vec" and "length vec' = length vec"
    and "ref_counter s' = ref_counter s" and "ref_sizes s' = ref_sizes s"
    and "ref_store s' = (ref_store s)(r \<mapsto> vec')"
    and "\<And>p r off sz. ref_building s' p = Some (r, off, sz) \<Longrightarrow>
          off < sz \<and> (\<exists>off'. ref_building s p = Some (r, off', sz))"
  shows "arena_inv s'"
proof -
  have "\<forall>p r off sz. ref_building s' p = Some (r, off, sz) \<longrightarrow> off < sz \<and> ref_sizes s' r = Some sz"
    using assms(1,5,7) unfolding arena_inv_def by metis
  moreover have "\<forall>p q r off sz off' sz'. ref_building s' p = Some (r, off, sz) \<longrightarrow>
      ref_building s' q = Some (r, off', sz') \<longrightarrow> p = q"
    using assms(1,7) unfolding arena_inv_def by metis
  moreover have "dom (ref_store s') = dom (ref_store s)"
    using assms(2,6) by auto
  moreover have "\<forall>r vec sz. ref_store s' r = Some vec \<longrightarrow> ref_sizes s' r = Some sz \<longrightarrow>
      length vec = sz * 4 \<and> sz * 4 < USIZE_LIMIT"
    using assms(1,2,3,5,6) by (auto simp: arena_inv_def)
  ultimately show ?thesis using assms(1,4,5) by (simp add: arena_inv_def)
qed

lemma ref_push_arena:
  assumes "arena_inv s" and "op_ref_push s vals = Ok s'"
  shows "arena_inv s'"
proof -
  from op_ref_push_Ok [OF assms(2)] obtain r off sz vec vec' where
    b: "ref_building s (id_curr s) = Some (r, off, sz)" "ref_store s r = Some vec"
    and v: "push_vals (id_curr s) off sz 0 (vals_list vals) vec = Ok vec'"
    and s': "ref_counter s' = ref_counter s" "ref_sizes s' = ref_sizes s"
      "ref_store s' = (ref_store s)(r \<mapsto> vec')"
      "ref_building s' = (if Suc off < sz then (ref_building s)(id_curr s \<mapsto> (r, Suc off, sz))
                          else (ref_building s)(id_curr s := None))"
    by auto
  show ?thesis
  proof (rule store_update_arena [OF assms(1) b(2) push_vals_length [OF v] s'(1,2,3)])
    show "off' < sz' \<and> (\<exists>o'. ref_building s p = Some (r', o', sz'))"
      if "ref_building s' p = Some (r', off', sz')" for p r' off' sz'
      using that b assms(1) by (auto simp: s' arena_inv_def split: if_splits)
  qed
qed

lemma ref_write_arena:
  assumes "arena_inv s" and "op_ref_write s r off vals = Ok s'"
  shows "arena_inv s'"
proof -
  from op_ref_write_Ok [OF assms(2)] obtain vec vec' where
    v: "ref_store s r = Some vec" "write_vals off (vals_list vals) vec = Ok vec'"
    and s': "ref_counter s' = ref_counter s" "ref_sizes s' = ref_sizes s"
      "ref_store s' = (ref_store s)(r \<mapsto> vec')" "ref_building s' = ref_building s"
    by auto
  show ?thesis
    by (rule store_update_arena [OF assms(1) v(1) write_vals_length [OF v(2)] s'(1,2,3)])
      (use assms(1) in \<open>auto simp: s'(4) arena_inv_def\<close>)
qed

lemma arena_frame:
  assumes "arena_inv s" and "ref_counter s' = ref_counter s" "ref_store s' = ref_store s"
    "ref_sizes s' = ref_sizes s" "ref_building s' = ref_building s"
  shows "arena_inv s'"
  using assms by (simp add: arena_inv_def)

lemma dispatch_arena:
  assumes "arena_inv s" and "dispatch rom s op = Ok s'"
  shows "arena_inv s'"
proof (cases op)
  case (NewRef size_words ret)
  with assms show ?thesis by (simp add: new_ref_arena)
next
  case (RefPush vals)
  with assms show ?thesis by (simp add: ref_push_arena)
next
  case (RefWrite r off vals)
  with assms show ?thesis by (simp add: ref_write_arena)
qed (use assms(2) in \<open>auto intro!: arena_frame [OF assms(1)] simp: creates_def dest!: step_facts\<close>)

interpretation arena: step_invariant "\<lambda>rom s. arena_inv s"
  by unfold_locales (rule dispatch_arena)

section \<open>Ownership relates live utxos; only utxos that must burn have burned\<close>

definition ownership_inv :: "Rom \<Rightarrow> InterleavingState \<Rightarrow> bool" where
  "ownership_inv rom s \<longleftrightarrow>
     (\<forall>t q. t < length (ownership s) \<longrightarrow> ownership s ! t = Some q \<longrightarrow>
        t < length (rom_is_utxo rom) \<and> rom_is_utxo rom ! t
        \<and> q < length (rom_is_utxo rom) \<and> rom_is_utxo rom ! q
        \<and> t < length (initialized s) \<and> initialized s ! t
        \<and> q < length (initialized s) \<and> initialized s ! q)"

lemma ownership_frame:
  assumes "ownership_inv rom s" and "ownership s' = ownership s"
    and "length (initialized s') = length (initialized s)"
    and "\<And>p. initialized s ! p \<Longrightarrow> p < length (initialized s) \<Longrightarrow> initialized s' ! p"
  shows "ownership_inv rom s'"
  using assms unfolding ownership_inv_def by metis

lemma dispatch_ownership:
  assumes "ownership_inv rom s" and "dispatch rom s op = Ok s'"
  shows "ownership_inv rom s'"
proof (cases op)
  case (Bind q)
  with assms show ?thesis
    by (auto simp: ownership_inv_def nth_list_update dest!: op_bind_Ok split: if_splits)
next
  case (Unbind t)
  with assms show ?thesis
    by (auto simp: ownership_inv_def nth_list_update dest!: op_unbind_Ok split: if_splits)
qed (use assms(2) in \<open>auto intro!: ownership_frame [OF assms(1)]
       simp: creates_def nth_list_update dest!: step_facts\<close>)

interpretation ownership: step_invariant ownership_inv
  by unfold_locales (rule dispatch_ownership)

definition burn_inv :: "Rom \<Rightarrow> InterleavingState \<Rightarrow> bool" where
  "burn_inv rom s \<longleftrightarrow>
     (\<forall>p. p < length (did_burn s) \<longrightarrow> did_burn s ! p \<longrightarrow>
        p < length (rom_is_utxo rom) \<and> rom_is_utxo rom ! p
        \<and> p < length (rom_must_burn rom) \<and> rom_must_burn rom ! p)"

lemma dispatch_burn:
  assumes "burn_inv rom s" and "dispatch rom s op = Ok s'"
  shows "burn_inv rom s'"
proof (cases op)
  case Burn
  with assms show ?thesis
    by (auto simp: burn_inv_def dest!: op_burn_Ok) (metis nth_list_update_neq)+
qed (use assms in \<open>auto simp: burn_inv_def creates_def dest!: step_facts\<close>)

interpretation burn: step_invariant burn_inv
  by unfold_locales (rule dispatch_burn)


section \<open>What only grows\<close>

text \<open>Processes stay initialized, burns are not undone, references are never freed or resized.\<close>

definition grows :: "InterleavingState \<Rightarrow> InterleavingState \<Rightarrow> bool" where
  "grows s s' \<longleftrightarrow>
     length (initialized s') = length (initialized s) \<and> length (did_burn s') = length (did_burn s)
     \<and> (\<forall>p < length (initialized s). initialized s ! p \<longrightarrow> initialized s' ! p)
     \<and> (\<forall>p < length (did_burn s). did_burn s ! p \<longrightarrow> did_burn s' ! p)
     \<and> ref_sizes s \<subseteq>\<^sub>m ref_sizes s'"

lemma grows_same:
  assumes "initialized s' = initialized s" "did_burn s' = did_burn s" "ref_sizes s' = ref_sizes s"
  shows "grows s s'"
  using assms by (simp add: grows_def)

lemma dispatch_grows:
  assumes "arena_inv s" and "dispatch rom s op = Ok s'"
  shows "grows s s'"
proof (cases op)
  case Burn
  with assms(2) have "s' = s\<lparr>did_burn := (did_burn s)[id_curr s := True]\<rparr>"
    by (auto dest!: op_burn_Ok)
  moreover have "(did_burn s)[id_curr s := True] ! p" if "p < length (did_burn s)" "did_burn s ! p" for p
    using that by (cases "id_curr s = p") simp_all
  ultimately show ?thesis by (simp add: grows_def)
next
  case (NewRef size_words ret)
  with assms(2) have s': "initialized s' = initialized s" "did_burn s' = did_burn s"
    "ref_sizes s' = (ref_sizes s)(Ref (ref_counter s) \<mapsto> size_words)"
    by (auto dest!: op_new_ref_Ok)
  with fresh_ref(2) [OF assms(1)] show ?thesis
    by (auto simp: grows_def map_le_def)
qed (use assms(2) in \<open>auto intro: grows_same simp: creates_def nth_list_update dest!: step_facts\<close>,
     (auto simp: grows_def nth_list_update)?)

interpretation growth: step_preorder "\<lambda>rom s. arena_inv s" grows
proof unfold_locales
  show "grows s s" for s by (simp add: grows_def)
  show "grows s t \<Longrightarrow> grows t u \<Longrightarrow> grows s u" for s t u
    by (auto simp: grows_def intro: map_le_trans)
  show "arena_inv s \<Longrightarrow> dispatch rom s op = Ok s' \<Longrightarrow> grows s s'" for rom s op s'
    by (rule dispatch_grows)
qed

end
