(* ===== verification/Interleaving_Schedule.thy ===== *)
theory Interleaving_Schedule
  imports Interleaving_Invariants
begin

text \<open>
  The run loop as a small-step relation: an execution is a list of events \<open>(pid, effect)\<close>, the
  schedule of the interleaving. The run loop computes exactly the execution that stops at the first
  process whose trace is exhausted, and an execution is an interleaving of prefixes of the traces.
\<close>

section \<open>Executions\<close>

type_synonym event = "ProcessId \<times> WitLedgerEffect"

inductive transitions ::
  "Rom \<Rightarrow> InterleavingState \<Rightarrow> nat list \<Rightarrow> event list \<Rightarrow> InterleavingState \<Rightarrow> nat list \<Rightarrow> bool"
  for rom where
  stop: "transitions rom s idx [] s idx"
| go: "state_transition s rom idx op = Ok (t, idx1) \<Longrightarrow> transitions rom t idx1 evs s' idx'
       \<Longrightarrow> transitions rom s idx ((id_curr s, op) # evs) s' idx'"

inductive_simps transitions_Nil [simp]: "transitions rom s idx [] s' idx'"

lemma transitions_Cons [simp]:
  "transitions rom s idx ((p, op) # evs) s' idx' \<longleftrightarrow>
     p = id_curr s \<and> (\<exists>t idx1. state_transition s rom idx op = Ok (t, idx1)
                       \<and> transitions rom t idx1 evs s' idx')"
  by (subst transitions.simps) auto

lemma transitions_append:
  "transitions rom s idx (evs @ evs') s' idx' \<longleftrightarrow>
     (\<exists>t idx1. transitions rom s idx evs t idx1 \<and> transitions rom t idx1 evs' s' idx')"
proof (induction evs arbitrary: s idx)
  case (Cons e evs)
  then show ?case by (cases e) (simp, blast)
qed simp

text \<open>The test that ends the loop: the current process has no host call left.\<close>

definition halted :: "Rom \<Rightarrow> InterleavingState \<Rightarrow> nat list \<Rightarrow> bool" where
  "halted rom s idx \<longleftrightarrow>
     id_curr s < length idx \<and> id_curr s < length (rom_traces rom)
     \<and> length (rom_traces rom ! id_curr s) \<le> idx ! id_curr s"

lemma run_transitions:
  "run rom s idx = Ok (s', idx') \<Longrightarrow> \<exists>evs. transitions rom s idx evs s' idx' \<and> halted rom s' idx'"
proof (induction rom s idx rule: run.induct)
  case (1 rom s idx)
  let ?tr = "rom_traces rom ! id_curr s" and ?c = "idx ! id_curr s"
  have b: "id_curr s < length idx" "id_curr s < length (rom_traces rom)"
    using "1.prems" by (subst (asm) run.simps, auto simp: outcome_simps)+
  show ?case
  proof (cases "length ?tr \<le> ?c")
    case True
    with "1.prems" b show ?thesis
      by (intro exI [of _ "[]"]) (simp add: run.simps [of rom s idx] at_def halted_def)
  next
    case False
    with "1.prems"(1) b obtain t idx1
      where t: "state_transition s rom idx (?tr ! ?c) = Ok (t, idx1)" "run rom t idx1 = Ok (s', idx')"
      by (auto simp: run.simps [of rom s idx] at_def outcome_simps)
    with "1.IH" [OF b False t(1)] obtain evs
      where "transitions rom t idx1 evs s' idx'" "halted rom s' idx'" by auto
    with t(1) show ?thesis by (intro exI [of _ "(id_curr s, ?tr ! ?c) # evs"]) auto
  qed
qed

lemma transitions_run:
  "transitions rom s idx evs s' idx' \<Longrightarrow> halted rom s' idx' \<Longrightarrow> run rom s idx = Ok (s', idx')"
proof (induction rule: transitions.induct)
  case (stop s idx)
  then show ?case by (simp add: run.simps [of rom s idx] at_def halted_def)
next
  case (go s idx op t idx1 evs s' idx')
  from go.hyps(1) have "id_curr s < length idx" "id_curr s < length (rom_traces rom)"
    "idx ! id_curr s < length (rom_traces rom ! id_curr s)"
    "rom_traces rom ! id_curr s ! (idx ! id_curr s) = op"
    by (auto simp: state_transition_Ok)
  with go show ?case by (simp add: run.simps [of rom s idx] at_def)
qed

lemma run_iff:
  "run rom s idx = Ok (s', idx') \<longleftrightarrow> (\<exists>evs. transitions rom s idx evs s' idx' \<and> halted rom s' idx')"
  using run_transitions transitions_run by blast

text \<open>Every invariant of the machine holds along an execution.\<close>

context run_invariant begin

lemma transitions_inv: "transitions rom s idx evs s' idx' \<Longrightarrow> inv rom s idx \<Longrightarrow> inv rom s' idx'"
  by (induction rule: transitions.induct) (auto intro: transition_inv)

end

section \<open>The schedule is an interleaving of trace prefixes\<close>

definition events_of :: "ProcessId \<Rightarrow> event list \<Rightarrow> WitLedgerEffect list" where
  "events_of p evs = map snd (filter (\<lambda>e. fst e = p) evs)"

lemma events_of_simps [simp]:
  "events_of p [] = []"
  "events_of p (e # evs) = (if fst e = p then snd e # events_of p evs else events_of p evs)"
  by (simp_all add: events_of_def)

lemma transitions_length: "transitions rom s idx evs s' idx' \<Longrightarrow> length idx' = length idx"
  by (induction rule: transitions.induct) (auto simp: state_transition_Ok)

lemma transitions_mono:
  "transitions rom s idx evs s' idx' \<Longrightarrow> p < length idx \<Longrightarrow> idx ! p \<le> idx' ! p"
  by (induction rule: transitions.induct)
    (fastforce simp: state_transition_Ok nth_list_update split: if_splits)+

lemma transitions_events_of:
  assumes "transitions rom s idx evs s' idx'" and "p < length idx"
  shows "events_of p evs = drop (idx ! p) (take (idx' ! p) (rom_traces rom ! p))"
  using assms
proof (induction rule: transitions.induct)
  case (stop s idx)
  then show ?case by simp
next
  case (go s idx op t idx1 evs s' idx')
  from go.hyps(1) have st: "id_curr s < length idx"
    "idx ! id_curr s < length (rom_traces rom ! id_curr s)"
    "rom_traces rom ! id_curr s ! (idx ! id_curr s) = op"
    "idx1 = idx[id_curr s := Suc (idx ! id_curr s)]"
    by (auto simp: state_transition_Ok)
  with go.prems go.IH have IH: "events_of p evs = drop (idx1 ! p) (take (idx' ! p) (rom_traces rom ! p))"
    by simp
  show ?case
  proof (cases "id_curr s = p")
    case False
    with IH st(4) show ?thesis by simp
  next
    case True
    from transitions_mono [OF go.hyps(2), of p] True st go.prems
    have "idx ! p < idx' ! p" by simp
    with True st go.prems have "drop (idx ! p) (take (idx' ! p) (rom_traces rom ! p))
        = op # drop (Suc (idx ! p)) (take (idx' ! p) (rom_traces rom ! p))"
      by (subst Cons_nth_drop_Suc [symmetric]) auto
    with IH True st(1,4) show ?thesis by simp
  qed
qed

section \<open>Positions, initialization, burns and yields\<close>

text \<open>
  What the position of a process in its trace says of its state: only initialized processes have
  executed anything, a process has burned exactly when it executed a \<^verbatim>\<open>Burn\<close>, and a utxo is marked
  finalized only when it is suspended after a \<^verbatim>\<open>Yield\<close>.
\<close>

fun is_Yield :: "WitLedgerEffect \<Rightarrow> bool" where
  "is_Yield (Yield _) = True"
| "is_Yield _ = False"

definition position_inv :: "Rom \<Rightarrow> InterleavingState \<Rightarrow> nat list \<Rightarrow> bool" where
  "position_inv rom s idx \<longleftrightarrow>
     length idx = length (initialized s) \<and> length (did_burn s) = length idx
     \<and> length (finalized s) = length idx
     \<and> (\<forall>p < length idx. idx ! p \<noteq> 0 \<longrightarrow> initialized s ! p)
     \<and> (\<forall>p < length idx. did_burn s ! p = (Burn \<in> set (take (idx ! p) (rom_traces rom ! p))))
     \<and> (\<forall>p < length idx. idx ! p \<le> length (rom_traces rom ! p))
     \<and> (\<forall>p < length idx. rom_is_utxo rom ! p \<longrightarrow> finalized s ! p \<longrightarrow>
          p \<noteq> id_curr s \<and> 0 < idx ! p \<and> is_Yield (rom_traces rom ! p ! (idx ! p - 1)))"

text \<open>What one step does to the vectors the invariant speaks of.\<close>

definition settles :: "InterleavingState \<Rightarrow> WitLedgerEffect \<Rightarrow> InterleavingState \<Rightarrow> bool" where
  "settles s op s' \<longleftrightarrow>
     length (finalized s') = length (finalized s)
     \<and> length (initialized s') = length (initialized s)
     \<and> (\<forall>p < length (initialized s). initialized s ! p \<longrightarrow> initialized s' ! p)
     \<and> did_burn s' = (if op = Burn then (did_burn s)[id_curr s := True] else did_burn s)"

lemma resume_settles:
  assumes "op_resume rom s target f_id val ret caller = Ok s'" and "op \<noteq> Burn"
  shows "settles s op s'"
  using op_resume_Ok [OF assms(1)] assms(2) by (simp add: settles_def)

lemma dispatch_settles:
  assumes "dispatch rom s op = Ok s'"
  shows "settles s op s'"
proof (cases op)
  case (Resume target f_id val ret caller)
  with assms resume_settles show ?thesis by fastforce
qed (use assms in \<open>auto simp: settles_def creates_def nth_list_update dest!: step_facts\<close>)

lemma nth_reset: "xs[i := False] ! j \<Longrightarrow> j < length xs \<Longrightarrow> j \<noteq> i \<and> xs ! j"
  by (cases "i = j") auto

text \<open>A utxo that is finalized after a step was suspended before it, or has just yielded.\<close>

lemma dispatch_finalized:
  assumes "control_inv rom s" and "dispatch rom s op = Ok s'"
    and "p < length (finalized s)" "rom_is_utxo rom ! p" "finalized s' ! p"
    and "finalized s ! id_curr s \<Longrightarrow> \<not> rom_is_utxo rom ! id_curr s"
  shows "p \<noteq> id_curr s' \<and> (if p = id_curr s then is_Yield op else finalized s ! p)"
proof (cases op)
  case (Resume target f_id val ret caller)
  with assms(2) have "finalized s' = (finalized s)[target := False]" "id_curr s' = target"
    using op_resume_Ok by force+
  with assms(3-6) show ?thesis by (auto dest: nth_reset)
next
  case (CallEffectHandler i f_id val ret)
  with assms(2) obtain q where "finalized s' = (finalized s)[q := False]" "id_curr s' = q"
    by (auto dest!: op_call_effect_handler_Ok)
  with assms(3-6) show ?thesis by (auto dest: nth_reset)
next
  case (Yield v)
  with assms(2) obtain q where q: "id_curr s < length (yield_to s)" "yield_to s ! id_curr s = Some q"
    "finalized s' = (finalized s)[id_curr s := True]" "id_curr s' = q"
    by (auto dest!: op_yield_Ok)
  with control_coord(3) [OF assms(1) q(1,2)] assms(3-5) Yield show ?thesis
    by (auto simp: nth_list_update_if coord_pid_def split: if_splits)
next
  case Return
  with assms(2) have r: "\<not> rom_is_utxo rom ! id_curr s" "id_curr s < length (yield_to s)"
    "finalized s' = (finalized s)[id_curr s := True]"
    "id_curr s' = (case yield_to s ! id_curr s of None \<Rightarrow> id_curr s | Some p \<Rightarrow> p)"
    by (auto dest!: op_return_Ok)
  with control_coord(3) [OF assms(1) r(2)] assms(3-5) show ?thesis
    by (auto simp: nth_list_update_if coord_pid_def split: option.splits)
qed (use assms in \<open>auto simp: creates_def dest!: step_facts\<close>)

lemma position_step:
  assumes c: "control_inv rom s" and i: "position_inv rom s idx"
    and st: "state_transition s rom idx op = Ok (s', idx')"
  shows "position_inv rom s' idx'"
proof -
  let ?c = "id_curr s"
  from st have t: "?c < length idx" "idx ! ?c < length (rom_traces rom ! ?c)"
    "rom_traces rom ! ?c ! (idx ! ?c) = op" "idx' = idx[?c := Suc (idx ! ?c)]"
    and d: "dispatch rom s op = Ok s'"
    by (auto simp: state_transition_Ok)
  note se = dispatch_settles [OF d, unfolded settles_def]
  have "\<forall>p < length idx'. idx' ! p \<noteq> 0 \<longrightarrow> initialized s' ! p"
    using i se t control_coord(2) [OF c] by (auto simp: position_inv_def nth_list_update_if)
  moreover have "\<forall>p < length idx'. did_burn s' ! p = (Burn \<in> set (take (idx' ! p) (rom_traces rom ! p)))"
    using i se t by (auto simp: position_inv_def nth_list_update_if take_Suc_conv_app_nth)
  moreover have "\<forall>p < length idx'. idx' ! p \<le> length (rom_traces rom ! p)"
    using i t by (auto simp: position_inv_def nth_list_update_if)
  moreover have "p \<noteq> id_curr s' \<and> 0 < idx' ! p \<and> is_Yield (rom_traces rom ! p ! (idx' ! p - 1))"
    if p: "p < length idx'" "rom_is_utxo rom ! p" "finalized s' ! p" for p
  proof -
    have "p \<noteq> id_curr s' \<and> (if p = ?c then is_Yield op else finalized s ! p)"
      by (rule dispatch_finalized [OF c d]) (use i p t in \<open>auto simp: position_inv_def\<close>)
    with i p t show ?thesis by (auto simp: position_inv_def nth_list_update_if split: if_splits)
  qed
  ultimately show ?thesis using i se t by (auto simp: position_inv_def)
qed

interpretation position: run_invariant "\<lambda>rom s idx. control_inv rom s \<and> position_inv rom s idx"
  by unfold_locales (auto intro: control.transition_inv position_step)

end
