(* ===== verification/Interleaving_Safety.thy ===== *)
theory Interleaving_Safety
  imports Interleaving_Schedule
begin

text \<open>
  Which inputs make the verifier panic. The vectors of the machine are indexed by process ids read
  from the traces, without a check; \<open>safe_op\<close> says what an effect must satisfy for its arm to index in
  bounds and to stay within \<^verbatim>\<open>usize\<close>. Under it the verifier returns \<^verbatim>\<open>Ok\<close> or an error on every trace.
\<close>

section \<open>Well-formed instances and traces\<close>

fun safe_op :: "nat \<Rightarrow> nat \<Rightarrow> ProcessId \<Rightarrow> WitLedgerEffect \<Rightarrow> bool" where
  "safe_op n burnable p (Resume target f_id val ret caller) = (target < n)"
| "safe_op n burnable p (ProgramHash target h) = (target < n)"
| "safe_op n burnable p (NewUtxo h val w) = (unwrap w < n)"
| "safe_op n burnable p (NewToken h val w) = (unwrap w < n)"
| "safe_op n burnable p (NewCoord h val w) = (unwrap w < n)"
| "safe_op n burnable p (Bind owner_id) = (owner_id < n)"
| "safe_op n burnable p (Unbind token_id) = (token_id < n)"
| "safe_op n burnable p Burn = (p < burnable)"
| "safe_op n burnable p (NewRef size_words ret) = (size_words * REF_PUSH_WIDTH * 8 \<le> ISIZE_MAX)"
| "safe_op n burnable p _ = True"

text \<open>\<open>n\<close> processes of which the first \<open>m\<close> are the utxos (inputs, then new outputs).\<close>

definition wf_rom :: "nat \<Rightarrow> nat \<Rightarrow> Rom \<Rightarrow> bool" where
  "wf_rom n m rom \<longleftrightarrow>
     length (rom_process_table rom) = n \<and> length (rom_is_utxo rom) = n
     \<and> length (rom_is_token rom) = n \<and> length (rom_traces rom) = n
     \<and> (\<forall>p < n. rom_is_utxo rom ! p \<longleftrightarrow> p < m)
     \<and> (\<forall>p < n. \<forall>op \<in> set (rom_traces rom ! p).
          safe_op n (length (rom_must_burn rom)) p op)"

section \<open>No arm panics\<close>

lemma push_vals_no_panic: "push_vals c off sz i vals vec \<noteq> Panic"
  by (induction c off sz i vals vec rule: push_vals.induct) (auto simp: Let_def)

lemma write_vals_no_panic:
  assumes "off * 4 + 4 \<le> length vec"
  shows "write_vals off (vals_list vals) vec \<noteq> Panic"
  using assms by (cases vals) (auto simp: write_vals_def REF_WRITE_WIDTH_def outcome_simps)

lemma op_ref_get_no_panic:
  assumes "arena_inv s"
  shows "op_ref_get s r off ret \<noteq> Panic"
proof
  assume p: "op_ref_get s r off ret = Panic"
  then obtain vec sz where v: "ref_store s r = Some vec" "ref_sizes s r = Some sz"
    by (auto simp: op_ref_get_def outcome_simps)
  with assms have "length vec = sz * 4" by (auto simp: arena_inv_def)
  with p v show False
    by (auto simp: op_ref_get_def outcome_simps Let_def REF_GET_WIDTH_def dest!: map_out_Panic
        split: if_splits)
qed

lemma op_ref_write_no_panic:
  assumes "arena_inv s"
  shows "op_ref_write s r off vals \<noteq> Panic"
proof
  assume p: "op_ref_write s r off vals = Panic"
  then obtain vec sz where v: "ref_store s r = Some vec" "ref_sizes s r = Some sz" "off < sz"
    "write_vals off (vals_list vals) vec = Panic"
    by (auto simp: op_ref_write_def outcome_simps split: if_splits)
  with assms have "length vec = sz * 4" by (auto simp: arena_inv_def)
  with v write_vals_no_panic [of off vec vals] show False by simp
qed

lemma op_ref_push_no_panic: "op_ref_push s vals \<noteq> Panic"
  by (auto simp: op_ref_push_def Let_def outcome_simps push_vals_no_panic split: prod.splits)

lemma op_resume_no_panic:
  assumes "sized n m s" "wf_rom n m rom" "id_curr s < n" "target < n"
  shows "op_resume rom s target f_id val ret caller \<noteq> Panic"
  using assms
  by (auto simp: op_resume_def Let_def outcome_simps sized_def wf_rom_def simp del: not_None_eq
      split: if_splits)

lemma op_call_effect_handler_no_panic:
  assumes "sized n m s" "control_inv rom s" "id_curr s < n"
  shows "op_call_effect_handler s i f_id val ret \<noteq> Panic"
proof
  assume p: "op_call_effect_handler s i f_id val ret = Panic"
  then obtain q where q: "top_of (stack_of s i) = Some q"
    by (auto simp: op_call_effect_handler_def Let_def need_eq)
  from control_coord(4) [OF assms(2) top_of_Some [OF q]] assms(1) have "q < n"
    by (simp add: coord_pid_def sized_def)
  with p q assms(1,3) show False
    by (auto simp: op_call_effect_handler_def Let_def outcome_simps sized_def simp del: not_None_eq
        split: if_splits)
qed

lemma op_yield_no_panic:
  assumes "sized n m s" "wf_rom n m rom" "control_inv rom s" "id_curr s < n"
  shows "op_yield rom s v \<noteq> Panic"
proof -
  have "q < n" if "yield_to s ! id_curr s = Some q" for q
    using control_coord(3) [OF assms(3) _ that] assms(1,4) by (simp add: sized_def coord_pid_def)
  with assms(1,2,4) show ?thesis
    by (auto simp: op_yield_def Let_def outcome_simps sized_def wf_rom_def split: if_splits option.splits)
qed

lemma init_new_process_no_panic:
  "sized n m s \<Longrightarrow> pid < n \<Longrightarrow> init_new_process s pid val \<noteq> Panic"
  by (auto simp: init_new_process_def outcome_simps sized_def)

lemma dispatch_no_panic:
  assumes s: "sized n m s" and w: "wf_rom n m rom" and c: "control_inv rom s" and a: "arena_inv s"
    and b: "Suc (ref_counter s) < USIZE_LIMIT"
    and safe: "safe_op n (length (rom_must_burn rom)) (id_curr s) op"
    and curr: "id_curr s < n"
  shows "dispatch rom s op \<noteq> Panic"
proof (cases op)
  case (Resume target f_id val ret caller)
  with op_resume_no_panic [OF s w curr] safe show ?thesis by simp
next
  case (Yield v)
  with op_yield_no_panic [OF s w c curr] show ?thesis by simp
next
  case Return
  with s w curr show ?thesis
    by (auto simp: op_return_def Let_def outcome_simps sized_def wf_rom_def split: option.splits if_splits)
next
  case (CallEffectHandler i f_id val ret)
  with op_call_effect_handler_no_panic [OF s c curr] show ?thesis by simp
next
  case (NewUtxo h val wid)
  with s w curr safe init_new_process_no_panic [OF s] show ?thesis
    by (auto simp: op_new_utxo_def Let_def outcome_simps sized_def wf_rom_def split: if_splits)
next
  case (NewToken h val wid)
  with s w curr safe init_new_process_no_panic [OF s] show ?thesis
    by (auto simp: op_new_token_def Let_def outcome_simps sized_def wf_rom_def split: if_splits)
next
  case (NewCoord h val wid)
  with s w curr safe init_new_process_no_panic [OF s] show ?thesis
    by (auto simp: op_new_coord_def Let_def outcome_simps sized_def wf_rom_def split: if_splits)
next
  case (UninstallHandler i)
  with w curr show ?thesis
    by (auto simp: op_uninstall_handler_def Let_def outcome_simps wf_rom_def split: if_splits)
next
  case (Enter f_id)
  with s curr show ?thesis
    by (auto simp: op_enter_def Let_def outcome_simps sized_def split: if_splits)
next
  case (NewRef size_words ret)
  with b safe show ?thesis
    by (auto simp: op_new_ref_def Let_def outcome_simps USIZE_LIMIT_def ISIZE_MAX_def
        simp del: not_None_eq split: if_splits)
next
  case (RefPush vals)
  then show ?thesis by (simp add: op_ref_push_no_panic)
next
  case (RefGet r off ret)
  with op_ref_get_no_panic [OF a] show ?thesis by simp
next
  case (RefWrite r off vals)
  with op_ref_write_no_panic [OF a] show ?thesis by simp
next
  case Burn
  with s w curr safe show ?thesis
    by (auto simp: op_burn_def Let_def outcome_simps sized_def wf_rom_def split: if_splits)
next
  case (Bind owner_id)
  with s w curr safe show ?thesis
    by (auto simp: op_bind_def Let_def outcome_simps sized_def wf_rom_def simp del: not_None_eq split: if_splits)
next
  case (Unbind token_id)
  with s w curr safe show ?thesis
    by (auto simp: op_unbind_def Let_def outcome_simps sized_def wf_rom_def split: if_splits)
qed (use s w curr safe in \<open>auto simp: op_program_hash_def op_install_handler_def op_get_handler_for_def
       op_activation_def op_init_def Let_def outcome_simps sized_def wf_rom_def
       split: if_splits option.splits\<close>)

section \<open>The verifier does not panic\<close>

text \<open>Creating a reference is the only arm that moves the counter.\<close>

lemma dispatch_ref_counter: "dispatch rom s op = Ok s' \<Longrightarrow> ref_counter s' \<le> Suc (ref_counter s)"
  by (cases op) (auto simp: creates_def dest!: step_facts)

lemma sum_list_member_pos: "x \<in> set xs \<Longrightarrow> 0 < x \<Longrightarrow> 0 < sum_list (xs :: nat list)"
  by (induction xs) auto

lemma run_no_panic:
  assumes "sized n m s" "wf_rom n m rom" "control_inv rom s" "arena_inv s" "length idx = n"
    "ref_counter s + unread rom idx < USIZE_LIMIT"
  shows "run rom s idx \<noteq> Panic"
  using assms
proof (induction rom s idx rule: run.induct)
  case (1 rom s idx)
  let ?c = "id_curr s"
  let ?tr = "rom_traces rom ! ?c" and ?i = "idx ! ?c"
  have b: "?c < length idx" "?c < length (rom_traces rom)" and cn: "?c < n"
    using "1.prems" control_coord(1) [OF "1.prems"(3)] by (auto simp: sized_def wf_rom_def)
  show ?case
  proof (cases "length ?tr \<le> ?i")
    case True
    with b show ?thesis by (simp add: run.simps [of rom s idx] at_def)
  next
    case False
    let ?op = "?tr ! ?i"
    have safe: "safe_op n (length (rom_must_burn rom)) ?c ?op"
      using "1.prems"(2) cn False by (auto simp: wf_rom_def)
    have "0 < length ?tr - ?i" using False by simp
    then have "0 < unread rom idx"
      unfolding unread_def using b by (intro sum_list_member_pos [of "length ?tr - ?i"]) (auto simp: set_zip)
    with "1.prems"(6) have "Suc (ref_counter s) < USIZE_LIMIT" by simp
    with dispatch_no_panic [OF "1.prems"(1-4) _ safe cn] have "dispatch rom s ?op \<noteq> Panic" .
    with b "1.prems"(1) cn have "state_transition s rom idx ?op \<noteq> Panic"
      by (auto simp: state_transition_def Let_def outcome_simps sized_def split: if_splits)
    moreover have "run rom t idx1 \<noteq> Panic" if t: "state_transition s rom idx ?op = Ok (t, idx1)" for t idx1
    proof -
      have d: "dispatch rom s ?op = Ok t" "length idx1 = n"
        using t "1.prems"(5) by (auto simp: state_transition_Ok)
      from unread_decreases [OF t] dispatch_ref_counter [OF d(1)] "1.prems"(6)
      have "ref_counter t + unread rom idx1 < USIZE_LIMIT" by simp
      with "1.IH" [OF b False t] d "1.prems" show ?thesis
        by (simp add: dispatch_sized [OF _ d(1)] dispatch_control [OF _ d(1)] dispatch_arena [OF _ d(1)])
    qed
    ultimately show ?thesis
      using b False by (auto simp: run.simps [of rom s idx] at_def outcome_simps)
  qed
qed

lemma initial_state_Ok:
  "initial_state inst n = Ok s \<Longrightarrow> length (ownership_in inst) = m \<Longrightarrow>
     entrypoint inst < n \<and> sized n m s \<and> control_inv rom s \<and> arena_inv s \<and> burn_inv rom s
     \<and> position_inv rom s (replicate n 0) \<and> ref_counter s = 0
     \<and> ownership s = ownership_in inst \<and> id_curr s = entrypoint inst
     \<and> initialized s = (map (\<lambda>pid. pid < n_inputs inst) [0..<n])[entrypoint inst := True]"
  by (auto simp: initial_state_def Let_def outcome_simps sized_def control_inv_def arena_inv_def
      burn_inv_def position_inv_def stack_of_def)

lemma andthen_no_panic: "m \<noteq> Panic \<Longrightarrow> (\<And>x. k x \<noteq> Panic) \<Longrightarrow> andthen m k \<noteq> Panic"
  by (cases m) auto

lemma each_no_panic: "(\<And>x. x \<in> set xs \<Longrightarrow> f x \<noteq> Panic) \<Longrightarrow> each f xs \<noteq> Panic"
  using each_Panic by blast

lemma final_conditions_no_panic:
  assumes "check_shape inst = Ok ()" and "rom = make_rom inst wit" and "wf_rom n (n_inputs inst + n_new inst) rom"
    and "sized n (n_inputs inst + n_new inst) s" and "n_inputs inst + n_new inst \<le> n" and "id_curr s < n"
  shows "final_conditions inst rom n s \<noteq> Panic"
proof -
  have len: "length (rom_must_burn rom) = n_inputs inst" "length (ownership_out inst) = n_inputs inst + n_new inst"
    using check_shape_Ok [OF assms(1)] assms(2) by (simp_all add: make_rom_def)
  have rom: "length (rom_is_utxo rom) = n" "length (rom_is_token rom) = n" "length (rom_traces rom) = n"
    using assms(3) by (simp_all add: wf_rom_def)
  have st: "length (finalized s) = n" "length (did_burn s) = n" "length (initialized s) = n"
    "length (ownership s) = n_inputs inst + n_new inst"
    using assms(4) by (simp_all add: sized_def)
  note bounds = len rom st assms(5,6)
  show ?thesis
    unfolding final_conditions_def check_burn_traced_def check_finalized_def check_did_burn_def
      check_finish_def check_ownership_def check_tokens_bound_def check_initialized_def
    by (intro andthen_no_panic each_no_panic)
      (use bounds in \<open>simp_all add: at_def\<close>)
qed

lemma sum_lengths_unread:
  "length (rom_traces rom) = n \<Longrightarrow> unread rom (replicate n 0) = sum_list (map length (rom_traces rom))"
proof -
  have "map2 (\<lambda>t i. length t - i) ts (replicate (length ts) 0) = map length ts" for ts :: "WitLedgerEffect list list"
    by (induction ts) simp_all
  then show "length (rom_traces rom) = n \<Longrightarrow> ?thesis" by (auto simp: unread_def)
qed

text \<open>The hypotheses under which no input makes the verifier panic, in terms of its arguments.\<close>

definition safe_input :: "InterleavingInstance \<Rightarrow> InterleavingWitness \<Rightarrow> bool" where
  "safe_input inst wit \<longleftrightarrow>
     wf_rom (n_processes inst) (n_inputs inst + n_new inst) (make_rom inst wit)
     \<and> sum_list (map length (traces wit)) < USIZE_LIMIT"

lemma verify_no_panic:
  assumes "safe_input inst wit"
  shows "verify_interleaving_semantics inst wit \<noteq> Panic"
proof
  assume p: "verify_interleaving_semantics inst wit = Panic"
  let ?n = "n_processes inst" and ?m = "n_inputs inst + n_new inst" and ?rom = "make_rom inst wit"
  from p check_shape_no_panic [of inst] have sh: "check_shape inst = Ok ()"
    by (auto simp: verify_interleaving_semantics_def outcome_simps)
  note shape = check_shape_Ok [OF sh]
  from assms have w: "wf_rom ?n ?m ?rom" and len: "length (process_table inst) = ?n" "length (traces wit) = ?n"
    and tot: "sum_list (map length (traces wit)) < USIZE_LIMIT"
    by (auto simp: safe_input_def wf_rom_def make_rom_def)
  from shape(5) len obtain s0 where s0: "initial_state inst ?n = Ok s0"
    by (auto simp: initial_state_def Let_def outcome_simps put_def)
  note i0 = initial_state_Ok [OF s0 shape(3), of ?rom]
  have "unread ?rom (replicate ?n 0) < USIZE_LIMIT"
    using tot len by (simp add: sum_lengths_unread make_rom_def)
  with run_no_panic [of ?n ?m s0 ?rom "replicate ?n 0"] i0 w
  have "run ?rom s0 (replicate ?n 0) \<noteq> Panic" by simp
  with p sh len s0 obtain s idx where r: "run ?rom s0 (replicate ?n 0) = Ok (s, idx)"
    "final_conditions inst ?rom ?n s = Panic"
    by (auto simp: verify_interleaving_semantics_def Let_def outcome_simps)
  from sized.run_inv [OF r(1)] i0 have "sized ?n ?m s" by blast
  moreover from control.run_inv [OF r(1)] i0 have "control_inv ?rom s" by blast
  ultimately have "id_curr s < ?n" using control_coord(1) [of ?rom s] by (simp add: sized_def)
  with final_conditions_no_panic [OF sh refl w \<open>sized ?n ?m s\<close>] r(2) show False
    by (simp add: n_processes_def)
qed

end
