(* ===== verification/Ledger.thy ===== *)
theory Ledger
  imports Interleaving_Safety
begin

text \<open>
  The ledger (\<^verbatim>\<open>starstream-interleaving-spec-legacy/src/lib.rs\<close>): its state, the transactions, the checks
  of \<^verbatim>\<open>verify_witness\<close> (which build the public instance and run the interleaving verifier) and
  \<^verbatim>\<open>apply_transaction\<close>. A \<^verbatim>\<open>HashMap\<close> is a map; indexing one with a missing key panics (\<open>expect\<close>).

  The fold verifier of \<^verbatim>\<open>ZkTransactionProof::Neo\<close> is the crate \<^verbatim>\<open>neo_fold_clean\<close>: its entry points are the
  fields of \<open>fold_lib\<close>, a parameter of the definitions.
\<close>

section \<open>State\<close>

record UtxoId =
  uid_contract_hash :: Hash
  uid_nonce :: nat

record CoroutineId =
  creation_tx_hash :: Hash
  creation_output_index :: nat

record NewOutput =
  out_state :: CoroutineState
  out_contract_hash :: Hash

type_synonym OutputRef = nat

record TransactionBody =
  inputs :: "UtxoId list"
  continuations :: "CoroutineState option list"
  new_outputs :: "NewOutput list"
  body_ownership_out :: "OutputRef \<rightharpoonup> OutputRef"
  coordination_scripts_keys :: "Hash list"
  body_entrypoint :: nat

record ZkWasmProof =
  host_calls_root :: LedgerEffectsCommitment
  trace :: "WitLedgerEffect list"

record WasmInstance =
  inst_host_calls_root :: LedgerEffectsCommitment
  inst_host_calls_len :: u32

datatype 'p ZkTransactionProof = Neo 'p | Dummy

record 'p TransactionWitness =
  spending_proofs :: "ZkWasmProof list"
  new_output_proofs :: "ZkWasmProof list"
  interleaving_proof :: "'p ZkTransactionProof"
  coordination_scripts :: "ZkWasmProof list"

record 'p ProvenTransaction =
  body :: TransactionBody
  tx_witness :: "'p TransactionWitness"

record UtxoEntry =
  entry_state :: CoroutineState
  entry_contract_hash :: Hash

record Ledger =
  utxos :: "UtxoId \<rightharpoonup> UtxoEntry"
  contract_counters :: "Hash \<rightharpoonup> nat"
  utxo_to_coroutine :: "UtxoId \<rightharpoonup> CoroutineId"
  ownership_registry :: "CoroutineId \<rightharpoonup> CoroutineId"

datatype VerificationError =
    InputContinuationSizeMismatch
  | OwnershipSizeMismatch
  | OwnerHasNoStableIdentity
  | InterleavingProofError InterleavingError
  | FoldVerification string
  | InputNotFound
  | InvalidShapeTokenStorage nat nat
  | LiveTokenMustBeBoundInInstance ProcessId
  | InvalidStateKindTransition string string

definition Ledger_new :: Ledger where
  "Ledger_new = \<lparr>utxos = Map.empty, contract_counters = Map.empty,
     utxo_to_coroutine = Map.empty, ownership_registry = Map.empty\<rparr>"

definition TOKEN_STORAGE_SIZE :: nat where "TOKEN_STORAGE_SIZE = 3"

fun validate_token_state :: "CoroutineState \<Rightarrow> (VerificationError, unit) outcome" where
  "validate_token_state (Token st) =
     (if length st \<noteq> TOKEN_STORAGE_SIZE
      then Err (InvalidShapeTokenStorage (length st) TOKEN_STORAGE_SIZE) else Ok ())"
| "validate_token_state (Utxo st) = Ok ()"

text \<open>\<^verbatim>\<open>TransactionBody::hash\<close> is a constant.\<close>

definition TransactionBody_hash :: "TransactionBody \<Rightarrow> Hash" where
  "TransactionBody_hash b = Hash 0 0 0 0"

section \<open>Proofs\<close>

text \<open>The digest and folding functions of the external crates, over the proof's data \<open>'p\<close>.\<close>

record ('p, 'prep, 'd) fold_lib =
  plan_anchor :: "'p \<Rightarrow> 'd option"
  semantic_state_digest :: "nat list \<Rightarrow> 'd"
  preprocess_sparse_seeded :: "'p \<Rightarrow> nat \<Rightarrow> (string, 'prep) outcome"
  verify_uncompressed_audit :: "'prep \<Rightarrow> 'p \<Rightarrow> (string, unit) outcome"

definition FOLD_SEED :: nat where "FOLD_SEED = 0x57420001"
definition IVC_SEMANTIC_FIELD_COUNT :: nat where "IVC_SEMANTIC_FIELD_COUNT = 7"

definition expected_initial_semantic_state_anchor ::
  "('p, 'prep, 'd) fold_lib \<Rightarrow> InterleavingInstance \<Rightarrow> 'd" where
  "expected_initial_semantic_state_anchor lib inst =
     semantic_state_digest lib ((replicate IVC_SEMANTIC_FIELD_COUNT 0)[0 := entrypoint inst])"

definition public_instance :: "ZkWasmProof \<Rightarrow> WasmInstance" where
  "public_instance p = \<lparr>inst_host_calls_root = host_calls_root p,
     inst_host_calls_len = word_of_nat (length (trace p))\<rparr>"

definition ZkWasmProof_verify ::
  "ZkWasmProof \<Rightarrow> CoroutineState option \<Rightarrow> Hash \<Rightarrow> CoroutineState option
    \<Rightarrow> (VerificationError, unit) outcome" where
  "ZkWasmProof_verify p inp key out = Ok ()"

definition verify_live_tokens_bound_in_instance ::
  "InterleavingInstance \<Rightarrow> (VerificationError, unit) outcome" where
  "verify_live_tokens_bound_in_instance inst =
    each (\<lambda>pid. at (is_token inst) pid (\<lambda>tok.
      if \<not> tok then Ok () else
      let burned_input = (if pid < length (must_burn inst) then must_burn inst ! pid else False) in
      if burned_input then Ok () else
      at (ownership_out inst) pid (\<lambda>owner.
      if owner = None then Err (LiveTokenMustBeBoundInInstance pid) else Ok ())))
    [0..<n_inputs inst + n_new inst]"

definition verify_fold ::
  "('p, 'prep, 'd) fold_lib \<Rightarrow> 'p \<Rightarrow> InterleavingInstance \<Rightarrow> (VerificationError, unit) outcome" where
  "verify_fold lib p inst =
    (if plan_anchor lib p \<noteq> Some (expected_initial_semantic_state_anchor lib inst)
     then Err (FoldVerification ''initial-state digest anchor doesn't match the instance'')
     else
       andthen (map_err (\<lambda>e. FoldVerification (''preprocess: '' @ e)) (preprocess_sparse_seeded lib p FOLD_SEED)) (\<lambda>prep.
       map_err FoldVerification (verify_uncompressed_audit lib prep p)))"

definition ZkTransactionProof_verify ::
  "('p, 'prep, 'd) fold_lib \<Rightarrow> 'p ZkTransactionProof \<Rightarrow> InterleavingInstance \<Rightarrow> InterleavingWitness
    \<Rightarrow> (VerificationError, unit) outcome" where
  "ZkTransactionProof_verify lib proof inst wit =
    andthen (case proof of Neo p \<Rightarrow> verify_fold lib p inst | Dummy \<Rightarrow> Ok ()) (\<lambda>_.
    andthen (verify_live_tokens_bound_in_instance inst) (\<lambda>_.
    map_err InterleavingProofError (verify_interleaving_semantics inst wit)))"

section \<open>The public instance of a transaction\<close>

text \<open>The first loop of \<^verbatim>\<open>input_ownership_for_inputs\<close>: stable ids to the last input position with them.\<close>

fun coroutine_to_pid ::
  "Ledger \<Rightarrow> (nat \<times> UtxoId) list \<Rightarrow> (CoroutineId \<rightharpoonup> ProcessId) \<Rightarrow> (CoroutineId \<rightharpoonup> ProcessId)" where
  "coroutine_to_pid led [] m = m"
| "coroutine_to_pid led ((pid, u) # us) m =
    coroutine_to_pid led us
      (case utxo_to_coroutine led u of None \<Rightarrow> m | Some cid \<Rightarrow> m(cid \<mapsto> pid))"

definition input_ownership_for_inputs :: "Ledger \<Rightarrow> UtxoId list \<Rightarrow> ProcessId option list" where
  "input_ownership_for_inputs led us =
    (let pids = coroutine_to_pid led (enumerate 0 us) Map.empty in
     map (\<lambda>u. case utxo_to_coroutine led u of
            None \<Rightarrow> None
          | Some token_cid \<Rightarrow> (case ownership_registry led token_cid of
              None \<Rightarrow> None
            | Some owner_cid \<Rightarrow> pids owner_cid)) us)"

definition build_wasm_instances_in_canonical_order ::
  "ZkWasmProof list \<Rightarrow> ZkWasmProof list \<Rightarrow> ZkWasmProof list \<Rightarrow> (VerificationError, WasmInstance list) outcome" where
  "build_wasm_instances_in_canonical_order spending new_outs coords =
    Ok (map public_instance spending @ map public_instance new_outs @ map public_instance coords)"

text \<open>The loop body over the inputs and their proofs.\<close>

definition check_input ::
  "Ledger \<Rightarrow> TransactionBody \<Rightarrow> nat \<times> UtxoId \<times> ZkWasmProof \<Rightarrow> (VerificationError, unit) outcome" where
  "check_input led b = (\<lambda>(i, utxo_id, proof).
    at (continuations b) i (\<lambda>cont.
    need InputNotFound (utxos led utxo_id) (\<lambda>entry.
    andthen (validate_token_state (entry_state entry)) (\<lambda>_.
    andthen
      (case cont of
         None \<Rightarrow> Ok ()
       | Some cont_state \<Rightarrow>
           andthen (validate_token_state cont_state) (\<lambda>_.
           if is_token_state (entry_state entry) \<noteq> is_token_state cont_state
           then Err (InvalidStateKindTransition (state_kind (entry_state entry)) (state_kind cont_state))
           else Ok ()))
      (\<lambda>_. ZkWasmProof_verify proof (Some (entry_state entry)) (entry_contract_hash entry) cont)))))"

definition check_new_output :: "ZkWasmProof \<times> NewOutput \<Rightarrow> (VerificationError, unit) outcome" where
  "check_new_output = (\<lambda>(proof, entry).
    andthen (validate_token_state (out_state entry)) (\<lambda>_.
    ZkWasmProof_verify proof None (out_contract_hash entry) (Some (out_state entry))))"

text \<open>\<^verbatim>\<open>self.utxos[input]\<close>, for every input.\<close>

definition input_entries :: "Ledger \<Rightarrow> UtxoId list \<Rightarrow> (VerificationError, UtxoEntry list) outcome" where
  "input_entries led us = map_out (\<lambda>u. expect (utxos led u) Ok) us"

text \<open>The instance and the traces, from the entries of the inputs.\<close>

definition build_instance ::
  "Ledger \<Rightarrow> TransactionBody \<Rightarrow> 'p TransactionWitness \<Rightarrow> UtxoEntry list \<Rightarrow> WasmInstance list
    \<Rightarrow> InterleavingInstance" where
  "build_instance led b w entries wasm =
    (let ni = length (inputs b); nn = length (new_outputs b); nc = length (coordination_scripts_keys b) in
     \<lparr>host_calls_roots = map inst_host_calls_root wasm,
      process_table = map entry_contract_hash entries @ map out_contract_hash (new_outputs b)
                      @ coordination_scripts_keys b,
      is_utxo = map (\<lambda>pid. pid < ni + nn) [0..<ni + nn + nc],
      is_token = map (is_token_state \<circ> entry_state) entries
                 @ map (is_token_state \<circ> out_state) (new_outputs b) @ replicate nc False,
      must_burn = map (\<lambda>cont. cont = None) (take ni (continuations b)),
      n_inputs = ni, n_new = nn, n_coords = nc,
      ownership_in = input_ownership_for_inputs led (inputs b) @ replicate nn None,
      ownership_out = map (body_ownership_out b)
                        [0..<length (spending_proofs w) + length (new_output_proofs w)],
      entrypoint = body_entrypoint b,
      input_states = map entry_state entries\<rparr>)"

definition build_witness :: "'p TransactionWitness \<Rightarrow> InterleavingWitness" where
  "build_witness w = \<lparr>traces = map trace (spending_proofs w) @ map trace (new_output_proofs w)
     @ map trace (coordination_scripts w)\<rparr>"

definition interleaving_artifacts ::
  "Ledger \<Rightarrow> TransactionBody \<Rightarrow> 'p TransactionWitness
    \<Rightarrow> (VerificationError, InterleavingInstance \<times> InterleavingWitness) outcome" where
  "interleaving_artifacts led b w =
    (if length (spending_proofs w) \<noteq> length (inputs b) then Panic
     else if length (continuations b) \<noteq> length (inputs b) then Err InputContinuationSizeMismatch
     else
       andthen (each (check_input led b) (enumerate 0 (zip (inputs b) (spending_proofs w)))) (\<lambda>_.
       andthen (each check_new_output (zip (new_output_proofs w) (new_outputs b))) (\<lambda>_.
       andthen (each (\<lambda>(proof, key). ZkWasmProof_verify proof None key None)
                  (zip (coordination_scripts w) (coordination_scripts_keys b))) (\<lambda>_.
       andthen (input_entries led (inputs b)) (\<lambda>entries.
       andthen (build_wasm_instances_in_canonical_order (spending_proofs w) (new_output_proofs w)
                  (coordination_scripts w)) (\<lambda>wasm.
       Ok (build_instance led b w entries wasm, build_witness w)))))))"

definition verify_witness ::
  "('p, 'prep, 'd) fold_lib \<Rightarrow> Ledger \<Rightarrow> TransactionBody \<Rightarrow> 'p TransactionWitness
    \<Rightarrow> (VerificationError, unit) outcome" where
  "verify_witness lib led b w =
    andthen (interleaving_artifacts led b w) (\<lambda>(inst, wit).
    ZkTransactionProof_verify lib (interleaving_proof w) inst wit)"

section \<open>Applying a transaction\<close>

text \<open>\<^verbatim>\<open>contract_counters.entry(h).or_insert(0)\<close>, the id with that nonce, and \<^verbatim>\<open>*counter += 1\<close>.\<close>

definition alloc_utxo_id ::
  "Ledger \<Rightarrow> Hash \<Rightarrow> (UtxoId \<Rightarrow> Ledger \<Rightarrow> (VerificationError, 'a) outcome) \<Rightarrow> (VerificationError, 'a) outcome" where
  "alloc_utxo_id led h k =
    (let counter = (case contract_counters led h of None \<Rightarrow> 0 | Some c \<Rightarrow> c) in
     checked64 (counter + 1) (\<lambda>c'.
     k \<lparr>uid_contract_hash = h, uid_nonce = counter\<rparr>
       (led\<lparr>contract_counters := (contract_counters led)(h \<mapsto> c')\<rparr>)))"

definition add_utxo :: "Ledger \<Rightarrow> UtxoId \<Rightarrow> CoroutineId \<Rightarrow> UtxoEntry \<Rightarrow> Ledger" where
  "add_utxo led u cid entry =
    led\<lparr>utxo_to_coroutine := (utxo_to_coroutine led)(u \<mapsto> cid), utxos := (utxos led)(u \<mapsto> entry)\<rparr>"

definition input_coroutines :: "Ledger \<Rightarrow> UtxoId list \<Rightarrow> (VerificationError, CoroutineId list) outcome" where
  "input_coroutines led us = map_out (\<lambda>u. expect (utxo_to_coroutine led u) Ok) us"

text \<open>The loop body over the continuations: \<open>led0\<close> is \<^verbatim>\<open>self\<close>; the state is the new ledger and
  \<^verbatim>\<open>is_reference_input\<close>.\<close>

definition continue_input ::
  "Ledger \<Rightarrow> UtxoId list \<Rightarrow> CoroutineId option list \<Rightarrow> nat \<times> CoroutineState option
    \<Rightarrow> Ledger \<times> nat set \<Rightarrow> (VerificationError, Ledger \<times> nat set) outcome" where
  "continue_input led0 ins ptc = (\<lambda>(i, cont_opt) (led, refs).
    case cont_opt of
      None \<Rightarrow> Ok (led, refs)
    | Some cont \<Rightarrow>
        at ins i (\<lambda>parent.
        expect (utxos led0 parent) (\<lambda>parent_entry.
        let h = entry_contract_hash parent_entry;
            finish = (\<lambda>utxo_id led' refs'.
              at ptc i (\<lambda>cid_opt. expect cid_opt (\<lambda>cid.
              Ok (add_utxo led' utxo_id cid \<lparr>entry_state = cont, entry_contract_hash = h\<rparr>, refs'))))
        in if cont = entry_state parent_entry then finish parent led (insert i refs)
           else alloc_utxo_id led h (\<lambda>utxo_id led'. finish utxo_id led' refs))))"

text \<open>The loop body over the new outputs; the state is the new ledger and \<^verbatim>\<open>process_to_coroutine\<close>.\<close>

definition create_output ::
  "Hash \<Rightarrow> nat \<Rightarrow> nat \<times> NewOutput \<Rightarrow> Ledger \<times> CoroutineId option list
    \<Rightarrow> (VerificationError, Ledger \<times> CoroutineId option list) outcome" where
  "create_output tx_hash ni = (\<lambda>(j, out) (led, ptc).
    alloc_utxo_id led (out_contract_hash out) (\<lambda>utxo_id led'.
    let cid = \<lparr>creation_tx_hash = tx_hash, creation_output_index = j\<rparr> in
    put ptc (ni + j) (Some cid) (\<lambda>ptc'.
    Ok (add_utxo led' utxo_id cid
          \<lparr>entry_state = out_state out, entry_contract_hash = out_contract_hash out\<rparr>, ptc'))))"

definition update_owner ::
  "(OutputRef \<rightharpoonup> OutputRef) \<Rightarrow> CoroutineId option list \<Rightarrow> ProcessId \<Rightarrow> Ledger
    \<Rightarrow> (VerificationError, Ledger) outcome" where
  "update_owner own ptc token_pid led =
    at ptc token_pid (\<lambda>token_opt. expect token_opt (\<lambda>token_cid.
    case own token_pid of
      Some owner_pid \<Rightarrow>
        at ptc owner_pid (\<lambda>owner_opt. expect owner_opt (\<lambda>owner_cid.
        Ok (led\<lparr>ownership_registry := (ownership_registry led)(token_cid \<mapsto> owner_cid)\<rparr>)))
    | None \<Rightarrow> Ok (led\<lparr>ownership_registry := (ownership_registry led)(token_cid := None)\<rparr>)))"

definition remove_input ::
  "nat set \<Rightarrow> nat \<times> UtxoId \<Rightarrow> Ledger \<Rightarrow> (VerificationError, Ledger) outcome" where
  "remove_input refs = (\<lambda>(i, u) led.
    if i \<in> refs then Ok led
    else if utxos led u = None then Err InputNotFound
    else Ok (led\<lparr>utxos := (utxos led)(u := None), utxo_to_coroutine := (utxo_to_coroutine led)(u := None)\<rparr>))"

text \<open>The body of \<^verbatim>\<open>apply_transaction\<close> after verification.\<close>

definition apply_body :: "Ledger \<Rightarrow> TransactionBody \<Rightarrow> (VerificationError, Ledger) outcome" where
  "apply_body led b =
    (let ni = length (inputs b); nn = length (new_outputs b) in
     andthen (input_coroutines led (inputs b)) (\<lambda>cids.
     let ptc = map Some cids @ replicate nn None in
     andthen (fold_out (continue_input led (inputs b) ptc) (enumerate 0 (continuations b)) (led, {})) (\<lambda>(led1, refs).
     andthen (fold_out (create_output (TransactionBody_hash b) ni) (enumerate 0 (new_outputs b)) (led1, ptc)) (\<lambda>(led2, ptc2).
     andthen (fold_out (update_owner (body_ownership_out b) ptc2) [0..<ni + nn] led2) (\<lambda>led3.
     fold_out (remove_input refs) (enumerate 0 (inputs b)) led3)))))"

definition apply_transaction ::
  "('p, 'prep, 'd) fold_lib \<Rightarrow> Ledger \<Rightarrow> 'p ProvenTransaction \<Rightarrow> (VerificationError, Ledger) outcome" where
  "apply_transaction lib led tx =
    andthen (verify_witness lib led (body tx) (tx_witness tx)) (\<lambda>_. apply_body led (body tx))"

end
