(* ===== verification/Ledger_Invariants.thy ===== *)
theory Ledger_Invariants
  imports Ledger
begin

text \<open>
  The ledger's well-formedness, and what each loop of \<^verbatim>\<open>apply_transaction\<close> does to the ledger: ids are
  allocated past the contract's counter, so the first two loops only add entries under fresh ids
  (\<open>ext\<close>); the third touches the ownership registry alone; the last removes the spent inputs.
\<close>

section \<open>Well-formed ledgers and growth\<close>

definition ctr :: "Ledger \<Rightarrow> Hash \<Rightarrow> nat" where
  "ctr led h = (case contract_counters led h of None \<Rightarrow> 0 | Some c \<Rightarrow> c)"

definition valid_entry :: "UtxoId \<Rightarrow> UtxoEntry \<Rightarrow> bool" where
  "valid_entry u e \<longleftrightarrow> entry_contract_hash e = uid_contract_hash u
     \<and> validate_token_state (entry_state e) = Ok ()"

definition wf_ledger :: "Ledger \<Rightarrow> bool" where
  "wf_ledger led \<longleftrightarrow> dom (utxo_to_coroutine led) = dom (utxos led)
     \<and> (\<forall>u e. utxos led u = Some e \<longrightarrow> valid_entry u e \<and> uid_nonce u < ctr led (uid_contract_hash u))"

text \<open>\<open>led'\<close> has the entries of \<open>led\<close> and others under ids that \<open>led\<close> never allocated.\<close>

definition ext :: "Ledger \<Rightarrow> Ledger \<Rightarrow> bool" where
  "ext led led' \<longleftrightarrow> utxos led \<subseteq>\<^sub>m utxos led' \<and> utxo_to_coroutine led \<subseteq>\<^sub>m utxo_to_coroutine led'
     \<and> (\<forall>u. utxos led' u \<noteq> None \<longrightarrow> utxos led u = None \<longrightarrow> ctr led (uid_contract_hash u) \<le> uid_nonce u)
     \<and> (\<forall>h. ctr led h \<le> ctr led' h)
     \<and> ownership_registry led' = ownership_registry led"

lemma ext_refl: "ext led led"
  by (auto simp: ext_def)

lemma ext_trans:
  assumes "ext a b" "ext b c"
  shows "ext a c"
proof -
  have "ctr a (uid_contract_hash u) \<le> uid_nonce u" if u: "utxos c u \<noteq> None" "utxos a u = None" for u
  proof (cases "utxos b u = None")
    case True
    with assms(2) u(1) have "ctr b (uid_contract_hash u) \<le> uid_nonce u" by (auto simp: ext_def)
    moreover from assms(1) have "ctr a (uid_contract_hash u) \<le> ctr b (uid_contract_hash u)" by (simp add: ext_def)
    ultimately show ?thesis by simp
  next
    case False
    with assms(1) u(2) show ?thesis by (auto simp: ext_def)
  qed
  with assms show ?thesis by (auto simp: ext_def intro: map_le_trans order_trans)
qed

lemma ext_utxo: "ext a b \<Longrightarrow> utxos a u = Some e \<Longrightarrow> utxos b u = Some e"
  by (auto simp: ext_def map_le_def dom_def)

lemma ext_coroutine: "ext a b \<Longrightarrow> utxo_to_coroutine a u = Some c \<Longrightarrow> utxo_to_coroutine b u = Some c"
  by (auto simp: ext_def map_le_def dom_def)

lemma wf_nonce: "wf_ledger led \<Longrightarrow> utxos led u = Some e \<Longrightarrow> uid_nonce u < ctr led (uid_contract_hash u)"
  by (simp add: wf_ledger_def)

lemma wf_hash: "wf_ledger led \<Longrightarrow> utxos led u = Some e \<Longrightarrow> entry_contract_hash e = uid_contract_hash u"
  by (simp add: wf_ledger_def valid_entry_def)

lemma wf_coroutine: "wf_ledger led \<Longrightarrow> utxos led u \<noteq> None \<longleftrightarrow> utxo_to_coroutine led u \<noteq> None"
  by (auto simp: wf_ledger_def dom_def)

lemma wf_new: "wf_ledger Ledger_new"
  by (simp add: wf_ledger_def Ledger_new_def)

section \<open>Allocation\<close>

lemma alloc_utxo_id_Ok:
  "alloc_utxo_id led h k = Ok r \<longleftrightarrow> Suc (ctr led h) < USIZE_LIMIT
     \<and> k \<lparr>uid_contract_hash = h, uid_nonce = ctr led h\<rparr>
         (led\<lparr>contract_counters := (contract_counters led)(h \<mapsto> Suc (ctr led h))\<rparr>) = Ok r"
  by (auto simp: alloc_utxo_id_def ctr_def Let_def outcome_simps)

lemma alloc_utxo_id_Panic:
  "alloc_utxo_id led h k = Panic \<longleftrightarrow> (Suc (ctr led h) < USIZE_LIMIT \<longrightarrow>
     k \<lparr>uid_contract_hash = h, uid_nonce = ctr led h\<rparr>
         (led\<lparr>contract_counters := (contract_counters led)(h \<mapsto> Suc (ctr led h))\<rparr>) = Panic)"
  by (auto simp: alloc_utxo_id_def ctr_def Let_def outcome_simps)

text \<open>The ledger with a fresh utxo of program \<open>h\<close>.\<close>

definition with_fresh :: "Ledger \<Rightarrow> Hash \<Rightarrow> CoroutineId \<Rightarrow> CoroutineState \<Rightarrow> Ledger" where
  "with_fresh led h cid st =
     add_utxo (led\<lparr>contract_counters := (contract_counters led)(h \<mapsto> Suc (ctr led h))\<rparr>)
       \<lparr>uid_contract_hash = h, uid_nonce = ctr led h\<rparr> cid \<lparr>entry_state = st, entry_contract_hash = h\<rparr>"

lemma ctr_with_fresh: "ctr (with_fresh led h cid st) h' = (if h' = h then Suc (ctr led h) else ctr led h')"
  by (simp add: with_fresh_def add_utxo_def ctr_def)

lemma with_fresh_entry:
  "utxos (with_fresh led h cid st) \<lparr>uid_contract_hash = h, uid_nonce = ctr led h\<rparr>
     = Some \<lparr>entry_state = st, entry_contract_hash = h\<rparr>"
  "utxo_to_coroutine (with_fresh led h cid st) \<lparr>uid_contract_hash = h, uid_nonce = ctr led h\<rparr> = Some cid"
  by (simp_all add: with_fresh_def add_utxo_def)

lemma fresh_id:
  assumes "wf_ledger led"
  shows "utxos led \<lparr>uid_contract_hash = h, uid_nonce = ctr led h\<rparr> = None"
    "utxo_to_coroutine led \<lparr>uid_contract_hash = h, uid_nonce = ctr led h\<rparr> = None"
proof -
  show n: "utxos led \<lparr>uid_contract_hash = h, uid_nonce = ctr led h\<rparr> = None"
  proof (rule ccontr)
    assume "utxos led \<lparr>uid_contract_hash = h, uid_nonce = ctr led h\<rparr> \<noteq> None"
    then obtain e where "utxos led \<lparr>uid_contract_hash = h, uid_nonce = ctr led h\<rparr> = Some e" by auto
    from wf_nonce [OF assms this] show False by simp
  qed
  then show "utxo_to_coroutine led \<lparr>uid_contract_hash = h, uid_nonce = ctr led h\<rparr> = None"
    using wf_coroutine [OF assms] by blast
qed

lemma with_fresh_wf:
  assumes "wf_ledger led" and "validate_token_state st = Ok ()"
  shows "wf_ledger (with_fresh led h cid st)" "ext led (with_fresh led h cid st)"
proof -
  let ?u = "\<lparr>uid_contract_hash = h, uid_nonce = ctr led h\<rparr>"
  have utxos: "utxos (with_fresh led h cid st) = (utxos led)(?u \<mapsto> \<lparr>entry_state = st, entry_contract_hash = h\<rparr>)"
    and cor: "utxo_to_coroutine (with_fresh led h cid st) = (utxo_to_coroutine led)(?u \<mapsto> cid)"
    and reg: "ownership_registry (with_fresh led h cid st) = ownership_registry led"
    by (simp_all add: with_fresh_def add_utxo_def)
  show "wf_ledger (with_fresh led h cid st)"
    using assms by (auto simp: wf_ledger_def utxos cor ctr_with_fresh valid_entry_def less_Suc_eq)
  show "ext led (with_fresh led h cid st)"
    using fresh_id [OF assms(1), of h]
    by (auto simp: ext_def utxos cor reg ctr_with_fresh map_le_def dom_def)
qed

section \<open>The loop over the continuations\<close>

definition continue_ok ::
  "Ledger \<Rightarrow> UtxoId list \<Rightarrow> CoroutineId option list \<Rightarrow> nat \<times> CoroutineState option \<Rightarrow> bool" where
  "continue_ok led0 ins ptc = (\<lambda>(i, c). wf_ledger led0 \<and> i < length ins \<and> i < length ptc
     \<and> utxos led0 (ins ! i) \<noteq> None \<and> ptc ! i = utxo_to_coroutine led0 (ins ! i)
     \<and> (\<forall>cont. c = Some cont \<longrightarrow> validate_token_state cont = Ok ()))"

text \<open>The state is unchanged when the continuation is the input's own state, otherwise the input's
  program gets a fresh utxo with the input's stable identity.\<close>

lemma continue_input_cases:
  assumes "continue_ok led0 ins ptc (i, c)" and "ext led0 led"
    and "continue_input led0 ins ptc (i, c) (led, refs) = Ok (led', refs')"
  shows "(c = None \<and> led' = led \<and> refs' = refs)
    \<or> (\<exists>cont e cid. c = Some cont \<and> utxos led0 (ins ! i) = Some e
         \<and> utxo_to_coroutine led0 (ins ! i) = Some cid
         \<and> (if cont = entry_state e then led' = led \<and> refs' = insert i refs
            else led' = with_fresh led (entry_contract_hash e) cid cont \<and> refs' = refs))"
proof (cases c)
  case None
  with assms(3) show ?thesis by (simp add: continue_input_def)
next
  case (Some cont)
  from assms(1) wf_coroutine obtain e cid where e: "utxos led0 (ins ! i) = Some e"
    and cid: "utxo_to_coroutine led0 (ins ! i) = Some cid" "ptc ! i = Some cid"
    by (fastforce simp: continue_ok_def)
  have same: "add_utxo led (ins ! i) cid \<lparr>entry_state = entry_state e, entry_contract_hash = entry_contract_hash e\<rparr> = led"
    using ext_utxo [OF assms(2) e] ext_coroutine [OF assms(2) cid(1)]
    by (simp add: add_utxo_def map_upd_triv)
  from assms(3) e cid same Some show ?thesis
    by (auto simp: continue_input_def outcome_simps Let_def alloc_utxo_id_Ok with_fresh_def split: if_splits)
qed

lemma continue_input_grows:
  assumes "continue_ok led0 ins ptc x" and "wf_ledger (fst s)" "ext led0 (fst s)"
    and "continue_input led0 ins ptc x s = Ok s'"
  shows "wf_ledger (fst s') \<and> ext (fst s) (fst s') \<and> ext led0 (fst s')"
proof -
  obtain i c where x: "x = (i, c)" by (cases x)
  obtain led refs where s: "s = (led, refs)" by (cases s)
  obtain led' refs' where s': "s' = (led', refs')" by (cases s')
  from continue_input_cases [of led0 ins ptc i c led refs led' refs'] assms
  have "led' = led \<or> (\<exists>h cid cont. led' = with_fresh led h cid cont \<and> validate_token_state cont = Ok ())"
    by (auto simp: x s s' continue_ok_def split: if_splits)
  with with_fresh_wf [of led] assms(2,3) show ?thesis
    by (auto simp: s s' intro: ext_trans ext_refl)
qed

interpretation continue_loop: loop_contract "continue_input led0 ins ptc" "continue_ok led0 ins ptc"
  "\<lambda>s. wf_ledger (fst s) \<and> ext led0 (fst s)" "\<lambda>s s'. ext (fst s) (fst s')" for led0 ins ptc
  by unfold_locales (auto dest: continue_input_grows intro: ext_trans ext_refl)

text \<open>The reference inputs are those whose continuation is their own state.\<close>

definition keeps_state :: "Ledger \<Rightarrow> UtxoId list \<Rightarrow> nat \<Rightarrow> CoroutineState option \<Rightarrow> bool" where
  "keeps_state led0 ins i c \<longleftrightarrow> (\<exists>e. utxos led0 (ins ! i) = Some e \<and> c = Some (entry_state e))"

lemma continue_refs:
  assumes "fold_out (continue_input led0 ins ptc) xs s = Ok s'"
    and "\<forall>x \<in> set xs. continue_ok led0 ins ptc x" and "wf_ledger (fst s)" "ext led0 (fst s)"
  shows "snd s' = snd s \<union> {i. \<exists>c. (i, c) \<in> set xs \<and> keeps_state led0 ins i c}"
  using assms
proof (induction xs arbitrary: s)
  case Nil
  then show ?case by simp
next
  case (Cons x xs)
  obtain i c where x: "x = (i, c)" by (cases x)
  from Cons.prems obtain t where t: "continue_input led0 ins ptc x s = Ok t"
    "fold_out (continue_input led0 ins ptc) xs t = Ok s'" by (auto simp: outcome_simps)
  from Cons.prems continue_input_grows [OF _ _ _ t(1)]
  have IH: "snd s' = snd t \<union> {i. \<exists>c. (i, c) \<in> set xs \<and> keeps_state led0 ins i c}"
    by (intro Cons.IH [OF t(2)]) auto
  from continue_input_cases [of led0 ins ptc i c "fst s" "snd s" "fst t" "snd t"] Cons.prems t(1)
  have "snd t = (if keeps_state led0 ins i c then insert i (snd s) else snd s)"
    by (auto simp: x keeps_state_def split: if_splits)
  with IH show ?case by (auto simp: x)
qed

section \<open>The loop over the new outputs\<close>

definition output_ok :: "nat \<times> NewOutput \<Rightarrow> bool" where
  "output_ok = (\<lambda>(j, out). validate_token_state (out_state out) = Ok ())"

lemma create_output_Ok:
  "create_output th ni (j, out) (led, ptc) = Ok (led', ptc') \<longleftrightarrow>
     Suc (ctr led (out_contract_hash out)) < USIZE_LIMIT \<and> ni + j < length ptc
     \<and> ptc' = ptc[ni + j := Some \<lparr>creation_tx_hash = th, creation_output_index = j\<rparr>]
     \<and> led' = with_fresh led (out_contract_hash out)
               \<lparr>creation_tx_hash = th, creation_output_index = j\<rparr> (out_state out)"
  by (auto simp: create_output_def alloc_utxo_id_Ok outcome_simps Let_def with_fresh_def)

lemma create_output_grows:
  assumes "output_ok x" and "wf_ledger (fst s)" and "create_output th ni x s = Ok s'"
  shows "wf_ledger (fst s') \<and> ext (fst s) (fst s')"
proof -
  obtain j out where x: "x = (j, out)" by (cases x)
  obtain led ptc where s: "s = (led, ptc)" by (cases s)
  obtain led' ptc' where s': "s' = (led', ptc')" by (cases s')
  from assms with_fresh_wf [of led "out_state out"] show ?thesis
    by (simp add: x s s' create_output_Ok output_ok_def)
qed

interpretation create_loop: loop_contract "create_output th ni" output_ok
  "\<lambda>s. wf_ledger (fst s)" "\<lambda>s s'. ext (fst s) (fst s')" for th ni
  by unfold_locales (auto dest: create_output_grows intro: ext_trans ext_refl)

lemma create_ptc:
  "fold_out (create_output th ni) (enumerate j outs) (led, ptc) = Ok (led', ptc') \<Longrightarrow>
     length ptc' = length ptc \<and> (outs \<noteq> [] \<longrightarrow> ni + j + length outs \<le> length ptc)
     \<and> (\<forall>i < length ptc. ptc' ! i =
          (if ni + j \<le> i \<and> i < ni + j + length outs
           then Some \<lparr>creation_tx_hash = th, creation_output_index = i - ni\<rparr> else ptc ! i))"
proof (induction outs arbitrary: j led ptc)
  case Nil
  then show ?case by auto
next
  case (Cons out outs)
  from Cons.prems obtain t where t: "create_output th ni (j, out) (led, ptc) = Ok t"
    "fold_out (create_output th ni) (enumerate (Suc j) outs) t = Ok (led', ptc')"
    by (auto simp: outcome_simps)
  obtain led1 ptc1 where tt: "t = (led1, ptc1)" by (cases t)
  from t(1) have p1: "ni + j < length ptc"
    "ptc1 = ptc[ni + j := Some \<lparr>creation_tx_hash = th, creation_output_index = j\<rparr>]"
    by (auto simp: tt create_output_Ok)
  from Cons.IH [OF t(2) [unfolded tt]] p1 show ?case
    by (auto simp: nth_list_update)
qed

section \<open>The loop over the owners\<close>

text \<open>What the loop leaves alone.\<close>

definition same_utxos :: "Ledger \<Rightarrow> Ledger \<Rightarrow> bool" where
  "same_utxos a b \<longleftrightarrow> utxos b = utxos a \<and> utxo_to_coroutine b = utxo_to_coroutine a
     \<and> contract_counters b = contract_counters a"

lemma update_owner_Ok:
  "update_owner own ptc t led = Ok led' \<longleftrightarrow> t < length ptc \<and> (\<exists>c. ptc ! t = Some c
     \<and> (case own t of
          None \<Rightarrow> led' = led\<lparr>ownership_registry := (ownership_registry led)(c := None)\<rparr>
        | Some q \<Rightarrow> q < length ptc \<and> (\<exists>d. ptc ! q = Some d
            \<and> led' = led\<lparr>ownership_registry := (ownership_registry led)(c \<mapsto> d)\<rparr>)))"
  by (cases "own t") (auto simp: update_owner_def outcome_simps)

interpretation owner_loop: loop_contract "update_owner own ptc" "\<lambda>_. True" "\<lambda>_. True" same_utxos for own ptc
  by unfold_locales (auto simp: update_owner_Ok same_utxos_def split: option.splits)

lemma owner_registry:
  assumes "fold_out (update_owner own ptc) ts led = Ok led'" and "distinct ts"
    and "\<forall>t \<in> set ts. \<forall>u \<in> set ts. ptc ! t = ptc ! u \<longrightarrow> t = u"
  shows "(\<forall>t \<in> set ts. \<exists>c. ptc ! t = Some c
            \<and> ownership_registry led' c = (case own t of None \<Rightarrow> None | Some q \<Rightarrow> ptc ! q))
    \<and> (\<forall>c. Some c \<notin> (!) ptc ` set ts \<longrightarrow> ownership_registry led' c = ownership_registry led c)"
  using assms
proof (induction ts arbitrary: led)
  case Nil
  then show ?case by simp
next
  case (Cons t ts)
  from Cons.prems(1) obtain led1 where l1: "update_owner own ptc t led = Ok led1"
    "fold_out (update_owner own ptc) ts led1 = Ok led'" by (auto simp: outcome_simps)
  from l1(1) obtain c where c: "ptc ! t = Some c"
    "ownership_registry led1 = (ownership_registry led)(c := (case own t of None \<Rightarrow> None | Some q \<Rightarrow> ptc ! q))"
    by (cases "own t") (auto simp: update_owner_Ok)
  from Cons.IH [OF l1(2)] Cons.prems(2,3)
  have IH: "\<forall>t \<in> set ts. \<exists>c. ptc ! t = Some c
            \<and> ownership_registry led' c = (case own t of None \<Rightarrow> None | Some q \<Rightarrow> ptc ! q)"
    "\<forall>c. Some c \<notin> (!) ptc ` set ts \<longrightarrow> ownership_registry led' c = ownership_registry led1 c"
    by auto
  have "Some c \<notin> (!) ptc ` set ts" using Cons.prems(2,3) c(1) by force
  with IH(2) c(2) have "ownership_registry led' c = (case own t of None \<Rightarrow> None | Some q \<Rightarrow> ptc ! q)" by simp
  with IH c show ?case by auto
qed

section \<open>The loop that removes the spent inputs\<close>

lemma remove_input_simp:
  "remove_input refs (i, u) led =
    (if i \<in> refs then Ok led
     else if utxos led u = None then Err InputNotFound
     else Ok (led\<lparr>utxos := (utxos led)(u := None), utxo_to_coroutine := (utxo_to_coroutine led)(u := None)\<rparr>))"
  by (simp add: remove_input_def)

lemma remove_inputs:
  "fold_out (remove_input refs) xs led = Ok led' \<Longrightarrow>
     utxos led' = (\<lambda>u. if \<exists>i. (i, u) \<in> set xs \<and> i \<notin> refs then None else utxos led u)
     \<and> utxo_to_coroutine led' = (\<lambda>u. if \<exists>i. (i, u) \<in> set xs \<and> i \<notin> refs then None else utxo_to_coroutine led u)
     \<and> contract_counters led' = contract_counters led \<and> ownership_registry led' = ownership_registry led"
proof (induction xs arbitrary: led)
  case Nil
  then show ?case by simp
next
  case (Cons x xs)
  obtain i u where x: "x = (i, u)" by (cases x)
  show ?case
  proof (cases "i \<in> refs")
    case True
    with Cons.prems have "fold_out (remove_input refs) xs led = Ok led'"
      by (simp add: x remove_input_def)
    from Cons.IH [OF this] True show ?thesis by (auto simp: x fun_eq_iff)
  next
    case False
    let ?led = "led\<lparr>utxos := (utxos led)(u := None), utxo_to_coroutine := (utxo_to_coroutine led)(u := None)\<rparr>"
    from False Cons.prems have "fold_out (remove_input refs) xs ?led = Ok led'"
      by (simp add: x remove_input_def split: if_splits)
    from Cons.IH [OF this] False show ?thesis by (auto simp: x fun_eq_iff)
  qed
qed

text \<open>Removal succeeds exactly when the spent ids are present and pairwise different.\<close>

lemma remove_inputs_Ok_iff:
  "(\<exists>led'. fold_out (remove_input refs) xs led = Ok led') \<longleftrightarrow>
     distinct (map snd (filter (\<lambda>x. fst x \<notin> refs) xs))
     \<and> (\<forall>x \<in> set xs. fst x \<notin> refs \<longrightarrow> utxos led (snd x) \<noteq> None)"
proof (induction xs arbitrary: led)
  case Nil
  then show ?case by simp
next
  case (Cons x xs)
  obtain i u where x: "x = (i, u)" by (cases x)
  show ?case
  proof (cases "i \<in> refs")
    case True
    with Cons.IH [of led] show ?thesis by (simp add: x remove_input_simp)
  next
    case i: False
    show ?thesis
    proof (cases "utxos led u")
      case None
      with i show ?thesis by (simp add: x remove_input_simp)
    next
      case (Some e)
      let ?led = "led\<lparr>utxos := (utxos led)(u := None), utxo_to_coroutine := (utxo_to_coroutine led)(u := None)\<rparr>"
      from i Some have "(\<exists>led'. fold_out (remove_input refs) (x # xs) led = Ok led')
        \<longleftrightarrow> (\<exists>led'. fold_out (remove_input refs) xs ?led = Ok led')"
        by (simp add: x remove_input_simp)
      with Cons.IH [of ?led] i Some show ?thesis by (auto simp: x)
    qed
  qed
qed

lemma remove_inputs_no_panic: "fold_out (remove_input refs) xs led \<noteq> Panic"
proof (rule fold_out_no_panic [where I = "\<lambda>_ _. True"])
  show "remove_input refs x led \<noteq> Panic" for x led by (cases x) (simp add: remove_input_simp)
qed simp_all

section \<open>Applying the body\<close>

lemma enumerate_split:
  assumes "i < length xs"
  shows "enumerate k xs = enumerate k (take i xs) @ (k + i, xs ! i) # enumerate (Suc (k + i)) (drop (Suc i) xs)"
proof -
  have "enumerate k xs = enumerate k (take i xs @ xs ! i # drop (Suc i) xs)"
    using id_take_nth_drop [OF assms] by simp
  with assms show ?thesis by (simp add: enumerate_append_eq)
qed

text \<open>What \<open>apply_body\<close> relies on: the ledger is well formed, the inputs are in it, the states of the
  transaction have valid shapes.\<close>

definition body_ok :: "Ledger \<Rightarrow> TransactionBody \<Rightarrow> bool" where
  "body_ok led b \<longleftrightarrow> wf_ledger led \<and> length (continuations b) = length (inputs b)
     \<and> (\<forall>u \<in> set (inputs b). utxos led u \<noteq> None)
     \<and> (\<forall>cont. Some cont \<in> set (continuations b) \<longrightarrow> validate_token_state cont = Ok ())
     \<and> (\<forall>out \<in> set (new_outputs b). validate_token_state (out_state out) = Ok ())"

text \<open>The table of stable identities before the new outputs have theirs.\<close>

definition input_ids :: "Ledger \<Rightarrow> TransactionBody \<Rightarrow> CoroutineId option list" where
  "input_ids led b = map (utxo_to_coroutine led) (inputs b) @ replicate (length (new_outputs b)) None"

lemma body_ok_continuations:
  "body_ok led b \<Longrightarrow> \<forall>x \<in> set (enumerate 0 (continuations b)). continue_ok led (inputs b) (input_ids led b) x"
  by (auto simp: continue_ok_def body_ok_def input_ids_def in_set_enumerate_eq nth_append) (metis nth_mem)

lemma body_ok_outputs: "body_ok led b \<Longrightarrow> \<forall>x \<in> set (enumerate 0 (new_outputs b)). output_ok x"
  by (auto simp: output_ok_def body_ok_def in_set_enumerate_eq)

text \<open>The stable identities of the utxo processes: inputs, then new outputs.\<close>

definition stable_ids :: "Ledger \<Rightarrow> TransactionBody \<Rightarrow> CoroutineId option list" where
  "stable_ids led b = map (utxo_to_coroutine led) (inputs b)
     @ map (\<lambda>j. Some \<lparr>creation_tx_hash = TransactionBody_hash b, creation_output_index = j\<rparr>)
         [0..<length (new_outputs b)]"

definition spent :: "Ledger \<Rightarrow> TransactionBody \<Rightarrow> nat \<Rightarrow> bool" where
  "spent led b i \<longleftrightarrow> i < length (inputs b) \<and> \<not> keeps_state led (inputs b) i (continuations b ! i)"

lemma input_coroutines_ids:
  "input_coroutines led us = Ok cids \<Longrightarrow> map Some cids = map (utxo_to_coroutine led) us"
  by (auto simp: input_coroutines_def map_out_Ok outcome_simps list_all2_conv_all_nth intro!: nth_equalityI)

text \<open>The ledgers between the four loops.\<close>

lemma apply_body_phases:
  assumes ok: "body_ok led b" and ap: "apply_body led b = Ok led'"
  shows "\<exists>led1 led2 led3 refs.
    fold_out (continue_input led (inputs b) (input_ids led b))
      (enumerate 0 (continuations b)) (led, {}) = Ok (led1, refs)
    \<and> fold_out (create_output (TransactionBody_hash b) (length (inputs b))) (enumerate 0 (new_outputs b))
        (led1, input_ids led b) = Ok (led2, stable_ids led b)
    \<and> fold_out (update_owner (body_ownership_out b) (stable_ids led b))
        [0..<length (inputs b) + length (new_outputs b)] led2 = Ok led3
    \<and> fold_out (remove_input refs) (enumerate 0 (inputs b)) led3 = Ok led'
    \<and> wf_ledger led1 \<and> ext led led1 \<and> wf_ledger led2 \<and> ext led1 led2 \<and> same_utxos led2 led3
    \<and> (\<forall>i < length (inputs b). i \<in> refs \<longleftrightarrow> \<not> spent led b i)"
proof -
  let ?ni = "length (inputs b)" and ?nn = "length (new_outputs b)"
  let ?ptc = "input_ids led b"
  from ap obtain cids led1 refs led2 ptc2 led3 where
    c: "input_coroutines led (inputs b) = Ok cids" and
    f: "fold_out (continue_input led (inputs b) (map Some cids @ replicate ?nn None)) (enumerate 0 (continuations b)) (led, {}) = Ok (led1, refs)"
      "fold_out (create_output (TransactionBody_hash b) ?ni) (enumerate 0 (new_outputs b)) (led1, map Some cids @ replicate ?nn None) = Ok (led2, ptc2)"
      "fold_out (update_owner (body_ownership_out b) ptc2) [0..<?ni + ?nn] led2 = Ok led3"
      "fold_out (remove_input refs) (enumerate 0 (inputs b)) led3 = Ok led'"
    by (auto simp: apply_body_def Let_def outcome_simps)
  from c have ptc: "map Some cids @ replicate ?nn None = ?ptc"
    by (simp add: input_coroutines_ids input_ids_def)
  note f = f [unfolded ptc]
  have w: "wf_ledger led" and len: "length (continuations b) = ?ni" using ok by (auto simp: body_ok_def)
  have oks: "\<forall>x \<in> set (enumerate 0 (continuations b)). continue_ok led (inputs b) ?ptc x"
    by (rule body_ok_continuations [OF ok])
  have outs: "\<forall>x \<in> set (enumerate 0 (new_outputs b)). output_ok x"
    by (rule body_ok_outputs [OF ok])
  from continue_loop.loop [OF f(1) oks] w ext_refl have g1: "wf_ledger led1" "ext led led1" by auto
  from create_loop.loop [OF f(2) outs] g1 have g2: "wf_ledger led2" "ext led1 led2" by auto
  from owner_loop.loop [OF f(3)] have g3: "same_utxos led2 led3" by simp
  have "refs = {i. \<exists>c. (i, c) \<in> set (enumerate 0 (continuations b)) \<and> keeps_state led (inputs b) i c}"
    using continue_refs [OF f(1) oks] w ext_refl by simp
  then have r: "\<forall>i < ?ni. i \<in> refs \<longleftrightarrow> \<not> spent led b i"
    using len by (auto simp: spent_def in_set_enumerate_eq)
  have "ptc2 = stable_ids led b"
    using create_ptc [OF f(2)]
    by (intro nth_equalityI) (auto simp: stable_ids_def input_ids_def nth_append)
  with f g1 g2 g3 r show ?thesis by metis
qed

text \<open>The whole effect on the utxo set.\<close>

lemma apply_body_effect:
  assumes ok: "body_ok led b" and ap: "apply_body led b = Ok led'"
  obtains led2 where "wf_ledger led2" "ext led led2"
    "utxos led' = (\<lambda>u. if \<exists>i. spent led b i \<and> inputs b ! i = u then None else utxos led2 u)"
    "utxo_to_coroutine led' = (\<lambda>u. if \<exists>i. spent led b i \<and> inputs b ! i = u then None else utxo_to_coroutine led2 u)"
    "contract_counters led' = contract_counters led2"
proof -
  from apply_body_phases [OF ok ap] obtain led1 led2 led3 refs where
    f: "fold_out (remove_input refs) (enumerate 0 (inputs b)) led3 = Ok led'"
    and g: "wf_ledger led1" "ext led led1" "wf_ledger led2" "ext led1 led2" "same_utxos led2 led3"
    and r: "\<forall>i < length (inputs b). i \<in> refs \<longleftrightarrow> \<not> spent led b i" by blast
  have "(\<exists>i. (i, u) \<in> set (enumerate 0 (inputs b)) \<and> i \<notin> refs) \<longleftrightarrow> (\<exists>i. spent led b i \<and> inputs b ! i = u)" for u
    using r by (auto simp: in_set_enumerate_eq spent_def)
  with remove_inputs [OF f] g(5) have
    "utxos led' = (\<lambda>u. if \<exists>i. spent led b i \<and> inputs b ! i = u then None else utxos led2 u)"
    "utxo_to_coroutine led' = (\<lambda>u. if \<exists>i. spent led b i \<and> inputs b ! i = u then None else utxo_to_coroutine led2 u)"
    "contract_counters led' = contract_counters led2"
    by (simp_all add: same_utxos_def cong: if_cong)
  with that [of led2] g ext_trans show thesis by blast
qed

lemma ctr_cong: "contract_counters a = contract_counters b \<Longrightarrow> ctr a h = ctr b h"
  by (simp add: ctr_def)

lemma apply_body_wf:
  assumes "body_ok led b" "apply_body led b = Ok led'"
  shows "wf_ledger led'"
proof -
  from assms obtain led2 where w: "wf_ledger led2" and e:
    "utxos led' = (\<lambda>u. if \<exists>i. spent led b i \<and> inputs b ! i = u then None else utxos led2 u)"
    "utxo_to_coroutine led' = (\<lambda>u. if \<exists>i. spent led b i \<and> inputs b ! i = u then None else utxo_to_coroutine led2 u)"
    "contract_counters led' = contract_counters led2" by (rule apply_body_effect)
  have "dom (utxo_to_coroutine led') = dom (utxos led')"
    using wf_coroutine [OF w] by (auto simp: e dom_def)
  with w show ?thesis
    by (auto simp: wf_ledger_def e ctr_cong [OF e(3)] split: if_splits)
qed

text \<open>Ids that were allocated and are gone.\<close>

definition retired :: "Ledger \<Rightarrow> UtxoId \<Rightarrow> bool" where
  "retired led u \<longleftrightarrow> utxos led u = None \<and> uid_nonce u < ctr led (uid_contract_hash u)"

lemma apply_body_retired:
  assumes "body_ok led b" "apply_body led b = Ok led'" "retired led u"
  shows "retired led' u"
proof -
  from assms(1,2) obtain led2 where w: "wf_ledger led2" "ext led led2" and e:
    "utxos led' = (\<lambda>u. if \<exists>i. spent led b i \<and> inputs b ! i = u then None else utxos led2 u)"
    "contract_counters led' = contract_counters led2" by (rule apply_body_effect)
  from assms(3) w(2) have "utxos led2 u = None" by (auto simp: retired_def ext_def leD)
  moreover from assms(3) w(2) have "uid_nonce u < ctr led2 (uid_contract_hash u)"
    by (auto simp: retired_def ext_def intro: less_le_trans)
  ultimately show ?thesis by (simp add: retired_def e ctr_cong [OF e(2)])
qed

lemma apply_body_spent:
  assumes "body_ok led b" "apply_body led b = Ok led'" "spent led b i"
  shows "retired led' (inputs b ! i)"
proof -
  from assms(1,2) obtain led2 where w: "wf_ledger led2" "ext led led2" and e:
    "utxos led' = (\<lambda>u. if \<exists>i. spent led b i \<and> inputs b ! i = u then None else utxos led2 u)"
    "contract_counters led' = contract_counters led2" by (rule apply_body_effect)
  from assms(1,3) have "utxos led (inputs b ! i) \<noteq> None" "wf_ledger led"
    by (simp_all add: body_ok_def spent_def)
  then obtain en where "utxos led (inputs b ! i) = Some en" "wf_ledger led" by auto
  then have "uid_nonce (inputs b ! i) < ctr led (uid_contract_hash (inputs b ! i))" using wf_nonce by blast
  also have "\<dots> \<le> ctr led2 (uid_contract_hash (inputs b ! i))" using w(2) by (simp add: ext_def)
  finally have "uid_nonce (inputs b ! i) < ctr led2 (uid_contract_hash (inputs b ! i))" .
  with assms(3) show ?thesis by (auto simp: retired_def e ctr_cong [OF e(2)])
qed

section \<open>What each item of the transaction becomes\<close>

text \<open>A continuation that changes the state becomes a fresh utxo of the same program with the input's
  stable identity; a new output becomes a fresh utxo; both survive the removal of the inputs.\<close>

lemma ext_keeps_fresh:
  assumes "wf_ledger led" and "ext led led1" "ext led1 led2" and "wf_ledger led1"
    and "led1' = with_fresh led1 h cid st" "ext led1' led2"
  shows "\<exists>u. utxos led u = None \<and> utxos led2 u = Some \<lparr>entry_state = st, entry_contract_hash = h\<rparr>
    \<and> utxo_to_coroutine led2 u = Some cid \<and> uid_contract_hash u = h"
proof -
  let ?u = "\<lparr>uid_contract_hash = h, uid_nonce = ctr led1 h\<rparr>"
  have "utxos led ?u = None"
    using fresh_id(1) [OF assms(4), of h] ext_utxo [OF assms(2)] by (cases "utxos led ?u") auto
  with assms(5,6) with_fresh_entry [of led1 h cid st] ext_utxo ext_coroutine show ?thesis
    by (intro exI [of _ ?u]) auto
qed

lemma apply_body_continues:
  assumes ok: "body_ok led b" and ap: "apply_body led b = Ok led'"
    and i: "i < length (inputs b)" "continuations b ! i = Some cont" "utxos led (inputs b ! i) = Some e"
    and ne: "cont \<noteq> entry_state e"
  shows "\<exists>u. utxos led u = None
    \<and> utxos led' u = Some \<lparr>entry_state = cont, entry_contract_hash = entry_contract_hash e\<rparr>
    \<and> utxo_to_coroutine led' u = utxo_to_coroutine led (inputs b ! i)"
proof -
  let ?ptc = "input_ids led b"
  from apply_body_phases [OF ok ap] obtain led1 led2 led3 refs where
    c: "fold_out (continue_input led (inputs b) ?ptc) (enumerate 0 (continuations b)) (led, {}) = Ok (led1, refs)"
    and rm: "fold_out (remove_input refs) (enumerate 0 (inputs b)) led3 = Ok led'"
    and g: "wf_ledger led1" "ext led led1" "wf_ledger led2" "ext led1 led2" "same_utxos led2 led3"
    by blast
  have w: "wf_ledger led" and len: "length (continuations b) = length (inputs b)"
    using ok by (auto simp: body_ok_def)
  have oks: "\<forall>x \<in> set (enumerate 0 (continuations b)). continue_ok led (inputs b) ?ptc x"
    by (rule body_ok_continuations [OF ok])
  have split: "enumerate 0 (continuations b) = enumerate 0 (take i (continuations b))
      @ (i, continuations b ! i) # enumerate (Suc i) (drop (Suc i) (continuations b))"
    using enumerate_split [of i "continuations b" 0] i(1) len by simp
  from continue_loop.loop_visits [of led "inputs b" ?ptc, OF c [unfolded split] oks [unfolded split]] w ext_refl
  obtain t t' where t: "wf_ledger (fst t)" "ext led (fst t)" "ext led (fst t')"
    "continue_input led (inputs b) ?ptc (i, Some cont) t = Ok t'" "ext (fst t') led1"
    by (auto simp: i(2))
  from oks split have "continue_ok led (inputs b) ?ptc (i, Some cont)" by (simp add: i(2))
  from continue_input_cases [OF this t(2), of "snd t" "fst t'" "snd t'"] t(4) i(3) ne
  obtain cid where cid: "utxo_to_coroutine led (inputs b ! i) = Some cid"
    "fst t' = with_fresh (fst t) (entry_contract_hash e) cid cont" by auto
  from cid(2) with_fresh_wf(2) [OF t(1)] oks split have "ext (fst t) (fst t')"
    by (auto simp: continue_ok_def i(2))
  then have "ext (fst t) led2" "ext (fst t') led2" using t(5) g(4) ext_trans by blast+
  from ext_keeps_fresh [OF w t(2) this(1) t(1) cid(2) this(2)] obtain u where
    u: "utxos led u = None" "utxos led2 u = Some \<lparr>entry_state = cont, entry_contract_hash = entry_contract_hash e\<rparr>"
    "utxo_to_coroutine led2 u = Some cid" by blast
  have "u \<notin> set (inputs b)" using ok u(1) by (auto simp: body_ok_def)
  then have "\<nexists>j. (j, u) \<in> set (enumerate 0 (inputs b))" by (auto simp: in_set_enumerate_eq)
  with remove_inputs [OF rm] g(5) u cid(1) show ?thesis
    by (intro exI [of _ u]) (auto simp: same_utxos_def)
qed

lemma apply_body_creates:
  assumes ok: "body_ok led b" and ap: "apply_body led b = Ok led'" and j: "j < length (new_outputs b)"
  shows "\<exists>u. utxos led u = None
    \<and> utxos led' u = Some \<lparr>entry_state = out_state (new_outputs b ! j),
                           entry_contract_hash = out_contract_hash (new_outputs b ! j)\<rparr>
    \<and> utxo_to_coroutine led' u = Some \<lparr>creation_tx_hash = TransactionBody_hash b, creation_output_index = j\<rparr>"
proof -
  let ?ptc = "input_ids led b"
  from apply_body_phases [OF ok ap] obtain led1 led2 led3 refs where
    c: "fold_out (create_output (TransactionBody_hash b) (length (inputs b))) (enumerate 0 (new_outputs b))
          (led1, ?ptc) = Ok (led2, stable_ids led b)"
    and rm: "fold_out (remove_input refs) (enumerate 0 (inputs b)) led3 = Ok led'"
    and g: "wf_ledger led1" "ext led led1" "same_utxos led2 led3" by blast
  have w: "wf_ledger led" using ok by (auto simp: body_ok_def)
  have outs: "\<forall>x \<in> set (enumerate 0 (new_outputs b)). output_ok x"
    by (rule body_ok_outputs [OF ok])
  have split: "enumerate 0 (new_outputs b) = enumerate 0 (take j (new_outputs b))
      @ (j, new_outputs b ! j) # enumerate (Suc j) (drop (Suc j) (new_outputs b))"
    using enumerate_split [of j "new_outputs b" 0] j by simp
  from create_loop.loop_visits [OF c [unfolded split] outs [unfolded split]] g(1)
  obtain t t' where t: "wf_ledger (fst t)" "ext led1 (fst t)" "ext (fst t') led2"
    "create_output (TransactionBody_hash b) (length (inputs b)) (j, new_outputs b ! j) t = Ok t'"
    by auto
  then have t': "fst t' = with_fresh (fst t) (out_contract_hash (new_outputs b ! j))
      \<lparr>creation_tx_hash = TransactionBody_hash b, creation_output_index = j\<rparr> (out_state (new_outputs b ! j))"
    by (cases t; cases t') (simp add: create_output_Ok)
  have "ext (fst t) (fst t')"
    using create_output_grows [OF _ t(1,4)] outs split by simp
  then have "ext (fst t) led2" using t(3) ext_trans by blast
  from ext_keeps_fresh [OF w ext_trans [OF g(2) t(2)] this t(1) t' t(3)] obtain u where
    u: "utxos led u = None" "utxos led2 u = Some \<lparr>entry_state = out_state (new_outputs b ! j),
        entry_contract_hash = out_contract_hash (new_outputs b ! j)\<rparr>"
    "utxo_to_coroutine led2 u = Some \<lparr>creation_tx_hash = TransactionBody_hash b, creation_output_index = j\<rparr>" by blast
  have "u \<notin> set (inputs b)" using ok u(1) by (auto simp: body_ok_def)
  then have "\<nexists>j. (j, u) \<in> set (enumerate 0 (inputs b))" by (auto simp: in_set_enumerate_eq)
  with remove_inputs [OF rm] g(3) u show ?thesis
    by (intro exI [of _ u]) (auto simp: same_utxos_def)
qed

text \<open>Utxos that are not inputs are untouched, and so are inputs continued with their own state (unless
  the same id is also listed as a spent input).\<close>

lemma apply_body_frame:
  assumes ok: "body_ok led b" and ap: "apply_body led b = Ok led'"
    and "utxos led u \<noteq> None" "\<nexists>i. spent led b i \<and> inputs b ! i = u"
  shows "utxos led' u = utxos led u \<and> utxo_to_coroutine led' u = utxo_to_coroutine led u"
proof -
  from ok ap obtain led2 where w: "ext led led2" and e:
    "utxos led' = (\<lambda>u. if \<exists>i. spent led b i \<and> inputs b ! i = u then None else utxos led2 u)"
    "utxo_to_coroutine led' = (\<lambda>u. if \<exists>i. spent led b i \<and> inputs b ! i = u then None else utxo_to_coroutine led2 u)"
    by (rule apply_body_effect)
  from assms(3) wf_coroutine ok obtain en cid where
    "utxos led u = Some en" "utxo_to_coroutine led u = Some cid" by (fastforce simp: body_ok_def)
  with ext_utxo [OF w] ext_coroutine [OF w] assms(4) show ?thesis by (simp add: e)
qed

lemma apply_body_fresh:
  assumes ok: "body_ok led b" and ap: "apply_body led b = Ok led'"
    and "utxos led' u \<noteq> None" "utxos led u = None"
  shows "ctr led (uid_contract_hash u) \<le> uid_nonce u"
proof -
  from ok ap obtain led2 where w: "ext led led2" and e:
    "utxos led' = (\<lambda>u. if \<exists>i. spent led b i \<and> inputs b ! i = u then None else utxos led2 u)"
    by (rule apply_body_effect)
  with assms(3,4) show ?thesis by (auto simp: ext_def e split: if_splits)
qed

text \<open>Two spent inputs are different utxos.\<close>

lemma apply_body_distinct:
  assumes ok: "body_ok led b" and ap: "apply_body led b = Ok led'"
    and "spent led b i" "spent led b j" "inputs b ! i = inputs b ! j"
  shows "i = j"
proof -
  from apply_body_phases [OF ok ap] obtain led3 refs where
    rm: "fold_out (remove_input refs) (enumerate 0 (inputs b)) led3 = Ok led'"
    and r: "\<forall>i < length (inputs b). i \<in> refs \<longleftrightarrow> \<not> spent led b i" by blast
  let ?xs = "filter (\<lambda>x. fst x \<notin> refs) (enumerate 0 (inputs b))"
  from rm remove_inputs_Ok_iff [of refs "enumerate 0 (inputs b)" led3] have "distinct (map snd ?xs)" by blast
  then have "inj_on snd (set ?xs)" by (simp add: distinct_map)
  moreover have "(i, inputs b ! i) \<in> set ?xs" "(j, inputs b ! j) \<in> set ?xs"
    using assms(3,4) r by (auto simp: spent_def in_set_enumerate_eq)
  ultimately show ?thesis
    using inj_onD [of snd "set ?xs" "(i, inputs b ! i)" "(j, inputs b ! j)"] assms(5) by simp
qed

end
