(* ===== verification/Ledger_Verify.thy ===== *)
theory Ledger_Verify
  imports Ledger_Invariants
begin

text \<open>
  What a successful \<^verbatim>\<open>verify_witness\<close> establishes: the shapes of the transaction and of its witness, and,
  through the interleaving verifier, that every owner named by the transaction is one of its utxos.
  From this follows that applying a verified transaction does not panic.
\<close>

section \<open>The artifacts\<close>

lemma check_input_Ok:
  "check_input led b (i, u, p) = Ok x \<longleftrightarrow> i < length (continuations b)
     \<and> (\<exists>e. utxos led u = Some e \<and> validate_token_state (entry_state e) = Ok ()
          \<and> (\<forall>cont. continuations b ! i = Some cont \<longrightarrow> validate_token_state cont = Ok ()
                \<and> is_token_state (entry_state e) = is_token_state cont))"
  by (auto simp: check_input_def ZkWasmProof_verify_def outcome_simps split: option.splits)

lemma check_new_output_Ok:
  "check_new_output (p, out) = Ok x \<longleftrightarrow> validate_token_state (out_state out) = Ok ()"
  by (auto simp: check_new_output_def ZkWasmProof_verify_def outcome_simps)

lemma artifacts_Ok:
  assumes "interleaving_artifacts led b w = Ok (inst, wit)"
  shows "length (spending_proofs w) = length (inputs b)" "length (continuations b) = length (inputs b)"
    "\<forall>i < length (inputs b). \<exists>e. utxos led (inputs b ! i) = Some e
        \<and> (\<forall>cont. continuations b ! i = Some cont \<longrightarrow> validate_token_state cont = Ok ()
              \<and> is_token_state (entry_state e) = is_token_state cont)"
    "\<forall>j < min (length (new_output_proofs w)) (length (new_outputs b)).
        validate_token_state (out_state (new_outputs b ! j)) = Ok ()"
    "\<exists>entries wasm. input_entries led (inputs b) = Ok entries
        \<and> length entries = length (inputs b) \<and> inst = build_instance led b w entries wasm"
    "wit = build_witness w"
proof -
  from assms show l: "length (spending_proofs w) = length (inputs b)" "length (continuations b) = length (inputs b)"
    by (simp_all add: interleaving_artifacts_def split: if_splits)
  from assms l obtain entries wasm where
    ci: "\<forall>x \<in> set (enumerate 0 (zip (inputs b) (spending_proofs w))). check_input led b x = Ok ()" and
    co: "\<forall>x \<in> set (zip (new_output_proofs w) (new_outputs b)). check_new_output x = Ok ()" and
    en: "input_entries led (inputs b) = Ok entries" and
    io: "inst = build_instance led b w entries wasm" "wit = build_witness w"
    by (auto simp: interleaving_artifacts_def outcome_simps each_Ok)
  from en have "length entries = length (inputs b)"
    by (auto simp: input_entries_def map_out_Ok list_all2_lengthD)
  with en io show "\<exists>entries wasm. input_entries led (inputs b) = Ok entries
        \<and> length entries = length (inputs b) \<and> inst = build_instance led b w entries wasm"
    "wit = build_witness w" by blast+
  show "\<forall>i < length (inputs b). \<exists>e. utxos led (inputs b ! i) = Some e
        \<and> (\<forall>cont. continuations b ! i = Some cont \<longrightarrow> validate_token_state cont = Ok ()
              \<and> is_token_state (entry_state e) = is_token_state cont)"
  proof (intro allI impI)
    fix i assume i: "i < length (inputs b)"
    with l(1) have "(i, inputs b ! i, spending_proofs w ! i) \<in> set (enumerate 0 (zip (inputs b) (spending_proofs w)))"
      by (simp add: in_set_enumerate_eq)
    with ci check_input_Ok show "\<exists>e. utxos led (inputs b ! i) = Some e
        \<and> (\<forall>cont. continuations b ! i = Some cont \<longrightarrow> validate_token_state cont = Ok ()
              \<and> is_token_state (entry_state e) = is_token_state cont)" by blast
  qed
  show "\<forall>j < min (length (new_output_proofs w)) (length (new_outputs b)).
        validate_token_state (out_state (new_outputs b ! j)) = Ok ()"
  proof (intro allI impI)
    fix j assume j: "j < min (length (new_output_proofs w)) (length (new_outputs b))"
    then have "(new_output_proofs w ! j, new_outputs b ! j) \<in> set (zip (new_output_proofs w) (new_outputs b))"
      by (force simp: set_zip)
    with co check_new_output_Ok show "validate_token_state (out_state (new_outputs b ! j)) = Ok ()" by blast
  qed
qed

text \<open>What the verification of the whole witness adds.\<close>

lemma verify_witness_Ok:
  assumes "verify_witness lib led b w = Ok ()"
  obtains inst wit where "interleaving_artifacts led b w = Ok (inst, wit)"
    "verify_live_tokens_bound_in_instance inst = Ok ()"
    "verify_interleaving_semantics inst wit = Ok ()"
  using assms that
  by (auto simp: verify_witness_def ZkTransactionProof_verify_def outcome_simps)

lemma verified_body:
  assumes "wf_ledger led" and "verify_witness lib led b w = Ok ()"
  shows "body_ok led b" and "length (new_output_proofs w) = length (new_outputs b)"
proof -
  from assms(2) obtain inst wit where a: "interleaving_artifacts led b w = Ok (inst, wit)"
    and v: "verify_interleaving_semantics inst wit = Ok ()" by (rule verify_witness_Ok)
  note f = artifacts_Ok [OF a]
  from v have "check_shape inst = Ok ()" by (simp add: verify_Ok)
  from check_shape_Ok(4) [OF this] f(1,5) show n: "length (new_output_proofs w) = length (new_outputs b)"
    by (auto simp: build_instance_def Let_def)
  have "validate_token_state (out_state out) = Ok ()" if "out \<in> set (new_outputs b)" for out
    using f(4) n that by (auto simp: in_set_conv_nth)
  moreover have "validate_token_state cont = Ok ()" if "Some cont \<in> set (continuations b)" for cont
    using f(2,3) that by (auto simp: in_set_conv_nth)
  moreover have "utxos led u \<noteq> None" if "u \<in> set (inputs b)" for u
    using f(3) that by (auto simp: in_set_conv_nth)
  ultimately show "body_ok led b" using assms(1) f(2) by (auto simp: body_ok_def)
qed

section \<open>Owners are utxos of the transaction\<close>

lemma coroutine_to_pid_bound:
  "coroutine_to_pid led xs m cid = Some p \<Longrightarrow> (\<And>c q. m c = Some q \<Longrightarrow> q < n) \<Longrightarrow>
     \<forall>x \<in> set xs. fst x < n \<Longrightarrow> p < n"
proof (induction led xs m rule: coroutine_to_pid.induct)
  case (1 led m)
  then show ?case by simp
next
  case (2 led pid u us m)
  show ?case
    by (rule "2.IH") (use "2.prems" in \<open>auto split: option.splits if_splits\<close>)
qed

text \<open>The map finds a position with the given stable identity, whenever there is one.\<close>

lemma coroutine_to_pid_sound:
  "coroutine_to_pid led xs m cid = Some p \<Longrightarrow>
     m cid = Some p \<or> (\<exists>u. (p, u) \<in> set xs \<and> utxo_to_coroutine led u = Some cid)"
proof (induction led xs m rule: coroutine_to_pid.induct)
  case (2 led pid u us m)
  from "2.prems" have "coroutine_to_pid led us
      (case utxo_to_coroutine led u of None \<Rightarrow> m | Some cid \<Rightarrow> m(cid \<mapsto> pid)) cid = Some p" by simp
  from "2.IH" [OF this] show ?case by (auto split: option.splits if_splits)
qed simp

lemma coroutine_to_pid_complete:
  "m cid \<noteq> None \<or> (\<exists>p u. (p, u) \<in> set xs \<and> utxo_to_coroutine led u = Some cid) \<Longrightarrow>
     coroutine_to_pid led xs m cid \<noteq> None"
proof (induction led xs m rule: coroutine_to_pid.induct)
  case (2 led pid u us m)
  show ?case
    unfolding coroutine_to_pid.simps
    by (rule "2.IH") (use "2.prems" in \<open>auto split: option.splits\<close>)
qed auto

lemma coroutine_to_pid_iff:
  assumes "inj_on (utxo_to_coroutine led) (set us)" "distinct us"
  shows "coroutine_to_pid led (enumerate 0 us) Map.empty cid = Some q \<longleftrightarrow>
    q < length us \<and> utxo_to_coroutine led (us ! q) = Some cid"
proof
  assume "coroutine_to_pid led (enumerate 0 us) Map.empty cid = Some q"
  from coroutine_to_pid_sound [OF this] show "q < length us \<and> utxo_to_coroutine led (us ! q) = Some cid"
    by (auto simp: in_set_enumerate_eq)
next
  assume q: "q < length us \<and> utxo_to_coroutine led (us ! q) = Some cid"
  then have "(q, us ! q) \<in> set (enumerate 0 us)" by (simp add: in_set_enumerate_eq)
  with q coroutine_to_pid_complete [of Map.empty cid "enumerate 0 us" led]
  obtain q' where q': "coroutine_to_pid led (enumerate 0 us) Map.empty cid = Some q'" by auto
  from coroutine_to_pid_sound [OF this] have "q' < length us" "utxo_to_coroutine led (us ! q') = Some cid"
    by (auto simp: in_set_enumerate_eq)
  with q inj_onD [OF assms(1), of "us ! q'" "us ! q"] have "us ! q' = us ! q" by simp
  with q \<open>q' < length us\<close> assms(2) q' show "coroutine_to_pid led (enumerate 0 us) Map.empty cid = Some q"
    by (simp add: nth_eq_iff_index_eq)
qed

lemma input_ownership_bound:
  assumes "t < length us" "input_ownership_for_inputs led us ! t = Some q"
  shows "q < length us"
  using assms
  by (auto simp: input_ownership_for_inputs_def Let_def in_set_enumerate_eq split: option.splits
      elim!: coroutine_to_pid_bound)

lemma artifacts_ownership_inv:
  assumes a: "interleaving_artifacts led b w = Ok (inst, wit)"
    and s: "initial_state inst (n_processes inst) = Ok s0"
  shows "ownership_inv (make_rom inst wit) s0"
proof -
  from artifacts_Ok(5) [OF a] obtain entries wasm where
    en: "length entries = length (inputs b)" "inst = build_instance led b w entries wasm" by blast
  have own: "ownership_in inst = input_ownership_for_inputs led (inputs b) @ replicate (length (new_outputs b)) None"
    and n: "n_inputs inst = length (inputs b)"
    "n_processes inst = length (inputs b) + length (new_outputs b) + length (coordination_scripts_keys b)"
    and u: "is_utxo inst = map (\<lambda>pid. pid < length (inputs b) + length (new_outputs b)) [0..<n_processes inst]"
    by (simp_all add: en(2) build_instance_def Let_def n_processes_def)
  have len: "length (input_ownership_for_inputs led (inputs b)) = length (inputs b)"
    by (simp add: input_ownership_for_inputs_def Let_def)
  from initial_state_Ok [OF s refl, of "make_rom inst wit"]
  have own0: "ownership s0 = ownership_in inst"
    and ini: "initialized s0 = (map (\<lambda>pid. pid < n_inputs inst) [0..<n_processes inst])[entrypoint inst := True]"
    by simp_all
  have live: "p < length (rom_is_utxo (make_rom inst wit)) \<and> rom_is_utxo (make_rom inst wit) ! p
      \<and> p < length (initialized s0) \<and> initialized s0 ! p" if "p < length (inputs b)" for p
    using that by (cases "p = entrypoint inst") (simp_all add: make_rom_def u n ini)
  have "t < length (inputs b) \<and> q < length (inputs b)"
    if "t < length (ownership s0)" "ownership s0 ! t = Some q" for t q
  proof -
    from that have "t < length (inputs b)"
      by (auto simp: own0 own nth_append len split: if_splits)
    with that input_ownership_bound [of t "inputs b" led q] show ?thesis
      by (auto simp: own0 own nth_append len)
  qed
  with live show ?thesis unfolding ownership_inv_def by blast
qed

lemma verified_owner:
  assumes "verify_witness lib led b w = Ok ()"
    and "body_ownership_out b t = Some q" "t < length (inputs b) + length (new_outputs b)"
  shows "q < length (inputs b) + length (new_outputs b)"
proof -
  let ?m = "length (inputs b) + length (new_outputs b)"
  from assms(1) obtain inst wit where a: "interleaving_artifacts led b w = Ok (inst, wit)"
    and v: "verify_interleaving_semantics inst wit = Ok ()" by (rule verify_witness_Ok)
  from v have sh: "check_shape inst = Ok ()" by (simp add: verify_Ok)
  from v obtain s0 s idx where r: "initial_state inst (n_processes inst) = Ok s0"
    "run (make_rom inst wit) s0 (replicate (n_processes inst) 0) = Ok (s, idx)"
    and f: "final_conditions inst (make_rom inst wit) (n_processes inst) s = Ok ()"
    by (auto simp: verify_Ok)
  from artifacts_Ok(1,5) [OF a] obtain entries wasm where
    en: "inst = build_instance led b w entries wasm" "length (spending_proofs w) = length (inputs b)" by blast
  from check_shape_Ok(4) [OF sh] en have m: "n_inputs inst + n_new inst = ?m"
    "length (ownership_out inst) = ?m" "ownership_out inst ! t = body_ownership_out b t"
    using assms(3) by (simp_all add: build_instance_def Let_def)
  have "ownership_inv (make_rom inst wit) s"
    using ownership.run_inv [OF r(2)] artifacts_ownership_inv [OF a r(1)] by blast
  moreover have "ownership s ! t = Some q" "t < length (ownership s)"
    using f assms(2,3) m by (auto simp: final_conditions_Ok check_ownership_def each_Ok outcome_simps
        split: if_splits)
  ultimately have "q < length (is_utxo inst)" "is_utxo inst ! q"
    by (auto simp: ownership_inv_def make_rom_def)
  then show ?thesis by (simp add: en(1) build_instance_def Let_def)
qed

section \<open>A verified transaction applies\<close>

text \<open>Every counter has room for the ids the transaction may allocate.\<close>

definition counters_fit :: "Ledger \<Rightarrow> TransactionBody \<Rightarrow> bool" where
  "counters_fit led b \<longleftrightarrow>
     (\<forall>h. ctr led h + length (continuations b) + length (new_outputs b) < USIZE_LIMIT)"

lemma continue_input_no_panic:
  assumes "continue_ok led0 ins ptc (i, c)" and "Suc (ctr led h) < USIZE_LIMIT"
    and "\<And>h. Suc (ctr led h) < USIZE_LIMIT"
  shows "continue_input led0 ins ptc (i, c) (led, refs) \<noteq> Panic"
proof (cases c)
  case None
  then show ?thesis by (simp add: continue_input_def)
next
  case (Some cont)
  from assms(1) wf_coroutine obtain e cid where "utxos led0 (ins ! i) = Some e"
    "utxo_to_coroutine led0 (ins ! i) = Some cid" by (fastforce simp: continue_ok_def)
  with assms Some show ?thesis
    by (auto simp: continue_input_def continue_ok_def outcome_simps Let_def alloc_utxo_id_Panic split: if_splits)
qed

lemma ctr_step:
  "continue_ok led0 ins ptc (i, c) \<Longrightarrow> ext led0 led \<Longrightarrow>
     continue_input led0 ins ptc (i, c) (led, refs) = Ok (led', refs') \<Longrightarrow> ctr led' h \<le> Suc (ctr led h)"
  by (drule (2) continue_input_cases) (auto simp: ctr_with_fresh split: if_splits)

lemma continue_all_no_panic:
  assumes "\<forall>x \<in> set xs. continue_ok led0 ins ptc x" "wf_ledger (fst s)" "ext led0 (fst s)"
    and "\<forall>h. ctr (fst s) h + length xs < USIZE_LIMIT"
  shows "fold_out (continue_input led0 ins ptc) xs s \<noteq> Panic"
proof (rule fold_out_no_panic [where I = "\<lambda>xs s. (\<forall>x \<in> set xs. continue_ok led0 ins ptc x)
    \<and> wf_ledger (fst s) \<and> ext led0 (fst s) \<and> (\<forall>h. ctr (fst s) h + length xs < USIZE_LIMIT)"])
  show "continue_input led0 ins ptc x s \<noteq> Panic"
    if "(\<forall>y \<in> set (x # xs). continue_ok led0 ins ptc y)
      \<and> wf_ledger (fst s) \<and> ext led0 (fst s) \<and> (\<forall>h. ctr (fst s) h + length (x # xs) < USIZE_LIMIT)" for x xs s
  proof -
    from that have "Suc (ctr (fst s) h) < USIZE_LIMIT" for h
      by (metis add_Suc_right add_leD1 length_Cons less_eq_Suc_le not_less_eq_eq add_Suc_shift)
    with continue_input_no_panic [of led0 ins ptc "fst x" "snd x" "fst s" _ "snd s"] that show ?thesis by simp
  qed
  show "(\<forall>y \<in> set xs. continue_ok led0 ins ptc y)
      \<and> wf_ledger (fst s') \<and> ext led0 (fst s') \<and> (\<forall>h. ctr (fst s') h + length xs < USIZE_LIMIT)"
    if "(\<forall>y \<in> set (x # xs). continue_ok led0 ins ptc y)
      \<and> wf_ledger (fst s) \<and> ext led0 (fst s) \<and> (\<forall>h. ctr (fst s) h + length (x # xs) < USIZE_LIMIT)"
      "continue_input led0 ins ptc x s = Ok s'" for x xs s s'
  proof -
    have "ctr (fst s') h \<le> Suc (ctr (fst s) h)" for h
      using ctr_step [of led0 ins ptc "fst x" "snd x" "fst s" "snd s" "fst s'" "snd s'"] that by simp
    then have "ctr (fst s') h + length xs < USIZE_LIMIT" for h
      using that(1) by (metis add_Suc_right add_Suc_shift add_le_mono1 le_less_trans length_Cons)
    with continue_input_grows [of led0 ins ptc x s s'] that show ?thesis by simp
  qed
qed (use assms in simp)

lemma create_all_no_panic:
  assumes "\<forall>h. ctr (fst s) h + length xs < USIZE_LIMIT" "\<forall>x \<in> set xs. ni + fst x < length (snd s)"
  shows "fold_out (create_output th ni) xs s \<noteq> Panic"
proof (rule fold_out_no_panic [where I = "\<lambda>xs s. (\<forall>h. ctr (fst s) h + length xs < USIZE_LIMIT)
    \<and> (\<forall>x \<in> set xs. ni + fst x < length (snd s))"])
  show "create_output th ni x s \<noteq> Panic"
    if "(\<forall>h. ctr (fst s) h + length (x # xs) < USIZE_LIMIT) \<and> (\<forall>y \<in> set (x # xs). ni + fst y < length (snd s))"
    for x xs s
  proof -
    obtain j out where x: "x = (j, out)" by (cases x)
    obtain led ptc where s: "s = (led, ptc)" by (cases s)
    from that have "Suc (ctr led (out_contract_hash out)) < USIZE_LIMIT"
      by (metis add_Suc_right add_leD1 fst_conv length_Cons less_eq_Suc_le not_less_eq_eq add_Suc_shift s)
    with that show ?thesis
      by (auto simp: x s create_output_def alloc_utxo_id_Panic outcome_simps Let_def)
  qed
  show "(\<forall>h. ctr (fst s') h + length xs < USIZE_LIMIT) \<and> (\<forall>y \<in> set xs. ni + fst y < length (snd s'))"
    if "(\<forall>h. ctr (fst s) h + length (x # xs) < USIZE_LIMIT) \<and> (\<forall>y \<in> set (x # xs). ni + fst y < length (snd s))"
      "create_output th ni x s = Ok s'" for x xs s s'
  proof -
    from that(2) have "length (snd s') = length (snd s)" "ctr (fst s') h \<le> Suc (ctr (fst s) h)" for h
      by (cases x; cases s; cases s'; simp add: create_output_Ok ctr_with_fresh)+
    moreover have "ctr (fst s') h + length xs < USIZE_LIMIT" for h
      using that(1) calculation(2) [of h]
      by (metis add_Suc_right add_Suc_shift add_le_mono1 le_less_trans length_Cons)
    ultimately show ?thesis using that(1) by simp
  qed
qed (use assms in simp)

text \<open>The loops do not report errors, apart from the last.\<close>

lemma loop_errors:
  "continue_input led0 ins ptc x s \<noteq> Err e" "create_output th ni y s2 \<noteq> Err e" "update_owner own ptc t led \<noteq> Err e"
  by (auto simp: continue_input_def create_output_def update_owner_def alloc_utxo_id_def outcome_simps Let_def
      split: option.splits prod.splits if_splits)

lemma remove_inputs_Err: "fold_out (remove_input refs) xs led = Err e \<Longrightarrow> e = InputNotFound"
  by (auto dest!: fold_out_Err simp: remove_input_simp split: if_splits)

lemma update_owners_no_panic:
  assumes "\<forall>t \<in> set ts. t < length ptc" "\<forall>t < length ptc. ptc ! t \<noteq> None"
    and "\<forall>t \<in> set ts. \<forall>q. own t = Some q \<longrightarrow> q < length ptc"
  shows "fold_out (update_owner own ptc) ts led \<noteq> Panic"
proof (rule fold_out_no_panic [where I = "\<lambda>ts led. (\<forall>t \<in> set ts. t < length ptc)
    \<and> (\<forall>t \<in> set ts. \<forall>q. own t = Some q \<longrightarrow> q < length ptc)"])
  show "update_owner own ptc t led \<noteq> Panic"
    if "(\<forall>t \<in> set (t # ts). t < length ptc) \<and> (\<forall>t \<in> set (t # ts). \<forall>q. own t = Some q \<longrightarrow> q < length ptc)" for t ts led
    using that assms(2) by (cases "own t") (auto simp: update_owner_def outcome_simps)
qed (use assms in simp_all)

lemma continue_ctr:
  assumes "fold_out (continue_input led0 ins ptc) xs s = Ok s'"
    and "\<forall>x \<in> set xs. continue_ok led0 ins ptc x" "wf_ledger (fst s)" "ext led0 (fst s)"
  shows "ctr (fst s') h \<le> ctr (fst s) h + length xs"
  using assms
proof (induction xs arbitrary: s)
  case (Cons x xs)
  then obtain t where t: "continue_input led0 ins ptc x s = Ok t"
    "fold_out (continue_input led0 ins ptc) xs t = Ok s'" by (auto simp: outcome_simps)
  from Cons.prems continue_input_grows [OF _ _ _ t(1)] have "ctr (fst s') h \<le> ctr (fst t) h + length xs"
    by (intro Cons.IH [OF t(2)]) auto
  moreover have "ctr (fst t) h \<le> Suc (ctr (fst s) h)"
    using ctr_step [of led0 ins ptc "fst x" "snd x" "fst s" "snd s" "fst t" "snd t" h] Cons.prems t(1) by simp
  ultimately show ?case by simp
qed simp

lemma input_coroutines_found:
  assumes "body_ok led b"
  shows "\<exists>cids. input_coroutines led (inputs b) = Ok cids"
  using assms wf_coroutine [of led] unfolding input_coroutines_def
  by (intro outcome_Ok_if) (auto simp: outcome_simps body_ok_def dest!: map_out_Panic map_out_Err)

text \<open>The first three loops of a verified transaction succeed, so only the removal can fail.\<close>

lemma verified_loops:
  assumes w: "wf_ledger led" and v: "verify_witness lib led b wit = Ok ()" and fit: "counters_fit led b"
  shows "\<exists>led3 refs. apply_body led b = fold_out (remove_input refs) (enumerate 0 (inputs b)) led3
    \<and> (\<forall>i < length (inputs b). i \<in> refs \<longleftrightarrow> \<not> spent led b i)
    \<and> (\<forall>u. utxos led u \<noteq> None \<longrightarrow> utxos led3 u \<noteq> None)"
proof -
  let ?ni = "length (inputs b)" and ?nn = "length (new_outputs b)"
  let ?ptc = "input_ids led b"
  have ok: "body_ok led b" by (rule verified_body [OF w v])
  then have len: "length (continuations b) = ?ni" by (simp add: body_ok_def)
  note oks = body_ok_continuations [OF ok] and outs = body_ok_outputs [OF ok]
  obtain cids where cids: "input_coroutines led (inputs b) = Ok cids" using input_coroutines_found [OF ok] by blast
  then have ptc: "map Some cids @ replicate ?nn None = ?ptc" by (simp add: input_coroutines_ids input_ids_def)
  have fitc: "ctr led h + length (continuations b) < USIZE_LIMIT" for h
    using fit unfolding counters_fit_def by (blast dest: add_lessD1)
  have "\<exists>r. fold_out (continue_input led (inputs b) ?ptc) (enumerate 0 (continuations b)) (led, {}) = Ok r"
    using fitc w oks by (intro outcome_Ok_if continue_all_no_panic)
      (auto simp: ext_refl loop_errors dest!: fold_out_Err)
  then obtain led1 refs where c: "fold_out (continue_input led (inputs b) ?ptc) (enumerate 0 (continuations b)) (led, {}) = Ok (led1, refs)"
    by force
  from continue_loop.loop [OF c oks] w ext_refl have e1: "wf_ledger led1" "ext led led1" by auto
  have "ctr led1 h + ?nn < USIZE_LIMIT" for h
    using continue_ctr [OF c oks, of h] w ext_refl fit
    by (auto simp: counters_fit_def intro: le_less_trans [OF add_le_mono1])
  then have "\<exists>r. fold_out (create_output (TransactionBody_hash b) ?ni) (enumerate 0 (new_outputs b)) (led1, ?ptc) = Ok r"
    by (intro outcome_Ok_if create_all_no_panic)
      (auto simp: loop_errors in_set_enumerate_eq input_ids_def dest!: fold_out_Err)
  then obtain led2 ptc2 where cr: "fold_out (create_output (TransactionBody_hash b) ?ni) (enumerate 0 (new_outputs b)) (led1, ?ptc) = Ok (led2, ptc2)"
    by force
  from create_loop.loop [OF cr outs] e1 have e2: "ext led1 led2" by simp
  have p2: "ptc2 = stable_ids led b"
    using create_ptc [OF cr] by (intro nth_equalityI) (auto simp: stable_ids_def input_ids_def nth_append)
  have "\<forall>t < length ptc2. ptc2 ! t \<noteq> None"
    using ok wf_coroutine [OF w] by (auto simp: p2 stable_ids_def nth_append body_ok_def)
  then have "\<exists>r. fold_out (update_owner (body_ownership_out b) ptc2) [0..<?ni + ?nn] led2 = Ok r"
    using verified_owner [OF v] by (intro outcome_Ok_if update_owners_no_panic)
      (auto simp: loop_errors p2 stable_ids_def dest!: fold_out_Err)
  then obtain led3 where ow: "fold_out (update_owner (body_ownership_out b) ptc2) [0..<?ni + ?nn] led2 = Ok led3" by blast
  have "apply_body led b = fold_out (remove_input refs) (enumerate 0 (inputs b)) led3"
    using c cr ow by (simp add: apply_body_def Let_def cids ptc)
  moreover have "\<forall>i < ?ni. i \<in> refs \<longleftrightarrow> \<not> spent led b i"
    using continue_refs [OF c oks] w ext_refl len by (auto simp: spent_def in_set_enumerate_eq)
  moreover have "\<forall>u. utxos led u \<noteq> None \<longrightarrow> utxos led3 u \<noteq> None"
    using ext_utxo [OF e1(2)] ext_utxo [OF e2] owner_loop.loop [OF ow] by (fastforce simp: same_utxos_def)
  ultimately show ?thesis by blast
qed

text \<open>A verified transaction applies exactly when its spent inputs are different utxos.\<close>

lemma verified_applies:
  assumes w: "wf_ledger led" and v: "verify_witness lib led b wit = Ok ()" and fit: "counters_fit led b"
  shows "if \<forall>i j. spent led b i \<longrightarrow> spent led b j \<longrightarrow> inputs b ! i = inputs b ! j \<longrightarrow> i = j
    then \<exists>led'. apply_body led b = Ok led' else apply_body led b = Err InputNotFound"
proof -
  have ok: "body_ok led b" by (rule verified_body [OF w v])
  from verified_loops [OF assms] obtain led3 refs where
    body: "apply_body led b = fold_out (remove_input refs) (enumerate 0 (inputs b)) led3"
    and r: "\<forall>i < length (inputs b). i \<in> refs \<longleftrightarrow> \<not> spent led b i"
    and live: "\<forall>u. utxos led u \<noteq> None \<longrightarrow> utxos led3 u \<noteq> None" by blast
  show ?thesis
  proof (cases "\<forall>i j. spent led b i \<longrightarrow> spent led b j \<longrightarrow> inputs b ! i = inputs b ! j \<longrightarrow> i = j")
    case False
    with remove_inputs_no_panic [of refs "enumerate 0 (inputs b)" led3] remove_inputs_Err apply_body_distinct [OF ok]
    show ?thesis unfolding body
      by (cases "fold_out (remove_input refs) (enumerate 0 (inputs b)) led3") (auto simp: body)
  next
    case True
    then have "distinct (map snd (filter (\<lambda>x. fst x \<notin> refs) (enumerate 0 (inputs b))))"
      using r by (auto simp: distinct_map in_set_enumerate_eq intro!: inj_onI)
    moreover have "\<forall>u \<in> set (inputs b). utxos led3 u \<noteq> None" using live ok by (auto simp: body_ok_def)
    ultimately have "\<exists>led'. fold_out (remove_input refs) (enumerate 0 (inputs b)) led3 = Ok led'"
      unfolding remove_inputs_Ok_iff by (auto simp: in_set_enumerate_eq)
    with True show ?thesis by (simp add: body)
  qed
qed

end
