(* ===== verification/Interleaving_Claims.thy ===== *)
theory Interleaving_Claims
  imports Interleaving_Safety
begin

text \<open>
  What the interleaving machine guarantees across steps: a utxo that raised an effect is resumed only
  by the handler it was routed to and with the value its trace claims; the reference arena gives back
  what was pushed; handlers are installed and removed like a stack; ownership changes hands only by
  the token's \<^verbatim>\<open>Bind\<close> and its owner's \<^verbatim>\<open>Unbind\<close>; and what an accepted run ended in.
\<close>

section \<open>Effect calls are answered by their handler\<close>

text \<open>Process \<open>p\<close> is suspended, its trace claims that \<open>h\<close> resumes it with the reference \<open>r\<close>.\<close>

definition awaiting :: "ProcessId \<Rightarrow> ProcessId \<Rightarrow> Ref \<Rightarrow> InterleavingState \<Rightarrow> bool" where
  "awaiting p h r s \<longleftrightarrow>
     id_curr s \<noteq> p \<and> p < length (initialized s) \<and> initialized s ! p
     \<and> p < length (expected_input s) \<and> expected_input s ! p = Some r
     \<and> p < length (expected_resumer s) \<and> expected_resumer s ! p = Some h"

definition answers :: "ProcessId \<Rightarrow> ProcessId \<Rightarrow> Ref \<Rightarrow> event \<Rightarrow> bool" where
  "answers p h r e \<longleftrightarrow> fst e = h \<and> (\<exists>f ret k. snd e = Resume p f r ret k)"

lemma awaiting_resume:
  assumes "awaiting p h r s" and "op_resume rom s target f_id val ret caller = Ok s'"
  shows "awaiting p h r s' \<or> answers p h r (id_curr s, Resume target f_id val ret caller)"
proof (cases "target = p")
  case True
  with assms(1) op_resume_Ok [OF assms(2)] show ?thesis by (auto simp: awaiting_def answers_def)
next
  case False
  from op_resume_Ok [OF assms(2)] have "id_curr s' = target" "initialized s' = initialized s"
    "expected_input s' = (expected_input s)[target := None, id_curr s := to_option ret]"
    "expected_resumer s' = (expected_resumer s)
       [target := None, id_curr s := Option.bind (to_option caller) (\<lambda>o'. o')]"
    by simp_all
  with False assms(1) show ?thesis by (simp add: awaiting_def)
qed

lemma awaiting_creates: "awaiting p h r s \<Longrightarrow> creates rom s hs val pid s' \<Longrightarrow> awaiting p h r s'"
  by (auto simp: awaiting_def creates_def nth_list_update_if)

lemma awaiting_frame:
  assumes "awaiting p h r s" "initialized s' = initialized s" "expected_input s' = expected_input s"
    "expected_resumer s' = expected_resumer s" "id_curr s' \<noteq> p"
  shows "awaiting p h r s'"
  using assms by (simp add: awaiting_def)

lemma awaiting_curr: "awaiting p h r s \<Longrightarrow> id_curr s \<noteq> p"
  by (simp add: awaiting_def)

lemma awaiting_step:
  assumes "control_inv rom s" and "awaiting p h r s" and "rom_is_utxo rom ! p"
    and "dispatch rom s op = Ok s'"
  shows "awaiting p h r s' \<or> answers p h r (id_curr s, op)"
proof (cases op)
  case (Resume target f_id val ret caller)
  with awaiting_resume [OF assms(2)] assms(4) show ?thesis by simp
next
  case (CallEffectHandler i f_id val ret)
  with assms(4) obtain q where q: "top_of (stack_of s i) = Some q" "id_curr s' = q"
    "initialized s' = initialized s"
    "expected_input s' = (expected_input s)[q := None, id_curr s := to_option ret]"
    "expected_resumer s' = (expected_resumer s)[q := None, id_curr s := Some q]"
    by (auto dest!: op_call_effect_handler_Ok)
  with control_coord(4) [OF assms(1) top_of_Some [OF q(1)]] assms(3) have "q \<noteq> p"
    by (auto simp: coord_pid_def)
  with q(2-) assms(2) have "awaiting p h r s'" unfolding awaiting_def q(2-) by simp
  then show ?thesis ..
next
  case (Yield v)
  with assms(4) obtain q where "id_curr s < length (yield_to s)" "yield_to s ! id_curr s = Some q"
    "id_curr s' = q" "initialized s' = initialized s" "expected_input s' = expected_input s"
    "expected_resumer s' = expected_resumer s"
    by (auto dest!: op_yield_Ok)
  with control_coord(3) [OF assms(1)] assms(2,3) show ?thesis
    by (auto simp: awaiting_def coord_pid_def)
next
  case Return
  with assms(4) have "id_curr s < length (yield_to s)" "initialized s' = initialized s"
    "expected_input s' = expected_input s" "expected_resumer s' = expected_resumer s"
    "id_curr s' = (case yield_to s ! id_curr s of None \<Rightarrow> id_curr s | Some p \<Rightarrow> p)"
    by (auto dest!: op_return_Ok)
  with control_coord(3) [OF assms(1)] assms(2,3) show ?thesis
    by (auto simp: awaiting_def coord_pid_def split: option.splits)
next
  case (NewUtxo hs v w)
  with awaiting_creates [OF assms(2)] op_new_utxo_Ok assms(4) show ?thesis by fastforce
next
  case (NewToken hs v w)
  with awaiting_creates [OF assms(2)] op_new_token_Ok assms(4) show ?thesis by fastforce
next
  case (NewCoord hs v w)
  with awaiting_creates [OF assms(2)] op_new_coord_Ok assms(4) show ?thesis by fastforce
qed (use assms(4) awaiting_curr [OF assms(2)] in
  \<open>auto intro!: awaiting_frame [OF assms(2)] dest!: step_facts\<close>)

text \<open>Along an execution: as long as \<open>p\<close> does not run it keeps waiting, and the event that gives it
  control back is its handler's answer.\<close>

lemma awaiting_run:
  assumes "transitions rom s idx evs s' idx'" and "control_inv rom s" and "awaiting p h r s"
    and "rom_is_utxo rom ! p" and "events_of p evs = []" and "id_curr s' = p"
  shows "\<exists>e \<in> set evs. answers p h r e"
  using assms
proof (induction rule: transitions.induct)
  case (stop s idx)
  then show ?case by (simp add: awaiting_def)
next
  case (go s idx op t idx1 evs s' idx')
  then have d: "dispatch rom s op = Ok t" by (simp add: state_transition_Ok)
  from awaiting_step [OF go.prems(1,2,3) d] show ?case
  proof
    assume "awaiting p h r t"
    with go.IH go.prems dispatch_control [OF go.prems(1) d] show ?thesis by (auto split: if_splits)
  qed simp
qed

lemma call_awaits:
  assumes "control_inv rom s" "rom_is_utxo rom ! id_curr s"
    and "length (expected_input s) = length (initialized s)"
    and "length (expected_resumer s) = length (initialized s)"
    and "op_call_effect_handler s i f_id val ret = Ok s'"
  shows "\<exists>h. top_of (stack_of s i) = Some h \<and> awaiting (id_curr s) h (unwrap ret) s'"
proof -
  from op_call_effect_handler_Ok [OF assms(5)] obtain h where h: "top_of (stack_of s i) = Some h"
    "id_curr s' = h" "initialized s' = initialized s"
    "expected_input s' = (expected_input s)[h := None, id_curr s := to_option ret]"
    "expected_resumer s' = (expected_resumer s)[h := None, id_curr s := Some h]"
    by auto
  with control_coord(1,2) [OF assms(1)] control_coord(4) [OF assms(1) top_of_Some [OF h(1)]] assms(2-4)
  show ?thesis by (cases ret) (auto simp: awaiting_def coord_pid_def)
qed

section \<open>The reference arena\<close>

lemma push_four:
  assumes "Suc off \<le> sz" "length vec = sz * 4"
  shows "push_vals c off sz 0 (vals_list w) vec
    = Ok (take (off * 4) vec @ vals_list w @ drop (Suc off * 4) vec)"
proof -
  obtain x y z u where w: "w = Vals4 x y z u" by (cases w)
  have *: "off * 4 + 3 < length vec" "off * 4 + 3 < sz * 4" using assms by simp_all
  then have "push_vals c off sz 0 (vals_list w) vec
      = Ok (vec[off * 4 := x, off * 4 + 1 := y, off * 4 + 2 := z, off * 4 + 3 := u])"
    by (simp add: w REF_PUSH_WIDTH_def Let_def eval_nat_numeral)
  also have "vec[off * 4 := x, off * 4 + 1 := y, off * 4 + 2 := z, off * 4 + 3 := u]
      = take (off * 4) vec @ vals_list w @ drop (Suc off * 4) vec"
  proof (rule nth_equalityI)
    show "length (vec[off * 4 := x, off * 4 + 1 := y, off * 4 + 2 := z, off * 4 + 3 := u])
      = length (take (off * 4) vec @ vals_list w @ drop (Suc off * 4) vec)"
      using * by (simp add: w)
  next
    fix i assume "i < length (vec[off * 4 := x, off * 4 + 1 := y, off * 4 + 2 := z, off * 4 + 3 := u])"
    then have i: "i < length vec" by simp
    consider "i < off * 4" | "i = off * 4" | "i = off * 4 + 1" | "i = off * 4 + 2" | "i = off * 4 + 3"
      | "Suc off * 4 \<le> i" by fastforce
    then show "vec[off * 4 := x, off * 4 + 1 := y, off * 4 + 2 := z, off * 4 + 3 := u] ! i
      = (take (off * 4) vec @ vals_list w @ drop (Suc off * 4) vec) ! i"
    proof cases
      case 6
      then obtain k where "i = Suc off * 4 + k" using le_Suc_ex by blast
      with i * show ?thesis by (simp add: w nth_append)
    qed (use i * in \<open>simp_all add: w nth_append\<close>)
  qed
  finally show ?thesis .
qed

text \<open>\<open>pushes ws\<close> runs the \<^verbatim>\<open>RefPush\<close> arm for each group of four values.\<close>

definition pushes :: "Vals4 list \<Rightarrow> InterleavingState \<Rightarrow> step_result" where
  "pushes ws s = fold_out (\<lambda>w s. op_ref_push s w) ws s"

lemma pushes_simps:
  "pushes [] s = Ok s"
  "pushes (w # ws) s = andthen (op_ref_push s w) (pushes ws)"
  by (simp_all add: pushes_def) (cases "op_ref_push s w"; simp add: pushes_def)

lemma pushes_fill:
  assumes "pushes ws s = Ok s'" and "ref_building s (id_curr s) = Some (r, off, sz)"
    and "ref_store s r = Some vec" and "length vec = sz * 4" and "ws \<noteq> []"
    and "off + length ws \<le> sz"
  shows "ref_store s' r = Some (take (off * 4) vec @ concat (map vals_list ws) @ drop ((off + length ws) * 4) vec)
    \<and> ref_building s' (id_curr s) = (if off + length ws < sz then Some (r, off + length ws, sz) else None)
    \<and> id_curr s' = id_curr s \<and> ref_sizes s' = ref_sizes s"
  using assms
proof (induction ws arbitrary: s off vec)
  case Nil
  then show ?case by simp
next
  case (Cons w ws)
  let ?vec = "take (off * 4) vec @ vals_list w @ drop (Suc off * 4) vec"
  have len: "length (vals_list w) = 4" by (cases w) simp
  from Cons.prems obtain t where t: "op_ref_push s w = Ok t" "pushes ws t = Ok s'"
    by (auto simp: pushes_simps outcome_simps)
  from op_ref_push_Ok [OF t(1)] Cons.prems push_four [of off sz vec "id_curr s" w]
  have st: "ref_store t r = Some ?vec" "id_curr t = id_curr s" "ref_sizes t = ref_sizes s"
    "ref_building t (id_curr s) = (if Suc off < sz then Some (r, Suc off, sz) else None)"
    by auto
  show ?case
  proof (cases "ws = []")
    case True
    with t(2) st show ?thesis by (simp add: pushes_simps)
  next
    case False
    then have "Suc off < sz" using Cons.prems(6) by (cases ws) auto
    with Cons.IH [OF t(2), of "Suc off" ?vec] st Cons.prems False len show ?thesis
      by (simp add: algebra_simps)
  qed
qed

lemma nth_concat_vals:
  "i < length ws \<Longrightarrow> j < 4 \<Longrightarrow> concat (map vals_list ws) ! (i * 4 + j) = vals_list (ws ! i) ! j"
proof (induction ws arbitrary: i)
  case (Cons w ws)
  have "length (vals_list w) = 4" by (cases w) simp
  with Cons show ?case by (cases i) (auto simp: nth_append algebra_simps)
qed simp

lemma length_concat_vals: "length (concat (map vals_list ws)) = length ws * 4"
proof (induction ws)
  case (Cons w ws)
  then show ?case by (cases w) simp
qed simp

lemma ref_get_filled:
  assumes "ref_store s r = Some (concat (map vals_list ws))" "ref_sizes s r = Some (length ws)"
    and "i < length ws"
  shows "op_ref_get s r i (Resolved w) = (if w = ws ! i then Ok s else Err (Shape ''RefGet result mismatch''))"
proof -
  have "map_out (\<lambda>j. let idx = i * REF_GET_WIDTH + j in
                    if idx < length ws * REF_GET_WIDTH then at (concat (map vals_list ws)) idx Ok else Ok Value_nil)
               [0..<REF_GET_WIDTH] = (Ok (map ((!) (vals_list (ws ! i))) [0..<4]) :: (InterleavingError, Value list) outcome)"
    using assms(3) nth_concat_vals [of i ws]
    by (simp add: map_out_Ok list_all2_conv_all_nth REF_GET_WIDTH_def Let_def at_def length_concat_vals)
  moreover have "map ((!) (vals_list (ws ! i))) [0..<4] = vals_list (ws ! i)"
    by (cases "ws ! i") (simp add: upt_rec)
  moreover have "vals_list (ws ! i) = vals_list w \<longleftrightarrow> w = ws ! i"
    by (cases w; cases "ws ! i") auto
  ultimately show ?thesis
    using assms by (simp add: op_ref_get_def need_def)
qed

section \<open>Ownership\<close>

text \<open>The owner of a token changes only when the token binds itself or its owner unbinds it.\<close>

lemma ownership_step:
  assumes "dispatch rom s op = Ok s'" and "ownership s' ! t \<noteq> ownership s ! t"
  shows "(ownership s ! t = None \<and> (\<exists>q. ownership s' ! t = Some q \<and> op = Bind q \<and> id_curr s = t))
    \<or> (\<exists>q. ownership s ! t = Some q \<and> ownership s' ! t = None \<and> op = Unbind t \<and> id_curr s = q)"
proof (cases op)
  case (Resume target f_id val ret caller)
  with assms op_resume_Ok have "ownership s' = ownership s" by force
  with assms(2) show ?thesis by simp
next
  case (Bind q)
  with assms op_bind_Ok [of rom s q s'] have "id_curr s < length (ownership s)"
    "ownership s ! id_curr s = None" "ownership s' = (ownership s)[id_curr s := Some q]"
    by auto
  with Bind assms(2) show ?thesis by (cases "id_curr s = t") simp_all
next
  case (Unbind u)
  with assms op_unbind_Ok [of rom s u s'] have "u < length (ownership s)"
    "ownership s ! u = Some (id_curr s)" "ownership s' = (ownership s)[u := None]"
    by auto
  with Unbind assms(2) show ?thesis by (cases "u = t") simp_all
qed (use assms in \<open>auto simp: creates_def dest!: step_facts\<close>)

lemma ownership_acquired:
  assumes "transitions rom s idx evs s' idx'" and "ownership s' ! t = Some q" "ownership s ! t \<noteq> Some q"
  shows "(t, Bind q) \<in> set evs"
  using assms
proof (induction rule: transitions.induct)
  case (go s idx op u idx1 evs s' idx')
  then have "dispatch rom s op = Ok u" by (simp add: state_transition_Ok)
  from ownership_step [OF this, of t] go show ?case by (cases "ownership u ! t = Some q") auto
qed simp

lemma ownership_released:
  assumes "transitions rom s idx evs s' idx'" and "ownership s ! t = Some q" "ownership s' ! t \<noteq> Some q"
  shows "(q, Unbind t) \<in> set evs"
  using assms
proof (induction rule: transitions.induct)
  case (go s idx op u idx1 evs s' idx')
  then have "dispatch rom s op = Ok u" by (simp add: state_transition_Ok)
  from ownership_step [OF this, of t] go show ?case by (cases "ownership u ! t = Some q") auto
qed simp

section \<open>Creation\<close>

text \<open>The effect creates process \<open>p\<close> with the program and of the kind that the instance declares.\<close>

fun created_pid :: "WitLedgerEffect \<Rightarrow> ProcessId option" where
  "created_pid (NewUtxo h v w) = Some (unwrap w)"
| "created_pid (NewToken h v w) = Some (unwrap w)"
| "created_pid (NewCoord h v w) = Some (unwrap w)"
| "created_pid _ = None"

fun declared :: "Rom \<Rightarrow> WitLedgerEffect \<Rightarrow> bool" where
  "declared rom (NewUtxo h v w) = (rom_process_table rom ! unwrap w = h
     \<and> rom_is_utxo rom ! unwrap w \<and> \<not> rom_is_token rom ! unwrap w)"
| "declared rom (NewToken h v w) = (rom_process_table rom ! unwrap w = h
     \<and> rom_is_utxo rom ! unwrap w \<and> rom_is_token rom ! unwrap w)"
| "declared rom (NewCoord h v w) = (rom_process_table rom ! unwrap w = h
     \<and> \<not> rom_is_utxo rom ! unwrap w)"
| "declared rom _ = True"

lemma dispatch_declared: "dispatch rom s op = Ok s' \<Longrightarrow> declared rom op"
  by (cases op) (auto simp: creates_def dest!: step_facts)

lemma dispatch_initialized:
  assumes "dispatch rom s op = Ok s'"
  shows "case created_pid op of None \<Rightarrow> initialized s' = initialized s
    | Some p \<Rightarrow> p < length (initialized s) \<and> \<not> initialized s ! p
                \<and> initialized s' = (initialized s)[p := True] \<and> \<not> rom_is_utxo rom ! id_curr s"
proof (cases op)
  case (Resume target f_id val ret caller)
  with assms op_resume_Ok show ?thesis by force
qed (use assms in \<open>auto simp: creates_def dest!: step_facts\<close>)

definition creations :: "ProcessId \<Rightarrow> event list \<Rightarrow> event list" where
  "creations p evs = filter (\<lambda>e. created_pid (snd e) = Some p) evs"

lemma creations_simps [simp]:
  "creations p [] = []"
  "creations p (e # evs) = (if created_pid (snd e) = Some p then e # creations p evs else creations p evs)"
  by (simp_all add: creations_def)

lemma creations_count:
  assumes "transitions rom s idx evs s' idx'" and "p < length (initialized s)"
  shows "length (initialized s') = length (initialized s)
    \<and> of_bool (initialized s' ! p) = length (creations p evs) + of_bool (initialized s ! p)"
  using assms
proof (induction rule: transitions.induct)
  case (go s idx op u idx1 evs s' idx')
  then have "dispatch rom s op = Ok u" by (simp add: state_transition_Ok)
  from dispatch_initialized [OF this] go show ?case
    by (cases "created_pid op") (auto simp: nth_list_update_if)
qed simp

lemma creations_declared:
  "transitions rom s idx evs s' idx' \<Longrightarrow> e \<in> set evs \<Longrightarrow> declared rom (snd e)"
  by (induction rule: transitions.induct) (auto simp: state_transition_Ok dispatch_declared)

section \<open>Traces that are not read to the end\<close>

text \<open>The arms do not look at the traces.\<close>

lemma dispatch_rom_traces: "dispatch (rom\<lparr>rom_traces := ts\<rparr>) s op = dispatch rom s op"
  by (cases op)
    (simp_all add: op_resume_def op_yield_def op_return_def op_program_hash_def op_new_utxo_def
      op_new_token_def op_new_coord_def op_install_handler_def op_uninstall_handler_def op_burn_def
      op_bind_def op_unbind_def Let_def cong del: if_weak_cong)

lemma transitions_extend:
  assumes "transitions rom s idx evs s' idx'" and "p < length (rom_traces rom)"
  shows "transitions (rom\<lparr>rom_traces := (rom_traces rom)[p := rom_traces rom ! p @ junk]\<rparr>) s idx evs s' idx'"
  using assms
proof (induction rule: transitions.induct)
  case (stop s idx)
  then show ?case by simp
next
  case (go s idx op t idx1 evs s' idx')
  from go.hyps(1) go.prems
  have "state_transition s (rom\<lparr>rom_traces := (rom_traces rom)[p := rom_traces rom ! p @ junk]\<rparr>) idx op
    = Ok (t, idx1)"
    by (auto simp: state_transition_Ok dispatch_rom_traces nth_list_update_if nth_append)
  with go.IH [OF go.prems] show ?case by (auto intro: transitions.go)
qed

end
