(* ===== verification/Interleaving_Properties.thy ===== *)
theory Interleaving_Properties
  imports Interleaving_Claims
begin

text \<open>
  The properties of the interleaving verifier, and a transaction on which the verifier accepts: a
  coordination script (process 2) creates a token (process 1), which binds itself to an input utxo
  (process 0); the utxo then raises an effect, which the script handles and answers.
\<close>

section \<open>An accepted transaction\<close>

definition ex_h :: Hash where "ex_h = Hash 0 0 0 7"
definition ex_iface :: Hash where "ex_iface = Hash 0 0 0 9"

definition ex_words :: "Vals4 list" where
  "ex_words = [Vals4 (Value 1) (Value 2) (Value 3) (Value 4)]"

definition ex_coord :: "WitLedgerEffect list" where
  "ex_coord =
    [NewRef 1 (Resolved (Ref 0)), RefPush (Vals4 (Value 1) (Value 2) (Value 3) (Value 4)),
     NewRef 1 (Resolved (Ref 1)), RefPush (Vals4 (Value 5) (Value 0) (Value 0) (Value 0)),
     NewToken ex_h (Ref 0) (Resolved 1),
     Resume 1 (FunctionId 1) (Ref 0) (Resolved (Ref 1)) (Resolved None),
     InstallHandler ex_iface,
     Resume 0 (FunctionId 2) (Ref 0) (Resolved (Ref 1)) (Resolved None),
     Enter (FunctionId 3),
     Resume 0 (FunctionId 4) (Ref 0) (Resolved (Ref 1)) (Resolved None),
     UninstallHandler ex_iface, Return]"

definition ex_utxo :: "WitLedgerEffect list" where
  "ex_utxo =
    [Enter (FunctionId 2), CallEffectHandler ex_iface (FunctionId 3) (Ref 1) (Resolved (Ref 0)),
     Enter (FunctionId 4), Yield (Ref 1)]"

definition ex_token :: "WitLedgerEffect list" where
  "ex_token = [Enter (FunctionId 1), Init (Resolved (Ref 0)) (Resolved 2), Bind 0, Yield (Ref 1)]"

definition ex_inst :: InterleavingInstance where
  "ex_inst = \<lparr>host_calls_roots = [], process_table = [ex_h, ex_h, ex_h],
     is_utxo = [True, True, False], is_token = [False, True, False], must_burn = [False],
     n_inputs = 1, n_new = 1, n_coords = 1,
     ownership_in = [None, None], ownership_out = [None, Some 0],
     entrypoint = 2, input_states = [Utxo []]\<rparr>"

definition ex_wit :: InterleavingWitness where
  "ex_wit = \<lparr>traces = [ex_utxo, ex_token, ex_coord]\<rparr>"

lemma ex_accepted: "verify_interleaving_semantics ex_inst ex_wit = Ok ()"
  by code_simp

text \<open>Its run, step by step.\<close>

definition ex_rom :: Rom where "ex_rom = make_rom ex_inst ex_wit"

definition ex_start :: InterleavingState where
  "ex_start = (case initial_state ex_inst 3 of Ok s \<Rightarrow> s | _ \<Rightarrow> undefined)"

lemma ex_start_Ok: "initial_state ex_inst 3 = Ok ex_start"
  by (simp add: ex_start_def initial_state_def ex_inst_def put_def)

lemma ex_n: "n_processes ex_inst = 3" "replicate 3 (0::nat) = [0, 0, 0]"
  by (simp_all add: n_processes_def ex_inst_def eval_nat_numeral)

lemma ex_start_inv:
  "sized 3 2 ex_start" "control_inv ex_rom ex_start" "arena_inv ex_start" "burn_inv ex_rom ex_start"
  "position_inv ex_rom ex_start (replicate 3 0)"
  using initial_state_Ok [OF ex_start_Ok, of 2 ex_rom] by (simp_all add: ex_inst_def)

text \<open>\<open>steps n\<close> takes \<open>n\<close> transitions along the traces; its events are an execution.\<close>

fun steps :: "nat \<Rightarrow> Rom \<Rightarrow> InterleavingState \<Rightarrow> nat list \<Rightarrow> (event list \<times> InterleavingState \<times> nat list) option" where
  "steps 0 rom s idx = Some ([], s, idx)"
| "steps (Suc n) rom s idx =
    (case state_transition s rom idx (rom_traces rom ! id_curr s ! (idx ! id_curr s)) of
       Ok (t, idx1) \<Rightarrow> (case steps n rom t idx1 of
           None \<Rightarrow> None
         | Some (evs, r) \<Rightarrow> Some ((id_curr s, rom_traces rom ! id_curr s ! (idx ! id_curr s)) # evs, r))
     | _ \<Rightarrow> None)"

lemma steps_transitions: "steps n rom s idx = Some (evs, s', idx') \<Longrightarrow> transitions rom s idx evs s' idx'"
proof (induction n rom s idx arbitrary: evs rule: steps.induct)
  case (2 n rom s idx)
  then show ?case by (auto split: outcome.splits option.splits)
qed simp

text \<open>The state and positions after the first twelve steps, where the utxo has just been resumed and
  raises its effect, and the events up to the handler's answer.\<close>

definition ex_raise :: "InterleavingState \<times> nat list" where
  "ex_raise = (case steps 13 ex_rom ex_start [0, 0, 0] of Some (evs, r) \<Rightarrow> r | None \<Rightarrow> undefined)"

definition ex_answer :: "event list" where
  "ex_answer = [(2, Enter (FunctionId 3)), (2, Resume 0 (FunctionId 4) (Ref 0) (Resolved (Ref 1)) (Resolved None))]"

lemma ex_raise_reached: "\<exists>evs. transitions ex_rom ex_start [0, 0, 0] evs (fst ex_raise) (snd ex_raise)"
proof -
  have "steps 13 ex_rom ex_start [0, 0, 0] \<noteq> None" by code_simp
  then obtain evs r where "steps 13 ex_rom ex_start [0, 0, 0] = Some (evs, r)" by auto
  with steps_transitions [of 13 ex_rom ex_start "[0, 0, 0]" evs "fst r" "snd r"] show ?thesis
    by (auto simp: ex_raise_def)
qed

lemma ex_raise_events:
  "\<exists>s' idx'. transitions ex_rom (fst ex_raise) (snd ex_raise)
     ((0, CallEffectHandler ex_iface (FunctionId 3) (Ref 1) (Resolved (Ref 0))) # ex_answer) s' idx'
     \<and> id_curr s' = 0"
proof -
  have "case steps 3 ex_rom (fst ex_raise) (snd ex_raise) of
      Some (evs, r) \<Rightarrow> evs = (0, CallEffectHandler ex_iface (FunctionId 3) (Ref 1) (Resolved (Ref 0))) # ex_answer
                       \<and> id_curr (fst r) = 0
    | None \<Rightarrow> False"
    by code_simp
  then obtain r where "steps 3 ex_rom (fst ex_raise) (snd ex_raise) = Some
      ((0, CallEffectHandler ex_iface (FunctionId 3) (Ref 1) (Resolved (Ref 0))) # ex_answer, r)"
    "id_curr (fst r) = 0" by (auto split: option.splits)
  then show ?thesis by (metis prod.collapse steps_transitions)
qed

lemma ex_raise_inv: "sized 3 2 (fst ex_raise)" "control_inv ex_rom (fst ex_raise)"
  using ex_raise_reached sized.transitions_inv control.transitions_inv ex_start_inv by blast+

section \<open>Acceptance\<close>

lemma accepted_runs:
  assumes "verify_interleaving_semantics inst wit = Ok ()"
  shows "\<exists>s0 evs s idx. initial_state inst (n_processes inst) = Ok s0
    \<and> transitions (make_rom inst wit) s0 (replicate (n_processes inst) 0) evs s idx
    \<and> halted (make_rom inst wit) s idx
    \<and> final_conditions inst (make_rom inst wit) (n_processes inst) s = Ok ()"
  using assms by (auto simp: verify_Ok run_iff)

lemma accepted_burns:
  assumes i: "initial_state inst n = Ok s0" "length (ownership_in inst) = m" "n_inputs inst \<le> n"
    and t: "transitions rom s0 (replicate n 0) evs s idx" and "rom = make_rom inst wit"
    and f: "final_conditions inst rom n s = Ok ()" and p: "p < n_inputs inst"
  shows "must_burn inst ! p \<longleftrightarrow> Burn \<in> set (events_of p evs)"
proof -
  from initial_state_Ok [OF i(1,2), of rom]
  have inv: "position_inv rom s idx" "burn_inv rom s"
    using position.transitions_inv [OF t] burn.transitions_inv [OF t] by blast+
  have "length idx = n" using transitions_length [OF t] by simp
  with p i(3) have pn: "p < length idx" by simp
  have "events_of p evs = take (idx ! p) (rom_traces rom ! p)"
    using transitions_events_of [OF t, of p] pn \<open>length idx = n\<close> by simp
  with inv pn have d: "did_burn s ! p \<longleftrightarrow> Burn \<in> set (events_of p evs)" "p < length (did_burn s)"
    by (auto simp: position_inv_def)
  have "must_burn inst ! p \<longrightarrow> did_burn s ! p"
    using f p assms(5) by (auto simp: final_conditions_Ok check_did_burn_def each_Ok outcome_simps
        make_rom_def split: if_splits)
  moreover have "did_burn s ! p \<longrightarrow> must_burn inst ! p"
    using inv(2) d(2) assms(5) by (auto simp: burn_inv_def make_rom_def)
  ultimately show ?thesis using d(1) by blast
qed

text \<open>
C1: An accepted transaction is an execution of the machine from the initial state that stops in a
coordination script whose trace is exhausted; every utxo among the inputs and new outputs ran and its
last executed effect is a \<^verbatim>\<open>Yield\<close>; an input burned exactly when the instance says it must; and every
process of the transaction is initialized.
\<close>

theorem accepted_execution:
  assumes "verify_interleaving_semantics inst wit = Ok ()"
  shows "\<exists>s0 evs s idx. initial_state inst (n_processes inst) = Ok s0
    \<and> transitions (make_rom inst wit) s0 (replicate (n_processes inst) 0) evs s idx
    \<and> halted (make_rom inst wit) s idx \<and> \<not> is_utxo inst ! id_curr s
    \<and> (\<forall>p < n_inputs inst + n_new inst. is_utxo inst ! p \<longrightarrow>
          events_of p evs \<noteq> [] \<and> is_Yield (last (events_of p evs)))
    \<and> (\<forall>p < n_inputs inst. must_burn inst ! p \<longleftrightarrow> Burn \<in> set (events_of p evs))
    \<and> (\<forall>p < n_processes inst. initialized s ! p)"
proof -
  let ?n = "n_processes inst" and ?rom = "make_rom inst wit"
  from accepted_runs [OF assms] obtain s0 evs s idx where
    r: "initial_state inst ?n = Ok s0" "transitions ?rom s0 (replicate ?n 0) evs s idx"
    "halted ?rom s idx" and f: "final_conditions inst ?rom ?n s = Ok ()" by blast
  note own = check_shape_Ok(3) [of inst "()"]
  from assms have sh: "check_shape inst = Ok ()" by (simp add: verify_Ok)
  note i0 = initial_state_Ok [OF r(1) own [OF sh], of ?rom]
  have inv: "position_inv ?rom s idx" using position.transitions_inv [OF r(2)] i0 by blast
  have len: "length idx = ?n" using transitions_length [OF r(2)] by simp
  have yielded: "events_of p evs \<noteq> [] \<and> is_Yield (last (events_of p evs))"
    if p: "p < n_inputs inst + n_new inst" "is_utxo inst ! p" for p
  proof -
    have pn: "p < length idx" using p(1) len by (simp add: n_processes_def)
    have ev: "events_of p evs = take (idx ! p) (rom_traces ?rom ! p)"
      using transitions_events_of [OF r(2), of p] pn len by simp
    have "finalized s ! p"
      using f p(1) by (auto simp: final_conditions_Ok check_finalized_def each_Ok outcome_simps split: if_splits)
    with inv pn p(2) have "0 < idx ! p" "is_Yield (rom_traces ?rom ! p ! (idx ! p - 1))"
      "idx ! p \<le> length (rom_traces ?rom ! p)"
      by (auto simp: position_inv_def make_rom_def)
    then show ?thesis by (auto simp: ev last_take_Suc)
  qed
  have "\<not> is_utxo inst ! id_curr s"
    using f by (auto simp: final_conditions_Ok check_finish_def outcome_simps make_rom_def split: if_splits)
  moreover have "\<forall>p < ?n. initialized s ! p"
    using f by (auto simp: final_conditions_Ok check_initialized_def each_Ok outcome_simps split: if_splits)
  moreover have "\<forall>p < n_inputs inst. must_burn inst ! p \<longleftrightarrow> Burn \<in> set (events_of p evs)"
    using accepted_burns [OF r(1) own [OF sh] _ r(2) refl f] by (simp add: n_processes_def)
  ultimately show ?thesis using r yielded by blast
qed

lemma accepted_execution_witness:
  "\<exists>s0 evs s idx. initial_state ex_inst (n_processes ex_inst) = Ok s0
    \<and> transitions (make_rom ex_inst ex_wit) s0 (replicate (n_processes ex_inst) 0) evs s idx
    \<and> halted (make_rom ex_inst ex_wit) s idx \<and> \<not> is_utxo ex_inst ! id_curr s
    \<and> (\<forall>p < n_inputs ex_inst + n_new ex_inst. is_utxo ex_inst ! p \<longrightarrow>
          events_of p evs \<noteq> [] \<and> is_Yield (last (events_of p evs)))
    \<and> (\<forall>p < n_inputs ex_inst. must_burn ex_inst ! p \<longleftrightarrow> Burn \<in> set (events_of p evs))
    \<and> (\<forall>p < n_processes ex_inst. initialized s ! p)"
  by (rule accepted_execution [OF ex_accepted])

text \<open>
C18: In an accepted transaction the instance's \<^verbatim>\<open>ownership_out\<close> is the ownership at the end of the
execution, every token that did not burn has an owner there, an owner that a token did not have in
\<^verbatim>\<open>ownership_in\<close> was bound by the token's own \<^verbatim>\<open>Bind\<close>, and an owner it lost executed the \<^verbatim>\<open>Unbind\<close>.
\<close>

theorem accepted_ownership:
  assumes "verify_interleaving_semantics inst wit = Ok ()"
  shows "\<exists>s0 evs s idx. initial_state inst (n_processes inst) = Ok s0
    \<and> transitions (make_rom inst wit) s0 (replicate (n_processes inst) 0) evs s idx
    \<and> (\<forall>t < n_inputs inst + n_new inst.
         ownership_out inst ! t = ownership s ! t
         \<and> (is_token inst ! t \<and> Burn \<notin> set (events_of t evs) \<longrightarrow> ownership_out inst ! t \<noteq> None)
         \<and> (\<forall>q. ownership_out inst ! t = Some q \<and> ownership_in inst ! t \<noteq> Some q \<longrightarrow> (t, Bind q) \<in> set evs)
         \<and> (\<forall>q. ownership_in inst ! t = Some q \<and> ownership_out inst ! t \<noteq> Some q \<longrightarrow> (q, Unbind t) \<in> set evs))"
proof -
  let ?n = "n_processes inst" and ?rom = "make_rom inst wit"
  from accepted_runs [OF assms] obtain s0 evs s idx where
    r: "initial_state inst ?n = Ok s0" "transitions ?rom s0 (replicate ?n 0) evs s idx"
    and f: "final_conditions inst ?rom ?n s = Ok ()" by blast
  from assms have sh: "check_shape inst = Ok ()" by (simp add: verify_Ok)
  note i0 = initial_state_Ok [OF r(1) check_shape_Ok(3) [OF sh], of ?rom]
  have inv: "position_inv ?rom s idx" using position.transitions_inv [OF r(2)] i0 by blast
  have len: "length idx = ?n" using transitions_length [OF r(2)] by simp
  have out: "ownership_out inst ! t = ownership s ! t" if "t < n_inputs inst + n_new inst" for t
    using f that by (auto simp: final_conditions_Ok check_ownership_def each_Ok outcome_simps split: if_splits)
  have live: "ownership s ! t \<noteq> None"
    if t: "t < n_inputs inst + n_new inst" "is_token inst ! t" "Burn \<notin> set (events_of t evs)" for t
  proof -
    have tn: "t < length idx" using t(1) len by (simp add: n_processes_def)
    have "events_of t evs = take (idx ! t) (rom_traces ?rom ! t)"
      using transitions_events_of [OF r(2), of t] tn len by simp
    with inv tn t(3) have "\<not> did_burn s ! t" by (simp add: position_inv_def)
    with f t(1,2) show ?thesis
      by (auto simp: final_conditions_Ok check_tokens_bound_def each_Ok outcome_simps make_rom_def
          split: if_splits)
  qed
  have "\<forall>t < n_inputs inst + n_new inst.
         ownership_out inst ! t = ownership s ! t
         \<and> (is_token inst ! t \<and> Burn \<notin> set (events_of t evs) \<longrightarrow> ownership_out inst ! t \<noteq> None)
         \<and> (\<forall>q. ownership_out inst ! t = Some q \<and> ownership_in inst ! t \<noteq> Some q \<longrightarrow> (t, Bind q) \<in> set evs)
         \<and> (\<forall>q. ownership_in inst ! t = Some q \<and> ownership_out inst ! t \<noteq> Some q \<longrightarrow> (q, Unbind t) \<in> set evs)"
    using out live ownership_acquired [OF r(2)] ownership_released [OF r(2)] i0 by auto
  with r show ?thesis by blast
qed

lemma accepted_ownership_witness:
  "\<exists>s0 evs s idx. initial_state ex_inst (n_processes ex_inst) = Ok s0
    \<and> transitions (make_rom ex_inst ex_wit) s0 (replicate (n_processes ex_inst) 0) evs s idx
    \<and> (\<forall>t < n_inputs ex_inst + n_new ex_inst.
         ownership_out ex_inst ! t = ownership s ! t
         \<and> (is_token ex_inst ! t \<and> Burn \<notin> set (events_of t evs) \<longrightarrow> ownership_out ex_inst ! t \<noteq> None)
         \<and> (\<forall>q. ownership_out ex_inst ! t = Some q \<and> ownership_in ex_inst ! t \<noteq> Some q \<longrightarrow> (t, Bind q) \<in> set evs)
         \<and> (\<forall>q. ownership_in ex_inst ! t = Some q \<and> ownership_out ex_inst ! t \<noteq> Some q \<longrightarrow> (q, Unbind t) \<in> set evs))"
  by (rule accepted_ownership [OF ex_accepted])

text \<open>
In an accepted transaction every process that is neither an input nor the entrypoint is created by
exactly one \<^verbatim>\<open>NewUtxo\<close>, \<^verbatim>\<open>NewToken\<close> or \<^verbatim>\<open>NewCoord\<close> of the execution, which names the program hash and the
kind the instance declares for it; inputs and the entrypoint are never created.
\<close>

theorem accepted_creation:
  assumes "verify_interleaving_semantics inst wit = Ok ()"
  shows "\<exists>s0 evs s idx. initial_state inst (n_processes inst) = Ok s0
    \<and> transitions (make_rom inst wit) s0 (replicate (n_processes inst) 0) evs s idx
    \<and> (\<forall>p < n_processes inst. length (creations p evs)
          = (if p < n_inputs inst \<or> p = entrypoint inst then 0 else 1))
    \<and> (\<forall>e \<in> set evs. declared (make_rom inst wit) (snd e))"
proof -
  let ?n = "n_processes inst" and ?rom = "make_rom inst wit"
  from accepted_runs [OF assms] obtain s0 evs s idx where
    r: "initial_state inst ?n = Ok s0" "transitions ?rom s0 (replicate ?n 0) evs s idx"
    and f: "final_conditions inst ?rom ?n s = Ok ()" by blast
  from assms have sh: "check_shape inst = Ok ()" by (simp add: verify_Ok)
  note i0 = initial_state_Ok [OF r(1) check_shape_Ok(3) [OF sh], of ?rom]
  have ini: "length (initialized s0) = ?n"
    "p < ?n \<Longrightarrow> initialized s0 ! p \<longleftrightarrow> p < n_inputs inst \<or> p = entrypoint inst" for p
    using i0 by (auto simp: nth_list_update)
  have fin: "\<forall>p < ?n. initialized s ! p"
    using f by (auto simp: final_conditions_Ok check_initialized_def each_Ok outcome_simps split: if_splits)
  have "length (creations p evs) = (if p < n_inputs inst \<or> p = entrypoint inst then 0 else 1)"
    if "p < ?n" for p
    using creations_count [OF r(2), of p] ini fin that by (auto split: if_splits)
  with r creations_declared [OF r(2)] show ?thesis by blast
qed

lemma accepted_creation_witness:
  "\<exists>s0 evs s idx. initial_state ex_inst (n_processes ex_inst) = Ok s0
    \<and> transitions (make_rom ex_inst ex_wit) s0 (replicate (n_processes ex_inst) 0) evs s idx
    \<and> (\<forall>p < n_processes ex_inst. length (creations p evs)
          = (if p < n_inputs ex_inst \<or> p = entrypoint ex_inst then 0 else 1))
    \<and> (\<forall>e \<in> set evs. declared (make_rom ex_inst ex_wit) (snd e))"
  by (rule accepted_creation [OF ex_accepted])

section \<open>Errors instead of panics\<close>

text \<open>
C22: The verifier always returns: on every instance and witness in range it accepts or reports an error, and
never panics. In range (\<open>safe_input\<close>) means: one entry per process in each table, the utxos first; the process
ids named in traces are those of the instance; only inputs trace a \<^verbatim>\<open>Burn\<close>; references have fewer than $2^{58}$
words, whose values fit in \<^verbatim>\<open>isize::MAX\<close> bytes; and the traces together have fewer than $2^{64}$ entries.
\<close>

theorem verifier_never_panics:
  assumes "safe_input inst wit"
  shows "verify_interleaving_semantics inst wit = Ok () \<or>
    (\<exists>e. verify_interleaving_semantics inst wit = Err e)"
  using verify_no_panic [OF assms] by (cases "verify_interleaving_semantics inst wit") auto

lemma ex_safe: "safe_input ex_inst ex_wit"
  by (auto simp: safe_input_def wf_rom_def make_rom_def ex_inst_def ex_wit_def n_processes_def
      ex_utxo_def ex_token_def ex_coord_def USIZE_LIMIT_def ISIZE_MAX_def REF_PUSH_WIDTH_def less_Suc_eq
      numeral_3_eq_3 nth_Cons')

lemma verifier_never_panics_witness:
  "verify_interleaving_semantics ex_inst ex_wit = Ok () \<or>
    (\<exists>e. verify_interleaving_semantics ex_inst ex_wit = Err e)"
  by (rule verifier_never_panics [OF ex_safe])

text \<open>
The bound on reference sizes in \<open>safe_input\<close> is needed as well: a size of $2^{58}$ words is accepted as an
argument of \<^verbatim>\<open>NewRef\<close>, but the allocation of its values panics.
\<close>

lemma huge_reference_panics:
  assumes "ref_building s (id_curr s) = None" "unwrap ret = Ref (ref_counter s)" "2 ^ 58 \<le> size_words"
  shows "op_new_ref s size_words ret = Panic"
proof -
  have "\<not> size_words * REF_PUSH_WIDTH * 8 \<le> ISIZE_MAX" using assms(3) by (simp add: ISIZE_MAX_def REF_PUSH_WIDTH_def)
  then show ?thesis using assms(1,2) by (simp add: op_new_ref_def Let_def checked64_eq zeroed_values_eq)
qed

text \<open>
The bound on \<^verbatim>\<open>Burn\<close> in \<open>safe_input\<close> is needed: a \<^verbatim>\<open>Burn\<close> by a utxo that the transaction itself created
(its id is past the inputs) reads \<^verbatim>\<open>must_burn\<close> out of bounds, whatever the rest of the state, so the arm
panics where it should report \<^verbatim>\<open>UtxoShouldNotBurn\<close>.
\<close>

theorem burn_of_new_output_panics:
  assumes "rom = make_rom inst wit" and "check_shape inst = Ok ()"
    and "n_inputs inst \<le> id_curr s" "id_curr s < length (is_utxo inst)" "is_utxo inst ! id_curr s"
  shows "dispatch rom s Burn = Panic"
  using check_shape_Ok(6) [OF assms(2)] assms
  by (simp add: op_burn_def Let_def at_def make_rom_def)

lemma burn_of_new_output_panics_witness: "dispatch ex_rom (ex_start\<lparr>id_curr := 1\<rparr>) Burn = Panic"
  by (rule burn_of_new_output_panics [of _ ex_inst ex_wit])
    (simp_all add: ex_rom_def ex_inst_def check_shape_def)

section \<open>The run loop\<close>

text \<open>
C24: The run loop returns a state exactly when the small-step relation reaches it and the process
that is current there has no host call left: the loop implements the relation, and adds only its
stopping rule.
\<close>

theorem run_refines_transitions:
  "run rom s idx = Ok (s', idx') \<longleftrightarrow>
     (\<exists>evs. transitions rom s idx evs s' idx' \<and> halted rom s' idx')"
  by (rule run_iff)

text \<open>
Every execution is an interleaving of trace prefixes: the effects a process executed are its trace
from the position where it was to the position where it is, in order, and positions only advance.
\<close>

theorem schedule_interleaves_traces:
  assumes "transitions rom s idx evs s' idx'" and "p < length idx"
  shows "events_of p evs = drop (idx ! p) (take (idx' ! p) (rom_traces rom ! p)) \<and> idx ! p \<le> idx' ! p"
  using transitions_events_of [OF assms] transitions_mono [OF assms] by blast

text \<open>The first events of the example's run, by evaluation.\<close>

lemma ex_run_events:
  "\<exists>s' idx'. transitions ex_rom ex_start [0, 0, 0] [(2, NewRef 1 (Resolved (Ref 0)))] s' idx'"
  by (simp add: state_transition_def ex_rom_def make_rom_def ex_inst_def ex_wit_def ex_coord_def
      ex_start_def initial_state_def put_def at_def Let_def op_new_ref_def checked64_def USIZE_LIMIT_def
      zeroed_values_def ISIZE_MAX_def REF_PUSH_WIDTH_def)

lemma schedule_interleaves_traces_witness:
  "\<exists>s' idx'. transitions ex_rom ex_start [0, 0, 0] [(2, NewRef 1 (Resolved (Ref 0)))] s' idx'
    \<and> [NewRef 1 (Resolved (Ref 0))] = drop 0 (take (idx' ! 2) (rom_traces ex_rom ! 2))"
  using ex_run_events schedule_interleaves_traces [of ex_rom ex_start "[0, 0, 0]"
      "[(2, NewRef 1 (Resolved (Ref 0)))]" _ _ 2]
  by (force simp del: transitions_Cons)

text \<open>
C23: Along an execution from a state that meets the control invariant (every initial state does),
control never passes from a utxo to a utxo: at each step that changes the current process, the process
before or the process after is a coordination script.
\<close>

theorem no_utxo_to_utxo_transfer:
  assumes "control_inv rom s0" and "transitions rom s0 idx0 evs s idx"
    and "state_transition s rom idx op = Ok (s', idx')" and "id_curr s' \<noteq> id_curr s"
  shows "\<not> rom_is_utxo rom ! id_curr s \<or> \<not> rom_is_utxo rom ! id_curr s'"
proof -
  from control.transitions_inv [OF assms(2,1)] have "control_inv rom s" .
  moreover from assms(3) have "dispatch rom s op = Ok s'" by (simp add: state_transition_Ok)
  ultimately show ?thesis using transfer_coord assms(4) by blast
qed

lemma no_utxo_to_utxo_transfer_witness:
  "\<exists>s' idx'. state_transition (fst ex_raise) ex_rom (snd ex_raise)
       (CallEffectHandler ex_iface (FunctionId 3) (Ref 1) (Resolved (Ref 0))) = Ok (s', idx')
     \<and> id_curr s' \<noteq> id_curr (fst ex_raise)
     \<and> (\<not> rom_is_utxo ex_rom ! id_curr (fst ex_raise) \<or> \<not> rom_is_utxo ex_rom ! id_curr s')"
proof -
  from ex_raise_reached obtain evs where
    r: "transitions ex_rom ex_start [0, 0, 0] evs (fst ex_raise) (snd ex_raise)" by blast
  have "case state_transition (fst ex_raise) ex_rom (snd ex_raise)
       (CallEffectHandler ex_iface (FunctionId 3) (Ref 1) (Resolved (Ref 0))) of
      Ok q \<Rightarrow> id_curr (fst q) \<noteq> id_curr (fst ex_raise) | _ \<Rightarrow> False"
    by code_simp
  then obtain s' idx' where
    "state_transition (fst ex_raise) ex_rom (snd ex_raise)
       (CallEffectHandler ex_iface (FunctionId 3) (Ref 1) (Resolved (Ref 0))) = Ok (s', idx')"
    "id_curr s' \<noteq> id_curr (fst ex_raise)" by (auto split: outcome.splits)
  with no_utxo_to_utxo_transfer [OF ex_start_inv(2) r] show ?thesis by blast
qed

section \<open>Effects\<close>

text \<open>
C17: When a utxo \<open>p\<close> raises an effect, the process that next gives it control back is the handler on
top of the interface's stack, by a \<^verbatim>\<open>Resume\<close> that passes exactly the reference \<open>p\<close>'s trace claims:
whatever happens in between, an execution in which \<open>p\<close> is current again contains that answer.
\<close>

theorem effect_is_answered_by_its_handler:
  assumes "sized n m s" and "control_inv rom s" and "rom_is_utxo rom ! p"
    and "transitions rom s idx ((p, CallEffectHandler i f val (Resolved r)) # evs) s' idx'"
    and "events_of p evs = []" and "id_curr s' = p"
  shows "\<exists>h f' ret k. top_of (stack_of s i) = Some h \<and> (h, Resume p f' r ret k) \<in> set evs"
proof -
  from assms(4) obtain t idx1 where t: "p = id_curr s" "dispatch rom s (CallEffectHandler i f val (Resolved r)) = Ok t"
    "transitions rom t idx1 evs s' idx'" by (auto simp: state_transition_Ok)
  with assms(1-3) call_awaits [OF assms(2), of i f val "Resolved r" t]
  obtain h where h: "top_of (stack_of s i) = Some h" "awaiting p h r t" by (auto simp: sized_def)
  from awaiting_run [OF t(3) dispatch_control [OF assms(2) t(2)] h(2) assms(3,5,6)]
  obtain e where "e \<in> set evs" "answers p h r e" by blast
  with h(1) show ?thesis by (cases e) (auto simp: answers_def)
qed

lemma effect_is_answered_by_its_handler_witness:
  "\<exists>h f' ret k. top_of (stack_of (fst ex_raise) ex_iface) = Some h
     \<and> (h, Resume 0 f' (Ref 0) ret k) \<in> set ex_answer"
proof -
  from ex_raise_events obtain s' idx' where
    r: "transitions ex_rom (fst ex_raise) (snd ex_raise)
       ((0, CallEffectHandler ex_iface (FunctionId 3) (Ref 1) (Resolved (Ref 0))) # ex_answer) s' idx'"
    "id_curr s' = 0" by blast
  show ?thesis
    by (rule effect_is_answered_by_its_handler [OF ex_raise_inv _ r(1) _ r(2)])
      (simp_all add: ex_rom_def make_rom_def ex_inst_def ex_answer_def)
qed

lemma stack_of_upd:
  "stack_of (s\<lparr>handler_stack := (handler_stack u)(i \<mapsto> st)\<rparr>) j = (if j = i then st else stack_of u j)"
  by (simp add: stack_of_def)

text \<open>
C26: Handlers nest like a stack: after \<^verbatim>\<open>InstallHandler\<close> the installing process is the interface's handler
and no other interface is affected; \<^verbatim>\<open>UninstallHandler\<close> then restores every stack; a process that is not
on top of the stack cannot uninstall.
\<close>

theorem handlers_are_lifo:
  assumes "op_install_handler rom s i = Ok s1"
  shows "top_of (stack_of s1 i) = Some (id_curr s)
    \<and> (\<forall>j. j \<noteq> i \<longrightarrow> stack_of s1 j = stack_of s j)
    \<and> (\<exists>s2. op_uninstall_handler rom s1 i = Ok s2 \<and> (\<forall>j. stack_of s2 j = stack_of s j))
    \<and> (\<forall>q. q \<noteq> id_curr s \<longrightarrow> q < length (rom_is_utxo rom) \<longrightarrow> \<not> rom_is_utxo rom ! q \<longrightarrow>
         op_uninstall_handler rom (s1\<lparr>id_curr := q\<rparr>) i = Err (InstalledHandlerIsNotCurrent i q))"
proof -
  from op_install_handler_Ok [OF assms]
  have s1: "s1 = s\<lparr>handler_stack := (handler_stack s)(i \<mapsto> stack_of s i @ [id_curr s])\<rparr>"
    and c: "id_curr s < length (rom_is_utxo rom)" "\<not> rom_is_utxo rom ! id_curr s" by auto
  have st: "stack_of s1 j = (if j = i then stack_of s i @ [id_curr s] else stack_of s j)" for j
    by (simp add: s1 stack_of_upd)
  have st': "stack_of (s1\<lparr>id_curr := q\<rparr>) j = stack_of s1 j" for q j by (simp add: stack_of_def)
  have "id_curr s1 = id_curr s" by (simp add: s1)
  then show ?thesis using c
    by (auto simp: op_uninstall_handler_def at_def need_def st st' top_of_def stack_of_upd)
qed

lemma handlers_are_lifo_witness:
  "\<exists>s1. op_install_handler ex_rom ex_start ex_iface = Ok s1 \<and> top_of (stack_of s1 ex_iface) = Some 2"
proof -
  let ?s1 = "ex_start\<lparr>handler_stack := [ex_iface \<mapsto> [2]]\<rparr>"
  have ok: "op_install_handler ex_rom ex_start ex_iface = Ok ?s1"
    by (simp add: op_install_handler_def ex_rom_def make_rom_def ex_inst_def ex_start_def
        initial_state_def put_def at_def stack_of_def)
  from handlers_are_lifo [OF ok] have "top_of (stack_of ?s1 ex_iface) = Some (id_curr ex_start)" by blast
  moreover have "id_curr ex_start = 2" by (simp add: ex_start_def initial_state_def put_def ex_inst_def)
  ultimately show ?thesis using ok by auto
qed

section \<open>References\<close>

text \<open>
C25: A reference built by \<^verbatim>\<open>NewRef\<close> of \<open>k > 0\<close> words and \<open>k\<close> \<^verbatim>\<open>RefPush\<close>es holds exactly the pushed values:
the process is no longer building, and a \<^verbatim>\<open>RefGet\<close> at any offset below \<open>k\<close> accepts the pushed group of
four and rejects every other.
\<close>

theorem pushed_values_read_back:
  assumes "op_new_ref s (length ws) ret = Ok s1" and "pushes ws s1 = Ok s2" and "ws \<noteq> []"
  shows "ref_building s2 (id_curr s) = None
    \<and> (\<forall>i < length ws. \<forall>w. op_ref_get s2 (unwrap ret) i (Resolved w)
          = (if w = ws ! i then Ok s2 else Err (Shape ''RefGet result mismatch'')))
    \<and> (\<forall>i \<ge> length ws. \<forall>w. op_ref_get s2 (unwrap ret) i w = Err (Shape ''RefGet out of bounds''))"
proof -
  let ?r = "unwrap ret"
  from op_new_ref_Ok [OF assms(1)] assms(3)
  have s1: "ref_building s1 (id_curr s1) = Some (?r, 0, length ws)" "id_curr s1 = id_curr s"
    "ref_store s1 ?r = Some (replicate (length ws * 4) (Value 0))" "ref_sizes s1 ?r = Some (length ws)"
    by (cases ws; simp)+
  from pushes_fill [OF assms(2) s1(1,3) _ assms(3)] s1(2,4)
  have s2: "ref_store s2 ?r = Some (concat (map vals_list ws))" "ref_sizes s2 ?r = Some (length ws)"
    "ref_building s2 (id_curr s) = None" by simp_all
  then have "op_ref_get s2 ?r i w = Err (Shape ''RefGet out of bounds'')" if "length ws \<le> i" for i w
    using that by (simp add: op_ref_get_def need_def)
  with s2 ref_get_filled [OF s2(1,2)] show ?thesis by blast
qed

lemma pushed_values_read_back_witness:
  "\<exists>s2. ref_store s2 (Ref 0) \<noteq> None
     \<and> op_ref_get s2 (Ref 0) 0 (Resolved (Vals4 (Value 1) (Value 2) (Value 3) (Value 4))) = Ok s2"
proof -
  have "case op_new_ref ex_start (length ex_words) (Resolved (Ref 0)) of
      Ok s1 \<Rightarrow> (case pushes ex_words s1 of Ok s2 \<Rightarrow> ref_store s2 (Ref 0) \<noteq> None | _ \<Rightarrow> False) | _ \<Rightarrow> False"
    by code_simp
  then obtain s1 s2 where "op_new_ref ex_start (length ex_words) (Resolved (Ref 0)) = Ok s1"
    "pushes ex_words s1 = Ok s2" "ref_store s2 (Ref 0) \<noteq> None" by (auto split: outcome.splits)
  with pushed_values_read_back [of ex_start ex_words "Resolved (Ref 0)" s1 s2] show ?thesis
    by (auto simp: ex_words_def)
qed

text \<open>
The arena only grows: along an execution from a state whose arena is consistent, references keep
their sizes and are never freed, every live reference keeps four values per word, processes stay
initialized and a burn is never undone.
\<close>

theorem arena_is_monotone:
  assumes "arena_inv s" and "transitions rom s idx evs s' idx'"
  shows "arena_inv s' \<and> grows s s'
    \<and> (\<forall>r sz. ref_sizes s r = Some sz \<longrightarrow>
          ref_sizes s' r = Some sz \<and> (\<exists>vec. ref_store s' r = Some vec \<and> length vec = sz * 4))"
proof -
  have "run_invariant (\<lambda>rom' t idx. arena_inv t \<and> grows s t)"
    by unfold_locales (auto simp: state_transition_Ok dest: growth.dispatch_rel dispatch_arena
        intro: growth.rel_trans)
  from run_invariant.transitions_inv [OF this assms(2)] assms(1) growth.rel_refl
  have *: "arena_inv s'" "grows s s'" by auto
  have "ref_sizes s' r = Some sz \<and> (\<exists>vec. ref_store s' r = Some vec \<and> length vec = sz * 4)"
    if "ref_sizes s r = Some sz" for r sz
  proof -
    from * that have sz: "ref_sizes s' r = Some sz" by (auto simp: grows_def map_le_def dom_def)
    moreover from sz *(1) obtain vec where "ref_store s' r = Some vec"
      unfolding arena_inv_def by blast
    ultimately show ?thesis using *(1) by (auto simp: arena_inv_def)
  qed
  with * show ?thesis by blast
qed

lemma arena_is_monotone_witness: "arena_inv (fst ex_raise) \<and> grows ex_start (fst ex_raise)"
  using ex_raise_reached arena_is_monotone [OF ex_start_inv(3)] by blast

section \<open>Host calls that are never made\<close>

text \<open>
The verifier does not require a trace to be used up: whenever it accepts, it also accepts after any
further host calls are appended to the trace of a utxo, since no utxo is current when the run stops.
\<close>

theorem unread_host_calls_are_accepted:
  assumes "verify_interleaving_semantics inst wit = Ok ()"
    and "p < n_processes inst" and "is_utxo inst ! p"
  shows "verify_interleaving_semantics inst (wit\<lparr>traces := (traces wit)[p := traces wit ! p @ junk]\<rparr>) = Ok ()"
proof -
  let ?n = "n_processes inst" and ?rom = "make_rom inst wit"
  let ?wit = "wit\<lparr>traces := (traces wit)[p := traces wit ! p @ junk]\<rparr>"
  let ?rom' = "make_rom inst ?wit"
  from assms(1) have sh: "check_shape inst = Ok ()" "length (traces wit) = ?n" by (simp_all add: verify_Ok)
  from accepted_runs [OF assms(1)] obtain s0 evs s idx where
    r: "initial_state inst ?n = Ok s0" "transitions ?rom s0 (replicate ?n 0) evs s idx" "halted ?rom s idx"
    and f: "final_conditions inst ?rom ?n s = Ok ()" by blast
  have rom': "?rom' = ?rom\<lparr>rom_traces := (rom_traces ?rom)[p := rom_traces ?rom ! p @ junk]\<rparr>"
    by (simp add: make_rom_def)
  have "transitions ?rom' s0 (replicate ?n 0) evs s idx"
    unfolding rom' using r(2) assms(2) sh(2) by (intro transitions_extend) (simp_all add: make_rom_def)
  moreover have "id_curr s \<noteq> p"
    using f assms(3) by (auto simp: final_conditions_Ok check_finish_def outcome_simps make_rom_def split: if_splits)
  with r(3) have "halted ?rom' s idx" by (simp add: halted_def make_rom_def)
  ultimately have "run ?rom' s0 (replicate ?n 0) = Ok (s, idx)" using run_iff by blast
  moreover have "final_conditions inst ?rom' ?n s = Ok ()"
    using f sh(2) assms(2)
    by (auto simp: final_conditions_Ok check_burn_traced_def check_did_burn_def check_finish_def
        check_ownership_def check_tokens_bound_def check_finalized_def check_initialized_def
        each_Ok outcome_simps make_rom_def nth_list_update_if split: if_splits)
  ultimately show ?thesis using sh r(1) by (auto simp: verify_Ok)
qed

lemma unread_host_calls_are_accepted_witness:
  "verify_interleaving_semantics ex_inst (ex_wit\<lparr>traces := (traces ex_wit)[0 := traces ex_wit ! 0 @ [Burn]]\<rparr>) = Ok ()"
  by (rule unread_host_calls_are_accepted [OF ex_accepted])
    (simp_all add: n_processes_def ex_inst_def)

section \<open>Effect discriminants\<close>

text \<open>
The numeric discriminants of the effects and \<^verbatim>\<open>EffectDiscriminant::try_from\<close> are inverse: every
discriminant decodes to itself, and a number decodes only to the discriminant that has it; every
other number is rejected with itself in the error.
\<close>

theorem discriminants_round_trip:
  "try_from_u64 (discriminant_value d) = Ok d
    \<and> (try_from_u64 v = Ok d \<longleftrightarrow> discriminant_value d = v)
    \<and> ((\<forall>d. discriminant_value d \<noteq> v) \<longleftrightarrow> try_from_u64 v = Err (EffectDiscriminantError v))"
proof -
  have "try_from_u64 v = Ok d \<longleftrightarrow> discriminant_value d = v" for d
    using try_from_u64_Ok try_from_discriminant_value by blast
  moreover have "(\<exists>d. try_from_u64 v = Ok d) \<or> try_from_u64 v = Err (EffectDiscriminantError v)"
    by (simp add: try_from_u64_def)
  ultimately show ?thesis using try_from_discriminant_value by fastforce
qed

end
