(* ===== verification/Ledger_Properties.thy ===== *)
theory Ledger_Properties
  imports Ledger_Verify Interleaving_Properties
begin

text \<open>
  The properties of the ledger: what a transaction does to it, what can never happen to a spent utxo,
  how ownership is recorded, and which transactions are rejected. The examples apply two concrete
  transactions, the second of them the one whose run \<open>Interleaving_Properties\<close> evaluates.
\<close>

section \<open>Examples\<close>

text \<open>A fold library that accepts nothing; the transactions carry the \<^verbatim>\<open>Dummy\<close> proof.\<close>

definition ex_lib :: "(unit, unit, nat) fold_lib" where
  "ex_lib = \<lparr>plan_anchor = (\<lambda>_. None), semantic_state_digest = sum_list,
     preprocess_sparse_seeded = (\<lambda>_ _. Err ''unsupported''), verify_uncompressed_audit = (\<lambda>_ _. Ok ())\<rparr>"

definition ex_proof :: "WitLedgerEffect list \<Rightarrow> ZkWasmProof" where
  "ex_proof t = \<lparr>host_calls_root = LedgerEffectsCommitment 0 0 0 0, trace = t\<rparr>"

text \<open>The first transaction has no input and creates a utxo.\<close>

definition ex_tx1 :: "unit ProvenTransaction" where
  "ex_tx1 = \<lparr>body = \<lparr>inputs = [], continuations = [],
       new_outputs = [\<lparr>out_state = Utxo [Value 1], out_contract_hash = ex_h\<rparr>],
       body_ownership_out = Map.empty, coordination_scripts_keys = [ex_h], body_entrypoint = 1\<rparr>,
     tx_witness = \<lparr>spending_proofs = [],
       new_output_proofs = [ex_proof [Enter (FunctionId 1), Yield (Ref 0)]],
       interleaving_proof = Dummy,
       coordination_scripts = [ex_proof
         [NewRef 1 (Resolved (Ref 0)), RefPush (Vals4 (Value 1) (Value 2) (Value 3) (Value 4)),
          NewUtxo ex_h (Ref 0) (Resolved 0),
          Resume 0 (FunctionId 1) (Ref 0) (Resolved (Ref 0)) (Resolved None), Return]]\<rparr>\<rparr>"

text \<open>The second resumes it and creates a token that it owns.\<close>

definition ex_u0 :: UtxoId where "ex_u0 = \<lparr>uid_contract_hash = ex_h, uid_nonce = 0\<rparr>"

definition ex_tx2 :: "unit ProvenTransaction" where
  "ex_tx2 = \<lparr>body = \<lparr>inputs = [ex_u0], continuations = [Some (Utxo [Value 2])],
       new_outputs = [\<lparr>out_state = Token [Value 1, Value 1, Value 1], out_contract_hash = ex_h\<rparr>],
       body_ownership_out = [1 \<mapsto> 0], coordination_scripts_keys = [ex_h], body_entrypoint = 2\<rparr>,
     tx_witness = \<lparr>spending_proofs = [ex_proof ex_utxo], new_output_proofs = [ex_proof ex_token],
       interleaving_proof = Dummy, coordination_scripts = [ex_proof ex_coord]\<rparr>\<rparr>"

definition ex_led1 :: Ledger where
  "ex_led1 = (case apply_transaction ex_lib Ledger_new ex_tx1 of Ok led \<Rightarrow> led | _ \<Rightarrow> Ledger_new)"

definition ex_led2 :: Ledger where
  "ex_led2 = (case apply_transaction ex_lib ex_led1 ex_tx2 of Ok led \<Rightarrow> led | _ \<Rightarrow> Ledger_new)"

lemma ex_apply1: "apply_transaction ex_lib Ledger_new ex_tx1 = Ok ex_led1"
proof -
  have "case apply_transaction ex_lib Ledger_new ex_tx1 of Ok _ \<Rightarrow> True | _ \<Rightarrow> False" by code_simp
  then show ?thesis by (auto simp: ex_led1_def split: outcome.splits)
qed

lemma ex_apply2: "apply_transaction ex_lib ex_led1 ex_tx2 = Ok ex_led2"
proof -
  have "case apply_transaction ex_lib ex_led1 ex_tx2 of Ok _ \<Rightarrow> True | _ \<Rightarrow> False" by code_simp
  then show ?thesis by (auto simp: ex_led2_def split: outcome.splits)
qed

section \<open>Which transactions apply\<close>

lemma apply_Ok:
  "apply_transaction lib led tx = Ok led' \<longleftrightarrow>
     verify_witness lib led (body tx) (tx_witness tx) = Ok () \<and> apply_body led (body tx) = Ok led'"
  by (auto simp: apply_transaction_def outcome_simps)

lemma applied_body_ok:
  assumes "wf_ledger led" "apply_transaction lib led tx = Ok led'"
  shows "body_ok led (body tx)" "apply_body led (body tx) = Ok led'"
  using assms verified_body(1) by (auto simp: apply_Ok)

text \<open>
C19: On a well-formed ledger whose counters have room, a transaction whose witness verifies applies
exactly when its spent inputs are pairwise different utxos; otherwise the removal of the second
occurrence reports \<^verbatim>\<open>InputNotFound\<close>. It never panics: every owner it names is one of its utxos, by the
ownership invariant of the interleaving machine.
\<close>

theorem verified_transaction_outcome:
  assumes "wf_ledger led" and "counters_fit led (body tx)"
    and "verify_witness lib led (body tx) (tx_witness tx) = Ok ()"
  shows "if \<forall>i j. spent led (body tx) i \<longrightarrow> spent led (body tx) j
              \<longrightarrow> inputs (body tx) ! i = inputs (body tx) ! j \<longrightarrow> i = j
    then \<exists>led'. apply_transaction lib led tx = Ok led'
    else apply_transaction lib led tx = Err InputNotFound"
  using verified_applies [OF assms(1,3,2)] assms(3)
  by (simp add: apply_transaction_def)

lemma ex_fit: "counters_fit Ledger_new (body ex_tx1)"
  by (simp add: counters_fit_def ctr_def Ledger_new_def ex_tx1_def USIZE_LIMIT_def)

lemma verified_transaction_outcome_witness: "\<exists>led'. apply_transaction ex_lib Ledger_new ex_tx1 = Ok led'"
  using verified_transaction_outcome [OF wf_new ex_fit] ex_apply1
  by (simp add: apply_Ok spent_def ex_tx1_def)

section \<open>What a transaction does\<close>

lemma apply_body_ctr:
  assumes "body_ok led b" "apply_body led b = Ok led'"
  shows "ctr led h \<le> ctr led' h"
proof -
  from assms obtain led2 where w: "ext led led2" and e: "contract_counters led' = contract_counters led2"
    by (rule apply_body_effect)
  from w have "ctr led h \<le> ctr led2 h" by (simp add: ext_def)
  with ctr_cong [OF e] show ?thesis by simp
qed

text \<open>
C20: A transaction keeps the ledger well formed (every utxo has a stable identity, its program's hash in
its id, a nonce below the program's counter and a valid token shape), never lowers a counter, leaves
every utxo that is not a spent input as it is, and adds utxos only under ids never allocated before.
\<close>

theorem apply_keeps_ledger_wf:
  assumes "wf_ledger led" and "apply_transaction lib led tx = Ok led'"
  shows "wf_ledger led' \<and> (\<forall>h. ctr led h \<le> ctr led' h)
    \<and> (\<forall>u. utxos led u \<noteq> None \<and> (\<nexists>i. spent led (body tx) i \<and> inputs (body tx) ! i = u) \<longrightarrow>
          utxos led' u = utxos led u \<and> utxo_to_coroutine led' u = utxo_to_coroutine led u)
    \<and> (\<forall>u. utxos led' u \<noteq> None \<and> utxos led u = None \<longrightarrow>
          ctr led (uid_contract_hash u) \<le> uid_nonce u \<and> uid_nonce u < ctr led' (uid_contract_hash u))"
proof -
  note b = applied_body_ok [OF assms]
  have "wf_ledger led'" by (rule apply_body_wf [OF b])
  with apply_body_ctr [OF b] apply_body_frame [OF b] apply_body_fresh [OF b] wf_nonce show ?thesis by blast
qed

lemma apply_keeps_ledger_wf_witness: "wf_ledger ex_led1 \<and> ctr Ledger_new ex_h \<le> ctr ex_led1 ex_h"
  using apply_keeps_ledger_wf [OF wf_new ex_apply1] by blast

text \<open>
C21: Each input of an applied transaction that has no continuation, or one that changes its state, is
removed and its id retired; a changed state lives on under a new id of the same program with the same
stable identity and the same kind; and each new output is a new utxo whose stable identity is its
position in the transaction.
\<close>

theorem apply_moves_utxos:
  assumes "wf_ledger led" and "apply_transaction lib led tx = Ok led'"
  shows "(\<forall>i < length (inputs (body tx)). \<exists>e. utxos led (inputs (body tx) ! i) = Some e
      \<and> (continuations (body tx) ! i \<noteq> Some (entry_state e) \<longrightarrow> retired led' (inputs (body tx) ! i))
      \<and> (\<forall>cont. continuations (body tx) ! i = Some cont \<and> cont \<noteq> entry_state e \<longrightarrow>
            is_token_state cont = is_token_state (entry_state e)
            \<and> (\<exists>u. utxos led u = None
                \<and> utxos led' u = Some \<lparr>entry_state = cont, entry_contract_hash = entry_contract_hash e\<rparr>
                \<and> utxo_to_coroutine led' u = utxo_to_coroutine led (inputs (body tx) ! i))))
    \<and> (\<forall>j < length (new_outputs (body tx)). \<exists>u. utxos led u = None
        \<and> utxos led' u = Some \<lparr>entry_state = out_state (new_outputs (body tx) ! j),
                               entry_contract_hash = out_contract_hash (new_outputs (body tx) ! j)\<rparr>
        \<and> utxo_to_coroutine led' u
            = Some \<lparr>creation_tx_hash = TransactionBody_hash (body tx), creation_output_index = j\<rparr>)"
proof -
  let ?b = "body tx"
  note b = applied_body_ok [OF assms]
  from assms(2) obtain inst wit where a: "interleaving_artifacts led ?b (tx_witness tx) = Ok (inst, wit)"
    by (auto simp: apply_Ok elim: verify_witness_Ok)
  have "\<exists>e. utxos led (inputs ?b ! i) = Some e
      \<and> (continuations ?b ! i \<noteq> Some (entry_state e) \<longrightarrow> retired led' (inputs ?b ! i))
      \<and> (\<forall>cont. continuations ?b ! i = Some cont \<and> cont \<noteq> entry_state e \<longrightarrow>
            is_token_state cont = is_token_state (entry_state e)
            \<and> (\<exists>u. utxos led u = None
                \<and> utxos led' u = Some \<lparr>entry_state = cont, entry_contract_hash = entry_contract_hash e\<rparr>
                \<and> utxo_to_coroutine led' u = utxo_to_coroutine led (inputs ?b ! i)))"
    if i: "i < length (inputs ?b)" for i
  proof -
    from artifacts_Ok(3) [OF a] i obtain e where e: "utxos led (inputs ?b ! i) = Some e"
      "\<forall>cont. continuations ?b ! i = Some cont \<longrightarrow> is_token_state (entry_state e) = is_token_state cont" by blast
    have "retired led' (inputs ?b ! i)" if "continuations ?b ! i \<noteq> Some (entry_state e)"
      using apply_body_spent [OF b, of i] i e(1) that by (simp add: spent_def keeps_state_def)
    with e apply_body_continues [OF b i _ e(1)] show ?thesis by auto
  qed
  with apply_body_creates [OF b] show ?thesis by blast
qed

lemma apply_moves_utxos_witness: "retired ex_led2 ex_u0"
proof -
  have "wf_ledger ex_led1" by (rule apply_body_wf [OF applied_body_ok [OF wf_new ex_apply1]])
  from apply_moves_utxos [OF this ex_apply2] have
    "\<exists>e. utxos ex_led1 ex_u0 = Some e \<and> (Some (Utxo [Value 2]) \<noteq> Some (entry_state e) \<longrightarrow> retired ex_led2 ex_u0)"
    by (auto simp: ex_tx2_def)
  moreover have "case utxos ex_led1 ex_u0 of Some e \<Rightarrow> entry_state e = Utxo [Value 1] | None \<Rightarrow> False" by code_simp
  ultimately show ?thesis by auto
qed

section \<open>History\<close>

inductive ledger_reaches :: "('p, 'prep, 'd) fold_lib \<Rightarrow> Ledger \<Rightarrow> Ledger \<Rightarrow> bool" for lib where
  here: "ledger_reaches lib led led"
| step: "ledger_reaches lib led led1 \<Longrightarrow> apply_transaction lib led1 tx = Ok led2 \<Longrightarrow> ledger_reaches lib led led2"

lemma reaches_wf: "ledger_reaches lib led led' \<Longrightarrow> wf_ledger led \<Longrightarrow> wf_ledger led'"
  by (induction rule: ledger_reaches.induct) (auto dest: applied_body_ok apply_body_wf)

lemma reaches_retired: "ledger_reaches lib led led' \<Longrightarrow> wf_ledger led \<Longrightarrow> retired led u \<Longrightarrow> retired led' u"
  by (induction rule: ledger_reaches.induct)
    (auto intro: apply_body_retired dest: applied_body_ok reaches_wf)

text \<open>
C3: No double spend: once an input is spent by an applied transaction, its id is in no later ledger of
any history of applied transactions, and no later transaction that names it as an input is applied.
\<close>

theorem spent_is_spent_forever:
  assumes "wf_ledger led" and "apply_transaction lib led tx = Ok led1" and "spent led (body tx) i"
    and "ledger_reaches lib led1 led2"
  shows "utxos led2 (inputs (body tx) ! i) = None
    \<and> (inputs (body tx) ! i \<in> set (inputs (body tx')) \<longrightarrow> (\<nexists>led3. apply_transaction lib led2 tx' = Ok led3))"
proof -
  note b = applied_body_ok [OF assms(1,2)]
  have w: "wf_ledger led1" "wf_ledger led2" using apply_body_wf [OF b] reaches_wf [OF assms(4)] by blast+
  have gone: "utxos led2 (inputs (body tx) ! i) = None"
    using reaches_retired [OF assms(4) w(1) apply_body_spent [OF b assms(3)]] by (simp add: retired_def)
  with applied_body_ok(1) [OF w(2), of lib tx'] show ?thesis unfolding body_ok_def by blast
qed

lemma spent_is_spent_forever_witness:
  "utxos ex_led2 ex_u0 = None \<and> (\<nexists>led3. apply_transaction ex_lib ex_led2 ex_tx2 = Ok led3)"
proof -
  have "wf_ledger ex_led1" by (rule apply_body_wf [OF applied_body_ok [OF wf_new ex_apply1]])
  moreover have "case utxos ex_led1 ex_u0 of Some e \<Rightarrow> entry_state e = Utxo [Value 1] | None \<Rightarrow> False" by code_simp
  then have "spent ex_led1 (body ex_tx2) 0" by (auto simp: spent_def keeps_state_def ex_tx2_def split: option.splits)
  ultimately show ?thesis
    using spent_is_spent_forever [OF _ ex_apply2 _ ledger_reaches.here, of 0 ex_tx2] by (auto simp: ex_tx2_def)
qed

section \<open>Ownership\<close>

text \<open>
When the utxos of an applied transaction have pairwise different stable identities, the new
registry gives each of them the owner that the transaction declares (none when it declares none) and
keeps every other entry.
\<close>

theorem apply_records_ownership:
  assumes "wf_ledger led" and "apply_transaction lib led tx = Ok led'"
    and "distinct (stable_ids led (body tx))"
  shows "(\<forall>t < length (stable_ids led (body tx)). \<exists>c. stable_ids led (body tx) ! t = Some c
      \<and> ownership_registry led' c
          = (case body_ownership_out (body tx) t of None \<Rightarrow> None | Some q \<Rightarrow> stable_ids led (body tx) ! q))
    \<and> (\<forall>c. Some c \<notin> set (stable_ids led (body tx)) \<longrightarrow> ownership_registry led' c = ownership_registry led c)"
proof -
  let ?b = "body tx" and ?ids = "stable_ids led (body tx)"
  note b = applied_body_ok [OF assms(1,2)]
  from apply_body_phases [OF b] obtain led1 led2 led3 refs where
    o: "fold_out (update_owner (body_ownership_out ?b) ?ids) [0..<length (inputs ?b) + length (new_outputs ?b)] led2 = Ok led3"
    and rm: "fold_out (remove_input refs) (enumerate 0 (inputs ?b)) led3 = Ok led'"
    and e: "ext led led1" "ext led1 led2" by blast
  have len: "length ?ids = length (inputs ?b) + length (new_outputs ?b)" by (simp add: stable_ids_def)
  have "\<forall>t \<in> set [0..<length ?ids]. \<forall>u \<in> set [0..<length ?ids]. ?ids ! t = ?ids ! u \<longrightarrow> t = u"
    using assms(3) by (simp add: nth_eq_iff_index_eq)
  from owner_registry [OF o [folded len] distinct_upt this]
  have "(\<forall>t < length ?ids. \<exists>c. ?ids ! t = Some c
      \<and> ownership_registry led3 c = (case body_ownership_out ?b t of None \<Rightarrow> None | Some q \<Rightarrow> ?ids ! q))"
    "\<forall>c. Some c \<notin> (!) ?ids ` {..<length ?ids} \<longrightarrow> ownership_registry led3 c = ownership_registry led2 c"
    by (simp_all add: atLeast0LessThan)
  moreover have "(!) ?ids ` {..<length ?ids} = set ?ids" by (auto simp: set_conv_nth)
  moreover have "ownership_registry led' = ownership_registry led3" using remove_inputs [OF rm] by blast
  moreover have "ownership_registry led2 = ownership_registry led" using e by (simp add: ext_def)
  ultimately show ?thesis by simp
qed

lemma apply_records_ownership_witness:
  "distinct (stable_ids Ledger_new (body ex_tx1))
   \<and> ownership_registry ex_led1 \<lparr>creation_tx_hash = Hash 0 0 0 0, creation_output_index = 0\<rparr> = None"
proof -
  have ids: "stable_ids Ledger_new (body ex_tx1) = [Some \<lparr>creation_tx_hash = Hash 0 0 0 0, creation_output_index = 0\<rparr>]"
    by (simp add: stable_ids_def ex_tx1_def TransactionBody_hash_def)
  with apply_records_ownership [OF wf_new ex_apply1] show ?thesis by (auto simp: ex_tx1_def)
qed

text \<open>
Stable identities are not unique, because \<^verbatim>\<open>TransactionBody::hash\<close> is a constant: whenever two
transactions that each create an output are applied one after the other, and the second has no inputs,
the ledger holds two different utxos with the same identity.
\<close>

theorem stable_identities_collide:
  assumes "wf_ledger led" and "apply_transaction lib led tx1 = Ok led1" "apply_transaction lib led1 tx2 = Ok led2"
    and "new_outputs (body tx1) \<noteq> []" "new_outputs (body tx2) \<noteq> []"
    and "inputs (body tx2) = []"
  shows "\<exists>u1 u2. u1 \<noteq> u2 \<and> utxos led2 u1 \<noteq> None \<and> utxos led2 u2 \<noteq> None
    \<and> utxo_to_coroutine led2 u1 = utxo_to_coroutine led2 u2"
proof -
  note b1 = applied_body_ok [OF assms(1,2)]
  have w1: "wf_ledger led1" by (rule apply_body_wf [OF b1])
  note b2 = applied_body_ok [OF w1 assms(3)]
  let ?c = "\<lparr>creation_tx_hash = Hash 0 0 0 0, creation_output_index = 0\<rparr>"
  from apply_body_creates [OF b1, of 0] assms(4) obtain u1 where
    u1: "utxos led1 u1 \<noteq> None" "utxo_to_coroutine led1 u1 = Some ?c"
    by (auto simp: TransactionBody_hash_def)
  from apply_body_creates [OF b2, of 0] assms(5) obtain u2 where
    u2: "utxos led1 u2 = None" "utxos led2 u2 \<noteq> None" "utxo_to_coroutine led2 u2 = Some ?c"
    by (auto simp: TransactionBody_hash_def)
  from apply_body_frame [OF b2 u1(1)] assms(6) have
    "utxos led2 u1 = utxos led1 u1" "utxo_to_coroutine led2 u1 = utxo_to_coroutine led1 u1"
    by (auto simp: spent_def)
  with u1 u2 show ?thesis by metis
qed

lemma stable_identities_collide_witness:
  "\<exists>led u1 u2. apply_transaction ex_lib ex_led1 ex_tx1 = Ok led \<and> u1 \<noteq> u2 \<and> utxos led u1 \<noteq> None
     \<and> utxos led u2 \<noteq> None \<and> utxo_to_coroutine led u1 = utxo_to_coroutine led u2"
proof -
  have "case apply_transaction ex_lib ex_led1 ex_tx1 of Ok _ \<Rightarrow> True | _ \<Rightarrow> False" by code_simp
  then obtain led where l: "apply_transaction ex_lib ex_led1 ex_tx1 = Ok led" by (auto split: outcome.splits)
  from stable_identities_collide [OF wf_new ex_apply1 l] l show ?thesis by (simp add: ex_tx1_def)
qed

text \<open>
The ownership the verifier starts from is the ledger's, in transaction-local numbers: when the
inputs have pairwise different stable identities, input \<open>t\<close> is owned by input \<open>q\<close> exactly when the
registry says so; owners outside the transaction are not seen.
\<close>

theorem input_ownership_reads_registry:
  assumes "inj_on (utxo_to_coroutine led) (set us)" and "distinct us"
    and "\<forall>u \<in> set us. utxo_to_coroutine led u \<noteq> None" and "t < length us"
  shows "input_ownership_for_inputs led us ! t = Some q \<longleftrightarrow>
    q < length us \<and> (\<exists>c. utxo_to_coroutine led (us ! t) = Some c
      \<and> ownership_registry led c = utxo_to_coroutine led (us ! q))"
proof -
  obtain c where c: "utxo_to_coroutine led (us ! t) = Some c" using assms(3,4) by force
  show ?thesis
  proof (cases "ownership_registry led c")
    case None
    have "utxo_to_coroutine led (us ! q) \<noteq> None" if "q < length us" using assms(3) that by simp
    with None c assms(4) show ?thesis by (auto simp: input_ownership_for_inputs_def Let_def)
  next
    case (Some d)
    with c assms(4) coroutine_to_pid_iff [OF assms(1,2), of d q] show ?thesis
      by (auto simp: input_ownership_for_inputs_def Let_def)
  qed
qed

lemma input_ownership_reads_registry_witness:
  "input_ownership_for_inputs ex_led1 [ex_u0] ! 0 \<noteq> Some 0"
proof -
  have "utxo_to_coroutine ex_led1 ex_u0 = Some \<lparr>creation_tx_hash = Hash 0 0 0 0, creation_output_index = 0\<rparr>"
    "ownership_registry ex_led1 \<lparr>creation_tx_hash = Hash 0 0 0 0, creation_output_index = 0\<rparr> = None"
    by code_simp+
  with input_ownership_reads_registry [of ex_led1 "[ex_u0]" 0 0] show ?thesis by simp
qed

end
