(* ===== verification/Lang_Types.thy ===== *)
theory Lang_Types
  imports Prelude
begin

text \<open>
  The types of the language (\<^verbatim>\<open>starstream-types/src/types.rs\<close>), with the identifiers of \<^verbatim>\<open>ast.rs\<close> they
  carry. A struct is a datatype with one constructor, its fields in the order of the source; \<^verbatim>\<open>Arc\<close> is
  dropped, a \<^verbatim>\<open>Vec\<close> is a list. A \<^verbatim>\<open>String\<close> is a list of characters.
\<close>

section \<open>Identifiers and spans\<close>

datatype Span = Span (span_start: nat) (span_end: nat)

definition DUMMY_SPAN :: Span where
  "DUMMY_SPAN = Span 0 0"

datatype Identifier = Identifier (id_name: string) (id_span: Span)

definition Identifier_anon :: "string \<Rightarrow> Identifier" where
  "Identifier_anon name = Identifier name DUMMY_SPAN"

definition span_or :: "Identifier \<Rightarrow> Span \<Rightarrow> Span" where
  "span_or i dflt = (if id_span i = DUMMY_SPAN then dflt else id_span i)"

definition opt_span :: "Identifier \<Rightarrow> Span option" where
  "opt_span i = (if id_span i = DUMMY_SPAN then None else Some (id_span i))"

text \<open>\<^verbatim>\<open>PartialEq for Identifier\<close>: the span does not count.\<close>

definition ident_eq :: "Identifier \<Rightarrow> Identifier \<Rightarrow> bool" where
  "ident_eq a b = (id_name a = id_name b)"

type_synonym ScopedName = "Identifier list"

datatype NameId = NameId u32

datatype TypeVarId = TypeVarId u32

text \<open>\<^verbatim>\<open>TypeVarId::fresh\<close> and \<^verbatim>\<open>NameId::fresh\<close>: the current id, and the counter advanced; the addition is
  checked.\<close>

fun TypeVarId_fresh :: "TypeVarId \<Rightarrow> ('e, TypeVarId \<times> TypeVarId) outcome" where
  "TypeVarId_fresh (TypeVarId n) =
     (if n = - 1 then Panic else Ok (TypeVarId n, TypeVarId (n + 1)))"

fun NameId_fresh :: "NameId \<Rightarrow> ('e, NameId \<times> NameId) outcome" where
  "NameId_fresh (NameId n) = (if n = - 1 then Panic else Ok (NameId n, NameId (n + 1)))"

section \<open>Types\<close>

datatype IntWidth = I8 | I16 | I32 | I64 | U8 | U16 | U32 | U64

datatype FunctionKind = FK_Normal | FK_Emit | FK_Raise | FK_Runtime

datatype StaticFunction = SF_Named NameId | SF_Constructor nat

text \<open>The structs hold types, and types hold the structs: each struct is a datatype over the type of
  the types it holds, tied in \<open>Type\<close>.\<close>

datatype 'ty TypedFunctionParam =
  TypedFunctionParam (param_public: bool) (param_name: Identifier) (param_ty: 'ty) (param_ty_span: Span)

datatype 'ty FunctionType =
  FunctionType (fn_kind: FunctionKind) (fn_name_span: Span) (fn_params: "'ty TypedFunctionParam list")
    (fn_result: 'ty) (fn_callee: "StaticFunction option")

datatype 'ty RecordFieldType = RecordFieldType (field_name: Identifier) (field_ty: 'ty)

datatype 'ty RecordType = RecordType (record_name: Identifier) (record_fields: "'ty RecordFieldType list")

datatype 'ty EnumVariantKind = EV_Unit | EV_Tuple "'ty list" | EV_Struct "'ty RecordFieldType list"

datatype 'ty EnumVariantType =
  EnumVariantType (variant_name: Identifier) (variant_kind: "'ty EnumVariantKind")

datatype 'ty EnumType =
  EnumType (enum_name: Identifier) (enum_variants: "'ty EnumVariantType list") (enum_type_args: "'ty list")

datatype 'ty TypedAbiMethodDecl =
  TypedAbiMethodDecl (method_name: Identifier) (method_id: NameId) (method_ty: "'ty FunctionType")

datatype 'ty AbiType = AbiType (abi_name: Identifier) (abi_methods: "'ty TypedAbiMethodDecl list")

datatype 'ty UtxoType =
  UtxoType (utxo_name: string) (utxo_id: NameId) (possible_abis: "'ty AbiType list") (always_abis: "'ty AbiType list")

datatype 'ty TokenType =
  TokenType (token_name: string) (token_id: NameId) (token_methods: "'ty TypedAbiMethodDecl list")

datatype Type =
    TVar TypeVarId
  | TInt IntWidth
  | TBool
  | TUnit
  | TFunction "Type FunctionType"
  | TTuple "Type list"
  | TRecord "Type RecordType"
  | TEnum "Type EnumType"
  | TUtxoAny
  | TUtxo "Type UtxoType"
  | TTokenAny
  | TToken "Type TokenType"
  | TAbi "Type AbiType"

definition Type_unit :: Type where "Type_unit = TUnit"
definition Type_bool :: Type where "Type_bool = TBool"
definition Type_int :: Type where "Type_int = TInt I64"

section \<open>Integer widths\<close>

fun is_signed :: "IntWidth \<Rightarrow> bool" where
  "is_signed w = (w \<in> {I8, I16, I32, I64})"

fun bit_width :: "IntWidth \<Rightarrow> nat" where
  "bit_width I8 = 8" | "bit_width U8 = 8"
| "bit_width I16 = 16" | "bit_width U16 = 16"
| "bit_width I32 = 32" | "bit_width U32 = 32"
| "bit_width I64 = 64" | "bit_width U64 = 64"

fun display_name :: "IntWidth \<Rightarrow> string" where
  "display_name I8 = ''i8''" | "display_name I16 = ''i16''"
| "display_name I32 = ''i32''" | "display_name I64 = ''i64''"
| "display_name U8 = ''u8''" | "display_name U16 = ''u16''"
| "display_name U32 = ''u32''" | "display_name U64 = ''u64''"

text \<open>\<^verbatim>\<open>i128\<close> values are integers here: every bound below is far inside its range.\<close>

fun min_value :: "IntWidth \<Rightarrow> int" where
  "min_value I8 = - 128" | "min_value I16 = - 32768"
| "min_value I32 = - 2147483648" | "min_value I64 = - 9223372036854775808"
| "min_value U8 = 0" | "min_value U16 = 0" | "min_value U32 = 0" | "min_value U64 = 0"

fun max_value :: "IntWidth \<Rightarrow> int" where
  "max_value I8 = 127" | "max_value I16 = 32767"
| "max_value I32 = 2147483647" | "max_value I64 = 9223372036854775807"
| "max_value U8 = 255" | "max_value U16 = 65535"
| "max_value U32 = 4294967295" | "max_value U64 = 18446744073709551615"

definition fits :: "IntWidth \<Rightarrow> int \<Rightarrow> bool" where
  "fits w value = (value \<ge> min_value w \<and> value \<le> max_value w)"

definition is_64bit :: "IntWidth \<Rightarrow> bool" where
  "is_64bit w = (w = I64 \<or> w = U64)"

definition is_sub32 :: "IntWidth \<Rightarrow> bool" where
  "is_sub32 w = (w = I8 \<or> w = I16 \<or> w = U8 \<or> w = U16)"

lemma fits_range:
  "fits w n \<longleftrightarrow> (if is_signed w then - (2 ^ (bit_width w - 1)) \<le> n \<and> n < 2 ^ (bit_width w - 1)
                 else 0 \<le> n \<and> n < 2 ^ bit_width w)"
  by (cases w) (auto simp: fits_def)

section \<open>Helpers\<close>

fun declaration_keyword :: "FunctionKind \<Rightarrow> string" where
  "declaration_keyword FK_Normal = ''fn''"
| "declaration_keyword FK_Emit = ''event''"
| "declaration_keyword FK_Raise = ''effect''"
| "declaration_keyword FK_Runtime = ''runtime fn''"

fun call_keyword :: "FunctionKind \<Rightarrow> string" where
  "call_keyword FK_Normal = ''''"
| "call_keyword FK_Emit = ''emit''"
| "call_keyword FK_Raise = ''raise''"
| "call_keyword FK_Runtime = ''runtime''"

text \<open>Decimal digits, as \<^verbatim>\<open>format!\<close> prints them.\<close>

fun nat_to_string :: "nat \<Rightarrow> string" where
  "nat_to_string n =
     (let d = [char_of (48 + n mod 10)] in if n < 10 then d else nat_to_string (n div 10) @ d)"

declare nat_to_string.simps [simp del]

definition int_to_string :: "int \<Rightarrow> string" where
  "int_to_string n = (if n < 0 then CHR ''-'' # nat_to_string (nat (- n)) else nat_to_string (nat n))"

definition TypedFunctionParam_anon :: "string \<Rightarrow> Type \<Rightarrow> Type TypedFunctionParam" where
  "TypedFunctionParam_anon name ty = TypedFunctionParam False (Identifier_anon name) ty DUMMY_SPAN"

definition from_types :: "Type list \<Rightarrow> Type TypedFunctionParam list" where
  "from_types types =
     map (\<lambda>(i, ty). TypedFunctionParam_anon (CHR ''p'' # nat_to_string i) ty) (enumerate 0 types)"

definition get_variant :: "Type EnumType \<Rightarrow> string \<Rightarrow> Type EnumVariantType option" where
  "get_variant e name = find (\<lambda>v. id_name (variant_name v) = name) (enum_variants e)"

definition EnumVariantType_unit :: "Identifier \<Rightarrow> Type EnumVariantType" where
  "EnumVariantType_unit name = EnumVariantType name EV_Unit"

definition EnumVariantType_tuple :: "Identifier \<Rightarrow> Type list \<Rightarrow> Type EnumVariantType" where
  "EnumVariantType_tuple name payload = EnumVariantType name (EV_Tuple payload)"

definition EnumVariantType_struct :: "Identifier \<Rightarrow> Type RecordFieldType list \<Rightarrow> Type EnumVariantType" where
  "EnumVariantType_struct name fields = EnumVariantType name (EV_Struct fields)"

fun method_identity :: "Type TypedAbiMethodDecl \<Rightarrow> string" where
  "method_identity (TypedAbiMethodDecl name i ty) = id_name name"

record Scheme =
  scheme_vars :: "TypeVarId list"
  scheme_ty :: Type

definition Scheme_monomorphic :: "Type \<Rightarrow> Scheme" where
  "Scheme_monomorphic ty = \<lparr>scheme_vars = [], scheme_ty = ty\<rparr>"

end
