(* ===== verification/Lang_Patterns.thy ===== *)
theory Lang_Patterns
  imports Lang_Types
begin

text \<open>
  Literals (\<^verbatim>\<open>starstream-types/src/ast.rs\<close>) and typed patterns (\<^verbatim>\<open>typed_ast.rs\<close>), shared by the
  exhaustiveness checker and the decision tree compiler.
\<close>

section \<open>Integer literals\<close>

datatype IntegerRadix = Binary | Octal | Decimal | Hexadecimal

fun radix_prefix :: "IntegerRadix \<Rightarrow> string" where
  "radix_prefix Binary = ''0b''" | "radix_prefix Octal = ''0o''"
| "radix_prefix Decimal = ''''" | "radix_prefix Hexadecimal = ''0x''"

fun radix_base :: "IntegerRadix \<Rightarrow> nat" where
  "radix_base Binary = 2" | "radix_base Octal = 8" | "radix_base Decimal = 10" | "radix_base Hexadecimal = 16"

datatype IntegerLiteral = IntegerLiteral (digits: string) (radix: IntegerRadix)

text \<open>\<^verbatim>\<open>char::to_digit\<close> of the standard library, and \<^verbatim>\<open>i128::from_str_radix\<close>: an optional sign, then at
  least one digit; \<open>None\<close> when a character is not a digit or the value leaves the range of \<^verbatim>\<open>i128\<close>.\<close>

definition to_digit :: "nat \<Rightarrow> char \<Rightarrow> nat option" where
  "to_digit base c =
    (let k = (of_char c :: nat);
         d = (if 48 \<le> k \<and> k \<le> 57 then Some (k - 48)
              else if 97 \<le> k \<and> k \<le> 122 then Some (k - 87)
              else if 65 \<le> k \<and> k \<le> 90 then Some (k - 55)
              else None)
     in case d of None \<Rightarrow> None | Some v \<Rightarrow> if v < base then Some v else None)"

fun digits_value :: "nat \<Rightarrow> nat \<Rightarrow> string \<Rightarrow> nat option" where
  "digits_value base acc [] = Some acc"
| "digits_value base acc (c # cs) =
    (case to_digit base c of None \<Rightarrow> None | Some d \<Rightarrow> digits_value base (acc * base + d) cs)"

definition in_i128 :: "int \<Rightarrow> bool" where
  "in_i128 n = (- (2 ^ 127) \<le> n \<and> n < 2 ^ 127)"

definition i128_from_str_radix :: "string \<Rightarrow> nat \<Rightarrow> int option" where
  "i128_from_str_radix s base =
    (let (negative, ds) = (case s of
           c # cs \<Rightarrow> if c = CHR ''-'' then (True, cs) else if c = CHR ''+'' then (False, cs) else (False, s)
         | [] \<Rightarrow> (False, []))
     in if ds = [] then None
        else case digits_value base 0 ds of
               None \<Rightarrow> None
             | Some v \<Rightarrow> let n = (if negative then - int v else int v) in if in_i128 n then Some n else None)"

definition literal_value :: "IntegerLiteral \<Rightarrow> int option" where
  "literal_value l = i128_from_str_radix (digits l) (radix_base (radix l))"

definition IntegerLiteral_of_int :: "int \<Rightarrow> IntegerLiteral" where
  "IntegerLiteral_of_int n = IntegerLiteral (int_to_string n) Decimal"

datatype Literal = L_Integer IntegerLiteral | L_Boolean bool | L_Unit

section \<open>Typed patterns\<close>

datatype 'p TypedStructPatternField =
  TypedStructPatternField (pat_field_name: Identifier) (pat_field_pattern: 'p)

datatype TypedPattern =
    TP_Binding Identifier
  | TP_Wildcard
  | TP_Literal Literal
  | TP_Struct ScopedName "TypedPattern TypedStructPatternField list"
  | TP_Tuple ScopedName "TypedPattern list"
  | TP_AnonTuple "TypedPattern list"
  | TP_Constant ScopedName nat

text \<open>\<^verbatim>\<open>slice::last\<close> and \<^verbatim>\<open>slice::first\<close>.\<close>

definition last_opt :: "'x list \<Rightarrow> 'x option" where
  "last_opt xs = (if xs = [] then None else Some (last xs))"

definition first_opt :: "'x list \<Rightarrow> 'x option" where
  "first_opt xs = (if xs = [] then None else Some (hd xs))"

section \<open>Decimal notation round trip\<close>

lemma to_digit_decimal: "d < 10 \<Longrightarrow> to_digit 10 (char_of (48 + d)) = Some d"
  by (auto simp: to_digit_def Let_def)

lemma digits_value_append:
  "digits_value b acc (xs @ ys) = (case digits_value b acc xs of None \<Rightarrow> None | Some v \<Rightarrow> digits_value b v ys)"
  by (induction b acc xs rule: digits_value.induct) (auto split: option.splits)

lemma digits_value_nat_to_string: "digits_value 10 0 (nat_to_string n) = Some n"
proof (induction n rule: nat_to_string.induct)
  case (1 n)
  have d: "to_digit 10 (char_of (48 + n mod 10)) = Some (n mod 10)" by (rule to_digit_decimal) simp
  show ?case
  proof (cases "n < 10")
    case True
    with d show ?thesis by (simp add: nat_to_string.simps [of n])
  next
    case False
    with 1 d show ?thesis
      by (simp add: nat_to_string.simps [of n] digits_value_append)
  qed
qed

lemma nat_to_string_chars: "c \<in> set (nat_to_string n) \<Longrightarrow> 48 \<le> (of_char c :: nat) \<and> of_char c \<le> (57 :: nat)"
proof (induction n rule: nat_to_string.induct)
  case (1 n)
  have "n mod 10 < 10" by simp
  then have "48 + n mod 10 < 256" "48 + n mod 10 \<le> 57" by simp_all
  with 1 show ?case
    by (cases "n < 10") (auto simp: nat_to_string.simps [of n] Let_def)
qed

lemma nat_to_string_nonempty: "nat_to_string n \<noteq> []"
  by (simp add: nat_to_string.simps [of n] Let_def)

lemma nat_to_string_unsigned: "nat_to_string n \<noteq> CHR ''-'' # xs" "nat_to_string n \<noteq> CHR ''+'' # xs"
  using nat_to_string_chars [of "CHR ''-''" n] nat_to_string_chars [of "CHR ''+''" n] by auto

text \<open>
An integer literal printed from a number (\<^verbatim>\<open>From<i128> for IntegerLiteral\<close>) has that number as its
value, for every number an \<^verbatim>\<open>i128\<close> can hold.
\<close>

theorem literal_of_int_round_trip:
  assumes "in_i128 n"
  shows "literal_value (IntegerLiteral_of_int n) = Some n"
proof (cases "n < 0")
  case True
  with assms show ?thesis
    by (simp add: literal_value_def IntegerLiteral_of_int_def int_to_string_def i128_from_str_radix_def
        nat_to_string_nonempty digits_value_nat_to_string)
next
  case False
  obtain c cs where c: "nat_to_string (nat n) = c # cs"
    using nat_to_string_nonempty by (cases "nat_to_string (nat n)") auto
  with nat_to_string_unsigned [of "nat n"] have "c \<noteq> CHR ''-''" "c \<noteq> CHR ''+''" by auto
  with c False assms digits_value_nat_to_string [of "nat n"] show ?thesis
    by (simp add: literal_value_def IntegerLiteral_of_int_def int_to_string_def i128_from_str_radix_def
        del: digits_value.simps)
qed

lemma literal_of_int_round_trip_witness: "literal_value (IntegerLiteral_of_int (- 42)) = Some (- 42)"
  by (rule literal_of_int_round_trip) (simp add: in_i128_def)

end
