(* ===== verification/Exhaustiveness.thy ===== *)
theory Exhaustiveness
  imports Lang_Patterns
begin

text \<open>
  Exhaustiveness and redundancy checking of pattern matching
  (\<^verbatim>\<open>starstream-compiler/src/typecheck/exhaustiveness.rs\<close>): constructor sets, the pattern matrix and its
  specializations, the usefulness test, the missing patterns, the lowering of typed patterns and the
  check of a match expression.

  \<^verbatim>\<open>Matrix::push\<close> asserts in debug builds that a row has one pattern per column; the assertion is not a
  branch here, and \<open>Exhaustiveness_Sound\<close> proves that no row that the algorithm pushes violates it.
\<close>

section \<open>Constructors\<close>

datatype SimpleLiteral = SL_Int int | SL_Bool bool | SL_Unit

datatype Ctor =
    C_EnumVariant string nat string
  | C_Record string
  | C_Tuple nat

datatype SimplePat = SP_Wildcard | SP_Ctor Ctor "SimplePat list" | SP_Literal SimpleLiteral

record CtorInfo =
  ci_ctor :: Ctor
  ci_arity :: nat
  ci_field_types :: "Type list"

type_synonym CtorSet = "CtorInfo list"

definition cs_infinite :: CtorSet where
  "cs_infinite = []"

fun kind_fields :: "Type EnumVariantKind \<Rightarrow> Type list" where
  "kind_fields EV_Unit = []"
| "kind_fields (EV_Tuple types) = types"
| "kind_fields (EV_Struct fs) = map field_ty fs"

definition for_enum :: "Type EnumType \<Rightarrow> CtorSet" where
  "for_enum e =
     map (\<lambda>(index, variant). let field_types = kind_fields (variant_kind variant) in
            \<lparr>ci_ctor = C_EnumVariant (id_name (enum_name e)) index (id_name (variant_name variant)),
             ci_arity = length field_types, ci_field_types = field_types\<rparr>)
         (enumerate 0 (enum_variants e))"

definition for_record :: "Type RecordType \<Rightarrow> CtorSet" where
  "for_record r =
     [\<lparr>ci_ctor = C_Record (id_name (record_name r)), ci_arity = length (record_fields r),
       ci_field_types = map field_ty (record_fields r)\<rparr>]"

definition for_bool :: CtorSet where
  "for_bool =
     [\<lparr>ci_ctor = C_EnumVariant ''bool'' 0 ''false'', ci_arity = 0, ci_field_types = []\<rparr>,
      \<lparr>ci_ctor = C_EnumVariant ''bool'' 1 ''true'', ci_arity = 0, ci_field_types = []\<rparr>]"

fun for_type :: "Type \<Rightarrow> CtorSet option" where
  "for_type (TEnum e) = Some (for_enum e)"
| "for_type (TRecord r) = Some (for_record r)"
| "for_type TBool = Some for_bool"
| "for_type (TTuple items) =
     Some [\<lparr>ci_ctor = C_Tuple (length items), ci_arity = length items, ci_field_types = items\<rparr>]"
| "for_type _ = Some cs_infinite"

definition get_info :: "CtorSet \<Rightarrow> Ctor \<Rightarrow> CtorInfo option" where
  "get_info cset ctor = find (\<lambda>info. ci_ctor info = ctor) cset"

lemma for_enum_get:
  "set (for_enum e) = (\<lambda>i.
      \<lparr>ci_ctor = C_EnumVariant (id_name (enum_name e)) i (id_name (variant_name (enum_variants e ! i))),
       ci_arity = length (kind_fields (variant_kind (enum_variants e ! i))),
       ci_field_types = kind_fields (variant_kind (enum_variants e ! i))\<rparr>) ` {..<length (enum_variants e)}"
  by (force simp: for_enum_def Let_def in_set_enumerate_eq)

section \<open>The pattern matrix\<close>

type_synonym PatternRow = "SimplePat list"

record Matrix =
  m_rows :: "PatternRow list"
  m_col_types :: "Type list"

definition Matrix_new :: "Type list \<Rightarrow> Matrix" where
  "Matrix_new col_types = \<lparr>m_rows = [], m_col_types = col_types\<rparr>"

definition Matrix_push :: "Matrix \<Rightarrow> PatternRow \<Rightarrow> Matrix" where
  "Matrix_push m row = m\<lparr>m_rows := m_rows m @ [row]\<rparr>"

definition m_is_empty :: "Matrix \<Rightarrow> bool" where
  "m_is_empty m = (m_rows m = [])"

definition col_type :: "Matrix \<Rightarrow> nat \<Rightarrow> Type option" where
  "col_type m index = (if index < length (m_col_types m) then Some (m_col_types m ! index) else None)"

text \<open>The loops that collect what the first column holds, without repetition.\<close>

fun row_ctor :: "PatternRow \<Rightarrow> Ctor option" where
  "row_ctor (SP_Ctor ctor args # ps) = Some ctor"
| "row_ctor _ = None"

fun row_literal :: "PatternRow \<Rightarrow> SimpleLiteral option" where
  "row_literal (SP_Literal lit # ps) = Some lit"
| "row_literal _ = None"

fun collect_heads :: "(PatternRow \<Rightarrow> 'h option) \<Rightarrow> PatternRow list \<Rightarrow> 'h list \<Rightarrow> 'h list" where
  "collect_heads h [] acc = acc"
| "collect_heads h (row # rows) acc =
     collect_heads h rows
       (case h row of None \<Rightarrow> acc | Some x \<Rightarrow> if x \<in> set acc then acc else acc @ [x])"

definition collect_first_column_ctors :: "Matrix \<Rightarrow> Ctor list" where
  "collect_first_column_ctors m = collect_heads row_ctor (m_rows m) []"

definition collect_first_column_literals :: "Matrix \<Rightarrow> SimpleLiteral list" where
  "collect_first_column_literals m = collect_heads row_literal (m_rows m) []"

definition has_literals_in_first_column :: "Matrix \<Rightarrow> bool" where
  "has_literals_in_first_column m = list_ex (\<lambda>row. row_literal row \<noteq> None) (m_rows m)"

text \<open>What one row becomes: \<open>None\<close> when it is skipped.\<close>

fun specialize_row :: "Ctor \<Rightarrow> nat \<Rightarrow> PatternRow \<Rightarrow> PatternRow option" where
  "specialize_row ctor arity [] = None"
| "specialize_row ctor arity (SP_Wildcard # ps) = Some (replicate arity SP_Wildcard @ ps)"
| "specialize_row ctor arity (SP_Ctor c args # ps) = (if c = ctor then Some (args @ ps) else None)"
| "specialize_row ctor arity (SP_Literal l # ps) = None"

fun default_row :: "PatternRow \<Rightarrow> PatternRow option" where
  "default_row (SP_Wildcard # ps) = Some ps"
| "default_row _ = None"

fun specialize_literal_row :: "SimpleLiteral \<Rightarrow> PatternRow \<Rightarrow> PatternRow option" where
  "specialize_literal_row lit (SP_Wildcard # ps) = Some ps"
| "specialize_literal_row lit (SP_Literal l # ps) = (if l = lit then Some ps else None)"
| "specialize_literal_row lit _ = None"

definition specialize :: "Matrix \<Rightarrow> Ctor \<Rightarrow> CtorInfo \<Rightarrow> Matrix" where
  "specialize m ctor info =
     \<lparr>m_rows = List.map_filter (specialize_row ctor (ci_arity info)) (m_rows m),
      m_col_types = ci_field_types info @ drop 1 (m_col_types m)\<rparr>"

definition default_matrix :: "Matrix \<Rightarrow> Matrix" where
  "default_matrix m =
     \<lparr>m_rows = List.map_filter default_row (m_rows m), m_col_types = drop 1 (m_col_types m)\<rparr>"

definition specialize_literal :: "Matrix \<Rightarrow> SimpleLiteral \<Rightarrow> Matrix" where
  "specialize_literal m lit =
     \<lparr>m_rows = List.map_filter (specialize_literal_row lit) (m_rows m),
      m_col_types = drop 1 (m_col_types m)\<rparr>"

section \<open>Termination\<close>

text \<open>The columns shrink: a column is dropped, or replaced by the fields of one of its constructors.\<close>

definition cols_size :: "Type list \<Rightarrow> nat" where
  "cols_size ts = size_list size ts"

lemma cols_size_simps [simp]:
  "cols_size [] = 0" "cols_size (t # ts) = Suc (size t + cols_size ts)"
  "cols_size (ts @ us) = cols_size ts + cols_size us"
  by (simp_all add: cols_size_def)

lemma kind_fields_size: "cols_size (kind_fields k) \<le> size_EnumVariantKind size k"
proof (cases k)
  case (EV_Struct flds)
  have "size_list size (map field_ty flds) \<le> size_list (size_RecordFieldType size) flds"
  proof (induction flds)
    case (Cons f fs)
    then show ?case by (cases f) simp
  qed simp
  then show ?thesis by (simp add: EV_Struct cols_size_def)
qed (simp_all add: cols_size_def)

lemma ctor_fields_size:
  assumes "for_type ty = Some cset" and "info \<in> set cset"
  shows "cols_size (ci_field_types info) < Suc (size ty)"
proof (cases ty)
  case (TEnum e)
  with assms obtain i v where v: "(i, v) \<in> set (enumerate 0 (enum_variants e))"
    "ci_field_types info = kind_fields (variant_kind v)"
    by (auto simp: for_enum_def Let_def)
  then have "v \<in> set (enum_variants e)" by (auto simp: in_set_enumerate_eq)
  then have "size_EnumVariantType size v < Suc (size_list (size_EnumVariantType size) (enum_variants e))"
    by (induction "enum_variants e" arbitrary: e) (fastforce simp: size_list_estimation' less_Suc_eq_le)+
  moreover have "size_EnumVariantKind size (variant_kind v) \<le> size_EnumVariantType size v"
    by (cases v) simp
  moreover have "size_list (size_EnumVariantType size) (enum_variants e) \<le> size_EnumType size e"
    by (cases e) simp
  ultimately show ?thesis using kind_fields_size [of "variant_kind v"] v(2) TEnum by simp
next
  case (TRecord r)
  have "size_list size (map field_ty flds) \<le> size_list (size_RecordFieldType size) flds"
    for flds :: "Type RecordFieldType list"
  proof (induction flds)
    case (Cons f fs)
    then show ?case by (cases f) simp
  qed simp
  from this [of "record_fields r"] TRecord assms show ?thesis
    by (cases r) (auto simp: for_record_def cols_size_def less_Suc_eq_le)
qed (use assms in \<open>auto simp: for_bool_def cs_infinite_def cols_size_def\<close>)

lemma get_info_in: "get_info cset ctor = Some info \<Longrightarrow> info \<in> set cset \<and> ci_ctor info = ctor"
  by (auto simp: get_info_def find_Some_iff)

lemma col_type_0: "col_type m 0 = (case m_col_types m of [] \<Rightarrow> None | ty # tys \<Rightarrow> Some ty)"
  by (auto simp: col_type_def split: list.splits)

lemma specialize_smaller:
  assumes "col_type m 0 = Some ty" "for_type ty = Some cset" "info \<in> set cset"
  shows "cols_size (m_col_types (specialize m ctor info)) < cols_size (m_col_types m)"
  using assms ctor_fields_size [OF assms(2,3)]
  by (auto simp: specialize_def col_type_0 split: list.splits)

lemma drop_col_smaller:
  assumes "col_type m 0 = Some ty"
  shows "cols_size (drop 1 (m_col_types m)) < cols_size (m_col_types m)"
  using assms by (auto simp: col_type_0 split: list.splits)

section \<open>Usefulness\<close>

function is_useful :: "Matrix \<Rightarrow> SimplePat list \<Rightarrow> bool" where
  "is_useful m [] = m_is_empty m"
| "is_useful m (p # ps) =
    (case col_type m 0 of
       None \<Rightarrow> m_is_empty m
     | Some ty \<Rightarrow>
       (case for_type ty of
          None \<Rightarrow> True
        | Some cset \<Rightarrow>
          (case p of
             SP_Ctor ctor args \<Rightarrow>
               (case get_info cset ctor of
                  None \<Rightarrow> True
                | Some info \<Rightarrow> is_useful (specialize m ctor info) (args @ ps))
           | SP_Wildcard \<Rightarrow>
               if has_literals_in_first_column m then
                 (let seen = collect_first_column_literals m in
                  if ty = TBool \<and> SL_Bool True \<in> set seen \<and> SL_Bool False \<in> set seen
                  then is_useful (specialize_literal m (SL_Bool True)) ps
                       \<or> is_useful (specialize_literal m (SL_Bool False)) ps
                  else is_useful (default_matrix m) ps)
               else if cset = [] then is_useful (default_matrix m) ps
               else if length (collect_first_column_ctors m) = length cset
               then list_ex (\<lambda>info. is_useful (specialize m (ci_ctor info) info)
                                      (replicate (ci_arity info) SP_Wildcard @ ps)) cset
               else is_useful (default_matrix m) ps
           | SP_Literal lit \<Rightarrow> is_useful (specialize_literal m lit) ps)))"
  by pat_completeness auto
termination
  by (relation "measure (\<lambda>(m, ps). cols_size (m_col_types m))")
    (auto simp: specialize_literal_def default_matrix_def dest: get_info_in
      intro: specialize_smaller drop_col_smaller [simplified])

declare is_useful.simps(2) [simp del]

section \<open>Missing patterns\<close>

fun wrap_ctor :: "Ctor \<Rightarrow> nat \<Rightarrow> PatternRow \<Rightarrow> PatternRow" where
  "wrap_ctor ctor arity row = SP_Ctor ctor (take arity row) # drop arity row"

function collect_missing_patterns :: "Matrix \<Rightarrow> nat \<Rightarrow> PatternRow list" where
  "collect_missing_patterns m n =
    (if n = 0 then if m_is_empty m then [[]] else []
     else case col_type m 0 of
       None \<Rightarrow> [replicate n SP_Wildcard]
     | Some ty \<Rightarrow>
       if has_literals_in_first_column m \<and> ty = TBool then
         (let seen = collect_first_column_literals m;
              has_true = SL_Bool True \<in> set seen;
              has_false = SL_Bool False \<in> set seen
          in if has_true \<and> has_false then
               concat (map (\<lambda>lit. map (\<lambda>row. SP_Literal lit # row)
                                    (collect_missing_patterns (specialize_literal m lit) (n - 1)))
                         [SL_Bool True, SL_Bool False])
             else
               (let tail_missing = collect_missing_patterns (default_matrix m) (n - 1)
                in (if has_false then [] else map (\<lambda>t. SP_Literal (SL_Bool False) # t) tail_missing)
                   @ (if has_true then [] else map (\<lambda>t. SP_Literal (SL_Bool True) # t) tail_missing)))
       else case for_type ty of
         None \<Rightarrow> [replicate n SP_Wildcard]
       | Some cset \<Rightarrow>
         (let seen_ctors = collect_first_column_ctors m; num_seen = length seen_ctors
          in if num_seen = 0 then
               map (\<lambda>rest. SP_Wildcard # rest) (collect_missing_patterns (default_matrix m) (n - 1))
             else if num_seen < length cset then
               (let tail_missing = collect_missing_patterns (default_matrix m) (n - 1)
                in concat (map (\<lambda>info. if ci_ctor info \<in> set seen_ctors then []
                     else map (\<lambda>t. SP_Ctor (ci_ctor info) (replicate (ci_arity info) SP_Wildcard) # t)
                            tail_missing) cset))
             else
               concat (map (\<lambda>info. map (wrap_ctor (ci_ctor info) (ci_arity info))
                   (collect_missing_patterns (specialize m (ci_ctor info) info) (ci_arity info + n - 1)))
                 cset)))"
  by pat_completeness auto
termination
  by (relation "measure (\<lambda>(m, n). cols_size (m_col_types m))")
    (auto simp: specialize_literal_def default_matrix_def
      intro: specialize_smaller drop_col_smaller [simplified])

declare collect_missing_patterns.simps [simp del]

lemma for_type_total: "\<exists>cset. for_type ty = Some cset"
  by (cases ty) auto

text \<open>The branches of \<open>collect_missing_patterns\<close>, one equation each.\<close>

lemma missing_0: "collect_missing_patterns m 0 = (if m_is_empty m then [[]] else [])"
  by (simp add: collect_missing_patterns.simps)

lemma missing_no_column:
  "n \<noteq> 0 \<Longrightarrow> col_type m 0 = None \<Longrightarrow> collect_missing_patterns m n = [replicate n SP_Wildcard]"
  by (simp add: collect_missing_patterns.simps)

lemma missing_bool_both:
  assumes "n \<noteq> 0" "col_type m 0 = Some TBool" "has_literals_in_first_column m"
    and "{SL_Bool True, SL_Bool False} \<subseteq> set (collect_first_column_literals m)"
  shows "collect_missing_patterns m n =
    map ((#) (SP_Literal (SL_Bool True))) (collect_missing_patterns (specialize_literal m (SL_Bool True)) (n - 1))
    @ map ((#) (SP_Literal (SL_Bool False))) (collect_missing_patterns (specialize_literal m (SL_Bool False)) (n - 1))"
  using assms by (subst collect_missing_patterns.simps) (simp add: Let_def)

lemma missing_bool_partial:
  assumes "n \<noteq> 0" "col_type m 0 = Some TBool" "has_literals_in_first_column m"
    and "\<not> {SL_Bool True, SL_Bool False} \<subseteq> set (collect_first_column_literals m)"
  shows "collect_missing_patterns m n =
    concat (map (\<lambda>b. if SL_Bool b \<in> set (collect_first_column_literals m) then []
                     else map ((#) (SP_Literal (SL_Bool b))) (collect_missing_patterns (default_matrix m) (n - 1)))
                [False, True])"
  using assms by (subst collect_missing_patterns.simps) (auto simp add: Let_def)

lemma missing_unseen:
  assumes "n \<noteq> 0" "col_type m 0 = Some ty" "for_type ty = Some cset"
    "\<not> (has_literals_in_first_column m \<and> ty = TBool)" "collect_first_column_ctors m = []"
  shows "collect_missing_patterns m n = map ((#) SP_Wildcard) (collect_missing_patterns (default_matrix m) (n - 1))"
  by (subst collect_missing_patterns.simps) (simp add: assms Let_def del: One_nat_def cong: if_cong)

lemma missing_incomplete:
  assumes "n \<noteq> 0" "col_type m 0 = Some ty" "for_type ty = Some cset"
    "\<not> (has_literals_in_first_column m \<and> ty = TBool)"
    and "collect_first_column_ctors m \<noteq> []" "length (collect_first_column_ctors m) < length cset"
  shows "collect_missing_patterns m n =
    concat (map (\<lambda>info. if ci_ctor info \<in> set (collect_first_column_ctors m) then []
       else map ((#) (SP_Ctor (ci_ctor info) (replicate (ci_arity info) SP_Wildcard)))
              (collect_missing_patterns (default_matrix m) (n - 1))) cset)"
  by (subst collect_missing_patterns.simps) (simp add: assms Let_def del: One_nat_def cong: if_cong)

lemma missing_complete:
  assumes "n \<noteq> 0" "col_type m 0 = Some ty" "for_type ty = Some cset"
    "\<not> (has_literals_in_first_column m \<and> ty = TBool)"
    and "collect_first_column_ctors m \<noteq> []" "\<not> length (collect_first_column_ctors m) < length cset"
  shows "collect_missing_patterns m n =
    concat (map (\<lambda>info. map (wrap_ctor (ci_ctor info) (ci_arity info))
       (collect_missing_patterns (specialize m (ci_ctor info) info) (ci_arity info + n - 1))) cset)"
  by (subst collect_missing_patterns.simps) (simp add: assms Let_def del: One_nat_def cong: if_cong)

text \<open>\<^verbatim>\<open>split_at\<close> panics beyond the end of a row; the rows are as long as asked for, so it never does.\<close>

lemma missing_cases [case_names zero no_column bool_both bool_partial unseen incomplete complete]:
  fixes m n
  assumes "n = 0 \<Longrightarrow> P"
    and "n \<noteq> 0 \<Longrightarrow> col_type m 0 = None \<Longrightarrow> P"
    and "n \<noteq> 0 \<Longrightarrow> col_type m 0 = Some TBool \<Longrightarrow> has_literals_in_first_column m \<Longrightarrow>
      {SL_Bool True, SL_Bool False} \<subseteq> set (collect_first_column_literals m) \<Longrightarrow> P"
    and "n \<noteq> 0 \<Longrightarrow> col_type m 0 = Some TBool \<Longrightarrow> has_literals_in_first_column m \<Longrightarrow>
      \<not> {SL_Bool True, SL_Bool False} \<subseteq> set (collect_first_column_literals m) \<Longrightarrow> P"
    and "\<And>ty cset. n \<noteq> 0 \<Longrightarrow> col_type m 0 = Some ty \<Longrightarrow> for_type ty = Some cset \<Longrightarrow>
      \<not> (has_literals_in_first_column m \<and> ty = TBool) \<Longrightarrow> collect_first_column_ctors m = [] \<Longrightarrow> P"
    and "\<And>ty cset. n \<noteq> 0 \<Longrightarrow> col_type m 0 = Some ty \<Longrightarrow> for_type ty = Some cset \<Longrightarrow>
      \<not> (has_literals_in_first_column m \<and> ty = TBool) \<Longrightarrow> collect_first_column_ctors m \<noteq> [] \<Longrightarrow>
      length (collect_first_column_ctors m) < length cset \<Longrightarrow> P"
    and "\<And>ty cset. n \<noteq> 0 \<Longrightarrow> col_type m 0 = Some ty \<Longrightarrow> for_type ty = Some cset \<Longrightarrow>
      \<not> (has_literals_in_first_column m \<and> ty = TBool) \<Longrightarrow> collect_first_column_ctors m \<noteq> [] \<Longrightarrow>
      \<not> length (collect_first_column_ctors m) < length cset \<Longrightarrow> P"
  shows P
  using assms for_type_total by (metis option.exhaust)

lemma missing_length: "row \<in> set (collect_missing_patterns m n) \<Longrightarrow> length row = n"
proof (induction "cols_size (m_col_types m)" arbitrary: m n row rule: less_induct)
  case less
  have dec: "col_type m 0 = Some ty \<Longrightarrow> cols_size (m_col_types (default_matrix m)) < cols_size (m_col_types m)"
    "col_type m 0 = Some ty \<Longrightarrow> cols_size (m_col_types (specialize_literal m lit)) < cols_size (m_col_types m)"
    for ty lit by (simp_all add: default_matrix_def specialize_literal_def drop_col_smaller [simplified])
  show ?case
  proof (cases rule: missing_cases [where m = m and n = n])
    case bool_both
    with less.prems show ?thesis
      by (auto simp: missing_bool_both dest!: less.hyps [OF dec(2) [OF bool_both(2)]])
  next
    case bool_partial
    with less.prems show ?thesis
      by (auto simp: missing_bool_partial dest!: less.hyps [OF dec(1) [OF bool_partial(2)]] split: if_splits)
  next
    case (unseen ty cset)
    with less.prems show ?thesis
      by (auto simp: missing_unseen dest!: less.hyps [OF dec(1) [OF unseen(2)]])
  next
    case (incomplete ty cset)
    with less.prems show ?thesis
      by (auto simp: missing_incomplete dest!: less.hyps [OF dec(1) [OF incomplete(2)]] split: if_splits)
  next
    case (complete ty cset)
    with less.prems obtain info r where r: "info \<in> set cset"
      "r \<in> set (collect_missing_patterns (specialize m (ci_ctor info) info) (ci_arity info + n - 1))"
      "row = wrap_ctor (ci_ctor info) (ci_arity info) r"
      by (auto simp: missing_complete)
    with less.hyps [OF specialize_smaller [OF complete(2,3) r(1)] r(2)] complete(1) show ?thesis by simp
  qed (use less.prems in \<open>auto simp: missing_0 missing_no_column split: if_splits\<close>)
qed

end
