(* ===== verification/Lang_Ast.thy ===== *)
theory Lang_Ast
  imports Lang_Patterns
begin

text \<open>
  The abstract syntax tree that the parser builds (\<^verbatim>\<open>starstream-types/src/ast.rs\<close>), a datatype per enum and
  per struct with the fields in the order of the source. \<^verbatim>\<open>Box\<close> is dropped.
\<close>

datatype 'a Spanned = Spanned (sp_node: 'a) (sp_span: Span)

datatype Comment = Comment Span

datatype UnaryOp = Negate | Not

datatype BinaryOp =
    Multiply | Divide | Remainder | Add | Subtract
  | Less | LessEqual | Greater | GreaterEqual | Equal | NotEqual | And | Or

section \<open>Imports\<close>

datatype ImportNamedItem = ImportNamedItem (imported: Identifier) (import_local: Identifier)

datatype ImportItems = II_Named "ImportNamedItem list" | II_Namespace Identifier

datatype ImportPath = ImportPath (import_value: string) (import_span: Span)

datatype ImportSource =
    IS_Wit (wit_namespace: Identifier) (wit_package: Identifier) (wit_interface: "Identifier option")
  | IS_Path ImportPath

datatype ImportDef = ImportDef (import_items: ImportItems) (import_from: ImportSource)

section \<open>Types and patterns\<close>

datatype TypeAnnotation =
    TA_Named ScopedName "TypeAnnotation list"
  | TA_Tuple "TypeAnnotation list" Span

datatype 'p StructPatternField = StructPatternField Identifier 'p

datatype Pattern =
    P_Name ScopedName
  | P_Wildcard Span
  | P_Literal Literal Span
  | P_Struct ScopedName "Pattern StructPatternField list"
  | P_Tuple ScopedName "Pattern list"
  | P_AnonTuple "Pattern list" Span

section \<open>Statements and expressions\<close>

datatype 'e StructFieldInitializer = StructFieldInitializer Identifier "'e Spanned"

datatype 'b MatchArm = MatchArm Pattern 'b Span

datatype (plugins only: size code) Expr =
    E_Grouping "Expr Spanned"
  | E_ScopedName ScopedName
  | E_Literal Literal
  | E_Tuple "Expr Spanned list"
  | E_StructConstructor ScopedName "Expr StructFieldInitializer list"
  | E_Disclose "Expr Spanned"
  | E_Emit "Expr Spanned" "Expr Spanned list"
  | E_Raise "Expr Spanned" "Expr Spanned list"
  | E_Runtime "Expr Spanned" "Expr Spanned list"
  | E_Yield "Identifier list"
  | E_Block Block
  | E_If "(IfCondition \<times> Block) list" "Block option"
  | E_Match "Expr Spanned" "Block MatchArm list"
  | E_Call "Expr Spanned" "Expr Spanned list"
  | E_FieldAccess "Expr Spanned" Identifier
  | E_Unary UnaryOp "Expr Spanned"
  | E_Binary BinaryOp "Expr Spanned" "Expr Spanned"
and IfCondition =
    IC_Bool "Expr Spanned"
  | IC_Is Identifier Identifier
and Block = Block "Statement Spanned list" "Expr Spanned option" Span
and Statement =
    S_VariableDeclaration bool bool Pattern "TypeAnnotation option" "Expr Spanned" "Block option"
  | S_Assignment Identifier "Expr Spanned"
  | S_While "Expr Spanned" Block
  | S_Expression "Expr Spanned"
  | S_Return "Expr Spanned option"
  | S_Resume
  | S_TryWith Block "(ScopedName \<times> Pattern list \<times> Block) list"

section \<open>Definitions\<close>

datatype FunctionExport = FE_Script | FE_UtxoMain | FE_TokenMint | FE_TokenBurn

datatype FunctionParam = FunctionParam (fp_public: bool) (fp_name: Identifier) (fp_ty: TypeAnnotation)

datatype FunctionDef =
  FunctionDef (fd_export: "FunctionExport option") (fd_name: Identifier) (fd_params: "FunctionParam list")
    (fd_return_type: "TypeAnnotation option") (fd_body: Block)

datatype StructField = StructField Identifier TypeAnnotation Span

datatype StructDef = StructDef Identifier "StructField list"

datatype EnumVariantPayload = EP_Unit | EP_Tuple "TypeAnnotation list" | EP_Struct "StructField list"

datatype EnumVariant = EnumVariantDef Identifier EnumVariantPayload Span

datatype EnumDef = EnumDef Identifier "EnumVariant list"

datatype UtxoGlobal = UtxoGlobal Identifier TypeAnnotation

datatype UtxoPart = UP_Storage "UtxoGlobal list" | UP_Function FunctionDef | UP_AbiImpl Identifier "FunctionDef list"

datatype UtxoDef = UtxoDef Identifier "UtxoPart list"

datatype TokenGlobal = TokenGlobal bool Identifier TypeAnnotation

datatype TokenPart = KP_Storage "TokenGlobal list" | KP_Function FunctionDef | KP_AbiImpl Identifier "FunctionDef list"

datatype TokenDef = TokenDef Identifier "TokenPart list"

datatype EventDef = EventDef Identifier "FunctionParam list" Span

datatype EffectDef = EffectDef Identifier "FunctionParam list" "TypeAnnotation option" Span

datatype AbiMethodDecl = AbiMethodDecl Identifier "FunctionParam list" "TypeAnnotation option" Span

datatype AbiPart = AP_Event EventDef | AP_Effect EffectDef | AP_FnDecl AbiMethodDecl

datatype AbiDef = AbiDef Identifier "AbiPart list"

datatype Definition =
    D_Import ImportDef
  | D_Function FunctionDef
  | D_Struct StructDef
  | D_Enum EnumDef
  | D_Utxo UtxoDef
  | D_Token TokenDef
  | D_Abi AbiDef
  | D_Contract

record Program =
  shebang :: "Comment option"
  definitions :: "Definition Spanned list"

end
