(* ===== verification/Type_Errors.thy ===== *)
theory Type_Errors
  imports Lang_Ast
begin

text \<open>
  Errors of the type checker (\<^verbatim>\<open>typecheck/errors.rs\<close>, \<^verbatim>\<open>typecheck/diagnostic.rs\<close>): a kind, the span it
  points to with an optional message, labelled secondary spans and a help text. The kinds are all of
  \<^verbatim>\<open>TypeErrorKind\<close>, in the order of the source. Warnings (\<^verbatim>\<open>typecheck/warnings.rs\<close>) have the same shape.
\<close>

datatype ConditionContext = CC_If | CC_While

datatype EnumPayloadKind = EPK_Unit | EPK_Tuple nat | EPK_Struct nat

datatype (plugins only: size code) TypeErrorKind =
    UnknownName string
  | Redeclaration string
  | AssignmentMismatch string Type Type
  | AssignmentToImmutable string
  | UnaryMismatch UnaryOp Type Type
  | BinaryOperandMismatch BinaryOp Type Type
  | ConditionNotBool ConditionContext Type
  | GeneralMismatch Type Type
  | ReturnMismatch Type Type
  | MissingReturn Type
  | UnknownTypeAnnotation string
  | TypeAlreadyDefined string
  | FunctionAlreadyDefined string
  | DuplicateStructField string string
  | DuplicateEnumVariant string string
  | UnknownStruct string
  | UnknownNamespace string
  | UnknownStructField string string
  | DuplicateStructLiteralField string
  | MissingStructField string string
  | FieldAccessNotStruct Type
  | FieldAccessUnknownField string Type
  | UnknownEnumVariant string string
  | EnumPayloadMismatch string string EnumPayloadKind EnumPayloadKind
  | PatternEnumMismatch string Type
  | PatternTupleMismatch nat Type
  | RefutableLetPattern "string list"
  | LetElseDoesNotDiverge
  | NonExhaustiveMatch "string list"
  | UnreachablePattern
  | NotAFunction Type
  | ArityMismatch nat nat
  | ArgumentTypeMismatch Type Type nat "Span option"
  | UnknownEvent string
  | EventArityMismatch string nat nat
  | EventArgumentTypeMismatch string Type Type nat "Span option"
  | UnknownImportPackage string string
  | UnknownImportInterface string string string
  | UnknownImportFunction string string
  | EmitRaiseRuntimeUnneeded string FunctionKind
  | EmitRaiseRuntimeNeeded string FunctionKind
  | EmitRaiseRuntimeMismatch string FunctionKind FunctionKind
  | WithRequiresEffect string FunctionKind
  | ExplicitDisclosureRequiredForPublicBinding string
  | WrongGenericArity string nat nat
  | ReturnTypeNotAllowed
  | LiteralOutOfRange string Type
  | IsCheckRequiresUtxo string Type
  | UnknownAbi string
  | AbiMethodNotFound string string
  | LinearMethodCallViolation string string
  | UnknownPathExport string string
  | YieldOutsideMainFn
  | TokenMissingMintFn string
  | TokenMissingImpl string
  | TokenDuplicateImpl string
  | ReservedAbiName string

datatype TypeWarningKind = UnnecessaryDisclose | PathImportIgnoredInSingleFile string

record TypeWarning =
  tw_kind :: TypeWarningKind
  tw_span :: Span
  tw_help :: "string option"

record TypeError =
  te_kind :: TypeErrorKind
  te_span :: Span
  te_message :: "string option"
  te_secondary :: "(Span \<times> string) list"
  te_help :: "string option"

definition TypeError_new :: "TypeErrorKind \<Rightarrow> Span \<Rightarrow> TypeError" where
  "TypeError_new kind span =
     \<lparr>te_kind = kind, te_span = span, te_message = None, te_secondary = [], te_help = None\<rparr>"

definition with_secondary :: "TypeError \<Rightarrow> Span \<Rightarrow> string \<Rightarrow> TypeError" where
  "with_secondary e span message = e\<lparr>te_secondary := te_secondary e @ [(span, message)]\<rparr>"

definition with_primary_message :: "TypeError \<Rightarrow> string \<Rightarrow> TypeError" where
  "with_primary_message e message = e\<lparr>te_message := Some message\<rparr>"

definition with_help :: "TypeError \<Rightarrow> string \<Rightarrow> TypeError" where
  "with_help e help = e\<lparr>te_help := Some help\<rparr>"

lemma te_kind_simps [simp]:
  "te_kind (TypeError_new kind span) = kind"
  "te_kind (with_secondary e span message) = te_kind e"
  "te_kind (with_primary_message e message) = te_kind e"
  "te_kind (with_help e help) = te_kind e"
  by (simp_all add: TypeError_new_def with_secondary_def with_primary_message_def with_help_def)

end
