(* ===== verification/Match_Check.thy ===== *)
theory Match_Check
  imports Exhaustiveness Type_Errors
begin

text \<open>
  The rest of \<^verbatim>\<open>exhaustiveness.rs\<close>: lowering of typed patterns to the patterns of the matrix, printing
  of missing patterns, the spans of patterns, and the checks that the type checker calls,
  \<^verbatim>\<open>check_match\<close> and \<^verbatim>\<open>missing_patterns\<close>. The \<^verbatim>\<open>unwrap\<close>s and \<^verbatim>\<open>panic!\<close>s are \<open>Panic\<close>.
\<close>

text \<open>The results of this module: only \<open>check_match\<close> reports errors, every function may panic.\<close>

type_synonym 'a checked = "(TypeError list, 'a) outcome"

section \<open>Lowering\<close>

definition lower_literal :: "Literal \<Rightarrow> SimpleLiteral" where
  "lower_literal lit =
     (case lit of
        L_Integer n \<Rightarrow> SL_Int (case literal_value n of None \<Rightarrow> 0 | Some v \<Rightarrow> v)
      | L_Boolean b \<Rightarrow> SL_Bool b
      | L_Unit \<Rightarrow> SL_Unit)"

definition find_field :: "string \<Rightarrow> 'p TypedStructPatternField list \<Rightarrow> 'p TypedStructPatternField option" where
  "find_field name fs = find (\<lambda>f. id_name (pat_field_name f) = name) fs"

definition find_variant :: "Type EnumType \<Rightarrow> Identifier \<Rightarrow> nat \<times> Type EnumVariantType" where
  "find_variant e last_name =
     (case find (\<lambda>(i, v). id_name (variant_name v) = id_name last_name) (enumerate 0 (enum_variants e)) of
        Some r \<Rightarrow> r
      | None \<Rightarrow> (0, EnumVariantType_unit last_name))"

fun struct_fields :: "Type EnumVariantKind \<Rightarrow> Type RecordFieldType list" where
  "struct_fields (EV_Struct fs) = fs"
| "struct_fields _ = []"

fun tuple_types :: "nat \<Rightarrow> Type EnumVariantKind \<Rightarrow> Type list" where
  "tuple_types n (EV_Tuple types) = types"
| "tuple_types n _ = replicate n TUnit"

lemma find_field_in: "find_field name fs = Some f \<Longrightarrow> f \<in> set fs"
  by (auto simp: find_field_def find_Some_iff)

lemma field_pattern_size:
  assumes "f \<in> set fs"
  shows "size (pat_field_pattern f) < Suc (size_list (size_TypedStructPatternField size) fs)"
proof -
  from assms have "size_TypedStructPatternField size f \<le> size_list (size_TypedStructPatternField size) fs"
    by (simp add: size_list_estimation')
  then show ?thesis by (cases f) simp
qed

lemma sub_pattern_size: "(p :: TypedPattern) \<in> set ps \<Longrightarrow> size p < Suc (size_list size ps)"
  by (simp add: le_imp_less_Suc size_list_estimation')

lemma last_opt_in: "last_opt xs = Some x \<Longrightarrow> x \<in> set xs"
  by (auto simp: last_opt_def split: if_splits)

lemma first_opt_in: "first_opt xs = Some x \<Longrightarrow> x \<in> set xs"
  by (auto simp: first_opt_def split: if_splits)

function lower_pattern :: "TypedPattern \<Rightarrow> Type \<Rightarrow> SimplePat checked" where
  "lower_pattern (TP_Binding i) ty = Ok SP_Wildcard"
| "lower_pattern TP_Wildcard ty = Ok SP_Wildcard"
| "lower_pattern (TP_Literal lit) ty = Ok (SP_Literal (lower_literal lit))"
| "lower_pattern (TP_Struct name fs) ty =
     expect (last_opt name) (\<lambda>last_name.
       case ty of
         TRecord r \<Rightarrow>
           andthen (map_out (\<lambda>tf. case find_field (id_name (field_name tf)) fs of
                        None \<Rightarrow> Ok SP_Wildcard
                      | Some f \<Rightarrow> lower_pattern (pat_field_pattern f) (field_ty tf)) (record_fields r))
             (\<lambda>args. Ok (SP_Ctor (C_Record (id_name last_name)) args))
       | TEnum e \<Rightarrow>
           (let (variant_index, variant_info) = find_variant e last_name
            in andthen (map_out (\<lambda>tf. case find_field (id_name (field_name tf)) fs of
                        None \<Rightarrow> Ok SP_Wildcard
                      | Some f \<Rightarrow> lower_pattern (pat_field_pattern f) (field_ty tf))
                     (struct_fields (variant_kind variant_info)))
             (\<lambda>args. Ok (SP_Ctor (C_EnumVariant (id_name (enum_name e)) variant_index (id_name last_name))
                          args)))
       | _ \<Rightarrow> Panic)"
| "lower_pattern (TP_Tuple name ps) ty =
     expect (last_opt name) (\<lambda>last_name.
       case ty of
         TEnum e \<Rightarrow>
           (let (variant_index, variant_info) = find_variant e last_name
            in andthen (map_out (\<lambda>(p, t). lower_pattern p t)
                     (zip ps (tuple_types (length ps) (variant_kind variant_info))))
             (\<lambda>args. Ok (SP_Ctor (C_EnumVariant (id_name (enum_name e)) variant_index (id_name last_name))
                          args)))
       | _ \<Rightarrow> Panic)"
| "lower_pattern (TP_AnonTuple ps) ty =
     (case ty of
        TTuple items \<Rightarrow>
          andthen (map_out (\<lambda>(p, t). lower_pattern p t) (zip ps items))
            (\<lambda>args. Ok (SP_Ctor (C_Tuple (length ps)) args))
      | _ \<Rightarrow> Panic)"
| "lower_pattern (TP_Constant name variant) ty =
     expect (last_opt name) (\<lambda>last_name.
       case ty of
         TEnum e \<Rightarrow> Ok (SP_Ctor (C_EnumVariant (id_name (enum_name e)) variant (id_name last_name)) [])
       | _ \<Rightarrow> Panic)"
  by pat_completeness auto
termination
  by (relation "measure (\<lambda>(p, ty). size p)")
    (auto dest!: find_field_in field_pattern_size sub_pattern_size set_zip_leftD intro: less_SucI)

section \<open>Printing\<close>

fun join :: "string \<Rightarrow> string list \<Rightarrow> string" where
  "join sep [] = []"
| "join sep [x] = x"
| "join sep (x # y # xs) = x @ sep @ join sep (y # xs)"

fun literal_to_string :: "SimpleLiteral \<Rightarrow> string" where
  "literal_to_string (SL_Int n) = int_to_string n"
| "literal_to_string (SL_Bool b) = (if b then ''true'' else ''false'')"
| "literal_to_string SL_Unit = ''()''"

fun pattern_to_string :: "SimplePat \<Rightarrow> string" where
  "pattern_to_string SP_Wildcard = ''_''"
| "pattern_to_string (SP_Literal lit) = literal_to_string lit"
| "pattern_to_string (SP_Ctor ctor args) =
    (let args_str = map pattern_to_string args
     in case ctor of
          C_EnumVariant enum index variant \<Rightarrow>
            if args = [] then variant else variant @ ''('' @ join '', '' args_str @ '')''
        | C_Record name \<Rightarrow>
            if args = [] then name @ '' { }'' else name @ '' { '' @ join '', '' args_str @ '' }''
        | C_Tuple arity \<Rightarrow> ''('' @ join '', '' args_str @ '')'')"

section \<open>Spans\<close>

definition merge_spans :: "Span \<Rightarrow> Span \<Rightarrow> Span" where
  "merge_spans a b = Span (min (span_start a) (span_start b)) (max (span_end a) (span_end b))"

definition or_else :: "'x option \<Rightarrow> 'x \<Rightarrow> 'x" where
  "or_else opt d = (case opt of None \<Rightarrow> d | Some x \<Rightarrow> x)"

function pattern_span :: "TypedPattern \<Rightarrow> Span option checked" where
  "pattern_span (TP_Binding i) = Ok (opt_span i)"
| "pattern_span TP_Wildcard = Ok None"
| "pattern_span (TP_Literal lit) = Ok None"
| "pattern_span (TP_Struct name fs) =
     expect (first_opt name) (\<lambda>n. let start = id_span n in
       andthen (case last_opt fs of None \<Rightarrow> Ok None | Some f \<Rightarrow> pattern_span (pat_field_pattern f))
         (\<lambda>e. Ok (Some (merge_spans start (or_else e start)))))"
| "pattern_span (TP_Tuple name ps) =
     expect (first_opt name) (\<lambda>n. let start = id_span n in
       andthen (case last_opt ps of None \<Rightarrow> Ok None | Some p \<Rightarrow> pattern_span p)
         (\<lambda>e. Ok (Some (merge_spans start (or_else e start)))))"
| "pattern_span (TP_AnonTuple ps) =
     andthen (case first_opt ps of None \<Rightarrow> Ok None | Some p \<Rightarrow> pattern_span p)
       (\<lambda>s. case s of
          None \<Rightarrow> Ok None
        | Some start \<Rightarrow>
            andthen (case last_opt ps of None \<Rightarrow> Ok None | Some p \<Rightarrow> pattern_span p)
              (\<lambda>e. Ok (Some (merge_spans start (or_else e start)))))"
| "pattern_span (TP_Constant name variant) =
     expect (first_opt name) (\<lambda>a. expect (last_opt name) (\<lambda>b.
       Ok (Some (merge_spans (id_span a) (id_span b)))))"
  by pat_completeness auto
termination
  by (relation "measure size")
    (auto dest!: first_opt_in last_opt_in field_pattern_size sub_pattern_size intro: less_SucI)

section \<open>Checking a match\<close>

text \<open>A match arm; its body plays no role here.\<close>

datatype 'b TypedMatchArm = TypedMatchArm (arm_pattern: TypedPattern) (arm_body: 'b)

definition unreachable_error :: "Span \<Rightarrow> TypeError" where
  "unreachable_error span =
     with_help (TypeError_new UnreachablePattern span) ''this pattern is already covered by previous patterns''"

definition newline :: string where "newline = [char_of (10 :: nat)]"

definition missing_help :: "string list \<Rightarrow> string" where
  "missing_help missing =
     (if missing = [''_''] then ''add a wildcard `_` pattern to cover remaining cases''
      else ''missing patterns:'' @ newline
           @ concat (map (\<lambda>p. ''- `'' @ p @ ''`'' @ newline) missing)
           @ ''ensure all cases are covered or add a wildcard `_` pattern'')"

definition examples :: "PatternRow list \<Rightarrow> string list" where
  "examples missing =
     take 5 (List.map_filter (\<lambda>row. map_option pattern_to_string (first_opt row)) missing)"

text \<open>One iteration of the loop over the arms: the matrix and the errors so far.\<close>

definition check_arm ::
  "Type \<Rightarrow> Span \<Rightarrow> 'b TypedMatchArm \<Rightarrow> Matrix \<times> TypeError list
   \<Rightarrow> (Matrix \<times> TypeError list) checked" where
  "check_arm scrutinee_type match_span arm state =
     (let (matrix, errors) = state in
      andthen (lower_pattern (arm_pattern arm) scrutinee_type) (\<lambda>pattern.
      let pattern_row = [pattern] in
      andthen
        (if \<not> is_useful matrix pattern_row
         then andthen (pattern_span (arm_pattern arm)) (\<lambda>s.
                Ok (errors @ [unreachable_error (or_else s match_span)]))
         else Ok errors) (\<lambda>errors.
      Ok (Matrix_push matrix pattern_row, errors))))"

definition check_match ::
  "Type \<Rightarrow> 'b TypedMatchArm list \<Rightarrow> Span \<Rightarrow> unit checked" where
  "check_match scrutinee_type arms match_span =
     andthen (fold_out (check_arm scrutinee_type match_span) arms (Matrix_new [scrutinee_type], []))
       (\<lambda>(matrix, errors).
        let errors =
          (if is_useful matrix [SP_Wildcard] then
             (let missing_patterns = examples (collect_missing_patterns matrix 1)
              in errors @ [with_help (TypeError_new (NonExhaustiveMatch missing_patterns) match_span)
                            (missing_help missing_patterns)])
           else errors)
        in if errors = [] then Ok () else Err errors)"

definition missing_patterns :: "Type \<Rightarrow> TypedPattern \<Rightarrow> string list checked" where
  "missing_patterns scrutinee_type pattern =
     andthen (lower_pattern pattern scrutinee_type) (\<lambda>p.
     let matrix = Matrix_push (Matrix_new [scrutinee_type]) [p] in
     if \<not> is_useful matrix [SP_Wildcard] then Ok []
     else Ok (examples (collect_missing_patterns matrix 1)))"

end
