(* ===== verification/Exhaustiveness_Sound.thy ===== *)
theory Exhaustiveness_Sound
  imports Exhaustiveness
begin

text \<open>
  What usefulness means. Values of the language are built from integers, booleans, the unit value, values
  that patterns cannot look into, and constructors; \<open>has_type\<close> types them and \<open>pmatch\<close> says when a pattern
  matches one. Over well-typed matrices (\<open>wf_rows\<close>, which the specializations keep) \<open>is_useful\<close> decides
  whether a typed value exists that the pattern matches and no row does, and
  \<open>collect_missing_patterns\<close> lists patterns of such values.
\<close>

section \<open>Values, typing and matching\<close>

datatype Val = V_Int int | V_Bool bool | V_Unit | V_Opaque | V_Ctor Ctor "Val list"

fun opaque :: "Type \<Rightarrow> bool" where
  "opaque (TInt w) = False" | "opaque TBool = False" | "opaque TUnit = False" | "opaque (TTuple ts) = False"
| "opaque (TRecord r) = False" | "opaque (TEnum e) = False" | "opaque _ = True"

text \<open>The fields of a constructor of a type.\<close>

fun ctor_fields :: "Type \<Rightarrow> Ctor \<Rightarrow> Type list option" where
  "ctor_fields (TEnum e) (C_EnumVariant en i vn) =
     (if en = id_name (enum_name e) \<and> i < length (enum_variants e)
         \<and> vn = id_name (variant_name (enum_variants e ! i))
      then Some (kind_fields (variant_kind (enum_variants e ! i))) else None)"
| "ctor_fields (TRecord r) (C_Record name) =
     (if name = id_name (record_name r) then Some (map field_ty (record_fields r)) else None)"
| "ctor_fields (TTuple items) (C_Tuple n) = (if n = length items then Some items else None)"
| "ctor_fields _ _ = None"

fun has_type :: "Val \<Rightarrow> Type \<Rightarrow> bool" where
  "has_type (V_Int n) ty = (case ty of TInt w \<Rightarrow> fits w n | _ \<Rightarrow> False)"
| "has_type (V_Bool b) ty = (ty = TBool)"
| "has_type V_Unit ty = (ty = TUnit)"
| "has_type V_Opaque ty = opaque ty"
| "has_type (V_Ctor c vs) ty = (case ctor_fields ty c of None \<Rightarrow> False | Some tys \<Rightarrow> list_all2 has_type vs tys)"

fun literal_val :: "SimpleLiteral \<Rightarrow> Val" where
  "literal_val (SL_Int n) = V_Int n" | "literal_val (SL_Bool b) = V_Bool b" | "literal_val SL_Unit = V_Unit"

fun pmatch :: "SimplePat \<Rightarrow> Val \<Rightarrow> bool" where
  "pmatch SP_Wildcard v = True"
| "pmatch (SP_Literal l) v = (v = literal_val l)"
| "pmatch (SP_Ctor c ps) v = (case v of V_Ctor c' vs \<Rightarrow> c' = c \<and> list_all2 pmatch ps vs | _ \<Rightarrow> False)"

lemma pmatch_ctor [simp]: "pmatch (SP_Ctor c ps) v \<longleftrightarrow> (\<exists>us. v = V_Ctor c us \<and> list_all2 pmatch ps us)"
  by (cases v) auto

declare pmatch.simps(3) [simp del]

text \<open>Well-typed patterns. A literal has its type; a constructor pattern has one argument per field.\<close>

fun literal_ok :: "SimpleLiteral \<Rightarrow> Type \<Rightarrow> bool" where
  "literal_ok (SL_Int n) ty = (\<exists>w\<in>{I8, I16, I32, I64, U8, U16, U32, U64}. ty = TInt w)"
| "literal_ok (SL_Bool b) ty = (ty = TBool)"
| "literal_ok SL_Unit ty = (ty = TUnit)"

fun pat_ok :: "SimplePat \<Rightarrow> Type \<Rightarrow> bool" where
  "pat_ok SP_Wildcard ty = True"
| "pat_ok (SP_Literal l) ty = literal_ok l ty"
| "pat_ok (SP_Ctor c ps) ty = (case ctor_fields ty c of None \<Rightarrow> False | Some tys \<Rightarrow> list_all2 pat_ok ps tys)"

definition wf_rows :: "Matrix \<Rightarrow> bool" where
  "wf_rows m = (\<forall>row\<in>set (m_rows m). list_all2 pat_ok row (m_col_types m))"

definition covers :: "Matrix \<Rightarrow> Val list \<Rightarrow> bool" where
  "covers m vs = (\<exists>row\<in>set (m_rows m). list_all2 pmatch row vs)"

section \<open>Constructor sets\<close>

text \<open>Outside \<open>TBool\<close> a constructor set is the constructors of the type, each once.\<close>

lemma ctor_set_fields:
  assumes "for_type ty = Some cset" "info \<in> set cset" "ty \<noteq> TBool"
  shows "ctor_fields ty (ci_ctor info) = Some (ci_field_types info)"
    and "ci_arity info = length (ci_field_types info)"
  using assms by (cases ty; force simp: for_enum_get for_record_def cs_infinite_def)+

lemma fields_ctor_set:
  assumes "for_type ty = Some cset" "ctor_fields ty c = Some tys"
  shows "\<exists>info\<in>set cset. ci_ctor info = c \<and> ci_field_types info = tys"
  using assms
  by (cases "(ty, c)" rule: ctor_fields.cases) (auto simp: for_enum_get for_record_def split: if_splits)

lemma ctors_distinct:
  assumes "for_type ty = Some cset"
  shows "distinct (map ci_ctor cset)"
proof -
  have "distinct (map ci_ctor (for_enum e))" for e
    by (simp add: distinct_conv_nth for_enum_def nth_enumerate_eq Let_def)
  with assms show ?thesis
    by (cases ty) (auto simp: for_record_def for_bool_def cs_infinite_def)
qed

lemma ctor_set_eq:
  assumes "for_type ty = Some cset" "info \<in> set cset" "info' \<in> set cset" "ci_ctor info = ci_ctor info'"
  shows "info = info'"
  using ctors_distinct [OF assms(1)] assms(2-) by (metis distinct_map inj_onD)

lemma get_info_fields:
  assumes "for_type ty = Some cset" "ctor_fields ty c = Some tys"
  obtains info where "get_info cset c = Some info" "info \<in> set cset" "ci_ctor info = c"
    "ci_field_types info = tys" "ci_arity info = length tys"
proof -
  from fields_ctor_set [OF assms] obtain info where i: "info \<in> set cset" "ci_ctor info = c"
    "ci_field_types info = tys" by blast
  then obtain info' where g: "get_info cset c = Some info'"
    by (cases "get_info cset c") (auto simp: get_info_def find_None_iff)
  with get_info_in have "info' \<in> set cset" "ci_ctor info' = c" by blast+
  with ctor_set_eq [OF assms(1)] i have "info' = info" by auto
  moreover have "ty \<noteq> TBool" using assms by auto
  ultimately show thesis using that g i ctor_set_fields [OF assms(1) i(1)] by auto
qed

section \<open>Specializations and values\<close>

lemma wildcards_match: "length us = n \<Longrightarrow> list_all2 pmatch (replicate n SP_Wildcard) us"
  by (auto simp: list_all2_conv_all_nth)

lemma wildcards_ok: "length tys = n \<Longrightarrow> list_all2 pat_ok (replicate n SP_Wildcard) tys"
  by (auto simp: list_all2_conv_all_nth)

lemma in_map_filter: "y \<in> set (List.map_filter f xs) \<longleftrightarrow> (\<exists>x\<in>set xs. f x = Some y)"
  by (force simp: List.map_filter_def)

lemma wf_specialize:
  assumes "wf_rows m" "m_col_types m = ty # tys" "ctor_fields ty c = Some (ci_field_types info)"
    and "ci_arity info = length (ci_field_types info)"
  shows "wf_rows (specialize m c info)"
  unfolding wf_rows_def
proof
  fix row' assume "row' \<in> set (m_rows (specialize m c info))"
  then obtain row where row: "row \<in> set (m_rows m)" "specialize_row c (ci_arity info) row = Some row'"
    by (auto simp: specialize_def in_map_filter)
  with assms have "list_all2 pat_ok row (ty # tys)" by (simp add: wf_rows_def)
  with row(2) assms show "list_all2 pat_ok row' (m_col_types (specialize m c info))"
    by (cases "(c, ci_arity info, row)" rule: specialize_row.cases)
      (auto simp: specialize_def list_all2_Cons2 split: if_splits intro!: list_all2_appendI wildcards_ok)
qed

lemma wf_default: "wf_rows m \<Longrightarrow> wf_rows (default_matrix m)"
  by (force simp: wf_rows_def default_matrix_def in_map_filter list_all2_Cons1
      elim!: default_row.elims)

lemma wf_specialize_literal: "wf_rows m \<Longrightarrow> wf_rows (specialize_literal m l)"
  by (force simp: wf_rows_def specialize_literal_def in_map_filter list_all2_Cons1
      elim!: specialize_literal_row.elims split: if_splits)

lemma bex_map_filter:
  assumes "\<And>row. row \<in> set rows \<Longrightarrow> (\<exists>row'. f row = Some row' \<and> P row') \<longleftrightarrow> Q row"
  shows "(\<exists>row'\<in>set (List.map_filter f rows). P row') \<longleftrightarrow> (\<exists>row\<in>set rows. Q row)"
  using assms by (simp add: Bex_def in_map_filter) metis

lemma literal_val_ctor [simp]: "literal_val a \<noteq> V_Ctor c us" "V_Ctor c us \<noteq> literal_val a"
  by (cases a; simp)+

lemma literal_val_inj [simp]: "literal_val a = literal_val b \<longleftrightarrow> a = b"
  by (cases a; cases b) auto

lemma covers_specialize:
  assumes "wf_rows m" "m_col_types m = ty # tys" "ctor_fields ty c = Some (ci_field_types info)"
    and "ci_arity info = length (ci_field_types info)" and "length us = ci_arity info"
  shows "covers (specialize m c info) (us @ vs) \<longleftrightarrow> covers m (V_Ctor c us # vs)"
  unfolding covers_def specialize_def Matrix.simps
proof (rule bex_map_filter)
  fix row assume "row \<in> set (m_rows m)"
  with assms have ok: "list_all2 pat_ok row (ty # tys)" by (simp add: wf_rows_def)
  show "(\<exists>row'. specialize_row c (ci_arity info) row = Some row' \<and> list_all2 pmatch row' (us @ vs))
    \<longleftrightarrow> list_all2 pmatch row (V_Ctor c us # vs)"
  proof (cases "(c, ci_arity info, row)" rule: specialize_row.cases)
    case (3 c' n c'' args ps)
    show ?thesis
    proof (cases "c'' = c")
      case True
      with 3 ok assms have "list_all2 pat_ok args (ci_field_types info)" by simp
      with assms have "length args = length us" by (simp add: list_all2_lengthD)
      with 3 True show ?thesis by (simp add: list_all2_append)
    qed (use 3 in auto)
  qed (use assms ok in \<open>auto simp: list_all2_append wildcards_match\<close>)
qed

lemma covers_default_imp: "covers (default_matrix m) vs \<Longrightarrow> covers m (v # vs)"
  by (force simp: covers_def default_matrix_def in_map_filter elim!: default_row.elims)

lemma covers_literal: "covers (specialize_literal m l) vs \<longleftrightarrow> covers m (literal_val l # vs)"
  unfolding covers_def specialize_literal_def Matrix.simps
proof (rule bex_map_filter)
  show "(\<exists>row'. specialize_literal_row l row = Some row' \<and> list_all2 pmatch row' vs)
    \<longleftrightarrow> list_all2 pmatch row (literal_val l # vs)" for row
    by (cases "(l, row)" rule: specialize_literal_row.cases) (auto split: Val.splits)
qed

text \<open>A value that no row tests for reaches the default matrix.\<close>

definition tested :: "Matrix \<Rightarrow> Val \<Rightarrow> bool" where
  "tested m v = (\<exists>row\<in>set (m_rows m).
     (\<exists>l. row_literal row = Some l \<and> v = literal_val l)
     \<or> (\<exists>c us. row_ctor row = Some c \<and> v = V_Ctor c us))"

lemma covers_default:
  assumes "\<not> tested m v"
  shows "covers m (v # vs) \<longleftrightarrow> covers (default_matrix m) vs"
proof
  assume "covers m (v # vs)"
  then obtain row where row: "row \<in> set (m_rows m)" "list_all2 pmatch row (v # vs)"
    by (auto simp: covers_def)
  then obtain p ps where r: "row = p # ps" "pmatch p v" "list_all2 pmatch ps vs"
    by (auto simp: list_all2_Cons2)
  with assms row(1) have "p = SP_Wildcard"
    by (cases p) (fastforce simp: tested_def split: Val.splits)+
  with r row(1) show "covers (default_matrix m) vs"
    by (force simp: covers_def default_matrix_def in_map_filter)
qed (rule covers_default_imp)

section \<open>What the first column holds\<close>

lemma collect_heads_set: "set (collect_heads h rows acc) = set acc \<union> {x. \<exists>row\<in>set rows. h row = Some x}"
  by (induction h rows acc rule: collect_heads.induct) (auto split: option.splits if_splits)

lemma collect_heads_distinct: "distinct acc \<Longrightarrow> distinct (collect_heads h rows acc)"
  by (induction h rows acc rule: collect_heads.induct) (auto split: option.splits)

lemma seen_ctors:
  "c \<in> set (collect_first_column_ctors m) \<longleftrightarrow> (\<exists>row\<in>set (m_rows m). row_ctor row = Some c)"
  by (simp add: collect_first_column_ctors_def collect_heads_set)

lemma seen_literals:
  "l \<in> set (collect_first_column_literals m) \<longleftrightarrow> (\<exists>row\<in>set (m_rows m). row_literal row = Some l)"
  by (simp add: collect_first_column_literals_def collect_heads_set)

lemma has_literals: "has_literals_in_first_column m \<longleftrightarrow> collect_first_column_literals m \<noteq> []"
proof -
  have "has_literals_in_first_column m \<longleftrightarrow> (\<exists>l. l \<in> set (collect_first_column_literals m))"
    by (auto simp: seen_literals has_literals_in_first_column_def list_ex_iff)
  then show ?thesis by (simp add: ex_in_conv)
qed

lemma row_ctor_ok:
  assumes "wf_rows m" "m_col_types m = ty # tys" "row \<in> set (m_rows m)" "row_ctor row = Some c"
  shows "ctor_fields ty c \<noteq> None"
  using assms by (cases row rule: row_ctor.cases) (fastforce simp: wf_rows_def split: option.splits)+

lemma row_literal_ok:
  assumes "wf_rows m" "m_col_types m = ty # tys" "row \<in> set (m_rows m)" "row_literal row = Some l"
  shows "literal_ok l ty"
  using assms by (cases row rule: row_literal.cases) (fastforce simp: wf_rows_def split: option.splits)+

lemma literal_no_ctors: "literal_ok l ty \<Longrightarrow> ctor_fields ty c = None"
  by (cases l) auto

lemma seen_ctors_subset:
  assumes "wf_rows m" "m_col_types m = ty # tys" "for_type ty = Some cset"
  shows "set (collect_first_column_ctors m) \<subseteq> ci_ctor ` set cset"
proof
  fix c assume "c \<in> set (collect_first_column_ctors m)"
  with row_ctor_ok [OF assms(1,2)] have "ctor_fields ty c \<noteq> None" by (auto simp: seen_ctors)
  with fields_ctor_set [OF assms(3)] show "c \<in> ci_ctor ` set cset" by blast
qed

text \<open>The count that \<open>is_useful\<close> compares says whether every constructor occurs.\<close>

lemma signature_complete:
  assumes "wf_rows m" "m_col_types m = ty # tys" "for_type ty = Some cset"
  shows "length (collect_first_column_ctors m) \<le> length cset"
    and "length (collect_first_column_ctors m) = length cset
      \<longleftrightarrow> set (collect_first_column_ctors m) = ci_ctor ` set cset"
proof -
  let ?s = "collect_first_column_ctors m"
  have d: "distinct ?s" by (simp add: collect_first_column_ctors_def collect_heads_distinct)
  then have c: "card (set ?s) = length ?s" by (rule distinct_card)
  have c': "card (ci_ctor ` set cset) = length cset"
    using distinct_card [OF ctors_distinct [OF assms(3)]] by simp
  note sub = seen_ctors_subset [OF assms]
  show "length ?s \<le> length cset" using card_mono [OF _ sub] c c' by simp
  show "length ?s = length cset \<longleftrightarrow> set ?s = ci_ctor ` set cset"
    using card_subset_eq [OF _ sub] c c' by auto
qed

section \<open>The branches of the usefulness test\<close>

lemma useful_nil: "is_useful m [] = m_is_empty m"
  by simp

lemma useful_ctor:
  "col_type m 0 = Some ty \<Longrightarrow> for_type ty = Some cset \<Longrightarrow> get_info cset c = Some info \<Longrightarrow>
   is_useful m (SP_Ctor c args # ps) = is_useful (specialize m c info) (args @ ps)"
  by (simp add: is_useful.simps(2))

lemma useful_literal:
  "col_type m 0 = Some ty \<Longrightarrow> is_useful m (SP_Literal l # ps) = is_useful (specialize_literal m l) ps"
  using for_type_total [of ty] by (auto simp add: is_useful.simps(2))

lemma useful_bool:
  "col_type m 0 = Some TBool \<Longrightarrow> {SL_Bool True, SL_Bool False} \<subseteq> set (collect_first_column_literals m) \<Longrightarrow>
   is_useful m (SP_Wildcard # ps) =
     (is_useful (specialize_literal m (SL_Bool True)) ps \<or> is_useful (specialize_literal m (SL_Bool False)) ps)"
  by (auto simp add: is_useful.simps(2) has_literals)

definition complete_signature :: "Matrix \<Rightarrow> CtorSet \<Rightarrow> bool" where
  "complete_signature m cset \<longleftrightarrow> \<not> has_literals_in_first_column m \<and> cset \<noteq> []
     \<and> length (collect_first_column_ctors m) = length cset"

lemma useful_complete:
  "col_type m 0 = Some ty \<Longrightarrow> for_type ty = Some cset \<Longrightarrow> complete_signature m cset \<Longrightarrow>
   is_useful m (SP_Wildcard # ps) \<longleftrightarrow>
     (\<exists>info\<in>set cset. is_useful (specialize m (ci_ctor info) info) (replicate (ci_arity info) SP_Wildcard @ ps))"
  by (simp add: is_useful.simps(2) complete_signature_def list_ex_iff)

lemma useful_default:
  "col_type m 0 = Some ty \<Longrightarrow> for_type ty = Some cset \<Longrightarrow> \<not> complete_signature m cset \<Longrightarrow>
   \<not> (ty = TBool \<and> {SL_Bool True, SL_Bool False} \<subseteq> set (collect_first_column_literals m)) \<Longrightarrow>
   is_useful m (SP_Wildcard # ps) = is_useful (default_matrix m) ps"
  by (auto simp add: is_useful.simps(2) complete_signature_def)

text \<open>The cases of a pattern vector against the columns of a well-typed matrix.\<close>

lemma useful_cases [consumes 2, case_names nil ctor literal bool complete dflt]:
  assumes "wf_rows m" "list_all2 pat_ok pat (m_col_types m)"
  obtains "pat = []" "m_col_types m = []"
  | c args ps ty tys cset info where "pat = SP_Ctor c args # ps" "m_col_types m = ty # tys"
      "for_type ty = Some cset" "ty \<noteq> TBool" "info \<in> set cset" "ci_ctor info = c"
      "list_all2 pat_ok args (ci_field_types info)"
      "list_all2 pat_ok ps tys" "is_useful m pat = is_useful (specialize m c info) (args @ ps)"
  | l ps ty tys where "pat = SP_Literal l # ps" "m_col_types m = ty # tys" "literal_ok l ty"
      "list_all2 pat_ok ps tys" "is_useful m pat = is_useful (specialize_literal m l) ps"
  | ps tys where "pat = SP_Wildcard # ps" "m_col_types m = TBool # tys" "list_all2 pat_ok ps tys"
      "is_useful m pat = (is_useful (specialize_literal m (SL_Bool True)) ps
        \<or> is_useful (specialize_literal m (SL_Bool False)) ps)"
  | ps ty tys cset where "pat = SP_Wildcard # ps" "m_col_types m = ty # tys"
      "for_type ty = Some cset" "ty \<noteq> TBool" "list_all2 pat_ok ps tys"
      "set (collect_first_column_ctors m) = ci_ctor ` set cset" "cset \<noteq> []"
      "is_useful m pat = (\<exists>info\<in>set cset. is_useful (specialize m (ci_ctor info) info)
        (replicate (ci_arity info) SP_Wildcard @ ps))"
  | ps ty tys cset where "pat = SP_Wildcard # ps" "m_col_types m = ty # tys"
      "for_type ty = Some cset" "list_all2 pat_ok ps tys" "\<not> complete_signature m cset"
      "\<not> (ty = TBool \<and> {SL_Bool True, SL_Bool False} \<subseteq> set (collect_first_column_literals m))"
      "is_useful m pat = is_useful (default_matrix m) ps"
proof (cases pat)
  case Nil
  with assms(2) show thesis by (intro that(1)) auto
next
  case (Cons p ps)
  with assms(2) obtain ty tys where cols: "m_col_types m = ty # tys" "pat_ok p ty" "list_all2 pat_ok ps tys"
    by (auto simp: list_all2_Cons1)
  then have col: "col_type m 0 = Some ty" by (simp add: col_type_0)
  obtain cset where cset: "for_type ty = Some cset" using for_type_total by blast
  show thesis
  proof (cases p)
    case (SP_Ctor c args)
    with cols obtain ftys where f: "ctor_fields ty c = Some ftys" "list_all2 pat_ok args ftys"
      by (auto split: option.splits)
    from get_info_fields [OF cset f(1)] obtain info where "get_info cset c = Some info" "info \<in> set cset"
      "ci_ctor info = c" "ci_field_types info = ftys" by metis
    moreover have "ty \<noteq> TBool" using f(1) by auto
    ultimately show thesis
      using Cons SP_Ctor cols cset f by (intro that(2)) (auto simp: useful_ctor [OF col cset])
  next
    case (SP_Literal l)
    with Cons cols show thesis by (intro that(3)) (auto simp: useful_literal [OF col])
  next
    case SP_Wildcard
    show thesis
    proof (cases "ty = TBool \<and> {SL_Bool True, SL_Bool False} \<subseteq> set (collect_first_column_literals m)")
      case True
      with Cons SP_Wildcard cols col show thesis by (intro that(4)) (auto simp: useful_bool)
    next
      case False
      show thesis
      proof (cases "complete_signature m cset")
        case True
        then have "set (collect_first_column_ctors m) = ci_ctor ` set cset" "cset \<noteq> []"
          using signature_complete [OF assms(1) cols(1) cset] by (auto simp: complete_signature_def)
        moreover from this have "hd cset \<in> set cset" "ci_ctor (hd cset) \<in> set (collect_first_column_ctors m)"
          by simp_all
        then have "ctor_fields ty (ci_ctor (hd cset)) \<noteq> None"
          using row_ctor_ok [OF assms(1) cols(1)] by (auto simp: seen_ctors)
        then have "ty \<noteq> TBool" by auto
        ultimately show thesis
          using Cons SP_Wildcard cols cset True by (intro that(5)) (auto simp: useful_complete [OF col cset])
      next
        case incomplete: False
        with Cons SP_Wildcard cols cset False show thesis
          by (intro that(6)) (auto simp: useful_default [OF col cset])
      qed
    qed
  qed
qed

section \<open>Soundness\<close>

lemma ctor_value:
  assumes "has_type v ty" "for_type ty = Some cset" "info \<in> set cset" "ty \<noteq> TBool" "v = V_Ctor (ci_ctor info) us"
  shows "list_all2 has_type us (ci_field_types info)" "length us = ci_arity info"
proof -
  note f = ctor_set_fields [OF assms(2,3,4)]
  with assms(1,5) show "list_all2 has_type us (ci_field_types info)" by simp
  with f show "length us = ci_arity info" by (simp add: list_all2_lengthD)
qed

lemma specialize_col_types: "m_col_types m = ty # tys \<Longrightarrow> m_col_types (specialize m c info) = ci_field_types info @ tys"
  by (simp add: specialize_def)

lemma dropped_col_types:
  "m_col_types m = ty # tys \<Longrightarrow> m_col_types (default_matrix m) = tys"
  "m_col_types m = ty # tys \<Longrightarrow> m_col_types (specialize_literal m l) = tys"
  by (simp_all add: default_matrix_def specialize_literal_def)

lemma specialized_smaller:
  assumes "m_col_types m = ty # tys" "for_type ty = Some cset" "info \<in> set cset"
  shows "cols_size (m_col_types (specialize m (ci_ctor info) info)) < cols_size (m_col_types m)"
  using assms by (intro specialize_smaller) (auto simp: col_type_0)

lemma useless_is_covered:
  assumes "wf_rows m" "list_all2 pat_ok pat (m_col_types m)" "\<not> is_useful m pat"
    and "list_all2 has_type vs (m_col_types m)" "list_all2 pmatch pat vs"
  shows "covers m vs"
  using assms
proof (induction "cols_size (m_col_types m)" arbitrary: m pat vs rule: less_induct)
  case less
  from less.prems(1,2) show ?case
  proof (cases rule: useful_cases)
    case nil
    with less.prems show ?thesis by (cases "m_rows m") (auto simp: covers_def m_is_empty_def wf_rows_def)
  next
    case (ctor c args ps ty tys cset info)
    with less.prems obtain us ws where v: "vs = V_Ctor c us # ws" "list_all2 pmatch args us"
      "list_all2 pmatch ps ws" "has_type (V_Ctor c us) ty" "list_all2 has_type ws tys"
      by (auto simp: list_all2_Cons1)
    note f = ctor_set_fields [OF ctor(3,5,4)] and cv = ctor_value [OF v(4) ctor(3,5,4)]
    have "covers (specialize m c info) (us @ ws)"
      using ctor v f cv less.prems specialized_smaller [OF ctor(2,3,5)]
      by (intro less.hyps) (auto simp: specialize_col_types wf_specialize intro!: list_all2_appendI)
    with covers_specialize [OF less.prems(1) ctor(2), of c info us ws] ctor f cv v show ?thesis by simp
  next
    case (literal l ps ty tys)
    with less.prems obtain ws where v: "vs = literal_val l # ws" "list_all2 pmatch ps ws"
      "list_all2 has_type ws tys"
      by (auto simp: list_all2_Cons1)
    have "covers (specialize_literal m l) ws"
      using literal v less.prems by (intro less.hyps) (auto simp: dropped_col_types wf_specialize_literal)
    with v show ?thesis by (simp add: covers_literal)
  next
    case (bool ps tys)
    with less.prems obtain b ws where v: "vs = literal_val (SL_Bool b) # ws" "list_all2 pmatch ps ws"
      "list_all2 has_type ws tys"
      by (auto simp: list_all2_Cons1 elim!: has_type.elims split: option.splits)
    have "covers (specialize_literal m (SL_Bool b)) ws"
      using bool v less.prems
      by (intro less.hyps) (auto simp: dropped_col_types wf_specialize_literal; cases b; simp)+
    with v show ?thesis by (simp only: covers_literal)
  next
    case (complete ps ty tys cset)
    with less.prems obtain v ws where v: "vs = v # ws" "has_type v ty" "list_all2 pmatch ps ws"
      "list_all2 has_type ws tys"
      by (auto simp: list_all2_Cons1)
    obtain info where "info \<in> set cset" using complete(7) by (cases cset) auto
    with ctor_set_fields [OF complete(3) _ complete(4)] have "ctor_fields ty (ci_ctor info) \<noteq> None" by simp
    with v(2) obtain c us where c: "v = V_Ctor c us" "ctor_fields ty c \<noteq> None"
      by (cases v; cases ty) (auto split: option.splits)
    then obtain info where i: "info \<in> set cset" "ci_ctor info = c"
      using fields_ctor_set [OF complete(3)] by blast
    note f = ctor_set_fields [OF complete(3) i(1) complete(4)]
      and cv = ctor_value [OF v(2) complete(3) i(1) complete(4) c(1) [folded i(2)]]
    have "covers (specialize m (ci_ctor info) info) (us @ ws)"
      using complete v f cv i less.prems specialized_smaller [OF complete(2,3) i(1)]
      by (intro less.hyps [where pat = "replicate (ci_arity info) SP_Wildcard @ ps"])
        (auto simp: specialize_col_types wf_specialize wildcards_match wildcards_ok intro!: list_all2_appendI)
    with covers_specialize [OF less.prems(1) complete(2), of c info us ws] f cv v c i show ?thesis by simp
  next
    case (dflt ps ty tys cset)
    with less.prems obtain v ws where v: "vs = v # ws" "list_all2 pmatch ps ws" "list_all2 has_type ws tys"
      by (auto simp: list_all2_Cons1)
    have "covers (default_matrix m) ws"
      using dflt v less.prems by (intro less.hyps) (auto simp: dropped_col_types wf_default)
    with v show ?thesis by (simp add: covers_default_imp)
  qed
qed

section \<open>Completeness\<close>

text \<open>Usefulness is witnessed by a value when every type in sight has values (\<open>inhabited\<close>), the rows
  hold no unit literal and leave an integer of every width untested (\<open>plain\<close>, \<open>spare\<close>), and the literals
  of the tested pattern fit their types.\<close>

function inhabited :: "Type \<Rightarrow> bool" where
  "inhabited ty = (case for_type ty of
     None \<Rightarrow> False
   | Some cset \<Rightarrow> (case ty of TEnum e \<Rightarrow> enum_variants e \<noteq> [] | _ \<Rightarrow> True)
       \<and> (\<forall>info\<in>set cset. \<forall>t\<in>set (ci_field_types info). inhabited t))"
  by pat_completeness auto
termination
proof (relation "measure size")
  fix ty cset info t
  assume "for_type ty = Some cset" "info \<in> set cset" "t \<in> set (ci_field_types info)"
  then have "cols_size (ci_field_types info) < Suc (size ty)" "Suc (size t) \<le> cols_size (ci_field_types info)"
    by (auto simp: ctor_fields_size dest!: split_list)
  then show "(t, ty) \<in> measure size" by simp
qed simp

declare inhabited.simps [simp del]

fun plain :: "int set \<Rightarrow> SimplePat \<Rightarrow> bool" where
  "plain N SP_Wildcard = True"
| "plain N (SP_Literal l) = (case l of SL_Int n \<Rightarrow> n \<in> N | SL_Bool b \<Rightarrow> True | SL_Unit \<Rightarrow> False)"
| "plain N (SP_Ctor c ps) = (\<forall>p\<in>set ps. plain N p)"

definition spare :: "int set \<Rightarrow> bool" where
  "spare N = (\<forall>w. \<exists>n. n \<notin> N \<and> fits w n)"

definition plain_rows :: "int set \<Rightarrow> Matrix \<Rightarrow> bool" where
  "plain_rows N m = (\<forall>row\<in>set (m_rows m). \<forall>p\<in>set row. plain N p)"

fun pat_fits :: "SimplePat \<Rightarrow> Type \<Rightarrow> bool" where
  "pat_fits SP_Wildcard ty = True"
| "pat_fits (SP_Literal l) ty = has_type (literal_val l) ty"
| "pat_fits (SP_Ctor c ps) ty = (case ctor_fields ty c of None \<Rightarrow> False | Some tys \<Rightarrow> list_all2 pat_fits ps tys)"

lemma pat_fits_ok: "pat_fits p ty \<Longrightarrow> pat_ok p ty"
proof (induction p ty rule: pat_fits.induct)
  case (2 l ty)
  then show ?case by (cases l; cases ty; auto) (metis IntWidth.exhaust)
next
  case (3 c ps ty)
  then show ?case by (fastforce split: option.splits simp: list_all2_conv_all_nth in_set_conv_nth)
qed simp

lemma inhabited_field:
  assumes "inhabited ty" "ctor_fields ty c = Some tys" "t \<in> set tys"
  shows "inhabited t"
proof -
  obtain cset where c: "for_type ty = Some cset" using for_type_total by blast
  with fields_ctor_set [OF c assms(2)] assms show ?thesis by (auto simp: inhabited.simps [of ty])
qed

lemma fields_value: "(\<And>t. t \<in> set tys \<Longrightarrow> \<exists>v. has_type v t) \<Longrightarrow> \<exists>vs. list_all2 has_type vs tys"
  by (induction tys) (auto simp: list_all2_Cons2)

lemma for_enum_empty: "for_enum e = [] \<longleftrightarrow> enum_variants e = []"
proof -
  have "length (for_enum e) = length (enum_variants e)" by (simp add: for_enum_def)
  then show ?thesis by (metis length_0_conv)
qed

lemma basic_type:
  assumes "for_type ty = Some cset" "inhabited ty" "cset = [] \<or> ty = TBool"
  obtains w where "ty = TInt w" | "ty = TBool" | "ty = TUnit" | "opaque ty"
  using assms by (cases ty) (auto simp: for_record_def for_enum_empty inhabited.simps [of "TEnum e" for e])

lemma inhabited_value: "inhabited ty \<Longrightarrow> \<exists>v. has_type v ty"
proof (induction ty rule: inhabited.induct)
  case (1 ty)
  obtain cset where c: "for_type ty = Some cset" using for_type_total by blast
  show ?case
  proof (cases "cset = [] \<or> ty = TBool")
    case True
    with c 1(2) show ?thesis
    proof (cases rule: basic_type)
      case (1 w)
      then have "has_type (V_Int 0) ty" by (cases w) (auto simp: fits_def)
      then show ?thesis by blast
    qed (metis has_type.simps)+
  next
    case False
    then obtain info where i: "info \<in> set cset" by (cases cset) auto
    note f = ctor_set_fields [OF c i] False
    then have "\<exists>us. list_all2 has_type us (ci_field_types info)"
      using 1 c i by (intro fields_value) (auto simp: inhabited.simps [of ty])
    with f have "\<exists>us. has_type (V_Ctor (ci_ctor info) us) ty" by simp
    then show ?thesis by blast
  qed
qed

lemma untested_value:
  assumes "wf_rows m" "m_col_types m = ty # tys" "for_type ty = Some cset" "inhabited ty"
    and "plain_rows N m" "spare N" "\<not> complete_signature m cset"
    and "\<not> (ty = TBool \<and> {SL_Bool True, SL_Bool False} \<subseteq> set (collect_first_column_literals m))"
  shows "\<exists>v. has_type v ty \<and> \<not> tested m v"
proof -
  have lit: "literal_ok l ty" "plain N (SP_Literal l)"
    if "row \<in> set (m_rows m)" "row_literal row = Some l" for row l
    using row_literal_ok [OF assms(1,2) that] that assms(5)
    by (cases row rule: row_literal.cases; fastforce simp: plain_rows_def)+
  have ctor: "ctor_fields ty c \<noteq> None" if "row \<in> set (m_rows m)" "row_ctor row = Some c" for row c
    by (rule row_ctor_ok [OF assms(1,2) that])
  show ?thesis
  proof (cases "cset = [] \<or> ty = TBool")
    case True
    with assms(3,4) show ?thesis
    proof (cases rule: basic_type)
      case (1 w)
      from assms(6) obtain n where n: "n \<notin> N" "fits w n" by (auto simp: spare_def)
      have "\<not> tested m (V_Int n)"
      proof
        assume "tested m (V_Int n)"
        then obtain row where "row \<in> set (m_rows m)" "row_literal row = Some (SL_Int n)"
          by (auto simp: tested_def elim!: literal_val.elims [OF sym])
        from lit(2) [OF this] n show False by simp
      qed
      with 1 n show ?thesis by (intro exI [of _ "V_Int n"]) simp
    next
      case 2
      with assms(8) obtain b where "SL_Bool b \<notin> set (collect_first_column_literals m)" by blast
      then have "\<not> tested m (literal_val (SL_Bool b))"
        by (auto simp: tested_def seen_literals simp del: literal_val.simps)
      with 2 show ?thesis by (intro exI [of _ "V_Bool b"]) simp
    next
      case 3
      have "\<not> tested m V_Unit"
      proof
        assume "tested m V_Unit"
        then obtain row where "row \<in> set (m_rows m)" "row_literal row = Some SL_Unit"
          by (auto simp: tested_def elim!: literal_val.elims [OF sym])
        from lit(2) [OF this] show False by simp
      qed
      with 3 show ?thesis by (intro exI [of _ V_Unit]) simp
    next
      case 4
      have "literal_val l \<noteq> V_Opaque" for l by (cases l) auto
      then have "\<not> tested m V_Opaque" by (auto simp: tested_def) (metis)
      with 4 show ?thesis by (intro exI [of _ V_Opaque]) simp
    qed
  next
    case False
    then obtain info0 where i0: "info0 \<in> set cset" by (cases cset) auto
    then have "ctor_fields ty (ci_ctor info0) \<noteq> None" using ctor_set_fields [OF assms(3) i0] False by simp
    with lit(1) literal_no_ctors have nl: "\<not> has_literals_in_first_column m"
      by (fastforce simp: has_literals_in_first_column_def list_ex_iff)
    with assms(7) False have "set (collect_first_column_ctors m) \<noteq> ci_ctor ` set cset"
      using signature_complete(2) [OF assms(1-3)] by (auto simp: complete_signature_def)
    with seen_ctors_subset [OF assms(1-3)] obtain info where
      i: "info \<in> set cset" "ci_ctor info \<notin> set (collect_first_column_ctors m)" by blast
    note f = ctor_set_fields [OF assms(3) i(1)] False
    have "\<exists>us. list_all2 has_type us (ci_field_types info)"
      using assms(4) f by (intro fields_value inhabited_value) (blast intro: inhabited_field)
    then obtain us where "list_all2 has_type us (ci_field_types info)" by blast
    moreover have "\<not> tested m (V_Ctor (ci_ctor info) us)"
      using i nl by (auto simp: tested_def seen_ctors has_literals_in_first_column_def list_ex_iff)
    ultimately show ?thesis using f by (intro exI [of _ "V_Ctor (ci_ctor info) us"]) simp
  qed
qed

lemma plain_specialize: "plain_rows N m \<Longrightarrow> plain_rows N (specialize m c info)"
  by (fastforce simp: plain_rows_def specialize_def in_map_filter elim!: specialize_row.elims split: if_splits)

lemma plain_dropped:
  "plain_rows N m \<Longrightarrow> plain_rows N (default_matrix m)"
  "plain_rows N m \<Longrightarrow> plain_rows N (specialize_literal m l)"
  by (fastforce simp: plain_rows_def default_matrix_def specialize_literal_def in_map_filter
      elim!: default_row.elims specialize_literal_row.elims split: if_splits)+

lemma wildcards_fit: "length tys = n \<Longrightarrow> list_all2 pat_fits (replicate n SP_Wildcard) tys"
  by (auto simp: list_all2_conv_all_nth)

lemma split_values:
  assumes "list_all2 has_type vs (tys @ tys')"
  obtains us ws where "vs = us @ ws" "list_all2 has_type us tys" "list_all2 has_type ws tys'" "length us = length tys"
  using assms by (auto simp: list_all2_append2 list_all2_lengthD)

lemma useful_has_value:
  assumes "wf_rows m" "list_all2 pat_fits pat (m_col_types m)" "is_useful m pat"
    and "plain_rows N m" "spare N" "\<forall>ty\<in>set (m_col_types m). inhabited ty"
  shows "\<exists>vs. list_all2 has_type vs (m_col_types m) \<and> list_all2 pmatch pat vs \<and> \<not> covers m vs"
  using assms
proof (induction "cols_size (m_col_types m)" arbitrary: m pat rule: less_induct)
  case less
  have "list_all2 pat_ok pat (m_col_types m)"
    using less.prems(2) pat_fits_ok by (rule list_all2_mono)
  with less.prems(1) show ?case
  proof (cases rule: useful_cases)
    case nil
    with less.prems show ?thesis by (auto simp: covers_def m_is_empty_def)
  next
    case (ctor c args ps ty tys cset info)
    note f = ctor_set_fields [OF ctor(3,5,4)]
    have "\<exists>vs. list_all2 has_type vs (ci_field_types info @ tys) \<and> list_all2 pmatch (args @ ps) vs
        \<and> \<not> covers (specialize m c info) vs"
      using ctor less.prems specialized_smaller [OF ctor(2,3,5)] f
      unfolding specialize_col_types [OF ctor(2), where c = c and info = info, symmetric]
      by (intro less.hyps)
        (auto simp: specialize_col_types wf_specialize plain_specialize intro!: list_all2_appendI
          dest: inhabited_field)
    then obtain us ws where v: "list_all2 has_type us (ci_field_types info)" "list_all2 has_type ws tys"
      "length us = ci_arity info" "list_all2 pmatch (args @ ps) (us @ ws)" "\<not> covers (specialize m c info) (us @ ws)"
      using f by (auto elim!: split_values)
    moreover have "length args = length us" using ctor(7) f v(3) by (simp add: list_all2_lengthD)
    ultimately have "list_all2 has_type (V_Ctor c us # ws) (m_col_types m)" "list_all2 pmatch pat (V_Ctor c us # ws)"
      "\<not> covers m (V_Ctor c us # ws)"
      using ctor f covers_specialize [OF less.prems(1) ctor(2), of c info us ws] by (auto simp: list_all2_append)
    then show ?thesis by blast
  next
    case (literal l ps ty tys)
    then have "\<exists>vs. list_all2 has_type vs (m_col_types (specialize_literal m l)) \<and> list_all2 pmatch ps vs
        \<and> \<not> covers (specialize_literal m l) vs"
      using less.prems by (intro less.hyps) (auto simp: dropped_col_types wf_specialize_literal plain_dropped)
    then obtain ws where v: "list_all2 has_type ws tys" "list_all2 pmatch ps ws"
      "\<not> covers (specialize_literal m l) ws"
      using literal(2) by (auto simp: dropped_col_types)
    have "list_all2 has_type (literal_val l # ws) (m_col_types m) \<and> list_all2 pmatch pat (literal_val l # ws)
      \<and> \<not> covers m (literal_val l # ws)"
      using v literal less.prems(2) by (simp add: covers_literal)
    then show ?thesis by blast
  next
    case (bool ps tys)
    with less.prems(3) obtain b where b: "is_useful (specialize_literal m (SL_Bool b)) ps" by blast
    then have "\<exists>vs. list_all2 has_type vs (m_col_types (specialize_literal m (SL_Bool b)))
        \<and> list_all2 pmatch ps vs \<and> \<not> covers (specialize_literal m (SL_Bool b)) vs"
      using less.prems bool by (intro less.hyps) (auto simp: dropped_col_types wf_specialize_literal plain_dropped)
    then obtain ws where v: "list_all2 has_type ws tys" "list_all2 pmatch ps ws"
      "\<not> covers (specialize_literal m (SL_Bool b)) ws"
      using bool(2) by (auto simp: dropped_col_types)
    have "list_all2 has_type (V_Bool b # ws) (m_col_types m) \<and> list_all2 pmatch pat (V_Bool b # ws)
      \<and> \<not> covers m (V_Bool b # ws)"
      using v bool by (simp add: covers_literal)
    then show ?thesis by blast
  next
    case (complete ps ty tys cset)
    with less.prems(3) obtain info where i: "info \<in> set cset"
      "is_useful (specialize m (ci_ctor info) info) (replicate (ci_arity info) SP_Wildcard @ ps)" by blast
    note f = ctor_set_fields [OF complete(3) i(1) complete(4)]
    have "\<exists>vs. list_all2 has_type vs (ci_field_types info @ tys)
        \<and> list_all2 pmatch (replicate (ci_arity info) SP_Wildcard @ ps) vs
        \<and> \<not> covers (specialize m (ci_ctor info) info) vs"
      using complete less.prems specialized_smaller [OF complete(2,3) i(1)] f i(2)
      unfolding specialize_col_types [OF complete(2), where c = "ci_ctor info" and info = info, symmetric]
      by (intro less.hyps)
        (auto simp: specialize_col_types wf_specialize plain_specialize wildcards_fit intro!: list_all2_appendI
          dest: inhabited_field)
    then obtain us ws where v: "list_all2 has_type us (ci_field_types info)" "list_all2 has_type ws tys"
      "length us = ci_arity info" "list_all2 pmatch (replicate (ci_arity info) SP_Wildcard @ ps) (us @ ws)"
      "\<not> covers (specialize m (ci_ctor info) info) (us @ ws)"
      using f by (auto elim!: split_values)
    then have "list_all2 has_type (V_Ctor (ci_ctor info) us # ws) (m_col_types m)
      \<and> list_all2 pmatch pat (V_Ctor (ci_ctor info) us # ws) \<and> \<not> covers m (V_Ctor (ci_ctor info) us # ws)"
      using complete f covers_specialize [OF less.prems(1) complete(2), of "ci_ctor info" info us ws]
      by (auto simp: list_all2_append)
    then show ?thesis by blast
  next
    case (dflt ps ty tys cset)
    have "inhabited ty" using dflt(2) less.prems(6) by simp
    from untested_value [OF less.prems(1) dflt(2,3) this less.prems(4,5) dflt(5,6)]
    obtain v where v: "has_type v ty" "\<not> tested m v" by blast
    have "\<exists>vs. list_all2 has_type vs (m_col_types (default_matrix m)) \<and> list_all2 pmatch ps vs
        \<and> \<not> covers (default_matrix m) vs"
      using dflt less.prems by (intro less.hyps) (auto simp: dropped_col_types wf_default plain_dropped)
    then obtain ws where "list_all2 has_type ws tys" "list_all2 pmatch ps ws" "\<not> covers (default_matrix m) ws"
      using dflt(2) by (auto simp: dropped_col_types)
    with v dflt have "list_all2 has_type (v # ws) (m_col_types m) \<and> list_all2 pmatch pat (v # ws) \<and> \<not> covers m (v # ws)"
      by (simp add: covers_default)
    then show ?thesis by blast
  qed
qed

end
