(* ===== verification/Missing_Sound.thy ===== *)
theory Missing_Sound
  imports Exhaustiveness_Sound
begin

text \<open>
  What \<open>collect_missing_patterns\<close> reports: a pattern is reported exactly when a wildcard is useful, the
  reported patterns are well typed, and, without integer and unit literals in the matrix, the values they
  match are matched by no row.
\<close>

lemma no_ctor_for_literal_column:
  assumes "wf_rows m" "m_col_types m = ty # tys" "collect_first_column_ctors m \<noteq> []"
  shows "ty \<noteq> TBool"
proof -
  have "hd (collect_first_column_ctors m) \<in> set (collect_first_column_ctors m)" using assms(3) by simp
  with row_ctor_ok [OF assms(1,2)] have "ctor_fields ty (hd (collect_first_column_ctors m)) \<noteq> None"
    unfolding seen_ctors by blast
  then show ?thesis by auto
qed

lemma bool_column:
  assumes "wf_rows m" "m_col_types m = TBool # tys"
  shows "collect_first_column_ctors m = []"
  using no_ctor_for_literal_column [OF assms] by blast

text \<open>The shape of a matrix with a column, and the induction over the shrinking columns.\<close>

lemma column: "col_type m 0 = Some ty \<Longrightarrow> \<exists>tys. m_col_types m = ty # tys"
  by (auto simp: col_type_0 split: list.splits)

lemma dropped_smaller:
  assumes "m_col_types m = ty # tys"
  shows "cols_size (m_col_types (default_matrix m)) < cols_size (m_col_types m)"
    and "cols_size (m_col_types (specialize_literal m l)) < cols_size (m_col_types m)"
  using assms by (simp_all add: dropped_col_types)

lemma missing_ok:
  assumes "wf_rows m" "n = length (m_col_types m)" "row \<in> set (collect_missing_patterns m n)"
  shows "list_all2 pat_ok row (m_col_types m)"
  using assms
proof (induction "cols_size (m_col_types m)" arbitrary: m n row rule: less_induct)
  case less
  show ?case
  proof (cases rule: missing_cases [where m = m and n = n])
    case zero
    with less.prems show ?thesis by (simp add: missing_0 split: if_splits)
  next
    case no_column
    with less.prems show ?thesis by (simp add: col_type_0 split: list.splits)
  next
    case bool_both
    obtain tys where c: "m_col_types m = TBool # tys" using column [OF bool_both(2)] by blast
    from bool_both less.prems(3) obtain b r where r: "row = SP_Literal (SL_Bool b) # r"
      "r \<in> set (collect_missing_patterns (specialize_literal m (SL_Bool b)) (n - 1))"
      by (auto simp: missing_bool_both)
    have "list_all2 pat_ok r (m_col_types (specialize_literal m (SL_Bool b)))"
      by (rule less.hyps [OF dropped_smaller(2) [OF c] wf_specialize_literal [OF less.prems(1)] _ r(2)])
        (simp add: dropped_col_types [OF c] less.prems(2) c)
    with r c show ?thesis by (simp add: dropped_col_types [OF c])
  next
    case bool_partial
    obtain tys where c: "m_col_types m = TBool # tys" using column [OF bool_partial(2)] by blast
    from bool_partial less.prems(3) obtain b r where r: "row = SP_Literal (SL_Bool b) # r"
      "r \<in> set (collect_missing_patterns (default_matrix m) (n - 1))"
      by (auto simp: missing_bool_partial split: if_splits)
    have "list_all2 pat_ok r (m_col_types (default_matrix m))"
      by (rule less.hyps [OF dropped_smaller(1) [OF c] wf_default [OF less.prems(1)] _ r(2)])
        (simp add: dropped_col_types [OF c] less.prems(2) c)
    with r c show ?thesis by (simp add: dropped_col_types [OF c])
  next
    case (unseen ty cset)
    obtain tys where c: "m_col_types m = ty # tys" using column [OF unseen(2)] by blast
    from unseen less.prems(3) obtain r where r: "row = SP_Wildcard # r"
      "r \<in> set (collect_missing_patterns (default_matrix m) (n - 1))"
      by (auto simp: missing_unseen)
    have "list_all2 pat_ok r (m_col_types (default_matrix m))"
      by (rule less.hyps [OF dropped_smaller(1) [OF c] wf_default [OF less.prems(1)] _ r(2)])
        (simp add: dropped_col_types [OF c] less.prems(2) c)
    with r c show ?thesis by (simp add: dropped_col_types [OF c])
  next
    case (incomplete ty cset)
    obtain tys where c: "m_col_types m = ty # tys" using column [OF incomplete(2)] by blast
    note nb = no_ctor_for_literal_column [OF less.prems(1) c incomplete(5)]
    from incomplete less.prems(3) obtain info r where r: "info \<in> set cset"
      "row = SP_Ctor (ci_ctor info) (replicate (ci_arity info) SP_Wildcard) # r"
      "r \<in> set (collect_missing_patterns (default_matrix m) (n - 1))"
      by (auto simp: missing_incomplete split: if_splits)
    have "list_all2 pat_ok r (m_col_types (default_matrix m))"
      by (rule less.hyps [OF dropped_smaller(1) [OF c] wf_default [OF less.prems(1)] _ r(3)])
        (simp add: dropped_col_types [OF c] less.prems(2) c)
    with r c ctor_set_fields [OF incomplete(3) r(1) nb] show ?thesis
      by (simp add: dropped_col_types [OF c] wildcards_ok)
  next
    case (complete ty cset)
    obtain tys where c: "m_col_types m = ty # tys" using column [OF complete(2)] by blast
    note nb = no_ctor_for_literal_column [OF less.prems(1) c complete(5)]
    from complete less.prems(3) obtain info r where r: "info \<in> set cset"
      "row = wrap_ctor (ci_ctor info) (ci_arity info) r"
      "r \<in> set (collect_missing_patterns (specialize m (ci_ctor info) info) (ci_arity info + n - 1))"
      by (auto simp: missing_complete)
    note f = ctor_set_fields [OF complete(3) r(1) nb]
    have "list_all2 pat_ok r (m_col_types (specialize m (ci_ctor info) info))"
      using f by (intro less.hyps [OF specialized_smaller [OF c complete(3) r(1)]
            wf_specialize [OF less.prems(1) c f] _ r(3)])
        (simp add: specialize_col_types [OF c] less.prems(2) c)
    then have "list_all2 pat_ok (take (ci_arity info) r) (ci_field_types info)"
      "list_all2 pat_ok (drop (ci_arity info) r) tys"
      using f by (auto simp: specialize_col_types [OF c] list_all2_append2)
    with r(2) f c show ?thesis by simp
  qed
qed

lemma missing_iff_useful:
  assumes "wf_rows m" "n = length (m_col_types m)"
  shows "collect_missing_patterns m n \<noteq> [] \<longleftrightarrow> is_useful m (replicate n SP_Wildcard)"
  using assms
proof (induction "cols_size (m_col_types m)" arbitrary: m n rule: less_induct)
  case less
  have drop: "collect_missing_patterns (default_matrix m) (n - 1) \<noteq> []
      \<longleftrightarrow> is_useful (default_matrix m) (replicate (n - 1) SP_Wildcard)" if "m_col_types m = ty # tys" for ty tys
    using that less.prems
    by (intro less.hyps) (simp_all add: dropped_smaller wf_default dropped_col_types)
  have lit: "collect_missing_patterns (specialize_literal m l) (n - 1) \<noteq> []
      \<longleftrightarrow> is_useful (specialize_literal m l) (replicate (n - 1) SP_Wildcard)" if "m_col_types m = ty # tys" for ty tys l
    using that less.prems
    by (intro less.hyps) (simp_all add: dropped_smaller wf_specialize_literal dropped_col_types)
  have step: "n \<noteq> 0 \<Longrightarrow> replicate n SP_Wildcard = SP_Wildcard # replicate (n - 1) SP_Wildcard"
    by (cases n) simp_all
  show ?case
  proof (cases rule: missing_cases [where m = m and n = n])
    case zero
    then show ?thesis by (simp add: missing_0)
  next
    case no_column
    with less.prems show ?thesis by (simp add: col_type_0 split: list.splits)
  next
    case bool_both
    obtain tys where c: "m_col_types m = TBool # tys" using column [OF bool_both(2)] by blast
    with bool_both lit [OF c] show ?thesis
      by (simp add: missing_bool_both useful_bool step)
  next
    case bool_partial
    have "is_useful m (replicate n SP_Wildcard) = is_useful (default_matrix m) (replicate (n - 1) SP_Wildcard)"
      unfolding step [OF bool_partial(1)] using bool_partial
      by (intro useful_default [where ty = TBool]) (auto simp: complete_signature_def)
    moreover obtain ty tys where c: "m_col_types m = ty # tys" using column [OF bool_partial(2)] by blast
    ultimately show ?thesis using bool_partial drop [OF c]
      by (auto simp: missing_bool_partial)
  next
    case (unseen ty cset)
    have "is_useful m (replicate n SP_Wildcard) = is_useful (default_matrix m) (replicate (n - 1) SP_Wildcard)"
      unfolding step [OF unseen(1)] using unseen
      by (intro useful_default [where ty = ty]) (auto simp: complete_signature_def has_literals)
    moreover obtain ty tys where c: "m_col_types m = ty # tys" using column [OF unseen(2)] by blast
    ultimately show ?thesis using unseen drop [OF c]
      by (auto simp: missing_unseen)
  next
    case (incomplete ty cset)
    have "is_useful m (replicate n SP_Wildcard) = is_useful (default_matrix m) (replicate (n - 1) SP_Wildcard)"
      unfolding step [OF incomplete(1)] using incomplete
      by (intro useful_default [where ty = ty]) (auto simp: complete_signature_def has_literals)
    moreover obtain tys where c: "m_col_types m = ty # tys" using column [OF incomplete(2)] by blast
    moreover obtain info where "info \<in> set cset" "ci_ctor info \<notin> set (collect_first_column_ctors m)"
      using signature_complete(2) [OF less.prems(1) c incomplete(3)]
        seen_ctors_subset [OF less.prems(1) c incomplete(3)] incomplete(6) by auto
    ultimately show ?thesis
      using incomplete drop [OF c] by (auto simp: missing_incomplete)
  next
    case (complete ty cset)
    obtain tys where c: "m_col_types m = ty # tys" using column [OF complete(2)] by blast
    have nb: "ty \<noteq> TBool" by (rule no_ctor_for_literal_column [OF less.prems(1) c complete(5)])
    have len: "length (collect_first_column_ctors m) = length cset"
      using signature_complete(1) [OF less.prems(1) c complete(3)] complete(6) by simp
    have "\<not> has_literals_in_first_column m"
    proof
      assume "has_literals_in_first_column m"
      then obtain l where "literal_ok l ty"
        using row_literal_ok [OF less.prems(1) c] by (auto simp: has_literals_in_first_column_def list_ex_iff)
      moreover obtain c' where "ctor_fields ty c' \<noteq> None"
        using row_ctor_ok [OF less.prems(1) c] complete(5) seen_ctors by (metis list.set_sel(1))
      ultimately show False by (simp add: literal_no_ctors)
    qed
    with complete len have "complete_signature m cset" by (auto simp: complete_signature_def)
    then have "is_useful m (replicate n SP_Wildcard) \<longleftrightarrow> (\<exists>info\<in>set cset.
        is_useful (specialize m (ci_ctor info) info) (replicate (ci_arity info + n - 1) SP_Wildcard))"
      using complete by (simp add: step useful_complete replicate_add [symmetric])
    moreover have "collect_missing_patterns (specialize m (ci_ctor info) info) (ci_arity info + n - 1) \<noteq> []
      \<longleftrightarrow> is_useful (specialize m (ci_ctor info) info) (replicate (ci_arity info + n - 1) SP_Wildcard)"
      if i: "info \<in> set cset" for info
    proof (rule less.hyps [OF specialized_smaller [OF c complete(3) i]])
      note f = ctor_set_fields [OF complete(3) i nb]
      show "wf_rows (specialize m (ci_ctor info) info)" by (rule wf_specialize [OF less.prems(1) c f])
      with f show "ci_arity info + n - 1 = length (m_col_types (specialize m (ci_ctor info) info))"
        by (simp add: specialize_col_types [OF c] less.prems(2) c)
    qed
    ultimately show ?thesis using complete by (auto simp: missing_complete)
  qed
qed

lemma missing_uncovered:
  assumes "wf_rows m" "n = length (m_col_types m)" "plain_rows {} m"
    and "row \<in> set (collect_missing_patterns m n)"
    and "list_all2 has_type vs (m_col_types m)" "list_all2 pmatch row vs"
  shows "\<not> covers m vs"
  using assms
proof (induction "cols_size (m_col_types m)" arbitrary: m n row vs rule: less_induct)
  case less
  show ?case
  proof (cases rule: missing_cases [where m = m and n = n])
    case zero
    with less.prems show ?thesis by (auto simp: missing_0 covers_def m_is_empty_def split: if_splits)
  next
    case no_column
    with less.prems show ?thesis by (simp add: col_type_0 split: list.splits)
  next
    case bool_both
    obtain tys where c: "m_col_types m = TBool # tys" using column [OF bool_both(2)] by blast
    from bool_both less.prems(4) obtain b r where r: "row = SP_Literal (SL_Bool b) # r"
      "r \<in> set (collect_missing_patterns (specialize_literal m (SL_Bool b)) (n - 1))"
      by (auto simp: missing_bool_both)
    with less.prems(5,6) obtain ws where v: "vs = V_Bool b # ws" "list_all2 pmatch r ws"
      "list_all2 has_type ws tys"
      by (auto simp: list_all2_Cons1 c)
    have "\<not> covers (specialize_literal m (SL_Bool b)) ws"
      by (rule less.hyps [OF dropped_smaller(2) [OF c] _ _ _ r(2) _ v(2)])
        (use less.prems v(3) in \<open>auto simp: c dropped_col_types [OF c] wf_specialize_literal plain_dropped\<close>)
    with v show ?thesis by (simp add: covers_literal)
  next
    case bool_partial
    obtain tys where c: "m_col_types m = TBool # tys" using column [OF bool_partial(2)] by blast
    from bool_partial less.prems(4) obtain b r where r: "row = SP_Literal (SL_Bool b) # r"
      "r \<in> set (collect_missing_patterns (default_matrix m) (n - 1))"
      "SL_Bool b \<notin> set (collect_first_column_literals m)"
      by (auto simp: missing_bool_partial split: if_splits)
    with less.prems(5,6) obtain ws where v: "vs = literal_val (SL_Bool b) # ws" "list_all2 pmatch r ws"
      "list_all2 has_type ws tys"
      by (auto simp: list_all2_Cons1 c)
    have "\<not> covers (default_matrix m) ws"
      by (rule less.hyps [OF dropped_smaller(1) [OF c] _ _ _ r(2) _ v(2)])
        (use less.prems v(3) in \<open>auto simp: c dropped_col_types [OF c] wf_default plain_dropped\<close>)
    moreover have "\<not> tested m (literal_val (SL_Bool b))"
      using r(3) by (auto simp: tested_def seen_literals simp del: literal_val.simps)
    ultimately show ?thesis unfolding v(1) using covers_default by blast
  next
    case (unseen ty cset)
    obtain tys where c: "m_col_types m = ty # tys" using column [OF unseen(2)] by blast
    from unseen less.prems(4) obtain r where r: "row = SP_Wildcard # r"
      "r \<in> set (collect_missing_patterns (default_matrix m) (n - 1))"
      by (auto simp: missing_unseen)
    with less.prems(5,6) obtain v ws where v: "vs = v # ws" "list_all2 pmatch r ws"
      "list_all2 has_type ws tys"
      by (auto simp: list_all2_Cons1 c)
    have "\<not> covers (default_matrix m) ws"
      by (rule less.hyps [OF dropped_smaller(1) [OF c] _ _ _ r(2) _ v(2)])
        (use less.prems v(3) in \<open>auto simp: c dropped_col_types [OF c] wf_default plain_dropped\<close>)
    moreover have "\<not> tested m v"
    proof
      assume "tested m v"
      moreover have "row_ctor row = None" if "row \<in> set (m_rows m)" for row
        using that unseen(5) seen_ctors [of _ m] by (cases "row_ctor row") auto
      ultimately obtain row l where l: "row \<in> set (m_rows m)" "row_literal row = Some l"
        by (auto simp: tested_def)
      then have "plain {} (SP_Literal l)"
        using less.prems(3) by (cases row rule: row_literal.cases) (auto simp: plain_rows_def)
      then obtain b where "l = SL_Bool b" by (cases l) auto
      with l row_literal_ok [OF less.prems(1) c l] unseen(4) show False
        by (auto simp: has_literals_in_first_column_def list_ex_iff)
    qed
    ultimately show ?thesis unfolding v(1) using covers_default by blast
  next
    case (incomplete ty cset)
    obtain tys where c: "m_col_types m = ty # tys" using column [OF incomplete(2)] by blast
    from incomplete less.prems(4) obtain info r where r: "info \<in> set cset"
      "row = SP_Ctor (ci_ctor info) (replicate (ci_arity info) SP_Wildcard) # r"
      "r \<in> set (collect_missing_patterns (default_matrix m) (n - 1))"
      "ci_ctor info \<notin> set (collect_first_column_ctors m)"
      by (auto simp: missing_incomplete split: if_splits)
    with less.prems(5,6) obtain us ws where v: "vs = V_Ctor (ci_ctor info) us # ws" "list_all2 pmatch r ws"
      "list_all2 has_type ws tys"
      by (auto simp: list_all2_Cons1 c)
    have "\<not> covers (default_matrix m) ws"
      by (rule less.hyps [OF dropped_smaller(1) [OF c] _ _ _ r(3) _ v(2)])
        (use less.prems v(3) in \<open>auto simp: c dropped_col_types [OF c] wf_default plain_dropped\<close>)
    moreover have "\<not> tested m (V_Ctor (ci_ctor info) us)"
      using r(4) by (auto simp: tested_def seen_ctors)
    ultimately show ?thesis unfolding v(1) using covers_default by blast
  next
    case (complete ty cset)
    obtain tys where c: "m_col_types m = ty # tys" using column [OF complete(2)] by blast
    note nb = no_ctor_for_literal_column [OF less.prems(1) c complete(5)]
    from complete less.prems(4) obtain info r where r: "info \<in> set cset"
      "row = wrap_ctor (ci_ctor info) (ci_arity info) r"
      "r \<in> set (collect_missing_patterns (specialize m (ci_ctor info) info) (ci_arity info + n - 1))"
      by (auto simp: missing_complete)
    note f = ctor_set_fields [OF complete(3) r(1) nb]
    from r(2) less.prems(5,6) obtain us ws where v: "vs = V_Ctor (ci_ctor info) us # ws"
      "list_all2 pmatch (take (ci_arity info) r) us" "list_all2 pmatch (drop (ci_arity info) r) ws"
      "has_type (V_Ctor (ci_ctor info) us) ty" "list_all2 has_type ws tys"
      by (auto simp: list_all2_Cons1 c)
    note cv = ctor_value [OF v(4) complete(3) r(1) nb refl]
    have "list_all2 pmatch (take (ci_arity info) r @ drop (ci_arity info) r) (us @ ws)"
      using v(2,3) by (rule list_all2_appendI)
    then have mt: "list_all2 pmatch r (us @ ws)" by simp
    have "\<not> covers (specialize m (ci_ctor info) info) (us @ ws)"
      using f less.prems v(5) cv
      by (intro less.hyps [OF specialized_smaller [OF c complete(3) r(1)]
            wf_specialize [OF less.prems(1) c f] _ plain_specialize [OF less.prems(3)] r(3) _ mt])
        (auto simp: c specialize_col_types [OF c] intro!: list_all2_appendI)
    with v covers_specialize [OF less.prems(1) c f cv(2)] show ?thesis by simp
  qed
qed

end
