(* ===== verification/Match_Check_Sound.thy ===== *)
theory Match_Check_Sound
  imports Match_Check Missing_Sound
begin

text \<open>
  Correctness of \<open>lower_pattern\<close>, \<open>check_match\<close> and \<open>missing_patterns\<close> against the meaning of typed
  patterns: \<open>tp_with\<close> is what pattern inference guarantees of a typed pattern (names resolve, struct
  patterns list every field once, tuples have the right arity), \<open>tmatch\<close> says which values it matches.
\<close>

section \<open>Typed patterns\<close>

definition fields_ok :: "TypedPattern TypedStructPatternField list \<Rightarrow> Type RecordFieldType list \<Rightarrow> bool" where
  "fields_ok fs flds \<longleftrightarrow> distinct (map (\<lambda>f. id_name (pat_field_name f)) fs)
     \<and> (\<forall>tf\<in>set flds. \<exists>f\<in>set fs. id_name (pat_field_name f) = id_name (field_name tf))
     \<and> (\<forall>f\<in>set fs. \<exists>tf\<in>set flds. id_name (pat_field_name f) = id_name (field_name tf))"

definition variants_distinct :: "Type EnumType \<Rightarrow> bool" where
  "variants_distinct e = distinct (map (\<lambda>v. id_name (variant_name v)) (enum_variants e))"

definition variant_at :: "Type EnumType \<Rightarrow> ScopedName \<Rightarrow> nat \<Rightarrow> bool" where
  "variant_at e name i \<longleftrightarrow> name \<noteq> [] \<and> i < length (enum_variants e)
     \<and> id_name (variant_name (enum_variants e ! i)) = id_name (last name)"

text \<open>The index of the variant a path names.\<close>

definition variant_index :: "Type EnumType \<Rightarrow> ScopedName \<Rightarrow> nat option" where
  "variant_index e name = (if name = [] then None
     else find (variant_at e name) [0..<length (enum_variants e)])"

function tp_with :: "(Literal \<Rightarrow> Type \<Rightarrow> bool) \<Rightarrow> TypedPattern \<Rightarrow> Type \<Rightarrow> bool" where
  "tp_with L (TP_Binding i) ty = True"
| "tp_with L TP_Wildcard ty = True"
| "tp_with L (TP_Literal lit) ty = L lit ty"
| "tp_with L (TP_Struct name fs) ty =
     (name \<noteq> [] \<and>
      (case ty of
         TRecord r \<Rightarrow> id_name (last name) = id_name (record_name r) \<and> fields_ok fs (record_fields r)
           \<and> (\<forall>tf\<in>set (record_fields r). \<forall>f\<in>set fs.
                id_name (pat_field_name f) = id_name (field_name tf) \<longrightarrow> tp_with L (pat_field_pattern f) (field_ty tf))
       | TEnum e \<Rightarrow> variants_distinct e
           \<and> (case variant_index e name of None \<Rightarrow> False
              | Some i \<Rightarrow> (case variant_kind (enum_variants e ! i) of
                  EV_Struct flds \<Rightarrow> fields_ok fs flds
                    \<and> (\<forall>tf\<in>set flds. \<forall>f\<in>set fs.
                        id_name (pat_field_name f) = id_name (field_name tf) \<longrightarrow> tp_with L (pat_field_pattern f) (field_ty tf))
                | _ \<Rightarrow> False))
       | _ \<Rightarrow> False))"
| "tp_with L (TP_Tuple name ps) ty =
     (name \<noteq> [] \<and>
      (case ty of
         TEnum e \<Rightarrow> variants_distinct e
           \<and> (case variant_index e name of None \<Rightarrow> False
              | Some i \<Rightarrow> (case variant_kind (enum_variants e ! i) of
                  EV_Tuple tys \<Rightarrow> length ps = length tys \<and> (\<forall>(p, t)\<in>set (zip ps tys). tp_with L p t)
                | _ \<Rightarrow> False))
       | _ \<Rightarrow> False))"
| "tp_with L (TP_AnonTuple ps) ty =
     (case ty of
        TTuple tys \<Rightarrow> length ps = length tys \<and> (\<forall>(p, t)\<in>set (zip ps tys). tp_with L p t)
      | _ \<Rightarrow> False)"
| "tp_with L (TP_Constant name variant) ty =
     (case ty of
        TEnum e \<Rightarrow> variant_at e name variant \<and> variant_kind (enum_variants e ! variant) = EV_Unit
      | _ \<Rightarrow> False)"
  by pat_completeness auto
termination
  by (relation "measure (\<lambda>(L, p, ty). size p)")
    (auto dest!: field_pattern_size sub_pattern_size set_zip_leftD intro: less_SucI)

fun literal_meaning :: "Literal \<Rightarrow> Val option" where
  "literal_meaning (L_Integer n) = map_option V_Int (literal_value n)"
| "literal_meaning (L_Boolean b) = Some (V_Bool b)"
| "literal_meaning L_Unit = Some V_Unit"

function tmatch :: "TypedPattern \<Rightarrow> Type \<Rightarrow> Val \<Rightarrow> bool" where
  "tmatch (TP_Binding i) ty v = True"
| "tmatch TP_Wildcard ty v = True"
| "tmatch (TP_Literal lit) ty v = (literal_meaning lit = Some v)"
| "tmatch (TP_Struct name fs) ty v =
     (case (ty, v) of
        (TRecord r, V_Ctor c vs) \<Rightarrow>
          list_all2 (\<lambda>tf u. \<forall>f\<in>set fs. id_name (pat_field_name f) = id_name (field_name tf) \<longrightarrow>
             tmatch (pat_field_pattern f) (field_ty tf) u) (record_fields r) vs
      | (TEnum e, V_Ctor (C_EnumVariant en i vn) vs) \<Rightarrow>
          variant_index e name = Some i \<and>
          list_all2 (\<lambda>tf u. \<forall>f\<in>set fs. id_name (pat_field_name f) = id_name (field_name tf) \<longrightarrow>
             tmatch (pat_field_pattern f) (field_ty tf) u) (struct_fields (variant_kind (enum_variants e ! i))) vs
      | _ \<Rightarrow> False)"
| "tmatch (TP_Tuple name ps) ty v =
     (case (ty, v) of
        (TEnum e, V_Ctor (C_EnumVariant en i vn) vs) \<Rightarrow>
          variant_index e name = Some i \<and>
          list_all2 (\<lambda>(p, t) u. tmatch p t u) (zip ps (kind_fields (variant_kind (enum_variants e ! i)))) vs
      | _ \<Rightarrow> False)"
| "tmatch (TP_AnonTuple ps) ty v =
     (case (ty, v) of
        (TTuple tys, V_Ctor c vs) \<Rightarrow> list_all2 (\<lambda>(p, t) u. tmatch p t u) (zip ps tys) vs
      | _ \<Rightarrow> False)"
| "tmatch (TP_Constant name variant) ty v =
     (case v of V_Ctor (C_EnumVariant en i vn) vs \<Rightarrow> i = variant | _ \<Rightarrow> False)"
  by pat_completeness auto
termination
  by (relation "measure (\<lambda>(p, ty, v). size p)")
    (auto dest!: field_pattern_size sub_pattern_size set_zip_leftD intro: less_SucI)

text \<open>What inference guarantees of literals; and literals that fit their types, with the integers in \<open>N\<close>
  and no unit literal.\<close>

fun lit_typed :: "Literal \<Rightarrow> Type \<Rightarrow> bool" where
  "lit_typed (L_Integer n) ty = (literal_value n \<noteq> None \<and> ty = TInt I64)"
| "lit_typed (L_Boolean b) ty = (ty = TBool)"
| "lit_typed L_Unit ty = (ty = TUnit)"

fun lit_plain :: "int set \<Rightarrow> Literal \<Rightarrow> Type \<Rightarrow> bool" where
  "lit_plain N (L_Integer n) ty = (\<exists>k\<in>N. literal_value n = Some k \<and> ty = TInt I64 \<and> fits I64 k)"
| "lit_plain N (L_Boolean b) ty = (ty = TBool)"
| "lit_plain N L_Unit ty = False"

abbreviation tp_ok :: "TypedPattern \<Rightarrow> Type \<Rightarrow> bool" where
  "tp_ok \<equiv> tp_with lit_typed"

abbreviation tp_plain :: "int set \<Rightarrow> TypedPattern \<Rightarrow> Type \<Rightarrow> bool" where
  "tp_plain N \<equiv> tp_with (lit_plain N)"

section \<open>Lowering is faithful\<close>

text \<open>The lowered pattern is well typed and matches the same values.\<close>

definition lowers :: "bool \<Rightarrow> int set \<Rightarrow> TypedPattern \<Rightarrow> Type \<Rightarrow> SimplePat \<Rightarrow> bool" where
  "lowers strict N p ty sp \<longleftrightarrow> pat_ok sp ty \<and> (\<forall>v. has_type v ty \<longrightarrow> pmatch sp v = tmatch p ty v)
     \<and> (strict \<longrightarrow> pat_fits sp ty \<and> plain N sp)"

lemma variant_index_Some:
  assumes "variant_index e name = Some i"
  shows "variant_at e name i" "name \<noteq> []"
  using assms by (auto simp: variant_index_def find_Some_iff split: if_splits)

lemma find_variant_index:
  assumes "variant_index e name = Some i"
  shows "find_variant e (last name) = (i, enum_variants e ! i)"
proof -
  let ?P = "\<lambda>(i, v). id_name (variant_name v) = id_name (last name)"
  from assms obtain j where j: "j < length (enum_variants e)" "i = j" "variant_at e name j"
    "\<forall>k<j. \<not> variant_at e name k"
    by (auto simp: variant_index_def find_Some_iff split: if_splits)
  have "find ?P (enumerate 0 (enum_variants e)) = Some (i, enum_variants e ! i)"
    using j by (auto simp: find_Some_iff variant_at_def nth_enumerate_eq intro!: exI [of _ j])
  then show ?thesis by (simp add: find_variant_def)
qed

lemma variant_index_unique:
  assumes "variants_distinct e" "variant_at e name i"
  shows "variant_index e name = Some i"
proof -
  from assms have "\<not> variant_at e name k" if "k < i" for k
    using that nth_eq_iff_index_eq [of "map (\<lambda>v. id_name (variant_name v)) (enum_variants e)" k i]
    by (auto simp: variants_distinct_def variant_at_def)
  with assms(2) show ?thesis
    by (auto simp: variant_index_def find_Some_iff variant_at_def intro!: exI [of _ i])
qed

lemma map_out_total:
  assumes "\<And>x. x \<in> set xs \<Longrightarrow> \<exists>a. g x = Ok a \<and> R x a"
  shows "\<exists>as. map_out g xs = Ok as \<and> list_all2 R xs as"
  using assms
proof (induction xs)
  case (Cons x xs)
  then obtain a as where "g x = Ok a" "R x a" "map_out g xs = Ok as" "list_all2 R xs as" by force
  then show ?case by auto
qed simp

text \<open>From the arguments to the constructor pattern.\<close>

lemma lowers_args:
  assumes "list_all2 (\<lambda>x a. pat_ok a (t x) \<and> (\<forall>v. has_type v (t x) \<longrightarrow> pmatch a v = M x v)
      \<and> (strict \<longrightarrow> pat_fits a (t x) \<and> plain N a)) xs as"
  shows "list_all2 pat_ok as (map t xs)"
    and "list_all2 has_type vs (map t xs) \<Longrightarrow> list_all2 pmatch as vs = list_all2 M xs vs"
    and "strict \<Longrightarrow> list_all2 pat_fits as (map t xs) \<and> (\<forall>a\<in>set as. plain N a)"
  using assms by (auto simp: list_all2_conv_all_nth in_set_conv_nth)

lemma find_field_unique:
  assumes "fields_ok fs flds" "tf \<in> set flds"
  obtains f where "find_field (id_name (field_name tf)) fs = Some f" "f \<in> set fs"
    "id_name (pat_field_name f) = id_name (field_name tf)"
    "\<And>f'. f' \<in> set fs \<Longrightarrow> id_name (pat_field_name f') = id_name (field_name tf) \<Longrightarrow> f' = f"
proof -
  from assms obtain f where f: "f \<in> set fs" "id_name (pat_field_name f) = id_name (field_name tf)"
    by (auto simp: fields_ok_def)
  then obtain g where g: "find_field (id_name (field_name tf)) fs = Some g"
    by (cases "find_field (id_name (field_name tf)) fs") (auto simp: find_field_def find_None_iff)
  then have "g \<in> set fs" "id_name (pat_field_name g) = id_name (field_name tf)"
    by (auto simp: find_field_def find_Some_iff)
  moreover have "\<And>f'. f' \<in> set fs \<Longrightarrow> id_name (pat_field_name f') = id_name (field_name tf) \<Longrightarrow> f' = g"
    using assms(1) calculation by (auto simp: fields_ok_def distinct_map inj_on_def)
  ultimately show thesis using that g by blast
qed

lemma lower_struct_args:
  assumes "fields_ok fs flds"
    and IH: "\<And>tf f. tf \<in> set flds \<Longrightarrow> f \<in> set fs \<Longrightarrow> id_name (pat_field_name f) = id_name (field_name tf) \<Longrightarrow>
      \<exists>sp. lower_pattern (pat_field_pattern f) (field_ty tf) = Ok sp
        \<and> lowers strict N (pat_field_pattern f) (field_ty tf) sp"
  shows "\<exists>args. map_out (\<lambda>tf. case find_field (id_name (field_name tf)) fs of
                        None \<Rightarrow> Ok SP_Wildcard
                      | Some f \<Rightarrow> lower_pattern (pat_field_pattern f) (field_ty tf)) flds = Ok args
     \<and> list_all2 (\<lambda>tf a. pat_ok a (field_ty tf)
        \<and> (\<forall>v. has_type v (field_ty tf) \<longrightarrow> pmatch a v =
             (\<forall>f\<in>set fs. id_name (pat_field_name f) = id_name (field_name tf) \<longrightarrow>
                tmatch (pat_field_pattern f) (field_ty tf) v))
        \<and> (strict \<longrightarrow> pat_fits a (field_ty tf) \<and> plain N a)) flds args"
proof (rule map_out_total)
  fix tf assume tf: "tf \<in> set flds"
  from find_field_unique [OF assms(1) tf] obtain f where f:
    "find_field (id_name (field_name tf)) fs = Some f" "f \<in> set fs"
    "id_name (pat_field_name f) = id_name (field_name tf)"
    "\<And>f'. f' \<in> set fs \<Longrightarrow> id_name (pat_field_name f') = id_name (field_name tf) \<Longrightarrow> f' = f" by metis
  from IH [OF tf f(2,3)] obtain sp where sp: "lower_pattern (pat_field_pattern f) (field_ty tf) = Ok sp"
    "lowers strict N (pat_field_pattern f) (field_ty tf) sp" by blast
  have "(\<forall>f'\<in>set fs. id_name (pat_field_name f') = id_name (field_name tf) \<longrightarrow>
      tmatch (pat_field_pattern f') (field_ty tf) v) = tmatch (pat_field_pattern f) (field_ty tf) v" for v
    using f by blast
  with f(1) sp show "\<exists>a. (case find_field (id_name (field_name tf)) fs of None \<Rightarrow> Ok SP_Wildcard
      | Some f \<Rightarrow> lower_pattern (pat_field_pattern f) (field_ty tf)) = Ok a
    \<and> (pat_ok a (field_ty tf)
        \<and> (\<forall>v. has_type v (field_ty tf) \<longrightarrow> pmatch a v =
             (\<forall>f\<in>set fs. id_name (pat_field_name f) = id_name (field_name tf) \<longrightarrow>
                tmatch (pat_field_pattern f) (field_ty tf) v))
        \<and> (strict \<longrightarrow> pat_fits a (field_ty tf) \<and> plain N a))"
    by (simp add: lowers_def)
qed

lemma lower_tuple_args:
  assumes "length ps = length tys"
    and IH: "\<And>p t. (p, t) \<in> set (zip ps tys) \<Longrightarrow> \<exists>sp. lower_pattern p t = Ok sp \<and> lowers strict N p t sp"
  shows "\<exists>args. map_out (\<lambda>(p, t). lower_pattern p t) (zip ps tys) = Ok args
     \<and> list_all2 (\<lambda>x a. pat_ok a (snd x)
        \<and> (\<forall>v. has_type v (snd x) \<longrightarrow> pmatch a v = (\<lambda>(p, t) u. tmatch p t u) x v)
        \<and> (strict \<longrightarrow> pat_fits a (snd x) \<and> plain N a)) (zip ps tys) args"
  by (rule map_out_total) (use IH in \<open>auto simp: lowers_def\<close>)

text \<open>A constructor pattern over arguments that lower faithfully.\<close>

lemma lowers_ctor:
  assumes "list_all2 (\<lambda>x a. pat_ok a (t x) \<and> (\<forall>v. has_type v (t x) \<longrightarrow> pmatch a v = M x v)
      \<and> (strict \<longrightarrow> pat_fits a (t x) \<and> plain N a)) xs args"
    and "ctor_fields ty c = Some (map t xs)"
    and "\<And>v. has_type v ty \<Longrightarrow> tmatch p ty v \<longleftrightarrow> (\<exists>us. v = V_Ctor c us \<and> list_all2 M xs us)"
  shows "lowers strict N p ty (SP_Ctor c args)"
  unfolding lowers_def
proof (intro conjI impI allI)
  show "pat_ok (SP_Ctor c args) ty" using lowers_args(1) [OF assms(1)] assms(2) by simp
  show "pat_fits (SP_Ctor c args) ty" "plain N (SP_Ctor c args)" if strict
    using lowers_args(3) [OF assms(1) that] assms(2) by simp_all
  fix v assume "has_type v ty"
  with assms(2) lowers_args(2) [OF assms(1)] show "pmatch (SP_Ctor c args) v = tmatch p ty v"
    by (auto simp: assms(3))
qed

lemma enum_ctor_fields:
  assumes "variant_at e name i"
  shows "ctor_fields (TEnum e) (C_EnumVariant (id_name (enum_name e)) i (id_name (last name))) =
    Some (kind_fields (variant_kind (enum_variants e ! i)))"
  using assms by (simp add: variant_at_def)

lemma enum_value:
  assumes "has_type v (TEnum e)"
  obtains i us where "v = V_Ctor (C_EnumVariant (id_name (enum_name e)) i (id_name (variant_name (enum_variants e ! i)))) us"
    "i < length (enum_variants e)" "list_all2 has_type us (kind_fields (variant_kind (enum_variants e ! i)))"
proof (cases v)
  case (V_Ctor c us)
  with assms that show thesis by (cases c) (auto split: if_splits)
qed (use assms in auto)

lemma lower_faithful:
  assumes "tp_with L p ty" "\<And>l ty. L l ty \<Longrightarrow> lit_typed l ty"
    and "\<And>l ty. strict \<Longrightarrow> L l ty \<Longrightarrow> lit_plain N l ty"
  shows "\<exists>sp. lower_pattern p ty = Ok sp \<and> lowers strict N p ty sp"
  using assms(1)
proof (induction p ty rule: lower_pattern.induct)
  case (3 lit ty)
  then have "lit_typed lit ty" "strict \<Longrightarrow> lit_plain N lit ty" using assms(2,3) by auto
  then show ?case
    by (cases lit) (auto simp: lowers_def lower_literal_def)
next
  case (4 name fs ty)
  then have n: "last_opt name = Some (last name)" by (simp add: last_opt_def)
  show ?case
  proof (cases ty)
    case (TRecord r)
    with 4 have ok: "fields_ok fs (record_fields r)" "id_name (last name) = id_name (record_name r)" by auto
    have "\<exists>sp. lower_pattern (pat_field_pattern f) (field_ty tf) = Ok sp
        \<and> lowers strict N (pat_field_pattern f) (field_ty tf) sp"
      if x: "tf \<in> set (record_fields r)" "f \<in> set fs" "id_name (pat_field_name f) = id_name (field_name tf)" for tf f
    proof -
      from find_field_unique [OF ok(1) x(1)] x have "find_field (id_name (field_name tf)) fs = Some f" by metis
      from "4.IH"(1) [OF n TRecord x(1) this] "4.prems" TRecord x show ?thesis by auto
    qed
    from lower_struct_args [OF ok(1), OF this] obtain args where a:
      "map_out (\<lambda>tf. case find_field (id_name (field_name tf)) fs of None \<Rightarrow> Ok SP_Wildcard
         | Some f \<Rightarrow> lower_pattern (pat_field_pattern f) (field_ty tf)) (record_fields r) = Ok args"
      "list_all2 (\<lambda>tf a. pat_ok a (field_ty tf) \<and> (\<forall>v. has_type v (field_ty tf) \<longrightarrow> pmatch a v =
             (\<forall>f\<in>set fs. id_name (pat_field_name f) = id_name (field_name tf) \<longrightarrow>
                tmatch (pat_field_pattern f) (field_ty tf) v))
        \<and> (strict \<longrightarrow> pat_fits a (field_ty tf) \<and> plain N a)) (record_fields r) args" by blast
    have "lowers strict N (TP_Struct name fs) ty (SP_Ctor (C_Record (id_name (last name))) args)"
    proof (rule lowers_ctor [OF a(2)])
      show "ctor_fields ty (C_Record (id_name (last name))) = Some (map field_ty (record_fields r))"
        using TRecord ok by simp
      fix v assume "has_type v ty"
      with TRecord ok obtain us where "v = V_Ctor (C_Record (id_name (last name))) us"
        by (cases v) (auto split: option.splits if_splits elim!: ctor_fields.elims)
      then show "tmatch (TP_Struct name fs) ty v \<longleftrightarrow> (\<exists>us. v = V_Ctor (C_Record (id_name (last name))) us
        \<and> list_all2 (\<lambda>tf u. \<forall>f\<in>set fs. id_name (pat_field_name f) = id_name (field_name tf) \<longrightarrow>
             tmatch (pat_field_pattern f) (field_ty tf) u) (record_fields r) us)"
        using TRecord by simp
    qed
    with n TRecord a(1) show ?thesis by (simp add: expect_def)
  next
    case (TEnum e)
    with "4.prems" obtain i flds where i: "variants_distinct e" "variant_index e name = Some i"
      "variant_kind (enum_variants e ! i) = EV_Struct flds" "fields_ok fs flds"
      by (auto split: option.splits EnumVariantKind.splits)
    note va = variant_index_Some [OF i(2)] and fv = find_variant_index [OF i(2)]
    have "\<exists>sp. lower_pattern (pat_field_pattern f) (field_ty tf) = Ok sp
        \<and> lowers strict N (pat_field_pattern f) (field_ty tf) sp"
      if x: "tf \<in> set flds" "f \<in> set fs" "id_name (pat_field_name f) = id_name (field_name tf)" for tf f
    proof -
      from find_field_unique [OF i(4) x(1)] x have ff: "find_field (id_name (field_name tf)) fs = Some f" by metis
      from x have "tf \<in> set (struct_fields (variant_kind (enum_variants e ! i)))" by (simp add: i)
      from "4.IH"(2) [OF n TEnum fv [symmetric] refl this ff] "4.prems" TEnum x i show ?thesis by auto
    qed
    from lower_struct_args [OF i(4), OF this] obtain args where a:
      "map_out (\<lambda>tf. case find_field (id_name (field_name tf)) fs of None \<Rightarrow> Ok SP_Wildcard
         | Some f \<Rightarrow> lower_pattern (pat_field_pattern f) (field_ty tf)) flds = Ok args"
      "list_all2 (\<lambda>tf a. pat_ok a (field_ty tf) \<and> (\<forall>v. has_type v (field_ty tf) \<longrightarrow> pmatch a v =
             (\<forall>f\<in>set fs. id_name (pat_field_name f) = id_name (field_name tf) \<longrightarrow>
                tmatch (pat_field_pattern f) (field_ty tf) v))
        \<and> (strict \<longrightarrow> pat_fits a (field_ty tf) \<and> plain N a)) flds args" by blast
    have "lowers strict N (TP_Struct name fs) ty
      (SP_Ctor (C_EnumVariant (id_name (enum_name e)) i (id_name (last name))) args)"
    proof (rule lowers_ctor [OF a(2)])
      show "ctor_fields ty (C_EnumVariant (id_name (enum_name e)) i (id_name (last name))) = Some (map field_ty flds)"
        using enum_ctor_fields [OF va(1)] TEnum i by simp
      fix v assume "has_type v ty"
      with TEnum enum_value obtain j us where v: "v = V_Ctor (C_EnumVariant (id_name (enum_name e)) j
        (id_name (variant_name (enum_variants e ! j)))) us" by metis
      then show "tmatch (TP_Struct name fs) ty v \<longleftrightarrow>
        (\<exists>us. v = V_Ctor (C_EnumVariant (id_name (enum_name e)) i (id_name (last name))) us
        \<and> list_all2 (\<lambda>tf u. \<forall>f\<in>set fs. id_name (pat_field_name f) = id_name (field_name tf) \<longrightarrow>
             tmatch (pat_field_pattern f) (field_ty tf) u) flds us)"
        using TEnum i va by (auto simp: variant_at_def)
    qed
    with n TEnum a(1) fv i show ?thesis by (simp add: expect_def)
  qed (use 4 in auto)
next
  case (5 name ps ty)
  then have n: "last_opt name = Some (last name)" by (simp add: last_opt_def)
  from 5 obtain e i tys where e: "ty = TEnum e" and i: "variants_distinct e" "variant_index e name = Some i"
    "variant_kind (enum_variants e ! i) = EV_Tuple tys" "length ps = length tys"
    "\<forall>(p, t)\<in>set (zip ps tys). tp_with L p t"
    by (auto split: option.splits EnumVariantKind.splits Type.splits)
  note va = variant_index_Some [OF i(2)] and fv = find_variant_index [OF i(2)]
  have "\<exists>sp. lower_pattern p t = Ok sp \<and> lowers strict N p t sp" if x: "(p, t) \<in> set (zip ps tys)" for p t
  proof -
    from x have "(p, t) \<in> set (zip ps (tuple_types (length ps) (variant_kind (enum_variants e ! i))))" by (simp add: i)
    from "5.IH" [OF n e fv [symmetric] refl this refl] i(5) x show ?thesis by auto
  qed
  from lower_tuple_args [OF i(4), OF this] obtain args where a:
    "map_out (\<lambda>(p, t). lower_pattern p t) (zip ps tys) = Ok args"
    "list_all2 (\<lambda>x a. pat_ok a (snd x) \<and> (\<forall>v. has_type v (snd x) \<longrightarrow> pmatch a v = (\<lambda>(p, t) u. tmatch p t u) x v)
        \<and> (strict \<longrightarrow> pat_fits a (snd x) \<and> plain N a)) (zip ps tys) args" by blast
  have "lowers strict N (TP_Tuple name ps) ty
    (SP_Ctor (C_EnumVariant (id_name (enum_name e)) i (id_name (last name))) args)"
  proof (rule lowers_ctor [OF a(2)])
    show "ctor_fields ty (C_EnumVariant (id_name (enum_name e)) i (id_name (last name))) = Some (map snd (zip ps tys))"
      using enum_ctor_fields [OF va(1)] e i by simp
    fix v assume "has_type v ty"
    with e enum_value obtain j us where v: "v = V_Ctor (C_EnumVariant (id_name (enum_name e)) j
      (id_name (variant_name (enum_variants e ! j)))) us" by metis
    then show "tmatch (TP_Tuple name ps) ty v \<longleftrightarrow>
      (\<exists>us. v = V_Ctor (C_EnumVariant (id_name (enum_name e)) i (id_name (last name))) us
        \<and> list_all2 (\<lambda>(p, t) u. tmatch p t u) (zip ps tys) us)"
      using e i va by (auto simp: variant_at_def)
  qed
  with n e a(1) fv i show ?case by (simp add: expect_def)
next
  case (6 ps ty)
  then obtain tys where e: "ty = TTuple tys" and i: "length ps = length tys"
    "\<forall>(p, t)\<in>set (zip ps tys). tp_with L p t"
    by (auto split: Type.splits)
  have "\<exists>sp. lower_pattern p t = Ok sp \<and> lowers strict N p t sp" if x: "(p, t) \<in> set (zip ps tys)" for p t
    using "6.IH" [OF e x refl] i(2) x by auto
  from lower_tuple_args [OF i(1), OF this] obtain args where a:
    "map_out (\<lambda>(p, t). lower_pattern p t) (zip ps tys) = Ok args"
    "list_all2 (\<lambda>x a. pat_ok a (snd x) \<and> (\<forall>v. has_type v (snd x) \<longrightarrow> pmatch a v = (\<lambda>(p, t) u. tmatch p t u) x v)
        \<and> (strict \<longrightarrow> pat_fits a (snd x) \<and> plain N a)) (zip ps tys) args" by blast
  have "lowers strict N (TP_AnonTuple ps) ty (SP_Ctor (C_Tuple (length ps)) args)"
  proof (rule lowers_ctor [OF a(2)])
    show "ctor_fields ty (C_Tuple (length ps)) = Some (map snd (zip ps tys))"
      using e i by simp
    fix v assume "has_type v ty"
    with e i obtain us where "v = V_Ctor (C_Tuple (length ps)) us"
      by (cases v) (auto split: option.splits if_splits elim!: ctor_fields.elims)
    then show "tmatch (TP_AnonTuple ps) ty v \<longleftrightarrow>
      (\<exists>us. v = V_Ctor (C_Tuple (length ps)) us \<and> list_all2 (\<lambda>(p, t) u. tmatch p t u) (zip ps tys) us)"
      using e by simp
  qed
  with e a(1) show ?case by simp
next
  case (7 name variant ty)
  then obtain e where e: "ty = TEnum e" "variant_at e name variant"
    "variant_kind (enum_variants e ! variant) = EV_Unit"
    by (auto split: Type.splits)
  then have n: "last_opt name = Some (last name)" by (simp add: last_opt_def variant_at_def)
  have "lowers strict N (TP_Constant name variant) ty
    (SP_Ctor (C_EnumVariant (id_name (enum_name e)) variant (id_name (last name))) [])"
    using enum_ctor_fields [OF e(2)] e
    by (auto simp: lowers_def variant_at_def elim!: enum_value split: if_splits)
  with n e show ?case by (simp add: expect_def)
qed (auto simp: lowers_def)

section \<open>The loop over the arms\<close>

lemma tp_sub_patterns:
  "tp_with L (TP_Struct name fs) ty \<Longrightarrow> name \<noteq> [] \<and> (\<forall>f\<in>set fs. \<exists>t. tp_with L (pat_field_pattern f) t)"
  "tp_with L (TP_Tuple name ps) ty \<Longrightarrow> name \<noteq> [] \<and> (\<forall>p\<in>set ps. \<exists>t. tp_with L p t)"
  "tp_with L (TP_AnonTuple ps) ty \<Longrightarrow> \<forall>p\<in>set ps. \<exists>t. tp_with L p t"
proof -
  have zip: "\<exists>t. (p, t) \<in> set (zip ps tys)" if "length ps = length tys" "p \<in> set ps"
    for p :: TypedPattern and ps and tys :: "Type list"
    using that by (auto simp: in_set_conv_nth set_zip)
  show "name \<noteq> [] \<and> (\<forall>f\<in>set fs. \<exists>t. tp_with L (pat_field_pattern f) t)"
    if "tp_with L (TP_Struct name fs) ty"
    using that by (fastforce simp: fields_ok_def split: Type.splits option.splits EnumVariantKind.splits)
  show "name \<noteq> [] \<and> (\<forall>p\<in>set ps. \<exists>t. tp_with L p t)" if "tp_with L (TP_Tuple name ps) ty"
    using that by (fastforce dest: zip split: Type.splits option.splits EnumVariantKind.splits)
  show "\<forall>p\<in>set ps. \<exists>t. tp_with L p t" if "tp_with L (TP_AnonTuple ps) ty"
    using that by (fastforce dest: zip split: Type.splits)
qed

lemma edge_span_total:
  assumes "\<And>q. q \<in> set qs \<Longrightarrow> \<exists>e. pattern_span (g q) = Ok e" "opt \<in> {last_opt qs, first_opt qs}"
  shows "\<exists>e. (case opt of None \<Rightarrow> Ok None | Some q \<Rightarrow> pattern_span (g q)) = Ok e"
  using assms by (cases opt) (auto dest!: last_opt_in [OF sym] first_opt_in [OF sym])

lemma pattern_span_total: "tp_with L p ty \<Longrightarrow> \<exists>s. pattern_span p = Ok s"
proof (induction p arbitrary: ty rule: measure_induct_rule [where f = size])
  case (less p)
  show ?case
  proof (cases p)
    case (TP_Struct name fs)
    note s = tp_sub_patterns(1) [OF less.prems [unfolded TP_Struct]]
    have "\<exists>e. (case last_opt fs of None \<Rightarrow> Ok None | Some f \<Rightarrow> pattern_span (pat_field_pattern f)) = Ok e"
      by (rule edge_span_total [where qs = fs]; use s TP_Struct field_pattern_size less.IH in fastforce)
    then show ?thesis using s TP_Struct by (auto simp: first_opt_def expect_def Let_def)
  next
    case (TP_Tuple name ps)
    note s = tp_sub_patterns(2) [OF less.prems [unfolded TP_Tuple]]
    have "\<exists>e. (case last_opt ps of None \<Rightarrow> Ok None | Some q \<Rightarrow> pattern_span q) = Ok e"
      by (rule edge_span_total [where qs = ps and g = "\<lambda>q. q"]; use s TP_Tuple sub_pattern_size less.IH in fastforce)
    then show ?thesis using s TP_Tuple by (auto simp: first_opt_def expect_def Let_def)
  next
    case (TP_AnonTuple ps)
    note s = tp_sub_patterns(3) [OF less.prems [unfolded TP_AnonTuple]]
    have "\<exists>e. (case opt of None \<Rightarrow> Ok None | Some q \<Rightarrow> pattern_span q) = Ok e"
      if "opt \<in> {last_opt ps, first_opt ps}" for opt
      by (rule edge_span_total [where qs = ps and g = "\<lambda>q. q"]; use s that TP_AnonTuple sub_pattern_size less.IH in fastforce)
    from this [of "last_opt ps"] this [of "first_opt ps"] show ?thesis
      using TP_AnonTuple by (auto split: option.splits)
  next
    case (TP_Constant name variant)
    with less.prems show ?thesis
      by (auto simp: expect_def first_opt_def last_opt_def variant_at_def split: Type.splits)
  qed simp_all
qed

text \<open>After the loop the matrix holds one row per arm, and there is no error exactly when every pattern
  was useful against the rows before it.\<close>

definition arm_matrix :: "Type \<Rightarrow> SimplePat list \<Rightarrow> Matrix" where
  "arm_matrix ty sps = \<lparr>m_rows = map (\<lambda>sp. [sp]) sps, m_col_types = [ty]\<rparr>"

lemma fold_check_arm:
  assumes "list_all2 (\<lambda>arm sp. lower_pattern (arm_pattern arm) ty = Ok sp
      \<and> (\<exists>s. pattern_span (arm_pattern arm) = Ok s)) arms sps"
  shows "\<exists>es'. fold_out (check_arm ty span) arms (arm_matrix ty done, es) = Ok (arm_matrix ty (done @ sps), es @ es')
     \<and> (\<forall>e\<in>set es'. te_kind e = UnreachablePattern)
     \<and> (es' = [] \<longleftrightarrow> (\<forall>i<length sps. is_useful (arm_matrix ty (done @ take i sps)) [sps ! i]))"
  using assms
proof (induction arms sps arbitrary: "done" es rule: list_all2_induct)
  case (Cons arm arms sp sps)
  then obtain s where s: "lower_pattern (arm_pattern arm) ty = Ok sp" "pattern_span (arm_pattern arm) = Ok s"
    by auto
  have push: "Matrix_push (arm_matrix ty done) [sp] = arm_matrix ty (done @ [sp])"
    by (simp add: Matrix_push_def arm_matrix_def)
  let ?e = "if is_useful (arm_matrix ty done) [sp] then [] else [unreachable_error (or_else s span)]"
  have step: "check_arm ty span arm (arm_matrix ty done, es) = Ok (arm_matrix ty (done @ [sp]), es @ ?e)"
    using s push by (simp add: check_arm_def Let_def)
  from Cons.IH [of "done @ [sp]" "es @ ?e"] obtain es' where es':
    "fold_out (check_arm ty span) arms (arm_matrix ty (done @ [sp]), es @ ?e) =
       Ok (arm_matrix ty ((done @ [sp]) @ sps), (es @ ?e) @ es')"
    "\<forall>e\<in>set es'. te_kind e = UnreachablePattern"
    "es' = [] \<longleftrightarrow> (\<forall>i<length sps. is_useful (arm_matrix ty ((done @ [sp]) @ take i sps)) [sps ! i])" by blast
  have "(\<forall>i<length (sp # sps). is_useful (arm_matrix ty (done @ take i (sp # sps))) [(sp # sps) ! i])
    \<longleftrightarrow> is_useful (arm_matrix ty done) [sp]
      \<and> (\<forall>i<length sps. is_useful (arm_matrix ty ((done @ [sp]) @ take i sps)) [sps ! i])"
    by (simp add: All_less_Suc2)
  with step es' show ?case
    by (intro exI [of _ "?e @ es'"]) (auto simp: unreachable_error_def)
qed simp

lemma lower_arms:
  assumes "\<forall>arm\<in>set arms. tp_with L (arm_pattern arm) ty" "\<And>l ty. L l ty \<Longrightarrow> lit_typed l ty"
    and "\<And>l ty. strict \<Longrightarrow> L l ty \<Longrightarrow> lit_plain N l ty"
  obtains sps where "list_all2 (\<lambda>arm sp. lower_pattern (arm_pattern arm) ty = Ok sp
      \<and> lowers strict N (arm_pattern arm) ty sp \<and> (\<exists>s. pattern_span (arm_pattern arm) = Ok s)) arms sps"
proof -
  have "\<exists>sps. map_out (\<lambda>arm. lower_pattern (arm_pattern arm) ty) arms = Ok sps
    \<and> list_all2 (\<lambda>arm sp. lower_pattern (arm_pattern arm) ty = Ok sp
      \<and> lowers strict N (arm_pattern arm) ty sp \<and> (\<exists>s. pattern_span (arm_pattern arm) = Ok s)) arms sps"
    using assms pattern_span_total lower_faithful [OF _ assms(2,3)] by (intro map_out_total) blast
  then show thesis using that by blast
qed

lemma arm_matrix_wf: "list_all (\<lambda>sp. pat_ok sp ty) sps \<Longrightarrow> wf_rows (arm_matrix ty sps)"
  by (auto simp: wf_rows_def arm_matrix_def list_all_iff)

lemma arm_matrix_plain: "list_all (plain N) sps \<Longrightarrow> plain_rows N (arm_matrix ty sps)"
  by (auto simp: plain_rows_def arm_matrix_def list_all_iff)

lemma arm_matrix_covers: "covers (arm_matrix ty sps) [v] \<longleftrightarrow> (\<exists>sp\<in>set sps. pmatch sp v)"
  by (auto simp: covers_def arm_matrix_def)

lemma check_match_unfold:
  assumes "list_all2 (\<lambda>arm sp. lower_pattern (arm_pattern arm) ty = Ok sp
      \<and> lowers strict N (arm_pattern arm) ty sp \<and> (\<exists>s. pattern_span (arm_pattern arm) = Ok s)) arms sps"
  shows "\<exists>es. (\<forall>e\<in>set es. te_kind e = UnreachablePattern)
    \<and> (es = [] \<longleftrightarrow> (\<forall>i<length sps. is_useful (arm_matrix ty (take i sps)) [sps ! i]))
    \<and> check_match ty arms span =
       (let missing = examples (collect_missing_patterns (arm_matrix ty sps) 1);
            errors = es @ (if is_useful (arm_matrix ty sps) [SP_Wildcard]
              then [with_help (TypeError_new (NonExhaustiveMatch missing) span) (missing_help missing)] else [])
        in if errors = [] then Ok () else Err errors)"
proof -
  have "list_all2 (\<lambda>arm sp. lower_pattern (arm_pattern arm) ty = Ok sp
      \<and> (\<exists>s. pattern_span (arm_pattern arm) = Ok s)) arms sps"
    using assms by (rule list_all2_mono) blast
  from fold_check_arm [OF this, of span "[]" "[]"] obtain es where es:
    "fold_out (check_arm ty span) arms (Matrix_new [ty], []) = Ok (arm_matrix ty sps, es)"
    "\<forall>e\<in>set es. te_kind e = UnreachablePattern"
    "es = [] \<longleftrightarrow> (\<forall>i<length sps. is_useful (arm_matrix ty (take i sps)) [sps ! i])"
    by (auto simp: arm_matrix_def Matrix_new_def)
  then show ?thesis
    by (intro exI [of _ es]) (simp add: check_match_def Let_def)
qed

end
