(* ===== verification/Match_Properties.thy ===== *)
theory Match_Properties
  imports Match_Check_Sound
begin

text \<open>
  The properties of exhaustiveness checking, with an example match on an option type on which the
  witnesses run.
\<close>

section \<open>One column\<close>

lemma lit_plain_typed: "lit_plain N l ty \<Longrightarrow> lit_typed l ty"
  by (cases l) auto

lemma useless_arm:
  assumes "list_all (\<lambda>sp. pat_ok sp ty) sps" "pat_ok sp ty" "\<not> is_useful (arm_matrix ty sps) [sp]"
    and "has_type v ty" "pmatch sp v"
  shows "\<exists>s\<in>set sps. pmatch s v"
proof -
  have "covers (arm_matrix ty sps) [v]"
    using assms by (intro useless_is_covered [OF arm_matrix_wf, where pat = "[sp]"]) (simp_all add: arm_matrix_def)
  then show ?thesis by (simp add: arm_matrix_covers)
qed

lemma useful_arm:
  assumes "list_all (\<lambda>sp. pat_ok sp ty) sps" "list_all (plain N) sps" "pat_fits sp ty"
    and "is_useful (arm_matrix ty sps) [sp]" "spare N" "inhabited ty"
  shows "\<exists>v. has_type v ty \<and> pmatch sp v \<and> (\<forall>s\<in>set sps. \<not> pmatch s v)"
proof -
  have "\<exists>vs. list_all2 has_type vs (m_col_types (arm_matrix ty sps)) \<and> list_all2 pmatch [sp] vs
    \<and> \<not> covers (arm_matrix ty sps) vs"
    using assms by (intro useful_has_value arm_matrix_wf arm_matrix_plain) (simp_all add: arm_matrix_def)
  then show ?thesis
    by (auto simp: arm_matrix_def list_all2_Cons1 list_all2_Cons2 arm_matrix_covers [unfolded arm_matrix_def])
qed

text \<open>The lowered arms and their meaning.\<close>

lemma arms_list:
  assumes "list_all2 (\<lambda>arm sp. lower_pattern (arm_pattern arm) ty = Ok sp
      \<and> lowers strict N (arm_pattern arm) ty sp \<and> (\<exists>s. pattern_span (arm_pattern arm) = Ok s)) arms sps"
  shows "list_all (\<lambda>sp. pat_ok sp ty) (take i sps)"
    and "strict \<Longrightarrow> list_all (plain N) (take i sps)"
    and "length arms = length sps"
    and "j < length arms \<Longrightarrow> has_type v ty \<Longrightarrow> pmatch (sps ! j) v = tmatch (arm_pattern (arms ! j)) ty v"
    and "j < length arms \<Longrightarrow> pat_ok (sps ! j) ty \<and> (strict \<longrightarrow> pat_fits (sps ! j) ty)"
  using assms by (auto simp: list_all_length list_all2_conv_all_nth lowers_def)

section \<open>An example\<close>

definition OptionEnum :: "Type EnumType" where
  "OptionEnum = EnumType (Identifier_anon ''Option'')
     [EnumVariantType_unit (Identifier_anon ''None''),
      EnumVariantType_tuple (Identifier_anon ''Some'') [TInt I64, TBool]] []"

definition option_arm :: "TypedPattern list \<Rightarrow> unit TypedMatchArm" where
  "option_arm ps = TypedMatchArm (TP_Tuple [Identifier_anon ''Option'', Identifier_anon ''Some''] ps) ()"

definition none_arm :: "unit TypedMatchArm" where
  "none_arm = TypedMatchArm (TP_Constant [Identifier_anon ''Option'', Identifier_anon ''None''] 0) ()"

definition lit_pat :: "int \<Rightarrow> TypedPattern" where
  "lit_pat n = TP_Literal (L_Integer (IntegerLiteral_of_int n))"

definition bool_pat :: "bool \<Rightarrow> TypedPattern" where
  "bool_pat b = TP_Literal (L_Boolean b)"

definition option_arms :: "unit TypedMatchArm list" where
  "option_arms = [option_arm [lit_pat 1, TP_Wildcard], none_arm,
     option_arm [TP_Binding (Identifier_anon ''n''), bool_pat True], option_arm [TP_Wildcard, bool_pat False]]"

lemma option_arms_typed: "\<forall>arm\<in>set option_arms. tp_plain {1} (arm_pattern arm) (TEnum OptionEnum)"
  by code_simp

lemma option_type_inhabited: "inhabited (TEnum OptionEnum)"
  by code_simp

lemma spare_1: "spare {1}"
  unfolding spare_def
proof
  fix w
  have "0 \<notin> {1 :: int} \<and> fits w 0" by (cases w) (simp_all add: fits_def)
  then show "\<exists>n. n \<notin> {1 :: int} \<and> fits w n" by blast
qed

lemma option_match_ok: "check_match (TEnum OptionEnum) option_arms DUMMY_SPAN = Ok ()"
  by code_simp

section \<open>Properties\<close>

definition exhaustive :: "Type \<Rightarrow> 'b TypedMatchArm list \<Rightarrow> bool" where
  "exhaustive ty arms \<longleftrightarrow> (\<forall>v. has_type v ty \<longrightarrow> (\<exists>arm\<in>set arms. tmatch (arm_pattern arm) ty v))"

definition reachable_arm :: "Type \<Rightarrow> 'b TypedMatchArm list \<Rightarrow> nat \<Rightarrow> bool" where
  "reachable_arm ty arms i \<longleftrightarrow> (\<exists>v. has_type v ty \<and> tmatch (arm_pattern (arms ! i)) ty v
     \<and> (\<forall>j<i. \<not> tmatch (arm_pattern (arms ! j)) ty v))"

lemma useless_wildcard_exhaustive:
  assumes "list_all2 (\<lambda>arm sp. lower_pattern (arm_pattern arm) ty = Ok sp
      \<and> lowers strict N (arm_pattern arm) ty sp \<and> (\<exists>s. pattern_span (arm_pattern arm) = Ok s)) arms sps"
    and "\<not> is_useful (arm_matrix ty sps) [SP_Wildcard]"
  shows "exhaustive ty arms"
  unfolding exhaustive_def
proof (intro allI impI)
  fix v assume v: "has_type v ty"
  note a = arms_list [OF assms(1)]
  from useless_arm [OF a(1) [of "length sps", simplified] _ assms(2) v] obtain j where
    "j < length sps" "pmatch (sps ! j) v" by (auto simp: in_set_conv_nth)
  with a(3,4) v show "\<exists>arm\<in>set arms. tmatch (arm_pattern arm) ty v" by (metis nth_mem)
qed

text \<open>
C4: A match expression that the type checker accepts is exhaustive: with well-typed patterns, every
value of the scrutinee's type is matched by some arm, whatever the types, literals and nesting.
\<close>

theorem accepted_match_is_exhaustive:
  assumes "\<forall>arm\<in>set arms. tp_ok (arm_pattern arm) ty" "check_match ty arms span = Ok ()"
    and "has_type v ty"
  shows "\<exists>arm\<in>set arms. tmatch (arm_pattern arm) ty v"
proof -
  from lower_arms [OF assms(1), of False "{}"] obtain sps where sps:
    "list_all2 (\<lambda>arm sp. lower_pattern (arm_pattern arm) ty = Ok sp
      \<and> lowers False {} (arm_pattern arm) ty sp \<and> (\<exists>s. pattern_span (arm_pattern arm) = Ok s)) arms sps"
    by auto
  from check_match_unfold [OF sps, of span] assms(2) have "\<not> is_useful (arm_matrix ty sps) [SP_Wildcard]"
    by (auto simp: Let_def split: if_splits)
  with useless_wildcard_exhaustive [OF sps] assms(3) show ?thesis by (simp add: exhaustive_def)
qed

lemma option_arms_ok: "\<forall>arm\<in>set option_arms. tp_ok (arm_pattern arm) (TEnum OptionEnum)"
  by code_simp

lemma accepted_match_is_exhaustive_witness:
  "\<exists>arm\<in>set option_arms. tmatch (arm_pattern arm) (TEnum OptionEnum)
     (V_Ctor (C_EnumVariant ''Option'' 1 ''Some'') [V_Int 7, V_Bool True])"
  by (rule accepted_match_is_exhaustive [OF option_arms_ok option_match_ok]) code_simp

lemma exhaustive_iff_useless:
  assumes "list_all2 (\<lambda>arm sp. lower_pattern (arm_pattern arm) ty = Ok sp
      \<and> lowers True N (arm_pattern arm) ty sp \<and> (\<exists>s. pattern_span (arm_pattern arm) = Ok s)) arms sps"
    and "spare N" "inhabited ty"
  shows "exhaustive ty arms \<longleftrightarrow> \<not> is_useful (arm_matrix ty sps) [SP_Wildcard]"
proof
  note a = arms_list [OF assms(1)]
  note ok = a(1) [of "length sps", simplified] and pl = a(2) [of "length sps", simplified]
  assume e: "exhaustive ty arms"
  show "\<not> is_useful (arm_matrix ty sps) [SP_Wildcard]"
  proof
    assume "is_useful (arm_matrix ty sps) [SP_Wildcard]"
    from useful_arm [OF ok pl _ this assms(2,3)] obtain v where
      v: "has_type v ty" "\<forall>s\<in>set sps. \<not> pmatch s v" by auto
    with e obtain arm where "arm \<in> set arms" "tmatch (arm_pattern arm) ty v"
      by (auto simp: exhaustive_def)
    then obtain j where "j < length arms" "tmatch (arm_pattern (arms ! j)) ty v"
      by (auto simp: in_set_conv_nth)
    with a(3,4) v show False by (metis nth_mem)
  qed
qed (rule useless_wildcard_exhaustive [OF assms(1)])

lemma reachable_iff_useful:
  assumes "list_all2 (\<lambda>arm sp. lower_pattern (arm_pattern arm) ty = Ok sp
      \<and> lowers True N (arm_pattern arm) ty sp \<and> (\<exists>s. pattern_span (arm_pattern arm) = Ok s)) arms sps"
    and "spare N" "inhabited ty"
    and i: "i < length arms"
  shows "reachable_arm ty arms i \<longleftrightarrow> is_useful (arm_matrix ty (take i sps)) [sps ! i]"
proof
  note a = arms_list [OF assms(1)]
  assume "reachable_arm ty arms i"
  then obtain v where v: "has_type v ty" "tmatch (arm_pattern (arms ! i)) ty v"
    "\<forall>j<i. \<not> tmatch (arm_pattern (arms ! j)) ty v" by (auto simp: reachable_arm_def)
  show "is_useful (arm_matrix ty (take i sps)) [sps ! i]"
  proof (rule ccontr)
    assume nu: "\<not> is_useful (arm_matrix ty (take i sps)) [sps ! i]"
    have "pmatch (sps ! i) v" "pat_ok (sps ! i) ty" using a(4) [OF i v(1)] a(5) [OF i] v(2) by auto
    from useless_arm [OF a(1) this(2) nu v(1) this(1)] obtain j where "j < i" "pmatch (sps ! j) v"
      using i a(3) by (auto simp: in_set_conv_nth)
    with a(4) [OF _ v(1)] v(3) i show False by auto
  qed
next
  note a = arms_list [OF assms(1)]
  assume u: "is_useful (arm_matrix ty (take i sps)) [sps ! i]"
  have "pat_fits (sps ! i) ty" using a(5) [OF i] by simp
  from useful_arm [OF a(1) a(2) [OF TrueI] this u assms(2,3)] obtain v where
    v: "has_type v ty" "pmatch (sps ! i) v" "\<forall>s\<in>set (take i sps). \<not> pmatch s v" by blast
  have "\<not> tmatch (arm_pattern (arms ! j)) ty v" if "j < i" for j
  proof -
    have "sps ! j \<in> set (take i sps)" using that i a(3) by (auto simp: in_set_conv_nth)
    with v(3) a(4) [OF _ v(1), of j] that i show ?thesis by auto
  qed
  with v a(4) [OF i v(1)] show "reachable_arm ty arms i" by (auto simp: reachable_arm_def)
qed

text \<open>
C27: The check is exact under these conditions: the patterns are well typed and their integer literals fit
\<^verbatim>\<open>i64\<close>, the types are inhabited, and the patterns use no unit literal and leave an integer of each width
unnamed. Then a match is accepted exactly when it is exhaustive and every arm is the first to
match some value.
\<close>

theorem check_match_exact:
  assumes "\<forall>arm\<in>set arms. tp_plain N (arm_pattern arm) ty" "spare N" "inhabited ty"
  shows "check_match ty arms span = Ok () \<longleftrightarrow> exhaustive ty arms \<and> (\<forall>i<length arms. reachable_arm ty arms i)"
proof -
  obtain sps where sps:
    "list_all2 (\<lambda>arm sp. lower_pattern (arm_pattern arm) ty = Ok sp
      \<and> lowers True N (arm_pattern arm) ty sp \<and> (\<exists>s. pattern_span (arm_pattern arm) = Ok s)) arms sps"
    by (rule lower_arms [OF assms(1), where strict = True and N = N]) (auto simp: lit_plain_typed)
  note ex = exhaustive_iff_useless [OF sps assms(2,3)] and reach = reachable_iff_useful [OF sps assms(2,3)]
  from check_match_unfold [OF sps, of span] ex reach list_all2_lengthD [OF sps] show ?thesis
    by (auto simp: Let_def split: if_splits)
qed

lemma check_match_exact_witness: "exhaustive (TEnum OptionEnum) option_arms"
  using check_match_exact [OF option_arms_typed spare_1 option_type_inhabited, of DUMMY_SPAN]
    option_match_ok by blast

lemma examples_hd:
  "examples (collect_missing_patterns m 1) = take 5 (map (pattern_to_string \<circ> hd) (collect_missing_patterns m 1))"
proof -
  have "List.map_filter (\<lambda>row. map_option pattern_to_string (first_opt row)) rows
    = map (pattern_to_string \<circ> hd) rows" if "\<forall>row\<in>set rows. length row = 1" for rows
    using that by (induction rows) (auto simp: first_opt_def)
  then show ?thesis using missing_length by (auto simp: examples_def)
qed

lemma example_uncovered:
  assumes "list_all2 (\<lambda>arm sp. lower_pattern (arm_pattern arm) ty = Ok sp
      \<and> lowers True {} (arm_pattern arm) ty sp \<and> (\<exists>s. pattern_span (arm_pattern arm) = Ok s)) arms sps"
    and "s \<in> set (examples (collect_missing_patterns (arm_matrix ty sps) 1))"
  shows "\<exists>sp. s = pattern_to_string sp \<and> pat_ok sp ty
    \<and> (\<forall>v. has_type v ty \<longrightarrow> pmatch sp v \<longrightarrow> (\<forall>arm\<in>set arms. \<not> tmatch (arm_pattern arm) ty v))"
proof -
  note a = arms_list [OF assms(1)]
  let ?m = "arm_matrix ty sps"
  have wf: "wf_rows ?m" using a(1) [of "length sps"] by (intro arm_matrix_wf) simp
  have one: "1 = length (m_col_types ?m)" by (simp add: arm_matrix_def)
  from assms(2) obtain row where row: "row \<in> set (collect_missing_patterns ?m 1)" "s = pattern_to_string (hd row)"
    unfolding examples_hd by (auto dest!: in_set_takeD)
  have "length row = 1" by (rule missing_length [OF row(1)])
  then have r: "row = [hd row]" by (metis One_nat_def length_0_conv length_Suc_conv list.sel(1))
  have "list_all2 pat_ok row (m_col_types ?m)" by (rule missing_ok [OF wf one row(1)])
  with r have "pat_ok (hd row) ty" by (cases row) (auto simp: arm_matrix_def)
  moreover have "\<not> tmatch (arm_pattern arm) ty v" if v: "has_type v ty" "pmatch (hd row) v" "arm \<in> set arms" for v arm
  proof -
    have "plain_rows {} ?m" using a(2) [of "length sps"] by (intro arm_matrix_plain) simp
    from missing_uncovered [OF wf one this row(1), of "[v]"] r v have "\<not> covers ?m [v]"
      by (cases row) (auto simp: arm_matrix_def)
    then have "\<forall>s\<in>set sps. \<not> pmatch s v" by (simp add: arm_matrix_covers)
    moreover from v(3) obtain i where "i < length arms" "arm = arms ! i" by (auto simp: in_set_conv_nth)
    ultimately show ?thesis using a(3) a(4) [OF _ v(1), of i] nth_mem by auto
  qed
  ultimately show ?thesis using row(2) by blast
qed

text \<open>
C29: On well-typed patterns \<^verbatim>\<open>check_match\<close> does not panic, and whenever it reports a non-exhaustive match
the report names between one and five missing patterns; without integer and unit literals they are
printed from well-typed patterns whose values no arm matches.
\<close>

theorem missing_patterns_are_missing:
  assumes "\<forall>arm\<in>set arms. tp_ok (arm_pattern arm) ty"
  shows "check_match ty arms span \<noteq> Panic
    \<and> (\<forall>es e ms. check_match ty arms span = Err es \<longrightarrow> e \<in> set es \<longrightarrow> te_kind e = NonExhaustiveMatch ms \<longrightarrow>
        0 < length ms \<and> length ms \<le> 5
        \<and> ((\<forall>arm\<in>set arms. tp_plain {} (arm_pattern arm) ty) \<longrightarrow>
            (\<forall>s\<in>set ms. \<exists>sp. s = pattern_to_string sp \<and> pat_ok sp ty
              \<and> (\<forall>v. has_type v ty \<longrightarrow> pmatch sp v \<longrightarrow> (\<forall>arm\<in>set arms. \<not> tmatch (arm_pattern arm) ty v)))))"
proof -
  define strict where "strict = (\<forall>arm\<in>set arms. tp_plain {} (arm_pattern arm) ty)"
  define L where "L = (if strict then lit_plain {} else lit_typed)"
  have "\<forall>arm\<in>set arms. tp_with L (arm_pattern arm) ty" using assms by (simp add: L_def strict_def)
  then obtain sps where sps:
    "list_all2 (\<lambda>arm sp. lower_pattern (arm_pattern arm) ty = Ok sp
      \<and> lowers strict {} (arm_pattern arm) ty sp \<and> (\<exists>s. pattern_span (arm_pattern arm) = Ok s)) arms sps"
    by (rule lower_arms [where strict = strict and N = "{}"]) (auto simp: L_def lit_plain_typed split: if_splits)
  note a = arms_list [OF sps]
  let ?m = "arm_matrix ty sps" and ?missing = "collect_missing_patterns (arm_matrix ty sps) 1"
  have wf: "wf_rows ?m" using a(1) [of "length sps"] by (intro arm_matrix_wf) simp
  have one: "1 = length (m_col_types ?m)" by (simp add: arm_matrix_def)
  have uncovered: "\<exists>sp. s = pattern_to_string sp \<and> pat_ok sp ty
      \<and> (\<forall>v. has_type v ty \<longrightarrow> pmatch sp v \<longrightarrow> (\<forall>arm\<in>set arms. \<not> tmatch (arm_pattern arm) ty v))"
    if "s \<in> set (examples ?missing)" strict for s
    using example_uncovered [of ty arms sps s] sps that by simp
  from check_match_unfold [OF sps, of span] obtain es where es: "\<forall>e\<in>set es. te_kind e = UnreachablePattern"
    "check_match ty arms span = (let missing = examples ?missing;
            errors = es @ (if is_useful ?m [SP_Wildcard]
              then [with_help (TypeError_new (NonExhaustiveMatch missing) span) (missing_help missing)] else [])
        in if errors = [] then Ok () else Err errors)"
    by blast
  have "0 < length (examples ?missing) \<and> length (examples ?missing) \<le> 5" if "is_useful ?m [SP_Wildcard]"
    using missing_iff_useful [OF wf one] that unfolding examples_hd by auto
  with es uncovered show ?thesis
    by (auto simp: Let_def strict_def split: if_splits)
qed

text \<open>A match on a pair with one case left out, on which the report is checked.\<close>

definition pair_arms :: "unit TypedMatchArm list" where
  "pair_arms = [TypedMatchArm (TP_AnonTuple [bool_pat True, TP_Wildcard]) (),
     TypedMatchArm (TP_AnonTuple [TP_Wildcard, bool_pat False]) ()]"

lemma missing_patterns_are_missing_witness:
  "check_match (TTuple [TBool, TBool]) pair_arms DUMMY_SPAN \<noteq> Panic"
proof -
  have "\<forall>arm\<in>set pair_arms. tp_ok (arm_pattern arm) (TTuple [TBool, TBool])" by code_simp
  from missing_patterns_are_missing [OF this, of DUMMY_SPAN] show ?thesis by blast
qed

lemma pair_report:
  "map_err (map te_kind) (check_match (TTuple [TBool, TBool]) pair_arms DUMMY_SPAN) =
     Err [NonExhaustiveMatch [''(false, true)'']]"
  by code_simp

text \<open>
C30: Lowering keeps the meaning of patterns: a well-typed pattern lowers without panicking to a
well-typed pattern of the matrix that matches exactly the same typed values.
\<close>

theorem lower_pattern_faithful:
  assumes "tp_ok p ty"
  shows "\<exists>sp. lower_pattern p ty = Ok sp \<and> pat_ok sp ty
    \<and> (\<forall>v. has_type v ty \<longrightarrow> pmatch sp v = tmatch p ty v)"
  using lower_faithful [OF assms, where strict = False and N = "{}"] by (auto simp: lowers_def)

lemma lower_pattern_faithful_witness:
  "\<exists>sp. lower_pattern (arm_pattern none_arm) (TEnum OptionEnum) = Ok sp \<and> pat_ok sp (TEnum OptionEnum)"
proof -
  have "tp_ok (arm_pattern none_arm) (TEnum OptionEnum)" by code_simp
  from lower_pattern_faithful [OF this] show ?thesis by blast
qed

text \<open>
C28: Usefulness is decided exactly: over a well-typed matrix that names no unit literal and leaves an
integer of each width unnamed, with inhabited column types, a well-typed pattern vector whose literals are values
of their types is useful exactly when some
vector of typed values is matched by it and by no row.
\<close>

theorem usefulness_exact:
  assumes "wf_rows m" "list_all2 pat_fits pat (m_col_types m)"
    and "plain_rows N m" "spare N" "\<forall>ty\<in>set (m_col_types m). inhabited ty"
  shows "is_useful m pat \<longleftrightarrow>
    (\<exists>vs. list_all2 has_type vs (m_col_types m) \<and> list_all2 pmatch pat vs
      \<and> \<not> (\<exists>row\<in>set (m_rows m). list_all2 pmatch row vs))"
proof -
  have "list_all2 pat_ok pat (m_col_types m)"
    using assms(2) pat_fits_ok by (rule list_all2_mono)
  then show ?thesis
    using useful_has_value [OF assms(1,2) _ assms(3-5)] useless_is_covered [OF assms(1)]
    unfolding covers_def by blast
qed

lemma usefulness_exact_witness:
  "is_useful (arm_matrix (TInt U8) [SP_Literal (SL_Int 1)]) [SP_Wildcard] \<longleftrightarrow>
    (\<exists>vs. list_all2 has_type vs [TInt U8] \<and> list_all2 pmatch [SP_Wildcard] vs
      \<and> \<not> (\<exists>row\<in>set [[SP_Literal (SL_Int 1)]]. list_all2 pmatch row vs))"
proof -
  let ?m = "arm_matrix (TInt U8) [SP_Literal (SL_Int 1)]"
  have "wf_rows ?m" "plain_rows {1} ?m"
    by (simp_all add: wf_rows_def plain_rows_def arm_matrix_def)
  moreover have "\<forall>ty\<in>set (m_col_types ?m). inhabited ty" by code_simp
  ultimately show ?thesis
    using usefulness_exact [of ?m "[SP_Wildcard]" "{1}"] spare_1 by (simp add: arm_matrix_def)
qed

text \<open>
A binding pattern for which \<^verbatim>\<open>missing_patterns\<close> returns nothing is irrefutable: it matches every
value of the type; and over inhabited types, with the same provisos as above, only then.
\<close>

theorem missing_patterns_irrefutable:
  assumes "tp_plain N p ty" "spare N" "inhabited ty"
  shows "missing_patterns ty p = Ok [] \<longleftrightarrow> (\<forall>v. has_type v ty \<longrightarrow> tmatch p ty v)"
proof -
  have "\<exists>sp. lower_pattern p ty = Ok sp \<and> lowers True N p ty sp"
    by (rule lower_faithful [OF assms(1)]) (simp_all add: lit_plain_typed)
  then obtain sp where sp: "lower_pattern p ty = Ok sp" "lowers True N p ty sp" by blast
  let ?m = "arm_matrix ty [sp]"
  have m: "Matrix_push (Matrix_new [ty]) [sp] = ?m"
    by (simp add: Matrix_push_def Matrix_new_def arm_matrix_def)
  have ok: "list_all (\<lambda>sp. pat_ok sp ty) [sp]" "list_all (plain N) [sp]"
    using sp(2) by (simp_all add: lowers_def)
  have wf: "wf_rows ?m" using arm_matrix_wf [OF ok(1)] .
  have "examples (collect_missing_patterns ?m 1) \<noteq> []" if "is_useful ?m [SP_Wildcard]"
  proof -
    have "collect_missing_patterns ?m 1 \<noteq> []"
      using missing_iff_useful [OF wf, of 1] that by (simp add: arm_matrix_def)
    then obtain row rows where r: "collect_missing_patterns ?m 1 = row # rows"
      by (cases "collect_missing_patterns ?m 1") auto
    have "length row = 1" by (rule missing_length [of row ?m 1]) (simp only: r list.set_intros)
    with r show ?thesis by (cases row) (auto simp: examples_def first_opt_def List.map_filter_simps)
  qed
  then have "missing_patterns ty p = Ok [] \<longleftrightarrow> \<not> is_useful ?m [SP_Wildcard]"
    using sp(1) m by (auto simp: missing_patterns_def Let_def)
  also have "\<dots> \<longleftrightarrow> (\<forall>v. has_type v ty \<longrightarrow> tmatch p ty v)"
    using useful_arm [OF ok, of SP_Wildcard, OF _ _ assms(2,3)] useless_arm [OF ok(1), of SP_Wildcard] sp(2)
    by (auto simp: lowers_def)
  finally show ?thesis .
qed

lemma missing_patterns_irrefutable_witness:
  "missing_patterns (TTuple [TBool, TInt I64]) (TP_AnonTuple [TP_Wildcard, TP_Wildcard]) = Ok [] \<longleftrightarrow>
    (\<forall>v. has_type v (TTuple [TBool, TInt I64])
      \<longrightarrow> tmatch (TP_AnonTuple [TP_Wildcard, TP_Wildcard]) (TTuple [TBool, TInt I64]) v)"
proof (rule missing_patterns_irrefutable [OF _ spare_1])
  show "tp_plain {1} (TP_AnonTuple [TP_Wildcard, TP_Wildcard]) (TTuple [TBool, TInt I64])" by code_simp
  show "inhabited (TTuple [TBool, TInt I64])" by code_simp
qed

text \<open>
A match on \<^verbatim>\<open>()\<close> whose only arm is the pattern \<^verbatim>\<open>()\<close> is reported as non-exhaustive, although that
arm matches every value of the type.
\<close>

theorem unit_match_rejected:
  "map_err (map te_kind) (check_match TUnit [TypedMatchArm (TP_Literal L_Unit) body] span) =
      Err [NonExhaustiveMatch [''_'']]
    \<and> {v. has_type v TUnit} \<subseteq> {v. tmatch (TP_Literal L_Unit) TUnit v}"
proof
  show "map_err (map te_kind) (check_match TUnit [TypedMatchArm (TP_Literal L_Unit) body] span) =
      Err [NonExhaustiveMatch [''_'']]"
    by code_simp
  have "v = V_Unit" if "has_type v TUnit" for v
    using that by (cases v) (auto split: option.splits)
  then show "{v. has_type v TUnit} \<subseteq> {v. tmatch (TP_Literal L_Unit) TUnit v}" by auto
qed

end
