(* ===== verification/Decision_Tree.thy ===== *)
theory Decision_Tree
  imports Exhaustiveness Match_Check
begin

text \<open>
  Compilation of pattern matching to decision trees
  (\<^verbatim>\<open>starstream-to-wasm/src/decision_tree.rs\<close>) and the lowering of typed patterns to its matrix
  (\<^verbatim>\<open>lower_pattern\<close> of \<^verbatim>\<open>starstream-to-wasm/src/lib.rs\<close>). Indexing, \<^verbatim>\<open>expect\<close> and \<^verbatim>\<open>unreachable!\<close>
  are \<open>Panic\<close>. Names that the exhaustiveness checker also uses have the prefix \<open>dt_\<close> here.
\<close>

section \<open>Patterns, constructors, trees\<close>

datatype DtCtor =
    EnumVariant nat | BoolTrue | BoolFalse | IntLiteral int | Struct | UnitCtor

datatype DtPat =
    DtWildcard "(nat \<times> string) option"
  | DtCtorPat DtCtor "DtPat list"

record DtRow =
  pats :: "DtPat list"
  action :: nat

type_synonym DtMatrix = "DtRow list"

record LeafBinding =
  lb_action :: nat
  lb_name :: string
  lb_column :: nat

datatype DecisionTree =
    Leaf nat "LeafBinding list"
  | Fail
  | Switch nat "(DtCtor \<times> DecisionTree) list" "DecisionTree option"

text \<open>\<^verbatim>\<open>&e.variants[*variant_index].kind\<close>\<close>

definition variant_kind_at ::
  "Type EnumType \<Rightarrow> nat \<Rightarrow> (Type EnumVariantKind \<Rightarrow> 'a total) \<Rightarrow> 'a total" where
  "variant_kind_at e i k = at (enum_variants e) i (\<lambda>v. k (variant_kind v))"

fun ctor_arity :: "DtCtor \<Rightarrow> Type \<Rightarrow> nat total" where
  "ctor_arity (EnumVariant i) ty =
     (case ty of
        TEnum e \<Rightarrow> variant_kind_at e i (\<lambda>kind. Ok (case kind of
            EV_Unit \<Rightarrow> 0 | EV_Tuple fs \<Rightarrow> length fs | EV_Struct fs \<Rightarrow> length fs))
      | _ \<Rightarrow> Ok 0)"
| "ctor_arity BoolTrue ty = Ok 0"
| "ctor_arity BoolFalse ty = Ok 0"
| "ctor_arity (IntLiteral n) ty = Ok 0"
| "ctor_arity Struct ty =
     Ok (case ty of TRecord r \<Rightarrow> length (record_fields r) | TTuple items \<Rightarrow> length items | _ \<Rightarrow> 0)"
| "ctor_arity UnitCtor ty = Ok 0"

fun dt_field_types :: "DtCtor \<Rightarrow> Type \<Rightarrow> Type list total" where
  "dt_field_types (EnumVariant i) ty =
     (case ty of
        TEnum e \<Rightarrow> variant_kind_at e i (\<lambda>kind. Ok (case kind of
            EV_Unit \<Rightarrow> [] | EV_Tuple fs \<Rightarrow> fs | EV_Struct fs \<Rightarrow> map field_ty fs))
      | _ \<Rightarrow> Ok [])"
| "dt_field_types Struct ty =
     Ok (case ty of TRecord r \<Rightarrow> map field_ty (record_fields r) | TTuple items \<Rightarrow> items | _ \<Rightarrow> [])"
| "dt_field_types _ ty = Ok []"

section \<open>Matrix operations\<close>

fun is_ctor :: "DtPat \<Rightarrow> bool" where
  "is_ctor (DtCtorPat c args) = True"
| "is_ctor (DtWildcard b) = False"

definition extract_leaf_bindings :: "DtRow \<Rightarrow> LeafBinding list" where
  "extract_leaf_bindings row =
     List.map_filter (\<lambda>(col, pat). case pat of
         DtWildcard (Some (a, name)) \<Rightarrow> Some \<lparr>lb_action = a, lb_name = name, lb_column = col\<rparr>
       | _ \<Rightarrow> None) (enumerate 0 (pats row))"

text \<open>What one row becomes: \<open>None\<close> when it is dropped.\<close>

definition replace_col :: "'x list \<Rightarrow> nat \<Rightarrow> 'x list \<Rightarrow> 'x list" where
  "replace_col xs col ys = take col xs @ ys @ drop (Suc col) xs"

definition dt_specialize_row :: "nat \<Rightarrow> DtCtor \<Rightarrow> nat \<Rightarrow> DtRow \<Rightarrow> DtRow option total" where
  "dt_specialize_row col ctor arity row =
     at (pats row) col (\<lambda>pat. Ok (case pat of
         DtCtorPat rc args \<Rightarrow>
           if rc = ctor then Some (row\<lparr>pats := replace_col (pats row) col args\<rparr>) else None
       | DtWildcard b \<Rightarrow>
           Some (row\<lparr>pats := replace_col (pats row) col (replicate arity (DtWildcard None))\<rparr>)))"

definition dt_default_row :: "nat \<Rightarrow> DtRow \<Rightarrow> DtRow option total" where
  "dt_default_row col row =
     at (pats row) col (\<lambda>pat. Ok (if is_ctor pat then None else Some (row\<lparr>pats := replace_col (pats row) col []\<rparr>)))"

definition dt_specialize :: "DtMatrix \<Rightarrow> nat \<Rightarrow> DtCtor \<Rightarrow> Type \<Rightarrow> DtMatrix total" where
  "dt_specialize m col ctor col_ty =
     andthen (ctor_arity ctor col_ty) (\<lambda>arity.
     andthen (map_out (dt_specialize_row col ctor arity) m) (\<lambda>rows.
     Ok (List.map_filter id rows)))"

definition dt_default_matrix :: "DtMatrix \<Rightarrow> nat \<Rightarrow> DtMatrix total" where
  "dt_default_matrix m col =
     andthen (map_out (dt_default_row col) m) (\<lambda>rows. Ok (List.map_filter id rows))"

definition specialize_col_types :: "Type list \<Rightarrow> nat \<Rightarrow> DtCtor \<Rightarrow> Type \<Rightarrow> Type list total" where
  "specialize_col_types tys col ctor col_ty =
     andthen (dt_field_types ctor col_ty) (\<lambda>fs. Ok (replace_col tys col fs))"

definition default_col_types :: "Type list \<Rightarrow> nat \<Rightarrow> Type list" where
  "default_col_types tys col = replace_col tys col []"

section \<open>Column selection\<close>

fun prefix_score :: "DtMatrix \<Rightarrow> nat \<Rightarrow> nat total" where
  "prefix_score [] col = Ok 0"
| "prefix_score (row # rows) col =
     at (pats row) col (\<lambda>pat. if is_ctor pat then andthen (prefix_score rows col) (\<lambda>s. Ok (Suc s)) else Ok 0)"

fun any_ctor :: "DtMatrix \<Rightarrow> nat \<Rightarrow> bool total" where
  "any_ctor [] col = Ok False"
| "any_ctor (row # rows) col = at (pats row) col (\<lambda>pat. if is_ctor pat then Ok True else any_ctor rows col)"

fun first_ctor_column :: "DtMatrix \<Rightarrow> nat list \<Rightarrow> nat \<Rightarrow> nat total" where
  "first_ctor_column m [] best = Ok best"
| "first_ctor_column m (col # cols) best =
     andthen (any_ctor m col) (\<lambda>b. if b then Ok col else first_ctor_column m cols best)"

definition better_column :: "DtMatrix \<Rightarrow> nat \<Rightarrow> nat \<times> nat \<Rightarrow> (nat \<times> nat) total" where
  "better_column m col best =
     andthen (prefix_score m col) (\<lambda>score.
     Ok (if score > snd best then (col, score) else best))"

definition select_column :: "DtMatrix \<Rightarrow> nat total" where
  "select_column m =
     at m 0 (\<lambda>row0. let n = length (pats row0) in
     andthen (fold_out (better_column m) [0..<n] (0, 0)) (\<lambda>(best_col, best_score).
     if best_score = 0 then first_ctor_column m [0..<n] best_col else Ok best_col))"

fun head_ctor :: "DtPat \<Rightarrow> DtCtor list \<Rightarrow> DtCtor list" where
  "head_ctor (DtCtorPat c args) ctors = (if c \<in> set ctors then ctors else ctors @ [c])"
| "head_ctor (DtWildcard b) ctors = ctors"

definition head_constructors :: "DtMatrix \<Rightarrow> nat \<Rightarrow> DtCtor list total" where
  "head_constructors m col =
     fold_out (\<lambda>row ctors. at (pats row) col (\<lambda>pat. Ok (head_ctor pat ctors))) m []"

fun is_complete_signature :: "DtCtor list \<Rightarrow> Type \<Rightarrow> bool" where
  "is_complete_signature ctors TBool = (BoolTrue \<in> set ctors \<and> BoolFalse \<in> set ctors)"
| "is_complete_signature ctors (TEnum e) =
     (enum_variants e \<noteq> [] \<and> list_all (\<lambda>i. EnumVariant i \<in> set ctors) [0..<length (enum_variants e)])"
| "is_complete_signature ctors (TRecord r) = True"
| "is_complete_signature ctors (TTuple ts) = True"
| "is_complete_signature ctors TUnit = True"
| "is_complete_signature ctors _ = False"

section \<open>Compilation\<close>

text \<open>The column types shrink, so compilation ends on every matrix.\<close>

lemma replace_col_size:
  assumes "i < length tys"
  shows "cols_size (replace_col tys i fs) + Suc (size (tys ! i)) = cols_size tys + cols_size fs"
proof -
  have "cols_size tys = cols_size (take i tys @ tys ! i # drop (Suc i) tys)"
    using assms by (simp add: id_take_nth_drop [symmetric])
  then show ?thesis by (simp add: replace_col_def)
qed

lemma dt_field_types_size:
  assumes "dt_field_types ctor ty = Ok fs"
  shows "cols_size fs < Suc (size ty)"
proof (cases ctor)
  case (EnumVariant i)
  show ?thesis
  proof (cases "\<exists>e. ty = TEnum e")
    case True
    then obtain e where e: "ty = TEnum e" by blast
    with assms EnumVariant have i: "i < length (enum_variants e)"
      "fs = kind_fields (variant_kind (enum_variants e ! i))"
      by (auto simp: variant_kind_at_def outcome_simps split: EnumVariantKind.splits)
    then have "\<exists>info\<in>set (for_enum e). ci_field_types info = fs" by (auto simp: for_enum_get)
    with e show ?thesis using ctor_fields_size [of ty "for_enum e"] by auto
  next
    case False
    with assms EnumVariant show ?thesis by (cases ty) auto
  qed
next
  case Struct
  with assms show ?thesis
    using ctor_fields_size [of ty] by (cases ty) (force simp: for_record_def)+
qed (use assms in auto)

lemma specialize_col_types_size:
  assumes "specialize_col_types tys i ctor (tys ! i) = Ok ts" "i < length tys"
  shows "cols_size ts < cols_size tys"
proof -
  from assms(1) obtain fs where fs: "dt_field_types ctor (tys ! i) = Ok fs" "ts = replace_col tys i fs"
    by (auto simp: specialize_col_types_def outcome_simps)
  with replace_col_size [OF assms(2), of fs] dt_field_types_size [OF fs(1)] show ?thesis by simp
qed

lemma default_col_types_size: "i < length tys \<Longrightarrow> cols_size (default_col_types tys i) < cols_size tys"
  using replace_col_size [of i tys "[]"] by (simp add: default_col_types_def)

definition all_wildcards :: "DtRow \<Rightarrow> bool" where
  "all_wildcards row = list_all (\<lambda>p. \<not> is_ctor p) (pats row)"

function dt_compile :: "DtMatrix \<Rightarrow> Type list \<Rightarrow> DecisionTree total" where
  "dt_compile m tys =
    (case m of
       [] \<Rightarrow> Ok Fail
     | row0 # rows \<Rightarrow>
       if all_wildcards row0 then Ok (Leaf (action row0) (extract_leaf_bindings row0))
       else
         andthen (select_column m) (\<lambda>i.
         andthen (head_constructors m i) (\<lambda>sigma.
         at tys i (\<lambda>ty.
         andthen (map_out (\<lambda>ctor.
             andthen (dt_specialize m i ctor ty) (\<lambda>specialized.
             andthen (specialize_col_types tys i ctor ty) (\<lambda>new_col_types.
             andthen (dt_compile specialized new_col_types) (\<lambda>subtree. Ok (ctor, subtree))))) sigma) (\<lambda>cases.
         if is_complete_signature sigma ty then Ok (Switch i cases None)
         else
           andthen (dt_default_matrix m i) (\<lambda>def_matrix.
           andthen (dt_compile def_matrix (default_col_types tys i)) (\<lambda>d.
           Ok (Switch i cases (Some d)))))))))"
  by pat_completeness auto
termination
  by (relation "measure (\<lambda>(m, tys). cols_size tys)")
    (auto simp: default_col_types_size specialize_col_types_size)

declare dt_compile.simps [simp del]

section \<open>Lowering of typed patterns\<close>

definition literal_ctor :: "Literal \<Rightarrow> DtCtor" where
  "literal_ctor lit =
     (case lit of
        L_Integer n \<Rightarrow> IntLiteral (case literal_value n of None \<Rightarrow> 0 | Some v \<Rightarrow> v)
      | L_Boolean b \<Rightarrow> if b then BoolTrue else BoolFalse
      | L_Unit \<Rightarrow> UnitCtor)"

text \<open>\<^verbatim>\<open>variants.iter().position(..).expect(..)\<close>, the comparison against the last part of the path.\<close>

definition variant_position :: "Type EnumType \<Rightarrow> ScopedName \<Rightarrow> nat option" where
  "variant_position e name =
     (case last_opt name of
        None \<Rightarrow> None
      | Some last_name \<Rightarrow>
          map_option fst (find (\<lambda>(i, v). id_name (variant_name v) = id_name last_name)
            (enumerate 0 (enum_variants e))))"

function dt_lower_pattern :: "TypedPattern \<Rightarrow> nat \<Rightarrow> Type \<Rightarrow> DtPat total" where
  "dt_lower_pattern TP_Wildcard arm ty = Ok (DtWildcard None)"
| "dt_lower_pattern (TP_Binding ident) arm ty = Ok (DtWildcard (Some (arm, id_name ident)))"
| "dt_lower_pattern (TP_Literal lit) arm ty = Ok (DtCtorPat (literal_ctor lit) [])"
| "dt_lower_pattern (TP_Struct name fs) arm ty =
     (case ty of
        TRecord r \<Rightarrow>
          andthen (map_out (\<lambda>fd. case find_field (id_name (field_name fd)) fs of
                None \<Rightarrow> Ok (DtWildcard None)
              | Some sf \<Rightarrow> dt_lower_pattern (pat_field_pattern sf) arm (field_ty fd)) (record_fields r))
            (\<lambda>args. Ok (DtCtorPat Struct args))
      | TEnum e \<Rightarrow>
          expect (variant_position e name) (\<lambda>variant_index.
          variant_kind_at e variant_index (\<lambda>kind. case kind of
            EV_Struct field_defs \<Rightarrow>
              andthen (map_out (\<lambda>fd. case find_field (id_name (field_name fd)) fs of
                    None \<Rightarrow> Panic
                  | Some sf \<Rightarrow> dt_lower_pattern (pat_field_pattern sf) arm (field_ty fd)) field_defs)
                (\<lambda>args. Ok (DtCtorPat (EnumVariant variant_index) args))
          | _ \<Rightarrow> Ok (DtWildcard None)))
      | _ \<Rightarrow> Panic)"
| "dt_lower_pattern (TP_Tuple name ps) arm ty =
     (case ty of
        TEnum e \<Rightarrow>
          expect (variant_position e name) (\<lambda>variant_index.
          variant_kind_at e variant_index (\<lambda>kind. case kind of
            EV_Tuple field_types \<Rightarrow>
              andthen (map_out (\<lambda>(p, ft). dt_lower_pattern p arm ft) (zip ps field_types))
                (\<lambda>args. Ok (DtCtorPat (EnumVariant variant_index) args))
          | _ \<Rightarrow> Panic))
      | _ \<Rightarrow> Panic)"
| "dt_lower_pattern (TP_AnonTuple ps) arm ty =
     (case ty of
        TTuple item_types \<Rightarrow>
          andthen (map_out (\<lambda>(p, item_ty). dt_lower_pattern p arm item_ty) (zip ps item_types))
            (\<lambda>args. Ok (DtCtorPat Struct args))
      | _ \<Rightarrow> Panic)"
| "dt_lower_pattern (TP_Constant name variant) arm ty = Ok (DtCtorPat (EnumVariant variant) [])"
  by pat_completeness auto
termination
  by (relation "measure (\<lambda>(p, arm, ty). size p)")
    (auto dest!: find_field_in field_pattern_size sub_pattern_size set_zip_leftD intro: less_SucI)

text \<open>The rows of a match: one per arm, its index as the action (\<^verbatim>\<open>visit_match_stack\<close>,
  \<^verbatim>\<open>visit_match_drop\<close>).\<close>

definition lower_arm :: "Type \<Rightarrow> nat \<times> 'b TypedMatchArm \<Rightarrow> DtRow total" where
  "lower_arm ty = (\<lambda>(arm_idx, arm).
     andthen (dt_lower_pattern (arm_pattern arm) arm_idx ty) (\<lambda>pat.
     Ok \<lparr>pats = [pat], action = arm_idx\<rparr>))"

definition compile_match :: "'b TypedMatchArm list \<Rightarrow> Type \<Rightarrow> DecisionTree total" where
  "compile_match arms ty =
     andthen (map_out (lower_arm ty) (enumerate 0 arms)) (\<lambda>matrix. dt_compile matrix [ty])"

text \<open>\<^verbatim>\<open>collect_pattern_binding_types\<close>: the variables of a \<^verbatim>\<open>let\<close> pattern with their types.\<close>

definition expect_variant :: "Type EnumType \<Rightarrow> ScopedName \<Rightarrow> (Type EnumVariantType \<Rightarrow> 'a total) \<Rightarrow> 'a total" where
  "expect_variant e name k =
     expect (last_opt name) (\<lambda>last_name.
     expect (find (\<lambda>v. id_name (variant_name v) = id_name last_name) (enum_variants e)) k)"

definition struct_pattern_fields :: "ScopedName \<Rightarrow> Type \<Rightarrow> Type RecordFieldType list total" where
  "struct_pattern_fields name ty =
     (case ty of
        TRecord r \<Rightarrow> Ok (record_fields r)
      | TEnum e \<Rightarrow> expect_variant e name (\<lambda>v. case variant_kind v of EV_Struct fs \<Rightarrow> Ok fs | _ \<Rightarrow> Panic)
      | _ \<Rightarrow> Panic)"

function collect_pattern_binding_types :: "TypedPattern \<Rightarrow> Type \<Rightarrow> (string \<times> Type) list total" where
  "collect_pattern_binding_types (TP_Binding name) ty = Ok [(id_name name, ty)]"
| "collect_pattern_binding_types TP_Wildcard ty = Ok []"
| "collect_pattern_binding_types (TP_Literal lit) ty = Ok []"
| "collect_pattern_binding_types (TP_Constant name variant) ty = Ok []"
| "collect_pattern_binding_types (TP_Struct name fs) ty =
     andthen (struct_pattern_fields name ty) (\<lambda>field_types.
     andthen (map_out (\<lambda>f.
         expect (find (\<lambda>tf. id_name (field_name tf) = id_name (pat_field_name f)) field_types) (\<lambda>tf.
         collect_pattern_binding_types (pat_field_pattern f) (field_ty tf))) fs) (\<lambda>bs. Ok (concat bs)))"
| "collect_pattern_binding_types (TP_Tuple name ps) ty =
     (case ty of
        TEnum e \<Rightarrow> expect_variant e name (\<lambda>v. case variant_kind v of
            EV_Tuple field_types \<Rightarrow>
              andthen (map_out (\<lambda>(p, t). collect_pattern_binding_types p t) (zip ps field_types)) (\<lambda>bs. Ok (concat bs))
          | _ \<Rightarrow> Panic)
      | _ \<Rightarrow> Panic)"
| "collect_pattern_binding_types (TP_AnonTuple ps) ty =
     (case ty of
        TTuple field_types \<Rightarrow>
          andthen (map_out (\<lambda>(p, t). collect_pattern_binding_types p t) (zip ps field_types)) (\<lambda>bs. Ok (concat bs))
      | _ \<Rightarrow> Panic)"
  by pat_completeness auto
termination
  by (relation "measure (\<lambda>(p, ty). size p)")
    (auto dest!: field_pattern_size sub_pattern_size set_zip_leftD intro: less_SucI)

text \<open>A \<^verbatim>\<open>let\<close> with a pattern compiles a matrix of one row.\<close>

definition compile_let :: "TypedPattern \<Rightarrow> Type \<Rightarrow> DecisionTree total" where
  "compile_let pattern ty =
     andthen (dt_lower_pattern pattern 0 ty) (\<lambda>pat. dt_compile [\<lparr>pats = [pat], action = 0\<rparr>] [ty])"

text \<open>The comparison that the switch on an integer column emits: the literal is cast to the width of the
  local, 64 or 32 bits.\<close>

definition int_test :: "IntWidth \<Rightarrow> int \<Rightarrow> int \<Rightarrow> bool" where
  "int_test w n k =
     (if is_64bit w then (word_of_int n :: 64 word) = word_of_int k else (word_of_int n :: 32 word) = word_of_int k)"

end
