(* ===== verification/Decision_Tree_Sound.thy ===== *)
theory Decision_Tree_Sound
  imports Decision_Tree Match_Check_Sound
begin

text \<open>
  What a decision tree does: \<open>exec_tree\<close> follows the control flow of the code that
  \<^verbatim>\<open>emit_decision_tree\<close> emits for it, over the values of the columns. Compiling a well-typed matrix never
  panics, and the tree selects the first row that matches (\<open>Decision_Tree_Correct\<close>).
\<close>

section \<open>Meaning of the matrix\<close>

fun dt_ctor_fields :: "Type \<Rightarrow> DtCtor \<Rightarrow> Type list option" where
  "dt_ctor_fields (TEnum e) (EnumVariant i) =
     (if i < length (enum_variants e) then Some (kind_fields (variant_kind (enum_variants e ! i))) else None)"
| "dt_ctor_fields TBool BoolTrue = Some []"
| "dt_ctor_fields TBool BoolFalse = Some []"
| "dt_ctor_fields (TInt w) (IntLiteral n) = (if fits w n then Some [] else None)"
| "dt_ctor_fields TUnit UnitCtor = Some []"
| "dt_ctor_fields (TRecord r) Struct = Some (map field_ty (record_fields r))"
| "dt_ctor_fields (TTuple items) Struct = Some items"
| "dt_ctor_fields _ _ = None"

fun dp_ok :: "DtPat \<Rightarrow> Type \<Rightarrow> bool" where
  "dp_ok (DtWildcard b) ty = True"
| "dp_ok (DtCtorPat c args) ty =
     (case dt_ctor_fields ty c of None \<Rightarrow> False | Some tys \<Rightarrow> list_all2 dp_ok args tys)"

text \<open>The fields of a value built with a constructor.\<close>

fun dt_view :: "DtCtor \<Rightarrow> Val \<Rightarrow> Val list option" where
  "dt_view (EnumVariant i) (V_Ctor (C_EnumVariant en j vn) us) = (if i = j then Some us else None)"
| "dt_view BoolTrue (V_Bool b) = (if b then Some [] else None)"
| "dt_view BoolFalse (V_Bool b) = (if b then None else Some [])"
| "dt_view (IntLiteral n) (V_Int k) = (if n = k then Some [] else None)"
| "dt_view UnitCtor V_Unit = Some []"
| "dt_view Struct (V_Ctor (C_Record name) us) = Some us"
| "dt_view Struct (V_Ctor (C_Tuple n) us) = Some us"
| "dt_view _ _ = None"

fun dmatch :: "DtPat \<Rightarrow> Val \<Rightarrow> bool" where
  "dmatch (DtWildcard b) v = True"
| "dmatch (DtCtorPat c args) v = (case dt_view c v of None \<Rightarrow> False | Some us \<Rightarrow> list_all2 dmatch args us)"

function dbinds :: "DtPat \<Rightarrow> Val \<Rightarrow> (nat \<times> string \<times> Val) list" where
  "dbinds (DtWildcard None) v = []"
| "dbinds (DtWildcard (Some (a, n))) v = [(a, n, v)]"
| "dbinds (DtCtorPat c args) v =
     (case dt_view c v of None \<Rightarrow> [] | Some us \<Rightarrow> concat (map (\<lambda>(p, u). dbinds p u) (zip args us)))"
  by pat_completeness auto
termination
  by (relation "measure (\<lambda>(p, v). size p)")
    (auto dest!: set_zip_leftD simp: le_imp_less_Suc size_list_estimation')

definition row_binds :: "DtRow \<Rightarrow> Val list \<Rightarrow> (string \<times> Val) set" where
  "row_binds row vs = {(n, v). (action row, n, v) \<in> set (concat (map (\<lambda>(p, u). dbinds p u) (zip (pats row) vs)))}"

definition rows_ok :: "DtMatrix \<Rightarrow> Type list \<Rightarrow> bool" where
  "rows_ok m tys = (\<forall>row\<in>set m. list_all2 dp_ok (pats row) tys)"

definition row_matches :: "Val list \<Rightarrow> DtRow \<Rightarrow> bool" where
  "row_matches vs row = list_all2 dmatch (pats row) vs"

section \<open>Meaning of the tree\<close>

definition case_test :: "Type \<Rightarrow> DtCtor \<Rightarrow> Val \<Rightarrow> bool" where
  "case_test ty c v =
     (case ty of
        TEnum e \<Rightarrow> (case v of
            V_Ctor vc us \<Rightarrow> (case vc of C_EnumVariant en j vn \<Rightarrow> c = EnumVariant j | _ \<Rightarrow> False)
          | _ \<Rightarrow> False)
      | TBool \<Rightarrow> (case v of V_Bool b \<Rightarrow> c = (if b then BoolTrue else BoolFalse) | _ \<Rightarrow> False)
      | TInt w \<Rightarrow> (case v of
            V_Int k \<Rightarrow> (case c of IntLiteral n \<Rightarrow> int_test w n k | _ \<Rightarrow> False)
          | _ \<Rightarrow> False)
      | TRecord r \<Rightarrow> True
      | TTuple ts \<Rightarrow> True
      | TUnit \<Rightarrow> True
      | _ \<Rightarrow> False)"

fun sub_values :: "Val \<Rightarrow> Val list" where
  "sub_values (V_Ctor c us) = us"
| "sub_values _ = []"

definition type_fields :: "DtCtor \<Rightarrow> Type \<Rightarrow> Type list" where
  "type_fields c ty = (case dt_field_types c ty of Ok fs \<Rightarrow> fs | _ \<Rightarrow> [])"

lemma case_size:
  "(c, t) \<in> set cs \<Longrightarrow> size t < Suc (size_list (size_prod (\<lambda>_. 0) size) cs)"
  using size_list_estimation' [of "(c, t)" cs "size t" "size_prod (\<lambda>_. 0) size"] by simp

text \<open>\<open>Runs\<close>: an arm with its bindings; \<open>Fails\<close>: a \<open>Fail\<close> node, that is the \<^verbatim>\<open>else\<close> block of a \<^verbatim>\<open>let\<close>, or an
  \<^verbatim>\<open>unreachable\<close> in a \<^verbatim>\<open>match\<close>; \<open>Traps\<close>: an \<^verbatim>\<open>unreachable\<close> that a switch emits, in a \<^verbatim>\<open>let\<close> as well, or a column
  that does not exist.\<close>

datatype Run = Runs nat "(string \<times> Val) list" | Fails | Traps

function exec_tree :: "DecisionTree \<Rightarrow> (Val \<times> Type) list \<Rightarrow> Run" where
  "exec_tree (Leaf a bs) cols =
     (if list_all (\<lambda>b. lb_column b < length cols) bs
      then Runs a (map (\<lambda>b. (lb_name b, fst (cols ! lb_column b))) (filter (\<lambda>b. lb_action b = a) bs))
      else Traps)"
| "exec_tree Fail cols = Fails"
| "exec_tree (Switch col cs d) cols =
     (if col < length cols \<and> \<not> opaque (snd (cols ! col)) then
        (case find (\<lambda>(c, t). case_test (snd (cols ! col)) c (fst (cols ! col))) cs of
           Some (c, t) \<Rightarrow>
             exec_tree t (replace_col cols col (zip (sub_values (fst (cols ! col))) (type_fields c (snd (cols ! col)))))
         | None \<Rightarrow> (case d of None \<Rightarrow> Traps | Some t \<Rightarrow> exec_tree t (replace_col cols col [])))
      else Traps)"
  by pat_completeness auto
termination
  by (relation "measure (\<lambda>(t, cols). size t)") (auto simp: find_Some_iff dest!: nth_mem case_size)

section \<open>Where a binding is lost\<close>

text \<open>An earlier pattern hides a variable of a later one when it has a constructor at the position of the
  variable: the column of that position is then switched on, and with it goes the binding.\<close>

function (sequential) hides :: "DtPat \<Rightarrow> DtPat \<Rightarrow> bool" where
  "hides (DtCtorPat c args) (DtWildcard (Some b)) = True"
| "hides (DtCtorPat c args) (DtCtorPat c' args') = (c = c' \<and> (\<exists>(p, q)\<in>set (zip args args'). hides p q))"
| "hides _ _ = False"
  by pat_completeness auto
termination
  by (relation "measure (\<lambda>(p, q). size p)")
    (auto dest!: set_zip_leftD simp: le_imp_less_Suc size_list_estimation')

definition row_hides :: "DtRow \<Rightarrow> DtRow \<Rightarrow> bool" where
  "row_hides r row = (\<exists>(p, q)\<in>set (zip (pats r) (pats row)). hides p q)"

lemma hides_named: "hides p q \<Longrightarrow> is_ctor p"
  by (cases p) (auto elim: hides.elims)

text \<open>What a step of compilation leaves of a row hides no more than the row did.\<close>

lemma zip_replace_set:
  assumes "length xs = length ys" "length us = length ws" "i < length ys"
  shows "set (zip (replace_col xs i us) (replace_col ys i ws)) \<subseteq> set (zip xs ys) \<union> set (zip us ws)"
proof -
  have "zip (replace_col xs i us) (replace_col ys i ws) = replace_col (zip xs ys) i (zip us ws)"
    using assms by (simp add: replace_col_def take_zip drop_zip)
  then show ?thesis by (auto simp: replace_col_def dest: in_set_takeD in_set_dropD)
qed

section \<open>Constructors and values\<close>

lemma dt_view_unique:
  assumes "dt_view c v = Some us" "dt_view c' v = Some us'"
  shows "c' = c"
  using assms by (cases "(c, v)" rule: dt_view.cases; cases c') (auto split: if_splits)

lemma dt_fields_types:
  "dt_ctor_fields ty c = Some fs \<Longrightarrow> dt_field_types c ty = Ok fs \<and> ctor_arity c ty = Ok (length fs)"
  by (cases "(ty, c)" rule: dt_ctor_fields.cases)
    (auto simp: variant_kind_at_def at_def split: if_splits EnumVariantKind.splits)

lemma view_values:
  assumes "dt_ctor_fields ty c = Some fs" "has_type v ty" "dt_view c v = Some us"
  shows "list_all2 has_type us fs"
  using assms
  by (cases "(ty, c)" rule: dt_ctor_fields.cases; cases "(c, v)" rule: dt_view.cases) (auto split: if_splits)

lemma word_of_int_inj:
  assumes "\<bar>n - k\<bar> < 2 ^ LENGTH('a::len)"
  shows "(word_of_int n :: 'a word) = word_of_int k \<longleftrightarrow> n = k"
proof
  assume "(word_of_int n :: 'a word) = word_of_int k"
  then have "2 ^ LENGTH('a) dvd n - k"
    by (simp add: word_of_int_eq_iff take_bit_eq_mod mod_eq_dvd_iff)
  with assms show "n = k" using dvd_imp_le_int [of "n - k" "2 ^ LENGTH('a)"] by force
qed simp

lemma int_test_fits:
  assumes "fits w n" "fits w k"
  shows "int_test w n k \<longleftrightarrow> n = k"
proof -
  have "n - k < 2 ^ 64 \<and> k - n < 2 ^ 64 \<and> (is_64bit w \<or> n - k < 2 ^ 32 \<and> k - n < 2 ^ 32)"
    using assms by (cases w) (simp_all add: fits_def is_64bit_def)
  then have "\<bar>n - k\<bar> < 2 ^ LENGTH(64)" "is_64bit w \<or> \<bar>n - k\<bar> < 2 ^ LENGTH(32)"
    by (simp_all add: abs_less_iff)
  then show ?thesis
    unfolding int_test_def using word_of_int_inj [where 'a = 64] word_of_int_inj [where 'a = 32] by metis
qed

lemma typed_ctor_not_opaque: "dt_ctor_fields ty c = Some fs \<Longrightarrow> \<not> opaque ty"
  by (cases "(ty, c)" rule: dt_ctor_fields.cases) auto

text \<open>The values of a type, by the shape of the type.\<close>

lemma typed_values:
  "has_type v TBool \<longleftrightarrow> (\<exists>b. v = V_Bool b)"
  "has_type v TUnit \<longleftrightarrow> v = V_Unit"
  "has_type v (TInt w) \<longleftrightarrow> (\<exists>k. v = V_Int k \<and> fits w k)"
  "has_type v (TRecord r) \<longleftrightarrow> (\<exists>us. v = V_Ctor (C_Record (id_name (record_name r))) us
     \<and> list_all2 has_type us (map field_ty (record_fields r)))"
  "has_type v (TTuple tys) \<longleftrightarrow> (\<exists>us. v = V_Ctor (C_Tuple (length tys)) us \<and> list_all2 has_type us tys)"
  "has_type v (TEnum e) \<longleftrightarrow> (\<exists>i us. i < length (enum_variants e)
     \<and> v = V_Ctor (C_EnumVariant (id_name (enum_name e)) i (id_name (variant_name (enum_variants e ! i)))) us
     \<and> list_all2 has_type us (kind_fields (variant_kind (enum_variants e ! i))))"
proof -
  show "has_type v TBool \<longleftrightarrow> (\<exists>b. v = V_Bool b)" "has_type v TUnit \<longleftrightarrow> v = V_Unit"
    "has_type v (TInt w) \<longleftrightarrow> (\<exists>k. v = V_Int k \<and> fits w k)"
    by (cases v; simp)+
  show "has_type v (TRecord r) \<longleftrightarrow> (\<exists>us. v = V_Ctor (C_Record (id_name (record_name r))) us
     \<and> list_all2 has_type us (map field_ty (record_fields r)))"
    "has_type v (TTuple tys) \<longleftrightarrow> (\<exists>us. v = V_Ctor (C_Tuple (length tys)) us \<and> list_all2 has_type us tys)"
    "has_type v (TEnum e) \<longleftrightarrow> (\<exists>i us. i < length (enum_variants e)
     \<and> v = V_Ctor (C_EnumVariant (id_name (enum_name e)) i (id_name (variant_name (enum_variants e ! i)))) us
     \<and> list_all2 has_type us (kind_fields (variant_kind (enum_variants e ! i))))"
  proof -
    have "has_type (V_Ctor c us) (TRecord r) \<longleftrightarrow> c = C_Record (id_name (record_name r))
        \<and> list_all2 has_type us (map field_ty (record_fields r))"
      "has_type (V_Ctor c us) (TTuple tys) \<longleftrightarrow> c = C_Tuple (length tys) \<and> list_all2 has_type us tys" for c us
      by (cases c; auto)+
    then show "has_type v (TRecord r) \<longleftrightarrow> (\<exists>us. v = V_Ctor (C_Record (id_name (record_name r))) us
       \<and> list_all2 has_type us (map field_ty (record_fields r)))"
      "has_type v (TTuple tys) \<longleftrightarrow> (\<exists>us. v = V_Ctor (C_Tuple (length tys)) us \<and> list_all2 has_type us tys)"
      by (cases v; force)+
    have "has_type (V_Ctor c us) (TEnum e) \<longleftrightarrow> (\<exists>i. i < length (enum_variants e)
     \<and> c = C_EnumVariant (id_name (enum_name e)) i (id_name (variant_name (enum_variants e ! i)))
     \<and> list_all2 has_type us (kind_fields (variant_kind (enum_variants e ! i))))" for c us
      by (cases c) auto
    then show "has_type v (TEnum e) \<longleftrightarrow> (\<exists>i us. i < length (enum_variants e)
     \<and> v = V_Ctor (C_EnumVariant (id_name (enum_name e)) i (id_name (variant_name (enum_variants e ! i)))) us
     \<and> list_all2 has_type us (kind_fields (variant_kind (enum_variants e ! i))))"
      by (cases v) force+
  qed
qed

lemma typed_ctor_cases [consumes 1, case_names enum true false int unit struct_record struct_tuple]:
  assumes "dt_ctor_fields ty c = Some fs"
  obtains e i where "ty = TEnum e" "c = EnumVariant i" "i < length (enum_variants e)"
      "fs = kind_fields (variant_kind (enum_variants e ! i))"
  | "ty = TBool" "c = BoolTrue" "fs = []"
  | "ty = TBool" "c = BoolFalse" "fs = []"
  | w n where "ty = TInt w" "c = IntLiteral n" "fits w n" "fs = []"
  | "ty = TUnit" "c = UnitCtor" "fs = []"
  | r where "ty = TRecord r" "c = Struct" "fs = map field_ty (record_fields r)"
  | items where "ty = TTuple items" "c = Struct" "fs = items"
  using assms by (cases "(ty, c)" rule: dt_ctor_fields.cases) (auto split: if_splits)

lemma case_test_view:
  assumes "dt_ctor_fields ty c = Some fs" "has_type v ty"
  shows "case_test ty c v \<longleftrightarrow> dt_view c v \<noteq> None"
  using assms(1)
proof (cases rule: typed_ctor_cases)
  case (int w n)
  with assms(2) obtain k where "v = V_Int k" "fits w k" by (auto simp: typed_values)
  with int int_test_fits [of w n k] show ?thesis by (simp add: case_test_def)
qed (use assms(2) in \<open>auto simp: typed_values case_test_def split: if_splits\<close>)

lemma sub_values_view:
  assumes "dt_ctor_fields ty c = Some fs" "has_type v ty" "dt_view c v = Some us"
  shows "zip (sub_values v) (type_fields c ty) = zip us fs"
proof -
  have t: "type_fields c ty = fs" using dt_fields_types [OF assms(1)] by (simp add: type_fields_def)
  from assms(1) show ?thesis
    unfolding t by (cases rule: typed_ctor_cases) (use assms(2,3) in \<open>auto simp: typed_values split: if_splits\<close>)
qed

lemma complete_view:
  assumes "is_complete_signature sigma ty" "has_type v ty" "sigma \<noteq> []"
    and "\<forall>c\<in>set sigma. dt_ctor_fields ty c \<noteq> None"
  shows "\<exists>c\<in>set sigma. dt_view c v \<noteq> None"
proof (cases ty)
  case TBool
  with assms obtain b where "v = V_Bool b" by (cases v) (auto split: option.splits)
  with TBool assms show ?thesis by (cases b) (auto intro: bexI [of _ BoolTrue] bexI [of _ BoolFalse])
next
  case (TEnum e)
  with assms(2) obtain i us where "v = V_Ctor (C_EnumVariant (id_name (enum_name e)) i
      (id_name (variant_name (enum_variants e ! i)))) us" "i < length (enum_variants e)"
    by (auto elim: enum_value)
  with TEnum assms(1) show ?thesis by (auto simp: list_all_iff intro!: bexI [of _ "EnumVariant i"])
next
  case (TRecord r)
  with assms(2) obtain us where "v = V_Ctor (C_Record (id_name (record_name r))) us"
    by (cases v) (auto split: option.splits if_splits elim!: ctor_fields.elims)
  moreover have "hd sigma \<in> set sigma" "hd sigma = Struct"
    using assms(3,4) TRecord by (cases sigma; cases "hd sigma"; auto)+
  ultimately show ?thesis by (intro bexI [of _ "hd sigma"]) auto
next
  case (TTuple items)
  with assms(2) obtain us where "v = V_Ctor (C_Tuple (length items)) us"
    by (cases v) (auto split: option.splits if_splits elim!: ctor_fields.elims)
  moreover have "hd sigma \<in> set sigma" "hd sigma = Struct"
    using assms(3,4) TTuple by (cases sigma; cases "hd sigma"; auto)+
  ultimately show ?thesis by (intro bexI [of _ "hd sigma"]) auto
next
  case TUnit
  with assms(2) have "v = V_Unit" by (cases v) (auto split: option.splits)
  moreover have "hd sigma \<in> set sigma" "hd sigma = UnitCtor"
    using assms(3,4) TUnit by (cases sigma; cases "hd sigma"; auto)+
  ultimately show ?thesis by (intro bexI [of _ "hd sigma"]) auto
qed (use assms in auto)

section \<open>Selecting a column\<close>

lemma rows_ok_length: "rows_ok m tys \<Longrightarrow> row \<in> set m \<Longrightarrow> length (pats row) = length tys"
  by (auto simp: rows_ok_def list_all2_lengthD)

lemma prefix_score_pos:
  assumes "\<forall>row\<in>set (r # rs). c < length (pats row)"
  shows "\<exists>s. prefix_score (r # rs) c = Ok s \<and> (0 < s \<longleftrightarrow> is_ctor (pats r ! c))"
  using assms
proof (induction rs arbitrary: r)
  case (Cons r' rs)
  then obtain s where "prefix_score (r' # rs) c = Ok s" by auto
  with Cons.prems show ?case by (auto simp: at_def)
qed (auto simp: at_def)

lemma better_columns:
  assumes "\<And>c. c \<in> set cols \<Longrightarrow> prefix_score m c = Ok (sc c)"
  shows "\<exists>b s. fold_out (better_column m) cols (b0, s0) = Ok (b, s) \<and> s0 \<le> s
    \<and> (\<forall>c\<in>set cols. sc c \<le> s) \<and> ((b, s) = (b0, s0) \<or> (b \<in> set cols \<and> sc b = s))"
  using assms
proof (induction cols arbitrary: b0 s0)
  case (Cons c cols)
  define b1 s1 where "b1 = (if sc c > s0 then c else b0)" and "s1 = (if sc c > s0 then sc c else s0)"
  have step: "better_column m c (b0, s0) = Ok (b1, s1)"
    using Cons.prems by (auto simp: better_column_def b1_def s1_def)
  from Cons.IH [of b1 s1] Cons.prems obtain b s where
    "fold_out (better_column m) cols (b1, s1) = Ok (b, s)" "s1 \<le> s" "\<forall>c\<in>set cols. sc c \<le> s"
    "(b, s) = (b1, s1) \<or> (b \<in> set cols \<and> sc b = s)" by auto
  with step show ?case by (auto simp: b1_def s1_def split: if_splits)
qed auto

text \<open>The selected column is one where the first row has a constructor; the fallback is not reached.\<close>

lemma select_column_ok:
  assumes "rows_ok (r # rs) tys" "\<not> all_wildcards r"
  shows "\<exists>i. select_column (r # rs) = Ok i \<and> i < length tys \<and> is_ctor (pats r ! i)"
proof -
  let ?m = "r # rs"
  have len: "length (pats row) = length tys" if "row \<in> set ?m" for row
    by (rule rows_ok_length [OF assms(1) that])
  have "\<forall>c. \<exists>s. c < length tys \<longrightarrow> prefix_score ?m c = Ok s \<and> (0 < s \<longleftrightarrow> is_ctor (pats r ! c))"
    using prefix_score_pos [of r rs] len by auto
  then obtain sc where sc: "\<And>c. c < length tys \<Longrightarrow> prefix_score ?m c = Ok (sc c)"
    "\<And>c. c < length tys \<Longrightarrow> 0 < sc c \<longleftrightarrow> is_ctor (pats r ! c)" by metis
  obtain b s where bs: "fold_out (better_column ?m) [0..<length tys] (0, 0) = Ok (b, s)"
    "\<forall>c\<in>set [0..<length tys]. sc c \<le> s" "(b, s) = (0, 0) \<or> (b \<in> set [0..<length tys] \<and> sc b = s)"
    using better_columns [of "[0..<length tys]" ?m sc 0 0] sc(1) by auto
  obtain c where c: "c < length tys" "is_ctor (pats r ! c)"
    using assms(2) len [of r] by (auto simp: all_wildcards_def list_all_length)
  with sc(2) [of c] bs(2) have "0 < s" by (auto dest!: bspec [of _ _ c])
  with bs sc(2) have "b < length tys" "is_ctor (pats r ! b)" by auto
  with bs(1) \<open>0 < s\<close> len [of r] show ?thesis by (auto simp: select_column_def at_def)
qed

lemma head_ctor_set: "set (head_ctor p cs) = set cs \<union> {c. \<exists>args. p = DtCtorPat c args}"
  by (cases p) auto

lemma head_constructors_ok:
  assumes "\<forall>row\<in>set m. i < length (pats row)"
  shows "\<exists>sigma. head_constructors m i = Ok sigma
    \<and> set sigma = {c. \<exists>row\<in>set m. \<exists>args. pats row ! i = DtCtorPat c args}"
proof -
  have "\<exists>sigma. fold_out (\<lambda>row ctors. at (pats row) i (\<lambda>pat. Ok (head_ctor pat ctors))) m cs = Ok sigma
    \<and> set sigma = set cs \<union> {c. \<exists>row\<in>set m. \<exists>args. pats row ! i = DtCtorPat c args}" for cs
    using assms
  proof (induction m arbitrary: cs)
    case (Cons row m)
    then have "i < length (pats row)" by simp
    with Cons.IH [of "head_ctor (pats row ! i) cs"] Cons.prems show ?case
      by (auto simp: at_def head_ctor_set)
  qed auto
  from this [of "[]"] show ?thesis by (simp add: head_constructors_def)
qed

section \<open>Specialization\<close>

definition spec_row :: "nat \<Rightarrow> DtCtor \<Rightarrow> nat \<Rightarrow> DtRow \<Rightarrow> DtRow option" where
  "spec_row i c n row = (case pats row ! i of
       DtCtorPat rc args \<Rightarrow> if rc = c then Some (row\<lparr>pats := replace_col (pats row) i args\<rparr>) else None
     | DtWildcard b \<Rightarrow> Some (row\<lparr>pats := replace_col (pats row) i (replicate n (DtWildcard None))\<rparr>))"

definition def_row :: "nat \<Rightarrow> DtRow \<Rightarrow> DtRow option" where
  "def_row i row = (if is_ctor (pats row ! i) then None else Some (row\<lparr>pats := replace_col (pats row) i []\<rparr>))"

lemma map_out_pure: "(\<And>x. x \<in> set xs \<Longrightarrow> f x = Ok (g x)) \<Longrightarrow> map_out f xs = Ok (map g xs)"
  by (induction xs) auto

lemma map_filter_id: "List.map_filter id (map f xs) = List.map_filter f xs"
  by (induction xs) (auto simp: List.map_filter_simps split: option.splits)

lemma dt_specialize_ok:
  assumes "\<forall>row\<in>set m. i < length (pats row)" "dt_ctor_fields ty c = Some fs"
  shows "dt_specialize m i c ty = Ok (List.map_filter (spec_row i c (length fs)) m)"
  using assms dt_fields_types [OF assms(2)]
    map_out_pure [of m "dt_specialize_row i c (length fs)" "spec_row i c (length fs)"]
  by (simp add: dt_specialize_def dt_specialize_row_def spec_row_def at_def map_filter_id)

lemma dt_default_ok:
  assumes "\<forall>row\<in>set m. i < length (pats row)"
  shows "dt_default_matrix m i = Ok (List.map_filter (def_row i) m)"
  using assms map_out_pure [of m "dt_default_row i" "def_row i"]
  by (simp add: dt_default_matrix_def dt_default_row_def def_row_def at_def map_filter_id)

lemma list_all2_replace:
  assumes "list_all2 P xs ys" "list_all2 P us ws"
  shows "list_all2 P (replace_col xs i us) (replace_col ys i ws)"
  using assms by (simp add: replace_col_def list_all2_appendI)

lemma list_all2_replace_iff:
  assumes "length xs = length ys" "i < length ys" "length us = length ws"
  shows "list_all2 P (replace_col xs i us) (replace_col ys i ws) \<and> P (xs ! i) (ys ! i)
    \<longleftrightarrow> list_all2 P us ws \<and> list_all2 P xs ys"
proof -
  have "list_all2 P xs ys \<longleftrightarrow> list_all2 P (take i xs) (take i ys) \<and> P (xs ! i) (ys ! i)
      \<and> list_all2 P (drop (Suc i) xs) (drop (Suc i) ys)"
  proof -
    have split: "xs = take i xs @ xs ! i # drop (Suc i) xs" "ys = take i ys @ ys ! i # drop (Suc i) ys"
      using assms by (simp_all add: id_take_nth_drop [symmetric])
    have "list_all2 P (take i xs @ xs ! i # drop (Suc i) xs) (take i ys @ ys ! i # drop (Suc i) ys)
      \<longleftrightarrow> list_all2 P (take i xs) (take i ys) \<and> P (xs ! i) (ys ! i)
        \<and> list_all2 P (drop (Suc i) xs) (drop (Suc i) ys)"
      using assms by (simp add: list_all2_append)
    then show ?thesis unfolding split [symmetric] .
  qed
  moreover have "list_all2 P (replace_col xs i us) (replace_col ys i ws) \<longleftrightarrow>
      list_all2 P (take i xs) (take i ys) \<and> list_all2 P us ws \<and> list_all2 P (drop (Suc i) xs) (drop (Suc i) ys)"
    using assms by (simp add: replace_col_def list_all2_append)
  ultimately show ?thesis by blast
qed

lemma zip_replace:
  assumes "length xs = length ys" "length us = length ws"
  shows "zip (replace_col xs i us) (replace_col ys i ws) = replace_col (zip xs ys) i (zip us ws)"
  using assms by (simp add: replace_col_def take_zip drop_zip)

lemma rows_ok_specialize:
  assumes "rows_ok m tys" "i < length tys" "dt_ctor_fields (tys ! i) c = Some fs"
  shows "rows_ok (List.map_filter (spec_row i c (length fs)) m) (replace_col tys i fs)"
  unfolding rows_ok_def
proof
  fix row' assume "row' \<in> set (List.map_filter (spec_row i c (length fs)) m)"
  then obtain row where row: "row \<in> set m" "spec_row i c (length fs) row = Some row'"
    by (auto simp: in_map_filter)
  with assms have ok: "list_all2 dp_ok (pats row) tys" by (simp add: rows_ok_def)
  with assms(2) have "dp_ok (pats row ! i) (tys ! i)" by (simp add: list_all2_conv_all_nth)
  with row ok assms show "list_all2 dp_ok (pats row') (replace_col tys i fs)"
    by (auto simp: spec_row_def list_all2_conv_all_nth [of _ "replicate _ _"] split: DtPat.splits if_splits
        intro!: list_all2_replace)
qed

lemma rows_ok_default:
  assumes "rows_ok m tys"
  shows "rows_ok (List.map_filter (def_row i) m) (replace_col tys i [])"
  using assms by (auto simp: rows_ok_def in_map_filter def_row_def split: if_splits intro!: list_all2_replace)

end
