(* ===== verification/Decision_Tree_Correct.thy ===== *)
theory Decision_Tree_Correct
  imports Decision_Tree_Sound
begin

text \<open>
  Compilation to decision trees is correct: on a well-typed matrix it does not panic, and on typed column
  values the tree runs the action of the first row that matches (it fails when none does, and never traps).
  The variables it binds have the values the row's pattern gives them, and they are all the variables of the
  row unless an earlier row hides one.
\<close>

section \<open>Bindings\<close>

definition pbinds :: "DtPat list \<Rightarrow> Val list \<Rightarrow> (nat \<times> string \<times> Val) set" where
  "pbinds ps vs = set (concat (map (\<lambda>(p, u). dbinds p u) (zip ps vs)))"

lemma row_binds_pbinds: "row_binds row vs = {(n, v). (action row, n, v) \<in> pbinds (pats row) vs}"
  by (simp only: row_binds_def pbinds_def)

lemma pbinds_append: "length ps = length vs \<Longrightarrow> pbinds (ps @ qs) (vs @ ws) = pbinds ps vs \<union> pbinds qs ws"
  by (simp add: pbinds_def)

lemma pbinds_wildcards: "pbinds (replicate n (DtWildcard None)) us = {}"
proof (induction n arbitrary: us)
  case (Suc n)
  then show ?case by (cases us) (auto simp: pbinds_def)
qed (simp add: pbinds_def)

lemma pbinds_replace:
  assumes "length ps = length vs" "i < length vs" "length args = length us"
  shows "pbinds (replace_col ps i args) (replace_col vs i us) =
    pbinds (take i ps) (take i vs) \<union> pbinds args us \<union> pbinds (drop (Suc i) ps) (drop (Suc i) vs)"
  using assms by (simp add: replace_col_def pbinds_append Un_assoc)

lemma pbinds_at:
  assumes "length ps = length vs" "i < length vs"
  shows "pbinds ps vs =
    pbinds (take i ps) (take i vs) \<union> set (dbinds (ps ! i) (vs ! i)) \<union> pbinds (drop (Suc i) ps) (drop (Suc i) vs)"
proof -
  have "pbinds (replace_col ps i [ps ! i]) (replace_col vs i [vs ! i]) =
    pbinds (take i ps) (take i vs) \<union> pbinds [ps ! i] [vs ! i] \<union> pbinds (drop (Suc i) ps) (drop (Suc i) vs)"
    using assms by (simp add: pbinds_replace)
  moreover have "replace_col ps i [ps ! i] = ps" "replace_col vs i [vs ! i] = vs"
    using assms by (simp_all add: replace_col_def id_take_nth_drop [symmetric])
  ultimately show ?thesis by (simp add: pbinds_def)
qed

section \<open>One step of compilation, seen from the rows\<close>

text \<open>\<open>row'\<close> stands for \<open>row\<close> on the columns \<open>vs'\<close> that replace \<open>vs\<close>.\<close>

definition stands_for :: "Val list \<Rightarrow> Val list \<Rightarrow> DtRow \<Rightarrow> DtRow \<Rightarrow> bool" where
  "stands_for vs vs' row row' \<longleftrightarrow> row_matches vs' row' = row_matches vs row \<and> action row' = action row
     \<and> row_binds row' vs' \<subseteq> row_binds row vs"

lemma spec_row_correct:
  assumes "list_all2 dp_ok (pats row) tys" "list_all2 has_type vs tys" "i < length tys"
    and "dt_ctor_fields (tys ! i) c = Some fs" "dt_view c (vs ! i) = Some us"
  shows "case spec_row i c (length fs) row of
      None \<Rightarrow> \<not> row_matches vs row
    | Some row' \<Rightarrow> stands_for vs (replace_col vs i us) row row'
        \<and> ((\<forall>b. pats row ! i \<noteq> DtWildcard (Some b)) \<longrightarrow> row_binds row' (replace_col vs i us) = row_binds row vs)"
proof -
  have len: "length (pats row) = length vs" "i < length vs" using assms(1-3) by (simp_all add: list_all2_lengthD)
  have "has_type (vs ! i) (tys ! i)" "dp_ok (pats row ! i) (tys ! i)"
    using assms(1-3) by (auto simp: list_all2_conv_all_nth)
  from view_values [OF assms(4) this(1) assms(5)] this(2) have us: "length us = length fs"
    and ok: "dp_ok (pats row ! i) (tys ! i)" by (simp_all add: list_all2_lengthD)
  show ?thesis
  proof (cases "pats row ! i")
    case (DtWildcard b)
    have "list_all2 dmatch (replicate (length fs) (DtWildcard None)) us"
      using us by (simp add: list_all2_conv_all_nth)
    then have "list_all2 dmatch (replace_col (pats row) i (replicate (length fs) (DtWildcard None))) (replace_col vs i us)
      = list_all2 dmatch (pats row) vs"
      using list_all2_replace_iff [OF len, of "replicate (length fs) (DtWildcard None)" us dmatch] us DtWildcard by simp
    moreover have "pbinds (replace_col (pats row) i (replicate (length fs) (DtWildcard None))) (replace_col vs i us)
      \<subseteq> pbinds (pats row) vs"
      unfolding pbinds_at [OF len] using us by (subst pbinds_replace [OF len]) (auto simp: pbinds_wildcards)
    moreover have "pbinds (replace_col (pats row) i (replicate (length fs) (DtWildcard None))) (replace_col vs i us)
      = pbinds (pats row) vs" if "b = None"
      unfolding pbinds_at [OF len] using us DtWildcard that
      by (subst pbinds_replace [OF len]) (simp_all add: pbinds_wildcards)
    ultimately show ?thesis
      using DtWildcard by (cases b) (auto simp: spec_row_def stands_for_def row_matches_def row_binds_pbinds)
  next
    case (DtCtorPat rc args)
    show ?thesis
    proof (cases "rc = c")
      case False
      with assms(5) have "dt_view rc (vs ! i) = None"
        using dt_view_unique by (metis option.exhaust)
      then have "\<not> dmatch (pats row ! i) (vs ! i)" using DtCtorPat by simp
      then have "\<not> row_matches vs row" using len by (auto simp: row_matches_def list_all2_conv_all_nth)
      with False DtCtorPat show ?thesis by (simp add: spec_row_def)
    next
      case True
      with ok DtCtorPat assms(4) us have la: "length args = length us" by (simp add: list_all2_lengthD)
      have "list_all2 dmatch (replace_col (pats row) i args) (replace_col vs i us) = list_all2 dmatch (pats row) vs"
      proof -
        have "dmatch (pats row ! i) (vs ! i) = list_all2 dmatch args us" using True DtCtorPat assms(5) by simp
        moreover have "list_all2 dmatch (pats row) vs \<Longrightarrow> dmatch (pats row ! i) (vs ! i)"
          using len(2) by (simp add: list_all2_nthD2)
        moreover have "list_all2 dmatch (replace_col (pats row) i args) (replace_col vs i us) \<Longrightarrow> list_all2 dmatch args us"
          using len la by (simp add: replace_col_def list_all2_append)
        ultimately show ?thesis using list_all2_replace_iff [OF len la, of dmatch] by blast
      qed
      moreover have "set (dbinds (pats row ! i) (vs ! i)) = pbinds args us"
        using True DtCtorPat assms(5) by (simp add: pbinds_def)
      ultimately show ?thesis
        using True DtCtorPat
        by (simp add: spec_row_def stands_for_def row_matches_def row_binds_pbinds
            pbinds_replace [OF len la] pbinds_at [OF len])
    qed
  qed
qed

lemma def_row_correct:
  assumes "list_all2 dp_ok (pats row) tys" "list_all2 has_type vs tys" "i < length tys"
    and "\<And>c args. pats row ! i = DtCtorPat c args \<Longrightarrow> dt_view c (vs ! i) = None"
  shows "case def_row i row of
      None \<Rightarrow> \<not> row_matches vs row
    | Some row' \<Rightarrow> stands_for vs (replace_col vs i []) row row'
        \<and> ((\<forall>b. pats row ! i \<noteq> DtWildcard (Some b)) \<longrightarrow> row_binds row' (replace_col vs i []) = row_binds row vs)"
proof -
  have len: "length (pats row) = length vs" "i < length vs" using assms(1-3) by (simp_all add: list_all2_lengthD)
  show ?thesis
  proof (cases "pats row ! i")
    case (DtCtorPat c args)
    with assms(4) have "\<not> dmatch (pats row ! i) (vs ! i)" by simp
    then have "\<not> row_matches vs row" using len by (auto simp: row_matches_def list_all2_conv_all_nth)
    with DtCtorPat show ?thesis by (simp add: def_row_def)
  next
    case (DtWildcard b)
    then have "list_all2 dmatch (replace_col (pats row) i []) (replace_col vs i []) = list_all2 dmatch (pats row) vs"
      using list_all2_replace_iff [OF len, of "[]" "[]" dmatch] by simp
    moreover have "pbinds (replace_col (pats row) i []) (replace_col vs i []) \<subseteq> pbinds (pats row) vs"
      unfolding pbinds_at [OF len] by (subst pbinds_replace [OF len]) (auto simp: pbinds_def)
    moreover have "pbinds (replace_col (pats row) i []) (replace_col vs i []) = pbinds (pats row) vs" if "b = None"
      unfolding pbinds_at [OF len] using DtWildcard that by (subst pbinds_replace [OF len]) (auto simp: pbinds_def)
    ultimately show ?thesis
      using DtWildcard by (cases b) (auto simp: def_row_def stands_for_def row_matches_def row_binds_pbinds)
  qed
qed

lemma spec_row_hides:
  assumes "row_hides r' row'" "spec_row i c n r = Some r'" "spec_row i c n row = Some row'"
    and "list_all2 dp_ok (pats r) tys" "list_all2 dp_ok (pats row) tys" "i < length tys"
    and "dt_ctor_fields (tys ! i) c = Some fs" "n = length fs"
  shows "row_hides r row"
proof -
  let ?args = "\<lambda>p. case p of DtCtorPat rc args \<Rightarrow> args | DtWildcard b \<Rightarrow> replicate n (DtWildcard None)"
  have len: "length (pats r) = length (pats row)" "i < length (pats row)"
    using assms(4-6) by (simp_all add: list_all2_lengthD)
  have p: "pats s' = replace_col (pats s) i (?args (pats s ! i))" "\<And>rc as. pats s ! i = DtCtorPat rc as \<Longrightarrow> rc = c"
    "length (?args (pats s ! i)) = n"
    if "spec_row i c n s = Some s'" "list_all2 dp_ok (pats s) tys" for s s'
  proof -
    have "dp_ok (pats s ! i) (tys ! i)" using that(2) assms(6) by (simp add: list_all2_nthD2 list_all2_lengthD)
    with that(1) assms(7,8) show "length (?args (pats s ! i)) = n"
      by (auto simp: spec_row_def list_all2_lengthD split: DtPat.splits if_splits)
  qed (use that(1) in \<open>auto simp: spec_row_def split: DtPat.splits if_splits\<close>)
  note r = p [OF assms(2,4)] and row = p [OF assms(3,5)]
  from assms(1) obtain x y where xy: "(x, y) \<in> set (zip (pats r') (pats row'))" "hides x y" by (auto simp: row_hides_def)
  with zip_replace_set [OF len(1), of "?args (pats r ! i)" "?args (pats row ! i)" i] len r row
  have "(x, y) \<in> set (zip (pats r) (pats row)) \<or> (x, y) \<in> set (zip (?args (pats r ! i)) (?args (pats row ! i)))" by auto
  then show ?thesis
  proof
    assume z: "(x, y) \<in> set (zip (?args (pats r ! i)) (?args (pats row ! i)))"
    have "hides (pats r ! i) (pats row ! i)"
    proof (cases "pats r ! i")
      case (DtWildcard b)
      with z hides_named [OF xy(2)] show ?thesis by (auto dest!: set_zip_leftD)
    next
      case (DtCtorPat rc as)
      show ?thesis
      proof (cases "pats row ! i")
        case wild: (DtWildcard b)
        with z DtCtorPat xy(2) show ?thesis by (cases x) (auto dest!: set_zip_rightD)
      next
        case (DtCtorPat rc' as')
        with z xy(2) \<open>pats r ! i = DtCtorPat rc as\<close> r(2) row(2) show ?thesis by auto
      qed
    qed
    with len show ?thesis unfolding row_hides_def by (auto simp: set_zip)
  qed (use xy(2) in \<open>auto simp: row_hides_def\<close>)
qed

lemma def_row_hides:
  assumes "row_hides r' row'" "def_row i r = Some r'" "def_row i row = Some row'"
    and "length (pats r) = length (pats row)" "i < length (pats row)"
  shows "row_hides r row"
  using assms zip_replace_set [OF assms(4), of "[]" "[]" i]
  by (fastforce simp: row_hides_def def_row_def split: if_splits)

text \<open>What the tree of a matrix does on column values. \<open>before\<close> are the rows tried before the first match.\<close>

definition before :: "DtMatrix \<Rightarrow> Val list \<Rightarrow> DtRow list" where
  "before m vs = takeWhile (\<lambda>row. \<not> row_matches vs row) m"

definition tree_ok :: "DtMatrix \<Rightarrow> Val list \<Rightarrow> Run \<Rightarrow> bool" where
  "tree_ok m vs r =
     (case find (row_matches vs) m of
        None \<Rightarrow> r = Fails
      | Some row \<Rightarrow> (\<exists>bs. r = Runs (action row) bs \<and> set bs \<subseteq> row_binds row vs
          \<and> ((\<forall>r\<in>set (before m vs). \<not> row_hides r row) \<longrightarrow> set bs = row_binds row vs)))"

lemma find_map_filter:
  assumes "\<forall>row\<in>set m. case f row of None \<Rightarrow> \<not> P row | Some row' \<Rightarrow> Q row' = P row"
  shows "find Q (List.map_filter f m) = (case find P m of None \<Rightarrow> None | Some row \<Rightarrow> f row)"
    and "find P m = Some row \<Longrightarrow> f row \<noteq> None"
    and "takeWhile (\<lambda>row. \<not> Q row) (List.map_filter f m) = List.map_filter f (takeWhile (\<lambda>row. \<not> P row) m)"
  using assms by (induction m) (auto simp: List.map_filter_simps split: option.splits if_splits)

lemma tree_ok_step:
  assumes "tree_ok (List.map_filter f m) vs' r"
    and "\<forall>row\<in>set m. case f row of None \<Rightarrow> \<not> row_matches vs row | Some row' \<Rightarrow> stands_for vs vs' row row'"
    and "\<And>row row'. row \<in> set m \<Longrightarrow> f row = Some row' \<Longrightarrow> \<forall>r\<in>set (before m vs). \<not> row_hides r row \<Longrightarrow>
      find (row_matches vs) m = Some row \<Longrightarrow> row_binds row' vs' = row_binds row vs"
    and "\<And>r r' row row'. r \<in> set m \<Longrightarrow> row \<in> set m \<Longrightarrow> f r = Some r' \<Longrightarrow> f row = Some row' \<Longrightarrow> row_hides r' row' \<Longrightarrow> row_hides r row"
  shows "tree_ok m vs r"
proof -
  have f: "\<forall>row\<in>set m. case f row of None \<Rightarrow> \<not> row_matches vs row
      | Some row' \<Rightarrow> row_matches vs' row' = row_matches vs row"
    using assms(2) by (auto simp: stands_for_def split: option.splits)
  note find = find_map_filter [OF f]
  show ?thesis
  proof (cases "find (row_matches vs) m")
    case None
    with assms(1) find(1) show ?thesis by (simp add: tree_ok_def)
  next
    case (Some row)
    then obtain row' where row': "f row = Some row'" using find(2) by blast
    from Some have mem: "row \<in> set m" by (auto simp: find_Some_iff)
    with assms(2) row' have sf: "stands_for vs vs' row row'" by fastforce
    from assms(1) find(1) Some row' obtain bs where bs: "r = Runs (action row') bs"
      "set bs \<subseteq> row_binds row' vs'"
      "(\<forall>r\<in>set (before (List.map_filter f m) vs'). \<not> row_hides r row') \<longrightarrow> set bs = row_binds row' vs'"
      by (auto simp: tree_ok_def)
    have "set bs = row_binds row vs" if h: "\<forall>r\<in>set (before m vs). \<not> row_hides r row"
    proof -
      have "before (List.map_filter f m) vs' = List.map_filter f (before m vs)" unfolding before_def by (rule find(3))
      moreover have "\<not> row_hides r' row'" if "r' \<in> set (List.map_filter f (before m vs))" for r'
      proof -
        from that obtain r where r: "r \<in> set (before m vs)" "f r = Some r'" by (auto simp: in_map_filter)
        then have "r \<in> set m" unfolding before_def by (blast dest: set_takeWhileD)
        with assms(4) [OF this mem r(2) row'] h r(1) show ?thesis by blast
      qed
      ultimately show ?thesis using bs(3) assms(3) [OF mem row' h Some] by simp
    qed
    with bs sf Some show ?thesis by (auto simp: tree_ok_def stands_for_def)
  qed
qed

section \<open>Correctness of compilation\<close>

lemma wildcard_binding_Some:
  "(case p of DtWildcard None \<Rightarrow> None | DtWildcard (Some (a, n)) \<Rightarrow> Some (f a n) | DtCtorPat c args \<Rightarrow> None) = Some b
    \<longleftrightarrow> (\<exists>a n. p = DtWildcard (Some (a, n)) \<and> b = f a n)"
  by (auto split: DtPat.splits option.splits)

lemma leaf_ok:
  assumes "list_all2 dp_ok (pats row) tys" "list_all2 has_type vs tys" "all_wildcards row"
  shows "tree_ok (row # rows) vs (exec_tree (Leaf (action row) (extract_leaf_bindings row)) (zip vs tys))"
proof -
  have len: "length (pats row) = length vs" "length tys = length vs" using assms(1,2) by (simp_all add: list_all2_lengthD)
  have wild: "\<exists>b. pats row ! i = DtWildcard b" if "i < length vs" for i
    using assms(3) that len by (cases "pats row ! i") (auto simp: all_wildcards_def list_all_length)
  have "row_matches vs row"
    unfolding row_matches_def list_all2_conv_all_nth
  proof (intro conjI allI impI)
    fix i assume "i < length (pats row)"
    with wild len show "dmatch (pats row ! i) (vs ! i)" by fastforce
  qed (simp add: len)
  then have f: "find (row_matches vs) (row # rows) = Some row" by simp
  let ?bs = "extract_leaf_bindings row"
  have lb: "b \<in> set ?bs \<longleftrightarrow> (\<exists>i < length vs. \<exists>a n. pats row ! i = DtWildcard (Some (a, n))
      \<and> b = \<lparr>lb_action = a, lb_name = n, lb_column = i\<rparr>)" for b
  proof -
    have "b \<in> set ?bs \<longleftrightarrow> (\<exists>i < length vs. (case pats row ! i of
         DtWildcard (Some (a, name)) \<Rightarrow> Some \<lparr>lb_action = a, lb_name = name, lb_column = i\<rparr>
       | _ \<Rightarrow> None) = Some b)"
      by (auto simp: extract_leaf_bindings_def in_map_filter in_set_enumerate_eq len Bex_def)
    then show ?thesis by (simp only: wildcard_binding_Some)
  qed
  have db: "(a, n, v) \<in> set (dbinds (pats row ! i) u) \<longleftrightarrow> pats row ! i = DtWildcard (Some (a, n)) \<and> v = u"
    if i: "i < length vs" for i a n v u
  proof -
    from wild [OF i] obtain b where "pats row ! i = DtWildcard b" by blast
    then show ?thesis by (cases b) auto
  qed
  have rb: "(n, v) \<in> row_binds row vs \<longleftrightarrow>
      (\<exists>i < length vs. pats row ! i = DtWildcard (Some (action row, n)) \<and> v = vs ! i)" for n v
  proof -
    have "(n, v) \<in> row_binds row vs \<longleftrightarrow> (\<exists>i < length vs. (action row, n, v) \<in> set (dbinds (pats row ! i) (vs ! i)))"
      by (auto simp: row_binds_def set_zip len)
    then show ?thesis using db by auto
  qed
  have mb: "(n, v) \<in> set (map (\<lambda>b. (lb_name b, fst (zip vs tys ! lb_column b)))
        (filter (\<lambda>b. lb_action b = action row) ?bs)) \<longleftrightarrow>
      (\<exists>i < length vs. pats row ! i = DtWildcard (Some (action row, n)) \<and> v = vs ! i)" for n v
  proof
    assume "\<exists>i < length vs. pats row ! i = DtWildcard (Some (action row, n)) \<and> v = vs ! i"
    then obtain i where i: "i < length vs" "pats row ! i = DtWildcard (Some (action row, n))" "v = vs ! i" by blast
    then have "\<lparr>lb_action = action row, lb_name = n, lb_column = i\<rparr> \<in> set ?bs" using lb by blast
    with i len show "(n, v) \<in> set (map (\<lambda>b. (lb_name b, fst (zip vs tys ! lb_column b)))
        (filter (\<lambda>b. lb_action b = action row) ?bs))"
      by (force simp: image_iff)
  qed (use lb len in auto)
  have "set (map (\<lambda>b. (lb_name b, fst (zip vs tys ! lb_column b)))
        (filter (\<lambda>b. lb_action b = action row) ?bs)) = row_binds row vs"
  proof (rule set_eqI)
    fix x show "x \<in> set (map (\<lambda>b. (lb_name b, fst (zip vs tys ! lb_column b)))
        (filter (\<lambda>b. lb_action b = action row) ?bs)) \<longleftrightarrow> x \<in> row_binds row vs"
      by (cases x) (simp only: rb mb)
  qed
  moreover have "list_all (\<lambda>b. lb_column b < length (zip vs tys)) ?bs"
    using lb len by (auto simp: list_all_iff)
  ultimately show ?thesis
    unfolding tree_ok_def f by simp
qed

text \<open>The switch goes to the case whose constructor built the value, or to the default.\<close>

lemma find_case:
  assumes "list_all2 (\<lambda>c x. R c x \<and> fst x = c) sigma cs" "has_type v ty"
    and "\<forall>c\<in>set sigma. dt_ctor_fields ty c \<noteq> None"
  shows "c \<in> set sigma \<Longrightarrow> dt_view c v \<noteq> None \<Longrightarrow>
      \<exists>t. find (\<lambda>(c, t). case_test ty c v) cs = Some (c, t) \<and> R c (c, t)"
    and "\<forall>c\<in>set sigma. dt_view c v = None \<Longrightarrow> find (\<lambda>(c, t). case_test ty c v) cs = None"
proof -
  have test: "case_test ty c v \<longleftrightarrow> dt_view c v \<noteq> None" if "c \<in> set sigma" for c
    using case_test_view [OF _ assms(2), of c] assms(3) that by auto
  show "\<exists>t. find (\<lambda>(c, t). case_test ty c v) cs = Some (c, t) \<and> R c (c, t)"
    if "c \<in> set sigma" "dt_view c v \<noteq> None"
    using assms(1) that test
  proof (induction sigma cs rule: list_all2_induct)
    case (Cons c' sigma x cs)
    obtain t where x: "x = (c', t)" using Cons.hyps(1) by (cases x) auto
    show ?case
    proof (cases "dt_view c' v = None")
      case True
      with Cons x show ?thesis by auto
    next
      case False
      with Cons.prems(2) have "c' = c" using dt_view_unique by (metis option.exhaust)
      with Cons x False show ?thesis by auto
    qed
  qed simp
  show "find (\<lambda>(c, t). case_test ty c v) cs = None" if "\<forall>c\<in>set sigma. dt_view c v = None"
    using assms(1) that test
  proof (induction sigma cs rule: list_all2_induct)
    case (Cons c' sigma x cs)
    then show ?case by (cases x) auto
  qed simp
qed

lemma compile_correct:
  assumes "rows_ok m tys"
  shows "\<exists>t. dt_compile m tys = Ok t
    \<and> (\<forall>vs. list_all2 has_type vs tys \<longrightarrow> tree_ok m vs (exec_tree t (zip vs tys)))"
  using assms
proof (induction "cols_size tys" arbitrary: m tys rule: less_induct)
  case less
  show ?case
  proof (cases m)
    case Nil
    then show ?thesis by (simp add: dt_compile.simps [of "[]"] tree_ok_def)
  next
    case (Cons r rs)
    with less.prems have r_ok: "list_all2 dp_ok (pats r) tys" by (simp add: rows_ok_def)
    show ?thesis
    proof (cases "all_wildcards r")
      case True
      with Cons have "dt_compile m tys = Ok (Leaf (action r) (extract_leaf_bindings r))"
        by (simp add: dt_compile.simps [of "r # rs"])
      with leaf_ok [OF r_ok _ True, of _ rs] Cons show ?thesis by blast
    next
      case False
      from select_column_ok [OF less.prems [unfolded Cons] False] Cons obtain i where
        i: "select_column m = Ok i" "i < length tys" "is_ctor (pats r ! i)" by auto
      let ?ty = "tys ! i"
      have len: "\<forall>row\<in>set m. i < length (pats row)" using i(2) rows_ok_length [OF less.prems] by auto
      from head_constructors_ok [OF len] obtain sigma where
        sigma: "head_constructors m i = Ok sigma"
        "set sigma = {c. \<exists>row\<in>set m. \<exists>args. pats row ! i = DtCtorPat c args}" by blast
      have ctors: "dt_ctor_fields ?ty c \<noteq> None" if "c \<in> set sigma" for c
      proof -
        from that sigma(2) obtain row args where row: "row \<in> set m" "pats row ! i = DtCtorPat c args" by auto
        from less.prems row(1) have "list_all2 dp_ok (pats row) tys" by (simp add: rows_ok_def)
        then have "dp_ok (pats row ! i) ?ty" using i(2) by (simp add: list_all2_nthD2)
        with row(2) show ?thesis by (auto split: option.splits)
      qed
      have ne: "sigma \<noteq> []"
        using i(3) sigma(2) Cons by (cases "pats r ! i") auto
      define R where "R c x \<longleftrightarrow> (\<forall>fs vs'. dt_ctor_fields ?ty c = Some fs \<longrightarrow> list_all2 has_type vs' (replace_col tys i fs) \<longrightarrow>
          tree_ok (List.map_filter (spec_row i c (length fs)) m) vs' (exec_tree (snd x) (zip vs' (replace_col tys i fs))))"
        for c and x :: "DtCtor \<times> DecisionTree"
      have step: "\<exists>x. andthen (dt_specialize m i c ?ty) (\<lambda>specialized.
           andthen (specialize_col_types tys i c ?ty) (\<lambda>new_col_types.
           andthen (dt_compile specialized new_col_types) (\<lambda>subtree. Ok (c, subtree)))) = Ok x
          \<and> (R c x \<and> fst x = c)" if c: "c \<in> set sigma" for c
      proof -
        from ctors [OF c] obtain fs where fs: "dt_ctor_fields ?ty c = Some fs" by auto
        have ct: "specialize_col_types tys i c ?ty = Ok (replace_col tys i fs)"
          using dt_fields_types [OF fs] by (simp add: specialize_col_types_def)
        from less.hyps [OF specialize_col_types_size [OF ct i(2)] rows_ok_specialize [OF less.prems i(2) fs]] fs ct
          dt_specialize_ok [OF len fs]
        show ?thesis by (auto simp: R_def)
      qed
      have "\<exists>cs. map_out (\<lambda>c. andthen (dt_specialize m i c ?ty) (\<lambda>specialized.
           andthen (specialize_col_types tys i c ?ty) (\<lambda>new_col_types.
           andthen (dt_compile specialized new_col_types) (\<lambda>subtree. Ok (c, subtree))))) sigma = Ok cs
        \<and> list_all2 (\<lambda>c x. R c x \<and> fst x = c) sigma cs"
        by (rule map_out_total) (rule step)
      then obtain cs where
        cs: "map_out (\<lambda>c. andthen (dt_specialize m i c ?ty) (\<lambda>specialized.
           andthen (specialize_col_types tys i c ?ty) (\<lambda>new_col_types.
           andthen (dt_compile specialized new_col_types) (\<lambda>subtree. Ok (c, subtree))))) sigma = Ok cs"
        "list_all2 (\<lambda>c x. R c x \<and> fst x = c) sigma cs" by blast
      from less.hyps [OF default_col_types_size [OF i(2)], of "List.map_filter (def_row i) m"]
        rows_ok_default [OF less.prems, of i]
      obtain d where d: "dt_compile (List.map_filter (def_row i) m) (default_col_types tys i) = Ok d"
        "\<forall>vs'. list_all2 has_type vs' (replace_col tys i []) \<longrightarrow>
          tree_ok (List.map_filter (def_row i) m) vs' (exec_tree d (zip vs' (replace_col tys i [])))"
        by (auto simp: default_col_types_def)
      define dflt where "dflt = (if is_complete_signature sigma ?ty then None else Some d)"
      have comp: "dt_compile m tys = Ok (Switch i cs dflt)"
        unfolding dt_compile.simps [of m]
        using Cons False i(1,2) sigma(1) cs(1) d(1) dt_default_ok [OF len] by (simp add: at_def dflt_def)
      have "tree_ok m vs (exec_tree (Switch i cs dflt) (zip vs tys))" if vs: "list_all2 has_type vs tys" for vs
      proof -
        have l: "length vs = length tys" using vs by (rule list_all2_lengthD)
        have col: "zip vs tys ! i = (vs ! i, ?ty)" "i < length (zip vs tys)" using i(2) l by simp_all
        have vt: "has_type (vs ! i) ?ty" using vs i(2) l by (simp add: list_all2_conv_all_nth)
        have no: "\<not> opaque ?ty"
          using ctors [of "hd sigma"] ne typed_ctor_not_opaque by (cases "dt_ctor_fields ?ty (hd sigma)") auto
        have row_ok: "list_all2 dp_ok (pats row) tys" if "row \<in> set m" for row
          using less.prems that by (simp add: rows_ok_def)
        have unnamed: "\<forall>b. pats row ! i \<noteq> DtWildcard (Some b)"
          if "row \<in> set m" "\<forall>r\<in>set (before m vs). \<not> row_hides r row" "find (row_matches vs) m = Some row" for row
        proof (cases "row = r")
          case False
          with that(3) Cons have "r \<in> set (before m vs)" by (auto simp: before_def split: if_splits)
          with that(2) have "\<not> row_hides r row" by blast
          moreover have "(pats r ! i, pats row ! i) \<in> set (zip (pats r) (pats row))"
            using len that(1) Cons rows_ok_length [OF less.prems] by (auto simp: set_zip)
          ultimately show ?thesis using i(3) by (cases "pats r ! i") (auto simp: row_hides_def)
        qed (use i(3) in auto)
        have ctors': "\<forall>c\<in>set sigma. dt_ctor_fields ?ty c \<noteq> None" using ctors by blast
        note case_found = find_case [OF cs(2) vt ctors']
        show ?thesis
        proof (cases "\<exists>c\<in>set sigma. dt_view c (vs ! i) \<noteq> None")
          case True
          then obtain c us where c: "c \<in> set sigma" "dt_view c (vs ! i) = Some us" by auto
          from ctors [OF c(1)] obtain fs where fs: "dt_ctor_fields ?ty c = Some fs" by auto
          from case_found(1) [OF c(1)] c(2) obtain t where
            t: "find (\<lambda>(c, t). case_test ?ty c (vs ! i)) cs = Some (c, t)" "R c (c, t)" by auto
          have us: "list_all2 has_type us fs" using view_values [OF fs vt c(2)] .
          have vs': "list_all2 has_type (replace_col vs i us) (replace_col tys i fs)"
            using list_all2_replace [OF vs us] .
          have "exec_tree (Switch i cs dflt) (zip vs tys) = exec_tree t (zip (replace_col vs i us) (replace_col tys i fs))"
            using t(1) no col sub_values_view [OF fs vt c(2)] zip_replace [OF l, of us fs i] us
            by (simp add: list_all2_lengthD)
          moreover have "tree_ok m vs (exec_tree t (zip (replace_col vs i us) (replace_col tys i fs)))"
          proof (rule tree_ok_step)
            show "tree_ok (List.map_filter (spec_row i c (length fs)) m) (replace_col vs i us)
              (exec_tree t (zip (replace_col vs i us) (replace_col tys i fs)))"
              using t(2) fs vs' by (simp add: R_def)
            show "\<forall>row\<in>set m. case spec_row i c (length fs) row of None \<Rightarrow> \<not> row_matches vs row
                | Some row' \<Rightarrow> stands_for vs (replace_col vs i us) row row'"
              using spec_row_correct [OF row_ok vs i(2) fs c(2)] by (fastforce split: option.splits)
            show "row_binds row' (replace_col vs i us) = row_binds row vs"
              if "row \<in> set m" "spec_row i c (length fs) row = Some row'" "\<forall>r\<in>set (before m vs). \<not> row_hides r row"
                "find (row_matches vs) m = Some row" for row row'
              using spec_row_correct [OF row_ok [OF that(1)] vs i(2) fs c(2)] that(2) unnamed [OF that(1,3,4)] by simp
            show "row_hides r row" if "r \<in> set m" "row \<in> set m" "spec_row i c (length fs) r = Some r'"
              "spec_row i c (length fs) row = Some row'" "row_hides r' row'" for r r' row row'
              using spec_row_hides [OF that(5,3,4) row_ok row_ok i(2) fs refl] that(1,2) by blast
          qed
          ultimately show ?thesis by simp
        next
          case none: False
          then have nf: "find (\<lambda>(c, t). case_test ?ty c (vs ! i)) cs = None" using case_found(2) by blast
          have "\<not> is_complete_signature sigma ?ty"
            using complete_view [OF _ vt ne ctors'] none by blast
          then have dd: "dflt = Some d" by (simp add: dflt_def)
          have vs': "list_all2 has_type (replace_col vs i []) (replace_col tys i [])"
            using list_all2_replace [OF vs, of "[]" "[]" i] by simp
          have "exec_tree (Switch i cs dflt) (zip vs tys) = exec_tree d (zip (replace_col vs i []) (replace_col tys i []))"
            using nf no col dd zip_replace [OF l, of "[]" "[]" i] by simp
          moreover have "tree_ok m vs (exec_tree d (zip (replace_col vs i []) (replace_col tys i [])))"
          proof (rule tree_ok_step)
            show "tree_ok (List.map_filter (def_row i) m) (replace_col vs i [])
              (exec_tree d (zip (replace_col vs i []) (replace_col tys i [])))"
              using d(2) vs' by blast
            have "dt_view c (vs ! i) = None" if "row \<in> set m" "pats row ! i = DtCtorPat c args" for row c args
              using none sigma(2) that by blast
            then show "\<forall>row\<in>set m. case def_row i row of None \<Rightarrow> \<not> row_matches vs row
                | Some row' \<Rightarrow> stands_for vs (replace_col vs i []) row row'"
              using def_row_correct [OF row_ok vs i(2)] by (fastforce split: option.splits)
            show "row_binds row' (replace_col vs i []) = row_binds row vs"
              if "row \<in> set m" "def_row i row = Some row'" "\<forall>r\<in>set (before m vs). \<not> row_hides r row"
                "find (row_matches vs) m = Some row" for row row'
            proof -
              have "dt_view c (vs ! i) = None" if "pats row ! i = DtCtorPat c args" for c args
                using none sigma(2) \<open>row \<in> set m\<close> that by blast
              from def_row_correct [OF row_ok [OF that(1)] vs i(2) this] that(2) unnamed [OF that(1,3,4)] show ?thesis by simp
            qed
            show "row_hides r row" if "r \<in> set m" "row \<in> set m" "def_row i r = Some r'" "def_row i row = Some row'"
              "row_hides r' row'" for r r' row row'
              by (rule def_row_hides [OF that(5,3,4)]) (use len that(1,2) rows_ok_length [OF less.prems] in auto)
          qed
          ultimately show ?thesis by simp
        qed
      qed
      with comp show ?thesis by blast
    qed
  qed
qed

end
