(* ===== verification/Decision_Tree_Lowering.thy ===== *)
theory Decision_Tree_Lowering
  imports Decision_Tree_Correct
begin

text \<open>
  The lowering of typed patterns to the rows of the decision tree compiler keeps their meaning: the lowered
  pattern is well typed, matches the same values, and binds the same variables to the same values
  (\<open>tbinds\<close>). Integer literals have to fit the type of the scrutinee, which \<open>lit_fitting\<close> states.
\<close>

section \<open>What a typed pattern binds\<close>

function tbinds :: "TypedPattern \<Rightarrow> Type \<Rightarrow> Val \<Rightarrow> (string \<times> Val) set" where
  "tbinds (TP_Binding i) ty v = {(id_name i, v)}"
| "tbinds TP_Wildcard ty v = {}"
| "tbinds (TP_Literal lit) ty v = {}"
| "tbinds (TP_Struct name fs) ty v =
     (\<Union>(tf, u)\<in>set (zip (case (ty, v) of
            (TRecord r, _) \<Rightarrow> record_fields r
          | (TEnum e, V_Ctor (C_EnumVariant en i vn) vs) \<Rightarrow> struct_fields (variant_kind (enum_variants e ! i))
          | _ \<Rightarrow> []) (sub_values v)).
        \<Union>f\<in>{f \<in> set fs. id_name (pat_field_name f) = id_name (field_name tf)}.
          tbinds (pat_field_pattern f) (field_ty tf) u)"
| "tbinds (TP_Tuple name ps) ty v =
     (\<Union>((p, t), u)\<in>set (zip (zip ps (case (ty, v) of
            (TEnum e, V_Ctor (C_EnumVariant en i vn) vs) \<Rightarrow> kind_fields (variant_kind (enum_variants e ! i))
          | _ \<Rightarrow> [])) (sub_values v)). tbinds p t u)"
| "tbinds (TP_AnonTuple ps) ty v =
     (\<Union>((p, t), u)\<in>set (zip (zip ps (case ty of TTuple tys \<Rightarrow> tys | _ \<Rightarrow> [])) (sub_values v)). tbinds p t u)"
| "tbinds (TP_Constant name variant) ty v = {}"
  by pat_completeness auto
termination
  by (relation "measure (\<lambda>(p, ty, v). size p)")
    (auto dest!: field_pattern_size sub_pattern_size set_zip_leftD intro: less_SucI)

fun lit_fitting :: "Literal \<Rightarrow> Type \<Rightarrow> bool" where
  "lit_fitting (L_Integer n) ty =
     (ty = TInt I64 \<and> (case literal_value n of None \<Rightarrow> False | Some k \<Rightarrow> fits I64 k))"
| "lit_fitting (L_Boolean b) ty = (ty = TBool)"
| "lit_fitting L_Unit ty = (ty = TUnit)"

lemma lit_fitting_typed: "lit_fitting l ty \<Longrightarrow> lit_typed l ty"
  by (cases l) (auto split: option.splits)

section \<open>Lowering\<close>

definition dlowers :: "nat \<Rightarrow> TypedPattern \<Rightarrow> Type \<Rightarrow> DtPat \<Rightarrow> bool" where
  "dlowers arm p ty dp \<longleftrightarrow> dp_ok dp ty
     \<and> (\<forall>v. has_type v ty \<longrightarrow> dmatch dp v = tmatch p ty v
          \<and> (dmatch dp v \<longrightarrow> set (dbinds dp v) = Pair arm ` tbinds p ty v))"

text \<open>The arguments of a constructor pattern: \<open>x\<close> is the source of an argument, \<open>t x\<close> its type, \<open>M x\<close> and
  \<open>B x\<close> what it matches and binds.\<close>

definition arg_ok ::
  "nat \<Rightarrow> ('x \<Rightarrow> Type) \<Rightarrow> ('x \<Rightarrow> Val \<Rightarrow> bool) \<Rightarrow> ('x \<Rightarrow> Val \<Rightarrow> (string \<times> Val) set) \<Rightarrow> 'x \<Rightarrow> DtPat \<Rightarrow> bool" where
  "arg_ok arm t M B x a \<longleftrightarrow> dp_ok a (t x)
     \<and> (\<forall>v. has_type v (t x) \<longrightarrow> dmatch a v = M x v \<and> (dmatch a v \<longrightarrow> set (dbinds a v) = Pair arm ` B x v))"

lemma args_binds:
  assumes "list_all2 (arg_ok arm t M B) xs args" "list_all2 has_type us (map t xs)" "list_all2 dmatch args us"
  shows "(\<Union>(p, u)\<in>set (zip args us). set (dbinds p u)) = Pair arm ` (\<Union>(x, u)\<in>set (zip xs us). B x u)"
  using assms
proof (induction xs args arbitrary: us rule: list_all2_induct)
  case (Cons x xs a as)
  then obtain w ws where "us = w # ws" "has_type w (t x)" "list_all2 has_type ws (map t xs)" "dmatch a w"
    "list_all2 dmatch as ws" by (auto simp: list_all2_Cons1)
  with Cons.IH [of ws] Cons.hyps(1) show ?case by (auto simp: arg_ok_def image_Un)
qed simp

lemma dlowers_ctor:
  assumes "list_all2 (arg_ok arm t M B) xs args" "dt_ctor_fields ty c = Some (map t xs)"
    and "\<And>v. has_type v ty \<Longrightarrow> tmatch p ty v \<longleftrightarrow> (\<exists>us. dt_view c v = Some us \<and> list_all2 M xs us)"
    and "\<And>v us. has_type v ty \<Longrightarrow> dt_view c v = Some us \<Longrightarrow> tbinds p ty v = (\<Union>(x, u)\<in>set (zip xs us). B x u)"
  shows "dlowers arm p ty (DtCtorPat c args)"
  unfolding dlowers_def
proof (intro conjI allI impI)
  have "list_all2 dp_ok args (map t xs)"
    using assms(1) by (auto simp: list_all2_conv_all_nth arg_ok_def)
  then show "dp_ok (DtCtorPat c args) ty" using assms(2) by simp
  fix v assume v: "has_type v ty"
  have us: "list_all2 dmatch args us = list_all2 M xs us" if "dt_view c v = Some us" for us
    using view_values [OF assms(2) v that] assms(1)
    by (auto simp: list_all2_conv_all_nth arg_ok_def)
  then show "dmatch (DtCtorPat c args) v = tmatch p ty v"
    using assms(3) [OF v] by (auto split: option.splits)
  assume "dmatch (DtCtorPat c args) v"
  then obtain us where u: "dt_view c v = Some us" "list_all2 dmatch args us" by (auto split: option.splits)
  with args_binds [OF assms(1) view_values [OF assms(2) v u(1)] u(2)] assms(4) [OF v u(1)]
  show "set (dbinds (DtCtorPat c args) v) = Pair arm ` tbinds p ty v" by (simp add: case_prod_beta)
qed

lemma dt_struct_args:
  assumes "fields_ok fs flds"
    and IH: "\<And>tf f. tf \<in> set flds \<Longrightarrow> f \<in> set fs \<Longrightarrow> id_name (pat_field_name f) = id_name (field_name tf) \<Longrightarrow>
      \<exists>dp. dt_lower_pattern (pat_field_pattern f) arm (field_ty tf) = Ok dp
        \<and> dlowers arm (pat_field_pattern f) (field_ty tf) dp"
  shows "\<exists>args. map_out (\<lambda>tf. case find_field (id_name (field_name tf)) fs of
                        None \<Rightarrow> dflt
                      | Some f \<Rightarrow> dt_lower_pattern (pat_field_pattern f) arm (field_ty tf)) flds = Ok args
     \<and> list_all2 (arg_ok arm field_ty
          (\<lambda>tf u. \<forall>f\<in>set fs. id_name (pat_field_name f) = id_name (field_name tf) \<longrightarrow>
             tmatch (pat_field_pattern f) (field_ty tf) u)
          (\<lambda>tf u. \<Union>f\<in>{f \<in> set fs. id_name (pat_field_name f) = id_name (field_name tf)}.
             tbinds (pat_field_pattern f) (field_ty tf) u)) flds args"
proof (rule map_out_total)
  fix tf assume tf: "tf \<in> set flds"
  from find_field_unique [OF assms(1) tf] obtain f where f:
    "find_field (id_name (field_name tf)) fs = Some f" "f \<in> set fs"
    "id_name (pat_field_name f) = id_name (field_name tf)"
    "\<And>f'. f' \<in> set fs \<Longrightarrow> id_name (pat_field_name f') = id_name (field_name tf) \<Longrightarrow> f' = f" by metis
  from IH [OF tf f(2,3)] obtain dp where dp: "dt_lower_pattern (pat_field_pattern f) arm (field_ty tf) = Ok dp"
    "dlowers arm (pat_field_pattern f) (field_ty tf) dp" by blast
  have "(\<forall>f'\<in>set fs. id_name (pat_field_name f') = id_name (field_name tf) \<longrightarrow>
      tmatch (pat_field_pattern f') (field_ty tf) v) = tmatch (pat_field_pattern f) (field_ty tf) v" for v
    using f by blast
  moreover have "{f' \<in> set fs. id_name (pat_field_name f') = id_name (field_name tf)} = {f}" using f by blast
  ultimately show "\<exists>a. (case find_field (id_name (field_name tf)) fs of None \<Rightarrow> dflt
      | Some f \<Rightarrow> dt_lower_pattern (pat_field_pattern f) arm (field_ty tf)) = Ok a
    \<and> arg_ok arm field_ty
          (\<lambda>tf u. \<forall>f\<in>set fs. id_name (pat_field_name f) = id_name (field_name tf) \<longrightarrow>
             tmatch (pat_field_pattern f) (field_ty tf) u)
          (\<lambda>tf u. \<Union>f\<in>{f \<in> set fs. id_name (pat_field_name f) = id_name (field_name tf)}.
             tbinds (pat_field_pattern f) (field_ty tf) u) tf a"
    using f(1) dp by (simp add: dlowers_def arg_ok_def)
qed

lemma dt_tuple_args:
  assumes "\<And>p t. (p, t) \<in> set (zip ps tys) \<Longrightarrow> \<exists>dp. dt_lower_pattern p arm t = Ok dp \<and> dlowers arm p t dp"
  shows "\<exists>args. map_out (\<lambda>(p, t). dt_lower_pattern p arm t) (zip ps tys) = Ok args
     \<and> list_all2 (arg_ok arm snd (\<lambda>(p, t) u. tmatch p t u) (\<lambda>(p, t) u. tbinds p t u)) (zip ps tys) args"
  by (rule map_out_total) (use assms in \<open>auto simp: dlowers_def arg_ok_def\<close>)

lemma position_variant_index:
  assumes "variant_index e name = Some i"
  shows "variant_position e name = Some i"
proof -
  from variant_index_Some [OF assms] have n: "name \<noteq> []" by blast
  have "fst (find_variant e (last name)) = i" using find_variant_index [OF assms] by simp
  moreover have "find (\<lambda>(i, v). id_name (variant_name v) = id_name (last name)) (enumerate 0 (enum_variants e)) \<noteq> None"
  proof -
    have v: "i < length (enum_variants e)" "id_name (variant_name (enum_variants e ! i)) = id_name (last name)"
      using variant_index_Some(1) [OF assms] by (simp_all add: variant_at_def)
    then have "(i, enum_variants e ! i) \<in> set (enumerate 0 (enum_variants e))" by (simp add: in_set_enumerate_eq)
    with v(2) show ?thesis by (auto simp: find_None_iff)
  qed
  ultimately show ?thesis
    using n by (auto simp: variant_position_def last_opt_def find_variant_def)
qed

lemma dt_lower_faithful:
  assumes "tp_with lit_fitting p ty"
  shows "\<exists>dp. dt_lower_pattern p arm ty = Ok dp \<and> dlowers arm p ty dp"
  using assms
proof (induction p arm ty rule: dt_lower_pattern.induct)
  case (3 lit arm ty)
  show ?case
  proof (cases lit)
    case (L_Integer n)
    with 3 obtain k where "literal_value n = Some k" "fits I64 k" "ty = TInt I64" by (auto split: option.splits)
    with L_Integer show ?thesis
      by (auto simp: dlowers_def literal_ctor_def typed_values split: if_splits)
  next
    case (L_Boolean b)
    with 3 show ?thesis by (cases b) (auto simp: dlowers_def literal_ctor_def typed_values split: if_splits)
  next
    case L_Unit
    with 3 show ?thesis by (auto simp: dlowers_def literal_ctor_def typed_values)
  qed
next
  case (4 name fs arm ty)
  show ?case
  proof (cases ty)
    case (TRecord r)
    with 4 have ok: "fields_ok fs (record_fields r)" by auto
    have "\<exists>dp. dt_lower_pattern (pat_field_pattern f) arm (field_ty tf) = Ok dp
        \<and> dlowers arm (pat_field_pattern f) (field_ty tf) dp"
      if x: "tf \<in> set (record_fields r)" "f \<in> set fs" "id_name (pat_field_name f) = id_name (field_name tf)" for tf f
    proof -
      from find_field_unique [OF ok x(1)] x have "find_field (id_name (field_name tf)) fs = Some f" by metis
      from "4.IH"(1) [OF TRecord x(1) this] "4.prems" TRecord x show ?thesis by auto
    qed
    from dt_struct_args [OF ok this, of "Ok (DtWildcard None)"] obtain args where a:
      "map_out (\<lambda>tf. case find_field (id_name (field_name tf)) fs of None \<Rightarrow> Ok (DtWildcard None)
         | Some f \<Rightarrow> dt_lower_pattern (pat_field_pattern f) arm (field_ty tf)) (record_fields r) = Ok args"
      "list_all2 (arg_ok arm field_ty
          (\<lambda>tf u. \<forall>f\<in>set fs. id_name (pat_field_name f) = id_name (field_name tf) \<longrightarrow>
             tmatch (pat_field_pattern f) (field_ty tf) u)
          (\<lambda>tf u. \<Union>f\<in>{f \<in> set fs. id_name (pat_field_name f) = id_name (field_name tf)}.
             tbinds (pat_field_pattern f) (field_ty tf) u)) (record_fields r) args" by blast
    have "dlowers arm (TP_Struct name fs) ty (DtCtorPat Struct args)"
      by (rule dlowers_ctor [OF a(2)]) (auto simp: TRecord typed_values)
    with TRecord a(1) show ?thesis by simp
  next
    case (TEnum e)
    with "4.prems" obtain i flds where i: "variants_distinct e" "variant_index e name = Some i"
      "variant_kind (enum_variants e ! i) = EV_Struct flds" "fields_ok fs flds"
      by (auto split: option.splits EnumVariantKind.splits)
    have lt: "i < length (enum_variants e)" using variant_index_Some(1) [OF i(2)] by (simp add: variant_at_def)
    note vp = position_variant_index [OF i(2)]
    have "\<exists>dp. dt_lower_pattern (pat_field_pattern f) arm (field_ty tf) = Ok dp
        \<and> dlowers arm (pat_field_pattern f) (field_ty tf) dp"
      if x: "tf \<in> set flds" "f \<in> set fs" "id_name (pat_field_name f) = id_name (field_name tf)" for tf f
    proof -
      from find_field_unique [OF i(4) x(1)] x have ff: "find_field (id_name (field_name tf)) fs = Some f" by metis
      from "4.IH"(2) [OF TEnum vp] lt i(3) x(1) ff "4.prems" TEnum x i show ?thesis by auto
    qed
    from dt_struct_args [OF i(4) this, of Panic] obtain args where a:
      "map_out (\<lambda>tf. case find_field (id_name (field_name tf)) fs of None \<Rightarrow> Panic
         | Some f \<Rightarrow> dt_lower_pattern (pat_field_pattern f) arm (field_ty tf)) flds = Ok args"
      "list_all2 (arg_ok arm field_ty
          (\<lambda>tf u. \<forall>f\<in>set fs. id_name (pat_field_name f) = id_name (field_name tf) \<longrightarrow>
             tmatch (pat_field_pattern f) (field_ty tf) u)
          (\<lambda>tf u. \<Union>f\<in>{f \<in> set fs. id_name (pat_field_name f) = id_name (field_name tf)}.
             tbinds (pat_field_pattern f) (field_ty tf) u)) flds args" by blast
    have "dlowers arm (TP_Struct name fs) ty (DtCtorPat (EnumVariant i) args)"
      by (rule dlowers_ctor [OF a(2)]) (use TEnum i lt in \<open>auto simp: typed_values split: if_splits\<close>)
    with TEnum a(1) vp i(3) lt show ?thesis by (simp add: expect_def variant_kind_at_def at_def)
  qed (use 4 in auto)
next
  case (5 name ps arm ty)
  from "5.prems" obtain e i tys where e: "ty = TEnum e" and i: "variants_distinct e" "variant_index e name = Some i"
    "variant_kind (enum_variants e ! i) = EV_Tuple tys" "length ps = length tys"
    "\<forall>(p, t)\<in>set (zip ps tys). tp_with lit_fitting p t"
    by (auto split: option.splits EnumVariantKind.splits Type.splits)
  have lt: "i < length (enum_variants e)" using variant_index_Some(1) [OF i(2)] by (simp add: variant_at_def)
  note vp = position_variant_index [OF i(2)]
  have "\<exists>dp. dt_lower_pattern p arm t = Ok dp \<and> dlowers arm p t dp" if x: "(p, t) \<in> set (zip ps tys)" for p t
    using "5.IH" [OF e vp] lt i x by auto
  from dt_tuple_args [OF this] obtain args where a:
    "map_out (\<lambda>(p, t). dt_lower_pattern p arm t) (zip ps tys) = Ok args"
    "list_all2 (arg_ok arm snd (\<lambda>(p, t) u. tmatch p t u) (\<lambda>(p, t) u. tbinds p t u)) (zip ps tys) args" by blast
  have "dlowers arm (TP_Tuple name ps) ty (DtCtorPat (EnumVariant i) args)"
  proof (rule dlowers_ctor [OF a(2)])
    show "dt_ctor_fields ty (EnumVariant i) = Some (map snd (zip ps tys))" using e i lt by simp
    fix v assume "has_type v ty"
    with e obtain j us where v: "v = V_Ctor (C_EnumVariant (id_name (enum_name e)) j
      (id_name (variant_name (enum_variants e ! j)))) us" by (auto simp: typed_values)
    show "tmatch (TP_Tuple name ps) ty v \<longleftrightarrow>
      (\<exists>us. dt_view (EnumVariant i) v = Some us \<and> list_all2 (\<lambda>(p, t) u. tmatch p t u) (zip ps tys) us)"
      using e i(2,3) v by (cases "j = i") simp_all
    show "tbinds (TP_Tuple name ps) ty v = (\<Union>(x, u)\<in>set (zip (zip ps tys) us'). (\<lambda>(p, t) u. tbinds p t u) x u)"
      if "dt_view (EnumVariant i) v = Some us'" for us'
      using e i(3) v that by (cases "j = i") simp_all
  qed
  with e a(1) vp i(3) lt show ?case by (simp add: expect_def variant_kind_at_def at_def)
next
  case (6 ps arm ty)
  then obtain tys where e: "ty = TTuple tys" and i: "length ps = length tys"
    "\<forall>(p, t)\<in>set (zip ps tys). tp_with lit_fitting p t"
    by (auto split: Type.splits)
  have "\<exists>dp. dt_lower_pattern p arm t = Ok dp \<and> dlowers arm p t dp" if x: "(p, t) \<in> set (zip ps tys)" for p t
    using "6.IH" [OF e x refl] i(2) x by auto
  from dt_tuple_args [OF this] obtain args where a:
    "map_out (\<lambda>(p, t). dt_lower_pattern p arm t) (zip ps tys) = Ok args"
    "list_all2 (arg_ok arm snd (\<lambda>(p, t) u. tmatch p t u) (\<lambda>(p, t) u. tbinds p t u)) (zip ps tys) args" by blast
  have "dlowers arm (TP_AnonTuple ps) ty (DtCtorPat Struct args)"
    by (rule dlowers_ctor [OF a(2)]) (use e i in \<open>auto simp: typed_values\<close>)
  with e a(1) show ?case by simp
next
  case (7 name variant arm ty)
  then obtain e where e: "ty = TEnum e" "variant_at e name variant"
    "variant_kind (enum_variants e ! variant) = EV_Unit"
    by (auto split: Type.splits)
  then have "dlowers arm (TP_Constant name variant) ty (DtCtorPat (EnumVariant variant) [])"
    by (auto simp: dlowers_def variant_at_def typed_values split: if_splits)
  then show ?case by simp
qed (auto simp: dlowers_def)

section \<open>Hidden variables\<close>

text \<open>An earlier pattern inspects a position where a later one binds a variable.\<close>

fun catch_all :: "TypedPattern \<Rightarrow> bool" where
  "catch_all TP_Wildcard = True"
| "catch_all (TP_Binding i) = True"
| "catch_all _ = False"

definition same_name :: "ScopedName \<Rightarrow> ScopedName \<Rightarrow> bool" where
  "same_name name name' = (map_option id_name (last_opt name) = map_option id_name (last_opt name'))"

function (sequential) inspects :: "TypedPattern \<Rightarrow> TypedPattern \<Rightarrow> bool" where
  "inspects p (TP_Binding i) = (\<not> catch_all p)"
| "inspects (TP_Struct name fs) (TP_Struct name' gs) =
     (same_name name name' \<and> (\<exists>f\<in>set fs. \<exists>g\<in>set gs. id_name (pat_field_name f) = id_name (pat_field_name g)
        \<and> inspects (pat_field_pattern f) (pat_field_pattern g)))"
| "inspects (TP_Tuple name ps) (TP_Tuple name' qs) =
     (same_name name name' \<and> (\<exists>(p, q)\<in>set (zip ps qs). inspects p q))"
| "inspects (TP_AnonTuple ps) (TP_AnonTuple qs) = (\<exists>(p, q)\<in>set (zip ps qs). inspects p q)"
| "inspects _ _ = False"
  by pat_completeness auto
termination
  by (relation "measure (\<lambda>(p, q). size p)")
    (auto dest!: field_pattern_size sub_pattern_size set_zip_leftD intro: less_SucI)

lemma variant_position_name:
  assumes "variant_position e name = Some i"
  shows "map_option id_name (last_opt name) = Some (id_name (variant_name (enum_variants e ! i)))"
  using assms
  by (auto simp: variant_position_def find_Some_iff nth_enumerate_eq split: option.splits)

text \<open>The lowered arguments, by the position of the field or item.\<close>

lemma map_out_nth: "map_out f xs = Ok ys \<Longrightarrow> length ys = length xs \<and> (\<forall>k<length xs. f (xs ! k) = Ok (ys ! k))"
proof (induction xs arbitrary: ys)
  case (Cons x xs)
  then obtain y ys' where "f x = Ok y" "map_out f xs = Ok ys'" "ys = y # ys'" by (auto simp: outcome_simps)
  with Cons.IH show ?case by (auto simp: less_Suc_eq_0_disj)
qed simp

lemma hides_constructor: "hides dp dq \<Longrightarrow> \<exists>c args. dp = DtCtorPat c args"
  by (cases dp) (auto elim: hides.elims)

lemma lower_catch_all: "catch_all p \<Longrightarrow> dt_lower_pattern p a ty = Ok dp \<Longrightarrow> \<not> hides dp dq"
  by (cases p) auto

text \<open>The fields of two struct patterns, lowered in the order of the declaration.\<close>

lemma fields_hide:
  assumes "map_out (\<lambda>tf. case find_field (id_name (field_name tf)) fs of None \<Rightarrow> dflt
      | Some f \<Rightarrow> dt_lower_pattern (pat_field_pattern f) a (field_ty tf)) flds = Ok args"
    and "map_out (\<lambda>tf. case find_field (id_name (field_name tf)) gs of None \<Rightarrow> dflt
      | Some f \<Rightarrow> dt_lower_pattern (pat_field_pattern f) b (field_ty tf)) flds = Ok args'"
    and "fields_ok fs flds" "fields_ok gs flds" "k < length args" "hides (args ! k) (args' ! k)"
    and "\<And>tf f g. tf \<in> set flds \<Longrightarrow> find_field (id_name (field_name tf)) fs = Some f \<Longrightarrow> g \<in> set gs \<Longrightarrow>
      id_name (pat_field_name g) = id_name (field_name tf) \<Longrightarrow>
      dt_lower_pattern (pat_field_pattern f) a (field_ty tf) = Ok (args ! k) \<Longrightarrow>
      dt_lower_pattern (pat_field_pattern g) b (field_ty tf) = Ok (args' ! k) \<Longrightarrow>
      inspects (pat_field_pattern f) (pat_field_pattern g)"
  shows "\<exists>f\<in>set fs. \<exists>g\<in>set gs. id_name (pat_field_name f) = id_name (pat_field_name g)
        \<and> inspects (pat_field_pattern f) (pat_field_pattern g)"
proof -
  from map_out_nth [OF assms(1)] map_out_nth [OF assms(2)] assms(5) have k: "k < length flds"
    "(case find_field (id_name (field_name (flds ! k))) fs of None \<Rightarrow> dflt
      | Some f \<Rightarrow> dt_lower_pattern (pat_field_pattern f) a (field_ty (flds ! k))) = Ok (args ! k)"
    "(case find_field (id_name (field_name (flds ! k))) gs of None \<Rightarrow> dflt
      | Some f \<Rightarrow> dt_lower_pattern (pat_field_pattern f) b (field_ty (flds ! k))) = Ok (args' ! k)"
    by simp_all
  then have mem: "flds ! k \<in> set flds" by simp
  from find_field_unique [OF assms(3) mem] obtain f where f:
    "find_field (id_name (field_name (flds ! k))) fs = Some f" "f \<in> set fs"
    "id_name (pat_field_name f) = id_name (field_name (flds ! k))" by metis
  from find_field_unique [OF assms(4) mem] obtain g where g:
    "find_field (id_name (field_name (flds ! k))) gs = Some g" "g \<in> set gs"
    "id_name (pat_field_name g) = id_name (field_name (flds ! k))" by metis
  from k(2,3) f(1) g(1) have "inspects (pat_field_pattern f) (pat_field_pattern g)"
    by (intro assms(7) [OF mem f(1) g(2,3)]) simp_all
  with f g show ?thesis by metis
qed

lemma items_hide:
  assumes "map_out (\<lambda>(p, t). dt_lower_pattern p a t) (zip ps tys) = Ok args"
    and "map_out (\<lambda>(p, t). dt_lower_pattern p b t) (zip qs tys) = Ok args'"
    and "length ps = length tys" "length qs = length tys" "k < length args" "hides (args ! k) (args' ! k)"
    and "\<And>p t q. (p, t) \<in> set (zip ps tys) \<Longrightarrow> (q, t) \<in> set (zip qs tys) \<Longrightarrow>
      dt_lower_pattern p a t = Ok (args ! k) \<Longrightarrow> dt_lower_pattern q b t = Ok (args' ! k) \<Longrightarrow> inspects p q"
  shows "\<exists>(p, q)\<in>set (zip ps qs). inspects p q"
proof -
  from map_out_nth [OF assms(1)] map_out_nth [OF assms(2)] assms(3-5) have k: "k < length tys"
    "dt_lower_pattern (ps ! k) a (tys ! k) = Ok (args ! k)" "dt_lower_pattern (qs ! k) b (tys ! k) = Ok (args' ! k)"
    by auto
  then have "(ps ! k, tys ! k) \<in> set (zip ps tys)" "(qs ! k, tys ! k) \<in> set (zip qs tys)" "(ps ! k, qs ! k) \<in> set (zip ps qs)"
    using assms(3,4) by (auto simp: set_zip)
  with assms(7) k(2,3) show ?thesis by blast
qed

lemma typed_constructor_pattern:
  assumes "tp_with lit_fitting q ty" "\<not> catch_all q"
  shows "case ty of TRecord r \<Rightarrow> \<exists>name fs. q = TP_Struct name fs | TTuple tys \<Rightarrow> \<exists>qs. q = TP_AnonTuple qs
    | TEnum e \<Rightarrow> (\<exists>name fs. q = TP_Struct name fs) \<or> (\<exists>name qs. q = TP_Tuple name qs) \<or> (\<exists>name i. q = TP_Constant name i)
    | _ \<Rightarrow> \<exists>lit. q = TP_Literal lit"
  using assms by (cases q; cases ty) (auto split: Literal.splits elim: lit_fitting.elims)

lemma struct_variant:
  assumes "tp_with lit_fitting (TP_Struct name fs) (TEnum e)"
    and "dt_lower_pattern (TP_Struct name fs) a (TEnum e) = Ok dp"
  obtains i flds args where "variant_position e name = Some i" "i < length (enum_variants e)"
    "variant_kind (enum_variants e ! i) = EV_Struct flds" "fields_ok fs flds" "dp = DtCtorPat (EnumVariant i) args"
    "\<forall>tf\<in>set flds. \<forall>f\<in>set fs. id_name (pat_field_name f) = id_name (field_name tf) \<longrightarrow>
        tp_with lit_fitting (pat_field_pattern f) (field_ty tf)"
    "map_out (\<lambda>tf. case find_field (id_name (field_name tf)) fs of None \<Rightarrow> Panic
         | Some f \<Rightarrow> dt_lower_pattern (pat_field_pattern f) a (field_ty tf)) flds = Ok args"
proof -
  from assms(1) obtain i flds where i: "variant_index e name = Some i"
    "variant_kind (enum_variants e ! i) = EV_Struct flds" "fields_ok fs flds"
    "\<forall>tf\<in>set flds. \<forall>f\<in>set fs. id_name (pat_field_name f) = id_name (field_name tf) \<longrightarrow>
        tp_with lit_fitting (pat_field_pattern f) (field_ty tf)"
    by (auto split: option.splits EnumVariantKind.splits)
  have lt: "i < length (enum_variants e)" using variant_index_Some(1) [OF i(1)] by (simp add: variant_at_def)
  note vp = position_variant_index [OF i(1)]
  from assms(2) vp i(2) lt obtain args where "dp = DtCtorPat (EnumVariant i) args"
    "map_out (\<lambda>tf. case find_field (id_name (field_name tf)) fs of None \<Rightarrow> Panic
         | Some f \<Rightarrow> dt_lower_pattern (pat_field_pattern f) a (field_ty tf)) flds = Ok args"
    by (auto simp: expect_def variant_kind_at_def at_def outcome_simps)
  with that [OF vp lt i(2,3)] i(4) show thesis by blast
qed

lemma tuple_variant:
  assumes "tp_with lit_fitting (TP_Tuple name ps) (TEnum e)"
    and "dt_lower_pattern (TP_Tuple name ps) a (TEnum e) = Ok dp"
  obtains i tys args where "variant_position e name = Some i" "i < length (enum_variants e)"
    "variant_kind (enum_variants e ! i) = EV_Tuple tys" "length ps = length tys" "dp = DtCtorPat (EnumVariant i) args"
    "\<forall>(p, t)\<in>set (zip ps tys). tp_with lit_fitting p t"
    "map_out (\<lambda>(p, t). dt_lower_pattern p a t) (zip ps tys) = Ok args"
proof -
  from assms(1) obtain i tys where i: "variant_index e name = Some i"
    "variant_kind (enum_variants e ! i) = EV_Tuple tys" "length ps = length tys"
    "\<forall>(p, t)\<in>set (zip ps tys). tp_with lit_fitting p t"
    by (auto split: option.splits EnumVariantKind.splits)
  have lt: "i < length (enum_variants e)" using variant_index_Some(1) [OF i(1)] by (simp add: variant_at_def)
  note vp = position_variant_index [OF i(1)]
  from assms(2) vp i(2) lt obtain args where "dp = DtCtorPat (EnumVariant i) args"
    "map_out (\<lambda>(p, t). dt_lower_pattern p a t) (zip ps tys) = Ok args"
    by (auto simp: expect_def variant_kind_at_def at_def outcome_simps)
  with that [OF vp lt i(2,3)] i(4) show thesis by blast
qed

lemma same_variant_name:
  "variant_position e name = Some i \<Longrightarrow> variant_position e name' = Some i \<Longrightarrow> same_name name name'"
  by (simp add: same_name_def variant_position_name)

lemma lower_named: "dt_lower_pattern q b ty = Ok (DtWildcard (Some x)) \<Longrightarrow> \<exists>i. q = TP_Binding i"
  by (cases q) (auto simp: expect_def variant_kind_at_def at_def outcome_simps
    split: Type.splits option.splits if_splits EnumVariantKind.splits)

lemma constant_hides: "hides (DtCtorPat c []) dq \<Longrightarrow> \<exists>x. dq = DtWildcard (Some x)"
  by (auto elim: hides.elims)

text \<open>Lowering adds no hidden variable: a lowered pattern hides one of another only where the typed pattern
  inspects it.\<close>

lemma lower_hides:
  assumes "tp_with lit_fitting p ty" "tp_with lit_fitting q ty"
    and "dt_lower_pattern p a ty = Ok dp" "dt_lower_pattern q b ty = Ok dq" "hides dp dq"
  shows "inspects p q"
  using assms
proof (induction p a ty arbitrary: q dp dq rule: dt_lower_pattern.induct)
  case (4 name fs a ty)
  show ?case
  proof (cases "catch_all q")
    case False
    show ?thesis
    proof (cases ty)
      case (TRecord r)
      with typed_constructor_pattern [OF "4.prems"(2) False] obtain name' gs where q: "q = TP_Struct name' gs" by auto
      from "4.prems"(3,4) q TRecord obtain args args' where a:
        "dp = DtCtorPat Struct args" "dq = DtCtorPat Struct args'"
        "map_out (\<lambda>fd. case find_field (id_name (field_name fd)) fs of None \<Rightarrow> Ok (DtWildcard None)
              | Some sf \<Rightarrow> dt_lower_pattern (pat_field_pattern sf) a (field_ty fd)) (record_fields r) = Ok args"
        "map_out (\<lambda>fd. case find_field (id_name (field_name fd)) gs of None \<Rightarrow> Ok (DtWildcard None)
              | Some sf \<Rightarrow> dt_lower_pattern (pat_field_pattern sf) b (field_ty fd)) (record_fields r) = Ok args'"
        by (auto simp: outcome_simps)
      from "4.prems"(5) a(1,2) obtain k where k: "k < length args" "hides (args ! k) (args' ! k)"
        by (auto simp: set_zip)
      have n: "same_name name name'" using "4.prems"(1,2) q TRecord by (auto simp: same_name_def last_opt_def)
      have "fields_ok fs (record_fields r)" "fields_ok gs (record_fields r)" using "4.prems"(1,2) q TRecord by auto
      from fields_hide [OF a(3,4) this k] have "\<exists>f\<in>set fs. \<exists>g\<in>set gs.
          id_name (pat_field_name f) = id_name (pat_field_name g)
        \<and> inspects (pat_field_pattern f) (pat_field_pattern g)"
      proof this
        fix tf f g assume x: "tf \<in> set (record_fields r)" "find_field (id_name (field_name tf)) fs = Some f" "g \<in> set gs"
          "id_name (pat_field_name g) = id_name (field_name tf)"
          "dt_lower_pattern (pat_field_pattern f) a (field_ty tf) = Ok (args ! k)"
          "dt_lower_pattern (pat_field_pattern g) b (field_ty tf) = Ok (args' ! k)"
        have "f \<in> set fs" "id_name (pat_field_name f) = id_name (field_name tf)"
          using x(2) by (auto simp: find_field_def find_Some_iff)
        then have "tp_with lit_fitting (pat_field_pattern f) (field_ty tf)" using "4.prems"(1) TRecord x(1) by auto
        moreover have "tp_with lit_fitting (pat_field_pattern g) (field_ty tf)" using "4.prems"(2) q TRecord x by auto
        ultimately show "inspects (pat_field_pattern f) (pat_field_pattern g)"
          using "4.IH"(1) [OF TRecord x(1,2)] x(5,6) k(2) by blast
      qed
      with q n show ?thesis by simp
    next
      case (TEnum e)
      note prems = "4.prems" [unfolded TEnum]
      obtain i flds args where i: "variant_position e name = Some i"
        "i < length (enum_variants e)" "variant_kind (enum_variants e ! i) = EV_Struct flds" "fields_ok fs flds"
        "dp = DtCtorPat (EnumVariant i) args"
        "\<forall>tf\<in>set flds. \<forall>f\<in>set fs. id_name (pat_field_name f) = id_name (field_name tf) \<longrightarrow>
        tp_with lit_fitting (pat_field_pattern f) (field_ty tf)"
        "map_out (\<lambda>tf. case find_field (id_name (field_name tf)) fs of None \<Rightarrow> Panic
         | Some f \<Rightarrow> dt_lower_pattern (pat_field_pattern f) a (field_ty tf)) flds = Ok args"
        by (rule struct_variant [OF prems(1,3)])
      have kc: "\<not> (\<exists>name' qs. q = TP_Tuple name' qs)"
      proof
        assume "\<exists>name' qs. q = TP_Tuple name' qs"
        then obtain name' qs where q: "q = TP_Tuple name' qs" by blast
        obtain j tys args' where "variant_kind (enum_variants e ! j) = EV_Tuple tys" "dq = DtCtorPat (EnumVariant j) args'"
          by (rule tuple_variant [OF prems(2) [unfolded q] prems(4) [unfolded q]])
        with i(3,5) prems(5) show False by auto
      qed
      moreover have "\<not> (\<exists>name' j. q = TP_Constant name' j)" using prems(4,5) i(5) by auto
      ultimately obtain name' gs where q: "q = TP_Struct name' gs"
        using typed_constructor_pattern [OF "4.prems"(2) False] TEnum by auto
      obtain j flds' args' where j:
        "variant_position e name' = Some j" "j < length (enum_variants e)" "variant_kind (enum_variants e ! j) = EV_Struct flds'" "fields_ok gs flds'"
        "dq = DtCtorPat (EnumVariant j) args'"
        "\<forall>tf\<in>set flds'. \<forall>f\<in>set gs. id_name (pat_field_name f) = id_name (field_name tf) \<longrightarrow>
        tp_with lit_fitting (pat_field_pattern f) (field_ty tf)"
        "map_out (\<lambda>tf. case find_field (id_name (field_name tf)) gs of None \<Rightarrow> Panic
         | Some f \<Rightarrow> dt_lower_pattern (pat_field_pattern f) b (field_ty tf)) flds' = Ok args'"
        by (rule struct_variant [OF prems(2) [unfolded q] prems(4) [unfolded q]])
      from prems(5) i(5) j(5) obtain k where k: "j = i" "k < length args" "hides (args ! k) (args' ! k)"
        by (auto simp: set_zip)
      with j(3) i(3) have flds: "flds' = flds" by simp
      from fields_hide [OF i(7) j(7) [unfolded flds] i(4) j(4) [unfolded flds] k(2,3)] have "\<exists>f\<in>set fs. \<exists>g\<in>set gs.
          id_name (pat_field_name f) = id_name (pat_field_name g)
        \<and> inspects (pat_field_pattern f) (pat_field_pattern g)"
      proof this
        fix tf f g assume x: "tf \<in> set flds" "find_field (id_name (field_name tf)) fs = Some f" "g \<in> set gs"
          "id_name (pat_field_name g) = id_name (field_name tf)"
          "dt_lower_pattern (pat_field_pattern f) a (field_ty tf) = Ok (args ! k)"
          "dt_lower_pattern (pat_field_pattern g) b (field_ty tf) = Ok (args' ! k)"
        have "f \<in> set fs" "id_name (pat_field_name f) = id_name (field_name tf)"
          using x(2) by (auto simp: find_field_def find_Some_iff)
        then have "tp_with lit_fitting (pat_field_pattern f) (field_ty tf)" using i(6) x(1) by blast
        moreover have "tp_with lit_fitting (pat_field_pattern g) (field_ty tf)" using j(6) flds x by blast
        ultimately show "inspects (pat_field_pattern f) (pat_field_pattern g)"
          using "4.IH"(2) [OF TEnum i(1) x(1,2)] x(5,6) k(3) i(2) by blast
      qed
      with q same_variant_name [OF i(1) j(1) [unfolded k(1)]] show ?thesis by simp
    qed (use "4.prems"(1) in auto)
  qed (use "4.prems" in \<open>cases q; auto\<close>)
next
  case (5 name ps a ty)
  from "5.prems"(1) obtain e where ty: "ty = TEnum e" by (cases ty) auto
  note prems = "5.prems" [unfolded ty]
  show ?case
  proof (cases "catch_all q")
    case False
    obtain i tys args where i: "variant_position e name = Some i"
      "i < length (enum_variants e)" "variant_kind (enum_variants e ! i) = EV_Tuple tys" "length ps = length tys"
      "dp = DtCtorPat (EnumVariant i) args" "\<forall>(p, t)\<in>set (zip ps tys). tp_with lit_fitting p t"
      "map_out (\<lambda>(p, t). dt_lower_pattern p a t) (zip ps tys) = Ok args"
      by (rule tuple_variant [OF prems(1,3)])
    have "\<not> (\<exists>name' gs. q = TP_Struct name' gs)"
    proof
      assume "\<exists>name' gs. q = TP_Struct name' gs"
      then obtain name' gs where q: "q = TP_Struct name' gs" by blast
      obtain j flds args' where "variant_kind (enum_variants e ! j) = EV_Struct flds" "dq = DtCtorPat (EnumVariant j) args'"
        by (rule struct_variant [OF prems(2) [unfolded q] prems(4) [unfolded q]])
      with i(3,5) prems(5) show False by auto
    qed
    moreover have "\<not> (\<exists>name' j. q = TP_Constant name' j)" using prems(4,5) i(5) by auto
    ultimately obtain name' qs where q: "q = TP_Tuple name' qs"
      using typed_constructor_pattern [OF "5.prems"(2) False] ty by auto
    obtain j tys' args' where j:
      "variant_position e name' = Some j" "j < length (enum_variants e)" "variant_kind (enum_variants e ! j) = EV_Tuple tys'" "length qs = length tys'"
      "dq = DtCtorPat (EnumVariant j) args'" "\<forall>(p, t)\<in>set (zip qs tys'). tp_with lit_fitting p t"
      "map_out (\<lambda>(p, t). dt_lower_pattern p b t) (zip qs tys') = Ok args'"
      by (rule tuple_variant [OF prems(2) [unfolded q] prems(4) [unfolded q]])
    from prems(5) i(5) j(5) obtain k where k: "j = i" "k < length args" "hides (args ! k) (args' ! k)"
      by (auto simp: set_zip)
    with j(3) i(3) have tys: "tys' = tys" by simp
    have "\<exists>(p, q)\<in>set (zip ps qs). inspects p q"
      by (rule items_hide [OF i(7) j(7) [unfolded tys] i(4) j(4) [unfolded tys] k(2,3)])
        (use "5.IH" [OF ty i(1)] i(2,6) j(6) tys k(3) in blast)
    with q same_variant_name [OF i(1) j(1) [unfolded k(1)]] show ?thesis by simp
  qed (use "5.prems" in \<open>cases q; auto\<close>)
next
  case (6 ps a ty)
  from "6.prems"(1) obtain tys where ty: "ty = TTuple tys" by (cases ty) auto
  show ?case
  proof (cases "catch_all q")
    case False
    with typed_constructor_pattern [OF "6.prems"(2) False] ty obtain qs where q: "q = TP_AnonTuple qs" by auto
    from "6.prems"(3,4) q ty obtain args args' where a:
      "dp = DtCtorPat Struct args" "dq = DtCtorPat Struct args'"
      "map_out (\<lambda>(p, t). dt_lower_pattern p a t) (zip ps tys) = Ok args"
      "map_out (\<lambda>(p, t). dt_lower_pattern p b t) (zip qs tys) = Ok args'"
      by (auto simp: outcome_simps)
    from "6.prems"(5) a(1,2) obtain k where k: "k < length args" "hides (args ! k) (args' ! k)"
      by (auto simp: set_zip)
    have len: "length ps = length tys" "length qs = length tys"
      and w: "\<forall>(p, t)\<in>set (zip ps tys). tp_with lit_fitting p t"
        "\<And>p t. (p, t) \<in> set (zip qs tys) \<Longrightarrow> tp_with lit_fitting p t"
      using "6.prems"(1,2) q ty by auto
    have "\<exists>(p, q)\<in>set (zip ps qs). inspects p q"
      by (rule items_hide [OF a(3,4) len k]) (use "6.IH" [OF ty _ refl] w k(2) in blast)
    with q show ?thesis by simp
  qed (use "6.prems" in \<open>cases q; auto\<close>)
next
  case (3 lit a ty)
  then have "dp = DtCtorPat (literal_ctor lit) []" by simp
  with 3 show ?case by (auto dest!: constant_hides lower_named)
next
  case (7 name variant a ty)
  then have "dp = DtCtorPat (EnumVariant variant) []" by simp
  with 7 show ?case by (auto dest!: constant_hides lower_named)
qed auto

end
