(* ===== verification/Decision_Tree_Properties.thy ===== *)
theory Decision_Tree_Properties
  imports Decision_Tree_Lowering Match_Properties
begin

text \<open>
  The properties of compilation to decision trees, and their composition with exhaustiveness checking:
  a match that the type checker accepts runs its first matching arm and never reaches the
  \<^verbatim>\<open>unreachable\<close> instruction.
\<close>

section \<open>Matches as matrices\<close>

definition first_arm :: "'b TypedMatchArm list \<Rightarrow> Type \<Rightarrow> Val \<Rightarrow> nat option" where
  "first_arm arms ty v = find (\<lambda>i. tmatch (arm_pattern (arms ! i)) ty v) [0..<length arms]"

definition arm_rows :: "DtPat list \<Rightarrow> DtMatrix" where
  "arm_rows dps = map (\<lambda>(i, dp). \<lparr>pats = [dp], action = i\<rparr>) (enumerate 0 dps)"

lemma find_map_index:
  assumes "length xs = length ys" "\<And>i. i < length xs \<Longrightarrow> P (f i (xs ! i)) = Q i"
  shows "find P (map (\<lambda>(i, x). f i x) (enumerate 0 xs)) =
    map_option (\<lambda>i. f i (xs ! i)) (find Q [0..<length ys])"
proof -
  have "map (\<lambda>(i, x). f i x) (enumerate 0 xs) = map (\<lambda>i. f i (xs ! i)) [0..<length ys]"
    using assms(1) by (intro nth_equalityI) (simp_all add: nth_enumerate_eq)
  moreover have "find P (map g is) = map_option g (find Q is)" if "\<forall>i\<in>set is. P (g i) = Q i" for g "is"
    using that by (induction "is") auto
  ultimately show ?thesis using assms by simp
qed

lemma row_binds_single:
  "row_binds \<lparr>pats = [dp], action = a\<rparr> [v] = {(n, u). (a, n, u) \<in> set (dbinds dp v)}"
  by (simp add: row_binds_def)

lemma rows_single_ok: "list_all (\<lambda>dp. dp_ok dp ty) dps \<Longrightarrow> rows_ok (arm_rows dps) [ty]"
  by (auto simp: rows_ok_def arm_rows_def list_all_iff in_set_enumerate_eq)

lemma lower_arms_ok:
  assumes "\<forall>arm\<in>set arms. tp_with lit_fitting (arm_pattern arm) ty"
  obtains dps where "map_out (lower_arm ty) (enumerate 0 arms) = Ok (arm_rows dps)" "length dps = length arms"
    "\<And>i. i < length arms \<Longrightarrow> dt_lower_pattern (arm_pattern (arms ! i)) i ty = Ok (dps ! i)"
    "\<And>i. i < length arms \<Longrightarrow> dlowers i (arm_pattern (arms ! i)) ty (dps ! i)"
proof -
  define dp where "dp i = (SOME d. dt_lower_pattern (arm_pattern (arms ! i)) i ty = Ok d
    \<and> dlowers i (arm_pattern (arms ! i)) ty d)" for i
  have dp: "dt_lower_pattern (arm_pattern (arms ! i)) i ty = Ok (dp i) \<and> dlowers i (arm_pattern (arms ! i)) ty (dp i)"
    if "i < length arms" for i
    unfolding dp_def by (rule someI_ex) (use assms that dt_lower_faithful in auto)
  let ?dps = "map dp [0..<length arms]"
  have "map_out (lower_arm ty) (enumerate 0 arms) = Ok (map (\<lambda>(i, arm). \<lparr>pats = [dp i], action = i\<rparr>) (enumerate 0 arms))"
    by (rule map_out_pure) (use dp in \<open>auto simp: lower_arm_def in_set_enumerate_eq\<close>)
  also have "map (\<lambda>(i, arm). \<lparr>pats = [dp i], action = i\<rparr>) (enumerate 0 arms) = arm_rows ?dps"
    by (intro nth_equalityI) (simp_all add: arm_rows_def nth_enumerate_eq)
  finally show thesis using dp by (intro that [of ?dps]) simp_all
qed

text \<open>The first matching arm runs, with the variables of its pattern: with all of them when no earlier arm
  inspects the value where this one binds a variable.\<close>

definition runs_first_arm :: "DecisionTree \<Rightarrow> 'b TypedMatchArm list \<Rightarrow> Type \<Rightarrow> Val \<Rightarrow> bool" where
  "runs_first_arm t arms ty v =
     (case first_arm arms ty v of
        None \<Rightarrow> exec_tree t [(v, ty)] = Fails
      | Some i \<Rightarrow> \<exists>bs. exec_tree t [(v, ty)] = Runs i bs
          \<and> set bs \<subseteq> tbinds (arm_pattern (arms ! i)) ty v
          \<and> ((\<forall>j<i. \<not> inspects (arm_pattern (arms ! j)) (arm_pattern (arms ! i))) \<longrightarrow>
               set bs = tbinds (arm_pattern (arms ! i)) ty v))"

text \<open>The rows before the first match are the earlier arms.\<close>

lemma before_arms:
  assumes "r \<in> set (before (arm_rows dps) [v])" "find (row_matches [v]) (arm_rows dps) = Some \<lparr>pats = [dps ! i], action = i\<rparr>"
    and "i < length dps"
  obtains j where "j < i" "r = \<lparr>pats = [dps ! j], action = j\<rparr>"
proof -
  have nth: "arm_rows dps ! k = \<lparr>pats = [dps ! k], action = k\<rparr>" if "k < length dps" for k
    using that by (simp add: arm_rows_def nth_enumerate_eq)
  have len: "length (arm_rows dps) = length dps" by (simp add: arm_rows_def)
  from assms(1) obtain j where j: "j < length (before (arm_rows dps) [v])" "before (arm_rows dps) [v] ! j = r"
    by (auto simp: in_set_conv_nth)
  from j(1) have le: "j < length dps"
    using length_takeWhile_le [of "\<lambda>row. \<not> row_matches [v] row" "arm_rows dps"] len by (simp add: before_def)
  have r: "r = arm_rows dps ! j" using j takeWhile_nth by (metis before_def)
  from assms(2) obtain k where k: "k < length dps" "row_matches [v] (arm_rows dps ! k)"
    "arm_rows dps ! k = \<lparr>pats = [dps ! i], action = i\<rparr>" by (auto simp: find_Some_iff len)
  then have "k = i" using nth by simp
  have "j < i"
  proof (rule ccontr)
    assume "\<not> j < i"
    with j(1) have "arm_rows dps ! i \<in> set (before (arm_rows dps) [v])"
      by (metis before_def linorder_neqE_nat not_less_iff_gr_or_eq nth_mem order.strict_trans takeWhile_nth)
    with k \<open>k = i\<close> show False unfolding before_def by (auto dest: set_takeWhileD)
  qed
  with that [OF this] r nth [OF le] show thesis by simp
qed

lemma compiled_match:
  assumes "\<forall>arm\<in>set arms. tp_with lit_fitting (arm_pattern arm) ty"
  obtains t where "compile_match arms ty = Ok t"
    "\<And>v. has_type v ty \<Longrightarrow> runs_first_arm t arms ty v"
proof -
  obtain dps where dps: "map_out (lower_arm ty) (enumerate 0 arms) = Ok (arm_rows dps)" "length dps = length arms"
    "\<And>i. i < length arms \<Longrightarrow> dt_lower_pattern (arm_pattern (arms ! i)) i ty = Ok (dps ! i)"
    "\<And>i. i < length arms \<Longrightarrow> dlowers i (arm_pattern (arms ! i)) ty (dps ! i)"
    using lower_arms_ok [OF assms] by blast
  have "list_all (\<lambda>dp. dp_ok dp ty) dps"
    using dps(2,4) by (auto simp: list_all_length dlowers_def)
  from compile_correct [OF rows_single_ok [OF this]] obtain t where t: "dt_compile (arm_rows dps) [ty] = Ok t"
    "\<And>vs. list_all2 has_type vs [ty] \<Longrightarrow> tree_ok (arm_rows dps) vs (exec_tree t (zip vs [ty]))" by blast
  show thesis
  proof (rule that [of t])
    show "compile_match arms ty = Ok t" using dps(1) t(1) by (simp add: compile_match_def)
    fix v assume v: "has_type v ty"
    have f: "find (row_matches [v]) (arm_rows dps) = map_option (\<lambda>i. \<lparr>pats = [dps ! i], action = i\<rparr>) (first_arm arms ty v)"
      unfolding arm_rows_def first_arm_def
      by (rule find_map_index) (use dps v in \<open>auto simp: row_matches_def dlowers_def\<close>)
    have ok: "tree_ok (arm_rows dps) [v] (exec_tree t [(v, ty)])" using t(2) [of "[v]"] v by simp
    show "runs_first_arm t arms ty v"
    proof (cases "first_arm arms ty v")
      case None
      with ok f show ?thesis by (simp add: tree_ok_def runs_first_arm_def)
    next
      case (Some i)
      then have i: "i < length arms" "tmatch (arm_pattern (arms ! i)) ty v" by (auto simp: first_arm_def find_Some_iff)
      let ?row = "\<lparr>pats = [dps ! i], action = i\<rparr>"
      from f Some have fr: "find (row_matches [v]) (arm_rows dps) = Some ?row" by simp
      have binds: "row_binds ?row [v] = tbinds (arm_pattern (arms ! i)) ty v"
        using dps(4) [OF i(1)] i(2) v by (auto simp: row_binds_single dlowers_def)
      from ok fr obtain bs where bs: "exec_tree t [(v, ty)] = Runs i bs" "set bs \<subseteq> row_binds ?row [v]"
        "(\<forall>r\<in>set (before (arm_rows dps) [v]). \<not> row_hides r ?row) \<longrightarrow> set bs = row_binds ?row [v]"
        by (auto simp: tree_ok_def)
      have "\<not> row_hides r ?row" if h: "\<forall>j<i. \<not> inspects (arm_pattern (arms ! j)) (arm_pattern (arms ! i))"
        and r: "r \<in> set (before (arm_rows dps) [v])" for r
      proof -
        obtain j where j: "j < i" "r = \<lparr>pats = [dps ! j], action = j\<rparr>"
          by (rule before_arms [OF r fr]) (use dps(2) i(1) in simp_all)
        have "\<not> hides (dps ! j) (dps ! i)"
          using lower_hides [OF _ _ dps(3) dps(3)] assms h j(1) i(1) by (meson nth_mem order.strict_trans)
        with j(2) show ?thesis by (simp add: row_hides_def)
      qed
      with bs binds Some show ?thesis by (auto simp: runs_first_arm_def)
    qed
  qed
qed

section \<open>Properties\<close>

text \<open>
C5: Compiling a match on well-typed patterns whose integer literals fit \<^verbatim>\<open>i64\<close> never panics, and the
decision tree runs the first arm whose pattern matches the value; when none does it ends in its
\<^verbatim>\<open>Fail\<close> node. The variables it binds have the values the pattern gives them, and they are exactly the
variables of the pattern unless an earlier arm inspects the value at a position where this one binds a
variable (there the compiler drops the binding).
\<close>

theorem compiled_match_runs_first_arm:
  assumes "\<forall>arm\<in>set arms. tp_with lit_fitting (arm_pattern arm) ty" "has_type v ty"
  shows "\<exists>t. compile_match arms ty = Ok t \<and>
    (case first_arm arms ty v of
       None \<Rightarrow> exec_tree t [(v, ty)] = Fails
     | Some i \<Rightarrow> \<exists>bs. exec_tree t [(v, ty)] = Runs i bs \<and> set bs \<subseteq> tbinds (arm_pattern (arms ! i)) ty v
         \<and> ((\<forall>j<i. \<not> inspects (arm_pattern (arms ! j)) (arm_pattern (arms ! i))) \<longrightarrow>
              set bs = tbinds (arm_pattern (arms ! i)) ty v))"
proof -
  from compiled_match [OF assms(1)] obtain t where t: "compile_match arms ty = Ok t"
    "runs_first_arm t arms ty v" using assms(2) by blast
  then show ?thesis by (cases "first_arm arms ty v") (auto simp: runs_first_arm_def)
qed

definition some_7_true :: Val where
  "some_7_true = V_Ctor (C_EnumVariant ''Option'' 1 ''Some'') [V_Int 7, V_Bool True]"

lemma option_arms_fit: "\<forall>arm\<in>set option_arms. tp_with lit_fitting (arm_pattern arm) (TEnum OptionEnum)"
  by code_simp

lemma some_7_true_typed: "has_type some_7_true (TEnum OptionEnum)"
  by code_simp

definition last_some_arms :: "unit TypedMatchArm list" where
  "last_some_arms = [option_arm [TP_Wildcard, bool_pat False], none_arm,
     option_arm [TP_Binding (Identifier_anon ''n''), bool_pat True]]"

lemma compiled_match_runs_first_arm_witness:
  "\<exists>t bs. compile_match last_some_arms (TEnum OptionEnum) = Ok t
    \<and> exec_tree t [(some_7_true, TEnum OptionEnum)] = Runs 2 bs \<and> set bs = {(''n'', V_Int 7)}"
proof -
  have fit: "\<forall>arm\<in>set last_some_arms. tp_with lit_fitting (arm_pattern arm) (TEnum OptionEnum)" by code_simp
  have "first_arm last_some_arms (TEnum OptionEnum) some_7_true = Some 2" by code_simp
  moreover have "\<forall>j<2. \<not> inspects (arm_pattern (last_some_arms ! j)) (arm_pattern (last_some_arms ! 2))"
    by (simp add: last_some_arms_def option_arm_def none_arm_def numeral_2_eq_2 less_Suc_eq bool_pat_def)
  moreover have "tbinds (arm_pattern (last_some_arms ! 2)) (TEnum OptionEnum) some_7_true = {(''n'', V_Int 7)}"
    by (simp add: last_some_arms_def option_arm_def some_7_true_def OptionEnum_def EnumVariantType_tuple_def
      Identifier_anon_def bool_pat_def)
  ultimately show ?thesis using compiled_match_runs_first_arm [OF fit some_7_true_typed] by auto
qed

text \<open>
C31: A match that the type checker accepts, on well-typed patterns whose integer literals fit
\<^verbatim>\<open>i64\<close>, is compiled to code that always runs an arm: for every typed value the tree selects the first
arm that matches it, and reaches neither a \<^verbatim>\<open>Fail\<close> node nor another \<^verbatim>\<open>unreachable\<close>.
\<close>

theorem accepted_match_runs_an_arm:
  assumes "\<forall>arm\<in>set arms. tp_with lit_fitting (arm_pattern arm) ty"
    and "check_match ty arms span = Ok ()" "has_type v ty"
  shows "\<exists>t i bs. compile_match arms ty = Ok t \<and> exec_tree t [(v, ty)] = Runs i bs
    \<and> i < length arms \<and> tmatch (arm_pattern (arms ! i)) ty v
    \<and> (\<forall>j<i. \<not> tmatch (arm_pattern (arms ! j)) ty v)"
proof -
  obtain sps where sps: "list_all2 (\<lambda>arm sp. lower_pattern (arm_pattern arm) ty = Ok sp
      \<and> lowers False {} (arm_pattern arm) ty sp \<and> (\<exists>s. pattern_span (arm_pattern arm) = Ok s)) arms sps"
    by (rule lower_arms [OF assms(1), where strict = False and N = "{}"]) (auto simp: lit_fitting_typed)
  from check_match_unfold [OF sps, of span] assms(2) have "\<not> is_useful (arm_matrix ty sps) [SP_Wildcard]"
    by (auto simp: Let_def split: if_splits)
  with useless_wildcard_exhaustive [OF sps] assms(3) obtain arm where
    "arm \<in> set arms" "tmatch (arm_pattern arm) ty v" by (auto simp: exhaustive_def)
  then have "first_arm arms ty v \<noteq> None"
    by (auto simp: first_arm_def find_None_iff in_set_conv_nth)
  then obtain i where i: "first_arm arms ty v = Some i" by blast
  then have "i < length arms" "tmatch (arm_pattern (arms ! i)) ty v"
    "\<forall>j<i. \<not> tmatch (arm_pattern (arms ! j)) ty v"
    by (auto simp: first_arm_def find_Some_iff)
  moreover from compiled_match [OF assms(1)] obtain t where "compile_match arms ty = Ok t"
    "runs_first_arm t arms ty v" using assms(3) by blast
  ultimately show ?thesis using i by (auto simp: runs_first_arm_def)
qed

lemma accepted_match_runs_an_arm_witness:
  "\<exists>t i bs. compile_match option_arms (TEnum OptionEnum) = Ok t
    \<and> exec_tree t [(some_7_true, TEnum OptionEnum)] = Runs i bs"
  using accepted_match_runs_an_arm [OF option_arms_fit option_match_ok some_7_true_typed] by blast

text \<open>
C32: A \<^verbatim>\<open>let\<close> with a well-typed pattern whose integer literals fit \<^verbatim>\<open>i64\<close> binds, when the pattern
matches, exactly its variables, to the values it gives them, and runs the \<^verbatim>\<open>else\<close> branch when it does not
match; it never traps.
\<close>

theorem let_binds_all_variables:
  assumes "tp_with lit_fitting p ty" "has_type v ty"
  shows "\<exists>t. compile_let p ty = Ok t \<and>
    (if tmatch p ty v then \<exists>bs. exec_tree t [(v, ty)] = Runs 0 bs \<and> set bs = tbinds p ty v
     else exec_tree t [(v, ty)] = Fails)"
proof -
  let ?arms = "[TypedMatchArm p ()]"
  have eq: "compile_match ?arms ty = compile_let p ty"
  proof (cases "dt_lower_pattern p 0 ty")
    case (Ok dp)
    then show ?thesis by (simp add: compile_match_def compile_let_def lower_arm_def)
  qed (simp_all add: compile_match_def compile_let_def lower_arm_def)
  have "\<forall>arm\<in>set ?arms. tp_with lit_fitting (arm_pattern arm) ty" using assms(1) by simp
  from compiled_match [OF this] obtain t where t: "compile_match ?arms ty = Ok t"
    "runs_first_arm t ?arms ty v" using assms(2) by blast
  moreover have "first_arm ?arms ty v = (if tmatch p ty v then Some 0 else None)"
    by (simp add: first_arm_def)
  ultimately show ?thesis unfolding eq [symmetric] by (cases "tmatch p ty v") (auto simp: runs_first_arm_def)
qed

lemma let_binds_all_variables_witness:
  "\<exists>t bs. compile_let (TP_AnonTuple [TP_Binding (Identifier_anon ''x''), bool_pat True]) (TTuple [TInt U8, TBool]) = Ok t
    \<and> exec_tree t [(V_Ctor (C_Tuple 2) [V_Int 3, V_Bool True], TTuple [TInt U8, TBool])] = Runs 0 bs
    \<and> set bs = tbinds (TP_AnonTuple [TP_Binding (Identifier_anon ''x''), bool_pat True]) (TTuple [TInt U8, TBool])
        (V_Ctor (C_Tuple 2) [V_Int 3, V_Bool True])"
proof -
  let ?p = "TP_AnonTuple [TP_Binding (Identifier_anon ''x''), bool_pat True]"
  let ?ty = "TTuple [TInt U8, TBool]" and ?v = "V_Ctor (C_Tuple 2) [V_Int 3, V_Bool True]"
  have "tp_with lit_fitting ?p ?ty" "has_type ?v ?ty" "tmatch ?p ?ty ?v" by code_simp+
  with let_binds_all_variables [of ?p ?ty ?v] show ?thesis by auto
qed

text \<open>
The decision tree loses variables: in \<^verbatim>\<open>match n { 1 => .., x => .. }\<close> the arm of \<^verbatim>\<open>x\<close> is selected for
every other value, but with no binding for \<^verbatim>\<open>x\<close>.
\<close>

theorem catch_all_variable_is_lost:
  "\<exists>t. compile_match [TypedMatchArm (lit_pat 1) (), TypedMatchArm (TP_Binding (Identifier_anon ''x'')) ()]
        (TInt I64) = Ok t
    \<and> exec_tree t [(V_Int 5, TInt I64)] = Runs 1 []
    \<and> tbinds (TP_Binding (Identifier_anon ''x'')) (TInt I64) (V_Int 5) = {(''x'', V_Int 5)}"
proof -
  have "compile_match [TypedMatchArm (lit_pat 1) (), TypedMatchArm (TP_Binding (Identifier_anon ''x'')) ()]
        (TInt I64) = Ok (Switch 0 [(IntLiteral 1, Leaf 0 [])] (Some (Leaf 1 [])))"
    by code_simp
  moreover have "exec_tree (Switch 0 [(IntLiteral 1, Leaf 0 [])] (Some (Leaf 1 []))) [(V_Int 5, TInt I64)] = Runs 1 []"
    by code_simp
  ultimately show ?thesis by (simp add: Identifier_anon_def)
qed

definition wide_literal :: IntegerLiteral where
  "wide_literal = IntegerLiteral ''10000000000000001'' Hexadecimal"

lemma wide_literal_value: "literal_value wide_literal = Some 18446744073709551617"
  by (simp add: wide_literal_def literal_value_def i128_from_str_radix_def to_digit_def in_i128_def)

definition wide_arms :: "unit TypedMatchArm list" where
  "wide_arms = [TypedMatchArm (TP_Literal (L_Integer wide_literal)) (), TypedMatchArm TP_Wildcard ()]"

lemma wide_match_checked: "check_match (TInt I64) wide_arms DUMMY_SPAN = Ok ()"
proof -
  define r0 r1 where "r0 = [SP_Literal (SL_Int 18446744073709551617)]" and "r1 = [SP_Wildcard]"
  let ?m0 = "Matrix_new [TInt I64]"
  have "is_useful ?m0 r0" "is_useful (Matrix_push ?m0 r0) r1"
    "\<not> is_useful (Matrix_push (Matrix_push ?m0 r0) r1) [SP_Wildcard]"
    unfolding r0_def r1_def by code_simp+
  then show ?thesis
    by (simp add: check_match_def check_arm_def wide_arms_def lower_literal_def wide_literal_value r0_def r1_def)
qed

lemma wide_match_compiled:
  "compile_match wide_arms (TInt I64) = Ok (Switch 0 [(IntLiteral 18446744073709551617, Leaf 0 [])] (Some (Leaf 1 [])))"
proof -
  have "dt_compile [\<lparr>pats = [DtCtorPat (IntLiteral 18446744073709551617) []], action = 0\<rparr>,
      \<lparr>pats = [DtWildcard None], action = 1\<rparr>] [TInt I64]
    = Ok (Switch 0 [(IntLiteral 18446744073709551617, Leaf 0 [])] (Some (Leaf 1 [])))"
    by code_simp
  then show ?thesis
    by (simp add: compile_match_def wide_arms_def lower_arm_def literal_ctor_def wide_literal_value)
qed

text \<open>
The type checker accepts an integer pattern beyond the range of \<^verbatim>\<open>i64\<close>, and the emitted comparison
truncates it: the pattern $2^{64} + 1$ then selects its arm for the value 1, which it does not match.
\<close>

theorem out_of_range_pattern_matches_wrong_value:
  "check_match (TInt I64) wide_arms DUMMY_SPAN = Ok ()
    \<and> (\<exists>t. compile_match wide_arms (TInt I64) = Ok t \<and> exec_tree t [(V_Int 1, TInt I64)] = Runs 0 [])
    \<and> \<not> tmatch (arm_pattern (hd wide_arms)) (TInt I64) (V_Int 1)"
proof -
  have "int_test I64 18446744073709551617 1"
    by (simp add: int_test_def word_of_int_eq_iff take_bit_eq_mod)
  then show ?thesis
    by (simp add: wide_match_checked wide_match_compiled case_test_def replace_col_def)
      (simp add: wide_arms_def wide_literal_value)
qed

end
