(* ===== verification/Types_Subst.thy ===== *)
theory Types_Subst
  imports Lang_Types
begin

text \<open>
  Substitution of type variables (\<^verbatim>\<open>starstream-types/src/types/subst.rs\<close>). The trait
  \<^verbatim>\<open>SubstituteType\<close> has one group of definitions per method; the implementation for a struct takes the
  method of the types it holds as its argument \<open>r\<close>. The recursion follows the substitution and need not
  end, so the methods on \<open>Type\<close> take the stack depth available: \<open>Panic\<close> is its overflow. \<^verbatim>\<open>Arc\<close> is dropped;
  whether the allocation of a type is unique, which \<^verbatim>\<open>Arc::get_mut\<close> asks, is the parameter \<open>unique\<close>.
\<close>

type_synonym subst = "TypeVarId \<rightharpoonup> Type"

datatype 'a Cow = Borrowed 'a | Owned 'a

fun into_owned :: "'a Cow \<Rightarrow> 'a" where
  "into_owned (Borrowed x) = x"
| "into_owned (Owned x) = x"

fun is_borrowed :: "'a Cow \<Rightarrow> bool" where
  "is_borrowed (Borrowed x) = True"
| "is_borrowed (Owned x) = False"

text \<open>\<^verbatim>\<open>r(x).into_owned()\<close>\<close>

definition own :: "('a \<Rightarrow> 'a Cow total) \<Rightarrow> 'a \<Rightarrow> 'a total" where
  "own r x = andthen (r x) (\<lambda>c. Ok (into_owned c))"

text \<open>\<^verbatim>\<open>match c { Cow::Borrowed(_) => Cow::Borrowed(self), Cow::Owned(x) => Cow::Owned(k(x)) }\<close>\<close>

definition rewrap :: "'a \<Rightarrow> ('b \<Rightarrow> 'a) \<Rightarrow> ('e, 'b Cow) outcome \<Rightarrow> ('e, 'a Cow) outcome" where
  "rewrap self k m = andthen m (\<lambda>c. Ok (case c of Borrowed _ \<Rightarrow> Borrowed self | Owned x \<Rightarrow> Owned (k x)))"

section \<open>contains\_var\<close>

definition cv_function :: "('t \<Rightarrow> bool total) \<Rightarrow> 't FunctionType \<Rightarrow> bool total" where
  "cv_function r f = or_out (any_out (\<lambda>p. r (param_ty p)) (fn_params f)) (r (fn_result f))"

definition cv_record :: "('t \<Rightarrow> bool total) \<Rightarrow> 't RecordType \<Rightarrow> bool total" where
  "cv_record r rt = any_out (\<lambda>fd. r (field_ty fd)) (record_fields rt)"

fun cv_kind :: "('t \<Rightarrow> bool total) \<Rightarrow> 't EnumVariantKind \<Rightarrow> bool total" where
  "cv_kind r EV_Unit = Ok False"
| "cv_kind r (EV_Tuple items) = any_out r items"
| "cv_kind r (EV_Struct fds) = any_out (\<lambda>fd. r (field_ty fd)) fds"

definition cv_enum :: "('t \<Rightarrow> bool total) \<Rightarrow> 't EnumType \<Rightarrow> bool total" where
  "cv_enum r e = any_out (\<lambda>v. cv_kind r (variant_kind v)) (enum_variants e)"

definition cv_abi :: "('t \<Rightarrow> bool total) \<Rightarrow> 't AbiType \<Rightarrow> bool total" where
  "cv_abi r a = any_out (\<lambda>m. cv_function r (method_ty m)) (abi_methods a)"

definition cv_utxo :: "('t \<Rightarrow> bool total) \<Rightarrow> 't UtxoType \<Rightarrow> bool total" where
  "cv_utxo r u = any_out (cv_abi r) (possible_abis u)"

definition cv_token :: "('t \<Rightarrow> bool total) \<Rightarrow> 't TokenType \<Rightarrow> bool total" where
  "cv_token r t = Ok False"

fun contains_var :: "nat \<Rightarrow> TypeVarId \<Rightarrow> subst \<Rightarrow> Type \<Rightarrow> bool total" where
  "contains_var 0 var s ty = Panic"
| "contains_var (Suc n) var s ty =
     (let r = contains_var n var s in
      case ty of
        TVar i \<Rightarrow> if i = var then Ok True else (case s i of None \<Rightarrow> Ok False | Some t \<Rightarrow> r t)
      | TTuple items \<Rightarrow> any_out r items
      | TFunction f \<Rightarrow> cv_function r f
      | TRecord rt \<Rightarrow> cv_record r rt
      | TEnum e \<Rightarrow> cv_enum r e
      | TUtxo u \<Rightarrow> cv_utxo r u
      | TToken t \<Rightarrow> cv_token r t
      | TAbi a \<Rightarrow> cv_abi r a
      | _ \<Rightarrow> Ok False)"

section \<open>collect\_free\_type\_vars\<close>

text \<open>The structs here hold the sets of their types.\<close>

definition fv_function :: "'v set FunctionType \<Rightarrow> 'v set" where
  "fv_function f = \<Union> (set (map param_ty (fn_params f))) \<union> fn_result f"

definition fv_record :: "'v set RecordType \<Rightarrow> 'v set" where
  "fv_record rt = \<Union> (set (map field_ty (record_fields rt)))"

fun fv_kind :: "'v set EnumVariantKind \<Rightarrow> 'v set" where
  "fv_kind EV_Unit = {}"
| "fv_kind (EV_Tuple items) = \<Union> (set items)"
| "fv_kind (EV_Struct fds) = \<Union> (set (map field_ty fds))"

definition fv_enum :: "'v set EnumType \<Rightarrow> 'v set" where
  "fv_enum e = \<Union> (set (map (\<lambda>v. fv_kind (variant_kind v)) (enum_variants e)))"

definition fv_abi :: "'v set AbiType \<Rightarrow> 'v set" where
  "fv_abi a = \<Union> (set (map (\<lambda>m. fv_function (method_ty m)) (abi_methods a)))"

definition fv_utxo :: "'v set UtxoType \<Rightarrow> 'v set" where
  "fv_utxo u = \<Union> (set (map fv_abi (possible_abis u)))"

primrec free_type_vars :: "Type \<Rightarrow> TypeVarId set" where
  "free_type_vars (TVar i) = {i}"
| "free_type_vars (TTuple items) = \<Union> (set (map free_type_vars items))"
| "free_type_vars (TFunction f) = fv_function (map_FunctionType free_type_vars f)"
| "free_type_vars (TRecord rt) = fv_record (map_RecordType free_type_vars rt)"
| "free_type_vars (TEnum e) = fv_enum (map_EnumType free_type_vars e)"
| "free_type_vars (TUtxo u) = fv_utxo (map_UtxoType free_type_vars u)"
| "free_type_vars (TToken t) = {}"
| "free_type_vars (TAbi a) = fv_abi (map_AbiType free_type_vars a)"
| "free_type_vars TUnit = {}"
| "free_type_vars TBool = {}"
| "free_type_vars (TInt w) = {}"
| "free_type_vars TUtxoAny = {}"
| "free_type_vars TTokenAny = {}"

section \<open>substitute\_type\<close>

definition sub_vec :: "('t \<Rightarrow> 't Cow total) \<Rightarrow> 't list \<Rightarrow> 't list Cow total" where
  "sub_vec r xs =
     andthen (map_out r xs) (\<lambda>children.
     Ok (if list_all is_borrowed children then Borrowed xs else Owned (map into_owned children)))"

definition sub_param :: "('t \<Rightarrow> 't Cow total) \<Rightarrow> 't TypedFunctionParam \<Rightarrow> 't TypedFunctionParam Cow total" where
  "sub_param r p =
     rewrap p (\<lambda>ty. TypedFunctionParam (param_public p) (param_name p) ty (param_ty_span p)) (r (param_ty p))"

definition sub_function :: "('t \<Rightarrow> 't Cow total) \<Rightarrow> 't FunctionType \<Rightarrow> 't FunctionType Cow total" where
  "sub_function r f =
     andthen (sub_vec (sub_param r) (fn_params f)) (\<lambda>params.
     andthen (r (fn_result f)) (\<lambda>result.
     Ok (if is_borrowed params \<and> is_borrowed result then Borrowed f
         else Owned (FunctionType (fn_kind f) (fn_name_span f) (into_owned params) (into_owned result) (fn_callee f)))))"

definition sub_field :: "('t \<Rightarrow> 't Cow total) \<Rightarrow> 't RecordFieldType \<Rightarrow> 't RecordFieldType Cow total" where
  "sub_field r fd = rewrap fd (RecordFieldType (field_name fd)) (r (field_ty fd))"

definition sub_record :: "('t \<Rightarrow> 't Cow total) \<Rightarrow> 't RecordType \<Rightarrow> 't RecordType Cow total" where
  "sub_record r rt = rewrap rt (RecordType (record_name rt)) (sub_vec (sub_field r) (record_fields rt))"

fun sub_kind :: "('t \<Rightarrow> 't Cow total) \<Rightarrow> 't EnumVariantKind \<Rightarrow> 't EnumVariantKind Cow total" where
  "sub_kind r EV_Unit = Ok (Borrowed EV_Unit)"
| "sub_kind r (EV_Tuple items) = rewrap (EV_Tuple items) EV_Tuple (sub_vec r items)"
| "sub_kind r (EV_Struct fds) = rewrap (EV_Struct fds) EV_Struct (sub_vec (sub_field r) fds)"

definition sub_variant :: "('t \<Rightarrow> 't Cow total) \<Rightarrow> 't EnumVariantType \<Rightarrow> 't EnumVariantType Cow total" where
  "sub_variant r v = rewrap v (EnumVariantType (variant_name v)) (sub_kind r (variant_kind v))"

definition sub_enum :: "('t \<Rightarrow> 't Cow total) \<Rightarrow> 't EnumType \<Rightarrow> 't EnumType Cow total" where
  "sub_enum r e =
     andthen (sub_vec (sub_variant r) (enum_variants e)) (\<lambda>variants.
     andthen (sub_vec r (enum_type_args e)) (\<lambda>type_args.
     Ok (if is_borrowed variants \<and> is_borrowed type_args then Borrowed e
         else Owned (EnumType (enum_name e) (into_owned variants) (into_owned type_args)))))"

definition sub_method :: "('t \<Rightarrow> 't Cow total) \<Rightarrow> 't TypedAbiMethodDecl \<Rightarrow> 't TypedAbiMethodDecl Cow total" where
  "sub_method r m = rewrap m (TypedAbiMethodDecl (method_name m) (method_id m)) (sub_function r (method_ty m))"

definition sub_abi :: "('t \<Rightarrow> 't Cow total) \<Rightarrow> 't AbiType \<Rightarrow> 't AbiType Cow total" where
  "sub_abi r a = rewrap a (AbiType (abi_name a)) (sub_vec (sub_method r) (abi_methods a))"

definition sub_utxo :: "('t \<Rightarrow> 't Cow total) \<Rightarrow> 't UtxoType \<Rightarrow> 't UtxoType Cow total" where
  "sub_utxo r u =
     andthen (sub_vec (sub_abi r) (possible_abis u)) (\<lambda>possible. case possible of
       Borrowed _ \<Rightarrow> Ok (Borrowed u)
     | Owned abis \<Rightarrow>
         andthen (sub_vec (sub_abi r) (always_abis u)) (\<lambda>always.
         Ok (Owned (UtxoType (utxo_name u) (utxo_id u) abis (into_owned always)))))"

definition sub_token :: "('t \<Rightarrow> 't Cow total) \<Rightarrow> 't TokenType \<Rightarrow> 't TokenType Cow total" where
  "sub_token r t = Ok (Borrowed t)"

fun substitute_type :: "nat \<Rightarrow> subst \<Rightarrow> TypeVarId set \<Rightarrow> Type \<Rightarrow> Type Cow total" where
  "substitute_type 0 s int_vars ty = Panic"
| "substitute_type (Suc n) s int_vars ty =
     (let r = substitute_type n s int_vars in
      case ty of
        TVar i \<Rightarrow> (case s i of
            Some t \<Rightarrow> andthen (r t) (\<lambda>c. Ok (Owned (into_owned c)))
          | None \<Rightarrow> Ok (if i \<in> int_vars then Owned Type_int else Borrowed ty))
      | TFunction f \<Rightarrow> rewrap ty TFunction (sub_function r f)
      | TTuple items \<Rightarrow> rewrap ty TTuple (sub_vec r items)
      | TRecord rt \<Rightarrow> rewrap ty TRecord (sub_record r rt)
      | TEnum e \<Rightarrow> rewrap ty TEnum (sub_enum r e)
      | TUtxo u \<Rightarrow> rewrap ty TUtxo (sub_utxo r u)
      | TToken t \<Rightarrow> rewrap ty TToken (sub_token r t)
      | TAbi a \<Rightarrow> rewrap ty TAbi (sub_abi r a)
      | _ \<Rightarrow> Ok (Borrowed ty))"

section \<open>substitute\_in\_place\<close>

definition sip_param :: "('t \<Rightarrow> 't total) \<Rightarrow> 't TypedFunctionParam \<Rightarrow> 't TypedFunctionParam total" where
  "sip_param r p =
     andthen (r (param_ty p)) (\<lambda>ty. Ok (TypedFunctionParam (param_public p) (param_name p) ty (param_ty_span p)))"

definition sip_function :: "('t \<Rightarrow> 't total) \<Rightarrow> 't FunctionType \<Rightarrow> 't FunctionType total" where
  "sip_function r f =
     andthen (map_out (sip_param r) (fn_params f)) (\<lambda>params.
     andthen (r (fn_result f)) (\<lambda>result.
     Ok (FunctionType (fn_kind f) (fn_name_span f) params result (fn_callee f))))"

definition sip_field :: "('t \<Rightarrow> 't total) \<Rightarrow> 't RecordFieldType \<Rightarrow> 't RecordFieldType total" where
  "sip_field r fd = andthen (r (field_ty fd)) (\<lambda>ty. Ok (RecordFieldType (field_name fd) ty))"

definition sip_record :: "('t \<Rightarrow> 't total) \<Rightarrow> 't RecordType \<Rightarrow> 't RecordType total" where
  "sip_record r rt = andthen (map_out (sip_field r) (record_fields rt)) (\<lambda>fds. Ok (RecordType (record_name rt) fds))"

fun sip_kind :: "('t \<Rightarrow> 't total) \<Rightarrow> 't EnumVariantKind \<Rightarrow> 't EnumVariantKind total" where
  "sip_kind r EV_Unit = Ok EV_Unit"
| "sip_kind r (EV_Tuple items) = andthen (map_out r items) (\<lambda>items. Ok (EV_Tuple items))"
| "sip_kind r (EV_Struct fds) = andthen (map_out (sip_field r) fds) (\<lambda>fds. Ok (EV_Struct fds))"

definition sip_variant :: "('t \<Rightarrow> 't total) \<Rightarrow> 't EnumVariantType \<Rightarrow> 't EnumVariantType total" where
  "sip_variant r v = andthen (sip_kind r (variant_kind v)) (\<lambda>kind. Ok (EnumVariantType (variant_name v) kind))"

definition sip_enum :: "('t \<Rightarrow> 't total) \<Rightarrow> 't EnumType \<Rightarrow> 't EnumType total" where
  "sip_enum r e =
     andthen (map_out (sip_variant r) (enum_variants e)) (\<lambda>variants.
     andthen (map_out r (enum_type_args e)) (\<lambda>type_args.
     Ok (EnumType (enum_name e) variants type_args)))"

text \<open>\<^verbatim>\<open>substitute_in_place\<close> of \<^verbatim>\<open>Arc<T>\<close>: in place when the allocation is unique, by reference otherwise.\<close>

definition sip_arc :: "bool \<Rightarrow> 'a total \<Rightarrow> 'a Cow total \<Rightarrow> 'a total" where
  "sip_arc uniq in_place by_ref = (if uniq then in_place else andthen by_ref (\<lambda>c. Ok (into_owned c)))"

definition sip_method ::
  "(Type \<Rightarrow> bool) \<Rightarrow> (Type \<Rightarrow> Type total) \<Rightarrow> (Type \<Rightarrow> Type Cow total) \<Rightarrow> Type TypedAbiMethodDecl
    \<Rightarrow> Type TypedAbiMethodDecl total" where
  "sip_method unique r b m =
     andthen (sip_arc (unique (TFunction (method_ty m))) (sip_function r (method_ty m)) (sub_function b (method_ty m)))
       (\<lambda>ty. Ok (TypedAbiMethodDecl (method_name m) (method_id m) ty))"

definition sip_abi ::
  "(Type \<Rightarrow> bool) \<Rightarrow> (Type \<Rightarrow> Type total) \<Rightarrow> (Type \<Rightarrow> Type Cow total) \<Rightarrow> Type AbiType \<Rightarrow> Type AbiType total" where
  "sip_abi unique r b a =
     andthen (map_out (sip_method unique r b) (abi_methods a)) (\<lambda>ms. Ok (AbiType (abi_name a) ms))"

definition sip_utxo ::
  "(Type \<Rightarrow> bool) \<Rightarrow> (Type \<Rightarrow> Type total) \<Rightarrow> (Type \<Rightarrow> Type Cow total) \<Rightarrow> Type UtxoType \<Rightarrow> Type UtxoType total" where
  "sip_utxo unique r b u =
     (let abis = map_out (\<lambda>a. sip_arc (unique (TAbi a)) (sip_abi unique r b a) (sub_abi b a)) in
     andthen (abis (possible_abis u)) (\<lambda>possible.
     andthen (abis (always_abis u)) (\<lambda>always.
     Ok (UtxoType (utxo_name u) (utxo_id u) possible always))))"

definition sip_token :: "('t \<Rightarrow> 't total) \<Rightarrow> 't TokenType \<Rightarrow> 't TokenType total" where
  "sip_token r t = Ok t"

fun substitute_in_place ::
  "(Type \<Rightarrow> bool) \<Rightarrow> nat \<Rightarrow> subst \<Rightarrow> TypeVarId set \<Rightarrow> Type \<Rightarrow> Type total" where
  "substitute_in_place unique 0 s int_vars ty = Panic"
| "substitute_in_place unique (Suc n) s int_vars ty =
     (let r = substitute_in_place unique n s int_vars; b = substitute_type n s int_vars in
      case ty of
        TVar i \<Rightarrow> (case s i of
            Some t \<Rightarrow> andthen (b t) (\<lambda>c. Ok (into_owned c))
          | None \<Rightarrow> Ok (if i \<in> int_vars then Type_int else ty))
      | TFunction f \<Rightarrow> andthen (sip_arc (unique ty) (sip_function r f) (sub_function b f)) (\<lambda>f. Ok (TFunction f))
      | TTuple items \<Rightarrow> andthen (sip_arc (unique ty) (map_out r items) (sub_vec b items)) (\<lambda>items. Ok (TTuple items))
      | TRecord rt \<Rightarrow> andthen (sip_arc (unique ty) (sip_record r rt) (sub_record b rt)) (\<lambda>rt. Ok (TRecord rt))
      | TEnum e \<Rightarrow> andthen (sip_arc (unique ty) (sip_enum r e) (sub_enum b e)) (\<lambda>e. Ok (TEnum e))
      | TUtxo u \<Rightarrow> andthen (sip_arc (unique ty) (sip_utxo unique r b u) (sub_utxo b u)) (\<lambda>u. Ok (TUtxo u))
      | TToken t \<Rightarrow> andthen (sip_arc (unique ty) (sip_token r t) (sub_token b t)) (\<lambda>t. Ok (TToken t))
      | TAbi a \<Rightarrow> andthen (sip_arc (unique ty) (sip_abi unique r b a) (sub_abi b a)) (\<lambda>a. Ok (TAbi a))
      | _ \<Rightarrow> Ok ty)"

end
