(* ===== verification/Unify.thy ===== *)
theory Unify
  imports Types_Subst Type_Errors Lang_Patterns
begin

text \<open>
  Unification of the type checker (\<^verbatim>\<open>typecheck/infer.rs\<close>): the part of \<^verbatim>\<open>Inferencer\<close> that holds type
  variables and the methods that solve, resolve, generalize and default them. As in \<open>Types_Subst\<close> every
  method takes the stack depth \<open>n\<close>. The inference trace a method returns beside its result is not
  modelled; an error carries no state, since the checker fails on it.

  Two things are parameters: whether two types share their allocation (\<^verbatim>\<open>Arc::as_ptr\<close>), and the printer
  of types, which the source builds on the external crate \<^verbatim>\<open>pretty\<close>.
\<close>

record Host =
  same_arc :: "Type \<Rightarrow> Type \<Rightarrow> bool"
  compact_display :: "Type \<Rightarrow> string"

record Inferencer =
  next_type_var :: TypeVarId
  solution :: subst
  int_vars :: "TypeVarId set"
  int_literal_values :: "TypeVarId \<rightharpoonup> IntegerLiteral \<times> Span"

section \<open>Resolving\<close>

definition apply_for_display :: "nat \<Rightarrow> Inferencer \<Rightarrow> Type \<Rightarrow> Type total" where
  "apply_for_display n s ty = own (substitute_type n (solution s) (int_vars s)) ty"

definition apply_subst :: "nat \<Rightarrow> Inferencer \<Rightarrow> Type \<Rightarrow> Type total" where
  "apply_subst n s ty = own (substitute_type n (solution s) {}) ty"

definition format_type :: "Host \<Rightarrow> nat \<Rightarrow> Inferencer \<Rightarrow> Type \<Rightarrow> string total" where
  "format_type h n s ty = andthen (apply_for_display n s ty) (\<lambda>t. Ok (compact_display h t))"

section \<open>Fresh variables, schemes\<close>

definition fresh_var_id :: "Inferencer \<Rightarrow> (TypeVarId \<times> Inferencer) total" where
  "fresh_var_id s =
     andthen (TypeVarId_fresh (next_type_var s)) (\<lambda>(v, nxt). Ok (v, s\<lparr>next_type_var := nxt\<rparr>))"

definition fresh_var :: "Inferencer \<Rightarrow> (Type \<times> Inferencer) total" where
  "fresh_var s = andthen (fresh_var_id s) (\<lambda>(v, s). Ok (TVar v, s))"

definition fresh_int_var :: "Inferencer \<Rightarrow> (Type \<times> Inferencer) total" where
  "fresh_int_var s =
     andthen (fresh_var_id s) (\<lambda>(v, s). Ok (TVar v, s\<lparr>int_vars := insert v (int_vars s)\<rparr>))"

text \<open>The arm \<^verbatim>\<open>Expr::Literal(Literal::Integer(value))\<close> of \<^verbatim>\<open>infer_expr\<close>.\<close>

definition infer_int_literal :: "IntegerLiteral \<Rightarrow> Span \<Rightarrow> Inferencer \<Rightarrow> (Type \<times> Inferencer) total" where
  "infer_int_literal literal span s =
     andthen (fresh_int_var s) (\<lambda>(ty, s).
     Ok (ty, case ty of
         TVar v \<Rightarrow> s\<lparr>int_literal_values := (int_literal_values s)(v \<mapsto> (literal, span))\<rparr>
       | _ \<Rightarrow> s))"

definition free_type_vars_scheme :: "Scheme \<Rightarrow> TypeVarId set" where
  "free_type_vars_scheme sc = free_type_vars (scheme_ty sc) - set (scheme_vars sc)"

text \<open>The scopes of the environment, each as the schemes of its bindings.\<close>

definition env_free_type_vars :: "Scheme list list \<Rightarrow> TypeVarId set" where
  "env_free_type_vars scopes = \<Union> (free_type_vars_scheme ` set (concat scopes))"

text \<open>\<^verbatim>\<open>derive(PartialOrd, Ord)\<close> on \<^verbatim>\<open>TypeVarId\<close>.\<close>

fun TypeVarId_index :: "TypeVarId \<Rightarrow> u32" where
  "TypeVarId_index (TypeVarId i) = i"

instantiation TypeVarId :: linorder
begin

definition less_eq_TypeVarId :: "TypeVarId \<Rightarrow> TypeVarId \<Rightarrow> bool" where
  "less_eq_TypeVarId v w = (TypeVarId_index v \<le> TypeVarId_index w)"

definition less_TypeVarId :: "TypeVarId \<Rightarrow> TypeVarId \<Rightarrow> bool" where
  "less_TypeVarId v w = (TypeVarId_index v < TypeVarId_index w)"

instance
proof
  fix v w x :: TypeVarId
  show "v < w \<longleftrightarrow> v \<le> w \<and> \<not> w \<le> v" by (auto simp: less_TypeVarId_def less_eq_TypeVarId_def)
  show "v \<le> v" by (simp add: less_eq_TypeVarId_def)
  show "v \<le> w \<Longrightarrow> w \<le> x \<Longrightarrow> v \<le> x" by (simp add: less_eq_TypeVarId_def)
  show "v \<le> w \<Longrightarrow> w \<le> v \<Longrightarrow> v = w" by (cases v; cases w) (simp add: less_eq_TypeVarId_def)
  show "v \<le> w \<or> w \<le> v" by (auto simp: less_eq_TypeVarId_def)
qed

end

definition generalize :: "nat \<Rightarrow> Inferencer \<Rightarrow> Scheme list list \<Rightarrow> Type \<Rightarrow> Scheme total" where
  "generalize n s scopes ty =
     andthen (apply_subst n s ty) (\<lambda>applied.
     let quantified = {v \<in> free_type_vars applied. v \<notin> env_free_type_vars scopes \<and> v \<notin> int_vars s}
     in Ok \<lparr>scheme_vars = sorted_list_of_set quantified, scheme_ty = applied\<rparr>)"

definition instantiate :: "nat \<Rightarrow> Inferencer \<Rightarrow> Scheme \<Rightarrow> (Type \<times> Inferencer) total" where
  "instantiate n s scheme =
     andthen (fold_out (\<lambda>v (mapping, s).
         andthen (fresh_var s) (\<lambda>(t, s). Ok (mapping(v \<mapsto> t), s))) (scheme_vars scheme) (Map.empty, s))
       (\<lambda>(mapping, s).
     andthen (own (substitute_type n mapping {}) (scheme_ty scheme)) (\<lambda>ty. Ok (ty, s)))"

section \<open>Binding\<close>

text \<open>The check shared by \<^verbatim>\<open>bind\<close> and \<^verbatim>\<open>unify_inner\<close>: an int-constrained variable takes an int type, or hands
  the constraint and its literal on to another variable.\<close>

definition constrain :: "'e \<Rightarrow> Inferencer \<Rightarrow> TypeVarId \<Rightarrow> Type \<Rightarrow> ('e, Inferencer) outcome" where
  "constrain failure s var ty =
     (if var \<in> int_vars s then
        (case ty of
           TInt w \<Rightarrow> Ok s
         | TVar other \<Rightarrow>
             let s = s\<lparr>int_vars := insert other (int_vars s)\<rparr>
             in Ok (case int_literal_values s var of
                      None \<Rightarrow> s
                    | Some val \<Rightarrow>
                        if int_literal_values s other = None
                        then s\<lparr>int_literal_values := (int_literal_values s)(other \<mapsto> val)\<rparr> else s)
         | _ \<Rightarrow> Err failure)
      else Ok s)"

definition insert_subst :: "TypeVarId \<Rightarrow> Type \<Rightarrow> Inferencer \<Rightarrow> Inferencer" where
  "insert_subst var ty s = s\<lparr>solution := (solution s)(var \<mapsto> ty)\<rparr>"

definition bind ::
  "nat \<Rightarrow> Inferencer \<Rightarrow> TypeVarId \<Rightarrow> Type \<Rightarrow> Span \<Rightarrow> Span \<Rightarrow> TypeErrorKind \<Rightarrow> (TypeError, Inferencer) outcome" where
  "bind n s var ty var_span other_span kind =
     (if ty = TVar var then Ok s
      else
        andthen (lift (contains_var n var (solution s) ty)) (\<lambda>occurs.
        if occurs then
          Err (with_secondary (TypeError_new kind var_span) other_span ''would create an infinite type'')
        else
          andthen (constrain (with_secondary (TypeError_new kind var_span) other_span ''expected an integer type'')
              s var ty) (\<lambda>s.
          Ok (insert_subst var ty s))))"

section \<open>unify\<close>

type_synonym unifier =
  "Inferencer \<Rightarrow> Type \<Rightarrow> Type \<Rightarrow> Span \<Rightarrow> Span \<Rightarrow> TypeErrorKind \<Rightarrow> (TypeError, Inferencer \<times> Type) outcome"

text \<open>\<^verbatim>\<open>for (l, r) in ls.iter().zip(rs) { self.unify(l, r, ..)?; }\<close>\<close>

definition unify_pairs ::
  "unifier \<Rightarrow> Span \<Rightarrow> Span \<Rightarrow> Inferencer \<Rightarrow> Type list \<Rightarrow> Type list \<Rightarrow> (TypeError, Inferencer) outcome" where
  "unify_pairs u left_span right_span s ls rs =
     fold_out (\<lambda>(l, r) s. andthen (u s l r left_span right_span (GeneralMismatch l r)) (\<lambda>(s, _). Ok s)) (zip ls rs) s"

definition unified_function :: "Type FunctionType \<Rightarrow> Type FunctionType \<Rightarrow> Type" where
  "unified_function left right =
     TFunction (FunctionType (fn_kind left) (fn_name_span left) (fn_params left) (fn_result left)
       (if fn_callee left = fn_callee right then fn_callee left else None))"

definition same_names :: "Type RecordFieldType list \<Rightarrow> Type RecordFieldType list \<Rightarrow> bool" where
  "same_names ls rs = (\<not> list_ex (\<lambda>(l, r). id_name (field_name l) \<noteq> id_name (field_name r)) (zip ls rs))"

definition unify_functions ::
  "unifier \<Rightarrow> Inferencer \<Rightarrow> Type FunctionType \<Rightarrow> Type FunctionType \<Rightarrow> Span \<Rightarrow> Span \<Rightarrow> TypeErrorKind
    \<Rightarrow> (TypeError, Inferencer \<times> Type) outcome" where
  "unify_functions u s left right left_span right_span kind =
     (if length (fn_params left) \<noteq> length (fn_params right) then
        Err (with_secondary (TypeError_new kind left_span) right_span ''function arity mismatch'')
      else if fn_kind left \<noteq> fn_kind right then
        Err (with_secondary (TypeError_new kind left_span) right_span ''function kind mismatch'')
      else
        andthen (unify_pairs u left_span right_span s
            (map param_ty (fn_params left)) (map param_ty (fn_params right))) (\<lambda>s.
        andthen (u s (fn_result left) (fn_result right) left_span right_span
            (GeneralMismatch (fn_result left) (fn_result right))) (\<lambda>(s, _).
        Ok (s, unified_function left right))))"

definition unify_tuples ::
  "unifier \<Rightarrow> Inferencer \<Rightarrow> Type list \<Rightarrow> Type list \<Rightarrow> Span \<Rightarrow> Span \<Rightarrow> TypeErrorKind
    \<Rightarrow> (TypeError, Inferencer \<times> Type) outcome" where
  "unify_tuples u s ls rs left_span right_span kind =
     (if length ls \<noteq> length rs then
        Err (with_secondary (TypeError_new kind left_span) right_span ''type mismatch'')
      else andthen (unify_pairs u left_span right_span s ls rs) (\<lambda>s. Ok (s, TTuple ls)))"

definition unify_records ::
  "unifier \<Rightarrow> Inferencer \<Rightarrow> Type RecordType \<Rightarrow> Type RecordType \<Rightarrow> Span \<Rightarrow> Span \<Rightarrow> TypeErrorKind
    \<Rightarrow> (TypeError, Inferencer \<times> Type) outcome" where
  "unify_records u s ls rs left_span right_span kind =
     (if length (record_fields ls) \<noteq> length (record_fields rs)
         \<or> \<not> same_names (record_fields ls) (record_fields rs) then
        Err (with_secondary (TypeError_new kind left_span) right_span ''struct field mismatch'')
      else
        andthen (unify_pairs u left_span right_span s
            (map field_ty (record_fields ls)) (map field_ty (record_fields rs))) (\<lambda>s.
        Ok (s, TRecord ls)))"

text \<open>One pair of variants of \<^verbatim>\<open>Type::Enum\<close>.\<close>

definition unify_variant ::
  "unifier \<Rightarrow> Span \<Rightarrow> Span \<Rightarrow> TypeErrorKind \<Rightarrow> Type EnumVariantType \<times> Type EnumVariantType \<Rightarrow> Inferencer
    \<Rightarrow> (TypeError, Inferencer) outcome" where
  "unify_variant u left_span right_span kind = (\<lambda>(left, right) s.
     let mismatch = Err (with_secondary (TypeError_new kind left_span) right_span ''enum payload mismatch'') in
     (case (variant_kind left, variant_kind right) of
        (EV_Unit, EV_Unit) \<Rightarrow> Ok s
      | (EV_Tuple ls, EV_Tuple rs) \<Rightarrow>
          if length ls \<noteq> length rs then mismatch else unify_pairs u left_span right_span s ls rs
      | (EV_Struct ls, EV_Struct rs) \<Rightarrow>
          if length ls \<noteq> length rs \<or> \<not> same_names ls rs then mismatch
          else unify_pairs u left_span right_span s (map field_ty ls) (map field_ty rs)
      | _ \<Rightarrow> mismatch))"

definition unify_enums ::
  "unifier \<Rightarrow> Inferencer \<Rightarrow> Type EnumType \<Rightarrow> Type EnumType \<Rightarrow> Span \<Rightarrow> Span \<Rightarrow> TypeErrorKind
    \<Rightarrow> (TypeError, Inferencer \<times> Type) outcome" where
  "unify_enums u s ls rs left_span right_span kind =
     (if length (enum_variants ls) \<noteq> length (enum_variants rs)
         \<or> list_ex (\<lambda>(l, r). \<not> ident_eq (variant_name l) (variant_name r)) (zip (enum_variants ls) (enum_variants rs)) then
        Err (with_secondary (TypeError_new kind left_span) right_span ''enum variant mismatch'')
      else
        andthen (fold_out (unify_variant u left_span right_span kind)
            (zip (enum_variants ls) (enum_variants rs)) s) (\<lambda>s.
        Ok (s, TEnum ls)))"

text \<open>The last three arms: a variable on either side, and the mismatch.\<close>

definition unify_rest ::
  "Host \<Rightarrow> nat \<Rightarrow> Inferencer \<Rightarrow> Type \<Rightarrow> Type \<Rightarrow> Span \<Rightarrow> Span \<Rightarrow> TypeErrorKind
    \<Rightarrow> (TypeError, Inferencer \<times> Type) outcome" where
  "unify_rest h n s left right left_span right_span kind =
     (case left of
        TVar v \<Rightarrow> andthen (bind n s v right left_span right_span kind) (\<lambda>s. Ok (s, right))
      | _ \<Rightarrow> (case right of
          TVar v \<Rightarrow> andthen (bind n s v left right_span left_span kind) (\<lambda>s. Ok (s, left))
        | _ \<Rightarrow>
            let err = TypeError_new kind left_span in
            if left_span \<noteq> right_span then
              andthen (lift (format_type h n s left)) (\<lambda>left_repr.
              andthen (lift (format_type h n s right)) (\<lambda>right_repr.
              Err (with_secondary (with_primary_message err (''has type `'' @ left_repr @ ''`''))
                right_span (''has type `'' @ right_repr @ ''`''))))
            else Err err))"

text \<open>The body of \<^verbatim>\<open>unify\<close>, its recursive calls through \<open>u\<close>: the match on the resolved types, and the
  method.\<close>

definition unify_resolved :: "Host \<Rightarrow> nat \<Rightarrow> unifier \<Rightarrow> unifier" where
  "unify_resolved h n u s left right left_span right_span kind =
     (let rest = unify_rest h n s left right left_span right_span kind in
     (case left of
        TUnit \<Rightarrow> if right = TUnit then Ok (s, TUnit) else rest
      | TBool \<Rightarrow> if right = TBool then Ok (s, TBool) else rest
      | TInt w1 \<Rightarrow> if right = TInt w1 then Ok (s, TInt w1) else rest
      | TFunction l \<Rightarrow> (case right of
          TFunction r \<Rightarrow>
            if same_arc h left right then Ok (s, left)
            else unify_functions u s l r left_span right_span kind
        | _ \<Rightarrow> rest)
      | TTuple l \<Rightarrow> (case right of
          TTuple r \<Rightarrow>
            if same_arc h left right then Ok (s, left) else unify_tuples u s l r left_span right_span kind
        | _ \<Rightarrow> rest)
      | TRecord l \<Rightarrow> (case right of
          TRecord r \<Rightarrow>
            if same_arc h left right then Ok (s, left) else unify_records u s l r left_span right_span kind
        | _ \<Rightarrow> rest)
      | TEnum l \<Rightarrow> (case right of
          TEnum r \<Rightarrow>
            if same_arc h left right then Ok (s, left) else unify_enums u s l r left_span right_span kind
        | _ \<Rightarrow> rest)
      | TUtxoAny \<Rightarrow> if right = TUtxoAny then Ok (s, TUtxoAny) else rest
      | TUtxo l \<Rightarrow> (case right of TUtxo r \<Rightarrow> if same_arc h left right then Ok (s, left) else rest | _ \<Rightarrow> rest)
      | TTokenAny \<Rightarrow> if right = TTokenAny then Ok (s, TTokenAny) else rest
      | TToken l \<Rightarrow> (case right of TToken r \<Rightarrow> if same_arc h left right then Ok (s, left) else rest | _ \<Rightarrow> rest)
      | TAbi l \<Rightarrow> (case right of TAbi r \<Rightarrow> if same_arc h left right then Ok (s, left) else rest | _ \<Rightarrow> rest)
      | TVar v \<Rightarrow> rest))"

definition unify_step :: "Host \<Rightarrow> nat \<Rightarrow> unifier \<Rightarrow> unifier" where
  "unify_step h n u s left right left_span right_span kind =
     andthen (lift (apply_subst n s left)) (\<lambda>left.
     andthen (lift (apply_subst n s right)) (\<lambda>right.
     unify_resolved h n u s left right left_span right_span kind))"

fun unify :: "nat \<Rightarrow> Host \<Rightarrow> unifier" where
  "unify 0 h = (\<lambda>_ _ _ _ _ _. Panic)"
| "unify (Suc n) h = unify_step h n (unify n h)"

section \<open>unify\_inner\<close>

type_synonym inner = "Inferencer \<Rightarrow> Type \<Rightarrow> Type \<Rightarrow> (Inferencer \<times> Type) total"

definition inner_pair :: "inner \<Rightarrow> Type \<times> Type \<Rightarrow> Inferencer \<Rightarrow> Inferencer total" where
  "inner_pair u = (\<lambda>(l, r) s. andthen (u s l r) (\<lambda>(s, _). Ok s))"

text \<open>Fields one by one: a name that differs stops the loop.\<close>

definition inner_field ::
  "inner \<Rightarrow> Type RecordFieldType \<times> Type RecordFieldType \<Rightarrow> Inferencer \<Rightarrow> Inferencer total" where
  "inner_field u = (\<lambda>(l, r) s.
     if id_name (field_name l) \<noteq> id_name (field_name r) then Err ()
     else inner_pair u (field_ty l, field_ty r) s)"

definition inner_variant ::
  "inner \<Rightarrow> Type EnumVariantType \<times> Type EnumVariantType \<Rightarrow> Inferencer \<Rightarrow> Inferencer total" where
  "inner_variant u = (\<lambda>(lv, rv) s.
     if \<not> ident_eq (variant_name lv) (variant_name rv) then Err ()
     else (case (variant_kind lv, variant_kind rv) of
        (EV_Unit, EV_Unit) \<Rightarrow> Ok s
      | (EV_Tuple lt, EV_Tuple rt) \<Rightarrow>
          if length lt = length rt then fold_out (inner_pair u) (zip lt rt) s else Err ()
      | (EV_Struct lf, EV_Struct rf) \<Rightarrow>
          if length lf = length rf then fold_out (inner_field u) (zip lf rf) s else Err ()
      | _ \<Rightarrow> Err ()))"

definition inner_bind :: "nat \<Rightarrow> Inferencer \<Rightarrow> TypeVarId \<Rightarrow> Type \<Rightarrow> (Inferencer \<times> Type) total" where
  "inner_bind n s v ty =
     andthen (contains_var n v (solution s) ty) (\<lambda>occurs.
     if occurs then Err ()
     else andthen (constrain () s v ty) (\<lambda>s. Ok (insert_subst v ty s, ty)))"

definition inner_rest :: "nat \<Rightarrow> Inferencer \<Rightarrow> Type \<Rightarrow> Type \<Rightarrow> (Inferencer \<times> Type) total" where
  "inner_rest n s left right =
     (case left of
        TVar v \<Rightarrow> if right = TVar v then Ok (s, left) else inner_bind n s v right
      | _ \<Rightarrow> (case right of TVar v \<Rightarrow> inner_bind n s v left | _ \<Rightarrow> Err ()))"

definition inner_step :: "Host \<Rightarrow> nat \<Rightarrow> inner \<Rightarrow> inner" where
  "inner_step h n u s left right =
     (let rest = inner_rest n s left right in
     (case left of
        TUnit \<Rightarrow> if right = TUnit then Ok (s, TUnit) else rest
      | TBool \<Rightarrow> if right = TBool then Ok (s, TBool) else rest
      | TInt w1 \<Rightarrow> if right = TInt w1 then Ok (s, TInt w1) else rest
      | TFunction l \<Rightarrow> (case right of
          TFunction r \<Rightarrow>
            if same_arc h left right then Ok (s, left)
            else if length (fn_params l) = length (fn_params r) \<and> fn_kind l = fn_kind r then
              andthen (fold_out (inner_pair u) (zip (map param_ty (fn_params l)) (map param_ty (fn_params r))) s) (\<lambda>s.
              andthen (u s (fn_result l) (fn_result r)) (\<lambda>(s, _). Ok (s, unified_function l r)))
            else rest
        | _ \<Rightarrow> rest)
      | TTuple l \<Rightarrow> (case right of
          TTuple r \<Rightarrow>
            if same_arc h left right then Ok (s, left)
            else if length l = length r then andthen (fold_out (inner_pair u) (zip l r) s) (\<lambda>s. Ok (s, TTuple l))
            else rest
        | _ \<Rightarrow> rest)
      | TRecord l \<Rightarrow> (case right of
          TRecord r \<Rightarrow>
            if same_arc h left right then Ok (s, left)
            else if length (record_fields l) = length (record_fields r) then
              andthen (fold_out (inner_field u) (zip (record_fields l) (record_fields r)) s) (\<lambda>s. Ok (s, TRecord l))
            else rest
        | _ \<Rightarrow> rest)
      | TEnum l \<Rightarrow> (case right of
          TEnum r \<Rightarrow>
            if same_arc h left right then Ok (s, left)
            else if length (enum_variants l) = length (enum_variants r) then
              andthen (fold_out (inner_variant u) (zip (enum_variants l) (enum_variants r)) s) (\<lambda>s. Ok (s, TEnum l))
            else rest
        | _ \<Rightarrow> rest)
      | TUtxoAny \<Rightarrow> if right = TUtxoAny then Ok (s, TUtxoAny) else rest
      | TUtxo l \<Rightarrow> (case right of TUtxo r \<Rightarrow> if same_arc h left right then Ok (s, left) else rest | _ \<Rightarrow> rest)
      | TTokenAny \<Rightarrow> if right = TTokenAny then Ok (s, TTokenAny) else rest
      | TToken l \<Rightarrow> (case right of TToken r \<Rightarrow> if same_arc h left right then Ok (s, left) else rest | _ \<Rightarrow> rest)
      | TAbi l \<Rightarrow> (case right of TAbi r \<Rightarrow> if same_arc h left right then Ok (s, left) else rest | _ \<Rightarrow> rest)
      | TVar v \<Rightarrow> rest))"

fun unify_inner :: "nat \<Rightarrow> Host \<Rightarrow> inner" where
  "unify_inner 0 h = (\<lambda>_ _ _. Panic)"
| "unify_inner (Suc n) h = inner_step h n (unify_inner n h)"

definition unify_match_arms ::
  "nat \<Rightarrow> Host \<Rightarrow> Inferencer \<Rightarrow> Type \<Rightarrow> Type \<Rightarrow> Span \<Rightarrow> Span \<Rightarrow> (TypeError, Inferencer \<times> Type) outcome" where
  "unify_match_arms n h s current_arm_ty first_arm_ty current_arm_span first_arm_span =
     andthen (lift (apply_subst n s current_arm_ty)) (\<lambda>current_ty.
     andthen (lift (apply_subst n s first_arm_ty)) (\<lambda>first_ty.
     (case unify_inner n h s current_ty first_ty of
        Ok r \<Rightarrow> Ok r
      | Err u \<Rightarrow>
          andthen (lift (format_type h n s current_ty)) (\<lambda>current_repr.
          andthen (lift (format_type h n s first_ty)) (\<lambda>first_repr.
          Err (with_secondary
            (with_primary_message (TypeError_new (GeneralMismatch first_ty current_ty) current_arm_span)
              (''has type `'' @ current_repr @ ''`''))
            first_arm_span (''expected `'' @ first_repr @ ''` due to this''))))
      | Panic \<Rightarrow> Panic)))"

section \<open>Integer literals\<close>

text \<open>The iteration order of the hash set and of the hash map is the parameter \<open>order\<close>.\<close>

definition default_int_var :: "nat \<Rightarrow> TypeVarId \<Rightarrow> Inferencer \<Rightarrow> Inferencer total" where
  "default_int_var n v s =
     andthen (apply_subst n s (TVar v)) (\<lambda>resolved.
     Ok (case resolved of TVar _ \<Rightarrow> insert_subst v Type_int s | _ \<Rightarrow> s))"

definition default_int_vars :: "nat \<Rightarrow> TypeVarId list \<Rightarrow> Inferencer \<Rightarrow> Inferencer total" where
  "default_int_vars n order s =
     andthen (fold_out (default_int_var n) order s) (\<lambda>s. Ok (s\<lparr>int_vars := {}\<rparr>))"

definition IntegerLiteral_to_string :: "IntegerLiteral \<Rightarrow> string" where
  "IntegerLiteral_to_string l = radix_prefix (radix l) @ digits l"

definition literal_fits :: "IntWidth \<Rightarrow> IntegerLiteral \<Rightarrow> bool" where
  "literal_fits w literal = (case literal_value literal of None \<Rightarrow> False | Some value \<Rightarrow> fits w value)"

definition check_literal ::
  "nat \<Rightarrow> Inferencer \<Rightarrow> TypeVarId \<times> IntegerLiteral \<times> Span \<Rightarrow> TypeError list \<Rightarrow> TypeError list total" where
  "check_literal n s = (\<lambda>(v, literal, span) errors.
     andthen (apply_subst n s (TVar v)) (\<lambda>resolved.
     Ok (case resolved of
           TInt w \<Rightarrow>
             if \<not> literal_fits w literal
             then errors @ [TypeError_new (LiteralOutOfRange (IntegerLiteral_to_string literal) (TInt w)) span]
             else errors
         | _ \<Rightarrow> errors)))"

definition check_int_literal_ranges ::
  "nat \<Rightarrow> (TypeVarId \<times> IntegerLiteral \<times> Span) list \<Rightarrow> Inferencer \<Rightarrow> (TypeError list, unit) outcome" where
  "check_int_literal_ranges n order s =
     andthen (lift (fold_out (check_literal n s) order [])) (\<lambda>errors. if errors = [] then Ok () else Err errors)"

end
