(* ===== verification/Subst_Sound.thy ===== *)
theory Subst_Sound
  imports Types_Subst
begin

text \<open>
  What substitution does. On an acyclic substitution the recursion ends, and it computes \<open>inst\<close> of the
  fully resolved variables; \<open>settles\<close> says that a function of the stack depth has a final value.
\<close>

section \<open>Functions of the stack depth\<close>

definition settles :: "(nat \<Rightarrow> ('e, 'a) outcome) \<Rightarrow> ('e, 'a) outcome \<Rightarrow> bool" where
  "settles f r = (r \<noteq> Panic \<and> (\<exists>N. \<forall>n\<ge>N. f n = r))"

lemma settles_const [intro, simp]: "r \<noteq> Panic \<Longrightarrow> settles (\<lambda>n. r) r"
  by (simp add: settles_def)

lemma settles_andthen:
  assumes "settles f (Ok x)" "settles (\<lambda>n. k n x) r"
  shows "settles (\<lambda>n. andthen (f n) (k n)) r"
proof -
  from assms obtain N M where "\<forall>n\<ge>N. f n = Ok x" "\<forall>n\<ge>M. k n x = r" "r \<noteq> Panic"
    by (auto simp: settles_def)
  then have "\<forall>n\<ge>max N M. andthen (f n) (k n) = r" by auto
  with \<open>r \<noteq> Panic\<close> show ?thesis unfolding settles_def by blast
qed

lemma settles_andthen_Err: "settles f (Err e) \<Longrightarrow> settles (\<lambda>n. andthen (f n) (k n)) (Err e)"
  by (fastforce simp: settles_def)

lemma settles_Suc: "settles (\<lambda>n. f (Suc n)) r \<Longrightarrow> settles f r"
  unfolding settles_def by (metis Suc_le_D Suc_le_mono)

lemma settles_unique: "settles f r \<Longrightarrow> settles f r' \<Longrightarrow> r = r'"
  unfolding settles_def by (metis max.cobounded1 max.cobounded2)

lemma settles_map_out:
  "(\<And>x. x \<in> set xs \<Longrightarrow> settles (\<lambda>n. f n x) (Ok (g x))) \<Longrightarrow> settles (\<lambda>n. map_out (f n) xs) (Ok (map g xs))"
  by (induction xs) (auto intro!: settles_andthen)

lemma settles_or:
  assumes "settles a (Ok x)" "settles b (Ok y)"
  shows "settles (\<lambda>n. or_out (a n) (b n)) (Ok (x \<or> y))"
  unfolding or_out_def by (rule settles_andthen [OF assms(1)]) (use assms(2) in \<open>cases x; simp\<close>)

lemma settles_any:
  "(\<And>x. x \<in> set xs \<Longrightarrow> settles (\<lambda>n. f n x) (Ok (p x))) \<Longrightarrow> settles (\<lambda>n. any_out (f n) xs) (Ok (\<exists>x\<in>set xs. p x))"
proof (induction xs)
  case (Cons x xs)
  have "settles (\<lambda>n. or_out (f n x) (any_out (f n) xs)) (Ok (p x \<or> (\<exists>x\<in>set xs. p x)))"
    using Cons by (intro settles_or) auto
  then show ?case by simp
qed simp

section \<open>By reference and by value\<close>

text \<open>A borrowed result is the argument itself.\<close>

definition same_borrow :: "('a \<Rightarrow> 'a Cow total) \<Rightarrow> bool" where
  "same_borrow r = (\<forall>x y. r x = Ok (Borrowed y) \<longrightarrow> y = x)"

lemma rewrap_Borrowed: "rewrap x k m = Ok (Borrowed y) \<longleftrightarrow> y = x \<and> (\<exists>z. m = Ok (Borrowed z))"
  by (cases m) (auto simp: rewrap_def split: Cow.splits)

lemma rewrap_borrow: "same_borrow (\<lambda>x. rewrap x (k x) (m x))"
proof -
  have "y = x" if "rewrap x (k x) (m x) = Ok (Borrowed y)" for x y
    using that by (cases "m x") (auto simp: rewrap_def split: Cow.splits)
  then show ?thesis by (simp add: same_borrow_def)
qed

lemma own_rewrap:
  assumes "\<And>y. m = Ok (Borrowed y) \<Longrightarrow> k y = x"
  shows "andthen (rewrap x k m) (\<lambda>c. Ok (into_owned c)) = andthen m (\<lambda>c. Ok (k (into_owned c)))"
  using assms by (cases m) (auto simp: rewrap_def split: Cow.splits)

lemma sub_vec_borrow: "same_borrow (sub_vec r)"
  by (auto simp: same_borrow_def sub_vec_def outcome_simps split: if_splits)

lemma own_sub_vec:
  assumes "same_borrow r"
  shows "own (sub_vec r) xs = map_out (own r) xs"
proof -
  have eq: "map_out (own r) xs = andthen (map_out r xs) (\<lambda>cs. Ok (map into_owned cs))"
  proof (induction xs)
    case (Cons x xs)
    then show ?case by (cases "r x"; cases "map_out r xs") (simp_all add: own_def)
  qed simp
  have "map into_owned cs = xs" if "list_all2 (\<lambda>x c. r x = Ok c) xs cs" "list_all is_borrowed cs" for cs
    using that assms
  proof (induction rule: list_all2_induct)
    case (Cons x xs c cs)
    then show ?case by (cases c) (auto simp: same_borrow_def)
  qed simp
  then have "list_all is_borrowed cs \<Longrightarrow> map into_owned cs = xs" if "map_out r xs = Ok cs" for cs
    using that by (simp add: map_out_Ok)
  then show ?thesis by (cases "map_out r xs") (auto simp: eq own_def sub_vec_def)
qed

lemma own_eq: "own r x = andthen (r x) (\<lambda>c. Ok (into_owned c))"
  by (simp add: own_def)

text \<open>The implementations for the structs, each by value as \<open>substitute_in_place\<close> computes it.\<close>

lemmas sub_defs = sub_param_def sub_function_def sub_field_def sub_record_def sub_variant_def sub_enum_def
  sub_method_def sub_abi_def

lemma sub_borrow:
  "same_borrow (sub_param r)" "same_borrow (sub_function r)" "same_borrow (sub_field r)" "same_borrow (sub_record r)"
  "same_borrow (sub_variant r)" "same_borrow (sub_enum r)" "same_borrow (sub_method r)" "same_borrow (sub_abi r)"
  by (simp_all add: sub_defs [abs_def] rewrap_borrow)
    (auto simp: same_borrow_def outcome_simps split: if_splits)

lemma sub_kind_borrow: "same_borrow (sub_kind r)"
proof -
  have "y = k" if "sub_kind r k = Ok (Borrowed y)" for k y
  proof (cases k)
    case (EV_Tuple items)
    with that show ?thesis by (cases "sub_vec r items") (auto simp: rewrap_def split: Cow.splits)
  next
    case (EV_Struct fds)
    with that show ?thesis by (cases "sub_vec (sub_field r) fds") (auto simp: rewrap_def split: Cow.splits)
  qed (use that in simp)
  then show ?thesis by (simp add: same_borrow_def)
qed

lemma borrowed_same: "same_borrow r \<Longrightarrow> r x = Ok (Borrowed y) \<Longrightarrow> y = x"
  by (simp add: same_borrow_def)

lemma own_pair:
  assumes "\<And>x y. a = Ok (Borrowed x) \<Longrightarrow> b = Ok (Borrowed y) \<Longrightarrow> k x y = z"
  shows "andthen (andthen a (\<lambda>c. andthen b (\<lambda>d.
      Ok (if is_borrowed c \<and> is_borrowed d then Borrowed z else Owned (k (into_owned c) (into_owned d))))))
      (\<lambda>c. Ok (into_owned c))
    = andthen a (\<lambda>c. andthen b (\<lambda>d. Ok (k (into_owned c) (into_owned d))))"
proof (cases a; cases b)
  fix c d assume "a = Ok c" "b = Ok d"
  with assms show ?thesis by (cases c; cases d) auto
qed simp_all

lemma andthen_own: "andthen (own r x) k = andthen (r x) (\<lambda>c. k (into_owned c))"
  by (cases "r x") (simp_all add: own_def)

lemma own_param: "same_borrow r \<Longrightarrow> own (sub_param r) p = sip_param (own r) p"
  unfolding own_eq [of "sub_param r"] sub_param_def sip_param_def andthen_own
  by (rule own_rewrap) (auto dest: borrowed_same)

lemma own_field: "same_borrow r \<Longrightarrow> own (sub_field r) p = sip_field (own r) p"
  unfolding own_eq [of "sub_field r"] sub_field_def sip_field_def andthen_own
  by (rule own_rewrap) (auto dest: borrowed_same)

lemma vec_same: "sub_vec r xs = Ok (Borrowed ys) \<Longrightarrow> ys = xs"
  by (rule borrowed_same [OF sub_vec_borrow])

lemma own_function:
  assumes "same_borrow r"
  shows "own (sub_function r) f = sip_function (own r) f"
proof -
  have v: "own (sub_vec (sub_param r)) ps = map_out (sip_param (own r)) ps" for ps
    by (simp add: own_sub_vec sub_borrow own_param [OF assms] cong: map_out_cong)
  show ?thesis
    unfolding own_eq [of "sub_function r"] sub_function_def sip_function_def v [symmetric] andthen_own
    by (rule own_pair [where k = "\<lambda>ps t. FunctionType (fn_kind f) (fn_name_span f) ps t (fn_callee f)"])
      (auto dest!: vec_same borrowed_same [OF assms])
qed

lemma own_fields: "same_borrow r \<Longrightarrow> own (sub_vec (sub_field r)) fds = map_out (sip_field (own r)) fds"
  by (simp add: own_sub_vec sub_borrow own_field cong: map_out_cong)

lemma own_record: "same_borrow r \<Longrightarrow> own (sub_record r) rt = sip_record (own r) rt"
  unfolding own_eq [of "sub_record r"] sub_record_def sip_record_def own_fields [symmetric] andthen_own
  by (rule own_rewrap) (auto dest!: vec_same)

lemma own_kind: "same_borrow r \<Longrightarrow> own (sub_kind r) k = sip_kind (own r) k"
proof (cases k)
  case EV_Unit
  then show ?thesis by (simp add: own_def)
next
  case (EV_Tuple items)
  moreover assume "same_borrow r"
  ultimately show ?thesis
    by (simp add: own_eq [of "sub_kind r"] own_sub_vec [symmetric] andthen_own)
      (rule own_rewrap, drule vec_same, simp)
next
  case (EV_Struct fds)
  moreover assume "same_borrow r"
  ultimately show ?thesis
    by (simp add: own_eq [of "sub_kind r"] own_fields [symmetric] andthen_own)
      (rule own_rewrap, drule vec_same, simp)
qed

lemma own_variant: "same_borrow r \<Longrightarrow> own (sub_variant r) v = sip_variant (own r) v"
  unfolding own_eq [of "sub_variant r"] sub_variant_def sip_variant_def own_kind [symmetric] andthen_own
  by (rule own_rewrap) (auto dest!: borrowed_same [OF sub_kind_borrow])

lemma own_enum:
  assumes "same_borrow r"
  shows "own (sub_enum r) e = sip_enum (own r) e"
proof -
  have v: "own (sub_vec (sub_variant r)) vs = map_out (sip_variant (own r)) vs" for vs
    by (simp add: own_sub_vec sub_borrow own_variant [OF assms] cong: map_out_cong)
  show ?thesis
    unfolding own_eq [of "sub_enum r"] sub_enum_def sip_enum_def v [symmetric] own_sub_vec [OF assms, symmetric] andthen_own
    by (rule own_pair [where k = "EnumType (enum_name e)"]) (auto dest!: vec_same)
qed

lemma arc_own: "sip_arc u (own r x) (r x) = own r x"
  by (simp add: sip_arc_def own_def)

lemma arc_same: "same_borrow r \<Longrightarrow> sip_arc u (sip_function (own r) f) (sub_function r f) = own (sub_function r) f"
  by (simp add: own_function [symmetric] arc_own)

lemma own_method: "same_borrow r \<Longrightarrow> own (sub_method r) m = sip_method unique (own r) r m"
  unfolding own_eq [of "sub_method r"] sub_method_def sip_method_def arc_same andthen_own
  by (rule own_rewrap) (auto dest!: borrowed_same [OF sub_borrow(2)])

lemma own_abi:
  assumes "same_borrow r"
  shows "own (sub_abi r) a = sip_abi unique (own r) r a"
proof -
  have v: "own (sub_vec (sub_method r)) ms = map_out (sip_method unique (own r) r) ms" for ms
    by (simp add: own_sub_vec sub_borrow own_method [OF assms, of _ unique] cong: map_out_cong)
  show ?thesis
    unfolding own_eq [of "sub_abi r"] sub_abi_def sip_abi_def v [symmetric] andthen_own
    by (rule own_rewrap) (auto dest!: vec_same)
qed

text \<open>A utxo type is left alone when no ABI it may have changes; its \<open>always_abis\<close> are among those.\<close>

definition utxo_ok :: "Type UtxoType \<Rightarrow> bool" where
  "utxo_ok u = (set (always_abis u) \<subseteq> set (possible_abis u))"

lemma unchanged_abis:
  assumes "sub_vec r xs = Ok (Borrowed zs)" "same_borrow r" "set ys \<subseteq> set xs"
  shows "map_out (own r) ys = Ok ys"
proof -
  from assms(1) obtain cs where cs: "list_all2 (\<lambda>x c. r x = Ok c) xs cs" "list_all is_borrowed cs"
    by (auto simp: sub_vec_def map_out_Ok outcome_simps split: if_splits)
  have "own r x = Ok x" if "x \<in> set xs" for x
  proof -
    from that cs obtain c where "r x = Ok c" "is_borrowed c"
      by (auto simp: in_set_conv_nth list_all2_conv_all_nth list_all_length)
    with assms(2) show ?thesis by (cases c) (auto simp: own_def dest: borrowed_same)
  qed
  with assms(3) have "list_all2 (\<lambda>x y. own r x = Ok y) ys ys" by (auto simp: list_all2_same)
  then show ?thesis by (simp add: map_out_Ok)
qed

lemma sub_utxo_borrow: "same_borrow (sub_utxo r)"
proof -
  have "y = u" if "sub_utxo r u = Ok (Borrowed y)" for u y
    using that by (cases "sub_vec (sub_abi r) (possible_abis u)")
      (auto simp: sub_utxo_def outcome_simps split: Cow.splits)
  then show ?thesis by (simp add: same_borrow_def)
qed

lemma own_utxo:
  assumes "same_borrow r" "utxo_ok u"
  shows "own (sub_utxo r) u = sip_utxo unique (own r) r u"
proof -
  have v: "own (sub_vec (sub_abi r)) as
    = map_out (\<lambda>a. sip_arc (unique (TAbi a)) (sip_abi unique (own r) r a) (sub_abi r a)) as" for as
    by (simp add: own_sub_vec sub_borrow own_abi [OF assms(1), of _ unique, symmetric] arc_own cong: map_out_cong)
  show ?thesis
  proof (cases "\<exists>zs. sub_vec (sub_abi r) (possible_abis u) = Ok (Borrowed zs)")
    case True
    then obtain zs where z: "sub_vec (sub_abi r) (possible_abis u) = Ok (Borrowed zs)" by blast
    with assms(2) have "own (sub_vec (sub_abi r)) (always_abis u) = Ok (always_abis u)"
      by (simp add: own_sub_vec sub_borrow unchanged_abis utxo_ok_def)
    with z show ?thesis
      by (simp add: sip_utxo_def v [symmetric] own_eq [of "sub_utxo r"] own_eq [of _ "possible_abis u"] sub_utxo_def)
        (use vec_same [OF z] in simp)
  next
    case False
    then show ?thesis
      by (cases "sub_vec (sub_abi r) (possible_abis u)"; cases "sub_vec (sub_abi r) (always_abis u)")
        (auto simp: sip_utxo_def v [symmetric] own_eq sub_utxo_def split: Cow.splits)
  qed
qed

section \<open>Well-formed types\<close>

text \<open>What the comments of the source take for granted: \<open>always_abis\<close> is part of \<open>possible_abis\<close>; and what
the treatment of type arguments needs: their variables occur in the variants.\<close>

definition kind_set :: "'v set EnumVariantType list \<Rightarrow> 'v set" where
  "kind_set vs = \<Union> (set (map (\<lambda>v. fv_kind (variant_kind v)) vs))"

primrec covered :: "Type \<Rightarrow> bool" where
  "covered (TVar i) = True"
| "covered (TTuple items) = list_all (\<lambda>b. b) (map covered items)"
| "covered (TFunction f) = pred_FunctionType (\<lambda>b. b) (map_FunctionType covered f)"
| "covered (TRecord rt) = pred_RecordType (\<lambda>b. b) (map_RecordType covered rt)"
| "covered (TEnum e) = (pred_EnumType (\<lambda>b. b) (map_EnumType covered e)
     \<and> \<Union> (set (map free_type_vars (enum_type_args e))) \<subseteq> fv_enum (map_EnumType free_type_vars e))"
| "covered (TUtxo u) = (pred_UtxoType (\<lambda>b. b) (map_UtxoType covered u) \<and> utxo_ok u)"
| "covered (TToken t) = True"
| "covered (TAbi a) = pred_AbiType (\<lambda>b. b) (map_AbiType covered a)"
| "covered TUnit = True"
| "covered TBool = True"
| "covered (TInt w) = True"
| "covered TUtxoAny = True"
| "covered TTokenAny = True"

fun children :: "Type \<Rightarrow> Type set" where
  "children (TTuple items) = set items"
| "children (TFunction f) = set_FunctionType f"
| "children (TRecord rt) = set_RecordType rt"
| "children (TEnum e) = set_EnumType e"
| "children (TUtxo u) = set_UtxoType u"
| "children (TAbi a) = set_AbiType a"
| "children _ = {}"

lemma covered_children: "covered ty \<Longrightarrow> c \<in> children ty \<Longrightarrow> covered c"
proof (cases ty)
  case (TFunction f)
  then show "covered ty \<Longrightarrow> c \<in> children ty \<Longrightarrow> covered c" by (auto simp: FunctionType.pred_set FunctionType.set_map)
next
  case (TRecord f)
  then show "covered ty \<Longrightarrow> c \<in> children ty \<Longrightarrow> covered c" by (auto simp: RecordType.pred_set RecordType.set_map)
next
  case (TEnum f)
  then show "covered ty \<Longrightarrow> c \<in> children ty \<Longrightarrow> covered c" by (auto simp: EnumType.pred_set EnumType.set_map)
next
  case (TUtxo f)
  then show "covered ty \<Longrightarrow> c \<in> children ty \<Longrightarrow> covered c" by (auto simp: UtxoType.pred_set UtxoType.set_map)
next
  case (TAbi f)
  then show "covered ty \<Longrightarrow> c \<in> children ty \<Longrightarrow> covered c" by (auto simp: AbiType.pred_set AbiType.set_map)
qed (simp_all add: list_all_iff)

lemma Type_induct [case_names leaf node]:
  assumes "\<And>ty. (\<And>c. c \<in> children ty \<Longrightarrow> P c) \<Longrightarrow> P ty"
  shows "P ty"
  by (induction ty) (rule assms, simp)+

section \<open>Substitution by value\<close>

lemma substitute_borrow: "same_borrow (substitute_type n s I)"
proof (cases n)
  case 0
  then show ?thesis by (simp add: same_borrow_def)
next
  case (Suc m)
  have "y = ty" if "substitute_type (Suc m) s I ty = Ok (Borrowed y)" for ty y
    using that by (cases ty) (auto simp: rewrap_Borrowed outcome_simps split: option.splits if_splits)
  with Suc show ?thesis by (auto simp: same_borrow_def)
qed

lemma own_substitute:
  assumes "case ty of TUtxo u \<Rightarrow> utxo_ok u | _ \<Rightarrow> True"
  shows "own (substitute_type (Suc n) s I) ty =
    (let r = own (substitute_type n s I); b = substitute_type n s I in case ty of
        TVar i \<Rightarrow> (case s i of Some t \<Rightarrow> r t | None \<Rightarrow> Ok (if i \<in> I then Type_int else ty))
      | TFunction f \<Rightarrow> andthen (sip_function r f) (\<lambda>f. Ok (TFunction f))
      | TTuple items \<Rightarrow> andthen (map_out r items) (\<lambda>items. Ok (TTuple items))
      | TRecord rt \<Rightarrow> andthen (sip_record r rt) (\<lambda>rt. Ok (TRecord rt))
      | TEnum e \<Rightarrow> andthen (sip_enum r e) (\<lambda>e. Ok (TEnum e))
      | TUtxo u \<Rightarrow> andthen (sip_utxo unique r b u) (\<lambda>u. Ok (TUtxo u))
      | TAbi a \<Rightarrow> andthen (sip_abi unique r b a) (\<lambda>a. Ok (TAbi a))
      | _ \<Rightarrow> Ok ty)"
proof -
  note B = substitute_borrow [of n s I]
  show ?thesis
  proof (cases ty)
    case (TVar i)
    then show ?thesis by (cases "s i") (auto simp: own_def Let_def andthen_assoc)
  next
    case (TFunction f)
    then show ?thesis
      by (simp add: own_eq [of _ "TFunction f"] Let_def own_function [OF B, symmetric] andthen_own)
        (rule own_rewrap, auto dest!: borrowed_same [OF sub_borrow(2)])
  next
    case (TTuple items)
    then show ?thesis
      by (simp add: own_eq [of _ "TTuple items"] Let_def own_sub_vec [OF B, symmetric] andthen_own)
        (rule own_rewrap, auto dest!: vec_same)
  next
    case (TRecord rt)
    then show ?thesis
      by (simp add: own_eq [of _ "TRecord rt"] Let_def own_record [OF B, symmetric] andthen_own)
        (rule own_rewrap, auto dest!: borrowed_same [OF sub_borrow(4)])
  next
    case (TEnum e)
    then show ?thesis
      by (simp add: own_eq [of _ "TEnum e"] Let_def own_enum [OF B, symmetric] andthen_own)
        (rule own_rewrap, auto dest!: borrowed_same [OF sub_borrow(6)])
  next
    case (TUtxo u)
    then show ?thesis using assms
      by (simp add: own_eq [of _ "TUtxo u"] Let_def own_utxo [OF B, symmetric] andthen_own)
        (rule own_rewrap, auto dest!: borrowed_same [OF sub_utxo_borrow])
  next
    case (TAbi a)
    then show ?thesis
      by (simp add: own_eq [of _ "TAbi a"] Let_def own_abi [OF B, symmetric] andthen_own)
        (rule own_rewrap, auto dest!: borrowed_same [OF sub_borrow(8)])
  qed (simp_all add: own_def Let_def rewrap_def sub_token_def)
qed

section \<open>Instances of a type\<close>

primrec inst :: "(TypeVarId \<Rightarrow> Type) \<Rightarrow> Type \<Rightarrow> Type" where
  "inst \<rho> (TVar i) = \<rho> i"
| "inst \<rho> (TTuple items) = TTuple (map (inst \<rho>) items)"
| "inst \<rho> (TFunction f) = TFunction (map_FunctionType (inst \<rho>) f)"
| "inst \<rho> (TRecord rt) = TRecord (map_RecordType (inst \<rho>) rt)"
| "inst \<rho> (TEnum e) = TEnum (map_EnumType (inst \<rho>) e)"
| "inst \<rho> (TUtxo u) = TUtxo (map_UtxoType (inst \<rho>) u)"
| "inst \<rho> (TToken t) = TToken t"
| "inst \<rho> (TAbi a) = TAbi (map_AbiType (inst \<rho>) a)"
| "inst \<rho> TUnit = TUnit"
| "inst \<rho> TBool = TBool"
| "inst \<rho> (TInt w) = TInt w"
| "inst \<rho> TUtxoAny = TUtxoAny"
| "inst \<rho> TTokenAny = TTokenAny"

text \<open>The free variables of a covered type are those of its children.\<close>

lemma fv_function_set: "fv_function (map_FunctionType g f) = \<Union> (g ` set_FunctionType f)"
  by (cases f) (force simp: fv_function_def TypedFunctionParam.set_sel TypedFunctionParam.map_sel
      elim: TypedFunctionParam.set_cases)

lemma fv_record_set: "fv_record (map_RecordType g f) = \<Union> (g ` set_RecordType f)"
  by (cases f) (force simp: fv_record_def RecordFieldType.set_sel RecordFieldType.map_sel
      elim: RecordFieldType.set_cases)

lemma fv_kind_set: "fv_kind (map_EnumVariantKind g k) = \<Union> (g ` set_EnumVariantKind k)"
  by (cases k) (force simp: RecordFieldType.set_sel RecordFieldType.map_sel elim: RecordFieldType.set_cases)+

lemma fv_abi_set: "fv_abi (map_AbiType g a) = \<Union> (g ` set_AbiType a)"
proof (cases a)
  case (AbiType name ms)
  have "fv_function (method_ty (map_TypedAbiMethodDecl g m)) = \<Union> (g ` set_TypedAbiMethodDecl m)" for m
    by (cases m) (simp add: fv_function_set)
  with AbiType show ?thesis by (simp add: fv_abi_def)
qed

lemma fv_utxo_set:
  "utxo_ok u \<Longrightarrow> fv_utxo (map_UtxoType g u) = \<Union> (g ` set_UtxoType u)"
  by (cases u) (auto simp: fv_utxo_def fv_abi_set utxo_ok_def)

lemma fv_enum_set:
  assumes "\<Union> (g ` set (enum_type_args e)) \<subseteq> fv_enum (map_EnumType g e)"
  shows "fv_enum (map_EnumType g e) = \<Union> (g ` set_EnumType e)"
proof -
  have "fv_kind (variant_kind (map_EnumVariantType g v)) = \<Union> (g ` set_EnumVariantType v)" for v
    by (cases v) (simp add: fv_kind_set)
  then have "fv_enum (map_EnumType g e) = (\<Union>v\<in>set (enum_variants e). \<Union> (g ` set_EnumVariantType v))"
    by (cases e) (simp add: fv_enum_def)
  with assms show ?thesis by (cases e) auto
qed

lemma free_vars_node:
  assumes "covered ty"
  shows "free_type_vars ty = (case ty of TVar i \<Rightarrow> {i} | _ \<Rightarrow> \<Union> (free_type_vars ` children ty))"
proof (cases ty)
  case (TEnum e)
  with assms show ?thesis by (simp, intro fv_enum_set) simp
qed (use assms in \<open>simp_all add: fv_function_set fv_record_set fv_utxo_set fv_abi_set\<close>)

lemma free_vars_child: "covered ty \<Longrightarrow> c \<in> children ty \<Longrightarrow> free_type_vars c \<subseteq> free_type_vars ty"
  by (subst (2) free_vars_node) (auto split: Type.splits)

lemma covered_node:
  "covered ty \<longleftrightarrow> (\<forall>c\<in>children ty. covered c) \<and> (case ty of
      TEnum e \<Rightarrow> \<Union> (free_type_vars ` set (enum_type_args e)) \<subseteq> fv_enum (map_EnumType free_type_vars e)
    | TUtxo u \<Rightarrow> utxo_ok u
    | _ \<Rightarrow> True)"
  by (cases ty) (auto simp: FunctionType.pred_set FunctionType.set_map RecordType.pred_set RecordType.set_map
      EnumType.pred_set EnumType.set_map UtxoType.pred_set UtxoType.set_map AbiType.pred_set AbiType.set_map
      list_all_iff)

lemma inst_node:
  assumes "\<And>c. c \<in> children ty \<Longrightarrow> inst \<rho> c = inst \<rho>' c" "\<And>i. ty = TVar i \<Longrightarrow> \<rho> i = \<rho>' i"
  shows "inst \<rho> ty = inst \<rho>' ty"
  using assms
  by (cases ty) (auto intro: FunctionType.map_cong0 RecordType.map_cong0 EnumType.map_cong0 UtxoType.map_cong0
      AbiType.map_cong0)

lemma inst_cong:
  "covered ty \<Longrightarrow> (\<And>v. v \<in> free_type_vars ty \<Longrightarrow> \<rho> v = \<rho>' v) \<Longrightarrow> inst \<rho> ty = inst \<rho>' ty"
proof (induction ty rule: Type_induct)
  case (leaf ty)
  show ?case
  proof (rule inst_node)
    fix c assume "c \<in> children ty"
    then show "inst \<rho> c = inst \<rho>' c"
      using leaf covered_children free_vars_child by blast
  qed (use leaf in auto)
qed

lemma inst_inst: "inst \<rho> (inst \<sigma> ty) = inst (\<lambda>v. inst \<rho> (\<sigma> v)) ty"
proof (induction ty rule: Type_induct)
  case (leaf ty)
  then show ?case
    by (cases ty) (auto simp: FunctionType.map_comp RecordType.map_comp EnumType.map_comp UtxoType.map_comp
        AbiType.map_comp intro: FunctionType.map_cong0 RecordType.map_cong0 EnumType.map_cong0 UtxoType.map_cong0
        AbiType.map_cong0)
qed

lemma inst_TVar [simp]: "inst TVar ty = ty"
proof (induction ty rule: Type_induct)
  case (leaf ty)
  then show ?case
    by (cases ty) (auto simp: FunctionType.map_ident_strong RecordType.map_ident_strong EnumType.map_ident_strong
        UtxoType.map_ident_strong AbiType.map_ident_strong map_idI)
qed

lemma children_inst: "\<nexists>i. ty = TVar i \<Longrightarrow> children (inst \<rho> ty) = inst \<rho> ` children ty"
  by (cases ty) (simp_all add: FunctionType.set_map RecordType.set_map EnumType.set_map UtxoType.set_map AbiType.set_map)

lemma fv_enum_Union: "fv_enum (map_EnumType (\<lambda>t. \<Union> (h ` g t)) e) = \<Union> (h ` fv_enum (map_EnumType g e))"
proof -
  have "fv_kind (map_EnumVariantKind (\<lambda>t. \<Union> (h ` g t)) k) = \<Union> (h ` fv_kind (map_EnumVariantKind g k))" for k
    by (cases k) (auto simp: RecordFieldType.map_sel)
  then show ?thesis by (cases e) (simp add: fv_enum_def EnumVariantType.map_sel)
qed

lemma utxo_ok_map: "utxo_ok u \<Longrightarrow> utxo_ok (map_UtxoType g u)"
  by (cases u) (auto simp: utxo_ok_def)

lemma inst_covered:
  assumes "covered ty" "\<And>v. v \<in> free_type_vars ty \<Longrightarrow> covered (\<rho> v)"
  shows "covered (inst \<rho> ty) \<and> free_type_vars (inst \<rho> ty) = (\<Union>v\<in>free_type_vars ty. free_type_vars (\<rho> v))"
  using assms
proof (induction ty rule: Type_induct)
  case (leaf ty)
  have IH: "covered (inst \<rho> c) \<and> free_type_vars (inst \<rho> c) = (\<Union>v\<in>free_type_vars c. free_type_vars (\<rho> v))"
    if "c \<in> children ty" for c
    using leaf.IH [OF that covered_children [OF leaf.prems(1) that]] leaf.prems free_vars_child [OF _ that] by blast
  show ?case
  proof (cases "\<exists>i. ty = TVar i")
    case True
    with leaf.prems show ?thesis by auto
  next
    case False
    then have ch: "children (inst \<rho> ty) = inst \<rho> ` children ty" by (rule children_inst)
    have sub: "\<forall>c\<in>inst \<rho> ` children ty. covered c" using IH by blast
    have cov: "covered (inst \<rho> ty)"
    proof (cases ty)
      case (TEnum e)
      let ?F = "\<lambda>t. \<Union>v\<in>free_type_vars t. free_type_vars (\<rho> v)"
      have F: "free_type_vars (inst \<rho> t) = ?F t" if "t \<in> set_EnumType e" for t using IH that TEnum by simp
      have "map_EnumType (free_type_vars \<circ> inst \<rho>) e = map_EnumType ?F e"
        by (rule EnumType.map_cong0) (simp add: F)
      then have "fv_enum (map_EnumType free_type_vars (map_EnumType (inst \<rho>) e))
        = \<Union> ((\<lambda>v. free_type_vars (\<rho> v)) ` fv_enum (map_EnumType free_type_vars e))"
        by (simp add: EnumType.map_comp fv_enum_Union [of "\<lambda>v. free_type_vars (\<rho> v)", symmetric])
      moreover have "set (enum_type_args e) \<subseteq> set_EnumType e" by (cases e) auto
      moreover have "\<Union> (free_type_vars ` set (enum_type_args e)) \<subseteq> fv_enum (map_EnumType free_type_vars e)"
        using leaf.prems(1) TEnum covered_node [of ty] by simp
      ultimately have "\<Union> (free_type_vars ` inst \<rho> ` set (enum_type_args e))
        \<subseteq> fv_enum (map_EnumType free_type_vars (map_EnumType (inst \<rho>) e))"
        using F by fastforce
      with sub TEnum show ?thesis unfolding covered_node [of "inst \<rho> ty"] ch
        by (simp add: EnumType.map_sel)
    next
      case (TUtxo u)
      with leaf.prems(1) have "utxo_ok u" using covered_node [of ty] by simp
      with sub TUtxo show ?thesis unfolding covered_node [of "inst \<rho> ty"] ch by (simp add: utxo_ok_map)
    qed (use sub False in \<open>simp_all add: ch FunctionType.pred_set FunctionType.set_map RecordType.pred_set
      RecordType.set_map AbiType.pred_set AbiType.set_map list_all_iff\<close>)
    have "free_type_vars (inst \<rho> ty) = \<Union> (free_type_vars ` children (inst \<rho> ty))"
      using free_vars_node [OF cov] False by (cases ty) simp_all
    also have "\<dots> = (\<Union>c\<in>children ty. \<Union>v\<in>free_type_vars c. free_type_vars (\<rho> v))"
      unfolding ch using IH by simp
    also have "\<dots> = (\<Union>v\<in>\<Union> (free_type_vars ` children ty). free_type_vars (\<rho> v))" by blast
    also have "\<Union> (free_type_vars ` children ty) = free_type_vars ty"
      using free_vars_node [OF leaf.prems(1)] False by (cases ty) simp_all
    finally show ?thesis using cov by simp
  qed
qed

section \<open>Acyclic substitutions\<close>

definition ranked :: "(TypeVarId \<Rightarrow> nat) \<Rightarrow> subst \<Rightarrow> bool" where
  "ranked r s = (\<forall>v t. s v = Some t \<longrightarrow> (\<forall>w\<in>free_type_vars t. r w < r v))"

definition subst_ok :: "subst \<Rightarrow> bool" where
  "subst_ok s = ((\<exists>r. ranked r s) \<and> (\<forall>v t. s v = Some t \<longrightarrow> covered t))"

text \<open>The value of a variable, following the substitution to its end.\<close>

primrec chase :: "nat \<Rightarrow> subst \<Rightarrow> TypeVarId set \<Rightarrow> TypeVarId \<Rightarrow> Type" where
  "chase 0 s I v = TVar v"
| "chase (Suc n) s I v = (case s v of None \<Rightarrow> if v \<in> I then Type_int else TVar v | Some t \<Rightarrow> inst (chase n s I) t)"

definition resolve :: "subst \<Rightarrow> TypeVarId set \<Rightarrow> TypeVarId \<Rightarrow> Type" where
  "resolve s I v = chase (Suc ((SOME r. ranked r s) v)) s I v"

lemma chase_stable:
  assumes "ranked r s" "\<forall>v t. s v = Some t \<longrightarrow> covered t"
  shows "r v < n \<Longrightarrow> r v < m \<Longrightarrow> chase n s I v = chase m s I v"
proof (induction n arbitrary: m v)
  case (Suc n)
  then obtain k where m: "m = Suc k" by (cases m) auto
  show ?case
  proof (cases "s v")
    case (Some t)
    have "chase n s I w = chase k s I w" if "w \<in> free_type_vars t" for w
    proof -
      from that Some assms(1) have "r w < r v" by (auto simp: ranked_def)
      with Suc.prems m show ?thesis by (intro Suc.IH) auto
    qed
    with Some assms(2) m show ?thesis by (auto intro: inst_cong)
  qed (simp add: m)
qed simp

lemma resolve_rec:
  assumes "subst_ok s"
  shows "resolve s I v = (case s v of None \<Rightarrow> if v \<in> I then Type_int else TVar v | Some t \<Rightarrow> inst (resolve s I) t)"
proof -
  let ?r = "SOME r. ranked r s"
  from assms have ex: "\<exists>r. ranked r s" and c: "\<forall>v t. s v = Some t \<longrightarrow> covered t"
    by (simp_all add: subst_ok_def)
  note r = someI_ex [OF ex]
  show ?thesis
  proof (cases "s v")
    case (Some t)
    have "chase (?r v) s I w = resolve s I w" if "w \<in> free_type_vars t" for w
      unfolding resolve_def
      by (rule chase_stable [OF r c]) (use r Some that in \<open>auto simp: ranked_def\<close>)
    with Some c show ?thesis by (auto simp: resolve_def intro: inst_cong)
  qed (simp add: resolve_def)
qed

text \<open>Induction along the substitution.\<close>

lemma subst_induct:
  assumes "subst_ok s" "\<And>v. (\<And>t w. s v = Some t \<Longrightarrow> w \<in> free_type_vars t \<Longrightarrow> P w) \<Longrightarrow> P v"
  shows "P v"
proof -
  from assms(1) obtain r where "ranked r s" by (auto simp: subst_ok_def)
  then show ?thesis
    by (induction "r v" arbitrary: v rule: less_induct) (rule assms(2), auto simp: ranked_def)
qed

definition unsolved :: "subst \<Rightarrow> TypeVarId \<Rightarrow> bool" where
  "unsolved s v = (s v = None)"

abbreviation full :: "subst \<Rightarrow> Type \<Rightarrow> Type" where
  "full s \<equiv> inst (resolve s {})"

lemma Type_int_simps [simp]: "covered Type_int" "free_type_vars Type_int = {}" "inst \<rho> Type_int = Type_int"
  by (simp_all add: Type_int_def)

lemma resolve_covered:
  assumes "subst_ok s"
  shows "covered (resolve s I v) \<and> (\<forall>w\<in>free_type_vars (resolve s I v). unsolved s w \<and> w \<notin> I)"
proof (rule subst_induct [OF assms, where v = v])
  fix v assume IH: "\<And>t w. s v = Some t \<Longrightarrow> w \<in> free_type_vars t \<Longrightarrow>
    covered (resolve s I w) \<and> (\<forall>u\<in>free_type_vars (resolve s I w). unsolved s u \<and> u \<notin> I)"
  show "covered (resolve s I v) \<and> (\<forall>w\<in>free_type_vars (resolve s I v). unsolved s w \<and> w \<notin> I)"
  proof (cases "s v")
    case None
    then show ?thesis by (simp add: resolve_rec [OF assms] unsolved_def)
  next
    case (Some t)
    with assms have "covered t" by (auto simp: subst_ok_def)
    from inst_covered [OF this, of "resolve s I"] IH [OF Some] Some show ?thesis
      by (auto simp: resolve_rec [OF assms, of I v])
  qed
qed

lemma full_covered: "subst_ok s \<Longrightarrow> covered ty \<Longrightarrow> covered (full s ty)"
  using inst_covered resolve_covered by blast

lemma full_vars: "subst_ok s \<Longrightarrow> covered ty \<Longrightarrow> w \<in> free_type_vars (full s ty) \<Longrightarrow> unsolved s w"
  using inst_covered [of ty "resolve s {}"] resolve_covered [of s "{}"] by blast

lemma full_unsolved: "subst_ok s \<Longrightarrow> covered ty \<Longrightarrow> \<forall>w\<in>free_type_vars ty. unsolved s w \<Longrightarrow> full s ty = ty"
  using inst_cong [of ty "resolve s {}" TVar] by (simp add: resolve_rec unsolved_def)

lemma full_idem: "subst_ok s \<Longrightarrow> covered ty \<Longrightarrow> full s (full s ty) = full s ty"
  by (rule full_unsolved) (auto intro: full_covered full_vars)

section \<open>The methods settle\<close>

lemma settles_map: "settles f (Ok x) \<Longrightarrow> settles (\<lambda>n. andthen (f n) (\<lambda>x. Ok (k x))) (Ok (k x))"
  by (erule settles_andthen) simp

lemma settles_map2:
  "settles f (Ok x) \<Longrightarrow> settles g (Ok y) \<Longrightarrow>
    settles (\<lambda>n. andthen (f n) (\<lambda>x. andthen (g n) (\<lambda>y. Ok (k x y)))) (Ok (k x y))"
  by (erule settles_andthen, erule settles_map)

lemma settles_param:
  assumes "\<And>t. t \<in> set_TypedFunctionParam p \<Longrightarrow> settles (\<lambda>n. r n t) (Ok (g t))"
  shows "settles (\<lambda>n. sip_param (r n) p) (Ok (map_TypedFunctionParam g p))"
  using assms by (cases p) (auto simp: sip_param_def intro: settles_map)

lemma settles_field:
  assumes "\<And>t. t \<in> set_RecordFieldType p \<Longrightarrow> settles (\<lambda>n. r n t) (Ok (g t))"
  shows "settles (\<lambda>n. sip_field (r n) p) (Ok (map_RecordFieldType g p))"
  using assms by (cases p) (auto simp: sip_field_def intro: settles_map)

lemma settles_function:
  assumes "\<And>t. t \<in> set_FunctionType f \<Longrightarrow> settles (\<lambda>n. r n t) (Ok (g t))"
  shows "settles (\<lambda>n. sip_function (r n) f) (Ok (map_FunctionType g f))"
proof (cases f)
  case (FunctionType kind span params result callee)
  have "settles (\<lambda>n. map_out (sip_param (r n)) params) (Ok (map (map_TypedFunctionParam g) params))"
    by (rule settles_map_out, rule settles_param) (use assms FunctionType in auto)
  moreover have "settles (\<lambda>n. r n result) (Ok (g result))" using assms FunctionType by simp
  ultimately show ?thesis
    using FunctionType settles_map2 [where k = "\<lambda>ps t. FunctionType kind span ps t callee"] by (simp add: sip_function_def)
qed

lemma settles_fields:
  assumes "\<And>t. t \<in> (\<Union>fd\<in>set fds. set_RecordFieldType fd) \<Longrightarrow> settles (\<lambda>n. r n t) (Ok (g t))"
  shows "settles (\<lambda>n. map_out (sip_field (r n)) fds) (Ok (map (map_RecordFieldType g) fds))"
  by (rule settles_map_out, rule settles_field) (use assms in auto)

lemma settles_record:
  assumes "\<And>t. t \<in> set_RecordType rt \<Longrightarrow> settles (\<lambda>n. r n t) (Ok (g t))"
  shows "settles (\<lambda>n. sip_record (r n) rt) (Ok (map_RecordType g rt))"
  using assms by (cases rt) (auto simp: sip_record_def intro!: settles_map settles_fields)

lemma settles_kind:
  assumes "\<And>t. t \<in> set_EnumVariantKind k \<Longrightarrow> settles (\<lambda>n. r n t) (Ok (g t))"
  shows "settles (\<lambda>n. sip_kind (r n) k) (Ok (map_EnumVariantKind g k))"
proof (cases k)
  case (EV_Tuple items)
  with assms show ?thesis by (auto intro!: settles_map settles_map_out)
next
  case (EV_Struct fds)
  with assms show ?thesis by (auto intro!: settles_map settles_fields)
qed simp

lemma settles_variant:
  assumes "\<And>t. t \<in> set_EnumVariantType v \<Longrightarrow> settles (\<lambda>n. r n t) (Ok (g t))"
  shows "settles (\<lambda>n. sip_variant (r n) v) (Ok (map_EnumVariantType g v))"
  using assms by (cases v) (auto simp: sip_variant_def intro!: settles_map settles_kind)

lemma settles_enum:
  assumes "\<And>t. t \<in> set_EnumType e \<Longrightarrow> settles (\<lambda>n. r n t) (Ok (g t))"
  shows "settles (\<lambda>n. sip_enum (r n) e) (Ok (map_EnumType g e))"
proof (cases e)
  case (EnumType name variants type_args)
  have "settles (\<lambda>n. map_out (sip_variant (r n)) variants) (Ok (map (map_EnumVariantType g) variants))"
    by (rule settles_map_out, rule settles_variant) (use assms EnumType in auto)
  moreover have "settles (\<lambda>n. map_out (r n) type_args) (Ok (map g type_args))"
    by (rule settles_map_out) (use assms EnumType in auto)
  ultimately show ?thesis using EnumType settles_map2 [where k = "EnumType name"] by (simp add: sip_enum_def)
qed

lemma sip_arc_True [simp]: "sip_arc True a b = a"
  by (simp add: sip_arc_def)

lemma settles_method:
  assumes "\<And>t. t \<in> set_TypedAbiMethodDecl m \<Longrightarrow> settles (\<lambda>n. r n t) (Ok (g t))"
  shows "settles (\<lambda>n. sip_method (\<lambda>_. True) (r n) (b n) m) (Ok (map_TypedAbiMethodDecl g m))"
  using assms by (cases m) (auto simp: sip_method_def intro!: settles_map settles_function)

lemma settles_abi:
  assumes "\<And>t. t \<in> set_AbiType a \<Longrightarrow> settles (\<lambda>n. r n t) (Ok (g t))"
  shows "settles (\<lambda>n. sip_abi (\<lambda>_. True) (r n) (b n) a) (Ok (map_AbiType g a))"
  using assms by (cases a) (auto simp: sip_abi_def intro!: settles_map settles_map_out settles_method)

lemma settles_utxo:
  assumes "\<And>t. t \<in> set_UtxoType u \<Longrightarrow> settles (\<lambda>n. r n t) (Ok (g t))"
  shows "settles (\<lambda>n. sip_utxo (\<lambda>_. True) (r n) (b n) u) (Ok (map_UtxoType g u))"
proof (cases u)
  case (UtxoType name i possible always)
  have "settles (\<lambda>n. map_out (sip_abi (\<lambda>_. True) (r n) (b n)) abis) (Ok (map (map_AbiType g) abis))"
    if "abis \<in> {possible, always}" for abis
    by (rule settles_map_out, rule settles_abi) (use assms UtxoType that in auto)
  note abis = this [of possible] this [of always]
  then show ?thesis
    by (simp add: UtxoType sip_utxo_def Let_def) (rule settles_map2 [where k = "UtxoType name i"], simp_all)
qed

lemma settles_own_node:
  assumes "\<And>c. c \<in> children ty \<Longrightarrow> settles (\<lambda>n. own (substitute_type n s I) c) (Ok (inst \<rho> c))"
    and "covered ty" "\<nexists>i. ty = TVar i"
  shows "settles (\<lambda>n. own (substitute_type n s I) ty) (Ok (inst \<rho> ty))"
proof (rule settles_Suc)
  have ok: "case ty of TUtxo u \<Rightarrow> utxo_ok u | _ \<Rightarrow> True"
    using assms(2) covered_node [of ty] by (cases ty) auto
  show "settles (\<lambda>n. own (substitute_type (Suc n) s I) ty) (Ok (inst \<rho> ty))"
    unfolding own_substitute [OF ok, of _ s I "\<lambda>_. True"] Let_def
    using assms(1,3)
    by (cases ty) (auto intro!: settles_map settles_function settles_map_out settles_record settles_enum
        settles_utxo settles_abi)
qed

lemma settles_own_types:
  "covered ty \<Longrightarrow> (\<And>v. v \<in> free_type_vars ty \<Longrightarrow> settles (\<lambda>n. own (substitute_type n s I) (TVar v)) (Ok (\<rho> v)))
    \<Longrightarrow> settles (\<lambda>n. own (substitute_type n s I) ty) (Ok (inst \<rho> ty))"
proof (induction ty rule: Type_induct)
  case (leaf ty)
  show ?case
  proof (cases "\<exists>i. ty = TVar i")
    case False
    have "settles (\<lambda>n. own (substitute_type n s I) c) (Ok (inst \<rho> c))" if "c \<in> children ty" for c
      using leaf.IH [OF that covered_children [OF leaf.prems(1) that]] leaf.prems(2)
        free_vars_child [OF leaf.prems(1) that] by (meson subsetD)
    then show ?thesis by (rule settles_own_node [OF _ leaf.prems(1) False])
  qed (use leaf.prems in auto)
qed

theorem substitute_settles:
  assumes "subst_ok s" "covered ty"
  shows "settles (\<lambda>n. own (substitute_type n s I) ty) (Ok (inst (resolve s I) ty))"
proof (rule settles_own_types [OF assms(2)])
  fix v
  show "settles (\<lambda>n. own (substitute_type n s I) (TVar v)) (Ok (resolve s I v))"
  proof (rule subst_induct [OF assms(1), where v = v])
    fix v assume IH: "\<And>t w. s v = Some t \<Longrightarrow> w \<in> free_type_vars t \<Longrightarrow>
      settles (\<lambda>n. own (substitute_type n s I) (TVar w)) (Ok (resolve s I w))"
    show "settles (\<lambda>n. own (substitute_type n s I) (TVar v)) (Ok (resolve s I v))"
    proof (rule settles_Suc, cases "s v")
      case None
      then show "settles (\<lambda>n. own (substitute_type (Suc n) s I) (TVar v)) (Ok (resolve s I v))"
        by (simp add: own_substitute [where unique = "\<lambda>_. True"] resolve_rec [OF assms(1)])
    next
      case (Some t)
      with assms(1) have "covered t" by (auto simp: subst_ok_def)
      from settles_own_types [OF this IH [OF Some]]
      show "settles (\<lambda>n. own (substitute_type (Suc n) s I) (TVar v)) (Ok (resolve s I v))"
        using Some by (simp add: own_substitute [where unique = "\<lambda>_. True"] resolve_rec [OF assms(1), of I v])
    qed
  qed
qed

section \<open>The occurs check\<close>

lemma settles_cv_function:
  assumes "\<And>t. t \<in> set_FunctionType f \<Longrightarrow> settles (\<lambda>n. r n t) (Ok (v \<in> g t))"
  shows "settles (\<lambda>n. cv_function (r n) f) (Ok (v \<in> fv_function (map_FunctionType g f)))"
proof -
  have "settles (\<lambda>n. cv_function (r n) f) (Ok ((\<exists>p\<in>set (fn_params f). v \<in> g (param_ty p)) \<or> v \<in> g (fn_result f)))"
    unfolding cv_function_def
    by (intro settles_or settles_any assms) (cases f; force simp: TypedFunctionParam.set_sel)+
  then show ?thesis by (cases f) (simp add: fv_function_def TypedFunctionParam.map_sel)
qed

lemma settles_cv_fields:
  assumes "\<And>t. t \<in> (\<Union>fd\<in>set fds. set_RecordFieldType fd) \<Longrightarrow> settles (\<lambda>n. r n t) (Ok (v \<in> g t))"
  shows "settles (\<lambda>n. any_out (\<lambda>fd. r n (field_ty fd)) fds) (Ok (\<exists>fd\<in>set fds. v \<in> g (field_ty fd)))"
  by (intro settles_any assms) (auto intro!: bexI RecordFieldType.set_sel)

lemma settles_cv_kind:
  assumes "\<And>t. t \<in> set_EnumVariantKind k \<Longrightarrow> settles (\<lambda>n. r n t) (Ok (v \<in> g t))"
  shows "settles (\<lambda>n. cv_kind (r n) k) (Ok (v \<in> fv_kind (map_EnumVariantKind g k)))"
proof (cases k)
  case (EV_Tuple items)
  with assms settles_any [of items r "\<lambda>t. v \<in> g t"] show ?thesis by simp
next
  case (EV_Struct fds)
  with assms settles_cv_fields [of fds r v g] show ?thesis by (simp add: RecordFieldType.map_sel)
qed simp

lemma settles_cv_abi:
  assumes "\<And>t. t \<in> set_AbiType a \<Longrightarrow> settles (\<lambda>n. r n t) (Ok (v \<in> g t))"
  shows "settles (\<lambda>n. cv_abi (r n) a) (Ok (v \<in> fv_abi (map_AbiType g a)))"
proof -
  have "settles (\<lambda>n. cv_abi (r n) a)
      (Ok (\<exists>m\<in>set (abi_methods a). v \<in> fv_function (map_FunctionType g (method_ty m))))"
    unfolding cv_abi_def
    by (intro settles_any settles_cv_function assms) (cases a; force simp: TypedAbiMethodDecl.set_sel)
  then show ?thesis by (cases a) (simp add: fv_abi_def TypedAbiMethodDecl.map_sel)
qed

lemma settles_cv_utxo:
  assumes "\<And>t. t \<in> set_UtxoType u \<Longrightarrow> settles (\<lambda>n. r n t) (Ok (v \<in> g t))"
  shows "settles (\<lambda>n. cv_utxo (r n) u) (Ok (v \<in> fv_utxo (map_UtxoType g u)))"
proof -
  have "settles (\<lambda>n. cv_utxo (r n) u) (Ok (\<exists>a\<in>set (possible_abis u). v \<in> fv_abi (map_AbiType g a)))"
    unfolding cv_utxo_def by (intro settles_any settles_cv_abi assms) (cases u; force)
  then show ?thesis by (cases u) (simp add: fv_utxo_def)
qed

lemma settles_cv_enum:
  assumes "\<And>t. t \<in> set_EnumType e \<Longrightarrow> settles (\<lambda>n. r n t) (Ok (v \<in> g t))"
  shows "settles (\<lambda>n. cv_enum (r n) e) (Ok (v \<in> fv_enum (map_EnumType g e)))"
proof -
  have "settles (\<lambda>n. cv_enum (r n) e)
      (Ok (\<exists>x\<in>set (enum_variants e). v \<in> fv_kind (map_EnumVariantKind g (variant_kind x))))"
    unfolding cv_enum_def
    by (intro settles_any settles_cv_kind assms) (cases e; force simp: EnumVariantType.set_sel)
  then show ?thesis by (cases e) (simp add: fv_enum_def EnumVariantType.map_sel)
qed

lemma settles_cv_record:
  assumes "\<And>t. t \<in> set_RecordType rt \<Longrightarrow> settles (\<lambda>n. r n t) (Ok (v \<in> g t))"
  shows "settles (\<lambda>n. cv_record (r n) rt) (Ok (v \<in> fv_record (map_RecordType g rt)))"
proof -
  have "settles (\<lambda>n. cv_record (r n) rt) (Ok (\<exists>fd\<in>set (record_fields rt). v \<in> g (field_ty fd)))"
    unfolding cv_record_def by (rule settles_cv_fields) (use assms in \<open>cases rt; auto\<close>)
  then show ?thesis by (cases rt) (simp add: fv_record_def RecordFieldType.map_sel)
qed

lemma settles_contains_types:
  "covered ty \<Longrightarrow> (\<And>w. w \<in> free_type_vars ty \<Longrightarrow> settles (\<lambda>n. contains_var n v s (TVar w)) (Ok (v \<in> h w)))
    \<Longrightarrow> settles (\<lambda>n. contains_var n v s ty) (Ok (v \<in> \<Union> (h ` free_type_vars ty)))"
proof (induction ty rule: Type_induct)
  case (leaf ty)
  let ?g = "\<lambda>ty. \<Union> (h ` free_type_vars ty)"
  have IH: "settles (\<lambda>n. contains_var n v s c) (Ok (v \<in> ?g c))" if "c \<in> children ty" for c
    using leaf.IH [OF that covered_children [OF leaf.prems(1) that]] leaf.prems(2)
      free_vars_child [OF leaf.prems(1) that] by (meson subsetD)
  show ?case
  proof (cases "\<exists>i. ty = TVar i")
    case True
    with leaf.prems show ?thesis by auto
  next
    case False
    have "settles (\<lambda>n. contains_var (Suc n) v s ty) (Ok (v \<in> ?g ty))"
    proof (cases ty)
      case (TFunction f)
      with IH have "settles (\<lambda>n. cv_function (contains_var n v s) f) (Ok (v \<in> fv_function (map_FunctionType ?g f)))"
        by (intro settles_cv_function) simp
      with TFunction show ?thesis by (simp add: fv_function_set)
    next
      case (TTuple items)
      with IH settles_any [of items "\<lambda>n. contains_var n v s" "\<lambda>t. v \<in> ?g t"] show ?thesis by simp
    next
      case (TRecord rt)
      with IH have "settles (\<lambda>n. cv_record (contains_var n v s) rt) (Ok (v \<in> fv_record (map_RecordType ?g rt)))"
        by (intro settles_cv_record) simp
      with TRecord show ?thesis by (simp add: fv_record_set)
    next
      case (TEnum e)
      with IH have "settles (\<lambda>n. cv_enum (contains_var n v s) e) (Ok (v \<in> fv_enum (map_EnumType ?g e)))"
        by (intro settles_cv_enum) simp
      with TEnum show ?thesis by (simp add: fv_enum_Union)
    next
      case (TUtxo u)
      with leaf.prems(1) have "utxo_ok u" using covered_node [of ty] by simp
      moreover from TUtxo IH have
        "settles (\<lambda>n. cv_utxo (contains_var n v s) u) (Ok (v \<in> fv_utxo (map_UtxoType ?g u)))"
        by (intro settles_cv_utxo) simp
      ultimately show ?thesis using TUtxo by (simp add: fv_utxo_set)
    next
      case (TAbi a)
      with IH have "settles (\<lambda>n. cv_abi (contains_var n v s) a) (Ok (v \<in> fv_abi (map_AbiType ?g a)))"
        by (intro settles_cv_abi) simp
      with TAbi show ?thesis by (simp add: fv_abi_set)
    qed (use False in \<open>simp_all add: cv_token_def\<close>)
    then show ?thesis by (rule settles_Suc)
  qed
qed

theorem contains_settles:
  assumes "subst_ok s" "unsolved s v" "covered ty"
  shows "settles (\<lambda>n. contains_var n v s ty) (Ok (v \<in> free_type_vars (full s ty)))"
proof -
  have "settles (\<lambda>n. contains_var n v s (TVar w)) (Ok (v \<in> free_type_vars (resolve s {} w)))" for w
  proof (rule subst_induct [OF assms(1), where v = w])
    fix w assume IH: "\<And>t u. s w = Some t \<Longrightarrow> u \<in> free_type_vars t \<Longrightarrow>
      settles (\<lambda>n. contains_var n v s (TVar u)) (Ok (v \<in> free_type_vars (resolve s {} u)))"
    show "settles (\<lambda>n. contains_var n v s (TVar w)) (Ok (v \<in> free_type_vars (resolve s {} w)))"
    proof (rule settles_Suc, cases "s w")
      case None
      then show "settles (\<lambda>n. contains_var (Suc n) v s (TVar w)) (Ok (v \<in> free_type_vars (resolve s {} w)))"
        by (cases "w = v") (auto simp: resolve_rec [OF assms(1)])
    next
      case (Some t)
      with assms(1) have t: "covered t" by (auto simp: subst_ok_def)
      from settles_contains_types [OF t IH [OF Some]]
        inst_covered [OF t, of "resolve s {}"] resolve_covered [OF assms(1), of "{}"]
      show "settles (\<lambda>n. contains_var (Suc n) v s (TVar w)) (Ok (v \<in> free_type_vars (resolve s {} w)))"
        using Some assms(2) by (cases "w = v") (auto simp: resolve_rec [OF assms(1), of "{}" w] unsolved_def)
    qed
  qed
  from settles_contains_types [OF assms(3) this] inst_covered [OF assms(3), of "resolve s {}"]
    resolve_covered [OF assms(1), of "{}"] show ?thesis by simp
qed

section \<open>In place\<close>

lemma sip_param_cong: "(\<And>t. t \<in> set_TypedFunctionParam p \<Longrightarrow> r t = r' t) \<Longrightarrow> sip_param r p = sip_param r' p"
  by (cases p) (simp add: sip_param_def)

lemma sip_field_cong: "(\<And>t. t \<in> set_RecordFieldType p \<Longrightarrow> r t = r' t) \<Longrightarrow> sip_field r p = sip_field r' p"
  by (cases p) (simp add: sip_field_def)

lemma sip_function_cong:
  assumes "\<And>t. t \<in> set_FunctionType f \<Longrightarrow> r t = r' t"
  shows "sip_function r f = sip_function r' f"
proof (cases f)
  case (FunctionType kind span params result callee)
  have "map_out (sip_param r) params = map_out (sip_param r') params"
    by (rule map_out_cong, simp, rule sip_param_cong) (use assms FunctionType in auto)
  then show ?thesis using assms FunctionType by (simp add: sip_function_def)
qed

lemma sip_fields_cong:
  assumes "\<And>t. t \<in> (\<Union>fd\<in>set fds. set_RecordFieldType fd) \<Longrightarrow> r t = r' t"
  shows "map_out (sip_field r) fds = map_out (sip_field r') fds"
  by (rule map_out_cong, simp, rule sip_field_cong) (use assms in auto)

lemma sip_record_cong:
  assumes "\<And>t. t \<in> set_RecordType rt \<Longrightarrow> r t = r' t"
  shows "sip_record r rt = sip_record r' rt"
  using assms sip_fields_cong [of "record_fields rt" r r'] by (cases rt) (simp add: sip_record_def)

lemma sip_kind_cong:
  assumes "\<And>t. t \<in> set_EnumVariantKind k \<Longrightarrow> r t = r' t"
  shows "sip_kind r k = sip_kind r' k"
proof (cases k)
  case (EV_Tuple items)
  with assms have "map_out r items = map_out r' items" by (intro map_out_cong) auto
  with EV_Tuple show ?thesis by simp
next
  case (EV_Struct fds)
  with assms sip_fields_cong [of fds r r'] show ?thesis by simp
qed simp

lemma sip_enum_cong:
  assumes "\<And>t. t \<in> set_EnumType e \<Longrightarrow> r t = r' t"
  shows "sip_enum r e = sip_enum r' e"
proof (cases e)
  case (EnumType name variants type_args)
  have "sip_variant r v = sip_variant r' v" if "v \<in> set variants" for v
  proof -
    have "sip_kind r (variant_kind v) = sip_kind r' (variant_kind v)"
      by (rule sip_kind_cong) (use assms EnumType that in \<open>cases v; force\<close>)
    then show ?thesis by (simp add: sip_variant_def)
  qed
  then have "map_out (sip_variant r) variants = map_out (sip_variant r') variants" by (intro map_out_cong) auto
  moreover have "map_out r type_args = map_out r' type_args" by (rule map_out_cong) (use assms EnumType in auto)
  ultimately show ?thesis using EnumType by (simp add: sip_enum_def)
qed

lemma sip_abi_cong:
  assumes "\<And>t. t \<in> set_AbiType a \<Longrightarrow> r t = r' t"
  shows "sip_abi unique r b a = sip_abi unique r' b a"
proof (cases a)
  case (AbiType name ms)
  have "sip_method unique r b m = sip_method unique r' b m" if "m \<in> set ms" for m
  proof -
    have "sip_function r (method_ty m) = sip_function r' (method_ty m)"
      by (rule sip_function_cong) (use assms AbiType that in \<open>cases m; force\<close>)
    then show ?thesis by (simp add: sip_method_def)
  qed
  then have "map_out (sip_method unique r b) ms = map_out (sip_method unique r' b) ms" by (intro map_out_cong) auto
  then show ?thesis using AbiType by (simp add: sip_abi_def)
qed

lemma sip_utxo_cong:
  assumes "\<And>t. t \<in> set_UtxoType u \<Longrightarrow> r t = r' t"
  shows "sip_utxo unique r b u = sip_utxo unique r' b u"
proof -
  have "sip_abi unique r b a = sip_abi unique r' b a" if "a \<in> set (possible_abis u) \<union> set (always_abis u)" for a
    by (rule sip_abi_cong) (use assms that in \<open>cases u; auto\<close>)
  then have "map_out (\<lambda>a. sip_arc (unique (TAbi a)) (sip_abi unique r b a) (sub_abi b a)) abis
    = map_out (\<lambda>a. sip_arc (unique (TAbi a)) (sip_abi unique r' b a) (sub_abi b a)) abis"
    if "set abis \<subseteq> set (possible_abis u) \<union> set (always_abis u)" for abis
    using that by (intro map_out_cong) auto
  then show ?thesis by (simp add: sip_utxo_def Let_def)
qed

lemma in_place_own:
  "covered ty \<Longrightarrow> substitute_in_place unique n s I ty = own (substitute_type n s I) ty"
proof (induction n arbitrary: ty)
  case 0
  then show ?case by (simp add: own_def)
next
  case (Suc n)
  let ?r = "substitute_in_place unique n s I" and ?b = "substitute_type n s I"
  note B = substitute_borrow [of n s I]
  have IH: "?r c = own ?b c" if "c \<in> children ty" for c
    using Suc covered_children that by blast
  have ok: "case ty of TUtxo u \<Rightarrow> utxo_ok u | _ \<Rightarrow> True"
    using Suc.prems covered_node [of ty] by (cases ty) auto
  show ?case
  proof (cases ty)
    case (TVar i)
    then show ?thesis by (cases "s i") (auto simp: own_def andthen_assoc)
  next
    case (TFunction f)
    with IH have "sip_function ?r f = sip_function (own ?b) f" by (intro sip_function_cong) simp
    with TFunction show ?thesis
      by (simp add: own_substitute [OF ok [unfolded TFunction], of _ _ _ unique] Let_def own_function [OF B, symmetric] arc_own del: substitute_type.simps)
  next
    case (TTuple items)
    with IH have "map_out ?r items = map_out (own ?b) items" by (intro map_out_cong) simp_all
    with TTuple show ?thesis
      by (simp add: own_substitute [OF ok [unfolded TTuple], of _ _ _ unique] Let_def own_sub_vec [OF B, symmetric] arc_own del: substitute_type.simps)
  next
    case (TRecord rt)
    with IH have "sip_record ?r rt = sip_record (own ?b) rt" by (intro sip_record_cong) simp
    with TRecord show ?thesis
      by (simp add: own_substitute [OF ok [unfolded TRecord], of _ _ _ unique] Let_def own_record [OF B, symmetric] arc_own del: substitute_type.simps)
  next
    case (TEnum e)
    with IH have "sip_enum ?r e = sip_enum (own ?b) e" by (intro sip_enum_cong) simp
    with TEnum show ?thesis
      by (simp add: own_substitute [OF ok [unfolded TEnum], of _ _ _ unique] Let_def own_enum [OF B, symmetric] arc_own del: substitute_type.simps)
  next
    case (TUtxo u)
    with IH have "sip_utxo unique ?r ?b u = sip_utxo unique (own ?b) ?b u" by (intro sip_utxo_cong) simp
    with TUtxo ok show ?thesis
      by (simp add: own_substitute [OF ok [unfolded TUtxo], of _ _ _ unique] Let_def own_utxo [OF B, symmetric] arc_own del: substitute_type.simps)
  next
    case (TAbi a)
    with IH have "sip_abi unique ?r ?b a = sip_abi unique (own ?b) ?b a" by (intro sip_abi_cong) simp
    with TAbi show ?thesis
      by (simp add: own_substitute [OF ok [unfolded TAbi], of _ _ _ unique] Let_def own_abi [OF B, symmetric] arc_own del: substitute_type.simps)
  qed (simp_all add: own_def rewrap_def sub_token_def sip_arc_def sip_token_def)
qed

end
