(* ===== verification/Unify_Sound.thy ===== *)
theory Unify_Sound
  imports Unify Subst_Sound
begin

text \<open>
  Unification is sound and always returns: on a well-formed state it settles, and a success makes the two
  types equal up to names (\<open>sim\<close>), extends the substitution and keeps the constraints on integer
  variables.
\<close>

section \<open>Similar types\<close>

text \<open>Unification ignores the names of records, enums and parameters, type arguments and callees.\<close>

definition names_match :: "'t RecordFieldType list \<Rightarrow> 't RecordFieldType list \<Rightarrow> bool" where
  "names_match ls rs = (map (id_name \<circ> field_name) ls = map (id_name \<circ> field_name) rs)"

fun kind_sim :: "('t \<Rightarrow> 't \<Rightarrow> bool) \<Rightarrow> 't EnumVariantKind \<Rightarrow> 't EnumVariantKind \<Rightarrow> bool" where
  "kind_sim P EV_Unit EV_Unit = True"
| "kind_sim P (EV_Tuple ls) (EV_Tuple rs) = list_all2 P ls rs"
| "kind_sim P (EV_Struct ls) (EV_Struct rs) =
     (names_match ls rs \<and> list_all2 P (map field_ty ls) (map field_ty rs))"
| "kind_sim P _ _ = False"

definition variant_sim :: "('t \<Rightarrow> 't \<Rightarrow> bool) \<Rightarrow> 't EnumVariantType \<Rightarrow> 't EnumVariantType \<Rightarrow> bool" where
  "variant_sim P l r = (ident_eq (variant_name l) (variant_name r) \<and> kind_sim P (variant_kind l) (variant_kind r))"

lemma kind_sim_mono [mono]: "P \<le> Q \<Longrightarrow> kind_sim P l r \<longrightarrow> kind_sim Q l r"
  by (induction P l r rule: kind_sim.induct) (auto elim!: list_all2_mono)

lemma variant_sim_mono [mono]: "P \<le> Q \<Longrightarrow> variant_sim P l r \<longrightarrow> variant_sim Q l r"
  using kind_sim_mono [of P Q] by (auto simp: variant_sim_def)

inductive sim :: "Type \<Rightarrow> Type \<Rightarrow> bool" where
  sim_refl: "sim t t"
| sim_function: "fn_kind l = fn_kind r \<Longrightarrow> list_all2 sim (map param_ty (fn_params l)) (map param_ty (fn_params r))
    \<Longrightarrow> sim (fn_result l) (fn_result r) \<Longrightarrow> sim (TFunction l) (TFunction r)"
| sim_tuple: "list_all2 sim ls rs \<Longrightarrow> sim (TTuple ls) (TTuple rs)"
| sim_record: "names_match (record_fields l) (record_fields r) \<Longrightarrow>
    list_all2 sim (map field_ty (record_fields l)) (map field_ty (record_fields r)) \<Longrightarrow> sim (TRecord l) (TRecord r)"
| sim_enum: "list_all2 (variant_sim sim) (enum_variants l) (enum_variants r) \<Longrightarrow> sim (TEnum l) (TEnum r)"

declare sim_refl [simp, intro]

lemma names_match_map: "names_match (map (map_RecordFieldType g) ls) (map (map_RecordFieldType h) rs) = names_match ls rs"
  by (simp add: names_match_def RecordFieldType.map_sel comp_def)

lemma kind_sim_map:
  "kind_sim P l r \<Longrightarrow> (\<And>x y. P x y \<Longrightarrow> Q (g x) (g y)) \<Longrightarrow>
    kind_sim Q (map_EnumVariantKind g l) (map_EnumVariantKind g r)"
  by (induction P l r rule: kind_sim.induct)
    (auto simp: names_match_map list_all2_map1 list_all2_map2 RecordFieldType.map_sel elim!: list_all2_mono)

lemma sim_inst: "sim l r \<Longrightarrow> sim (inst \<rho> l) (inst \<rho> r)"
proof (induction rule: sim.induct)
  case (sim_function l r)
  then show ?case
    by (auto simp: FunctionType.map_sel TypedFunctionParam.map_sel list_all2_map1 list_all2_map2
        intro!: sim.sim_function elim!: list_all2_mono)
next
  case (sim_tuple ls rs)
  then show ?case by (auto simp: list_all2_map1 list_all2_map2 intro!: sim.sim_tuple elim!: list_all2_mono)
next
  case (sim_record l r)
  then show ?case
    by (auto simp: RecordType.map_sel RecordFieldType.map_sel names_match_map list_all2_map1 list_all2_map2
        intro!: sim.sim_record elim!: list_all2_mono)
next
  case (sim_enum l r)
  have "variant_sim sim (map_EnumVariantType (inst \<rho>) a) (map_EnumVariantType (inst \<rho>) b)"
    if "variant_sim (\<lambda>x y. sim x y \<and> sim (inst \<rho> x) (inst \<rho> y)) a b" for a b
    using that by (auto simp: variant_sim_def EnumVariantType.map_sel intro: kind_sim_map)
  with sim_enum show ?case
    by (auto simp: EnumType.map_sel list_all2_map1 list_all2_map2 intro!: sim.sim_enum elim!: list_all2_mono)
qed simp

section \<open>Extending a substitution\<close>

lemma finite_vars [simp]: "finite (A :: TypeVarId set)"
proof (rule finite_subset)
  show "A \<subseteq> range TypeVarId" by (metis TypeVarId.exhaust rangeI subsetI)
qed simp

lemma bind_ranked:
  assumes "subst_ok s" "unsolved s v" "covered t" "v \<notin> free_type_vars (full s t)"
  shows "subst_ok (s(v \<mapsto> t))"
proof -
  from assms(1) obtain r where r: "ranked r s" and cov: "\<forall>v t. s v = Some t \<longrightarrow> covered t"
    by (auto simp: subst_ok_def)
  define dep where "dep w = (v \<in> free_type_vars (resolve s {} w))" for w
  define M where "M = Max (insert 0 (r ` free_type_vars t))"
  have M: "r w \<le> M" if "w \<in> free_type_vars t" for w
    using that by (auto simp: M_def intro: Max_ge)
  define r' where "r' w = (if dep w then r w + M + 1 else r w)" for w
  have dep_step: "dep x" if "s x = Some u" "w \<in> free_type_vars u" "dep w" for x u w
    using that cov inst_covered [of u "resolve s {}"] resolve_covered [OF assms(1), of "{}"]
    by (auto simp: dep_def resolve_rec [OF assms(1), of "{}" x])
  have no_dep: "\<not> dep w" if "w \<in> free_type_vars t" for w
    using assms(3,4) that inst_covered [of t "resolve s {}"] resolve_covered [OF assms(1), of "{}"]
    by (auto simp: dep_def)
  have "dep v" using assms(2) by (simp add: dep_def resolve_rec [OF assms(1)] unsolved_def)
  have "r' w < r' x" if x: "(s(v \<mapsto> t)) x = Some u" and w: "w \<in> free_type_vars u" for x u w
  proof (cases "x = v")
    case True
    with x w have "w \<in> free_type_vars t" by simp
    with True M [of w] no_dep [of w] \<open>dep v\<close> show ?thesis by (simp add: r'_def)
  next
    case False
    with x w r have "r w < r x" "s x = Some u" by (auto simp: ranked_def)
    with dep_step [of x u w] w show ?thesis by (auto simp: r'_def)
  qed
  then have "ranked r' (s(v \<mapsto> t))" by (auto simp: ranked_def)
  with cov assms(3) show ?thesis by (auto simp: subst_ok_def)
qed

text \<open>Solving one more variable.\<close>

definition solve_var :: "TypeVarId \<Rightarrow> Type \<Rightarrow> TypeVarId \<Rightarrow> Type" where
  "solve_var v t = TVar(v := t)"

lemma bind_resolve:
  assumes "subst_ok s" "unsolved s v" "covered t" "v \<notin> free_type_vars (full s t)"
  shows "resolve (s(v \<mapsto> t)) {} w = inst (solve_var v (full s t)) (resolve s {} w)"
proof -
  let ?s = "s(v \<mapsto> t)" and ?\<tau> = "solve_var v (full s t)"
  note ok = bind_ranked [OF assms]
  show ?thesis
  proof (rule subst_induct [OF ok, where v = w])
    fix w assume IH: "\<And>u x. ?s w = Some u \<Longrightarrow> x \<in> free_type_vars u \<Longrightarrow>
      resolve ?s {} x = inst ?\<tau> (resolve s {} x)"
    consider "w = v" | "w \<noteq> v" "s w = None" | u where "w \<noteq> v" "s w = Some u" by fastforce
    then show "resolve ?s {} w = inst ?\<tau> (resolve s {} w)"
    proof cases
      case 1
      have "full ?s t = inst (\<lambda>x. inst ?\<tau> (resolve s {} x)) t"
        by (rule inst_cong [OF assms(3)]) (use IH 1 in simp)
      also have "\<dots> = inst ?\<tau> (full s t)" by (simp add: inst_inst)
      also have "\<dots> = inst TVar (full s t)"
        by (rule inst_cong) (use assms full_covered in \<open>auto simp: solve_var_def\<close>)
      finally show ?thesis
        using 1 assms(2) by (simp add: resolve_rec [OF ok] resolve_rec [OF assms(1)] unsolved_def solve_var_def)
    next
      case 2
      then show ?thesis by (simp add: resolve_rec [OF ok] resolve_rec [OF assms(1)] solve_var_def)
    next
      case 3
      with assms(1) have "covered u" by (auto simp: subst_ok_def)
      then have "full ?s u = inst (\<lambda>x. inst ?\<tau> (resolve s {} x)) u"
        by (rule inst_cong) (use IH 3 in auto)
      with 3 show ?thesis by (simp add: resolve_rec [OF ok, of "{}" w] resolve_rec [OF assms(1), of "{}" w] inst_inst)
    qed
  qed
qed

lemma bind_full:
  assumes "subst_ok s" "unsolved s v" "covered t" "v \<notin> free_type_vars (full s t)"
  shows "full (s(v \<mapsto> t)) ty = inst (solve_var v (full s t)) (full s ty)"
proof -
  have "resolve (s(v \<mapsto> t)) {} = (\<lambda>w. inst (solve_var v (full s t)) (resolve s {} w))"
    by (rule ext) (rule bind_resolve [OF assms])
  then show ?thesis by (simp add: inst_inst)
qed

definition extends :: "subst \<Rightarrow> subst \<Rightarrow> bool" where
  "extends s s' = (\<forall>ty. covered ty \<longrightarrow> full s' (full s ty) = full s' ty)"

lemma extends_refl: "subst_ok s \<Longrightarrow> extends s s"
  by (simp add: extends_def full_idem)

lemma extends_trans:
  assumes "extends s t" "extends t u" "subst_ok s" "subst_ok t"
  shows "extends s u"
proof -
  have "full u (full s ty) = full u ty" if c: "covered ty" for ty
  proof -
    have "full u (full s ty) = full u (full t (full s ty))"
      using assms(2) full_covered [OF assms(3) c] by (simp add: extends_def)
    also have "\<dots> = full u (full t ty)" using assms(1) c by (simp add: extends_def)
    also have "\<dots> = full u ty" using assms(2) c by (simp add: extends_def)
    finally show ?thesis .
  qed
  then show ?thesis by (simp add: extends_def)
qed

lemma bind_extends:
  assumes "subst_ok s" "unsolved s v" "covered t" "v \<notin> free_type_vars (full s t)"
  shows "extends s (s(v \<mapsto> t))"
  by (simp add: extends_def bind_full [OF assms] full_idem [OF assms(1)])

lemma sim_extends: "extends s s' \<Longrightarrow> covered l \<Longrightarrow> covered r \<Longrightarrow> sim (full s l) (full s r) \<Longrightarrow> sim (full s' l) (full s' r)"
  using sim_inst [of "full s l" "full s r" "resolve s' {}"] by (simp add: extends_def)

section \<open>Steps of the inferencer\<close>

text \<open>The invariant: the substitution is acyclic, and a variable constrained to integers stands for an integer
type or for a variable with that constraint; every tracked literal has such a variable.\<close>

definition int_like :: "TypeVarId set \<Rightarrow> Type \<Rightarrow> bool" where
  "int_like I t = (case t of TInt w \<Rightarrow> True | TVar v \<Rightarrow> v \<in> I | _ \<Rightarrow> False)"

definition inferencer_ok :: "Inferencer \<Rightarrow> bool" where
  "inferencer_ok s = (subst_ok (solution s)
     \<and> (\<forall>v\<in>int_vars s. int_like (int_vars s) (resolve (solution s) {} v))
     \<and> dom (int_literal_values s) \<subseteq> int_vars s)"

definition step :: "Inferencer \<Rightarrow> Inferencer \<Rightarrow> bool" where
  "step s s' = (inferencer_ok s \<and> inferencer_ok s' \<and> extends (solution s) (solution s') \<and> int_vars s \<subseteq> int_vars s'
     \<and> int_literal_values s \<subseteq>\<^sub>m int_literal_values s' \<and> next_type_var s' = next_type_var s
     \<and> (s' = s \<or> {v. unsolved (solution s') v} \<subset> {v. unsolved (solution s) v}))"

lemma step_refl: "inferencer_ok s \<Longrightarrow> step s s"
  by (simp add: step_def extends_refl inferencer_ok_def)

lemma step_trans: "step s t \<Longrightarrow> step t u \<Longrightarrow> step s u"
  unfolding step_def inferencer_ok_def
  by (intro conjI) (auto intro: extends_trans map_le_trans)

lemma bind_step:
  assumes "inferencer_ok s" "unsolved (solution s) v" "covered t" "full (solution s) t = t"
    "v \<notin> free_type_vars t" "constrain e s v t = Ok s1"
  shows "step s (insert_subst v t s1)"
proof -
  let ?s = "solution s" and ?s' = "(solution s)(v \<mapsto> t)"
  from assms(1) have ok: "subst_ok ?s" and I: "\<forall>v\<in>int_vars s. int_like (int_vars s) (resolve ?s {} v)"
    and L: "dom (int_literal_values s) \<subseteq> int_vars s" by (simp_all add: inferencer_ok_def)
  have occ: "v \<notin> free_type_vars (full ?s t)" using assms(4,5) by simp
  note ok' = bind_ranked [OF ok assms(2,3) occ]
  have s1: "solution s1 = ?s" "next_type_var s1 = next_type_var s" "int_vars s \<subseteq> int_vars s1"
      "int_literal_values s \<subseteq>\<^sub>m int_literal_values s1" "dom (int_literal_values s1) \<subseteq> int_vars s1"
      "v \<in> int_vars s \<Longrightarrow> int_like (int_vars s1) t"
      "\<forall>w\<in>int_vars s1. w \<in> int_vars s \<or> t = TVar w"
    using assms(6) domI [of "int_literal_values s", THEN subsetD [OF L]]
    by (auto simp: constrain_def int_like_def Let_def map_le_def dom_def split: if_splits Type.splits option.splits)
  have "int_like (int_vars s1) (resolve ?s' {} w)" if w: "w \<in> int_vars s1" for w
  proof -
    have r: "resolve ?s' {} w = inst (solve_var v t) (resolve ?s {} w)"
      using bind_resolve [OF ok assms(2,3) occ, of w] assms(4) by simp
    show ?thesis
    proof (cases "w \<in> int_vars s")
      case True
      with I have "int_like (int_vars s) (resolve ?s {} w)" by blast
      with s1(3,6) r show ?thesis by (auto simp: int_like_def solve_var_def split: Type.splits)
    next
      case False
      with w s1(7) have "t = TVar w" by blast
      with assms(4,5) w r show ?thesis by (auto simp: int_like_def solve_var_def)
    qed
  qed
  with ok' s1 have "inferencer_ok (insert_subst v t s1)" by (simp add: inferencer_ok_def insert_subst_def)
  moreover have "{w. unsolved ?s' w} \<subset> {w. unsolved ?s w}" using assms(2) by (auto simp: unsolved_def)
  ultimately show ?thesis
    using s1 assms(1) bind_extends [OF ok assms(2,3) occ] by (simp add: step_def insert_subst_def)
qed

section \<open>Settling\<close>

lemma settles_lift: "settles f (Ok x) \<Longrightarrow> settles (\<lambda>n. lift (f n)) (Ok x)"
  by (fastforce simp: settles_def)

lemma settles_fold:
  assumes "\<And>x t. x \<in> set xs \<Longrightarrow> R s t \<Longrightarrow> \<exists>r. settles (\<lambda>n. f n x t) r \<and> (\<forall>t'. r = Ok t' \<longrightarrow> R t t' \<and> Q x t')"
    and "R s s" and trans: "\<And>t u w. R t u \<Longrightarrow> R u w \<Longrightarrow> R t w" and refl: "\<And>t u. R t u \<Longrightarrow> R u u"
    and "\<And>x t u. x \<in> set xs \<Longrightarrow> Q x t \<Longrightarrow> R t u \<Longrightarrow> Q x u"
  shows "\<exists>r. settles (\<lambda>n. fold_out (f n) xs s) r \<and> (\<forall>s'. r = Ok s' \<longrightarrow> R s s' \<and> (\<forall>x\<in>set xs. Q x s'))"
  using assms(1,2,5)
proof (induction xs arbitrary: s)
  case Nil
  then show ?case by (intro exI [of _ "Ok s"]) simp
next
  case (Cons x xs)
  from Cons.prems(1) [of x s] Cons.prems(2) obtain r where
    r: "settles (\<lambda>n. f n x s) r" "\<And>t. r = Ok t \<Longrightarrow> R s t \<and> Q x t" by auto
  show ?case
  proof (cases r)
    case (Ok t)
    with r(2) have t: "R s t" "Q x t" by auto
    have "\<exists>r. settles (\<lambda>n. fold_out (f n) xs t) r \<and> (\<forall>s'. r = Ok s' \<longrightarrow> R t s' \<and> (\<forall>x\<in>set xs. Q x s'))"
    proof (rule Cons.IH)
      show "\<exists>r. settles (\<lambda>n. f n y u) r \<and> (\<forall>t'. r = Ok t' \<longrightarrow> R u t' \<and> Q y t')" if "y \<in> set xs" "R t u" for y u
        using Cons.prems(1) [of y u] that trans [OF t(1)] by simp
      show "R t t" by (rule refl [OF t(1)])
      show "Q y w" if "y \<in> set xs" "Q y u" "R u w" for y u w
        using Cons.prems(3) [of y u w] that by simp
    qed
    then obtain r' where r': "settles (\<lambda>n. fold_out (f n) xs t) r'"
      "\<And>s'. r' = Ok s' \<Longrightarrow> R t s' \<and> (\<forall>x\<in>set xs. Q x s')" by blast
    have "settles (\<lambda>n. fold_out (f n) (x # xs) s) r'"
      using settles_andthen [OF r(1) [unfolded Ok], where k = "\<lambda>n. fold_out (f n) xs"] r'(1) by simp
    moreover have "R s s' \<and> (\<forall>y\<in>set (x # xs). Q y s')" if "r' = Ok s'" for s'
    proof -
      from r'(2) [OF that] have *: "R t s'" "\<forall>x\<in>set xs. Q x s'" by auto
      with trans [OF t(1) *(1)] Cons.prems(3) [of x t s'] t(2) show ?thesis by simp
    qed
    ultimately show ?thesis by blast
  next
    case (Err e)
    with r(1) have "settles (\<lambda>n. fold_out (f n) (x # xs) s) (Err e)" by (simp add: settles_andthen_Err)
    then show ?thesis by blast
  next
    case Panic
    with r(1) show ?thesis by (simp add: settles_def)
  qed
qed

definition fails :: "(nat \<Rightarrow> ('e, 'a) outcome) \<Rightarrow> bool" where
  "fails f = (\<exists>e. settles f (Err e))"

lemma fails_then: "settles f (Ok x) \<Longrightarrow> fails (\<lambda>n. k n x) \<Longrightarrow> fails (\<lambda>n. andthen (f n) (k n))"
  unfolding fails_def using settles_andthen [of f x k] by blast

text \<open>What a call of \<open>unify\<close> promises.\<close>

definition unified :: "Inferencer \<Rightarrow> Type \<Rightarrow> Type \<Rightarrow> Inferencer \<Rightarrow> bool" where
  "unified s l r s' = (step s s' \<and> sim (full (solution s') l) (full (solution s') r))"

definition unify_ok :: "Inferencer \<Rightarrow> Type \<Rightarrow> Type \<Rightarrow> (TypeError, Inferencer \<times> Type) outcome \<Rightarrow> bool" where
  "unify_ok s l r res = (\<forall>s' t. res = Ok (s', t) \<longrightarrow> unified s l r s' \<and> covered t
     \<and> sim (full (solution s') t) (full (solution s') l))"

definition unifies :: "(nat \<Rightarrow> unifier) \<Rightarrow> Inferencer \<Rightarrow> Type \<Rightarrow> Type \<Rightarrow> bool" where
  "unifies u s l r = (\<forall>ls rs kind. \<exists>res. settles (\<lambda>n. u n s l r ls rs kind) res \<and> unify_ok s l r res)"

lemma step_ok: "step s s' \<Longrightarrow> inferencer_ok s'"
  by (simp add: step_def)

lemma step_sim:
  "step s s' \<Longrightarrow> covered l \<Longrightarrow> covered r \<Longrightarrow> sim (full (solution s) l) (full (solution s) r) \<Longrightarrow>
    sim (full (solution s') l) (full (solution s') r)"
  by (auto simp: step_def intro: sim_extends)

lemma settles_pairs:
  assumes "inferencer_ok s" "\<forall>t\<in>set ls \<union> set rs. covered t" "length ls = length rs"
    and call: "\<And>l r t. l \<in> set ls \<Longrightarrow> r \<in> set rs \<Longrightarrow> step s t \<Longrightarrow> unifies u t l r"
  shows "\<exists>res. settles (\<lambda>n. unify_pairs (u n) sp1 sp2 s ls rs) res
    \<and> (\<forall>s'. res = Ok s' \<longrightarrow> step s s' \<and> list_all2 (\<lambda>l r. sim (full (solution s') l) (full (solution s') r)) ls rs)"
proof -
  let ?f = "\<lambda>n. \<lambda>(l, r) s. andthen (u n s l r sp1 sp2 (GeneralMismatch l r)) (\<lambda>(s, _). Ok s)"
  let ?Q = "\<lambda>(l, r) s'. sim (full (solution s') l) (full (solution s') r)"
  have "\<exists>res. settles (\<lambda>n. fold_out (?f n) (zip ls rs) s) res
    \<and> (\<forall>s'. res = Ok s' \<longrightarrow> step s s' \<and> (\<forall>x\<in>set (zip ls rs). ?Q x s'))"
  proof (rule settles_fold)
    fix x t assume x: "x \<in> set (zip ls rs)" and st: "step s t"
    obtain l r where lr: "x = (l, r)" by (cases x)
    have "unifies u t l r" using call [of l r t] x st lr set_zip_leftD set_zip_rightD by metis
    then obtain res where
      res: "settles (\<lambda>n. u n t l r sp1 sp2 (GeneralMismatch l r)) res" "unify_ok t l r res"
      unfolding unifies_def by blast
    show "\<exists>r. settles (\<lambda>n. ?f n x t) r \<and> (\<forall>t'. r = Ok t' \<longrightarrow> step t t' \<and> ?Q x t')"
    proof (cases res)
      case (Ok p)
      then obtain s' w where p: "res = Ok (s', w)" by (cases p) auto
      with res have "settles (\<lambda>n. ?f n x t) (Ok s')" using settles_andthen [OF res(1) [unfolded p], where k = "\<lambda>n (s, _). Ok s"] lr by simp
      with res(2) p lr show ?thesis by (auto simp: unify_ok_def unified_def)
    next
      case (Err e)
      with res(1) lr show ?thesis by (intro exI [of _ "Err e"]) (simp add: settles_andthen_Err)
    next
      case Panic
      with res(1) show ?thesis by (simp add: settles_def)
    qed
  next
    show "step s s" by (rule step_refl [OF assms(1)])
    show "step t u \<Longrightarrow> step u w \<Longrightarrow> step t w" for t u w by (rule step_trans)
    show "step t u \<Longrightarrow> step u u" for t u using step_refl step_ok by blast
    show "x \<in> set (zip ls rs) \<Longrightarrow> ?Q x t \<Longrightarrow> step t u \<Longrightarrow> ?Q x u" for x t u
      using assms(2) by (auto intro: step_sim dest: set_zip_leftD set_zip_rightD)
  qed
  then obtain res where "settles (\<lambda>n. unify_pairs (u n) sp1 sp2 s ls rs) res"
    "\<And>s'. res = Ok s' \<Longrightarrow> step s s' \<and> (\<forall>x\<in>set (zip ls rs). ?Q x s')"
    unfolding unify_pairs_def by blast
  with assms(3) show ?thesis by (fastforce simp: list_all2_iff)
qed

section \<open>Binding a variable\<close>

lemma bind_settles:
  assumes "inferencer_ok s" "unsolved (solution s) v" "covered t" "full (solution s) t = t"
  shows "\<exists>res. settles (\<lambda>n. bind n s v t sp1 sp2 kind) res
    \<and> (\<forall>s'. res = Ok s' \<longrightarrow> step s s' \<and> full (solution s') (TVar v) = full (solution s') t)"
proof (cases "t = TVar v")
  case True
  then show ?thesis using step_refl [OF assms(1)] by (intro exI [of _ "Ok s"]) (simp add: bind_def)
next
  case False
  from assms(1) have ok: "subst_ok (solution s)" by (simp add: inferencer_ok_def)
  from contains_settles [OF ok assms(2,3)] assms(4)
  have c: "settles (\<lambda>n. lift (contains_var n v (solution s) t)) (Ok (v \<in> free_type_vars t))"
    by (auto intro: settles_lift)
  let ?e = "with_secondary (TypeError_new kind sp1) sp2 ''expected an integer type''"
  let ?b = "\<lambda>occurs. if occurs then Err (with_secondary (TypeError_new kind sp1) sp2 ''would create an infinite type'')
    else andthen (constrain ?e s v t) (\<lambda>s. Ok (insert_subst v t s))"
  have eq: "(\<lambda>n. bind n s v t sp1 sp2 kind) = (\<lambda>n. andthen (lift (contains_var n v (solution s) t)) ?b)"
    using False by (simp add: bind_def fun_eq_iff)
  have "constrain ?e s v t \<noteq> Panic" by (simp add: constrain_def Let_def split: Type.splits)
  then have "?b (v \<in> free_type_vars t) \<noteq> Panic" by (auto simp: outcome_simps)
  then have "settles (\<lambda>n. bind n s v t sp1 sp2 kind) (?b (v \<in> free_type_vars t))"
    unfolding eq by (intro settles_andthen [OF c]) simp
  moreover have "step s s' \<and> full (solution s') (TVar v) = full (solution s') t"
    if "?b (v \<in> free_type_vars t) = Ok s'" for s'
  proof -
    from that obtain s1 where v: "v \<notin> free_type_vars t" and s1: "constrain ?e s v t = Ok s1" "s' = insert_subst v t s1"
      by (auto simp: outcome_simps split: if_splits)
    have sol: "solution s1 = solution s"
      using s1(1) by (auto simp: constrain_def Let_def split: if_splits Type.splits option.splits)
    have occ: "v \<notin> free_type_vars (full (solution s) t)" using v assms(4) by simp
    have "inst (solve_var v t) t = inst TVar t"
      by (rule inst_cong [OF assms(3)]) (use v in \<open>auto simp: solve_var_def\<close>)
    then have "full ((solution s)(v \<mapsto> t)) (TVar v) = t" "full ((solution s)(v \<mapsto> t)) t = t"
      unfolding bind_full [OF ok assms(2,3) occ] assms(4)
      using assms(2) by (simp_all add: resolve_rec [OF ok] unsolved_def solve_var_def)
    with bind_step [OF assms v s1(1)] s1(2) sol show ?thesis by (simp add: insert_subst_def)
  qed
  ultimately show ?thesis by blast
qed

lemma format_settles:
  assumes "inferencer_ok s" "covered t"
  shows "settles (\<lambda>n. lift (format_type h n s t))
    (Ok (compact_display h (inst (resolve (solution s) (int_vars s)) t)))"
  unfolding format_type_def apply_for_display_def
  by (intro settles_lift settles_map substitute_settles assms) (use assms in \<open>simp add: inferencer_ok_def\<close>)

lemma apply_settles:
  assumes "inferencer_ok s" "covered t"
  shows "settles (\<lambda>n. apply_subst n s t) (Ok (full (solution s) t))"
  unfolding apply_subst_def by (rule substitute_settles) (use assms in \<open>simp_all add: inferencer_ok_def\<close>)

definition call_ok :: "(nat \<Rightarrow> (TypeError, Inferencer \<times> Type) outcome) \<Rightarrow> Inferencer \<Rightarrow> Type \<Rightarrow> Type \<Rightarrow> bool" where
  "call_ok f s l r = (\<exists>res. settles f res \<and> unify_ok s l r res)"

lemma call_ok_Err [intro]: "call_ok (\<lambda>n. Err e) s l r"
  by (auto simp: call_ok_def unify_ok_def)

lemma call_ok_same [intro]: "inferencer_ok s \<Longrightarrow> covered l \<Longrightarrow> call_ok (\<lambda>n. Ok (s, l)) s l l"
  by (auto simp: call_ok_def unify_ok_def unified_def step_refl)

lemma full_TVar: "unsolved (solution s) v \<Longrightarrow> inferencer_ok s \<Longrightarrow> full (solution s) (TVar v) = TVar v"
  by (simp add: inferencer_ok_def resolve_rec unsolved_def)

lemma normal_var: "inferencer_ok s \<Longrightarrow> full (solution s) (TVar v) = TVar v \<Longrightarrow> unsolved (solution s) v"
  using full_vars [of "solution s" "TVar v" v] by (simp add: inferencer_ok_def)

lemma bind_call:
  assumes "inferencer_ok s" "full (solution s) (TVar v) = TVar v" "covered t" "full (solution s) t = t"
  shows "call_ok (\<lambda>n. andthen (bind n s v t sp1 sp2 kind) (\<lambda>s. Ok (s, t))) s (TVar v) t"
    and "call_ok (\<lambda>n. andthen (bind n s v t sp1 sp2 kind) (\<lambda>s. Ok (s, t))) s t (TVar v)"
proof -
  from bind_settles [OF assms(1) normal_var [OF assms(1,2)] assms(3,4)] obtain res where
    res: "settles (\<lambda>n. bind n s v t sp1 sp2 kind) res"
    "\<And>s'. res = Ok s' \<Longrightarrow> step s s' \<and> full (solution s') (TVar v) = full (solution s') t" by blast
  have "\<exists>res'. settles (\<lambda>n. andthen (bind n s v t sp1 sp2 kind) (\<lambda>s. Ok (s, t))) res'
    \<and> (\<forall>s' u. res' = Ok (s', u) \<longrightarrow> u = t \<and> step s s' \<and> full (solution s') (TVar v) = full (solution s') t)"
  proof (cases res)
    case (Ok s')
    with res settles_map [of _ s' "\<lambda>s. (s, t)"] show ?thesis by (intro exI [of _ "Ok (s', t)"]) auto
  next
    case (Err e)
    with res(1) show ?thesis by (intro exI [of _ "Err e"]) (simp add: settles_andthen_Err)
  next
    case Panic
    with res(1) show ?thesis by (simp add: settles_def)
  qed
  with assms(3) show "call_ok (\<lambda>n. andthen (bind n s v t sp1 sp2 kind) (\<lambda>s. Ok (s, t))) s (TVar v) t"
    "call_ok (\<lambda>n. andthen (bind n s v t sp1 sp2 kind) (\<lambda>s. Ok (s, t))) s t (TVar v)"
    by (auto simp: call_ok_def unify_ok_def unified_def simp del: inst.simps(1))
qed

lemma rest_call:
  assumes "inferencer_ok s" "covered l" "covered r" "full (solution s) l = l" "full (solution s) r = r"
  shows "call_ok (\<lambda>n. unify_rest h n s l r sp1 sp2 kind) s l r"
proof -
  consider v where "l = TVar v" | v where "\<nexists>v. l = TVar v" "r = TVar v" | "\<nexists>v. l = TVar v" "\<nexists>v. r = TVar v" by blast
  then show ?thesis
  proof cases
    case 1
    with bind_call(1) [OF assms(1) _ assms(3,5), of v] assms(4) show ?thesis by (simp add: unify_rest_def)
  next
    case 2
    then have "(\<lambda>n. unify_rest h n s l r sp1 sp2 kind) = (\<lambda>n. andthen (bind n s v l sp2 sp1 kind) (\<lambda>s. Ok (s, l)))"
      by (cases l) (simp_all add: unify_rest_def)
    with bind_call(2) [OF assms(1) _ assms(2,4), of v] assms(5) 2 show ?thesis by simp
  next
    case 3
    let ?err = "TypeError_new kind sp1"
    have eq: "unify_rest h n s l r sp1 sp2 kind = (if sp1 \<noteq> sp2 then
              andthen (lift (format_type h n s l)) (\<lambda>left_repr.
              andthen (lift (format_type h n s r)) (\<lambda>right_repr.
              Err (with_secondary (with_primary_message ?err (''has type `'' @ left_repr @ ''`''))
                sp2 (''has type `'' @ right_repr @ ''`''))))
            else Err ?err)" for n
      using 3 by (cases l; cases r) (simp_all add: unify_rest_def Let_def)
    show ?thesis
    proof (cases "sp1 = sp2")
      case True
      then show ?thesis unfolding eq by auto
    next
      case False
      let ?k = "\<lambda>left_repr right_repr. Err (with_secondary (with_primary_message ?err (''has type `'' @ left_repr @ ''`''))
                sp2 (''has type `'' @ right_repr @ ''`''))"
      have "fails (\<lambda>n. andthen (lift (format_type h n s l)) (\<lambda>a. andthen (lift (format_type h n s r)) (?k a)))"
        by (rule fails_then [OF format_settles [OF assms(1,2)]], rule fails_then [OF format_settles [OF assms(1,3)]])
          (auto simp: fails_def)
      with False show ?thesis unfolding eq by (auto simp: call_ok_def fails_def unify_ok_def)
    qed
  qed
qed

section \<open>The structural cases\<close>

lemma call_ok_then:
  assumes "\<exists>res. settles f res \<and> (\<forall>s'. res = Ok s' \<longrightarrow> step s s' \<and> Q s')"
    and "\<And>s'. step s s' \<Longrightarrow> Q s' \<Longrightarrow> call_ok (\<lambda>n. k n s') s l r"
  shows "call_ok (\<lambda>n. andthen (f n) (k n)) s l r"
proof -
  from assms(1) obtain res where res: "settles f res" "\<And>s'. res = Ok s' \<Longrightarrow> step s s' \<and> Q s'" by blast
  show ?thesis
  proof (cases res)
    case (Ok s')
    with res assms(2) obtain r' where "settles (\<lambda>n. k n s') r'" "unify_ok s l r r'" by (auto simp: call_ok_def)
    with res(1) Ok settles_andthen [of f s' k] show ?thesis by (auto simp: call_ok_def)
  next
    case (Err e)
    with res(1) show ?thesis unfolding call_ok_def
      by (intro exI [of _ "Err e"]) (simp add: settles_andthen_Err unify_ok_def)
  next
    case Panic
    with res(1) show ?thesis by (simp add: settles_def)
  qed
qed

lemma call_ok_done:
  assumes "step s s'" "sim (full (solution s') l) (full (solution s') r)" "covered t"
    "sim (full (solution s') t) (full (solution s') l)"
  shows "call_ok (\<lambda>n. Ok (s', t)) s l r"
  unfolding call_ok_def by (intro exI [of _ "Ok (s', t)"]) (use assms in \<open>simp add: unify_ok_def unified_def\<close>)

lemma unifies_result:
  assumes "unifies u s l r"
  shows "\<exists>res. settles (\<lambda>n. andthen (u n s l r sp1 sp2 kind) (\<lambda>(s, _). Ok s)) res
    \<and> (\<forall>s'. res = Ok s' \<longrightarrow> step s s' \<and> sim (full (solution s') l) (full (solution s') r))"
proof -
  from assms obtain res where res: "settles (\<lambda>n. u n s l r sp1 sp2 kind) res" "unify_ok s l r res"
    unfolding unifies_def by blast
  show ?thesis
  proof (cases res)
    case (Ok p)
    then obtain s' w where p: "res = Ok (s', w)" by (cases p) auto
    with res show ?thesis
      using settles_andthen [OF res(1) [unfolded p], where k = "\<lambda>n (s, _). Ok s" and r = "Ok s'"]
      by (intro exI [of _ "Ok s'"]) (auto simp: unify_ok_def unified_def)
  next
    case (Err e)
    with res(1) show ?thesis by (intro exI [of _ "Err e"]) (simp add: settles_andthen_Err)
  next
    case Panic
    with res(1) show ?thesis by (simp add: settles_def)
  qed
qed

lemma param_child: "p \<in> set (fn_params f) \<Longrightarrow> param_ty p \<in> set_FunctionType f"
  by (cases f) (auto intro!: bexI TypedFunctionParam.set_sel)

lemma result_child: "fn_result f \<in> set_FunctionType f"
  by (cases f) auto

lemma field_child: "fd \<in> set (record_fields rt) \<Longrightarrow> field_ty fd \<in> set_RecordType rt"
  by (cases rt) (auto intro!: bexI RecordFieldType.set_sel)

lemma covered_function: "covered (TFunction f) = (\<forall>c\<in>set_FunctionType f. covered c)"
  using covered_node [of "TFunction f"] by simp

lemma functions_call:
  assumes s: "inferencer_ok s" and cov: "covered (TFunction l)" "covered (TFunction r)"
    and call: "\<And>c d t. c \<in> set_FunctionType l \<Longrightarrow> d \<in> set_FunctionType r \<Longrightarrow> step s t \<Longrightarrow> unifies u t c d"
  shows "call_ok (\<lambda>n. unify_functions (u n) s l r sp1 sp2 kind) s (TFunction l) (TFunction r)"
proof (cases "length (fn_params l) = length (fn_params r) \<and> fn_kind l = fn_kind r")
  case True
  let ?ls = "map param_ty (fn_params l)" and ?rs = "map param_ty (fn_params r)"
  have ch: "\<forall>t\<in>set_FunctionType l \<union> set_FunctionType r. covered t"
    using covered_children [OF cov(1)] covered_children [OF cov(2)] by auto
  have pairs: "\<exists>res. settles (\<lambda>n. unify_pairs (u n) sp1 sp2 s ?ls ?rs) res \<and> (\<forall>s'. res = Ok s' \<longrightarrow> step s s'
    \<and> list_all2 (\<lambda>l r. sim (full (solution s') l) (full (solution s') r)) ?ls ?rs)"
    by (rule settles_pairs [OF s])
      (use ch True in \<open>auto intro!: call dest: param_child\<close>)
  have cres: "covered (fn_result l)" "covered (fn_result r)" using ch result_child by blast+
  have finish: "call_ok (\<lambda>n. Ok (t, unified_function l r)) s (TFunction l) (TFunction r)"
    if st: "step s t" and ps: "list_all2 (\<lambda>l r. sim (full (solution t) l) (full (solution t) r)) ?ls ?rs"
      and rs: "sim (full (solution t) (fn_result l)) (full (solution t) (fn_result r))" for t
  proof (rule call_ok_done [OF st])
    show "sim (full (solution t) (TFunction l)) (full (solution t) (TFunction r))"
      using ps rs True
      by (auto simp: FunctionType.map_sel TypedFunctionParam.map_sel list_all2_map1 list_all2_map2 intro!: sim_function)
    show "sim (full (solution t) (unified_function l r)) (full (solution t) (TFunction l))"
      by (auto simp: unified_function_def FunctionType.map_sel TypedFunctionParam.map_sel list_all2_same
          intro!: sim_function)
    have "set_FunctionType (FunctionType (fn_kind l) (fn_name_span l) (fn_params l) (fn_result l) c) = set_FunctionType l"
      for c by (cases l) auto
    with ch show "covered (unified_function l r)"
      by (simp add: unified_function_def covered_function del: FunctionType.set covered.simps)
  qed
  have "call_ok (\<lambda>n. andthen (unify_pairs (u n) sp1 sp2 s ?ls ?rs) (\<lambda>s.
      andthen (andthen (u n s (fn_result l) (fn_result r) sp1 sp2 (GeneralMismatch (fn_result l) (fn_result r)))
        (\<lambda>(s, _). Ok s)) (\<lambda>s. Ok (s, unified_function l r)))) s (TFunction l) (TFunction r)"
  proof (rule call_ok_then [OF pairs])
    fix t assume t: "step s t" "list_all2 (\<lambda>l r. sim (full (solution t) l) (full (solution t) r)) ?ls ?rs"
    from unifies_result [OF call [OF result_child result_child t(1)]] obtain res where
      res: "settles (\<lambda>n. andthen (u n t (fn_result l) (fn_result r) sp1 sp2
          (GeneralMismatch (fn_result l) (fn_result r))) (\<lambda>(s, _). Ok s)) res"
        "\<And>t'. res = Ok t' \<Longrightarrow> step t t' \<and> sim (full (solution t') (fn_result l)) (full (solution t') (fn_result r))"
      by blast
    have "step s t' \<and> list_all2 (\<lambda>l r. sim (full (solution t') l) (full (solution t') r)) ?ls ?rs
        \<and> sim (full (solution t') (fn_result l)) (full (solution t') (fn_result r))" if "res = Ok t'" for t'
    proof -
      have "list_all2 (\<lambda>l r. sim (full (solution t') l) (full (solution t') r)) ?ls ?rs"
        using t(2) by (rule list.rel_mono_strong) (use res(2) [OF that] ch in \<open>auto intro: step_sim dest: param_child\<close>)
      with res(2) [OF that] step_trans [OF t(1)] show ?thesis by blast
    qed
    with res(1) have "\<exists>res. settles (\<lambda>n. andthen (u n t (fn_result l) (fn_result r) sp1 sp2
          (GeneralMismatch (fn_result l) (fn_result r))) (\<lambda>(s, _). Ok s)) res
        \<and> (\<forall>t'. res = Ok t' \<longrightarrow> step s t' \<and> (list_all2 (\<lambda>l r. sim (full (solution t') l) (full (solution t') r)) ?ls ?rs
        \<and> sim (full (solution t') (fn_result l)) (full (solution t') (fn_result r))))" by blast
    then show "call_ok (\<lambda>n. andthen (andthen (u n t (fn_result l) (fn_result r) sp1 sp2
        (GeneralMismatch (fn_result l) (fn_result r))) (\<lambda>(s, _). Ok s)) (\<lambda>s. Ok (s, unified_function l r)))
      s (TFunction l) (TFunction r)"
      by (rule call_ok_then) (use finish in blast)
  qed
  with True show ?thesis by (simp add: unify_functions_def andthen_assoc case_prod_beta')
next
  case False
  then show ?thesis
    by (cases "length (fn_params l) = length (fn_params r)") (auto simp: unify_functions_def)
qed

lemma tuples_call:
  assumes s: "inferencer_ok s" and cov: "covered (TTuple l)" "covered (TTuple r)"
    and call: "\<And>c d t. c \<in> set l \<Longrightarrow> d \<in> set r \<Longrightarrow> step s t \<Longrightarrow> unifies u t c d"
  shows "call_ok (\<lambda>n. unify_tuples (u n) s l r sp1 sp2 kind) s (TTuple l) (TTuple r)"
proof (cases "length l = length r")
  case True
  have "\<exists>res. settles (\<lambda>n. unify_pairs (u n) sp1 sp2 s l r) res \<and> (\<forall>s'. res = Ok s' \<longrightarrow> step s s'
    \<and> list_all2 (\<lambda>l r. sim (full (solution s') l) (full (solution s') r)) l r)"
    by (rule settles_pairs [OF s]) (use cov True in \<open>auto simp: list_all_iff intro: call\<close>)
  then have "call_ok (\<lambda>n. andthen (unify_pairs (u n) sp1 sp2 s l r) (\<lambda>s. Ok (s, TTuple l))) s (TTuple l) (TTuple r)"
    by (rule call_ok_then)
      (rule call_ok_done, use cov in \<open>auto simp: list_all2_map1 list_all2_map2 intro!: sim_tuple\<close>)
  with True show ?thesis by (simp add: unify_tuples_def)
next
  case False
  then show ?thesis by (auto simp: unify_tuples_def)
qed

lemma same_names_match:
  "length ls = length rs \<Longrightarrow> same_names ls rs = names_match ls rs"
  by (induction ls rs rule: list_induct2) (auto simp: same_names_def names_match_def)

lemma records_call:
  assumes s: "inferencer_ok s" and cov: "covered (TRecord l)" "covered (TRecord r)"
    and call: "\<And>c d t. c \<in> set_RecordType l \<Longrightarrow> d \<in> set_RecordType r \<Longrightarrow> step s t \<Longrightarrow> unifies u t c d"
  shows "call_ok (\<lambda>n. unify_records (u n) s l r sp1 sp2 kind) s (TRecord l) (TRecord r)"
proof (cases "length (record_fields l) = length (record_fields r) \<and> same_names (record_fields l) (record_fields r)")
  case True
  let ?ls = "map field_ty (record_fields l)" and ?rs = "map field_ty (record_fields r)"
  have ch: "\<forall>t\<in>set_RecordType l \<union> set_RecordType r. covered t"
    using covered_children [OF cov(1)] covered_children [OF cov(2)] by auto
  have "\<exists>res. settles (\<lambda>n. unify_pairs (u n) sp1 sp2 s ?ls ?rs) res \<and> (\<forall>s'. res = Ok s' \<longrightarrow> step s s'
    \<and> list_all2 (\<lambda>l r. sim (full (solution s') l) (full (solution s') r)) ?ls ?rs)"
    by (rule settles_pairs [OF s]) (use ch True in \<open>auto intro!: call dest: field_child\<close>)
  then have "call_ok (\<lambda>n. andthen (unify_pairs (u n) sp1 sp2 s ?ls ?rs) (\<lambda>s. Ok (s, TRecord l)))
    s (TRecord l) (TRecord r)"
    by (rule call_ok_then)
      (rule call_ok_done, use cov True same_names_match in
        \<open>auto simp: RecordType.map_sel RecordFieldType.map_sel list_all2_map1 list_all2_map2 names_match_map intro!: sim_record\<close>)
  with True show ?thesis by (simp add: unify_records_def)
next
  case False
  then show ?thesis by (auto simp: unify_records_def)
qed

lemma kind_field_child: "fd \<in> set fds \<Longrightarrow> field_ty fd \<in> set_EnumVariantKind (EV_Struct fds)"
  by (auto intro!: bexI RecordFieldType.set_sel)

lemma kind_child: "v \<in> set (enum_variants e) \<Longrightarrow> t \<in> set_EnumVariantKind (variant_kind v) \<Longrightarrow> t \<in> set_EnumType e"
  by (cases e; cases v) force

lemma variant_settles:
  assumes s: "inferencer_ok s" and cov: "\<forall>t\<in>set_EnumVariantKind (variant_kind l). covered t"
    "\<forall>t\<in>set_EnumVariantKind (variant_kind r). covered t" and name: "ident_eq (variant_name l) (variant_name r)"
    and call: "\<And>c d t. c \<in> set_EnumVariantKind (variant_kind l) \<Longrightarrow> d \<in> set_EnumVariantKind (variant_kind r)
      \<Longrightarrow> step s t \<Longrightarrow> unifies u t c d"
  shows "\<exists>res. settles (\<lambda>n. unify_variant (u n) sp1 sp2 kind (l, r) s) res
    \<and> (\<forall>s'. res = Ok s' \<longrightarrow> step s s' \<and> variant_sim (\<lambda>l r. sim (full (solution s') l) (full (solution s') r)) l r)"
proof -
  have err: "\<exists>res. settles (\<lambda>n. Err e) res \<and> (\<forall>s'. res = Ok s' \<longrightarrow> P s')" for e :: TypeError and P :: "Inferencer \<Rightarrow> bool"
    by (intro exI [of _ "Err e"]) simp
  show ?thesis
  proof (cases "variant_kind l"; cases "variant_kind r")
    assume "variant_kind l = EV_Unit" "variant_kind r = EV_Unit"
    with name step_refl [OF s] show ?thesis
      by (intro exI [of _ "Ok s"]) (simp add: unify_variant_def variant_sim_def)
  next
    fix ls rs assume k: "variant_kind l = EV_Tuple ls" "variant_kind r = EV_Tuple rs"
    show ?thesis
    proof (cases "length ls = length rs")
      case True
      have "\<exists>res. settles (\<lambda>n. unify_pairs (u n) sp1 sp2 s ls rs) res \<and> (\<forall>s'. res = Ok s' \<longrightarrow> step s s'
        \<and> list_all2 (\<lambda>l r. sim (full (solution s') l) (full (solution s') r)) ls rs)"
        by (rule settles_pairs [OF s]) (use cov k True call in auto)
      with k name True show ?thesis by (simp add: unify_variant_def variant_sim_def)
    next
      case False
      with k err show ?thesis by (simp add: unify_variant_def)
    qed
  next
    fix ls rs assume k: "variant_kind l = EV_Struct ls" "variant_kind r = EV_Struct rs"
    show ?thesis
    proof (cases "length ls = length rs \<and> same_names ls rs")
      case True
      have "\<exists>res. settles (\<lambda>n. unify_pairs (u n) sp1 sp2 s (map field_ty ls) (map field_ty rs)) res
        \<and> (\<forall>s'. res = Ok s' \<longrightarrow> step s s'
        \<and> list_all2 (\<lambda>l r. sim (full (solution s') l) (full (solution s') r)) (map field_ty ls) (map field_ty rs))"
      proof (rule settles_pairs [OF s])
        show "\<forall>t\<in>set (map field_ty ls) \<union> set (map field_ty rs). covered t"
          using cov kind_field_child unfolding k by fastforce
        show "unifies u t a b" if "a \<in> set (map field_ty ls)" "b \<in> set (map field_ty rs)" "step s t" for a b t
          using that kind_field_child by (intro call) (auto simp: k)
      qed (use True in simp)
      moreover have "names_match ls rs" using True by (simp add: same_names_match [symmetric])
      ultimately show ?thesis using k name True by (simp add: unify_variant_def variant_sim_def)
    next
      case False
      with k err show ?thesis by (auto simp: unify_variant_def Let_def)
    qed
  qed (use err in \<open>simp_all add: unify_variant_def\<close>)
qed

lemma kind_sim_strong:
  "kind_sim P l r \<Longrightarrow> (\<And>x y. x \<in> set_EnumVariantKind l \<Longrightarrow> y \<in> set_EnumVariantKind r \<Longrightarrow> P x y \<Longrightarrow> Q x y)
    \<Longrightarrow> kind_sim Q l r"
proof (induction P l r rule: kind_sim.induct)
  case (2 P ls rs)
  then show ?case by (auto elim: list.rel_mono_strong)
next
  case (3 P ls rs)
  from 3(1) have "list_all2 P (map field_ty ls) (map field_ty rs)" by simp
  then have "list_all2 Q (map field_ty ls) (map field_ty rs)"
    by (rule list.rel_mono_strong) (auto intro: 3(2) [OF kind_field_child kind_field_child])
  with 3(1) show ?case by simp
qed simp_all

lemma enums_call:
  assumes s: "inferencer_ok s" and cov: "covered (TEnum l)" "covered (TEnum r)"
    and call: "\<And>c d t. c \<in> set_EnumType l \<Longrightarrow> d \<in> set_EnumType r \<Longrightarrow> step s t \<Longrightarrow> unifies u t c d"
  shows "call_ok (\<lambda>n. unify_enums (u n) s l r sp1 sp2 kind) s (TEnum l) (TEnum r)"
proof (cases "length (enum_variants l) = length (enum_variants r)
    \<and> \<not> list_ex (\<lambda>(l, r). \<not> ident_eq (variant_name l) (variant_name r)) (zip (enum_variants l) (enum_variants r))")
  case True
  let ?zs = "zip (enum_variants l) (enum_variants r)"
  let ?Q = "\<lambda>p s'. variant_sim (\<lambda>l r. sim (full (solution s') l) (full (solution s') r)) (fst p) (snd p)"
  have ch: "\<forall>t\<in>set_EnumType l. covered t" "\<forall>t\<in>set_EnumType r. covered t"
    using covered_children [OF cov(1)] covered_children [OF cov(2)] by auto
  have "\<exists>res. settles (\<lambda>n. fold_out (unify_variant (u n) sp1 sp2 kind) ?zs s) res
      \<and> (\<forall>s'. res = Ok s' \<longrightarrow> step s s' \<and> (\<forall>p\<in>set ?zs. ?Q p s'))"
  proof (rule settles_fold)
    fix p t assume p: "p \<in> set ?zs" and st: "step s t"
    obtain a b where ab: "p = (a, b)" by (cases p)
    with p have vs: "a \<in> set (enum_variants l)" "b \<in> set (enum_variants r)"
      by (auto dest: set_zip_leftD set_zip_rightD)
    have "\<exists>res. settles (\<lambda>n. unify_variant (u n) sp1 sp2 kind (a, b) t) res
      \<and> (\<forall>s'. res = Ok s' \<longrightarrow> step t s' \<and> variant_sim (\<lambda>l r. sim (full (solution s') l) (full (solution s') r)) a b)"
    proof (rule variant_settles)
      show "inferencer_ok t" by (rule step_ok [OF st])
      show "\<forall>t\<in>set_EnumVariantKind (variant_kind a). covered t" "\<forall>t\<in>set_EnumVariantKind (variant_kind b). covered t"
        using ch kind_child [OF vs(1)] kind_child [OF vs(2)] by simp_all
      show "ident_eq (variant_name a) (variant_name b)" using True p ab by (auto simp: list_ex_iff)
      show "unifies u w c d" if "c \<in> set_EnumVariantKind (variant_kind a)" "d \<in> set_EnumVariantKind (variant_kind b)" "step t w"
        for c d w
        by (rule call [OF kind_child [OF vs(1) that(1)] kind_child [OF vs(2) that(2)] step_trans [OF st that(3)]])
    qed
    with ab show "\<exists>r. settles (\<lambda>n. unify_variant (u n) sp1 sp2 kind p t) r
      \<and> (\<forall>t'. r = Ok t' \<longrightarrow> step t t' \<and> ?Q p t')" by simp
  next
    show "step s s" by (rule step_refl [OF s])
    show "step t u \<Longrightarrow> step u w \<Longrightarrow> step t w" for t u w by (rule step_trans)
    show "step t u \<Longrightarrow> step u u" for t u using step_refl step_ok by blast
    show "?Q p u" if p: "p \<in> set ?zs" and q: "?Q p t" and st: "step t u" for p t u
    proof -
      obtain a b where ab: "p = (a, b)" by (cases p)
      with p have vs: "a \<in> set (enum_variants l)" "b \<in> set (enum_variants r)"
        by (auto dest: set_zip_leftD set_zip_rightD)
      from q have "kind_sim (\<lambda>l r. sim (full (solution u) l) (full (solution u) r)) (variant_kind a) (variant_kind b)"
        unfolding variant_sim_def ab fst_conv snd_conv
        by (elim conjE kind_sim_strong) (use ch kind_child [OF vs(1)] kind_child [OF vs(2)] step_sim [OF st] in simp)
      with q ab show ?thesis by (simp add: variant_sim_def)
    qed
  qed
  then have "call_ok (\<lambda>n. andthen (fold_out (unify_variant (u n) sp1 sp2 kind) ?zs s) (\<lambda>s. Ok (s, TEnum l)))
    s (TEnum l) (TEnum r)"
  proof (rule call_ok_then)
    fix t assume st: "step s t" and q: "\<forall>p\<in>set ?zs. ?Q p t"
    have "variant_sim sim (map_EnumVariantType (inst \<rho>) a) (map_EnumVariantType (inst \<rho>) b)"
      if "variant_sim (\<lambda>l r. sim (inst \<rho> l) (inst \<rho> r)) a b" for a b \<rho>
      using that by (auto simp: variant_sim_def EnumVariantType.map_sel elim: kind_sim_map)
    with q have "list_all2 (\<lambda>a b. variant_sim sim (map_EnumVariantType (inst (resolve (solution t) {})) a)
        (map_EnumVariantType (inst (resolve (solution t) {})) b)) (enum_variants l) (enum_variants r)"
      using True by (auto simp: list_all2_iff)
    then show "call_ok (\<lambda>n. Ok (t, TEnum l)) s (TEnum l) (TEnum r)"
      by (intro call_ok_done [OF st])
        (use cov in \<open>auto simp: EnumType.map_sel list_all2_map1 list_all2_map2 intro!: sim_enum\<close>)
  qed
  with True show ?thesis by (simp add: unify_enums_def)
next
  case False
  then show ?thesis by (auto simp: unify_enums_def)
qed

section \<open>unify\<close>

definition arcs_sound :: "Host \<Rightarrow> bool" where
  "arcs_sound h = (\<forall>a b. same_arc h a b \<longrightarrow> a = b)"

lemma call_ok_if:
  "(b \<Longrightarrow> call_ok f s l r) \<Longrightarrow> (\<not> b \<Longrightarrow> call_ok g s l r) \<Longrightarrow> call_ok (\<lambda>n. if b then f n else g n) s l r"
  by (cases b) simp_all

lemma body_call:
  assumes s: "inferencer_ok s" and h: "arcs_sound h" and cov: "covered l" "covered r"
    and norm: "full (solution s) l = l" "full (solution s) r = r"
    and call: "\<And>c d t. c \<in> children l \<Longrightarrow> d \<in> children r \<Longrightarrow> step s t \<Longrightarrow> unifies u t c d"
  shows "call_ok (\<lambda>n. unify_resolved h n (u n) s l r sp1 sp2 kind) s l r"
proof -
  note rest = rest_call [OF s cov norm, of h sp1 sp2 kind]
  have same: "call_ok (\<lambda>n. Ok (s, l)) s l r" if "r = l" using that s cov by auto
  have arc: "call_ok (\<lambda>n. Ok (s, l)) s l r" if "same_arc h l r" using that h same by (auto simp: arcs_sound_def)
  show ?thesis
  proof (cases l)
    case (TFunction a)
    show ?thesis
    proof (cases r)
      case (TFunction b)
      show ?thesis
        unfolding \<open>l = TFunction a\<close> \<open>r = TFunction b\<close> unify_resolved_def Let_def Type.case
        by (rule call_ok_if, use arc \<open>l = TFunction a\<close> \<open>r = TFunction b\<close> in blast, rule functions_call [OF s])
          (use cov call \<open>l = TFunction a\<close> \<open>r = TFunction b\<close> in simp_all)
    qed (use rest \<open>l = TFunction a\<close> in \<open>simp_all add: unify_resolved_def Let_def\<close>)
  next
    case (TTuple a)
    show ?thesis
    proof (cases r)
      case (TTuple b)
      show ?thesis
        unfolding \<open>l = TTuple a\<close> \<open>r = TTuple b\<close> unify_resolved_def Let_def Type.case
        by (rule call_ok_if, use arc \<open>l = TTuple a\<close> \<open>r = TTuple b\<close> in blast, rule tuples_call [OF s])
          (use cov call \<open>l = TTuple a\<close> \<open>r = TTuple b\<close> in simp_all)
    qed (use rest \<open>l = TTuple a\<close> in \<open>simp_all add: unify_resolved_def Let_def\<close>)
  next
    case (TRecord a)
    show ?thesis
    proof (cases r)
      case (TRecord b)
      show ?thesis
        unfolding \<open>l = TRecord a\<close> \<open>r = TRecord b\<close> unify_resolved_def Let_def Type.case
        by (rule call_ok_if, use arc \<open>l = TRecord a\<close> \<open>r = TRecord b\<close> in blast, rule records_call [OF s])
          (use cov call \<open>l = TRecord a\<close> \<open>r = TRecord b\<close> in simp_all)
    qed (use rest \<open>l = TRecord a\<close> in \<open>simp_all add: unify_resolved_def Let_def\<close>)
  next
    case (TEnum a)
    show ?thesis
    proof (cases r)
      case (TEnum b)
      show ?thesis
        unfolding \<open>l = TEnum a\<close> \<open>r = TEnum b\<close> unify_resolved_def Let_def Type.case
        by (rule call_ok_if, use arc \<open>l = TEnum a\<close> \<open>r = TEnum b\<close> in blast, rule enums_call [OF s])
          (use cov call \<open>l = TEnum a\<close> \<open>r = TEnum b\<close> in simp_all)
    qed (use rest \<open>l = TEnum a\<close> in \<open>simp_all add: unify_resolved_def Let_def\<close>)
  next
    case (TUtxo a)
    with rest arc show ?thesis by (cases r) (simp_all add: unify_resolved_def Let_def call_ok_if)
  next
    case (TToken a)
    with rest arc show ?thesis by (cases r) (simp_all add: unify_resolved_def Let_def call_ok_if)
  next
    case (TAbi a)
    with rest arc show ?thesis by (cases r) (simp_all add: unify_resolved_def Let_def call_ok_if)
  qed (use rest same in \<open>auto simp: unify_resolved_def Let_def intro: call_ok_if\<close>)
qed

lemma unify_ok_resolved:
  assumes "unify_ok s (full (solution s) l) (full (solution s) r) res" "covered l" "covered r"
  shows "unify_ok s l r res"
  unfolding unify_ok_def
proof (intro allI impI)
  fix s' t assume "res = Ok (s', t)"
  with assms(1) have u: "step s s'" "sim (full (solution s') (full (solution s) l)) (full (solution s') (full (solution s) r))"
    "covered t" "sim (full (solution s') t) (full (solution s') (full (solution s) l))"
    by (simp_all add: unify_ok_def unified_def)
  then have e: "full (solution s') (full (solution s) l) = full (solution s') l"
    "full (solution s') (full (solution s) r) = full (solution s') r"
    using assms(2,3) by (simp_all add: step_def extends_def)
  show "unified s l r s' \<and> covered t \<and> sim (full (solution s') t) (full (solution s') l)"
    using u unfolding e by (simp add: unified_def)
qed

theorem unify_calls:
  assumes h: "arcs_sound h"
  shows "inferencer_ok s \<Longrightarrow> covered l \<Longrightarrow> covered r \<Longrightarrow> unifies (\<lambda>n. unify n h) s l r"
proof (induction "card {v. unsolved (solution s) v}" arbitrary: s l r rule: less_induct)
  case less
  note s = less.prems(1)
  then have ok: "subst_ok (solution s)" by (simp add: inferencer_ok_def)
  have "unifies (\<lambda>n. unify n h) s l r" if "full (solution s) l = L" "covered l" "covered r" for L l r
    using that
  proof (induction L arbitrary: l r rule: Type_induct)
    case (leaf L)
    let ?R = "full (solution s) r"
    have cov: "covered L" "covered ?R"
      using leaf.prems full_covered [OF ok] by auto
    have norm: "full (solution s) L = L" "full (solution s) ?R = ?R"
      using leaf.prems full_idem [OF ok] by auto
    have normal_child: "full (solution s) c = c" if "c \<in> children L" for c
    proof (rule full_unsolved [OF ok covered_children [OF cov(1) that]])
      show "\<forall>w\<in>free_type_vars c. unsolved (solution s) w"
        using free_vars_child [OF cov(1) that] full_vars [OF ok cov(1)] norm(1) by auto
    qed
    have call: "unifies (\<lambda>n. unify n h) t c d" if c: "c \<in> children L" and d: "d \<in> children ?R" and st: "step s t" for c d t
    proof (cases "t = s")
      case True
      with leaf.IH [OF c normal_child [OF c] covered_children [OF cov(1) c] covered_children [OF cov(2) d]]
      show ?thesis by simp
    next
      case False
      with st have "card {v. unsolved (solution t) v} < card {v. unsolved (solution s) v}"
        by (intro psubset_card_mono) (auto simp: step_def)
      from less.hyps [OF this step_ok [OF st] covered_children [OF cov(1) c] covered_children [OF cov(2) d]]
      show ?thesis .
    qed
    show ?case
      unfolding unifies_def
    proof (intro allI)
      fix sp1 sp2 kind
      have "call_ok (\<lambda>n. unify_resolved h n (unify n h) s L ?R sp1 sp2 kind) s L ?R"
        by (rule body_call [OF s h cov norm call])
      then obtain res where ok': "unify_ok s L ?R res"
        and body: "settles (\<lambda>n. unify_resolved h n (unify n h) s L ?R sp1 sp2 kind) res"
        by (auto simp: call_ok_def)
      let ?k = "\<lambda>x n y. unify_resolved h n (unify n h) s x y sp1 sp2 kind"
      have L: "settles (\<lambda>n. lift (apply_subst n s l)) (Ok L)" "settles (\<lambda>n. lift (apply_subst n s r)) (Ok ?R)"
        using settles_lift [OF apply_settles [OF s leaf.prems(2)]] settles_lift [OF apply_settles [OF s leaf.prems(3)]]
          leaf.prems(1) by simp_all
      have "settles (\<lambda>n. unify (Suc n) h s l r sp1 sp2 kind) res"
        unfolding unify.simps unify_step_def
        using settles_andthen [OF L(1), of "\<lambda>n x. andthen (lift (apply_subst n s r)) (?k x n)"]
          settles_andthen [OF L(2), of "?k L"] body by blast
      note body = settles_Suc [of "\<lambda>n. unify n h s l r sp1 sp2 kind", OF this]
      have "unify_ok s l r res"
        by (rule unify_ok_resolved [OF _ leaf.prems(2,3)]) (use ok' leaf.prems(1) in simp)
      with body show "\<exists>res. settles (\<lambda>n. unify n h s l r sp1 sp2 kind) res \<and> unify_ok s l r res"
        by blast
    qed
  qed
  then show ?case using less.prems by blast
qed

end
