(* ===== verification/Unify_Literals.thy ===== *)
theory Unify_Literals
  imports Unify_Sound
begin

text \<open>
  Integer literals: defaulting solves every variable of an integer literal whatever the order in which the
  set is visited, although it overwrites solved variables on the way, and keeps the types inferred.
\<close>

section \<open>Overwriting a variable that is not solved to a type\<close>

lemma subst_ok_int: "subst_ok s \<Longrightarrow> subst_ok (s(v \<mapsto> Type_int))"
proof -
  assume ok: "subst_ok s"
  then obtain r where "ranked r s" by (auto simp: subst_ok_def)
  then have "ranked r (s(v \<mapsto> Type_int))" by (simp add: ranked_def)
  with ok show ?thesis by (auto simp: subst_ok_def)
qed

definition is_var :: "Type \<Rightarrow> bool" where
  "is_var t = (\<exists>x. t = TVar x)"

lemma is_var_TVar [simp]: "is_var (TVar x)"
  by (simp add: is_var_def)

lemma inst_int_like: "int_like I (inst \<rho> t) \<Longrightarrow> (\<exists>w. t = TInt w) \<or> is_var t"
  by (cases t) (auto simp: int_like_def is_var_def)

lemma default_resolve:
  assumes ok: "subst_ok s" and v: "is_var (resolve s {} v)"
  shows "int_like I (resolve s {} w) \<Longrightarrow> resolve (s(v \<mapsto> Type_int)) {} w = resolve s {} w
    \<or> is_var (resolve s {} w) \<and> resolve (s(v \<mapsto> Type_int)) {} w = Type_int"
proof (rule subst_induct [OF ok, where v = w, THEN mp], intro impI)
  let ?s = "s(v \<mapsto> Type_int)"
  note ok' = subst_ok_int [OF ok, of v]
  fix w assume IH: "\<And>t x. s w = Some t \<Longrightarrow> x \<in> free_type_vars t \<Longrightarrow> int_like I (resolve s {} x) \<longrightarrow>
      resolve ?s {} x = resolve s {} x \<or> is_var (resolve s {} x) \<and> resolve ?s {} x = Type_int"
    and like: "int_like I (resolve s {} w)"
  show "resolve ?s {} w = resolve s {} w \<or> is_var (resolve s {} w) \<and> resolve ?s {} w = Type_int"
  proof (cases "w = v \<or> s w = None")
    case True
    then show ?thesis
    proof (cases "w = v")
      case True
      with v show ?thesis by (simp add: resolve_rec [OF ok', of "{}" v])
    qed (simp add: resolve_rec [OF ok', of "{}" w] resolve_rec [OF ok, of "{}" w])
  next
    case False
    then obtain t where t: "w \<noteq> v" "s w = Some t" by auto
    with like have "int_like I (full s t)" by (simp add: resolve_rec [OF ok, of "{}" w])
    with inst_int_like [of I "resolve s {}" t] consider k where "t = TInt k" | x where "t = TVar x" by (auto simp: is_var_def)
    then show ?thesis
    proof cases
      case 1
      with t show ?thesis by (simp add: resolve_rec [OF ok', of "{}" w] resolve_rec [OF ok, of "{}" w])
    next
      case 2
      with t IH [of t x] \<open>int_like I (full s t)\<close> show ?thesis
        by (simp add: resolve_rec [OF ok', of "{}" w] resolve_rec [OF ok, of "{}" w])
    qed
  qed
qed

section \<open>Defaulting\<close>

text \<open>\<open>u\<close> is \<open>s\<close> with some variables defaulted.\<close>

definition defaulted :: "Inferencer \<Rightarrow> Inferencer \<Rightarrow> bool" where
  "defaulted s u = (inferencer_ok s \<and> inferencer_ok u \<and> int_vars u = int_vars s
     \<and> (\<forall>v\<in>int_vars s. resolve (solution u) {} v = resolve (solution s) {} v
         \<or> is_var (resolve (solution s) {} v) \<and> resolve (solution u) {} v = Type_int))"

lemma defaulted_refl: "inferencer_ok s \<Longrightarrow> defaulted s s"
  by (simp add: defaulted_def)

lemma not_is_var_int: "\<not> is_var Type_int"
  by (simp add: is_var_def Type_int_def)

lemma defaulted_trans: "defaulted s t \<Longrightarrow> defaulted t u \<Longrightarrow> defaulted s u"
  unfolding defaulted_def using not_is_var_int by (metis (no_types))

definition int_typed :: "TypeVarId \<Rightarrow> Inferencer \<Rightarrow> bool" where
  "int_typed v s = (v \<in> int_vars s \<and> \<not> is_var (resolve (solution s) {} v))"

lemma int_typed_defaulted: "int_typed v t \<Longrightarrow> defaulted t u \<Longrightarrow> int_typed v u"
  unfolding defaulted_def int_typed_def by (metis (no_types))

lemma default_step:
  assumes "inferencer_ok s" "v \<in> int_vars s"
  shows "\<exists>u. settles (\<lambda>n. default_int_var n v s) (Ok u) \<and> defaulted s u \<and> int_typed v u"
proof -
  let ?t = "resolve (solution s) {} v"
  let ?u = "case ?t of TVar _ \<Rightarrow> insert_subst v Type_int s | _ \<Rightarrow> s"
  from assms have ok: "subst_ok (solution s)" and like: "\<forall>w\<in>int_vars s. int_like (int_vars s) (resolve (solution s) {} w)"
    by (simp_all add: inferencer_ok_def)
  have "settles (\<lambda>n. apply_subst n s (TVar v)) (Ok ?t)"
    using apply_settles [OF assms(1), of "TVar v"] by simp
  then have st: "settles (\<lambda>n. default_int_var n v s) (Ok ?u)"
    unfolding default_int_var_def by (rule settles_andthen) simp
  have "defaulted s ?u \<and> int_typed v ?u"
  proof (cases "is_var ?t")
    case True
    then have u: "?u = insert_subst v Type_int s" by (auto simp: is_var_def)
    note dr = default_resolve [OF ok True]
    have new: "resolve ((solution s)(v \<mapsto> Type_int)) {} v = Type_int"
      by (simp add: resolve_rec [OF subst_ok_int [OF ok], of v "{}" v])
    have like': "int_like (int_vars s) (resolve ((solution s)(v \<mapsto> Type_int)) {} w)" if "w \<in> int_vars s" for w
      using dr [of "int_vars s" w] like that by (auto simp: int_like_def Type_int_def)
    with assms(1) subst_ok_int [OF ok] have "inferencer_ok ?u"
      by (simp add: u inferencer_ok_def insert_subst_def)
    with assms u new dr like not_is_var_int show ?thesis
      by (auto simp: defaulted_def int_typed_def insert_subst_def)
  next
    case False
    then have "?u = s" by (cases ?t) (simp_all add: is_var_def)
    with False assms show ?thesis by (simp add: defaulted_refl int_typed_def)
  qed
  with st show ?thesis by blast
qed

lemma settles_fold_Ok:
  assumes "\<And>x t. x \<in> set xs \<Longrightarrow> I t \<Longrightarrow> \<exists>u. settles (\<lambda>n. f n x t) (Ok u) \<and> I u \<and> R t u \<and> Q x u"
    and "I s" "R s s" and trans: "\<And>t u w. R t u \<Longrightarrow> R u w \<Longrightarrow> R t w"
    and keep: "\<And>x t u. Q x t \<Longrightarrow> R t u \<Longrightarrow> Q x u"
    and refl: "\<And>t. I t \<Longrightarrow> R t t"
  shows "\<exists>u. settles (\<lambda>n. fold_out (f n) xs s) (Ok u) \<and> I u \<and> R s u \<and> (\<forall>x\<in>set xs. Q x u)"
  using assms(1-3)
proof (induction xs arbitrary: s)
  case Nil
  then show ?case by (intro exI [of _ s]) simp
next
  case (Cons x xs)
  from Cons.prems obtain t where t: "settles (\<lambda>n. f n x s) (Ok t)" "I t" "R s t" "Q x t" by (metis list.set_intros(1))
  from Cons.IH [of t] Cons.prems(1) t(2) refl obtain u where
    u: "settles (\<lambda>n. fold_out (f n) xs t) (Ok u)" "I u" "R t u" "\<forall>y\<in>set xs. Q y u" by (metis list.set_intros(2))
  have "settles (\<lambda>n. fold_out (f n) (x # xs) s) (Ok u)"
    using settles_andthen [where k = "\<lambda>n. fold_out (f n) xs", OF t(1) u(1)] by simp
  with t u trans keep show ?case by (intro exI [of _ u]) auto
qed

lemma defaults:
  assumes "inferencer_ok s" "set order \<subseteq> int_vars s"
  shows "\<exists>u. settles (\<lambda>n. fold_out (default_int_var n) order s) (Ok u) \<and> defaulted s u \<and> (\<forall>v\<in>set order. int_typed v u)"
proof -
  let ?I = "\<lambda>t. inferencer_ok t \<and> int_vars t = int_vars s"
  have "\<exists>u. settles (\<lambda>n. fold_out (default_int_var n) order s) (Ok u) \<and> ?I u \<and> defaulted s u
    \<and> (\<forall>v\<in>set order. int_typed v u)"
  proof (rule settles_fold_Ok [where I = ?I])
    fix v t assume that: "v \<in> set order" "?I t"
    with assms(2) obtain u where u: "settles (\<lambda>n. default_int_var n v t) (Ok u)" "defaulted t u" "int_typed v u"
      using default_step [of t v] by auto
    from u(2) that have "?I u" by (simp add: defaulted_def)
    with u show "\<exists>u. settles (\<lambda>n. default_int_var n v t) (Ok u) \<and> ?I u \<and> defaulted t u \<and> int_typed v u" by blast
  qed (use assms(1) in \<open>auto intro: defaulted_refl defaulted_trans int_typed_defaulted\<close>)
  then show ?thesis by blast
qed

lemma int_typed_width: "inferencer_ok s \<Longrightarrow> int_typed v s \<Longrightarrow> \<exists>w. resolve (solution s) {} v = TInt w"
  using inst_int_like [of "int_vars s" TVar "resolve (solution s) {} v"]
  by (auto simp: inferencer_ok_def int_typed_def resolve_covered)

lemma default_widths:
  assumes "defaulted s u" "\<forall>v\<in>int_vars s. int_typed v u"
  shows "\<exists>M. \<forall>n\<ge>M. \<forall>v\<in>int_vars s. apply_subst n u (TVar v)
    = Ok (TInt (case apply_subst n s (TVar v) of Ok (TInt w) \<Rightarrow> w | _ \<Rightarrow> I64))"
proof -
  let ?s = "\<lambda>v. resolve (solution s) {} v" and ?u = "\<lambda>v. resolve (solution u) {} v"
  from assms(1) have ok: "inferencer_ok s" "inferencer_ok u" by (simp_all add: defaulted_def)
  have "\<exists>M. \<forall>n\<ge>M. apply_subst n u (TVar v) = Ok (TInt (case apply_subst n s (TVar v) of Ok (TInt w) \<Rightarrow> w | _ \<Rightarrow> I64))"
    if v: "v \<in> int_vars s" for v
  proof -
    from apply_settles [OF ok(1), of "TVar v"] apply_settles [OF ok(2), of "TVar v"]
    obtain N M where "\<forall>n\<ge>N. apply_subst n s (TVar v) = Ok (?s v)" "\<forall>n\<ge>M. apply_subst n u (TVar v) = Ok (?u v)"
      unfolding settles_def by auto
    moreover have "?u v = TInt (case ?s v of TInt w \<Rightarrow> w | _ \<Rightarrow> I64)"
    proof -
      from int_typed_width [OF ok(2)] assms(2) v obtain w where w: "?u v = TInt w" by blast
      from assms(1) v have "?u v = ?s v \<or> is_var (?s v) \<and> ?u v = Type_int" by (simp add: defaulted_def)
      then show ?thesis
      proof
        assume "?u v = ?s v"
        with w have "?s v = TInt w" by simp
        with w show ?thesis by simp
      qed (auto simp: is_var_def Type_int_def)
    qed
    ultimately show ?thesis by (intro exI [of _ "max N M"]) (simp split: Type.splits)
  qed
  then obtain m where "\<And>v n. v \<in> int_vars s \<Longrightarrow> n \<ge> m v \<Longrightarrow> apply_subst n u (TVar v)
    = Ok (TInt (case apply_subst n s (TVar v) of Ok (TInt w) \<Rightarrow> w | _ \<Rightarrow> I64))" by metis
  moreover have "m v \<le> Max (m ` int_vars s)" if "v \<in> int_vars s" for v using that by simp
  ultimately show ?thesis by (meson order_trans)
qed

section \<open>The range check\<close>

lemma check_literals:
  assumes "\<forall>(v, l, span)\<in>set literals. \<exists>w. apply_subst n s (TVar v) = Ok (TInt w)"
  shows "\<exists>errs'. fold_out (check_literal n s) literals errs = Ok (errs @ errs')
    \<and> (errs' = [] \<longleftrightarrow> (\<forall>(v, l, span)\<in>set literals. \<exists>w. apply_subst n s (TVar v) = Ok (TInt w) \<and> literal_fits w l))"
  using assms
proof (induction literals arbitrary: errs)
  case Nil
  then show ?case by simp
next
  case (Cons x literals)
  obtain v l span where x: "x = (v, l, span)" by (cases x)
  with Cons.prems obtain w where w: "apply_subst n s (TVar v) = Ok (TInt w)" by auto
  from Cons.prems have "\<forall>(v, l, span)\<in>set literals. \<exists>w. apply_subst n s (TVar v) = Ok (TInt w)" by fastforce
  note IH = Cons.IH [OF this]
  show ?case
  proof (cases "literal_fits w l")
    case True
    with IH [of errs] w show ?thesis by (simp add: x check_literal_def)
  next
    case False
    let ?e = "TypeError_new (LiteralOutOfRange (IntegerLiteral_to_string l) (TInt w)) span"
    from IH [of "errs @ [?e]"] obtain errs' where "fold_out (check_literal n s) literals (errs @ [?e]) = Ok (errs @ ?e # errs')"
      by auto
    with False w show ?thesis by (intro exI [of _ "?e # errs'"]) (simp add: x check_literal_def)
  qed
qed

lemma range_check:
  assumes "\<forall>(v, l, span)\<in>set literals. \<exists>w. apply_subst n s (TVar v) = Ok (TInt w)"
  shows "check_int_literal_ranges n literals s = Ok ()
    \<longleftrightarrow> (\<forall>(v, l, span)\<in>set literals. \<exists>w. apply_subst n s (TVar v) = Ok (TInt w) \<and> literal_fits w l)"
  using check_literals [OF assms, of "[]"] by (auto simp: check_int_literal_ranges_def)

end
