(* ===== verification/Unify_Properties.thy ===== *)
theory Unify_Properties
  imports Unify_Literals
begin

text \<open>
  The properties of substitution and unification: resolving ends, the two substitution methods agree,
  unification is sound and returns, integer literals get a type they fit; and two places where the code
  departs from that.
\<close>

section \<open>A concrete inferencer\<close>

definition host0 :: Host where
  "host0 = \<lparr>same_arc = (\<lambda>_ _. False), compact_display = (\<lambda>_. '''')\<rparr>"

text \<open>Two variables, the first constrained to integers by the literal \<open>7\<close>.\<close>

definition var0 :: TypeVarId where "var0 = TypeVarId 0"
definition var1 :: TypeVarId where "var1 = TypeVarId 1"

definition inf0 :: Inferencer where
  "inf0 = \<lparr>next_type_var = TypeVarId 2, solution = Map.empty, int_vars = {var0},
     int_literal_values = [var0 \<mapsto> (IntegerLiteral ''7'' Decimal, DUMMY_SPAN)]\<rparr>"

lemma inf0_ok: "inferencer_ok inf0"
proof -
  have "subst_ok Map.empty" by (auto simp: subst_ok_def ranked_def)
  then show ?thesis by (simp add: inferencer_ok_def inf0_def resolve_rec int_like_def)
qed

lemma inf0_vars: "int_vars inf0 = {var0}"
  by (simp add: inf0_def)

lemma host0_sound: "arcs_sound host0"
  by (simp add: arcs_sound_def host0_def)

lemma settlesD: "settles f r \<Longrightarrow> r \<noteq> Panic \<and> (\<exists>N. \<forall>n\<ge>N. f n = r)"
  by (simp add: settles_def)

section \<open>Substitution\<close>

text \<open>
C34: \<^verbatim>\<open>substitute_in_place\<close> and \<^verbatim>\<open>substitute_type\<close> compute the same type of a well-formed type (\<open>covered\<close>) at
every stack depth, whichever allocations are unique.
\<close>

theorem in_place_is_by_reference:
  assumes "covered ty"
  shows "substitute_in_place unique n s I ty = andthen (substitute_type n s I ty) (\<lambda>c. Ok (into_owned c))"
  using in_place_own [OF assms] by (simp add: own_def)

lemma in_place_is_by_reference_witness:
  "substitute_in_place (\<lambda>_. True) 3 [var0 \<mapsto> TBool] {var1} (TTuple [TVar var0, TVar var1]) = Ok (TTuple [TBool, TInt I64])"
proof -
  have "substitute_type 3 [var0 \<mapsto> TBool] {var1} (TTuple [TVar var0, TVar var1]) = Ok (Owned (TTuple [TBool, TInt I64]))"
    by code_simp
  then show ?thesis
    using in_place_is_by_reference [of "TTuple [TVar var0, TVar var1]" "\<lambda>_. True" 3 "[var0 \<mapsto> TBool]" "{var1}"] by simp
qed

text \<open>
C33: Resolving a well-formed type (\<open>covered\<close>) under the substitution of a well-formed inferencer ends; the result has no solved
variable left, and resolving it again changes nothing.
\<close>

theorem resolving_ends:
  assumes "inferencer_ok s" "covered ty"
  shows "\<exists>N t. (\<forall>n\<ge>N. apply_subst n s ty = Ok t) \<and> (\<forall>v\<in>free_type_vars t. solution s v = None)
    \<and> (\<exists>M. \<forall>n\<ge>M. apply_subst n s t = Ok t)"
proof -
  let ?t = "full (solution s) ty"
  from assms(1) have ok: "subst_ok (solution s)" by (simp add: inferencer_ok_def)
  have "settles (\<lambda>n. apply_subst n s ty) (Ok ?t)" "settles (\<lambda>n. apply_subst n s ?t) (Ok ?t)"
    using apply_settles [OF assms] apply_settles [OF assms(1) full_covered [OF ok assms(2)]] full_idem [OF ok assms(2)]
    by simp_all
  moreover have "\<forall>v\<in>free_type_vars ?t. solution s v = None"
    using full_vars [OF ok assms(2)] by (simp add: unsolved_def)
  ultimately show ?thesis by (blast dest: settlesD)
qed

lemma resolving_ends_witness: "\<exists>N t. \<forall>n\<ge>N. apply_subst n inf0 (TTuple [TVar var0, TBool]) = Ok t"
  using resolving_ends [OF inf0_ok, of "TTuple [TVar var0, TBool]"] by auto

section \<open>Unification\<close>

text \<open>
C6: Unification of well-formed types (\<open>covered\<close>) always returns. When it succeeds, the new substitution is acyclic and extends the old one,
every integer constraint is kept, and the two types resolve to types that are equal up to names.
\<close>

theorem unify_unifies:
  assumes "inferencer_ok s" "covered l" "covered r" "arcs_sound h"
  shows "\<exists>res. res \<noteq> Panic \<and> (\<exists>N. \<forall>n\<ge>N. unify n h s l r left_span right_span kind = res)
    \<and> (\<forall>s' t. res = Ok (s', t) \<longrightarrow> inferencer_ok s' \<and> extends (solution s) (solution s')
        \<and> int_vars s \<subseteq> int_vars s'
        \<and> (\<exists>M l' r'. sim l' r' \<and> (\<forall>n\<ge>M. apply_subst n s' l = Ok l' \<and> apply_subst n s' r = Ok r')))"
proof -
  from unify_calls [OF assms(4,1,2,3)] obtain res where
    res: "settles (\<lambda>n. unify n h s l r left_span right_span kind) res" "unify_ok s l r res"
    unfolding unifies_def by blast
  have "inferencer_ok s' \<and> extends (solution s) (solution s') \<and> int_vars s \<subseteq> int_vars s'
      \<and> (\<exists>M l' r'. sim l' r' \<and> (\<forall>n\<ge>M. apply_subst n s' l = Ok l' \<and> apply_subst n s' r = Ok r'))"
    if "res = Ok (s', t)" for s' t
  proof -
    from res(2) that have st: "step s s'" and sim: "sim (full (solution s') l) (full (solution s') r)"
      by (simp_all add: unify_ok_def unified_def)
    from settlesD [OF apply_settles [OF step_ok [OF st] assms(2)]] settlesD [OF apply_settles [OF step_ok [OF st] assms(3)]]
    obtain N M where "\<forall>n\<ge>N. apply_subst n s' l = Ok (full (solution s') l)"
      "\<forall>n\<ge>M. apply_subst n s' r = Ok (full (solution s') r)" by blast
    then have "\<forall>n\<ge>max N M. apply_subst n s' l = Ok (full (solution s') l) \<and> apply_subst n s' r = Ok (full (solution s') r)"
      by simp
    with st sim show ?thesis unfolding step_def by blast
  qed
  with settlesD [OF res(1)] show ?thesis by blast
qed

lemma unify_unifies_witness:
  "\<exists>res. res \<noteq> Panic \<and> (\<exists>N. \<forall>n\<ge>N. unify n host0 inf0 (TVar var0) (TVar var1) DUMMY_SPAN DUMMY_SPAN UnreachablePattern = res)"
proof -
  have "covered (TVar var0)" "covered (TVar var1)" by simp_all
  from unify_unifies [OF inf0_ok this host0_sound, of DUMMY_SPAN DUMMY_SPAN UnreachablePattern]
  show ?thesis by blast
qed

text \<open>
The arms of a match are compared without resolving what an earlier component solved, and a solved
variable is overwritten: the arms \<open>(i32, i64)\<close> and \<open>(n, n)\<close> are accepted, with \<open>n\<close> at type \<open>i64\<close> after both,
while \<^verbatim>\<open>unify\<close> rejects the two types.
\<close>

theorem match_arms_overwrite_a_solution:
  "\<exists>s t. unify_match_arms 4 host0 inf0 (TTuple [TInt I32, TInt I64]) (TTuple [TVar var0, TVar var0]) DUMMY_SPAN DUMMY_SPAN
        = Ok (s, t)
      \<and> apply_subst 4 s (TTuple [TVar var0, TVar var0]) = Ok (TTuple [TInt I64, TInt I64])
      \<and> (\<exists>e. unify 4 host0 inf0 (TTuple [TInt I32, TInt I64]) (TTuple [TVar var0, TVar var0]) DUMMY_SPAN DUMMY_SPAN
            UnreachablePattern = Err e)"
  by (simp add: unify_match_arms_def numeral_eq_Suc inner_step_def inner_rest_def inner_bind_def inner_pair_def
      apply_subst_def own_def sub_vec_def rewrap_def host0_def inf0_def var0_def constrain_def insert_subst_def
      unify_step_def unify_resolved_def unify_rest_def unify_tuples_def unify_pairs_def bind_def Let_def
      format_type_def apply_for_display_def)

text \<open>An enum whose only use of its type parameter is the argument itself.\<close>

definition phantom :: "TypeVarId \<Rightarrow> Type" where
  "phantom a = TEnum (EnumType (Identifier ''Phantom'' DUMMY_SPAN) [EnumVariantType (Identifier ''A'' DUMMY_SPAN) EV_Unit] [TVar a])"

lemma phantom_diverges: "s a = Some (phantom a) \<Longrightarrow> substitute_type n s I (TVar a) = Panic"
proof (induction n rule: less_induct)
  case (less n)
  have "substitute_type k s I (phantom a) = Panic" if "k < n" for k
  proof (cases k)
    case (Suc m)
    with less that have "substitute_type m s I (TVar a) = Panic" by simp
    with Suc show ?thesis by (simp add: phantom_def sub_enum_def sub_variant_def sub_vec_def rewrap_def)
  qed simp
  with less.prems show ?case by (cases n) simp_all
qed

text \<open>
The occurs check does not look at the arguments of an enum: a variable unifies with an enum applied to
it, and resolving the variable afterwards never ends.
\<close>

theorem occurs_check_misses_type_arguments:
  "\<exists>s t. unify 4 host0 inf0 (TVar var1) (phantom var1) DUMMY_SPAN DUMMY_SPAN UnreachablePattern = Ok (s, t)
      \<and> (\<forall>n. apply_subst n s (TVar var1) = Panic)"
proof -
  let ?s = "insert_subst var1 (phantom var1) inf0"
  have "unify 4 host0 inf0 (TVar var1) (phantom var1) DUMMY_SPAN DUMMY_SPAN UnreachablePattern = Ok (?s, phantom var1)"
    by (simp add: phantom_def numeral_eq_Suc unify_step_def unify_resolved_def unify_rest_def bind_def apply_subst_def
        own_def sub_enum_def sub_variant_def sub_vec_def rewrap_def cv_enum_def or_out_def constrain_def Let_def
        inf0_def var0_def var1_def insert_subst_def)
  moreover have "apply_subst n ?s (TVar var1) = Panic" for n
    by (simp add: apply_subst_def own_def phantom_diverges insert_subst_def)
  ultimately show ?thesis by blast
qed

section \<open>Integer literals\<close>

text \<open>
C35: Defaulting always returns. Afterwards every variable of an integer literal has an integer type, the one
inferred for it or \<open>i64\<close>, in whatever order the set was visited; and the range check passes exactly when
every literal fits its type.
\<close>

theorem integer_literals_get_a_type:
  assumes "inferencer_ok s" "set order = int_vars s"
    and "\<forall>(v, l, span)\<in>set literals. int_literal_values s v = Some (l, span)"
  shows "\<exists>s' N. \<forall>n\<ge>N. default_int_vars n order s = Ok s'
    \<and> (\<forall>v\<in>int_vars s. apply_subst n s' (TVar v)
        = Ok (TInt (case apply_subst n s (TVar v) of Ok (TInt w) \<Rightarrow> w | _ \<Rightarrow> I64)))
    \<and> (check_int_literal_ranges n literals s' = Ok ()
        \<longleftrightarrow> (\<forall>(v, l, span)\<in>set literals. \<exists>w. apply_subst n s' (TVar v) = Ok (TInt w) \<and> literal_fits w l))"
proof -
  from defaults [OF assms(1), of order] assms(2) obtain u where
    u: "settles (\<lambda>n. fold_out (default_int_var n) order s) (Ok u)" "defaulted s u" "\<forall>v\<in>int_vars s. int_typed v u"
    by auto
  let ?u = "u\<lparr>int_vars := {}\<rparr>"
  have app: "apply_subst n ?u t = apply_subst n u t" for n t by (simp add: apply_subst_def)
  have "settles (\<lambda>n. default_int_vars n order s) (Ok ?u)"
    unfolding default_int_vars_def by (rule settles_andthen [OF u(1)]) simp
  then obtain N where N: "\<forall>n\<ge>N. default_int_vars n order s = Ok ?u" by (blast dest: settlesD)
  from default_widths [OF u(2,3)] obtain M where
    M: "\<forall>n\<ge>M. \<forall>v\<in>int_vars s. apply_subst n u (TVar v)
        = Ok (TInt (case apply_subst n s (TVar v) of Ok (TInt w) \<Rightarrow> w | _ \<Rightarrow> I64))" by blast
  have "\<forall>(v, l, span)\<in>set literals. \<exists>w. apply_subst n ?u (TVar v) = Ok (TInt w)" if "n \<ge> M" for n
    using assms(1,3) M that by (fastforce simp: app inferencer_ok_def)
  note check = range_check [OF this]
  show ?thesis
    by (intro exI [of _ ?u] exI [of _ "max N M"] allI impI conjI)
      (use N M check in \<open>simp_all add: app\<close>)
qed

lemma integer_literals_get_a_type_witness:
  "\<exists>s' N. \<forall>n\<ge>N. apply_subst n s' (TVar var0) = Ok (TInt I64)
    \<and> check_int_literal_ranges n [(var0, IntegerLiteral ''7'' Decimal, DUMMY_SPAN)] s' = Ok ()"
proof -
  have fits: "literal_fits I64 (IntegerLiteral ''7'' Decimal)" by code_simp
  have unsolved: "\<exists>N. \<forall>n\<ge>N. apply_subst n inf0 (TVar var0) = Ok (TVar var0)"
    by (intro exI [of _ 1] allI impI, rename_tac n, case_tac n)
      (simp_all add: apply_subst_def own_def inf0_def)
  have "set [var0] = int_vars inf0"
    "\<forall>(v, l, span)\<in>set [(var0, IntegerLiteral ''7'' Decimal, DUMMY_SPAN)]. int_literal_values inf0 v = Some (l, span)"
    by (simp_all add: inf0_def)
  from integer_literals_get_a_type [OF inf0_ok this] obtain s' N where
    N: "\<forall>n\<ge>N. (\<forall>v\<in>{var0}. apply_subst n s' (TVar v)
        = Ok (TInt (case apply_subst n inf0 (TVar v) of Ok (TInt w) \<Rightarrow> w | _ \<Rightarrow> I64)))
      \<and> (check_int_literal_ranges n [(var0, IntegerLiteral ''7'' Decimal, DUMMY_SPAN)] s' = Ok ()
        \<longleftrightarrow> (\<forall>(v, l, span)\<in>{(var0, IntegerLiteral ''7'' Decimal, DUMMY_SPAN)}.
          \<exists>w. apply_subst n s' (TVar v) = Ok (TInt w) \<and> literal_fits w l))"
    by (simp add: inf0_vars) blast
  from unsolved obtain M where M: "\<forall>n\<ge>M. apply_subst n inf0 (TVar var0) = Ok (TVar var0)" ..
  with N fits show ?thesis by (intro exI [of _ s'] exI [of _ "max N M"]) simp
qed

end
