(* ===== verification/Module_Graph.thy ===== *)
theory Module_Graph
  imports Lang_Ast
begin

text \<open>
  The graph of modules that a program imports (\<^verbatim>\<open>starstream-compiler/src/module_graph.rs\<close>, with the
  \<^verbatim>\<open>FileSystem\<close> of \<^verbatim>\<open>starstream-types/src/filesystem.rs\<close>): loading, the check on imports of contracts and
  the topological order.

  Parameters are the files and the parser, collected in \<open>Host\<close>, and the iteration order of the hash map
  of edges. A path is its text; the paths handed to \<open>path_parent\<close> are canonical. Loading follows imports
  as long as it finds new files and need not end, so it takes the number of modules it may resolve and is
  \<open>None\<close> when that is used up.
\<close>

section \<open>Files\<close>

type_synonym Path = string
type_synonym IoError = string
type_synonym ParseError = string

record Host =
  canonicalize :: "Path \<Rightarrow> (IoError, Path) outcome"
  read_file :: "Path \<Rightarrow> (IoError, string) outcome"
  read_dir :: "Path \<Rightarrow> Path list option"
  is_dir :: "Path \<Rightarrow> bool"
  is_file :: "Path \<Rightarrow> bool"
  parse_program :: "string \<Rightarrow> Program option \<times> ParseError list"

record FileSystem =
  dependencies :: "Path list"
  outputs :: "Path list"

definition FileSystem_new :: FileSystem where
  "FileSystem_new = \<lparr>dependencies = [], outputs = []\<rparr>"

definition read_to_string :: "Host \<Rightarrow> FileSystem \<Rightarrow> Path \<Rightarrow> (IoError, string \<times> FileSystem) outcome" where
  "read_to_string h fs path =
     (let fs = fs\<lparr>dependencies := dependencies fs @ [path]\<rparr> in
      andthen (read_file h path) (\<lambda>source. Ok (source, fs)))"

text \<open>\<^verbatim>\<open>Path::file_name\<close>, \<^verbatim>\<open>Path::parent\<close>, \<^verbatim>\<open>Path::extension\<close> and \<^verbatim>\<open>Path::join\<close> with a relative path.\<close>

definition path_file_name :: "Path \<Rightarrow> string" where
  "path_file_name p = rev (takeWhile (\<lambda>c. c \<noteq> CHR ''/'') (rev p))"

definition path_parent :: "Path \<Rightarrow> Path option" where
  "path_parent p =
     (let dir = rev (dropWhile (\<lambda>c. c \<noteq> CHR ''/'') (rev p)) in
      if p = [] \<or> p = ''/'' then None
      else if dir = [] \<or> dir = ''/'' then Some dir
      else Some (butlast dir))"

definition path_join :: "Path \<Rightarrow> string \<Rightarrow> Path" where
  "path_join dir rel = (if dir = [] \<or> last dir = CHR ''/'' then dir @ rel else dir @ ''/'' @ rel)"

definition path_extension :: "Path \<Rightarrow> string option" where
  "path_extension p =
     (let name = path_file_name p;
          ext = rev (takeWhile (\<lambda>c. c \<noteq> CHR ''.'') (rev name))
      in if CHR ''.'' \<notin> set (drop 1 name) then None else Some ext)"

definition starts_with :: "string \<Rightarrow> string \<Rightarrow> bool" where
  "starts_with s prefix = (take (length prefix) s = prefix)"

definition ends_with :: "string \<Rightarrow> string \<Rightarrow> bool" where
  "ends_with s suffix = (length suffix \<le> length s \<and> drop (length s - length suffix) s = suffix)"

section \<open>The graph\<close>

datatype ModuleId = ModuleId u32

fun mod_index :: "ModuleId \<Rightarrow> nat" where
  "mod_index (ModuleId i) = unat i"

fun raw_id :: "ModuleId \<Rightarrow> u32" where
  "raw_id (ModuleId i) = i"

text \<open>\<^verbatim>\<open>ModuleId(i as u32)\<close>\<close>

definition module_id :: "nat \<Rightarrow> ModuleId" where
  "module_id i = ModuleId (of_nat i)"

record Module =
  mod_id :: ModuleId
  abs_path :: Path
  mod_source :: string
  program :: Program

fun is_contract :: "Definition \<Rightarrow> bool" where
  "is_contract D_Contract = True"
| "is_contract _ = False"

definition declares_contract :: "Module \<Rightarrow> bool" where
  "declares_contract m = list_ex (\<lambda>d. is_contract (sp_node d)) (definitions (program m))"

record PathImport =
  def_index :: nat
  target :: ModuleId
  imp_span :: Span

type_synonym edges = "u32 \<rightharpoonup> PathImport list"

record ModuleGraph =
  modules :: "Module list"
  topo :: "ModuleId list"
  g_edges :: edges
  contract_entries :: "ModuleId list"

definition edge_list :: "edges \<Rightarrow> ModuleId \<Rightarrow> PathImport list" where
  "edge_list es i = (case es (raw_id i) of None \<Rightarrow> [] | Some v \<Rightarrow> v)"

definition edges_of :: "ModuleGraph \<Rightarrow> ModuleId \<Rightarrow> PathImport list" where
  "edges_of g i = edge_list (g_edges g) i"

definition find_by_path :: "ModuleGraph \<Rightarrow> Path \<Rightarrow> ModuleId option" where
  "find_by_path g p = map_option mod_id (find (\<lambda>m. abs_path m = p) (modules g))"

datatype ModuleGraphError =
    EntryIo Path IoError
  | ImportIo Path ModuleId Span IoError
  | NonRelativePath string ModuleId Span
  | NotStarExtension string ModuleId Span
  | CrossContractImport ModuleId Path ModuleId Path Span
  | Cycle "(ModuleId \<times> Path \<times> Span) list"
  | ParseFailed "(ModuleId \<times> ParseError list) list"

section \<open>Reachable modules\<close>

text \<open>The state of the loop: what is visited, the order so far, and the stack with its top first.\<close>

type_synonym reach_state = "bool list \<times> ModuleId list \<times> ModuleId list"

definition push_unvisited :: "bool list \<Rightarrow> PathImport \<Rightarrow> ModuleId list \<Rightarrow> ModuleId list total" where
  "push_unvisited visited edge stack =
     at visited (mod_index (target edge)) (\<lambda>seen. Ok (if \<not> seen then target edge # stack else stack))"

definition reach_step :: "edges \<Rightarrow> ModuleId \<Rightarrow> reach_state \<Rightarrow> reach_state total" where
  "reach_step es i = (\<lambda>(visited, order, stack).
     at visited (mod_index i) (\<lambda>seen.
     if seen then Ok (visited, order, stack)
     else
       put visited (mod_index i) True (\<lambda>visited.
       andthen (fold_out (push_unvisited visited) (edge_list es i) stack) (\<lambda>stack.
       Ok (visited, order @ [i], stack)))))"

definition unseen :: "bool list \<Rightarrow> nat" where
  "unseen visited = length (filter (\<lambda>b. \<not> b) visited)"

lemma unseen_update: "i < length visited \<Longrightarrow> \<not> visited ! i \<Longrightarrow> unseen (visited[i := True]) < unseen visited"
proof (induction visited arbitrary: i)
  case (Cons b visited)
  then show ?case by (cases i) (auto simp: unseen_def)
qed simp

function reach_loop :: "edges \<Rightarrow> reach_state \<Rightarrow> ModuleId list total" where
  "reach_loop es (visited, order, []) = Ok order"
| "reach_loop es (visited, order, i # stack) = andthen (reach_step es i (visited, order, stack)) (reach_loop es)"
  by pat_completeness auto
termination
  by (relation "measures [\<lambda>(es, visited, order, stack). unseen visited, \<lambda>(es, visited, order, stack). length stack]")
    (auto simp: reach_step_def outcome_simps unseen_update split: if_splits)

definition reachable_from :: "ModuleGraph \<Rightarrow> ModuleId \<Rightarrow> ModuleId list total" where
  "reachable_from g start = reach_loop (g_edges g) (replicate (length (modules g)) False, [], [start])"

section \<open>Loading\<close>

record Builder =
  b_modules :: "Module list"
  b_edges :: edges
  by_path :: "Path \<rightharpoonup> ModuleId"
  parse_failures :: "(ModuleId \<times> ParseError list) list"
  b_fs :: FileSystem

definition Builder_new :: "FileSystem \<Rightarrow> Builder" where
  "Builder_new fs =
     \<lparr>b_modules = [], b_edges = Map.empty, by_path = Map.empty, parse_failures = [], b_fs = fs\<rparr>"

definition parse_module :: "Host \<Rightarrow> Path \<Rightarrow> Builder \<Rightarrow> (IoError, ModuleId \<times> Builder) outcome" where
  "parse_module h path b =
     (case by_path b path of
        Some i \<Rightarrow> Ok (i, b)
      | None \<Rightarrow>
          andthen (read_to_string h (b_fs b) path) (\<lambda>(source, fs).
          let (parsed, errors) = parse_program h source;
              i = module_id (length (b_modules b));
              prog = (case parsed of None \<Rightarrow> \<lparr>shebang = None, definitions = []\<rparr> | Some p \<Rightarrow> p);
              m = \<lparr>mod_id = i, abs_path = path, mod_source = source, program = prog\<rparr>
          in Ok (i, b\<lparr>b_modules := b_modules b @ [m], by_path := (by_path b)(path \<mapsto> i),
                  parse_failures := (if errors \<noteq> [] then parse_failures b @ [(i, errors)] else parse_failures b),
                  b_fs := fs\<rparr>)))"

definition is_relative_path :: "string \<Rightarrow> bool" where
  "is_relative_path s = (starts_with s ''./'' \<or> starts_with s ''../'')"

fun raw_import :: "nat \<times> Definition Spanned \<Rightarrow> (nat \<times> string \<times> Span) option" where
  "raw_import (idx, Spanned (D_Import (ImportDef items (IS_Path (ImportPath value span)))) sp) = Some (idx, value, span)"
| "raw_import _ = None"

definition raw_imports :: "Module \<Rightarrow> (nat \<times> string \<times> Span) list" where
  "raw_imports m = List.map_filter raw_import (enumerate 0 (definitions (program m)))"

definition importer_dir :: "Module \<Rightarrow> Path" where
  "importer_dir m = (case path_parent (abs_path m) of None \<Rightarrow> ''.'' | Some p \<Rightarrow> p)"

definition resolve_import ::
  "Host \<Rightarrow> ModuleId \<Rightarrow> Path \<Rightarrow> nat \<times> string \<times> Span \<Rightarrow> Builder \<times> PathImport list
    \<Rightarrow> (ModuleGraphError, Builder \<times> PathImport list) outcome" where
  "resolve_import h importer dir = (\<lambda>(idx, raw_path, span) (b, resolved).
     if \<not> is_relative_path raw_path then Err (NonRelativePath raw_path importer span)
     else if \<not> ends_with raw_path ''.star'' then Err (NotStarExtension raw_path importer span)
     else
       let candidate = path_join dir raw_path in
       andthen (map_err (ImportIo candidate importer span) (canonicalize h candidate)) (\<lambda>canonical.
       andthen (map_err (ImportIo canonical importer span) (parse_module h canonical b)) (\<lambda>(tgt, b).
       Ok (b, resolved @ [\<lparr>def_index = idx, target = tgt, imp_span = span\<rparr>]))))"

definition resolve_imports :: "Host \<Rightarrow> ModuleId \<Rightarrow> Builder \<Rightarrow> (ModuleGraphError, Builder) outcome" where
  "resolve_imports h i b =
     at (b_modules b) (mod_index i) (\<lambda>m.
     andthen (fold_out (resolve_import h i (importer_dir m)) (raw_imports m) (b, [])) (\<lambda>(b, resolved).
     Ok (if resolved \<noteq> [] then b\<lparr>b_edges := (b_edges b)(raw_id i \<mapsto> resolved)\<rparr> else b)))"

text \<open>\<^verbatim>\<open>while next < builder.modules.len() { builder.resolve_imports(..)?; next += 1; }\<close>\<close>

fun resolve_all :: "nat \<Rightarrow> Host \<Rightarrow> nat \<Rightarrow> Builder \<Rightarrow> (ModuleGraphError, Builder) outcome option" where
  "resolve_all n h nxt b =
     (if nxt < length (b_modules b) then
        (case n of
           0 \<Rightarrow> None
         | Suc n \<Rightarrow>
             (case resolve_imports h (module_id nxt) b of
                Ok b \<Rightarrow> resolve_all n h (nxt + 1) b
              | Err e \<Rightarrow> Some (Err e)
              | Panic \<Rightarrow> Some Panic))
      else Some (Ok b))"

declare resolve_all.simps [simp del]

text \<open>\<^verbatim>\<open>validate_cross_contract\<close>, with the keys of the map in the order of its iteration.\<close>

definition check_edge ::
  "Module list \<Rightarrow> ModuleId option \<Rightarrow> ModuleId \<Rightarrow> PathImport \<Rightarrow> (ModuleGraphError, unit) outcome" where
  "check_edge ms allow importer edge =
     (if Some (target edge) = allow then Ok ()
      else
        at ms (mod_index (target edge)) (\<lambda>m.
        if declares_contract m then
          at ms (mod_index importer) (\<lambda>im.
          Err (CrossContractImport importer (abs_path im) (target edge) (abs_path m) (imp_span edge)))
        else Ok ()))"

definition validate_cross_contract ::
  "u32 list \<Rightarrow> Builder \<Rightarrow> ModuleId option \<Rightarrow> (ModuleGraphError, unit) outcome" where
  "validate_cross_contract order b allow =
     each (\<lambda>raw. each (check_edge (b_modules b) allow (ModuleId raw)) (edge_list (b_edges b) (ModuleId raw))) order"

section \<open>Topological order\<close>

datatype DfsColor = White | Gray | Black

record Dfs =
  color :: "DfsColor list"
  order :: "ModuleId list"
  stack :: "(ModuleId \<times> nat) list"
  path_stack :: "(ModuleId \<times> Span) list"

text \<open>The chain of imports that closes a cycle: the path from the target on, and the target once more.\<close>

definition cycle_chain ::
  "Module list \<Rightarrow> (ModuleId \<times> Span) list \<Rightarrow> PathImport \<Rightarrow> (ModuleId \<times> Path \<times> Span) list total" where
  "cycle_chain ms path edge =
     map_out (\<lambda>(i, span). at ms (mod_index i) (\<lambda>m. Ok (i, abs_path m, span)))
       (dropWhile (\<lambda>(i, span). i \<noteq> target edge) path @ [(target edge, imp_span edge)])"

text \<open>One iteration of the loop of \<^verbatim>\<open>dfs_visit\<close>. The stacks have their top last.\<close>

definition dfs_step :: "Module list \<Rightarrow> edges \<Rightarrow> Dfs \<Rightarrow> (ModuleGraphError, Dfs) outcome" where
  "dfs_step ms es s =
     (let (node, child_idx) = last (stack s); edges = edge_list es node in
      if child_idx \<ge> length edges then
        put (color s) (mod_index node) Black (\<lambda>c.
        Ok (s\<lparr>color := c, order := order s @ [node], stack := butlast (stack s), path_stack := butlast (path_stack s)\<rparr>))
      else
        let edge = edges ! child_idx;
            st = butlast (stack s) @ [(node, child_idx + 1)]
        in at (color s) (mod_index (target edge)) (\<lambda>k. case k of
             White \<Rightarrow>
               put (color s) (mod_index (target edge)) Gray (\<lambda>c.
               Ok (s\<lparr>color := c, path_stack := path_stack s @ [(target edge, imp_span edge)],
                     stack := st @ [(target edge, 0)]\<rparr>))
           | Gray \<Rightarrow> andthen (lift (cycle_chain ms (path_stack s) edge)) (\<lambda>chain. Err (Cycle chain))
           | Black \<Rightarrow> Ok (s\<lparr>stack := st\<rparr>)))"

definition whites :: "DfsColor list \<Rightarrow> nat" where
  "whites cs = length (filter (\<lambda>c. c = White) cs)"

text \<open>The edges left to follow from the nodes on the stack.\<close>

definition edges_left :: "edges \<Rightarrow> (ModuleId \<times> nat) list \<Rightarrow> nat" where
  "edges_left es st = sum_list (map (\<lambda>(i, k). length (edge_list es i) - k) st)"

lemma whites_update: "i < length cs \<Longrightarrow> cs ! i = White \<Longrightarrow> c \<noteq> White \<Longrightarrow> whites (cs[i := c]) < whites cs"
proof (induction cs arbitrary: i)
  case (Cons b cs)
  then show ?case by (cases i) (auto simp: whites_def)
qed simp

lemma whites_update_le: "c \<noteq> White \<Longrightarrow> whites (cs[i := c]) \<le> whites cs"
proof (induction cs arbitrary: i)
  case (Cons b cs)
  then show ?case by (cases i) (auto simp: whites_def le_SucI)
qed simp

lemma dfs_step_progress:
  assumes "dfs_step ms es s = Ok t" "stack s \<noteq> []"
  shows "(t, s) \<in> measures [\<lambda>s. whites (color s), \<lambda>s. edges_left es (stack s), \<lambda>s. length (stack s)]"
proof -
  obtain st node k where st: "stack s = st @ [(node, k)]"
    using assms(2) by (metis append_butlast_last_id surj_pair)
  show ?thesis
  proof (cases "k \<ge> length (edge_list es node)")
    case True
    with assms(1) show ?thesis
      using whites_update_le [of Black "color s" "mod_index node"]
      by (auto simp: dfs_step_def st outcome_simps edges_left_def)
  next
    case False
    with assms(1) show ?thesis
      using whites_update [of "mod_index (target (edge_list es node ! k))" "color s" Gray]
      by (auto simp: dfs_step_def st outcome_simps edges_left_def Let_def split: DfsColor.splits)
  qed
qed

function dfs_loop :: "Module list \<Rightarrow> edges \<Rightarrow> Dfs \<Rightarrow> (ModuleGraphError, Dfs) outcome" where
  "dfs_loop ms es s = (if stack s = [] then Ok s else andthen (dfs_step ms es s) (dfs_loop ms es))"
  by pat_completeness auto
termination
  by (relation "measures [\<lambda>(ms, es, s). whites (color s), \<lambda>(ms, es, s). edges_left es (stack s),
      \<lambda>(ms, es, s). length (stack s)]") (use dfs_step_progress in \<open>auto simp: in_measures\<close>)

declare dfs_loop.simps [simp del]

definition dfs_visit ::
  "Module list \<Rightarrow> edges \<Rightarrow> ModuleId \<Rightarrow> DfsColor list \<times> ModuleId list
    \<Rightarrow> (ModuleGraphError, DfsColor list \<times> ModuleId list) outcome" where
  "dfs_visit ms es start = (\<lambda>(c, ord).
     put c (mod_index start) Gray (\<lambda>c.
     andthen (dfs_loop ms es \<lparr>color = c, order = ord, stack = [(start, 0)], path_stack = [(start, DUMMY_SPAN)]\<rparr>) (\<lambda>s.
     Ok (color s, order s))))"

definition visit_seed ::
  "Module list \<Rightarrow> edges \<Rightarrow> ModuleId \<Rightarrow> DfsColor list \<times> ModuleId list
    \<Rightarrow> (ModuleGraphError, DfsColor list \<times> ModuleId list) outcome" where
  "visit_seed ms es seed = (\<lambda>(c, ord).
     at c (mod_index seed) (\<lambda>k. if k \<noteq> White then Ok (c, ord) else dfs_visit ms es seed (c, ord)))"

definition topo_order :: "Module list \<Rightarrow> edges \<Rightarrow> ModuleId list \<Rightarrow> (ModuleGraphError, ModuleId list) outcome" where
  "topo_order ms es seeds =
     (let n = length ms in
      andthen (fold_out (visit_seed ms es) (seeds @ map module_id [0..<n]) (replicate n White, [])) (\<lambda>(c, ord).
      Ok ord))"

section \<open>Entry points\<close>

definition finish_load ::
  "(edges \<Rightarrow> u32 list) \<Rightarrow> ModuleId option \<Rightarrow> (Module list \<Rightarrow> ModuleId list) \<Rightarrow> Builder
    \<Rightarrow> (ModuleGraphError, ModuleGraph) outcome" where
  "finish_load key_order allow entries b =
     andthen (validate_cross_contract (key_order (b_edges b)) b allow) (\<lambda>_.
     if parse_failures b \<noteq> [] then Err (ParseFailed (parse_failures b))
     else
       andthen (topo_order (b_modules b) (b_edges b) (entries (b_modules b))) (\<lambda>ord.
       Ok \<lparr>modules = b_modules b, topo = ord, g_edges = b_edges b, contract_entries = entries (b_modules b)\<rparr>))"

definition load_from_entry ::
  "nat \<Rightarrow> (edges \<Rightarrow> u32 list) \<Rightarrow> Host \<Rightarrow> Path \<Rightarrow> FileSystem \<Rightarrow> (ModuleGraphError, ModuleGraph) outcome option" where
  "load_from_entry n key_order h entry fs =
     (case andthen (map_err (EntryIo entry) (canonicalize h entry)) (\<lambda>canonical_entry.
           map_err (EntryIo entry) (parse_module h canonical_entry (Builder_new fs))) of
        Err e \<Rightarrow> Some (Err e)
      | Panic \<Rightarrow> Some Panic
      | Ok (entry_id, b) \<Rightarrow>
          map_option (\<lambda>r. andthen r (finish_load key_order (Some entry_id) (\<lambda>ms. [entry_id])))
            (resolve_all n h 0 b))"

text \<open>\<^verbatim>\<open>walk\<close>, with the depth of directories it may enter; \<^verbatim>\<open>None\<close> of \<^verbatim>\<open>read_dir\<close> is a directory that cannot be read.\<close>

definition skipped :: "Path \<Rightarrow> bool" where
  "skipped p =
     (let n = path_file_name p in starts_with n ''.'' \<or> n = ''target'' \<or> n = ''artifacts'')"

fun walk :: "nat \<Rightarrow> Host \<Rightarrow> Path \<Rightarrow> Path list \<Rightarrow> Path list total" where
  "walk 0 h dir visited = Panic"
| "walk (Suc n) h dir visited =
     (case read_dir h dir of
        None \<Rightarrow> Ok visited
      | Some entries \<Rightarrow>
          fold_out (\<lambda>path visited.
            if skipped path then Ok visited
            else if is_dir h path then walk n h path visited
            else if is_file h path then Ok (visited @ [path]) else Ok visited) entries visited)"

definition collect_star_files :: "nat \<Rightarrow> Host \<Rightarrow> Path \<Rightarrow> Path list total" where
  "collect_star_files d h dir =
     andthen (walk d h dir []) (\<lambda>ps. Ok (filter (\<lambda>p. path_extension p = Some ''star'') ps))"

definition seed_file :: "Host \<Rightarrow> Path \<Rightarrow> Builder \<Rightarrow> (ModuleGraphError, Builder) outcome" where
  "seed_file h path b =
     andthen (map_err (EntryIo path) (canonicalize h path)) (\<lambda>canonical.
     andthen (map_err (EntryIo path) (parse_module h canonical b)) (\<lambda>(i, b). Ok b))"

definition contract_modules :: "Module list \<Rightarrow> ModuleId list" where
  "contract_modules ms = map mod_id (filter declares_contract ms)"

definition load_workspace ::
  "nat \<Rightarrow> nat \<Rightarrow> (edges \<Rightarrow> u32 list) \<Rightarrow> Host \<Rightarrow> Path \<Rightarrow> FileSystem
    \<Rightarrow> (ModuleGraphError, ModuleGraph) outcome option" where
  "load_workspace d n key_order h scan_dir fs =
     (case andthen (lift (collect_star_files d h scan_dir)) (\<lambda>star_files.
           fold_out (seed_file h) star_files (Builder_new fs)) of
        Err e \<Rightarrow> Some (Err e)
      | Panic \<Rightarrow> Some Panic
      | Ok b \<Rightarrow>
          map_option (\<lambda>r. andthen r (finish_load key_order None contract_modules)) (resolve_all n h 0 b))"

end
