(* ===== verification/Module_Topo.thy ===== *)
theory Module_Topo
  imports Module_Graph
begin

text \<open>
  The topological order: the search never panics, succeeds exactly on acyclic imports, lists every module
  once and after its imports, and reports a cycle of imports otherwise.
\<close>

section \<open>Well-formed graphs\<close>

definition import_rel :: "edges \<Rightarrow> (ModuleId \<times> ModuleId) set" where
  "import_rel es = {(i, target e) |i e. e \<in> set (edge_list es i)}"

definition graph_ok :: "Module list \<Rightarrow> edges \<Rightarrow> bool" where
  "graph_ok ms es = (length ms \<le> 2 ^ 32 \<and> (\<forall>i<length ms. mod_id (ms ! i) = module_id i)
     \<and> (\<forall>i. edge_list es i \<noteq> [] \<longrightarrow> mod_index i < length ms)
     \<and> (\<forall>i. \<forall>e\<in>set (edge_list es i). mod_index (target e) < length ms))"

lemma mod_index_inject [simp]: "mod_index v = mod_index w \<longleftrightarrow> v = w"
  by (cases v; cases w) (auto intro: unsigned_word_eqI)

lemma mod_index_module_id: "i < n \<Longrightarrow> n \<le> 2 ^ 32 \<Longrightarrow> mod_index (module_id i) = i"
  by (simp add: module_id_def unat_of_nat)

definition nodes :: "nat \<Rightarrow> ModuleId set" where
  "nodes n = {v. mod_index v < n}"

lemma nodes_module_id: "n \<le> 2 ^ 32 \<Longrightarrow> nodes n = module_id ` {0..<n}"
proof (intro set_eqI iffI)
  fix v assume "v \<in> nodes n"
  then show "v \<in> module_id ` {0..<n}"
    by (cases v) (auto simp: nodes_def module_id_def image_iff intro!: bexI [of _ "mod_index v"])
qed (auto simp: nodes_def mod_index_module_id)

section \<open>The invariant of the search\<close>

definition good_order :: "edges \<Rightarrow> ModuleId list \<Rightarrow> bool" where
  "good_order es ord = (distinct ord
     \<and> (\<forall>i<length ord. \<forall>e\<in>set (edge_list es (ord ! i)). target e \<in> set (take i ord)))"

lemma good_order_append:
  "good_order es ord \<Longrightarrow> v \<notin> set ord \<Longrightarrow> \<forall>e\<in>set (edge_list es v). target e \<in> set ord \<Longrightarrow> good_order es (ord @ [v])"
  by (auto simp: good_order_def nth_append less_Suc_eq)

definition follows :: "edges \<Rightarrow> ModuleId \<times> nat \<Rightarrow> ModuleId \<times> nat \<Rightarrow> bool" where
  "follows es = (\<lambda>(v, k) (w, j). 0 < k \<and> k \<le> length (edge_list es v) \<and> target (edge_list es v ! (k - 1)) = w)"

definition via :: "edges \<Rightarrow> ModuleId \<Rightarrow> ModuleId \<Rightarrow> Span \<Rightarrow> bool" where
  "via es v w sp = (\<exists>e\<in>set (edge_list es v). target e = w \<and> imp_span e = sp)"

definition scanned :: "edges \<Rightarrow> ModuleId list \<Rightarrow> ModuleId \<times> nat \<Rightarrow> bool" where
  "scanned es ord = (\<lambda>(v, k). \<forall>j<k. j < length (edge_list es v) \<longrightarrow> target (edge_list es v ! j) \<in> set ord)"

definition dfs_inv :: "nat \<Rightarrow> edges \<Rightarrow> Dfs \<Rightarrow> bool" where
  "dfs_inv n es s = (length (color s) = n
     \<and> good_order es (order s)
     \<and> set (order s) = {v \<in> nodes n. color s ! mod_index v = Black}
     \<and> distinct (map fst (stack s))
     \<and> set (map fst (stack s)) = {v \<in> nodes n. color s ! mod_index v = Gray}
     \<and> map fst (path_stack s) = map fst (stack s)
     \<and> successively (follows es) (stack s)
     \<and> successively (\<lambda>(v, _) (w, sp). via es v w sp) (path_stack s)
     \<and> (\<forall>x\<in>set (butlast (stack s)). scanned es (order s) (fst x, snd x - 1))
     \<and> (stack s \<noteq> [] \<longrightarrow> scanned es (order s) (last (stack s))))"

definition visited :: "nat \<Rightarrow> Dfs \<Rightarrow> ModuleId set" where
  "visited n s = {v \<in> nodes n. color s ! mod_index v \<noteq> White}"

text \<open>A chain of imports from a module back to itself.\<close>

definition import_cycle :: "Module list \<Rightarrow> edges \<Rightarrow> (ModuleId \<times> Path \<times> Span) list \<Rightarrow> bool" where
  "import_cycle ms es chain = (2 \<le> length chain \<and> fst (hd chain) = fst (last chain)
     \<and> successively (\<lambda>(v, _, _) (w, _, sp). via es v w sp) chain
     \<and> (\<forall>(v, p, sp)\<in>set chain. mod_index v < length ms \<and> abs_path (ms ! mod_index v) = p))"

lemma color_update:
  assumes "v \<in> nodes n" "length c = n"
  shows "{w \<in> nodes n. c[mod_index v := k] ! mod_index w = k'}
    = (if k' = k then insert v {w \<in> nodes n. c ! mod_index w = k'} else {w \<in> nodes n. c ! mod_index w = k'} - {v})"
  using assms by (auto simp: nodes_def nth_list_update)

lemma dfs_invD:
  assumes "dfs_inv n es s"
  shows "length (color s) = n" "good_order es (order s)"
    "set (order s) = {v \<in> nodes n. color s ! mod_index v = Black}"
    "distinct (map fst (stack s))"
    "set (map fst (stack s)) = {v \<in> nodes n. color s ! mod_index v = Gray}"
    "map fst (path_stack s) = map fst (stack s)"
    "successively (follows es) (stack s)"
    "successively (\<lambda>(v, _) (w, sp). via es v w sp) (path_stack s)"
    "\<forall>x\<in>set (butlast (stack s)). scanned es (order s) (fst x, snd x - 1)"
    "stack s \<noteq> [] \<Longrightarrow> scanned es (order s) (last (stack s))"
  using assms unfolding dfs_inv_def by blast+

lemma path_last:
  assumes "dfs_inv n es s" "stack s = st @ [(v, k)]"
  shows "path_stack s \<noteq> []" "fst (last (path_stack s)) = v"
proof -
  from dfs_invD(6) [OF assms(1)] assms(2) have "map fst (path_stack s) = map fst st @ [v]" by simp
  then show "path_stack s \<noteq> []" "fst (last (path_stack s)) = v"
    by (cases "path_stack s" rule: rev_cases; simp)+
qed

lemma stack_top:
  assumes "dfs_inv n es s" "stack s = st @ [(v, k)]"
  shows "v \<in> nodes n" "color s ! mod_index v = Gray" "v \<notin> set (order s)"
    "set (map fst st) = {w \<in> nodes n. color s ! mod_index w = Gray} - {v}"
proof -
  have "v \<in> {w \<in> nodes n. color s ! mod_index w = Gray}"
    using dfs_invD(5) [OF assms(1)] assms(2) by (metis (no_types) fst_conv in_set_conv_decomp list.simps(9) map_append set_map image_eqI)
  then show v: "v \<in> nodes n" "color s ! mod_index v = Gray" by simp_all
  then show "v \<notin> set (order s)" using dfs_invD(3) [OF assms(1)] by simp
  show "set (map fst st) = {w \<in> nodes n. color s ! mod_index w = Gray} - {v}"
    using dfs_invD(5) [OF assms(1), symmetric] dfs_invD(4) [OF assms(1)] by (simp add: assms(2))
qed

lemma step_pop:
  assumes inv: "dfs_inv n es s" and st: "stack s = st @ [(v, k)]" and k: "length (edge_list es v) \<le> k"
    and t: "dfs_step ms es s = Ok t"
  shows "dfs_inv n es t \<and> visited n s \<subseteq> visited n t"
proof -
  note D = dfs_invD [OF inv] and v = stack_top [OF inv st]
  let ?c = "(color s)[mod_index v := Black]"
  from t k st have t: "t = s\<lparr>color := ?c, order := order s @ [v], stack := st, path_stack := butlast (path_stack s)\<rparr>"
    by (auto simp: dfs_step_def outcome_simps)
  from D(10) st have "scanned es (order s) (v, k)" by simp
  with k have "\<forall>j<length (edge_list es v). target (edge_list es v ! j) \<in> set (order s)" by (simp add: scanned_def)
  then have all: "\<forall>e\<in>set (edge_list es v). target e \<in> set (order s)" by (metis in_set_conv_nth)
  have ord: "good_order es (order s @ [v])" by (rule good_order_append [OF D(2) v(3) all])
  have blacks: "set (order s @ [v]) = {w \<in> nodes n. ?c ! mod_index w = Black}"
    using D(3) by (simp add: color_update [OF v(1) D(1)])
  have grays: "set (map fst st) = {w \<in> nodes n. ?c ! mod_index w = Gray}"
    by (simp only: color_update [OF v(1) D(1)] v(4)) simp
  have paths: "map fst (butlast (path_stack s)) = map fst st"
    using D(6) st by (simp add: map_butlast)
  have succ: "successively (follows es) st" "st \<noteq> [] \<Longrightarrow> follows es (last st) (v, k)"
    using D(7) st by (auto simp: successively_append_iff)
  have psucc: "successively (\<lambda>(v, _) (w, sp). via es v w sp) (butlast (path_stack s))"
    using D(8) by (cases "path_stack s" rule: rev_cases) (auto simp: successively_append_iff)
  have sc: "\<forall>x\<in>set st. scanned es (order s) (fst x, snd x - 1)"
    using D(9) st by simp
  then have sc': "\<forall>x\<in>set (butlast st). scanned es (order s @ [v]) (fst x, snd x - 1)"
    by (auto simp: scanned_def dest: in_set_butlastD)
  have top: "scanned es (order s @ [v]) (last st)" if ne: "st \<noteq> []"
  proof -
    obtain w j where w: "last st = (w, j)" by fastforce
    with succ(2) [OF ne] have "0 < j" "target (edge_list es w ! (j - 1)) = v" by (simp_all add: follows_def)
    moreover from sc ne w have "scanned es (order s) (w, j - 1)" by (metis fst_conv last_in_set snd_conv)
    ultimately have "target (edge_list es w ! i) \<in> set (order s @ [v])" if "i < j" "i < length (edge_list es w)" for i
      using that by (cases "i = j - 1") (auto simp: scanned_def)
    then show ?thesis by (simp add: w scanned_def)
  qed
  have "dfs_inv n es t"
    unfolding dfs_inv_def using D(1,4) ord blacks grays paths succ(1) psucc sc' top by (simp add: t st)
  moreover have "visited n s \<subseteq> visited n t"
    using D(1) v(1) by (auto simp: t visited_def nodes_def nth_list_update)
  ultimately show ?thesis by blast
qed

lemma step_advance:
  assumes inv: "dfs_inv n es s" and st: "stack s = st @ [(v, k)]" and k: "k < length (edge_list es v)"
    and black: "color s ! mod_index (target (edge_list es v ! k)) = Black"
    and tn: "target (edge_list es v ! k) \<in> nodes n"
  shows "dfs_inv n es (s\<lparr>stack := st @ [(v, k + 1)]\<rparr>)"
proof -
  note D = dfs_invD [OF inv]
  have "target (edge_list es v ! k) \<in> set (order s)" using D(3) black tn by simp
  moreover have "scanned es (order s) (v, k)" using D(10) st by simp
  ultimately have "scanned es (order s) (v, k + 1)" by (auto simp: scanned_def less_Suc_eq)
  moreover have "successively (follows es) (st @ [(v, k + 1)])"
    using D(7) st by (auto simp: successively_append_iff follows_def)
  ultimately show ?thesis using inv st by (simp add: dfs_inv_def)
qed

lemma step_push:
  assumes inv: "dfs_inv n es s" and st: "stack s = st @ [(v, k)]" and k: "k < length (edge_list es v)"
    and white: "color s ! mod_index w = White" and w: "target (edge_list es v ! k) = w" "w \<in> nodes n"
  shows "dfs_inv n es (s\<lparr>color := (color s)[mod_index w := Gray],
      path_stack := path_stack s @ [(w, imp_span (edge_list es v ! k))], stack := st @ [(v, k + 1)] @ [(w, 0)]\<rparr>)"
    (is "dfs_inv n es ?t")
proof -
  note D = dfs_invD [OF inv] and v = stack_top [OF inv st]
  let ?c = "(color s)[mod_index w := Gray]"
  have blacks: "set (order s) = {u \<in> nodes n. ?c ! mod_index u = Black}"
    by (simp only: color_update [OF w(2) D(1)] D(3)) (use white in auto)
  have "insert v (set (map fst st)) = {u \<in> nodes n. color s ! mod_index u = Gray}" using v by auto
  then have grays: "insert w (insert v (set (map fst st))) = {u \<in> nodes n. ?c ! mod_index u = Gray}"
    by (simp only: color_update [OF w(2) D(1)]) simp
  from v(2) white have vw: "v \<noteq> w" by auto
  have "w \<notin> set (map fst (stack s))" using D(5) white by simp
  with vw D(4) have dist: "distinct (map fst st @ [v, w])" by (auto simp: st)
  have succ: "successively (follows es) (st @ [(v, k + 1), (w, 0)])"
    using D(7) st k w(1) by (auto simp: successively_append_iff follows_def)
  have "via es v w (imp_span (edge_list es v ! k))" using k w(1) by (auto simp: via_def)
  with path_last [OF inv st] have psucc: "successively (\<lambda>(v, _) (w, sp). via es v w sp) (path_stack s @ [(w, imp_span (edge_list es v ! k))])"
    using D(8) by (auto simp: successively_append_iff split: prod.splits)
  have "scanned es (order s) (v, k)" using D(10) st by simp
  then have sc: "\<forall>x\<in>set (st @ [(v, k + 1)]). scanned es (order s) (fst x, snd x - 1)"
    using D(9) st by auto
  show ?thesis
    unfolding dfs_inv_def using D(1,2,6) blacks grays dist succ psucc sc
    by (auto simp: st butlast_append scanned_def)
qed

lemma step_cycle:
  assumes ok: "graph_ok ms es" and inv: "dfs_inv (length ms) es s" and st: "stack s = st @ [(v, k)]"
    and k: "k < length (edge_list es v)" and w: "edge_list es v ! k = e"
    and gray: "color s ! mod_index (target e) = Gray"
  shows "\<exists>chain. cycle_chain ms (path_stack s) e = Ok chain \<and> import_cycle ms es chain"
proof -
  let ?n = "length ms" and ?P = "\<lambda>(i :: ModuleId, sp :: Span). i \<noteq> target e"
  let ?suf = "dropWhile ?P (path_stack s)"
  have e: "e \<in> set (edge_list es v)" using k w by auto
  with ok have tn: "target e \<in> nodes ?n" by (auto simp: graph_ok_def nodes_def)
  from inv have "map fst (path_stack s) = map fst (stack s)"
    "set (map fst (stack s)) = {u \<in> nodes ?n. color s ! mod_index u = Gray}" by (simp_all add: dfs_inv_def)
  then have on: "fst ` set (path_stack s) = {u \<in> nodes ?n. color s ! mod_index u = Gray}"
    by (simp only: set_map [symmetric])
  with tn gray have "target e \<in> fst ` set (path_stack s)" by simp
  then have ne: "?suf \<noteq> []" by auto
  from hd_dropWhile [OF ne] have hd: "fst (hd ?suf) = target e" by (auto split: prod.splits)
  have "last (takeWhile ?P (path_stack s) @ ?suf) = last ?suf" using ne by (rule last_appendR)
  then have last: "fst (last ?suf) = v" using path_last [OF inv st] by simp
  have "successively (\<lambda>(v, _) (w, sp). via es v w sp) (takeWhile ?P (path_stack s) @ ?suf)"
    using inv by (simp add: dfs_inv_def)
  then have suc: "successively (\<lambda>(v, _) (w, sp). via es v w sp) ?suf"
    unfolding successively_append_iff by blast
  let ?l = "?suf @ [(target e, imp_span e)]"
  let ?f = "\<lambda>(i, span). (i, abs_path (ms ! mod_index i), span)"
  have via: "via es v (target e) (imp_span e)" using e by (auto simp: via_def)
  have suc': "successively (\<lambda>(v, _) (w, sp). via es v w sp) ?l"
    using suc via last ne by (auto simp: successively_append_iff split: prod.splits)
  have inb: "\<forall>(i, span)\<in>set ?l. mod_index i < ?n"
    using tn on by (force simp: nodes_def dest: set_dropWhileD)
  then have "map_out (\<lambda>(i, span). at ms (mod_index i) (\<lambda>m. Ok (i, abs_path m, span))) ?l = Ok (map ?f ?l)"
    unfolding map_out_Ok list_all2_map2 list_all2_same by (auto simp: at_def split: prod.splits)
  moreover have "import_cycle ms es (map ?f ?l)"
  proof -
    have "successively (\<lambda>(v, _, _) (w, _, sp). via es v w sp) (map ?f ?l)"
      using suc' unfolding successively_map by (simp add: case_prod_beta)
    moreover have "fst (hd (map ?f ?l)) = target e" "fst (last (map ?f ?l)) = target e"
      using hd ne by (simp_all add: hd_append hd_map case_prod_beta)
    moreover have "2 \<le> length (map ?f ?l)" using ne by (simp add: Suc_le_eq)
    moreover have "\<forall>(v, p, sp)\<in>set (map ?f ?l). mod_index v < length ms \<and> abs_path (ms ! mod_index v) = p"
      using inb by (simp add: case_prod_beta)
    ultimately show ?thesis unfolding import_cycle_def by presburger
  qed
  ultimately show ?thesis unfolding cycle_chain_def by blast
qed

section \<open>The search\<close>

text \<open>What a run of the search from a state with the invariant returns.\<close>

definition searched :: "Module list \<Rightarrow> edges \<Rightarrow> Dfs \<Rightarrow> (ModuleGraphError, Dfs) outcome \<Rightarrow> bool" where
  "searched ms es s r = (case r of
     Ok t \<Rightarrow> dfs_inv (length ms) es t \<and> visited (length ms) s \<subseteq> visited (length ms) t
   | Err e \<Rightarrow> \<exists>chain. e = Cycle chain \<and> import_cycle ms es chain
   | Panic \<Rightarrow> False)"

lemma dfs_step_searched:
  assumes ok: "graph_ok ms es" and inv: "dfs_inv (length ms) es s" and ne: "stack s \<noteq> []"
  shows "searched ms es s (dfs_step ms es s)"
proof -
  let ?n = "length ms"
  note D = dfs_invD [OF inv]
  obtain st v k where st: "stack s = st @ [(v, k)]" using ne by (metis append_butlast_last_id surj_pair)
  note v = stack_top [OF inv st]
  then have vn: "mod_index v < length (color s)" using D(1) by (simp add: nodes_def)
  show ?thesis
  proof (cases "length (edge_list es v) \<le> k")
    case True
    with st vn have "\<exists>t. dfs_step ms es s = Ok t" by (simp add: dfs_step_def put_def)
    then obtain t where t: "dfs_step ms es s = Ok t" ..
    from step_pop [OF inv st True t] t show ?thesis by (simp add: searched_def)
  next
    case False
    then have k: "k < length (edge_list es v)" by simp
    let ?e = "edge_list es v ! k"
    have "?e \<in> set (edge_list es v)" using k by simp
    with ok have "mod_index (target ?e) < ?n" by (simp add: graph_ok_def)
    then have tn: "target ?e \<in> nodes ?n" "mod_index (target ?e) < length (color s)" using D(1) by (simp_all add: nodes_def)
    show ?thesis
    proof (cases "color s ! mod_index (target ?e)")
      case White
      from step_push [OF inv st k White refl tn(1)] k tn(2) White D(1) show ?thesis
        by (simp add: dfs_step_def st at_def put_def Let_def searched_def visited_def)
          (auto simp: nodes_def nth_list_update)
    next
      case Gray
      from step_cycle [OF ok inv st k refl Gray] k tn(2) Gray show ?thesis
        by (auto simp: dfs_step_def st at_def Let_def searched_def)
    next
      case Black
      from step_advance [OF inv st k Black tn(1)] k tn(2) Black show ?thesis
        by (simp add: dfs_step_def st at_def Let_def searched_def visited_def)
    qed
  qed
qed

lemma dfs_loop_searched:
  assumes ok: "graph_ok ms es"
  shows "dfs_inv (length ms) es s \<Longrightarrow>
    searched ms es s (dfs_loop ms es s) \<and> (\<forall>t. dfs_loop ms es s = Ok t \<longrightarrow> stack t = [])"
  using ok
proof (induction ms es s rule: dfs_loop.induct)
  case (1 ms es s)
  show ?case
  proof (cases "stack s = []")
    case True
    with "1.prems" show ?thesis by (simp add: dfs_loop.simps [of ms es s] searched_def)
  next
    case False
    note step = dfs_step_searched [OF "1.prems"(2,1) False]
    show ?thesis
    proof (cases "dfs_step ms es s")
      case (Ok t)
      with step have t: "dfs_inv (length ms) es t" "visited (length ms) s \<subseteq> visited (length ms) t"
        by (simp_all add: searched_def)
      from "1.IH" [OF False Ok t(1) "1.prems"(2)] t(2) False Ok show ?thesis
        by (auto simp: dfs_loop.simps [of ms es s] searched_def split: outcome.splits)
    qed (use step False in \<open>simp_all add: dfs_loop.simps [of ms es s] searched_def\<close>)
  qed
qed

text \<open>Between two visits no node is gray.\<close>

definition between :: "nat \<Rightarrow> edges \<Rightarrow> DfsColor list \<times> ModuleId list \<Rightarrow> bool" where
  "between n es = (\<lambda>(c, ord). dfs_inv n es \<lparr>color = c, order = ord, stack = [], path_stack = []\<rparr>)"

lemma between_grays: "between n es (c, ord) \<Longrightarrow> {v \<in> nodes n. c ! mod_index v = Gray} = {}"
  using dfs_invD(5) [of n es "\<lparr>color = c, order = ord, stack = [], path_stack = []\<rparr>"] by (simp add: between_def)

lemma visit_seed_searched:
  assumes ok: "graph_ok ms es" and inv: "between (length ms) es (c, ord)" and v: "seed \<in> nodes (length ms)"
  shows "case visit_seed ms es seed (c, ord) of
      Ok (c', ord') \<Rightarrow> between (length ms) es (c', ord') \<and> insert seed (set ord) \<subseteq> set ord'
    | Err e \<Rightarrow> \<exists>chain. e = Cycle chain \<and> import_cycle ms es chain
    | Panic \<Rightarrow> False"
proof -
  let ?n = "length ms"
  let ?s = "\<lparr>color = c, order = ord, stack = [], path_stack = []\<rparr>"
  let ?t = "\<lparr>color = c[mod_index seed := Gray], order = ord, stack = [(seed, 0)], path_stack = [(seed, DUMMY_SPAN)]\<rparr>"
  from inv have I: "dfs_inv ?n es ?s" by (simp add: between_def)
  note D = dfs_invD [OF I, simplified]
  have idx: "mod_index seed < length c" using D(1) v by (simp add: nodes_def)
  show ?thesis
  proof (cases "c ! mod_index seed = White")
    case True
    have "dfs_inv ?n es ?t"
      unfolding dfs_inv_def using D(1,2,3) True v between_grays [OF inv]
      by (auto simp: color_update [OF v D(1)] scanned_def)
    from dfs_loop_searched [OF ok this]
    have S: "searched ms es ?t (dfs_loop ms es ?t)" "\<forall>t. dfs_loop ms es ?t = Ok t \<longrightarrow> stack t = []" by blast+
    have sub: "insert seed (set ord) \<subseteq> visited ?n ?t"
      using D(3) v idx by (auto simp: visited_def nodes_def nth_list_update)
    have run: "visit_seed ms es seed (c, ord)
      = andthen (dfs_loop ms es ?t) (\<lambda>s. Ok (color s, order s))"
      using True idx by (simp add: visit_seed_def dfs_visit_def at_def put_def)
    show ?thesis
    proof (cases "dfs_loop ms es ?t")
      case (Ok t)
      with S have t: "dfs_inv ?n es t" "visited ?n ?t \<subseteq> visited ?n t" "stack t = []" by (auto simp: searched_def)
      note T = dfs_invD [OF t(1)]
      from T(6) t(3) have "path_stack t = []" by simp
      then have "\<lparr>color = color t, order = order t, stack = [], path_stack = []\<rparr> = t" using t(3) by simp
      with t(1) have "between ?n es (color t, order t)" by (simp add: between_def)
      moreover have "visited ?n t = set (order t)"
        using T(3,5) t(3) DfsColor.exhaust by (auto simp: visited_def)
      ultimately show ?thesis using sub t(2) by (auto simp: run Ok)
    qed (use S run in \<open>auto simp: searched_def\<close>)
  next
    case False
    then have "seed \<in> set ord" using D(3) v between_grays [OF inv] by (auto intro: DfsColor.exhaust)
    with False idx inv show ?thesis by (simp add: visit_seed_def at_def insert_absorb)
  qed
qed

lemma visit_seeds_searched:
  assumes ok: "graph_ok ms es"
  shows "between (length ms) es (c, ord) \<Longrightarrow> set seeds \<subseteq> nodes (length ms) \<Longrightarrow>
    (case fold_out (visit_seed ms es) seeds (c, ord) of
      Ok (c', ord') \<Rightarrow> between (length ms) es (c', ord') \<and> set seeds \<union> set ord \<subseteq> set ord'
    | Err e \<Rightarrow> \<exists>chain. e = Cycle chain \<and> import_cycle ms es chain
    | Panic \<Rightarrow> False)"
proof (induction seeds arbitrary: c ord)
  case (Cons v seeds)
  from visit_seed_searched [OF ok Cons.prems(1), of v] Cons.prems(2) show ?case
  proof (cases "visit_seed ms es v (c, ord)")
    case (Ok r)
    obtain c' ord' where r: "r = (c', ord')" by (cases r)
    with Ok visit_seed_searched [OF ok Cons.prems(1), of v] Cons.prems(2)
    have "between (length ms) es (c', ord')" "insert v (set ord) \<subseteq> set ord'" by auto
    with Cons.IH [of c' ord'] Cons.prems(2) Ok r show ?thesis
      by (auto split: outcome.splits)
  qed auto
qed simp

theorem topo_order_searched:
  assumes ok: "graph_ok ms es" and "set seeds \<subseteq> nodes (length ms)"
  shows "case topo_order ms es seeds of
      Ok ord \<Rightarrow> good_order es ord \<and> set ord = nodes (length ms)
    | Err e \<Rightarrow> \<exists>chain. e = Cycle chain \<and> import_cycle ms es chain
    | Panic \<Rightarrow> False"
proof -
  let ?n = "length ms" and ?all = "seeds @ map module_id [0..<length ms]"
  from ok have n: "?n \<le> 2 ^ 32" by (simp add: graph_ok_def)
  have "between ?n es (replicate ?n White, [])"
    by (auto simp: between_def dfs_inv_def good_order_def nodes_def)
  moreover have all: "set ?all = nodes ?n" using assms(2) by (auto simp: nodes_module_id [OF n])
  ultimately have R: "case fold_out (visit_seed ms es) ?all (replicate ?n White, []) of
      Ok (c', ord') \<Rightarrow> between ?n es (c', ord') \<and> set ?all \<union> set [] \<subseteq> set ord'
    | Err e \<Rightarrow> \<exists>chain. e = Cycle chain \<and> import_cycle ms es chain
    | Panic \<Rightarrow> False"
    by (intro visit_seeds_searched [OF ok]) simp_all
  show ?thesis
  proof (cases "fold_out (visit_seed ms es) ?all (replicate ?n White, [])")
    case (Ok r)
    obtain c ord where r: "r = (c, ord)" by (cases r)
    with Ok R have ord: "between ?n es (c, ord)" "nodes ?n \<subseteq> set ord" unfolding all by auto
    from ord(1) have I: "dfs_inv ?n es \<lparr>color = c, order = ord, stack = [], path_stack = []\<rparr>" by (simp add: between_def)
    from dfs_invD(2,3) [OF I] ord(2) have "good_order es ord" "set ord = nodes ?n" by auto
    then show ?thesis using Ok r by (simp add: topo_order_def)
  qed (use R in \<open>simp_all add: topo_order_def\<close>)
qed

section \<open>Cycles\<close>

lemma import_cycle_trancl: "import_cycle ms es chain \<Longrightarrow> \<exists>v. (v, v) \<in> (import_rel es)\<^sup>+"
proof -
  have path: "successively (\<lambda>(v, _, _) (w, _, sp). via es v w sp) (x # xs) \<Longrightarrow> xs \<noteq> [] \<Longrightarrow>
      (fst x, fst (last xs)) \<in> (import_rel es)\<^sup>+" for x :: "ModuleId \<times> Path \<times> Span" and xs
  proof (induction xs arbitrary: x)
    case (Cons y ys)
    then have "(fst x, fst y) \<in> import_rel es" by (auto simp: import_rel_def via_def)
    with Cons show ?case by (cases "ys = []") (auto intro: trancl_into_trancl2)
  qed simp
  assume "import_cycle ms es chain"
  then show ?thesis
  proof (cases chain)
    case (Cons x xs)
    with \<open>import_cycle ms es chain\<close> have "xs \<noteq> []" by (auto simp: import_cycle_def)
    with path [of x xs] Cons \<open>import_cycle ms es chain\<close> show ?thesis
      by (auto simp: import_cycle_def)
  qed (simp add: import_cycle_def)
qed

lemma good_order_acyclic:
  assumes "good_order es ord" "\<forall>v w. (v, w) \<in> import_rel es \<longrightarrow> v \<in> set ord"
  shows "acyclic (import_rel es)"
proof -
  define pos where "pos v = (THE i. i < length ord \<and> ord ! i = v)" for v
  have pos: "i < length ord \<Longrightarrow> pos (ord ! i) = i" for i
    unfolding pos_def using assms(1) by (auto simp: good_order_def nth_eq_iff_index_eq intro!: the_equality)
  have sub: "import_rel es \<subseteq> inv_image {(i, j). j < i} pos"
  proof clarify
    fix v w assume vw: "(v, w) \<in> import_rel es"
    with assms(2) obtain i where i: "i < length ord" "ord ! i = v" by (metis in_set_conv_nth)
    from vw obtain e where "e \<in> set (edge_list es v)" "target e = w" by (auto simp: import_rel_def)
    with assms(1) i have "w \<in> set (take i ord)" by (auto simp: good_order_def)
    then obtain j where "j < i" "ord ! j = w" by (auto simp: in_set_conv_nth)
    with i pos [of i] pos [of j] show "(v, w) \<in> inv_image {(i, j). j < i} pos" by auto
  qed
  have "inv_image {(i, j). j < i} pos = (inv_image less_than pos)\<inverse>" by auto
  moreover have "acyclic ((inv_image less_than pos)\<inverse>)"
    unfolding acyclic_converse by (intro wf_acyclic wf_inv_image wf_less_than)
  ultimately have "acyclic (inv_image {(i, j). j < i} pos)" by metis
  then show ?thesis using sub by (rule acyclic_subset)
qed

end
