(* ===== verification/Module_Load.thy ===== *)
theory Module_Load
  imports Module_Topo
begin

text \<open>
  Loading: the invariant of the builder, the modules and edges it collects, and that it ends when the
  files are finitely many.
\<close>

section \<open>The invariant of the builder\<close>

text \<open>A module is the parse of its file, and its edges are its path imports, resolved in their order.\<close>

definition loaded :: "Host \<Rightarrow> Module \<Rightarrow> bool" where
  "loaded h m = (read_file h (abs_path m) = Ok (mod_source m)
     \<and> program m = (case fst (parse_program h (mod_source m)) of
         None \<Rightarrow> \<lparr>shebang = None, definitions = []\<rparr> | Some p \<Rightarrow> p))"

definition resolves :: "Host \<Rightarrow> Module list \<Rightarrow> Path \<Rightarrow> nat \<times> string \<times> Span \<Rightarrow> PathImport \<Rightarrow> bool" where
  "resolves h ms dir = (\<lambda>(idx, raw, span) e. def_index e = idx \<and> imp_span e = span
     \<and> is_relative_path raw \<and> ends_with raw ''.star''
     \<and> mod_index (target e) < length ms
     \<and> canonicalize h (path_join dir raw) = Ok (abs_path (ms ! mod_index (target e))))"

definition resolved_module :: "Host \<Rightarrow> Module list \<Rightarrow> edges \<Rightarrow> nat \<Rightarrow> bool" where
  "resolved_module h ms es i =
     list_all2 (resolves h ms (importer_dir (ms ! i))) (raw_imports (ms ! i)) (edge_list es (module_id i))"

definition numbered :: "Host \<Rightarrow> Builder \<Rightarrow> bool" where
  "numbered h b = (
     (\<forall>i<length (b_modules b). mod_id (b_modules b ! i) = module_id i)
     \<and> (\<forall>p i. by_path b p = Some i \<longleftrightarrow> mod_index i < length (b_modules b) \<and> abs_path (b_modules b ! mod_index i) = p)
     \<and> (\<forall>m\<in>set (b_modules b). loaded h m)
     \<and> (parse_failures b = [] \<longrightarrow> (\<forall>m\<in>set (b_modules b). snd (parse_program h (mod_source m)) = [])))"

definition builder_inv :: "Host \<Rightarrow> nat \<Rightarrow> Builder \<Rightarrow> bool" where
  "builder_inv h k b = (numbered h b \<and> k \<le> length (b_modules b)
     \<and> (\<forall>i<k. resolved_module h (b_modules b) (b_edges b) i)
     \<and> (\<forall>i. k \<le> mod_index i \<longrightarrow> b_edges b (raw_id i) = None))"

text \<open>Loading only adds modules.\<close>

definition extends :: "Builder \<Rightarrow> Builder \<Rightarrow> bool" where
  "extends b b' = (\<exists>xs. b_modules b' = b_modules b @ xs)"

lemma grown_refl [simp]: "extends b b"
  by (simp add: extends_def)

lemma grown_trans: "extends a b \<Longrightarrow> extends b c \<Longrightarrow> extends a c"
  by (auto simp: extends_def)

lemma extends_length: "extends b b' \<Longrightarrow> length (b_modules b) \<le> length (b_modules b')"
  by (auto simp: extends_def)

lemma extends_nth: "extends b b' \<Longrightarrow> i < length (b_modules b) \<Longrightarrow> b_modules b' ! i = b_modules b ! i"
  by (auto simp: extends_def nth_append)

lemma resolves_extends: "extends b b' \<Longrightarrow> resolves h (b_modules b) dir x e \<Longrightarrow> resolves h (b_modules b') dir x e"
  using extends_length [of b b'] by (auto simp: resolves_def extends_nth)

lemma resolved_extends:
  "extends b b' \<Longrightarrow> i < length (b_modules b) \<Longrightarrow> resolved_module h (b_modules b) es i \<Longrightarrow>
    resolved_module h (b_modules b') es i"
  unfolding resolved_module_def by (auto simp: extends_nth elim!: list_all2_mono resolves_extends)

definition parsed_module :: "Host \<Rightarrow> ModuleId \<Rightarrow> Path \<Rightarrow> string \<Rightarrow> Module" where
  "parsed_module h i p src = \<lparr>mod_id = i, abs_path = p, mod_source = src,
     program = (case fst (parse_program h src) of None \<Rightarrow> \<lparr>shebang = None, definitions = []\<rparr> | Some p \<Rightarrow> p)\<rparr>"

lemma parse_module_cases:
  assumes "parse_module h p b = Ok (i, b')"
  obtains (known) "by_path b p = Some i" "b' = b"
  | (fresh) src where "by_path b p = None" "read_file h p = Ok src" "i = module_id (length (b_modules b))"
      "b' = b\<lparr>b_modules := b_modules b @ [parsed_module h i p src], by_path := (by_path b)(p \<mapsto> i),
        parse_failures := (if snd (parse_program h src) \<noteq> [] then parse_failures b @ [(i, snd (parse_program h src))]
          else parse_failures b),
        b_fs := (b_fs b)\<lparr>dependencies := dependencies (b_fs b) @ [p]\<rparr>\<rparr>"
proof (cases "by_path b p")
  case None
  with assms have "\<exists>src. read_file h p = Ok src \<and> i = module_id (length (b_modules b))
    \<and> b' = b\<lparr>b_modules := b_modules b @ [parsed_module h i p src], by_path := (by_path b)(p \<mapsto> i),
        parse_failures := (if snd (parse_program h src) \<noteq> [] then parse_failures b @ [(i, snd (parse_program h src))]
          else parse_failures b),
        b_fs := (b_fs b)\<lparr>dependencies := dependencies (b_fs b) @ [p]\<rparr>\<rparr>"
    by (cases "read_file h p")
      (auto simp: parse_module_def read_to_string_def Let_def case_prod_beta parsed_module_def)
  with None fresh show ?thesis by blast
next
  case (Some j)
  with assms have "by_path b p = Some i" "b' = b" by (simp_all add: parse_module_def)
  then show ?thesis by (rule known)
qed

lemma parse_module_extends: "parse_module h p b = Ok (i, b') \<Longrightarrow> extends b b'"
  by (erule parse_module_cases) (simp_all add: extends_def)

lemma parse_module_edges: "parse_module h p b = Ok (i, b') \<Longrightarrow> b_edges b' = b_edges b"
  by (erule parse_module_cases) simp_all

lemma parse_module_numbered:
  assumes "numbered h b" "parse_module h p b = Ok (i, b')" "length (b_modules b') \<le> 2 ^ 32"
  shows "numbered h b' \<and> mod_index i < length (b_modules b') \<and> abs_path (b_modules b' ! mod_index i) = p"
  using assms(2)
proof (cases rule: parse_module_cases)
  case (fresh src)
  from assms(1) fresh(1) have new: "\<And>j. mod_index j < length (b_modules b) \<Longrightarrow> abs_path (b_modules b ! mod_index j) \<noteq> p"
    unfolding numbered_def by (metis option.distinct(1))
  let ?n = "length (b_modules b)"
  have n: "mod_index i = ?n" using assms(3) fresh by (simp add: mod_index_module_id [of _ "2 ^ 32"])
  have "numbered h b'"
    unfolding numbered_def
  proof (intro conjI)
    show "\<forall>q j. by_path b' q = Some j \<longleftrightarrow> mod_index j < length (b_modules b') \<and> abs_path (b_modules b' ! mod_index j) = q"
    proof (intro allI)
      fix q j
      have "by_path b q = Some j \<longleftrightarrow> mod_index j < ?n \<and> abs_path (b_modules b ! mod_index j) = q"
        using assms(1) unfolding numbered_def by blast
      then show "by_path b' q = Some j \<longleftrightarrow> mod_index j < length (b_modules b') \<and> abs_path (b_modules b' ! mod_index j) = q"
        using new [of j] n mod_index_inject [of j i]
        by (auto simp: fresh(4) parsed_module_def nth_append less_Suc_eq simp del: mod_index_inject)
    qed
  qed (use assms(1) fresh in \<open>auto simp: numbered_def parsed_module_def nth_append less_Suc_eq loaded_def\<close>)
  with n show ?thesis by (simp add: fresh(4) parsed_module_def)
qed (use assms(1) in \<open>auto simp: numbered_def\<close>)

section \<open>Resolving the imports of a module\<close>

text \<open>What the loop over the imports of a module keeps.\<close>

definition resolving :: "Host \<Rightarrow> Path \<Rightarrow> Builder \<Rightarrow> (nat \<times> string \<times> Span) list \<Rightarrow> Builder \<times> PathImport list \<Rightarrow> bool" where
  "resolving h dir b0 raws = (\<lambda>(b, res). extends b0 b \<and> b_edges b = b_edges b0
     \<and> (length (b_modules b) \<le> 2 ^ 32 \<longrightarrow> numbered h b \<and> list_all2 (resolves h (b_modules b) dir) raws res))"

lemma resolve_import_step:
  assumes "resolving h dir b0 raws (b, res)" "resolve_import h i dir raw (b, res) = Ok (b', res')"
  shows "resolving h dir b0 (raws @ [raw]) (b', res')"
proof -
  obtain idx path span where raw: "raw = (idx, path, span)" by (cases raw)
  with assms(2) obtain canonical tgt where
      chk: "is_relative_path path" "ends_with path ''.star''" and
    can: "canonicalize h (path_join dir path) = Ok canonical" and
    parse: "parse_module h canonical b = Ok (tgt, b')" and
    res': "res' = res @ [\<lparr>def_index = idx, target = tgt, imp_span = span\<rparr>]"
    by (auto simp: resolve_import_def outcome_simps Let_def split: if_splits prod.splits)
  note ext = parse_module_extends [OF parse]
  have old: "list_all2 (resolves h (b_modules b) dir) raws res \<Longrightarrow> list_all2 (resolves h (b_modules b') dir) raws res"
    by (erule list_all2_mono) (rule resolves_extends [OF ext])
  show ?thesis
    using assms(1) parse_module_edges [OF parse] parse_module_numbered [OF _ parse] chk can extends_length [OF ext] old
    by (auto simp: resolving_def raw res' resolves_def intro: grown_trans [OF _ ext] intro!: list_all2_appendI)
qed
lemma resolve_import_fold:
  "fold_out (resolve_import h i dir) raws (b, res) = Ok (b', res') \<Longrightarrow> resolving h dir b0 raws0 (b, res) \<Longrightarrow>
    resolving h dir b0 (raws0 @ raws) (b', res')"
proof (induction raws arbitrary: b res raws0)
  case (Cons raw raws)
  then obtain c rc where c: "resolve_import h i dir raw (b, res) = Ok (c, rc)"
    "fold_out (resolve_import h i dir) raws (c, rc) = Ok (b', res')" by (auto simp: outcome_simps)
  from Cons.IH [OF c(2) resolve_import_step [OF Cons.prems(2) c(1)]] show ?case by simp
qed simp

lemma resolve_imports_run:
  assumes "resolve_imports h i b = Ok b'"
  obtains c res where "mod_index i < length (b_modules b)"
    "fold_out (resolve_import h i (importer_dir (b_modules b ! mod_index i))) (raw_imports (b_modules b ! mod_index i)) (b, []) = Ok (c, res)"
    "b_modules b' = b_modules c" "by_path b' = by_path c" "parse_failures b' = parse_failures c"
    "b_edges b' = (if res \<noteq> [] then (b_edges c)(raw_id i \<mapsto> res) else b_edges c)"
  using assms by (cases "b_modules b = []") (auto simp: resolve_imports_def outcome_simps split: if_splits intro!: that)

lemma resolving_refl: "numbered h b \<Longrightarrow> resolving h dir b [] (b, [])"
  by (simp add: resolving_def)

lemma resolve_import_extends:
  "resolve_import h i dir raw (b, res) = Ok (b', res') \<Longrightarrow> extends b b'"
  by (cases raw) (auto simp: resolve_import_def outcome_simps Let_def split: if_splits dest: parse_module_extends)

lemma resolve_imports_extends:
  assumes "resolve_imports h i b = Ok b'" shows "extends b b'"
  using assms
proof (rule resolve_imports_run)
  fix c res
  assume run: "fold_out (resolve_import h i (importer_dir (b_modules b ! mod_index i))) (raw_imports (b_modules b ! mod_index i)) (b, []) = Ok (c, res)"
    and ms: "b_modules b' = b_modules c"
  have "extends b (fst (c, res))"
    by (rule fold_out_invariant [OF run, where I = "\<lambda>s. extends b (fst s)"])
      (auto intro: grown_trans [OF _ resolve_import_extends])
  with ms show ?thesis by (simp add: extends_def)
qed

lemma numbered_cong:
  "b_modules b' = b_modules b \<Longrightarrow> by_path b' = by_path b \<Longrightarrow> parse_failures b' = parse_failures b \<Longrightarrow>
    numbered h b \<Longrightarrow> numbered h b'"
  by (simp add: numbered_def)

lemma resolve_imports_inv:
  assumes inv: "builder_inv h k b" and k: "k < length (b_modules b)"
    and res: "resolve_imports h (module_id k) b = Ok b'" and len: "length (b_modules b') \<le> 2 ^ 32"
  shows "builder_inv h (k + 1) b'"
proof -
  let ?m = "b_modules b ! k"
  note ext = resolve_imports_extends [OF res]
  from k len extends_length [OF ext] have id: "mod_index (module_id k) = k" by (intro mod_index_module_id [of _ "2 ^ 32"]) simp_all
  from inv have num: "numbered h b" by (simp add: builder_inv_def)
  from res obtain c rs where run: "fold_out (resolve_import h (module_id k) (importer_dir ?m)) (raw_imports ?m) (b, []) = Ok (c, rs)"
    and ms: "b_modules b' = b_modules c" "by_path b' = by_path c" "parse_failures b' = parse_failures c"
    and es: "b_edges b' = (if rs \<noteq> [] then (b_edges c)(raw_id (module_id k) \<mapsto> rs) else b_edges c)"
    by (rule resolve_imports_run) (simp add: id)
  from resolve_import_fold [OF run resolving_refl [OF num]] len
  have c: "b_edges c = b_edges b" "numbered h c"
    and all: "list_all2 (resolves h (b_modules c) (importer_dir ?m)) (raw_imports ?m) rs"
    by (simp_all add: resolving_def ms)
  have none: "b_edges b (raw_id (module_id k)) = None" using inv id by (simp add: builder_inv_def)
  have old: "edge_list (b_edges b') j = edge_list (b_edges b) j" if "j \<noteq> module_id k" for j
    using that by (cases j; cases "module_id k") (simp add: es c(1) edge_list_def)
  have new: "edge_list (b_edges b') (module_id k) = rs" using none by (simp add: es c(1) edge_list_def)
  have "resolved_module h (b_modules b') (b_edges b') i" if i: "i < k + 1" for i
  proof (cases "i = k")
    case True
    with all new extends_nth [OF ext k] show ?thesis by (simp add: resolved_module_def ms)
  next
    case False
    then have "module_id i \<noteq> module_id k"
      using i k id len extends_length [OF ext] by (metis mod_index_module_id less_antisym less_le_trans less_trans Suc_eq_plus1 order.strict_trans2 nat_less_le)
    then have "resolved_module h (b_modules b) (b_edges b') i"
      using False i inv old [of "module_id i"] by (simp add: builder_inv_def resolved_module_def)
    with resolved_extends [OF ext] False i k show ?thesis by simp
  qed
  moreover have "b_edges b' (raw_id j) = None" if "k + 1 \<le> mod_index j" for j
  proof -
    have "b_edges b (raw_id j) = None" "j \<noteq> module_id k" using that inv id by (auto simp: builder_inv_def)
    then show ?thesis by (cases j; cases "module_id k") (simp add: es c(1))
  qed
  ultimately show ?thesis
    using numbered_cong [OF ms c(2)] k extends_length [OF ext] by (simp add: builder_inv_def)
qed

section \<open>Resolving all modules\<close>

lemma resolve_all_extends: "resolve_all n h k b = Some (Ok b') \<Longrightarrow> extends b b'"
proof (induction n h k b rule: resolve_all.induct)
  case (1 n h k b)
  from "1.prems" show ?case
    by (subst (asm) resolve_all.simps)
      (auto split: if_splits nat.splits outcome.splits intro: grown_trans [OF resolve_imports_extends "1.IH"])
qed

lemma resolve_all_inv:
  "resolve_all n h k b = Some (Ok b') \<Longrightarrow> builder_inv h k b \<Longrightarrow> length (b_modules b') \<le> 2 ^ 32 \<Longrightarrow>
    builder_inv h (length (b_modules b')) b'"
proof (induction n h k b rule: resolve_all.induct)
  case (1 n h k b)
  show ?case
  proof (cases "k < length (b_modules b)")
    case True
    with "1.prems"(1) obtain n' c where n: "n = Suc n'" "resolve_imports h (module_id k) b = Ok c"
      and rest: "resolve_all n' h (k + 1) c = Some (Ok b')"
      by (subst (asm) resolve_all.simps) (auto split: nat.splits outcome.splits)
    from resolve_imports_inv [OF "1.prems"(2) True n(2)] extends_length [OF resolve_all_extends [OF rest]] "1.prems"(3)
    have "builder_inv h (k + 1) c" by simp
    from "1.IH" [OF True n rest this "1.prems"(3)] show ?thesis .
  next
    case False
    with "1.prems"(1) have "b' = b" by (subst (asm) resolve_all.simps) simp
    with False "1.prems"(2) show ?thesis by (simp add: builder_inv_def order.antisym)
  qed
qed

lemma builder_inv_graph_ok:
  assumes "builder_inv h (length (b_modules b)) b" "length (b_modules b) \<le> 2 ^ 32"
  shows "graph_ok (b_modules b) (b_edges b)"
proof -
  have src: "mod_index i < length (b_modules b)" if "edge_list (b_edges b) i \<noteq> []" for i
  proof (rule ccontr)
    assume "\<not> mod_index i < length (b_modules b)"
    with assms(1) have "b_edges b (raw_id i) = None" by (simp add: builder_inv_def)
    with that show False by (simp add: edge_list_def)
  qed
  have "mod_index (target e) < length (b_modules b)" if e: "e \<in> set (edge_list (b_edges b) i)" for i e
  proof -
    from e have "edge_list (b_edges b) i \<noteq> []" by auto
    then have i: "mod_index i < length (b_modules b)" by (rule src)
    with assms(2) have "module_id (mod_index i) = i"
      using mod_index_module_id [of "mod_index i" "length (b_modules b)"] by (metis mod_index_inject)
    with assms(1) i have "list_all2 (resolves h (b_modules b) (importer_dir (b_modules b ! mod_index i)))
        (raw_imports (b_modules b ! mod_index i)) (edge_list (b_edges b) i)"
      unfolding builder_inv_def resolved_module_def by metis
    with e show ?thesis by (auto simp: list_all2_conv_all_nth resolves_def in_set_conv_nth)
  qed
  with src assms show ?thesis by (auto simp: graph_ok_def builder_inv_def numbered_def)
qed

lemma builder_inv_distinct:
  assumes "numbered h b" "length (b_modules b) \<le> 2 ^ 32"
  shows "distinct (map abs_path (b_modules b))"
  unfolding distinct_conv_nth
proof (intro allI impI)
  fix i j assume ij: "i < length (map abs_path (b_modules b))" "j < length (map abs_path (b_modules b))" "i \<noteq> j"
  with assms(2) have id: "mod_index (module_id i) = i" "mod_index (module_id j) = j"
    by (auto intro!: mod_index_module_id [of _ "2 ^ 32"])
  from assms(1) have known: "\<And>p v. by_path b p = Some v \<longleftrightarrow> mod_index v < length (b_modules b) \<and> abs_path (b_modules b ! mod_index v) = p"
    unfolding numbered_def by blast
  show "map abs_path (b_modules b) ! i \<noteq> map abs_path (b_modules b) ! j"
    using known [of "abs_path (b_modules b ! i)" "module_id i"] known [of "abs_path (b_modules b ! j)" "module_id j"] ij id
    by (metis length_map nth_map option.inject)
qed

section \<open>Loading ends\<close>

definition paths_inv :: "Path set \<Rightarrow> Builder \<Rightarrow> bool" where
  "paths_inv P b = (distinct (map abs_path (b_modules b)) \<and> dom (by_path b) = abs_path ` set (b_modules b)
     \<and> abs_path ` set (b_modules b) \<subseteq> P)"

lemma paths_inv_length: "paths_inv P b \<Longrightarrow> finite P \<Longrightarrow> length (b_modules b) \<le> card P"
  unfolding paths_inv_def using distinct_card [of "map abs_path (b_modules b)"] by (metis card_mono length_map set_map)

lemma parse_module_paths: "parse_module h p b = Ok (i, b') \<Longrightarrow> p \<in> P \<Longrightarrow> paths_inv P b \<Longrightarrow> paths_inv P b'"
  by (erule parse_module_cases) (auto simp: paths_inv_def parsed_module_def)

lemma resolve_imports_paths:
  assumes "\<And>p q. canonicalize h p = Ok q \<Longrightarrow> q \<in> P" "paths_inv P b" "resolve_imports h i b = Ok b'"
  shows "paths_inv P b'"
proof -
  have step: "resolve_import h i dir raw s = Ok s' \<Longrightarrow> paths_inv P (fst s) \<Longrightarrow> paths_inv P (fst s')" for dir raw s s'
    by (cases raw; cases s) (auto simp: resolve_import_def outcome_simps Let_def split: if_splits
        intro: parse_module_paths assms(1))
  from assms(3) show ?thesis
  proof (rule resolve_imports_run)
    fix c res
    assume run: "fold_out (resolve_import h i (importer_dir (b_modules b ! mod_index i)))
          (raw_imports (b_modules b ! mod_index i)) (b, []) = Ok (c, res)"
      and eq: "b_modules b' = b_modules c" "by_path b' = by_path c"
    from fold_out_invariant [OF run, where I = "\<lambda>s. paths_inv P (fst s)"] step assms(2)
    have "paths_inv P c" by fastforce
    with eq show ?thesis by (simp add: paths_inv_def)
  qed
qed

lemma resolve_all_ends:
  assumes "finite P" "\<And>p q. canonicalize h p = Ok q \<Longrightarrow> q \<in> P"
  shows "paths_inv P b \<Longrightarrow> card P \<le> n + k \<Longrightarrow> resolve_all n h k b \<noteq> None"
proof (induction n arbitrary: k b)
  case 0
  with paths_inv_length [OF "0.prems"(1) assms(1)] show ?case by (simp add: resolve_all.simps)
next
  case (Suc n)
  then show ?case
    using resolve_imports_paths [OF assms(2) Suc.prems(1)]
    by (subst resolve_all.simps) (auto split: outcome.splits)
qed

lemma resolve_all_mono: "resolve_all n h k b = Some r \<Longrightarrow> n \<le> m \<Longrightarrow> resolve_all m h k b = Some r"
proof (induction n arbitrary: m k b)
  case 0
  then show ?case by (subst (asm) resolve_all.simps, subst resolve_all.simps) (auto split: if_splits)
next
  case (Suc n)
  then obtain m' where m: "m = Suc m'" "n \<le> m'" by (cases m) auto
  show ?case
    using Suc.prems(1) Suc.IH [OF _ m(2)]
    by (subst (asm) resolve_all.simps, subst resolve_all.simps) (auto simp: m split: if_splits outcome.splits)
qed

section \<open>Imported modules\<close>

text \<open>Resolving a module adds only modules it imports.\<close>

definition imported :: "nat \<Rightarrow> Builder \<Rightarrow> bool" where
  "imported k b = (\<forall>j. 0 < j \<and> j < length (b_modules b) \<longrightarrow>
     (\<exists>i<j. i < k \<and> (\<exists>e\<in>set (edge_list (b_edges b) (module_id i)). target e = module_id j)))"

lemma resolve_import_adds:
  assumes "resolve_import h i dir raw (b, res) = Ok (b', res')"
    and "\<forall>j. n \<le> j \<and> j < length (b_modules b) \<longrightarrow> module_id j \<in> target ` set res"
  shows "\<forall>j. n \<le> j \<and> j < length (b_modules b') \<longrightarrow> module_id j \<in> target ` set res'"
proof -
  obtain idx path span where raw: "raw = (idx, path, span)" by (cases raw)
  with assms(1) obtain canonical tgt where parse: "parse_module h canonical b = Ok (tgt, b')"
    and res': "res' = res @ [\<lparr>def_index = idx, target = tgt, imp_span = span\<rparr>]"
    by (auto simp: resolve_import_def outcome_simps Let_def split: if_splits prod.splits)
  from parse show ?thesis
    by (cases rule: parse_module_cases) (use assms(2) res' in \<open>auto simp: less_Suc_eq\<close>)
qed

lemma resolve_imports_imported:
  assumes inv: "builder_inv h k b" and k: "k < length (b_modules b)"
    and res: "resolve_imports h (module_id k) b = Ok b'" and len: "length (b_modules b') \<le> 2 ^ 32"
    and imp: "imported k b"
  shows "imported (k + 1) b'"
  unfolding imported_def
proof (intro allI impI)
  fix j assume j: "0 < j \<and> j < length (b_modules b')"
  let ?m = "b_modules b ! k"
  note ext = resolve_imports_extends [OF res]
  from k len extends_length [OF ext] have id: "mod_index (module_id k) = k" by (intro mod_index_module_id [of _ "2 ^ 32"]) simp_all
  from res obtain c rs where run: "fold_out (resolve_import h (module_id k) (importer_dir ?m)) (raw_imports ?m) (b, []) = Ok (c, rs)"
    and ms: "b_modules b' = b_modules c"
    and es: "b_edges b' = (if rs \<noteq> [] then (b_edges c)(raw_id (module_id k) \<mapsto> rs) else b_edges c)"
    by (rule resolve_imports_run) (simp add: id)
  from resolve_import_fold [OF run resolving_refl] inv have c: "b_edges c = b_edges b"
    by (simp add: builder_inv_def resolving_def)
  have "\<forall>j. length (b_modules b) \<le> j \<and> j < length (b_modules (fst (c, rs))) \<longrightarrow> module_id j \<in> target ` set (snd (c, rs))"
    by (rule fold_out_invariant [OF run, where I = "\<lambda>(c, rs). \<forall>j. length (b_modules b) \<le> j \<and> j < length (b_modules c)
          \<longrightarrow> module_id j \<in> target ` set rs", unfolded case_prod_beta])
      (use resolve_import_adds in \<open>force, metis prod.collapse\<close>)
  then have new: "length (b_modules b) \<le> j \<Longrightarrow> module_id j \<in> target ` set rs" using j ms by simp
  have none: "b_edges b (raw_id (module_id k)) = None" using inv id by (simp add: builder_inv_def)
  show "\<exists>i<j. i < k + 1 \<and> (\<exists>e\<in>set (edge_list (b_edges b') (module_id i)). target e = module_id j)"
  proof (cases "j < length (b_modules b)")
    case True
    with j imp obtain i where i: "i < j" "i < k" "\<exists>e\<in>set (edge_list (b_edges b) (module_id i)). target e = module_id j"
      unfolding imported_def by blast
    from i(3) none have "module_id i \<noteq> module_id k" by (auto simp: edge_list_def)
    then have "edge_list (b_edges b') (module_id i) = edge_list (b_edges b) (module_id i)"
      by (cases "module_id i"; cases "module_id k") (simp add: es c edge_list_def)
    with i show ?thesis by (intro exI [of _ i]) simp
  next
    case False
    with new have "\<exists>e\<in>set rs. target e = module_id j" by auto
    moreover from none have "edge_list (b_edges b') (module_id k) = rs" by (simp add: es c edge_list_def)
    ultimately show ?thesis using k False by (intro exI [of _ k]) auto
  qed
qed

lemma resolve_all_imported:
  "resolve_all n h k b = Some (Ok b') \<Longrightarrow> builder_inv h k b \<Longrightarrow> length (b_modules b') \<le> 2 ^ 32 \<Longrightarrow> imported k b \<Longrightarrow>
    imported (length (b_modules b')) b'"
proof (induction n h k b rule: resolve_all.induct)
  case (1 n h k b)
  show ?case
  proof (cases "k < length (b_modules b)")
    case True
    with "1.prems"(1) obtain n' c where n: "n = Suc n'" "resolve_imports h (module_id k) b = Ok c"
      and rest: "resolve_all n' h (k + 1) c = Some (Ok b')"
      by (subst (asm) resolve_all.simps) (auto split: nat.splits outcome.splits)
    from extends_length [OF resolve_all_extends [OF rest]] "1.prems"(3) have len: "length (b_modules c) \<le> 2 ^ 32" by simp
    from "1.IH" [OF True n rest resolve_imports_inv [OF "1.prems"(2) True n(2) len] "1.prems"(3)
        resolve_imports_imported [OF "1.prems"(2) True n(2) len "1.prems"(4)]] show ?thesis .
  next
    case False
    with "1.prems"(1) have "b' = b" by (subst (asm) resolve_all.simps) simp
    with False "1.prems"(2,4) show ?thesis by (simp add: builder_inv_def order.antisym)
  qed
qed

lemma imported_reachable:
  assumes "imported k b" "j < length (b_modules b)"
  shows "(module_id 0, module_id j) \<in> (import_rel (b_edges b))\<^sup>*"
  using assms(2)
proof (induction j rule: less_induct)
  case (less j)
  show ?case
  proof (cases "j = 0")
    case False
    with assms(1) less.prems obtain i e where i: "i < j" "e \<in> set (edge_list (b_edges b) (module_id i))" "target e = module_id j"
      unfolding imported_def by blast
    then have "(module_id i, module_id j) \<in> import_rel (b_edges b)"
      unfolding import_rel_def by (metis (mono_tags, lifting) mem_Collect_eq)
    with less.IH [OF i(1)] i(1) less.prems show ?thesis by (auto intro: rtrancl_into_rtrancl)
  qed simp
qed

end
