(* ===== verification/Module_Properties.thy ===== *)
theory Module_Properties
  imports Module_Load
begin

text \<open>
  The properties of the module graph: reachability, order, cycles, accepted graphs and the end of loading.
\<close>

section \<open>Reachable modules\<close>

definition seen_set :: "bool list \<Rightarrow> ModuleId set" where
  "seen_set vis = {v \<in> nodes (length vis). vis ! mod_index v}"

definition reach_inv :: "nat \<Rightarrow> edges \<Rightarrow> ModuleId \<Rightarrow> reach_state \<Rightarrow> bool" where
  "reach_inv n es start = (\<lambda>(vis, ord, st). length vis = n
     \<and> distinct ord \<and> set ord = seen_set vis
     \<and> set st \<subseteq> nodes n
     \<and> start \<in> set ord \<union> set st
     \<and> set ord \<union> set st \<subseteq> (import_rel es)\<^sup>* `` {start}
     \<and> import_rel es `` set ord \<subseteq> set ord \<union> set st)"

lemma reach_invD:
  assumes "reach_inv n es start (vis, ord, st)"
  shows "length vis = n" "distinct ord" "set ord = seen_set vis" "set st \<subseteq> nodes n" "start \<in> set ord \<union> set st"
    "set ord \<union> set st \<subseteq> (import_rel es)\<^sup>* `` {start}" "import_rel es `` set ord \<subseteq> set ord \<union> set st"
  using assms unfolding reach_inv_def prod.case by blast+

lemma push_unvisited_fold:
  assumes "\<forall>e\<in>set edges. mod_index (target e) < length vis"
  shows "fold_out (push_unvisited vis) edges st
    = Ok (rev (filter (\<lambda>v. \<not> vis ! mod_index v) (map target edges)) @ st)"
  using assms by (induction edges arbitrary: st) (simp_all add: push_unvisited_def at_def)

lemma reach_step_inv:
  assumes ok: "graph_ok ms es" and inv: "reach_inv (length ms) es start (vis, ord, v # st)"
  shows "\<exists>s. reach_step es v (vis, ord, st) = Ok s \<and> reach_inv (length ms) es start s"
proof -
  let ?n = "length ms" and ?w = "vis[mod_index v := True]"
  note D = reach_invD [OF inv]
  have len: "length vis = ?n" and v: "mod_index v < ?n"
    and I: "distinct ord" "set ord = seen_set vis" "set st \<subseteq> nodes ?n" "start \<in> insert v (set ord \<union> set st)"
      "v \<in> (import_rel es)\<^sup>* `` {start}" "set ord \<union> set st \<subseteq> (import_rel es)\<^sup>* `` {start}"
      "import_rel es `` set ord \<subseteq> insert v (set ord \<union> set st)"
    using D(1) D(2) D(3) D(4) D(5) D(6) D(7) by (simp_all add: nodes_def)
  show ?thesis
  proof (cases "vis ! mod_index v")
    case True
    then have "v \<in> set ord" using I(2) v len by (simp add: seen_set_def nodes_def)
    with I(4,7) have "start \<in> set ord \<union> set st" "import_rel es `` set ord \<subseteq> set ord \<union> set st"
      by (auto simp: insert_absorb)
    with I(1,2,3,6) True v len show ?thesis
      by (simp add: reach_step_def at_def reach_inv_def)
  next
    case False
    from ok have tgt: "\<forall>e\<in>set (edge_list es v). mod_index (target e) < length ?w" by (simp add: graph_ok_def len)
    have seen: "seen_set ?w = insert v (seen_set vis)"
      using v len by (auto simp: seen_set_def nodes_def nth_list_update)
    have "v \<notin> set ord" using False I(2) by (simp add: seen_set_def)
    moreover have succ: "import_rel es `` {v} = target ` set (edge_list es v)" by (auto simp: import_rel_def)
    moreover have "target ` set (edge_list es v) \<subseteq> (import_rel es)\<^sup>* `` {start}"
      unfolding succ [symmetric] using I(5) by (auto intro: rtrancl_into_rtrancl)
    moreover have "target ` set (edge_list es v) \<subseteq>
        seen_set ?w \<union> {u \<in> target ` set (edge_list es v). \<not> ?w ! mod_index u}"
      using tgt by (auto simp: seen_set_def nodes_def)
    ultimately have "reach_inv ?n es start (?w, ord @ [v],
        rev (filter (\<lambda>u. \<not> ?w ! mod_index u) (map target (edge_list es v))) @ st)"
      unfolding reach_inv_def using I len tgt seen by (auto simp: nodes_def)
    with False v len show ?thesis
      by (simp add: reach_step_def at_def put_def push_unvisited_fold [OF tgt])
  qed
qed

lemma reach_loop_inv:
  "graph_ok ms es \<Longrightarrow> reach_inv (length ms) es start s \<Longrightarrow>
    \<exists>r. reach_loop es s = Ok r \<and> distinct r \<and> set r = (import_rel es)\<^sup>* `` {start}"
proof (induction es s rule: reach_loop.induct)
  case (1 es vis ord)
  then have I: "distinct ord" "start \<in> set ord" "set ord \<subseteq> (import_rel es)\<^sup>* `` {start}"
    "import_rel es `` set ord \<subseteq> set ord" by (auto simp: reach_inv_def)
  have "(import_rel es)\<^sup>* `` {start} \<subseteq> set ord"
  proof clarify
    fix w assume "(start, w) \<in> (import_rel es)\<^sup>*"
    then show "w \<in> set ord" using I(2,4) by (induction rule: rtrancl_induct) auto
  qed
  with I show ?case by auto
next
  case (2 es vis ord i st)
  from reach_step_inv [OF "2.prems"] obtain s where
    s: "reach_step es i (vis, ord, st) = Ok s" "reach_inv (length ms) es start s" by blast
  from "2.IH" [OF s(1) "2.prems"(1) s(2)] s(1) show ?case by simp
qed

lemma reach_all:
  assumes "graph_ok ms es" "start \<in> nodes (length ms)"
  shows "reach_inv (length ms) es start (replicate (length ms) False, [], [start])"
  using assms(2) by (auto simp: reach_inv_def seen_set_def nodes_def)

section \<open>Accepted graphs\<close>

definition well_formed :: "ModuleGraph \<Rightarrow> bool" where
  "well_formed g = graph_ok (modules g) (g_edges g)"

lemma validated:
  assumes "set (key_order (b_edges b)) = dom (b_edges b)" "validate_cross_contract (key_order (b_edges b)) b allow = Ok u"
    and "e \<in> set (edge_list (b_edges b) i)"
  shows "Some (target e) = allow \<or> \<not> declares_contract (b_modules b ! mod_index (target e))"
proof -
  from assms(3) have "raw_id i \<in> dom (b_edges b)"
    by (cases "b_edges b (raw_id i)") (simp_all add: edge_list_def domIff)
  with assms(1) have "raw_id i \<in> set (key_order (b_edges b))" by simp
  with assms(2) have "each (check_edge (b_modules b) allow (ModuleId (raw_id i))) (edge_list (b_edges b) (ModuleId (raw_id i))) = Ok ()"
    by (simp add: validate_cross_contract_def each_Ok)
  moreover have "ModuleId (raw_id i) = i" by (cases i) simp
  ultimately have "check_edge (b_modules b) allow i e = Ok ()" using assms(3) by (simp add: each_Ok)
  then show ?thesis by (auto simp: check_edge_def outcome_simps split: if_splits)
qed

lemma finish_load_Ok:
  assumes "finish_load key_order allow entries b = Ok g"
  shows "modules g = b_modules b" "g_edges g = b_edges b" "contract_entries g = entries (b_modules b)"
    "parse_failures b = []" "topo_order (b_modules b) (b_edges b) (entries (b_modules b)) = Ok (topo g)"
    "validate_cross_contract (key_order (b_edges b)) b allow = Ok ()"
  using assms by (auto simp: finish_load_def outcome_simps split: if_splits)

lemma Builder_new_inv: "builder_inv h 0 (Builder_new fs)"
  by (simp add: builder_inv_def numbered_def Builder_new_def)

lemma parse_module_inv0:
  assumes "builder_inv h 0 b" "parse_module h p b = Ok (i, b')" "length (b_modules b') \<le> 2 ^ 32"
  shows "builder_inv h 0 b'"
  using assms parse_module_numbered [OF _ assms(2,3)] parse_module_edges [OF assms(2)] by (simp add: builder_inv_def)

lemma load_from_entry_Ok:
  assumes "load_from_entry n key_order h entry fs = Some (Ok g)"
  obtains b c entry_path entry_id where "canonicalize h entry = Ok entry_path"
    "parse_module h entry_path (Builder_new fs) = Ok (entry_id, b)" "entry_id = module_id 0" "length (b_modules b) = 1"
    "resolve_all n h 0 b = Some (Ok c)" "finish_load key_order (Some entry_id) (\<lambda>ms. [entry_id]) c = Ok g"
proof -
  from assms obtain entry_path entry_id b r where
    b: "canonicalize h entry = Ok entry_path" "parse_module h entry_path (Builder_new fs) = Ok (entry_id, b)"
    and r: "resolve_all n h 0 b = Some r" "andthen r (finish_load key_order (Some entry_id) (\<lambda>ms. [entry_id])) = Ok g"
    by (auto simp: load_from_entry_def outcome_simps split: outcome.splits)
  from r(2) obtain c where "r = Ok c" "finish_load key_order (Some entry_id) (\<lambda>ms. [entry_id]) c = Ok g"
    by (auto simp: outcome_simps)
  moreover have "entry_id = module_id 0" "length (b_modules b) = 1"
    using b(2) by (cases rule: parse_module_cases; simp add: Builder_new_def)+
  ultimately show ?thesis using b r(1) that by blast
qed

lemma seed_files_extends: "fold_out (seed_file h) ps b = Ok b' \<Longrightarrow> extends b b'"
  by (erule fold_out_invariant [where I = "extends b"])
    (auto simp: seed_file_def outcome_simps dest: parse_module_extends intro: grown_trans)

lemma seed_files_inv:
  "fold_out (seed_file h) ps b = Ok b' \<Longrightarrow> builder_inv h 0 b \<Longrightarrow> length (b_modules b') \<le> 2 ^ 32 \<Longrightarrow> builder_inv h 0 b'"
proof (induction ps arbitrary: b)
  case (Cons p ps)
  then obtain c where "seed_file h p b = Ok c" and rest: "fold_out (seed_file h) ps c = Ok b'"
    by (auto simp: outcome_simps)
  then obtain i q where c: "parse_module h q b = Ok (i, c)" "fold_out (seed_file h) ps c = Ok b'"
    by (auto simp: seed_file_def outcome_simps)
  with Cons.prems(3) extends_length [OF seed_files_extends [OF c(2)]] have "length (b_modules c) \<le> 2 ^ 32" by simp
  from Cons.IH [OF c(2) parse_module_inv0 [OF Cons.prems(2) c(1) this] Cons.prems(3)] show ?case .
qed simp

lemma load_workspace_Ok:
  assumes "load_workspace d n key_order h dir fs = Some (Ok g)"
  obtains ps b c where "collect_star_files d h dir = Ok ps" "fold_out (seed_file h) ps (Builder_new fs) = Ok b"
    "resolve_all n h 0 b = Some (Ok c)" "finish_load key_order None contract_modules c = Ok g"
proof (cases "collect_star_files d h dir")
  case (Ok ps)
  then show ?thesis
    using assms that by (cases "fold_out (seed_file h) ps (Builder_new fs)")
      (auto simp: load_workspace_def outcome_simps)
qed (use assms in \<open>simp_all add: load_workspace_def\<close>)

section \<open>Loading either way\<close>

definition accepted :: "(edges \<Rightarrow> u32 list) \<Rightarrow> Host \<Rightarrow> ModuleGraph \<Rightarrow> bool" where
  "accepted key_order h g =
     ((\<exists>n entry fs. load_from_entry n key_order h entry fs = Some (Ok g))
      \<or> (\<exists>d n dir fs. load_workspace d n key_order h dir fs = Some (Ok g)))"

definition built :: "(edges \<Rightarrow> u32 list) \<Rightarrow> Host \<Rightarrow> ModuleGraph \<Rightarrow> Builder \<Rightarrow> ModuleId option \<Rightarrow> (Module list \<Rightarrow> ModuleId list) \<Rightarrow> bool" where
  "built key_order h g b allow entries = (finish_load key_order allow entries b = Ok g
     \<and> builder_inv h (length (b_modules b)) b
     \<and> set (entries (b_modules b)) \<subseteq> nodes (length (b_modules b))
     \<and> (allow \<noteq> None \<longrightarrow> allow = Some (module_id 0) \<and> imported (length (b_modules b)) b))"

lemma entry_built:
  assumes "load_from_entry n key_order h entry fs = Some (Ok g)" "length (modules g) \<le> 2 ^ 32"
  shows "\<exists>c. built key_order h g c (Some (module_id 0)) (\<lambda>ms. [module_id 0]) \<and> b_modules c \<noteq> []"
proof -
  from load_from_entry_Ok [OF assms(1)] obtain b c entry_path where
    b: "parse_module h entry_path (Builder_new fs) = Ok (module_id 0, b)" "length (b_modules b) = 1"
    and all: "resolve_all n h 0 b = Some (Ok c)"
    and fin: "finish_load key_order (Some (module_id 0)) (\<lambda>ms. [module_id 0]) c = Ok g" by metis
  from finish_load_Ok(1) [OF fin] assms(2) have len: "length (b_modules c) \<le> 2 ^ 32" by simp
  have b0: "builder_inv h 0 b" by (rule parse_module_inv0 [OF Builder_new_inv b(1)]) (simp add: b(2))
  have c: "builder_inv h (length (b_modules c)) c" by (rule resolve_all_inv [OF all b0 len])
  have imp: "imported (length (b_modules c)) c"
    by (rule resolve_all_imported [OF all b0 len]) (auto simp: imported_def b(2))
  have ne: "b_modules c \<noteq> []" using extends_length [OF resolve_all_extends [OF all]] b(2) by auto
  then have "set [module_id 0] \<subseteq> nodes (length (b_modules c))" by (simp add: nodes_def module_id_def)
  with fin c imp ne show ?thesis unfolding built_def by blast
qed

lemma contract_modules_nodes:
  assumes "builder_inv h k b" "length (b_modules b) \<le> 2 ^ 32"
  shows "set (contract_modules (b_modules b)) \<subseteq> nodes (length (b_modules b))"
proof
  fix v assume "v \<in> set (contract_modules (b_modules b))"
  then obtain i where "i < length (b_modules b)" "v = mod_id (b_modules b ! i)"
    by (auto simp: contract_modules_def in_set_conv_nth)
  with assms show "v \<in> nodes (length (b_modules b))"
    by (auto simp: builder_inv_def numbered_def nodes_def mod_index_module_id [of i "2 ^ 32"])
qed

lemma workspace_built:
  assumes "load_workspace d n key_order h dir fs = Some (Ok g)" "length (modules g) \<le> 2 ^ 32"
  shows "\<exists>c. built key_order h g c None contract_modules"
proof -
  from load_workspace_Ok [OF assms(1)] obtain ps b c where
    b: "fold_out (seed_file h) ps (Builder_new fs) = Ok b" and all: "resolve_all n h 0 b = Some (Ok c)"
    and fin: "finish_load key_order None contract_modules c = Ok g" by metis
  from finish_load_Ok(1) [OF fin] assms(2) have len: "length (b_modules c) \<le> 2 ^ 32" by simp
  with extends_length [OF resolve_all_extends [OF all]] have "length (b_modules b) \<le> 2 ^ 32" by simp
  from resolve_all_inv [OF all seed_files_inv [OF b Builder_new_inv this] len]
  have "builder_inv h (length (b_modules c)) c" .
  with fin contract_modules_nodes [OF this len] show ?thesis unfolding built_def by blast
qed

lemma accepted_built:
  "accepted key_order h g \<Longrightarrow> length (modules g) \<le> 2 ^ 32 \<Longrightarrow> \<exists>c allow entries. built key_order h g c allow entries"
  unfolding accepted_def using entry_built workspace_built by blast

lemma built_graph_ok:
  assumes "built key_order h g b allow entries" "length (modules g) \<le> 2 ^ 32"
  shows "graph_ok (modules g) (g_edges g)"
  using assms builder_inv_graph_ok [of h b] finish_load_Ok(1,2) [of key_order allow entries b g] by (simp add: built_def)

lemma built_order:
  assumes "built key_order h g b allow entries" "length (modules g) \<le> 2 ^ 32"
  shows "good_order (g_edges g) (topo g)" "set (topo g) = nodes (length (modules g))"
proof -
  from assms(1) have fin: "finish_load key_order allow entries b = Ok g"
    and seeds: "set (entries (b_modules b)) \<subseteq> nodes (length (b_modules b))" by (simp_all add: built_def)
  note F = finish_load_Ok [OF fin]
  from built_graph_ok [OF assms] have "graph_ok (b_modules b) (b_edges b)" by (simp add: F(1,2))
  from topo_order_searched [OF this seeds] show "good_order (g_edges g) (topo g)" "set (topo g) = nodes (length (modules g))"
    by (simp_all add: F(1,2,5))
qed

lemma graph_ok_rel: "graph_ok ms es \<Longrightarrow> (v, w) \<in> import_rel es \<Longrightarrow> v \<in> nodes (length ms) \<and> w \<in> nodes (length ms)"
  by (cases "edge_list es v = []") (auto simp: graph_ok_def import_rel_def nodes_def)

lemma built_acyclic:
  assumes "built key_order h g b allow entries" "length (modules g) \<le> 2 ^ 32"
  shows "acyclic (import_rel (g_edges g))"
  using good_order_acyclic [OF built_order(1) [OF assms]] built_order(2) [OF assms]
    graph_ok_rel [OF built_graph_ok [OF assms]] by blast

lemma built_no_contract:
  assumes b: "built key_order h g b allow entries" and len: "length (modules g) \<le> 2 ^ 32"
    and keys: "set (key_order (g_edges g)) = dom (g_edges g)" and e: "e \<in> set (edges_of g i)"
  shows "\<not> declares_contract (modules g ! mod_index (target e))"
proof -
  from b have fin: "finish_load key_order allow entries b = Ok g" by (simp add: built_def)
  note F = finish_load_Ok [OF fin]
  from e have e': "e \<in> set (edge_list (b_edges b) i)" by (simp add: edges_of_def F(2))
  have "Some (target e) \<noteq> allow"
  proof
    assume allow: "Some (target e) = allow"
    with b have tgt: "target e = module_id 0" and imp: "imported (length (b_modules b)) b" by (auto simp: built_def)
    have rel: "(i, target e) \<in> import_rel (b_edges b)" using e' by (auto simp: import_rel_def)
    with graph_ok_rel [OF built_graph_ok [OF b len]] have i: "mod_index i < length (b_modules b)" by (auto simp: F(1,2) nodes_def)
    then have "module_id (mod_index i) = i"
      using mod_index_module_id [OF i] len by (simp add: F(1) flip: mod_index_inject)
    with imported_reachable [OF imp i] have "(module_id 0, i) \<in> (import_rel (b_edges b))\<^sup>*" by simp
    with rel tgt have "(i, i) \<in> (import_rel (b_edges b))\<^sup>+" by (metis rtrancl_into_trancl2)
    with built_acyclic [OF b len] show False by (simp add: acyclic_def F(2))
  qed
  with validated [where key_order = key_order, OF keys [unfolded F(2)] F(6) e'] show ?thesis by (simp add: F(1))
qed

section \<open>Panics\<close>

definition host_ok :: "Host \<Rightarrow> bool" where
  "host_ok h = (\<forall>p. canonicalize h p \<noteq> Panic \<and> read_file h p \<noteq> Panic)"

lemma parse_module_no_panic: "host_ok h \<Longrightarrow> parse_module h p b \<noteq> Panic"
  by (auto simp: parse_module_def host_ok_def read_to_string_def outcome_simps Let_def split: option.splits prod.splits)

lemma resolve_imports_no_panic:
  assumes "host_ok h" "mod_index i < length (b_modules b)"
  shows "resolve_imports h i b \<noteq> Panic"
proof -
  have "resolve_import h i dir raw s \<noteq> Panic" for dir raw s
    using assms(1) parse_module_no_panic [OF assms(1)]
    by (cases raw; cases s) (auto simp: resolve_import_def outcome_simps Let_def host_ok_def)
  then have "fold_out (resolve_import h i dir) raws s \<noteq> Panic" for dir raws s
    by (intro fold_out_no_panic [where I = "\<lambda>_ _. True"]) simp_all
  with assms(2) show ?thesis by (auto simp: resolve_imports_def outcome_simps)
qed

lemma resolve_all_no_panic:
  assumes "host_ok h" "finite P" "card P \<le> 2 ^ 32" "\<And>p q. canonicalize h p = Ok q \<Longrightarrow> q \<in> P"
  shows "paths_inv P b \<Longrightarrow> resolve_all n h k b \<noteq> Some Panic"
proof (induction n arbitrary: k b)
  case (Suc n)
  show ?case
  proof (cases "k < length (b_modules b)")
    case True
    with paths_inv_length [OF Suc.prems assms(2)] assms(3) have "mod_index (module_id k) < length (b_modules b)"
      by (simp add: mod_index_module_id [of k "2 ^ 32"])
    from resolve_imports_no_panic [OF assms(1) this] True show ?thesis
      using Suc.IH [OF resolve_imports_paths [OF assms(4) Suc.prems]]
      by (subst resolve_all.simps) (auto split: outcome.splits)
  qed (subst resolve_all.simps, simp)
qed (subst resolve_all.simps, simp)

lemma finish_load_no_panic:
  assumes inv: "builder_inv h (length (b_modules b)) b" and len: "length (b_modules b) \<le> 2 ^ 32"
    and seeds: "set (entries (b_modules b)) \<subseteq> nodes (length (b_modules b))"
  shows "finish_load key_order allow entries b \<noteq> Panic"
proof -
  let ?ms = "b_modules b" and ?es = "b_edges b"
  note ok = builder_inv_graph_ok [OF inv len]
  have edge: "check_edge ?ms allow i e \<noteq> Panic" if e: "e \<in> set (edge_list ?es i)" for i e
  proof -
    from e have "(i, target e) \<in> import_rel ?es" by (auto simp: import_rel_def)
    with graph_ok_rel [OF ok] have "mod_index i < length ?ms" "mod_index (target e) < length ?ms" by (auto simp: nodes_def)
    then show ?thesis by (simp add: check_edge_def at_def)
  qed
  have "each (check_edge ?ms allow i) (edge_list ?es i) \<noteq> Panic" for i
    using each_Panic edge by blast
  then have "validate_cross_contract (key_order ?es) b allow \<noteq> Panic"
    unfolding validate_cross_contract_def using each_Panic by fastforce
  moreover from topo_order_searched [OF ok seeds] have "topo_order ?ms ?es (entries ?ms) \<noteq> Panic" by auto
  ultimately show ?thesis by (auto simp: finish_load_def outcome_simps)
qed

text \<open>The paths of existing files.\<close>

definition canonical_paths :: "Host \<Rightarrow> Path set" where
  "canonical_paths h = {q. \<exists>p. canonicalize h p = Ok q}"

lemma entry_paths:
  assumes "canonicalize h entry = Ok p" "parse_module h p (Builder_new fs) = Ok (i, b)"
  shows "paths_inv (canonical_paths h) b"
  using assms by (intro parse_module_paths [OF assms(2)]) (auto simp: canonical_paths_def paths_inv_def Builder_new_def)

lemma seed_files_paths:
  "fold_out (seed_file h) ps (Builder_new fs) = Ok b \<Longrightarrow> paths_inv (canonical_paths h) b"
proof (erule fold_out_invariant [where I = "paths_inv (canonical_paths h)"])
  fix x s s' assume "paths_inv (canonical_paths h) s" "seed_file h x s = Ok s'"
  then show "paths_inv (canonical_paths h) s'"
    by (auto simp: seed_file_def outcome_simps canonical_paths_def intro: parse_module_paths)
qed (simp add: paths_inv_def Builder_new_def)

lemma resolve_all_paths:
  assumes "\<And>p q. canonicalize h p = Ok q \<Longrightarrow> q \<in> P"
  shows "paths_inv P b \<Longrightarrow> resolve_all n h k b = Some (Ok c) \<Longrightarrow> paths_inv P c"
proof (induction n arbitrary: k b)
  case 0
  then show ?case by (subst (asm) resolve_all.simps) (auto split: if_splits)
next
  case (Suc n)
  from Suc.prems(2) show ?case
    using Suc.prems(1)
    by (subst (asm) resolve_all.simps)
      (auto split: if_splits outcome.splits intro: Suc.IH [OF resolve_imports_paths [OF assms Suc.prems(1)]])
qed

lemma resolve_all_settles:
  assumes "finite (canonical_paths h)" "paths_inv (canonical_paths h) b"
  shows "\<exists>r. \<forall>n\<ge>card (canonical_paths h). resolve_all n h 0 b = Some r"
proof -
  have "resolve_all (card (canonical_paths h)) h 0 b \<noteq> None"
    by (rule resolve_all_ends [OF assms(1) _ assms(2)]) (auto simp: canonical_paths_def)
  then show ?thesis using resolve_all_mono by blast
qed

section \<open>Claims\<close>

text \<open>
C11: a graph that loading accepts holds each file once: the modules have distinct canonical paths and are numbered
by position, each is the error-free parse of its file, and its edges are exactly its path imports, in their
order, each a relative path to a .star file that canonicalises to the path of its target.
\<close>

theorem accepted_modules:
  assumes "accepted key_order h g" "length (modules g) \<le> 2 ^ 32"
  shows "distinct (map abs_path (modules g)) \<and>
    (\<forall>i<length (modules g). mod_id (modules g ! i) = module_id i
      \<and> loaded h (modules g ! i) \<and> snd (parse_program h (mod_source (modules g ! i))) = []
      \<and> resolved_module h (modules g) (g_edges g) i)"
proof -
  from accepted_built [OF assms] obtain c allow entries where c: "built key_order h g c allow entries" by blast
  then have fin: "finish_load key_order allow entries c = Ok g" and inv: "builder_inv h (length (b_modules c)) c"
    by (simp_all add: built_def)
  note F = finish_load_Ok [OF fin]
  from inv have num: "numbered h c" and all: "\<forall>i<length (b_modules c). resolved_module h (b_modules c) (b_edges c) i"
    by (simp_all add: builder_inv_def)
  have mods: "loaded h m" "snd (parse_program h (mod_source m)) = []" if "m \<in> set (b_modules c)" for m
    using num F(4) that by (simp_all only: numbered_def simp_thms)
  have ids: "mod_id (b_modules c ! i) = module_id i" if "i < length (b_modules c)" for i
    using num that by (simp only: numbered_def)
  from builder_inv_distinct [OF num] assms(2) have "distinct (map abs_path (b_modules c))" by (simp only: F(1))
  then show ?thesis unfolding F(1,2) using all mods ids nth_mem by auto
qed

text \<open>
C10: the topological order of an accepted graph lists every module exactly once and after all the modules it
imports.
\<close>

theorem accepted_order:
  assumes "accepted key_order h g" "length (modules g) \<le> 2 ^ 32"
  shows "distinct (topo g) \<and> set (topo g) = set (map mod_id (modules g))
    \<and> (\<forall>i<length (topo g). \<forall>e\<in>set (edges_of g (topo g ! i)). target e \<in> set (take i (topo g)))"
proof -
  from accepted_built [OF assms] obtain c allow entries where c: "built key_order h g c allow entries" by blast
  from built_graph_ok [OF c assms(2)] have "map mod_id (modules g) = map module_id [0..<length (modules g)]"
    by (intro nth_equalityI) (simp_all add: graph_ok_def)
  then have "set (topo g) = set (map mod_id (modules g))"
    by (simp only: set_map set_upt built_order(2) [OF c assms(2)] nodes_module_id [OF assms(2)])
  with built_order(1) [OF c assms(2)] show ?thesis unfolding good_order_def edges_of_def by blast
qed

text \<open>
C12: no module of an accepted graph imports one that declares itself a contract, the entry file of a single-file
load included, although the check exempts the entry: importing it would close a cycle.
\<close>

theorem accepted_no_contract_import:
  assumes "accepted key_order h g" "length (modules g) \<le> 2 ^ 32" "set (key_order (g_edges g)) = dom (g_edges g)"
    "e \<in> set (edges_of g i)"
  shows "\<not> declares_contract (modules g ! mod_index (target e))"
  using accepted_built [OF assms(1,2)] built_no_contract [where key_order = key_order, OF _ assms(2,3,4)] by blast

text \<open>
C9: the topological sort of a well-formed graph never panics; on acyclic imports it returns an order of all
modules, dependencies first, and otherwise it reports a chain of imports that leads from a module back to itself.
\<close>

theorem topo_order_correct:
  assumes "graph_ok ms es" "set seeds \<subseteq> nodes (length ms)"
  shows "if acyclic (import_rel es)
    then (\<exists>ord. topo_order ms es seeds = Ok ord \<and> good_order es ord \<and> set ord = nodes (length ms))
    else (\<exists>chain. topo_order ms es seeds = Err (Cycle chain) \<and> import_cycle ms es chain)"
proof (cases "topo_order ms es seeds")
  case (Ok ord)
  with topo_order_searched [OF assms] have ord: "good_order es ord" "set ord = nodes (length ms)" by simp_all
  with good_order_acyclic [OF ord(1)] graph_ok_rel [OF assms(1)] have "acyclic (import_rel es)" by blast
  with ord Ok show ?thesis by simp
next
  case (Err e)
  with topo_order_searched [OF assms] obtain chain where chain: "e = Cycle chain" "import_cycle ms es chain" by auto
  with import_cycle_trancl have "\<not> acyclic (import_rel es)" by (fastforce simp: acyclic_def)
  with chain Err show ?thesis by simp
qed (use topo_order_searched [OF assms] in simp)

text \<open>
C15: from any module of an accepted graph, the walk over its imports returns, without a panic, each module that is
imported directly or transitively exactly once, the start included.
\<close>

theorem reachable_from_correct:
  assumes "accepted key_order h g" "length (modules g) \<le> 2 ^ 32" "mod_index start < length (modules g)"
  shows "\<exists>ord. reachable_from g start = Ok ord \<and> distinct ord \<and> set ord = (import_rel (g_edges g))\<^sup>* `` {start}"
proof -
  from accepted_built [OF assms(1,2)] obtain c allow entries where c: "built key_order h g c allow entries" by blast
  note ok = built_graph_ok [OF c assms(2)]
  from reach_loop_inv [OF ok reach_all [OF ok]] assms(3) show ?thesis by (simp add: reachable_from_def nodes_def)
qed

text \<open>
C14: loading ends whenever the file system has finitely many files, also when imports are cyclic: resolving as many
modules as there are canonical paths always gives the result, and more never changes it.
\<close>

theorem loading_ends:
  assumes "finite (canonical_paths h)"
  shows "(\<exists>r. \<forall>n\<ge>card (canonical_paths h). load_from_entry n key_order h entry fs = Some r)
    \<and> (\<exists>r. \<forall>n\<ge>card (canonical_paths h). load_workspace d n key_order h dir fs = Some r)"
proof
  show "\<exists>r. \<forall>n\<ge>card (canonical_paths h). load_from_entry n key_order h entry fs = Some r"
  proof (cases "andthen (map_err (EntryIo entry) (canonicalize h entry)) (\<lambda>canonical_entry.
      map_err (EntryIo entry) (parse_module h canonical_entry (Builder_new fs)))")
    case (Ok x)
    obtain i b where x: "x = (i, b)" by (cases x)
    with Ok obtain p where "canonicalize h entry = Ok p" "parse_module h p (Builder_new fs) = Ok (i, b)"
      by (auto simp: outcome_simps)
    from resolve_all_settles [OF assms entry_paths [OF this]] obtain r where
      "\<forall>n\<ge>card (canonical_paths h). resolve_all n h 0 b = Some r" ..
    with Ok x show ?thesis unfolding load_from_entry_def by (intro exI) auto
  qed (simp_all add: load_from_entry_def)
  show "\<exists>r. \<forall>n\<ge>card (canonical_paths h). load_workspace d n key_order h dir fs = Some r"
  proof (cases "andthen (lift (collect_star_files d h dir)) (\<lambda>star_files. fold_out (seed_file h) star_files (Builder_new fs))")
    case (Ok b)
    then obtain ps where "fold_out (seed_file h) ps (Builder_new fs) = Ok b" by (auto simp: outcome_simps)
    from resolve_all_settles [OF assms seed_files_paths [OF this]] obtain r where
      "\<forall>n\<ge>card (canonical_paths h). resolve_all n h 0 b = Some r" ..
    with Ok show ?thesis unfolding load_workspace_def by (intro exI) auto
  qed (simp_all add: load_workspace_def)
qed

text \<open>
C16: loading from an entry file never panics, provided the file system does not and holds at most 2^32 files: no
module id is out of range in any of the vectors it indexes, whatever the files contain.
\<close>

theorem load_from_entry_no_panic:
  assumes "host_ok h" "finite (canonical_paths h)" "card (canonical_paths h) \<le> 2 ^ 32"
  shows "load_from_entry n key_order h entry fs \<noteq> Some Panic"
proof (cases "andthen (map_err (EntryIo entry) (canonicalize h entry)) (\<lambda>canonical_entry.
      map_err (EntryIo entry) (parse_module h canonical_entry (Builder_new fs)))")
  case (Ok x)
  obtain i b where x: "x = (i, b)" by (cases x)
  with Ok obtain p where p: "canonicalize h entry = Ok p" "parse_module h p (Builder_new fs) = Ok (i, b)"
    by (auto simp: outcome_simps)
  note paths = entry_paths [OF p]
  have i: "i = module_id 0" "length (b_modules b) = 1"
    using p(2) by (cases rule: parse_module_cases; simp add: Builder_new_def)+
  have can: "\<And>p q. canonicalize h p = Ok q \<Longrightarrow> q \<in> canonical_paths h" by (auto simp: canonical_paths_def)
  show ?thesis
  proof (cases "resolve_all n h 0 b")
    case (Some r)
    show ?thesis
    proof (cases r)
      case R: (Ok c)
      have "length (b_modules c) \<le> 2 ^ 32"
        using resolve_all_paths [OF can paths, where n = n and k = 0 and c = c] Some R assms(2,3) paths_inv_length [of "canonical_paths h" c] by simp
      have b0: "builder_inv h 0 b" by (rule parse_module_inv0 [OF Builder_new_inv p(2)]) (simp add: i)
      from resolve_all_inv [OF Some [unfolded R] b0 \<open>length (b_modules c) \<le> 2 ^ 32\<close>]
      have "builder_inv h (length (b_modules c)) c" .
      have ne: "b_modules c \<noteq> []" using extends_length [OF resolve_all_extends [OF Some [unfolded R]]] i(2) by auto
      from finish_load_no_panic [OF \<open>builder_inv h (length (b_modules c)) c\<close> \<open>length (b_modules c) \<le> 2 ^ 32\<close>, where entries = "\<lambda>ms. [i]"] ne
      have "\<And>allow. finish_load key_order allow (\<lambda>ms. [i]) c \<noteq> Panic" by (simp add: nodes_def i(1) module_id_def)
      then have "finish_load key_order (Some i) (\<lambda>ms. [i]) c \<noteq> Panic" .
      with Ok x Some R show ?thesis by (simp add: load_from_entry_def)
    qed (use Ok x Some resolve_all_no_panic [OF assms(1-3) can paths] in \<open>auto simp: load_from_entry_def\<close>)
  qed (use Ok x in \<open>simp add: load_from_entry_def\<close>)
next
  case Panic
  with assms(1) parse_module_no_panic [OF assms(1)] show ?thesis by (auto simp: outcome_simps host_ok_def)
qed (simp add: load_from_entry_def)

section \<open>Witnesses\<close>

text \<open>A file that imports another, which has no imports. The content of a file is its path.\<close>

definition demo_host :: Host where
  "demo_host = \<lparr>
     canonicalize = (\<lambda>p. if p = ''/a.star'' then Ok ''/a.star'' else if p = ''/./b.star'' then Ok ''/b.star'' else Err ''not found''),
     read_file = Ok, read_dir = (\<lambda>_. None), is_dir = (\<lambda>_. False), is_file = (\<lambda>_. True),
     parse_program = (\<lambda>s. (Some \<lparr>shebang = None,
       definitions = (if s = ''/a.star'' then
         [Spanned (D_Import (ImportDef (II_Named []) (IS_Path (ImportPath ''./b.star'' DUMMY_SPAN)))) DUMMY_SPAN]
       else [])\<rparr>, []))\<rparr>"

definition demo_order :: "edges \<Rightarrow> u32 list" where
  "demo_order = (\<lambda>_. [0])"

definition demo_a :: Module where
  "demo_a = parsed_module demo_host (ModuleId 0) ''/a.star'' ''/a.star''"

definition demo_b :: Module where
  "demo_b = parsed_module demo_host (ModuleId 1) ''/b.star'' ''/b.star''"

definition demo_import :: PathImport where
  "demo_import = \<lparr>def_index = 0, target = ModuleId 1, imp_span = DUMMY_SPAN\<rparr>"

definition demo_edges :: edges where
  "demo_edges = [0 \<mapsto> [demo_import]]"

definition demo_graph :: ModuleGraph where
  "demo_graph = \<lparr>modules = [demo_a, demo_b], topo = [ModuleId 1, ModuleId 0], g_edges = demo_edges,
     contract_entries = [ModuleId 0]\<rparr>"

lemma demo_graph_sel [simp]: "modules demo_graph = [demo_a, demo_b]" "topo demo_graph = [ModuleId 1, ModuleId 0]"
  "g_edges demo_graph = demo_edges"
  by (simp_all add: demo_graph_def)

lemma demo_files [simp]:
  "canonicalize demo_host ''/a.star'' = Ok ''/a.star''"
  "canonicalize demo_host ''/./b.star'' = Ok ''/b.star''"
  "read_file demo_host p = Ok p"
  "snd (parse_program demo_host s) = []"
  by (simp_all add: demo_host_def)

lemma demo_modules [simp]:
  "raw_imports demo_a = [(0, ''./b.star'', DUMMY_SPAN)]" "raw_imports demo_b = []" "importer_dir demo_a = ''/''"
  "mod_id demo_a = ModuleId 0" "mod_id demo_b = ModuleId 1" "\<not> declares_contract demo_b"
  by (simp_all add: demo_a_def demo_b_def parsed_module_def demo_host_def raw_imports_def importer_dir_def path_parent_def
      List.map_filter_def declares_contract_def)

lemma demo_edge_list [simp]: "edge_list demo_edges (ModuleId 0) = [demo_import]" "edge_list demo_edges (ModuleId 1) = []"
  by (simp_all add: edge_list_def demo_edges_def)

lemma demo_target [simp]: "target demo_import = ModuleId 1"
  by (simp add: demo_import_def)

definition demo_builder1 :: Builder where
  "demo_builder1 = \<lparr>b_modules = [demo_a], b_edges = Map.empty, by_path = [''/a.star'' \<mapsto> ModuleId 0],
     parse_failures = [], b_fs = \<lparr>dependencies = [''/a.star''], outputs = []\<rparr>\<rparr>"

definition demo_builder2 :: "edges \<Rightarrow> Builder" where
  "demo_builder2 es = \<lparr>b_modules = [demo_a, demo_b], b_edges = es,
     by_path = [''/a.star'' \<mapsto> ModuleId 0, ''/b.star'' \<mapsto> ModuleId 1],
     parse_failures = [], b_fs = \<lparr>dependencies = [''/a.star'', ''/b.star''], outputs = []\<rparr>\<rparr>"

lemma demo_builder_modules [simp]: "b_modules demo_builder1 = [demo_a]" "b_modules (demo_builder2 es) = [demo_a, demo_b]"
  by (simp_all add: demo_builder1_def demo_builder2_def)

lemma demo_parse:
  "parse_module demo_host ''/a.star'' (Builder_new FileSystem_new) = Ok (ModuleId 0, demo_builder1)"
  "parse_module demo_host ''/b.star'' demo_builder1 = Ok (ModuleId 1, demo_builder2 Map.empty)"
  by (simp_all add: parse_module_def read_to_string_def Builder_new_def FileSystem_new_def demo_builder1_def demo_builder2_def
      demo_a_def demo_b_def parsed_module_def module_id_def Let_def case_prod_beta)

lemma demo_resolve:
  "resolve_imports demo_host (ModuleId 0) demo_builder1 = Ok (demo_builder2 demo_edges)"
  "resolve_imports demo_host (ModuleId 1) (demo_builder2 demo_edges) = Ok (demo_builder2 demo_edges)"
proof -
  have "resolve_import demo_host (ModuleId 0) ''/'' (0, ''./b.star'', DUMMY_SPAN) (demo_builder1, [])
      = Ok (demo_builder2 Map.empty, [demo_import])"
    using demo_parse(2)
    by (simp add: resolve_import_def is_relative_path_def starts_with_def ends_with_def path_join_def Let_def demo_import_def)
  then show "resolve_imports demo_host (ModuleId 0) demo_builder1 = Ok (demo_builder2 demo_edges)"
    by (simp add: resolve_imports_def at_def) (simp add: demo_builder2_def demo_edges_def)
  show "resolve_imports demo_host (ModuleId 1) (demo_builder2 demo_edges) = Ok (demo_builder2 demo_edges)"
    by (simp add: resolve_imports_def at_def)
qed

lemma demo_resolve_all: "resolve_all (Suc (Suc 0)) demo_host 0 demo_builder1 = Some (Ok (demo_builder2 demo_edges))"
  using demo_resolve by (simp add: resolve_all.simps module_id_def)

lemma demo_topo: "topo_order [demo_a, demo_b] demo_edges [ModuleId 0] = Ok [ModuleId 1, ModuleId 0]"
  by (simp add: topo_order_def visit_seed_def dfs_visit_def dfs_loop.simps dfs_step_def at_def put_def module_id_def
      Let_def upt_rec)

lemma demo_load: "load_from_entry (Suc (Suc 0)) demo_order demo_host ''/a.star'' FileSystem_new = Some (Ok demo_graph)"
proof -
  have "validate_cross_contract (demo_order demo_edges) (demo_builder2 demo_edges) (Some (ModuleId 0)) = Ok ()"
    by (simp add: validate_cross_contract_def demo_order_def check_edge_def at_def) (simp add: demo_builder2_def check_edge_def at_def)
  then have "finish_load demo_order (Some (ModuleId 0)) (\<lambda>ms. [ModuleId 0]) (demo_builder2 demo_edges) = Ok demo_graph"
    using demo_topo by (simp add: finish_load_def demo_builder2_def demo_graph_def)
  with demo_resolve_all show ?thesis by (simp add: load_from_entry_def demo_parse(1))
qed

lemma demo_accepted: "accepted demo_order demo_host demo_graph"
  using demo_load by (auto simp: accepted_def)

lemma all_nat_less_two: "(\<forall>i<Suc (Suc 0). P i) \<longleftrightarrow> P 0 \<and> P (Suc 0)"
  by (auto simp: less_Suc_eq)

theorem accepted_modules_witness: "distinct (map abs_path (modules demo_graph))"
  using accepted_modules [OF demo_accepted] by simp

theorem accepted_order_witness:
  "edges_of demo_graph (ModuleId 0) = [demo_import] \<and> target demo_import \<in> set (take 1 (topo demo_graph))"
  using accepted_order [OF demo_accepted]
  by (simp add: edges_of_def all_nat_less_two demo_edges_def edge_list_def)

theorem accepted_no_contract_import_witness: "\<not> declares_contract (modules demo_graph ! 1)"
  using accepted_no_contract_import [OF demo_accepted, of demo_import "ModuleId 0"]
  by (simp add: demo_order_def demo_edges_def edges_of_def edge_list_def)

text \<open>Two modules that import each other.\<close>

definition loop_edges :: edges where
  "loop_edges = demo_edges(1 \<mapsto> [\<lparr>def_index = 0, target = ModuleId 0, imp_span = DUMMY_SPAN\<rparr>])"

lemma loop_graph_ok: "graph_ok [demo_a, demo_b] loop_edges"
proof -
  have "edge_list loop_edges i \<noteq> [] \<Longrightarrow> mod_index i < Suc (Suc 0)"
    "\<forall>e\<in>set (edge_list loop_edges i). mod_index (target e) < Suc (Suc 0)" for i
    by (cases i; auto simp: edge_list_def loop_edges_def demo_edges_def demo_import_def split: if_splits)+
  then show ?thesis by (simp add: graph_ok_def module_id_def all_nat_less_two)
qed

theorem topo_order_correct_witness:
  "\<exists>chain. topo_order [demo_a, demo_b] loop_edges [] = Err (Cycle chain) \<and> import_cycle [demo_a, demo_b] loop_edges chain"
proof -
  have "(ModuleId 0, ModuleId 1) \<in> import_rel loop_edges" "(ModuleId 1, ModuleId 0) \<in> import_rel loop_edges"
    by (auto simp: import_rel_def loop_edges_def demo_edges_def edge_list_def)
  then have "(ModuleId 0, ModuleId 0) \<in> (import_rel loop_edges)\<^sup>+" by (rule trancl.intros(2) [OF r_into_trancl])
  then have "\<not> acyclic (import_rel loop_edges)" by (auto simp: acyclic_def)
  then show ?thesis using topo_order_correct [OF loop_graph_ok, of "[]"] by simp
qed

theorem reachable_from_correct_witness:
  "\<exists>ord. reachable_from demo_graph (ModuleId 0) = Ok ord \<and> distinct ord \<and> ModuleId 1 \<in> set ord"
proof -
  have "(ModuleId 0, ModuleId 1) \<in> import_rel (g_edges demo_graph)" by (auto simp: import_rel_def)
  with reachable_from_correct [OF demo_accepted, of "ModuleId 0"] show ?thesis by auto
qed

lemma demo_paths: "canonical_paths demo_host = {''/a.star'', ''/b.star''}"
proof
  have "canonicalize demo_host p = Ok q \<Longrightarrow> q = ''/a.star'' \<or> q = ''/b.star''" for p q
    by (simp add: demo_host_def split: if_split_asm)
  then show "canonical_paths demo_host \<subseteq> {''/a.star'', ''/b.star''}" unfolding canonical_paths_def by blast
  show "{''/a.star'', ''/b.star''} \<subseteq> canonical_paths demo_host"
    unfolding canonical_paths_def using demo_files(1,2) by blast
qed

theorem loading_ends_witness: 
  "\<exists>r. load_from_entry 2 demo_order demo_host ''/a.star'' FileSystem_new = Some r
     \<and> load_from_entry 9 demo_order demo_host ''/a.star'' FileSystem_new = Some r"
proof -
  have "\<exists>r. \<forall>n\<ge>Suc (Suc 0). load_from_entry n demo_order demo_host ''/a.star'' FileSystem_new = Some r"
    using loading_ends [of demo_host demo_order "''/a.star''" FileSystem_new] by (simp add: demo_paths)
  then obtain r where "\<forall>n\<ge>Suc (Suc 0). load_from_entry n demo_order demo_host ''/a.star'' FileSystem_new = Some r" ..
  then show ?thesis by (intro exI [of _ r]) simp
qed

theorem load_from_entry_no_panic_witness: "load_from_entry 2 demo_order demo_host ''/a.star'' FileSystem_new \<noteq> Some Panic"
  by (rule load_from_entry_no_panic) (simp_all add: demo_paths, auto simp: host_ok_def demo_host_def)

end
