(* ===== verification/Lang_Typed_Ast.thy ===== *)
theory Lang_Typed_Ast
  imports Lang_Ast Match_Check
begin

text \<open>
  The typed syntax tree that type inference builds (\<^verbatim>\<open>starstream-types/src/typed_ast.rs\<close>), with the
  fields in the order of the source, and the test for blocks that do not continue
  (\<^verbatim>\<open>block_diverges\<close> of \<^verbatim>\<open>starstream-compiler/src/typecheck/infer.rs\<close>). Patterns are in
  \<open>Lang_Patterns\<close>, match arms in \<open>Match_Check\<close>.
\<close>

section \<open>Expressions and statements\<close>

datatype 'e TypedStructFieldInitializer = TypedStructFieldInitializer (init_name: Identifier) (init_value: "'e Spanned")

datatype (plugins only: size code) TypedExpr = TypedExpr (expr_ty: Type) (expr_kind: TypedExprKind)
and TypedExprKind =
    X_Grouping "TypedExpr Spanned"
  | X_ScopedName ScopedName "nat option"
  | X_Literal Literal
  | X_Tuple "TypedExpr Spanned list"
  | X_StructConstructor ScopedName "TypedExpr TypedStructFieldInitializer list" nat
  | X_Disclose "TypedExpr Spanned"
  | X_Emit "TypedExpr Spanned" "TypedExpr Spanned list"
  | X_Raise "TypedExpr Spanned" "TypedExpr Spanned list"
  | X_Runtime "TypedExpr Spanned" "TypedExpr Spanned list"
  | X_Yield "Type AbiType list"
  | X_Block TypedBlock
  | X_If "(TypedIfCondition \<times> TypedBlock) list" "TypedBlock option"
  | X_Match "TypedExpr Spanned" "TypedBlock TypedMatchArm list"
  | X_Call "TypedExpr Spanned" "TypedExpr Spanned list"
  | X_FieldAccess "TypedExpr Spanned" Identifier
  | X_Unary UnaryOp "TypedExpr Spanned"
  | X_Binary BinaryOp "TypedExpr Spanned" "TypedExpr Spanned"
and TypedIfCondition =
    TIC_Bool "TypedExpr Spanned"
  | TIC_Is Identifier Type "Type AbiType" Span
and TypedBlock = TypedBlock (block_statements: "TypedStatement list") (block_tail: "TypedExpr Spanned option")
and TypedStatement =
    TS_VariableDeclaration bool bool TypedPattern "TypedExpr Spanned" "TypedBlock option"
  | TS_Assignment Identifier "TypedExpr Spanned"
  | TS_While "TypedExpr Spanned" TypedBlock
  | TS_Expression "TypedExpr Spanned"
  | TS_Return "TypedExpr Spanned option"
  | TS_Resume
  | TS_TryWith TypedBlock "(ScopedName \<times> TypedPattern list \<times> TypedBlock) list"

definition TypedBlock_ty :: "TypedBlock \<Rightarrow> Type" where
  "TypedBlock_ty b = (case block_tail b of None \<Rightarrow> TUnit | Some tail \<Rightarrow> expr_ty (sp_node tail))"

definition tail_span :: "TypedBlock \<Rightarrow> Span" where
  "tail_span b = (case block_tail b of None \<Rightarrow> DUMMY_SPAN | Some tail \<Rightarrow> sp_span tail)"

section \<open>Definitions\<close>

datatype TypedImportItem = TypedImportItem Identifier Identifier Type

datatype TypedImportDef = TypedImportDef "TypedImportItem list" ImportSource

datatype TypedFunctionDef =
  TypedFunctionDef (tf_export: "FunctionExport option") (tf_name: Identifier) (tf_id: NameId)
    (tf_ty: "Type FunctionType") (tf_body: TypedBlock)

datatype TypedUtxoGlobal = TypedUtxoGlobal Identifier Type

datatype TypedUtxoPart =
    TUP_Storage "TypedUtxoGlobal list"
  | TUP_Function TypedFunctionDef
  | TUP_AbiImpl Span "Type AbiType" "TypedFunctionDef list"

datatype TypedUtxoDef = TypedUtxoDef Identifier "TypedUtxoPart list" "Type UtxoType"

datatype TypedTokenGlobal = TypedTokenGlobal bool Identifier Type

datatype TypedTokenPart =
    TKP_Storage "TypedTokenGlobal list"
  | TKP_Function TypedFunctionDef
  | TKP_AbiImpl Span "Type AbiType" "TypedFunctionDef list"

datatype TypedTokenDef = TypedTokenDef Identifier "TypedTokenPart list" "Type TokenType"

datatype TypedDefinition =
    TD_Import TypedImportDef
  | TD_Function TypedFunctionDef
  | TD_Struct "Type RecordType"
  | TD_Enum "Type EnumType"
  | TD_Utxo TypedUtxoDef
  | TD_Token TypedTokenDef
  | TD_Abi "Type AbiType" "Type TypedAbiMethodDecl list"
  | TD_Contract

datatype TypedProgram = TypedProgram (tp_definitions: "TypedDefinition list")

section \<open>Blocks that do not continue\<close>

lemma size_sp_node [termination_simp]: "size_Spanned size e = Suc (size (sp_node e))"
  by (cases e) simp

lemma size_arm_body [termination_simp]:
  "arm \<in> set arms \<Longrightarrow> size (arm_body arm) < k + size_list (size_TypedMatchArm size) arms"
proof (induction arms)
  case (Cons a arms)
  then show ?case by (cases a) (auto simp: add.left_commute trans_less_add2)
qed simp

fun block_diverges :: "TypedBlock \<Rightarrow> bool"
  and statement_diverges :: "TypedStatement \<Rightarrow> bool"
  and expr_diverges :: "TypedExpr \<Rightarrow> bool" where
  "block_diverges (TypedBlock statements tail) =
     (list_ex statement_diverges statements
      \<or> (case tail of None \<Rightarrow> False | Some e \<Rightarrow> expr_diverges (sp_node e)))"
| "statement_diverges (TS_Return _) = True"
| "statement_diverges TS_Resume = True"
| "statement_diverges (TS_Expression e) = expr_diverges (sp_node e)"
| "statement_diverges _ = False"
| "expr_diverges (TypedExpr ty (X_Block b)) = block_diverges b"
| "expr_diverges (TypedExpr ty (X_If branches (Some else_branch))) =
     (list_all (\<lambda>br. block_diverges (snd br)) branches \<and> block_diverges else_branch)"
| "expr_diverges (TypedExpr ty (X_Match scrutinee arms)) =
     (arms \<noteq> [] \<and> list_all (\<lambda>arm. block_diverges (arm_body arm)) arms)"
| "expr_diverges _ = False"

end
