(* ===== verification/Interpreter.thy ===== *)
theory Interpreter
  imports Lang_Typed_Ast "HOL-Library.Signed_Division"
begin

text \<open>
  The tree walking interpreter (\<^verbatim>\<open>starstream-interpreter/src/lib.rs\<close>).

  A variable is an \<^verbatim>\<open>Rc<Cell<Value>>\<close>: \<open>Locals\<close> maps names to addresses, and the cells are a list that
  evaluation threads through; cloning \<^verbatim>\<open>Locals\<close> shares the cells. \<^verbatim>\<open>ControlFlow\<close> is \<open>Flow\<close>. A
  panic is an \<open>Err\<close> that says why, with arithmetic as under Rust's overflow checks. A loop need not end:
  evaluation takes a bound on the nesting of expressions and blocks and on the iterations of each loop, and is
  \<open>None\<close> when that is used up.
\<close>

unbundle bit_operations_syntax

section \<open>Values\<close>

datatype IValue = V_Unit | V_Number u64 | V_Boolean bool

datatype panic =
    Bad_operands
  | Unknown_variable string
  | Not_boolean
  | Overflow
  | Division_by_zero
  | Not_supported \<comment> \<open>\<^verbatim>\<open>todo!()\<close>\<close>
  | Unreachable_code \<comment> \<open>\<^verbatim>\<open>unreachable!()\<close>\<close>
  | Empty_name

type_synonym 'a may_panic = "(panic, 'a) outcome"

fun to_bool :: "IValue \<Rightarrow> bool may_panic" where
  "to_bool (V_Boolean b) = Ok b"
| "to_bool _ = Err Not_boolean"

text \<open>An \<^verbatim>\<open>i64\<close> result, and the panic on overflow.\<close>

definition number :: "int \<Rightarrow> IValue may_panic" where
  "number k = (if fits I64 k then Ok (V_Number (word_of_int k)) else Err Overflow)"

fun value_add :: "IValue \<Rightarrow> IValue \<Rightarrow> IValue may_panic" where
  "value_add (V_Number a) (V_Number b) = number (sint a + sint b)"
| "value_add _ _ = Err Bad_operands"

fun value_sub :: "IValue \<Rightarrow> IValue \<Rightarrow> IValue may_panic" where
  "value_sub (V_Number a) (V_Number b) = number (sint a - sint b)"
| "value_sub _ _ = Err Bad_operands"

fun value_mul :: "IValue \<Rightarrow> IValue \<Rightarrow> IValue may_panic" where
  "value_mul (V_Number a) (V_Number b) = number (sint a * sint b)"
| "value_mul _ _ = Err Bad_operands"

text \<open>\<^verbatim>\<open>lhs / rhs\<close> of \<^verbatim>\<open>i64\<close> truncates; \<^verbatim>\<open>>>\<close> keeps the sign.\<close>

definition div_floor :: "u64 \<Rightarrow> u64 \<Rightarrow> int may_panic" where
  "div_floor lhs rhs =
     (if rhs = 0 then Err Division_by_zero
      else if \<not> fits I64 (sint lhs sdiv sint rhs) then Err Overflow
      else
        let d = sint lhs sdiv sint rhs;
            r = sint lhs smod sint rhs;
            correction = sint (signed_drop_bit 63 (lhs XOR rhs))
        in if r \<noteq> 0 then (if fits I64 (d + correction) then Ok (d + correction) else Err Overflow) else Ok d)"

fun value_div :: "IValue \<Rightarrow> IValue \<Rightarrow> IValue may_panic" where
  "value_div (V_Number a) (V_Number b) = andthen (div_floor a b) number"
| "value_div _ _ = Err Bad_operands"

text \<open>\<^verbatim>\<open>lhs - div_floor(lhs, rhs) * rhs\<close>: the product is an \<^verbatim>\<open>i64\<close>, too.\<close>

fun value_rem :: "IValue \<Rightarrow> IValue \<Rightarrow> IValue may_panic" where
  "value_rem (V_Number a) (V_Number b) =
     andthen (div_floor a b) (\<lambda>d.
     if \<not> fits I64 (d * sint b) then Err Overflow else number (sint a - d * sint b))"
| "value_rem _ _ = Err Bad_operands"

fun value_neg :: "IValue \<Rightarrow> IValue may_panic" where
  "value_neg (V_Number a) = number (- sint a)"
| "value_neg _ = Err Bad_operands"

fun value_not :: "IValue \<Rightarrow> IValue may_panic" where
  "value_not (V_Boolean b) = Ok (V_Boolean (\<not> b))"
| "value_not _ = Err Bad_operands"

text \<open>\<^verbatim>\<open>PartialOrd\<close>: whether the first is less, equal or greater; \<open>None\<close> for values not comparable.\<close>

datatype Ordering = Lt | Eq | Gt

definition cmp_int :: "int \<Rightarrow> int \<Rightarrow> Ordering" where
  "cmp_int a b = (if a < b then Lt else if a = b then Eq else Gt)"

fun partial_cmp :: "IValue \<Rightarrow> IValue \<Rightarrow> Ordering option" where
  "partial_cmp (V_Number a) (V_Number b) = Some (cmp_int (sint a) (sint b))"
| "partial_cmp (V_Boolean a) (V_Boolean b) = Some (cmp_int (of_bool a) (of_bool b))"
| "partial_cmp _ _ = None"

text \<open>The operators other than \<^verbatim>\<open>&&\<close> and \<^verbatim>\<open>||\<close>. \<^verbatim>\<open>PartialEq\<close> is equality of values.\<close>

fun value_binary :: "BinaryOp \<Rightarrow> IValue \<Rightarrow> IValue \<Rightarrow> IValue may_panic" where
  "value_binary Add l r = value_add l r"
| "value_binary Subtract l r = value_sub l r"
| "value_binary Multiply l r = value_mul l r"
| "value_binary Divide l r = value_div l r"
| "value_binary Remainder l r = value_rem l r"
| "value_binary Equal l r = Ok (V_Boolean (l = r))"
| "value_binary NotEqual l r = Ok (V_Boolean (l \<noteq> r))"
| "value_binary Less l r = Ok (V_Boolean (partial_cmp l r = Some Lt))"
| "value_binary Greater l r = Ok (V_Boolean (partial_cmp l r = Some Gt))"
| "value_binary LessEqual l r = Ok (V_Boolean (partial_cmp l r \<in> {Some Lt, Some Eq}))"
| "value_binary GreaterEqual l r = Ok (V_Boolean (partial_cmp l r \<in> {Some Gt, Some Eq}))"
| "value_binary And l r = Err Not_supported"
| "value_binary Or l r = Err Not_supported"

section \<open>Variables\<close>

type_synonym Store = "IValue list"
type_synonym Locals = "string \<rightharpoonup> nat"

datatype 'a Flow = Continue 'a | Break IValue

type_synonym 'a eval = "Store \<Rightarrow> ('a Flow \<times> Store) may_panic option"

definition ret :: "'a \<Rightarrow> 'a eval" where
  "ret a s = Some (Ok (Continue a, s))"

definition panicking :: "panic \<Rightarrow> 'a eval" where
  "panicking p s = Some (Err p)"

definition pure_op :: "'a may_panic \<Rightarrow> 'a eval" where
  "pure_op r s = Some (andthen r (\<lambda>a. Ok (Continue a, s)))"

text \<open>The operator \<^verbatim>\<open>?\<close> on \<^verbatim>\<open>ControlFlow\<close>.\<close>

definition and_continue :: "'a eval \<Rightarrow> ('a \<Rightarrow> 'b eval) \<Rightarrow> 'b eval" where
  "and_continue m k s =
     (case m s of
        None \<Rightarrow> None
      | Some (Ok (Continue a, s)) \<Rightarrow> k a s
      | Some (Ok (Break v, s)) \<Rightarrow> Some (Ok (Break v, s))
      | Some (Err p) \<Rightarrow> Some (Err p)
      | Some Panic \<Rightarrow> Some Panic)"

definition locals_get :: "Locals \<Rightarrow> string \<Rightarrow> IValue eval" where
  "locals_get locals name s =
     (case locals name of
        None \<Rightarrow> Some (Err (Unknown_variable name))
      | Some a \<Rightarrow> Some (at s a (\<lambda>v. Ok (Continue v, s))))"

definition locals_set :: "Locals \<Rightarrow> string \<Rightarrow> IValue \<Rightarrow> unit eval" where
  "locals_set locals name v s =
     (case locals name of
        None \<Rightarrow> Some (Err (Unknown_variable name))
      | Some a \<Rightarrow> Some (put s a v (\<lambda>s. Ok (Continue (), s))))"

text \<open>\<^verbatim>\<open>locals.vars.insert(name, Rc::new(Cell::new(value)))\<close> for each binding.\<close>

fun insert_bindings :: "(string \<times> IValue) list \<Rightarrow> Locals \<Rightarrow> Locals eval" where
  "insert_bindings [] locals s = ret locals s"
| "insert_bindings ((name, v) # bs) locals s = insert_bindings bs (locals(name \<mapsto> length s)) (s @ [v])"

fun match_pattern :: "TypedPattern \<Rightarrow> IValue \<Rightarrow> (string \<times> IValue) list option may_panic" where
  "match_pattern (TP_Binding name) v = Ok (Some [(id_name name, v)])"
| "match_pattern TP_Wildcard v = Ok (Some [])"
| "match_pattern (TP_Literal (L_Integer i)) v =
     Ok (case literal_value i of
           None \<Rightarrow> None
         | Some k \<Rightarrow> if v = V_Number (word_of_int k) then Some [] else None)"
| "match_pattern (TP_Literal (L_Boolean b)) v = Ok (if v = V_Boolean b then Some [] else None)"
| "match_pattern (TP_Literal L_Unit) v = Ok (if v = V_Unit then Some [] else None)"
| "match_pattern _ v = Err Not_supported"

section \<open>Evaluation\<close>

fun literal_of :: "Literal \<Rightarrow> IValue" where
  "literal_of (L_Integer i) = V_Number (word_of_int (case literal_value i of None \<Rightarrow> 0 | Some k \<Rightarrow> k))"
| "literal_of (L_Boolean b) = V_Boolean b"
| "literal_of L_Unit = V_Unit"

text \<open>Each function of the source, given the functions that evaluate the expressions and blocks in it.\<close>

type_synonym eval_expr = "TypedExpr \<Rightarrow> Locals \<Rightarrow> IValue eval"
type_synonym eval_blk = "TypedBlock \<Rightarrow> Locals \<Rightarrow> IValue eval"

fun eval_branches :: "eval_expr \<Rightarrow> eval_blk \<Rightarrow> (TypedIfCondition \<times> TypedBlock) list \<Rightarrow> TypedBlock option \<Rightarrow> Locals \<Rightarrow> IValue eval" where
  "eval_branches ev evb [] else_branch locals =
     (case else_branch of None \<Rightarrow> ret V_Unit | Some b \<Rightarrow> evb b locals)"
| "eval_branches ev evb ((TIC_Bool c, block) # branches) else_branch locals =
     and_continue (and_continue (ev (sp_node c) locals) (\<lambda>v. pure_op (to_bool v))) (\<lambda>b.
     if b then evb block locals else eval_branches ev evb branches else_branch locals)"
| "eval_branches ev evb ((TIC_Is _ _ _ _, block) # branches) else_branch locals = panicking Not_supported"

fun eval_kind :: "eval_expr \<Rightarrow> eval_blk \<Rightarrow> TypedExprKind \<Rightarrow> Locals \<Rightarrow> IValue eval" where
  "eval_kind ev evb (X_ScopedName name constant) locals =
     (case last_opt name of None \<Rightarrow> panicking Empty_name | Some i \<Rightarrow> locals_get locals (id_name i))"
| "eval_kind ev evb (X_Literal l) locals = ret (literal_of l)"
| "eval_kind ev evb (X_Unary op e) locals =
     and_continue (ev (sp_node e) locals) (\<lambda>v. pure_op (case op of Negate \<Rightarrow> value_neg v | Not \<Rightarrow> value_not v))"
| "eval_kind ev evb (X_Binary op l r) locals =
     (if op = And then
        and_continue (ev (sp_node l) locals) (\<lambda>v.
        and_continue (pure_op (to_bool v)) (\<lambda>b. if b then ev (sp_node r) locals else ret v))
      else if op = Or then
        and_continue (ev (sp_node l) locals) (\<lambda>v.
        and_continue (pure_op (to_bool v)) (\<lambda>b. if b then ret v else ev (sp_node r) locals))
      else
        and_continue (ev (sp_node l) locals) (\<lambda>lv.
        and_continue (ev (sp_node r) locals) (\<lambda>rv. pure_op (value_binary op lv rv))))"
| "eval_kind ev evb (X_Grouping e) locals = ev (sp_node e) locals"
| "eval_kind ev evb (X_Disclose e) locals = ev (sp_node e) locals"
| "eval_kind ev evb (X_Block b) locals = evb b locals"
| "eval_kind ev evb (X_If branches else_branch) locals = eval_branches ev evb branches else_branch locals"
| "eval_kind ev evb _ locals = panicking Not_supported"

fun eval_while :: "nat \<Rightarrow> eval_expr \<Rightarrow> eval_blk \<Rightarrow> TypedExpr \<Rightarrow> TypedBlock \<Rightarrow> Locals \<Rightarrow> unit eval" where
  "eval_while 0 ev evb condition body locals = (\<lambda>s. None)"
| "eval_while (Suc n) ev evb condition body locals =
     and_continue (and_continue (ev condition locals) (\<lambda>v. pure_op (to_bool v))) (\<lambda>b.
     if b then and_continue (evb body locals) (\<lambda>_. eval_while n ev evb condition body locals) else ret ())"

fun eval_statement :: "nat \<Rightarrow> eval_expr \<Rightarrow> eval_blk \<Rightarrow> TypedStatement \<Rightarrow> Locals \<Rightarrow> Locals eval" where
  "eval_statement n ev evb (TS_VariableDeclaration _ _ pattern value else_branch) locals =
     and_continue (ev (sp_node value) locals) (\<lambda>v.
     and_continue (pure_op (match_pattern pattern v)) (\<lambda>bindings.
     case bindings of
       Some bs \<Rightarrow> insert_bindings bs locals
     | None \<Rightarrow>
         (case else_branch of
            Some b \<Rightarrow> and_continue (evb b locals) (\<lambda>_. panicking Unreachable_code)
          | None \<Rightarrow> panicking Unreachable_code)))"
| "eval_statement n ev evb (TS_Assignment target value) locals =
     and_continue (ev (sp_node value) locals) (\<lambda>v.
     and_continue (locals_set locals (id_name target) v) (\<lambda>_. ret locals))"
| "eval_statement n ev evb (TS_Expression e) locals = and_continue (ev (sp_node e) locals) (\<lambda>_. ret locals)"
| "eval_statement n ev evb (TS_While condition body) locals =
     and_continue (eval_while n ev evb (sp_node condition) body locals) (\<lambda>_. ret locals)"
| "eval_statement n ev evb (TS_Return (Some e)) locals =
     and_continue (ev (sp_node e) locals) (\<lambda>v s. Some (Ok (Break v, s)))"
| "eval_statement n ev evb (TS_Return None) locals = (\<lambda>s. Some (Ok (Break V_Unit, s)))"
| "eval_statement n ev evb TS_Resume locals = (\<lambda>s. Some (Ok (Break V_Unit, s)))"
| "eval_statement n ev evb (TS_TryWith _ _) locals = panicking Not_supported"

fun eval_statements :: "nat \<Rightarrow> eval_expr \<Rightarrow> eval_blk \<Rightarrow> TypedStatement list \<Rightarrow> Locals \<Rightarrow> Locals eval" where
  "eval_statements n ev evb [] locals = ret locals"
| "eval_statements n ev evb (st # statements) locals =
     and_continue (eval_statement n ev evb st locals) (eval_statements n ev evb statements)"

definition eval_contents :: "nat \<Rightarrow> eval_expr \<Rightarrow> eval_blk \<Rightarrow> TypedBlock \<Rightarrow> Locals \<Rightarrow> IValue eval" where
  "eval_contents n ev evb b locals =
     and_continue (eval_statements n ev evb (block_statements b) locals) (\<lambda>locals.
     case block_tail b of None \<Rightarrow> ret V_Unit | Some e \<Rightarrow> ev (sp_node e) locals)"

text \<open>The recursion: \<open>n\<close> bounds the nesting and the iterations of each loop.\<close>

fun eval :: "nat \<Rightarrow> TypedExpr \<Rightarrow> Locals \<Rightarrow> IValue eval"
  and eval_block :: "nat \<Rightarrow> TypedBlock \<Rightarrow> Locals \<Rightarrow> IValue eval" where
  "eval 0 e locals = (\<lambda>s. None)"
| "eval (Suc n) e locals = eval_kind (eval n) (eval_block n) (expr_kind e) locals"
| "eval_block 0 b locals = (\<lambda>s. None)"
| "eval_block (Suc n) b locals = eval_contents n (eval n) (eval_block n) b locals"

text \<open>A program runs its first function.\<close>

fun is_function :: "TypedDefinition \<Rightarrow> TypedFunctionDef option" where
  "is_function (TD_Function f) = Some f"
| "is_function _ = None"

definition eval_function :: "nat \<Rightarrow> TypedFunctionDef \<Rightarrow> unit may_panic option" where
  "eval_function n f =
     map_option (\<lambda>r. andthen r (\<lambda>_. Ok ())) (eval_block n (tf_body f) Map.empty [])"

definition exec_program :: "nat \<Rightarrow> TypedProgram \<Rightarrow> unit may_panic option" where
  "exec_program n p =
     (case List.map_filter is_function (tp_definitions p) of [] \<Rightarrow> Some (Ok ()) | f # _ \<Rightarrow> eval_function n f)"

end
