(* ===== verification/Interpreter_Sound.thy ===== *)
theory Interpreter_Sound
  imports Interpreter "HOL-Library.Sublist"
begin

text \<open>
  Type soundness of the interpreter on the language it supports, blocks that do not continue, and the bound
  on the nesting.
\<close>

section \<open>Typing\<close>

text \<open>
  What type inference guarantees of a typed tree: the types written in it agree. \<open>G\<close> types the variables,
  \<open>R\<close> is the result type of the function.
\<close>

type_synonym tenv = "string \<rightharpoonup> Type"

definition arithmetic :: "BinaryOp \<Rightarrow> bool" where
  "arithmetic op = (op \<in> {Add, Subtract, Multiply, Divide, Remainder})"

definition comparison :: "BinaryOp \<Rightarrow> bool" where
  "comparison op = (op \<in> {Equal, NotEqual, Less, Greater, LessEqual, GreaterEqual})"

inductive literal_typed :: "Literal \<Rightarrow> Type \<Rightarrow> bool" where
  "literal_value i = Some k \<Longrightarrow> fits w k \<Longrightarrow> literal_typed (L_Integer i) (TInt w)"
| "literal_typed (L_Boolean b) TBool"
| "literal_typed L_Unit TUnit"

text \<open>Patterns on the values of the interpreter, and the variables they bind.\<close>

fun literal_of_type :: "Literal \<Rightarrow> Type \<Rightarrow> bool" where
  "literal_of_type (L_Integer i) (TInt w) = True"
| "literal_of_type (L_Boolean b) TBool = True"
| "literal_of_type L_Unit TUnit = True"
| "literal_of_type _ _ = False"

inductive pattern_typed :: "TypedPattern \<Rightarrow> Type \<Rightarrow> tenv \<Rightarrow> tenv \<Rightarrow> bool" where
  "pattern_typed (TP_Binding x) T G (G(id_name x \<mapsto> T))"
| "pattern_typed TP_Wildcard T G G"
| "literal_of_type l T \<Longrightarrow> pattern_typed (TP_Literal l) T G G"

fun irrefutable :: "TypedPattern \<Rightarrow> bool" where
  "irrefutable (TP_Literal L_Unit) = True"
| "irrefutable (TP_Literal _) = False"
| "irrefutable _ = True"

inductive typed :: "tenv \<Rightarrow> Type \<Rightarrow> TypedExpr \<Rightarrow> bool"
  and typed_branches :: "tenv \<Rightarrow> Type \<Rightarrow> Type \<Rightarrow> (TypedIfCondition \<times> TypedBlock) list \<Rightarrow> bool"
  and typed_block :: "tenv \<Rightarrow> Type \<Rightarrow> TypedBlock \<Rightarrow> bool"
  and typed_statements :: "tenv \<Rightarrow> Type \<Rightarrow> TypedStatement list \<Rightarrow> tenv \<Rightarrow> bool"
  and typed_statement :: "tenv \<Rightarrow> Type \<Rightarrow> TypedStatement \<Rightarrow> tenv \<Rightarrow> bool"
  where
  t_name: "last_opt name = Some i \<Longrightarrow> G (id_name i) = Some T \<Longrightarrow> typed G R (TypedExpr T (X_ScopedName name c))"
| t_literal: "literal_typed l T \<Longrightarrow> typed G R (TypedExpr T (X_Literal l))"
| t_negate: "typed G R (sp_node e) \<Longrightarrow> expr_ty (sp_node e) = TInt w \<Longrightarrow>
    typed G R (TypedExpr (TInt w) (X_Unary Negate e))"
| t_not: "typed G R (sp_node e) \<Longrightarrow> expr_ty (sp_node e) = TBool \<Longrightarrow> typed G R (TypedExpr TBool (X_Unary Not e))"
| t_arithmetic: "typed G R (sp_node l) \<Longrightarrow> typed G R (sp_node r) \<Longrightarrow> arithmetic op \<Longrightarrow>
    expr_ty (sp_node l) = TInt w \<Longrightarrow> expr_ty (sp_node r) = TInt w \<Longrightarrow> typed G R (TypedExpr (TInt w) (X_Binary op l r))"
| t_comparison: "typed G R (sp_node l) \<Longrightarrow> typed G R (sp_node r) \<Longrightarrow> comparison op \<Longrightarrow>
    expr_ty (sp_node l) = T \<Longrightarrow> expr_ty (sp_node r) = T \<Longrightarrow> T = TBool \<or> (\<exists>w. T = TInt w) \<Longrightarrow>
    typed G R (TypedExpr TBool (X_Binary op l r))"
| t_logical: "typed G R (sp_node l) \<Longrightarrow> typed G R (sp_node r) \<Longrightarrow> op = And \<or> op = Or \<Longrightarrow>
    expr_ty (sp_node l) = TBool \<Longrightarrow> expr_ty (sp_node r) = TBool \<Longrightarrow> typed G R (TypedExpr TBool (X_Binary op l r))"
| t_grouping: "typed G R (sp_node e) \<Longrightarrow> T = expr_ty (sp_node e) \<Longrightarrow> typed G R (TypedExpr T (X_Grouping e))"
| t_disclose: "typed G R (sp_node e) \<Longrightarrow> T = expr_ty (sp_node e) \<Longrightarrow> typed G R (TypedExpr T (X_Disclose e))"
| t_block: "typed_block G R b \<Longrightarrow> T = TypedBlock_ty b \<Longrightarrow> typed G R (TypedExpr T (X_Block b))"
| t_if_else: "typed_branches G R T branches \<Longrightarrow> typed_block G R b \<Longrightarrow> T = TypedBlock_ty b \<Longrightarrow>
    typed G R (TypedExpr T (X_If branches (Some b)))"
| t_if: "typed_branches G R TUnit branches \<Longrightarrow> typed G R (TypedExpr TUnit (X_If branches None))"
| t_no_branch: "typed_branches G R T []"
| t_branch: "typed G R (sp_node c) \<Longrightarrow> expr_ty (sp_node c) = TBool \<Longrightarrow> typed_block G R b \<Longrightarrow> T = TypedBlock_ty b \<Longrightarrow>
    typed_branches G R T branches \<Longrightarrow> typed_branches G R T ((TIC_Bool c, b) # branches)"
| t_contents: "typed_statements G R (block_statements b) G' \<Longrightarrow>
    (\<And>e. block_tail b = Some e \<Longrightarrow> typed G' R (sp_node e)) \<Longrightarrow> typed_block G R b"
| t_nil: "typed_statements G R [] G"
| t_cons: "typed_statement G R st G' \<Longrightarrow> typed_statements G' R statements G'' \<Longrightarrow>
    typed_statements G R (st # statements) G''"
| t_let: "typed G R (sp_node e) \<Longrightarrow> pattern_typed p (expr_ty (sp_node e)) G G' \<Longrightarrow> irrefutable p \<Longrightarrow>
    typed_statement G R (TS_VariableDeclaration pub mut p e None) G'"
| t_let_else: "typed G R (sp_node e) \<Longrightarrow> pattern_typed p (expr_ty (sp_node e)) G G' \<Longrightarrow>
    typed_block G R b \<Longrightarrow> block_diverges b \<Longrightarrow> typed_statement G R (TS_VariableDeclaration pub mut p e (Some b)) G'"
| t_assignment: "typed G R (sp_node e) \<Longrightarrow> G (id_name x) = Some (expr_ty (sp_node e)) \<Longrightarrow>
    typed_statement G R (TS_Assignment x e) G"
| t_while: "typed G R (sp_node c) \<Longrightarrow> expr_ty (sp_node c) = TBool \<Longrightarrow> typed_block G R b \<Longrightarrow>
    typed_statement G R (TS_While c b) G"
| t_expression: "typed G R (sp_node e) \<Longrightarrow> typed_statement G R (TS_Expression e) G"
| t_return: "typed G R (sp_node e) \<Longrightarrow> expr_ty (sp_node e) = R \<Longrightarrow> typed_statement G R (TS_Return (Some e)) G"
| t_return_unit: "typed_statement G TUnit (TS_Return None) G"
| t_resume: "typed_statement G TUnit TS_Resume G"

inductive_cases typed_branches_consE: "typed_branches G R T (br # branches)"
inductive_cases typed_statements_nilE: "typed_statements G R [] G'"
inductive_cases typed_statements_consE: "typed_statements G R (st # statements) G'"
inductive_cases typed_statementE: "typed_statement G R st G'"
inductive_cases typedE: "typed G R e"
inductive_cases typed_blockE: "typed_block G R b"

section \<open>Typed values and stores\<close>

fun value_typed :: "Type \<Rightarrow> IValue \<Rightarrow> bool" where
  "value_typed TUnit V_Unit = True"
| "value_typed (TInt w) (V_Number k) = True"
| "value_typed TBool (V_Boolean b) = True"
| "value_typed _ _ = False"


definition store_typed :: "Type list \<Rightarrow> Store \<Rightarrow> bool" where
  "store_typed S s = list_all2 value_typed S s"

definition env_typed :: "tenv \<Rightarrow> Type list \<Rightarrow> Locals \<Rightarrow> bool" where
  "env_typed G S locals = (\<forall>x T. G x = Some T \<longrightarrow> (\<exists>a. locals x = Some a \<and> a < length S \<and> S ! a = T))"

lemma env_typed_prefix: "env_typed G S locals \<Longrightarrow> prefix S S' \<Longrightarrow> env_typed G S' locals"
  unfolding env_typed_def prefix_def by (metis length_append nth_append trans_less_add1)

text \<open>A run that ends has a typed outcome, or the panic of an arithmetic operation.\<close>

definition delivers :: "Type list \<Rightarrow> Type \<Rightarrow> (Type list \<Rightarrow> 'a \<Rightarrow> bool) \<Rightarrow> ('a Flow \<times> Store) may_panic option \<Rightarrow> bool" where
  "delivers S R P r = (case r of
       None \<Rightarrow> True
     | Some Panic \<Rightarrow> False
     | Some (Err p) \<Rightarrow> p = Overflow \<or> p = Division_by_zero
     | Some (Ok (f, s)) \<Rightarrow> \<exists>S'. prefix S S' \<and> store_typed S' s
         \<and> (case f of Continue a \<Rightarrow> P S' a | Break v \<Rightarrow> value_typed R v))"

lemma delivers_and_continue:
  assumes "delivers S R P (m s)"
    and "\<And>S' a s'. prefix S S' \<Longrightarrow> store_typed S' s' \<Longrightarrow> P S' a \<Longrightarrow> delivers S' R Q (k a s')"
  shows "delivers S R Q (and_continue m k s)"
proof (cases "m s")
  case (Some r)
  show ?thesis
  proof (cases r)
    case (Ok x)
    obtain f s' where x: "x = (f, s')" by (cases x)
    with assms(1) Some Ok obtain S' where S': "prefix S S'" "store_typed S' s'"
      and f: "case f of Continue a \<Rightarrow> P S' a | Break v \<Rightarrow> value_typed R v" by (auto simp: delivers_def)
    show ?thesis
    proof (cases f)
      case (Continue a)
      with assms(2) [OF S', of a] f have "delivers S' R Q (k a s')" by simp
      with S'(1) have "delivers S R Q (k a s')"
        by (auto simp: delivers_def split: option.splits outcome.splits dest: prefix_order.trans)
      with Some Ok x Continue show ?thesis by (simp add: and_continue_def)
    next
      case (Break v)
      with Some Ok x S' f show ?thesis by (auto simp: and_continue_def delivers_def)
    qed
  qed (use assms(1) Some in \<open>auto simp: and_continue_def delivers_def\<close>)
qed (simp add: and_continue_def delivers_def)

lemma delivers_ret: "store_typed S s \<Longrightarrow> P S a \<Longrightarrow> delivers S R P (ret a s)"
  by (auto simp: delivers_def ret_def)

lemma delivers_break: "store_typed S s \<Longrightarrow> value_typed R v \<Longrightarrow> delivers S R P (Some (Ok (Break v, s)))"
  by (auto simp: delivers_def)

lemma delivers_weaken: "delivers S R P r \<Longrightarrow> (\<And>S' a. prefix S S' \<Longrightarrow> P S' a \<Longrightarrow> Q S' a) \<Longrightarrow> delivers S R Q r"
proof (cases r)
  case (Some q)
  assume d: "delivers S R P r" and PQ: "\<And>S' a. prefix S S' \<Longrightarrow> P S' a \<Longrightarrow> Q S' a"
  show ?thesis
  proof (cases q)
    case (Ok x)
    obtain f s where x: "x = (f, s)" by (cases x)
    from d Some Ok x obtain S' where "prefix S S'" "store_typed S' s" "case f of Continue a \<Rightarrow> P S' a | Break v \<Rightarrow> value_typed R v"
      by (auto simp: delivers_def)
    with PQ Some Ok x show ?thesis by (cases f) (auto simp: delivers_def)
  qed (use d Some in \<open>simp_all add: delivers_def\<close>)
qed (simp add: delivers_def)

section \<open>The operators on typed values\<close>

definition arith_result :: "('a \<Rightarrow> bool) \<Rightarrow> 'a may_panic \<Rightarrow> bool" where
  "arith_result P r = (case r of Ok a \<Rightarrow> P a | Err p \<Rightarrow> p = Overflow \<or> p = Division_by_zero | Panic \<Rightarrow> False)"

lemma delivers_pure_op: "store_typed S s \<Longrightarrow> arith_result (P S) r \<Longrightarrow> delivers S R P (pure_op r s)"
  by (auto simp: delivers_def pure_op_def arith_result_def split: outcome.splits)

lemma value_typed_int: "value_typed (TInt w) v \<longleftrightarrow> (\<exists>k. v = V_Number k)"
  by (cases v) simp_all

lemma value_typed_bool: "value_typed TBool v \<longleftrightarrow> (\<exists>b. v = V_Boolean b)"
  by (cases v) simp_all

lemma arith_number: "arith_result (value_typed (TInt w)) (number k)"
  by (simp add: arith_result_def number_def)

lemma arith_div_floor: "arith_result (\<lambda>_. True) (div_floor a b)"
  by (simp add: arith_result_def div_floor_def Let_def)

lemma arith_andthen: "arith_result P r \<Longrightarrow> (\<And>a. P a \<Longrightarrow> arith_result Q (k a)) \<Longrightarrow> arith_result Q (andthen r k)"
  by (cases r) (auto simp: arith_result_def)

lemma arith_binary:
  assumes "arithmetic op" "value_typed (TInt w) l" "value_typed (TInt w) r"
  shows "arith_result (value_typed (TInt w)) (value_binary op l r)"
proof -
  from assms(2,3) obtain a b where "l = V_Number a" "r = V_Number b" by (auto simp: value_typed_int)
  with assms(1) show ?thesis
    by (auto simp: arithmetic_def arith_number arith_result_def [of _ "Err Overflow"]
        intro!: arith_andthen [OF arith_div_floor])
qed

lemma comparison_binary: "comparison op \<Longrightarrow> arith_result (value_typed TBool) (value_binary op l r)"
  by (auto simp: comparison_def arith_result_def)

lemma literal_of_typed: "literal_typed l T \<Longrightarrow> value_typed T (literal_of l)"
  by (auto elim!: literal_typed.cases)

section \<open>Patterns\<close>

lemma match_typed:
  assumes "pattern_typed p T G G'" "value_typed T v"
  shows "\<exists>r. match_pattern p v = Ok r \<and> (irrefutable p \<longrightarrow> r \<noteq> None)
    \<and> (\<forall>bs. r = Some bs \<longrightarrow> (bs = [] \<and> G' = G) \<or> (\<exists>x. bs = [(x, v)] \<and> G' = G(x \<mapsto> T)))"
  using assms
proof (cases rule: pattern_typed.cases)
  case (3 l)
  with assms(2) show ?thesis by (cases l; cases T; cases v) (auto split: option.splits)
qed auto

lemma insert_bindings_typed:
  assumes "store_typed S s" "env_typed G S locals" "bs = [] \<and> G' = G \<or> (\<exists>x. bs = [(x, v)] \<and> G' = G(x \<mapsto> T))" "value_typed T v"
  shows "delivers S R (\<lambda>S' l. env_typed G' S' l) (insert_bindings bs locals s)"
  using assms(3)
proof
  assume "bs = [] \<and> G' = G"
  with assms(1,2) show ?thesis by (simp add: delivers_ret)
next
  assume "\<exists>x. bs = [(x, v)] \<and> G' = G(x \<mapsto> T)"
  then obtain x where x: "bs = [(x, v)]" "G' = G(x \<mapsto> T)" by blast
  from assms(1) have len: "length s = length S" by (simp add: store_typed_def list_all2_lengthD)
  have "store_typed (S @ [T]) (s @ [v])" using assms(1,4) by (simp add: store_typed_def list_all2_appendI)
  moreover have "env_typed G' (S @ [T]) (locals(x \<mapsto> length s))"
    using assms(2) by (auto simp: env_typed_def x len nth_append)
  ultimately show ?thesis by (auto simp: x delivers_def ret_def intro!: exI [of _ "S @ [T]"])
qed

section \<open>Blocks that do not continue\<close>

definition stops :: "('a Flow \<times> Store) may_panic option \<Rightarrow> bool" where
  "stops r = (\<forall>a s. r \<noteq> Some (Ok (Continue a, s)))"

lemma stops_first: "stops (m s) \<Longrightarrow> stops (and_continue m k s)"
  by (auto simp: stops_def and_continue_def split: option.splits outcome.splits Flow.splits)

lemma stops_then: "(\<And>a s'. m s = Some (Ok (Continue a, s')) \<Longrightarrow> stops (k a s')) \<Longrightarrow> stops (and_continue m k s)"
  by (auto simp: stops_def and_continue_def split: option.splits outcome.splits Flow.splits)

lemma stops_simps [simp]: "stops (panicking p s)" "stops (Some (Ok (Break v, s)))" "stops None"
  by (simp_all add: stops_def panicking_def)

text \<open>Evaluators for which divergence as the type checker sees it is right.\<close>

locale diverging =
  fixes ev :: eval_expr and evb :: eval_blk
  assumes ev_stops: "expr_diverges e \<Longrightarrow> stops (ev e locals s)"
    and evb_stops: "block_diverges b \<Longrightarrow> stops (evb b locals s)"
begin

lemma statement_stops: "statement_diverges st \<Longrightarrow> stops (eval_statement n ev evb st locals s)"
  by (cases "(n, ev, evb, st, locals)" rule: eval_statement.cases) (auto intro: stops_first stops_then ev_stops)

lemma statements_stop: "list_ex statement_diverges sts \<Longrightarrow> stops (eval_statements n ev evb sts locals s)"
proof (induction sts arbitrary: locals s)
  case (Cons st sts)
  then show ?case by (auto intro: stops_first statement_stops stops_then)
qed simp

lemma contents_stop: "block_diverges b \<Longrightarrow> stops (eval_contents n ev evb b locals s)"
proof (cases b)
  case (TypedBlock sts tail)
  assume "block_diverges b"
  with TypedBlock consider "list_ex statement_diverges sts" | e where "tail = Some e" "expr_diverges (sp_node e)"
    by (auto split: option.splits)
  then show ?thesis
    by cases (auto simp: eval_contents_def TypedBlock intro: stops_first statements_stop stops_then ev_stops)
qed

lemma branches_stop:
  "list_all (\<lambda>br. block_diverges (snd br)) branches \<Longrightarrow> block_diverges b \<Longrightarrow>
    stops (eval_branches ev evb branches (Some b) locals s)"
proof (induction branches arbitrary: s)
  case (Cons br branches)
  then show ?case
    by (cases br; cases "fst br") (auto intro!: stops_then intro: evb_stops)
qed (simp add: evb_stops)

lemma kind_stops: "expr_diverges (TypedExpr T k) \<Longrightarrow> stops (eval_kind ev evb k locals s)"
  by (cases "TypedExpr T k" rule: expr_diverges.cases) (auto intro: evb_stops branches_stop)

end

section \<open>Type soundness\<close>

locale typed_evaluator = diverging +
  assumes ev_typed: "typed G R e \<Longrightarrow> store_typed S s \<Longrightarrow> env_typed G S locals \<Longrightarrow>
      delivers S R (\<lambda>_. value_typed (expr_ty e)) (ev e locals s)"
    and evb_typed: "typed_block G R b \<Longrightarrow> store_typed S s \<Longrightarrow> env_typed G S locals \<Longrightarrow>
      delivers S R (\<lambda>_. value_typed (TypedBlock_ty b)) (evb b locals s)"
begin

lemma condition_typed:
  assumes "typed G R c" "expr_ty c = TBool" "store_typed S s" "env_typed G S locals"
  shows "delivers S R (\<lambda>_ _. True) (and_continue (ev c locals) (\<lambda>v. pure_op (to_bool v)) s)"
  using ev_typed [OF assms(1,3,4)]
  by (rule delivers_and_continue) (auto intro!: delivers_pure_op simp: assms(2) value_typed_bool arith_result_def)

lemma branches_typed:
  "typed_branches G R T brs \<Longrightarrow> store_typed S s \<Longrightarrow> env_typed G S locals \<Longrightarrow>
    (case els of None \<Rightarrow> T = TUnit | Some b \<Rightarrow> typed_block G R b \<and> TypedBlock_ty b = T) \<Longrightarrow>
    delivers S R (\<lambda>_. value_typed T) (eval_branches ev evb brs els locals s)"
proof (induction brs arbitrary: S s)
  case Nil
  then show ?case by (cases els) (auto intro: delivers_ret evb_typed)
next
  case (Cons br brs)
  from Cons.prems(1) obtain c b where br: "br = (TIC_Bool c, b)" "typed G R (sp_node c)" "expr_ty (sp_node c) = TBool"
    "typed_block G R b" "T = TypedBlock_ty b" "typed_branches G R T brs" by (auto elim: typed_branches_consE)
  have "delivers S' R (\<lambda>_. value_typed T) ((if x then evb b locals else eval_branches ev evb brs els locals) s')"
    if "prefix S S'" "store_typed S' s'" for S' x s'
    using evb_typed [OF br(4) that(2) env_typed_prefix [OF Cons.prems(3) that(1)]] br(5)
      Cons.IH [OF br(6) that(2) env_typed_prefix [OF Cons.prems(3) that(1)] Cons.prems(4)] by simp
  with condition_typed [OF br(2,3) Cons.prems(2,3)] show ?case
    by (simp add: br(1) delivers_and_continue)
qed

lemma while_typed:
  assumes "typed G R c" "expr_ty c = TBool" "typed_block G R b" "store_typed S s" "env_typed G S locals"
  shows "delivers S R (\<lambda>_ _. True) (eval_while n ev evb c b locals s)"
  using assms(4,5)
proof (induction n arbitrary: S s)
  case (Suc n)
  have "delivers S' R (\<lambda>_ _. True)
      ((if x then and_continue (evb b locals) (\<lambda>_. eval_while n ev evb c b locals) else ret ()) s')"
    if "prefix S S'" "store_typed S' s'" for S' x s'
  proof -
    note env = env_typed_prefix [OF Suc.prems(2) that(1)]
    have "delivers S' R (\<lambda>_ _. True) (and_continue (evb b locals) (\<lambda>_. eval_while n ev evb c b locals) s')"
      by (rule delivers_and_continue [where P = "\<lambda>_. value_typed (TypedBlock_ty b)"])
        (use evb_typed [OF assms(3) that(2) env] Suc.IH env_typed_prefix [OF env] in auto)
    with that show ?thesis by (simp add: delivers_ret)
  qed
  with condition_typed [OF assms(1,2) Suc.prems] show ?case by (simp add: delivers_and_continue)
qed (simp add: delivers_def)

lemma let_typed:
  assumes "typed G R (sp_node e)" "pattern_typed p (expr_ty (sp_node e)) G G'" "store_typed S s" "env_typed G S locals"
    and "irrefutable p \<or> (\<exists>b. else_branch = Some b \<and> typed_block G R b \<and> block_diverges b)"
  shows "delivers S R (\<lambda>S' l. env_typed G' S' l) (eval_statement n ev evb (TS_VariableDeclaration pub mut p e else_branch) locals s)"
proof -
  let ?k = "\<lambda>bindings. case bindings of Some bs \<Rightarrow> insert_bindings bs locals
     | None \<Rightarrow> (case else_branch of Some b \<Rightarrow> and_continue (evb b locals) (\<lambda>_. panicking Unreachable_code)
         | None \<Rightarrow> panicking Unreachable_code)"
  have "delivers S' R (\<lambda>S' l. env_typed G' S' l) (and_continue (pure_op (match_pattern p v)) ?k s')"
    if S': "prefix S S'" "store_typed S' s'" and v: "value_typed (expr_ty (sp_node e)) v" for S' v s'
  proof -
    note env = env_typed_prefix [OF assms(4) S'(1)]
    from match_typed [OF assms(2) v] obtain r where r: "match_pattern p v = Ok r" "irrefutable p \<longrightarrow> r \<noteq> None"
      "\<forall>bs. r = Some bs \<longrightarrow> (bs = [] \<and> G' = G) \<or> (\<exists>x. bs = [(x, v)] \<and> G' = G(x \<mapsto> expr_ty (sp_node e)))" by blast
    have "delivers S' R (\<lambda>S' l. env_typed G' S' l) (?k r s')"
    proof (cases r)
      case None
      with r(2) assms(5) obtain b where b: "else_branch = Some b" "typed_block G R b" "block_diverges b" by auto
      from evb_typed [OF b(2) S'(2) env] evb_stops [OF b(3), of locals s'] show ?thesis
        by (simp add: None b(1)) (auto simp: and_continue_def delivers_def stops_def split: option.splits outcome.splits Flow.splits)
    next
      case (Some bs)
      with r(3) have "bs = [] \<and> G' = G \<or> (\<exists>x. bs = [(x, v)] \<and> G' = G(x \<mapsto> expr_ty (sp_node e)))" by simp
      from insert_bindings_typed [OF S'(2) env this v] Some show ?thesis by simp
    qed
    with r(1) show ?thesis by (simp add: and_continue_def pure_op_def)
  qed
  with ev_typed [OF assms(1,3,4)] show ?thesis by (simp add: delivers_and_continue)
qed

lemma assignment_typed:
  assumes "typed G R (sp_node e)" "G (id_name x) = Some (expr_ty (sp_node e))" "store_typed S s" "env_typed G S locals"
  shows "delivers S R (\<lambda>S' l. env_typed G S' l) (eval_statement n ev evb (TS_Assignment x e) locals s)"
proof -
  have "delivers S' R (\<lambda>S' l. env_typed G S' l) (and_continue (locals_set locals (id_name x) v) (\<lambda>_. ret locals) s')"
    if S': "prefix S S'" "store_typed S' s'" and v: "value_typed (expr_ty (sp_node e)) v" for S' v s'
  proof -
    note env = env_typed_prefix [OF assms(4) S'(1)]
    with assms(2) obtain a where a: "locals (id_name x) = Some a" "a < length S'" "S' ! a = expr_ty (sp_node e)"
      by (fastforce simp: env_typed_def)
    with S'(2) v have "a < length s'" "store_typed S' (s'[a := v])"
      by (auto simp: store_typed_def list_all2_conv_all_nth nth_list_update)
    with a env show ?thesis by (auto simp: and_continue_def locals_set_def put_def ret_def delivers_def)
  qed
  with ev_typed [OF assms(1,3,4)] show ?thesis by (simp add: delivers_and_continue)
qed

lemma loop_typed:
  assumes "typed G R (sp_node c)" "expr_ty (sp_node c) = TBool" "typed_block G R b" "store_typed S s" "env_typed G S locals"
  shows "delivers S R (\<lambda>S' l. env_typed G S' l) (eval_statement n ev evb (TS_While c b) locals s)"
  using while_typed [OF assms, of n]
  by (auto intro!: delivers_and_continue delivers_ret env_typed_prefix [OF assms(5)])

lemma expression_typed:
  assumes "typed G R (sp_node e)" "store_typed S s" "env_typed G S locals"
  shows "delivers S R (\<lambda>S' l. env_typed G S' l) (eval_statement n ev evb (TS_Expression e) locals s)"
  using ev_typed [OF assms]
  by (auto intro!: delivers_and_continue delivers_ret env_typed_prefix [OF assms(3)])

lemma return_typed:
  assumes "typed G R (sp_node e)" "expr_ty (sp_node e) = R" "store_typed S s" "env_typed G S locals"
  shows "delivers S R P (eval_statement n ev evb (TS_Return (Some e)) locals s)"
  using ev_typed [OF assms(1,3,4)] assms(2)
  by (auto intro!: delivers_and_continue delivers_break)

lemma statement_typed:
  assumes "typed_statement G R st G'" "store_typed S s" "env_typed G S locals"
  shows "delivers S R (\<lambda>S' l. env_typed G' S' l) (eval_statement n ev evb st locals s)"
  using assms(1)
proof (rule typed_statementE, goal_cases)
  case 1
  then show ?case by (simp del: eval_statement.simps) (rule let_typed [OF _ _ assms(2,3)], simp_all)
next
  case 2
  then show ?case by (simp del: eval_statement.simps) (rule let_typed [OF _ _ assms(2,3)], simp_all)
next
  case 3
  then show ?case by (simp del: eval_statement.simps) (rule assignment_typed [OF _ _ assms(2,3)], simp_all)
next
  case 4
  then show ?case by (simp del: eval_statement.simps) (rule loop_typed [OF _ _ _ assms(2,3)], simp_all)
next
  case 5
  then show ?case by (simp del: eval_statement.simps) (rule expression_typed [OF _ assms(2,3)], simp_all)
next
  case 6
  then show ?case by (simp del: eval_statement.simps) (rule return_typed [OF _ _ assms(2,3)], simp_all)
qed (simp_all add: delivers_break assms(2))

lemma statements_typed:
  "typed_statements G R sts G' \<Longrightarrow> store_typed S s \<Longrightarrow> env_typed G S locals \<Longrightarrow>
    delivers S R (\<lambda>S' l. env_typed G' S' l) (eval_statements n ev evb sts locals s)"
proof (induction sts arbitrary: G S s locals)
  case Nil
  then show ?case by (auto elim!: typed_statements_nilE intro: delivers_ret)
next
  case (Cons st sts)
  from Cons.prems(1) obtain G1 where "typed_statement G R st G1" "typed_statements G1 R sts G'"
    by (auto elim: typed_statements_consE)
  with statement_typed [OF _ Cons.prems(2,3)] Cons.IH show ?case by (auto intro!: delivers_and_continue)
qed

lemma contents_typed:
  assumes "typed_block G R b" "store_typed S s" "env_typed G S locals"
  shows "delivers S R (\<lambda>_. value_typed (TypedBlock_ty b)) (eval_contents n ev evb b locals s)"
proof -
  from assms(1) obtain G' where "typed_statements G R (block_statements b) G'"
    "\<And>e. block_tail b = Some e \<Longrightarrow> typed G' R (sp_node e)" by (auto elim: typed_blockE)
  with statements_typed [OF _ assms(2,3)] show ?thesis
    unfolding eval_contents_def
    by (auto intro!: delivers_and_continue delivers_ret ev_typed simp: TypedBlock_ty_def split: option.splits)
qed

lemma unary_typed:
  assumes "typed G R (sp_node e)" "store_typed S s" "env_typed G S locals"
    and "\<And>v. value_typed (expr_ty (sp_node e)) v \<Longrightarrow> arith_result (value_typed T) (case op of Negate \<Rightarrow> value_neg v | Not \<Rightarrow> value_not v)"
  shows "delivers S R (\<lambda>_. value_typed T) (eval_kind ev evb (X_Unary op e) locals s)"
  using ev_typed [OF assms(1-3)] assms(4)
  by (auto intro!: delivers_and_continue delivers_pure_op)

lemma binary_typed:
  assumes "typed G R (sp_node l)" "typed G R (sp_node r)" "op \<noteq> And" "op \<noteq> Or" "store_typed S s" "env_typed G S locals"
    and res: "\<And>v w. value_typed (expr_ty (sp_node l)) v \<Longrightarrow> value_typed (expr_ty (sp_node r)) w \<Longrightarrow>
      arith_result (value_typed T) (value_binary op v w)"
  shows "delivers S R (\<lambda>_. value_typed T) (eval_kind ev evb (X_Binary op l r) locals s)"
proof -
  have "delivers S' R (\<lambda>_. value_typed T)
      (and_continue (ev (sp_node r) locals) (\<lambda>rv. pure_op (value_binary op v rv)) s')"
    if "prefix S S'" "store_typed S' s'" "value_typed (expr_ty (sp_node l)) v" for S' v s'
    using ev_typed [OF assms(2) that(2) env_typed_prefix [OF assms(6) that(1)]] res [OF that(3)]
    by (auto intro!: delivers_and_continue delivers_pure_op)
  then have "delivers S R (\<lambda>_. value_typed T) (and_continue (ev (sp_node l) locals)
      (\<lambda>v. and_continue (ev (sp_node r) locals) (\<lambda>rv. pure_op (value_binary op v rv))) s)"
    by (rule delivers_and_continue [where P = "\<lambda>_. value_typed (expr_ty (sp_node l))" and m = "ev (sp_node l) locals" and s = s, OF ev_typed [OF assms(1,5,6)]])
  with assms(3,4) show ?thesis by simp
qed

lemma logical_typed:
  assumes "typed G R (sp_node l)" "typed G R (sp_node r)" "op = And \<or> op = Or" "store_typed S s" "env_typed G S locals"
    and "expr_ty (sp_node l) = TBool" "expr_ty (sp_node r) = TBool"
  shows "delivers S R (\<lambda>_. value_typed TBool) (eval_kind ev evb (X_Binary op l r) locals s)"
proof -
  have "delivers S R (\<lambda>_. value_typed TBool) (and_continue (ev (sp_node l) locals)
      (\<lambda>v. and_continue (pure_op (to_bool v)) (k v)) s)"
    if k: "\<And>v b. k v b = ret v \<or> k v b = ev (sp_node r) locals" for k
  proof (rule delivers_and_continue [where P = "\<lambda>_. value_typed (expr_ty (sp_node l))" and m = "ev (sp_node l) locals" and s = s, OF ev_typed [OF assms(1,4,5)]])
    fix S' v s'
    assume S': "prefix S S'" "store_typed S' s'" and v: "value_typed (expr_ty (sp_node l)) v"
    from v assms(6) obtain b where "v = V_Boolean b" by (auto simp: value_typed_bool)
    with k [of v b] S'(2) ev_typed [OF assms(2) S'(2) env_typed_prefix [OF assms(5) S'(1)]] assms(7)
    show "delivers S' R (\<lambda>_. value_typed TBool)
        (and_continue (pure_op (to_bool v)) (k v) s')"
      by (auto simp: and_continue_def pure_op_def delivers_ret)
  qed
  from this [of "\<lambda>v b. if b then ev (sp_node r) locals else ret v"] this [of "\<lambda>v b. if b then ret v else ev (sp_node r) locals"]
    assms(3) show ?thesis by (elim disjE) simp_all
qed

lemma variable_typed:
  assumes "last_opt name = Some i" "G (id_name i) = Some T" "store_typed S s" "env_typed G S locals"
  shows "delivers S R (\<lambda>_. value_typed T) (eval_kind ev evb (X_ScopedName name c) locals s)"
proof -
  from assms(2,4) obtain a where a: "locals (id_name i) = Some a" "a < length S" "S ! a = T" by (auto simp: env_typed_def)
  with assms(3) have "a < length s" "value_typed T (s ! a)" by (auto simp: store_typed_def list_all2_conv_all_nth)
  with a(1) assms(1,3) show ?thesis by (auto simp: locals_get_def at_def delivers_def)
qed

lemma kind_typed:
  assumes "typed G R e" "store_typed S s" "env_typed G S locals"
  shows "delivers S R (\<lambda>_. value_typed (expr_ty e)) (eval_kind ev evb (expr_kind e) locals s)"
  using assms(1)
proof (rule typedE, goal_cases)
  case 1
  then show ?case using variable_typed [OF _ _ assms(2,3)] by simp
next
  case 2
  then show ?case by (simp add: delivers_ret [OF assms(2)] literal_of_typed)
next
  case 3
  then show ?case by (simp del: eval_kind.simps)
      (rule unary_typed [OF _ assms(2,3)], auto simp: value_typed_int arith_number)
next
  case 4
  then show ?case by (simp del: eval_kind.simps)
      (rule unary_typed [OF _ assms(2,3)], auto simp: value_typed_bool arith_result_def)
next
  case 5
  then show ?case by (simp del: eval_kind.simps)
      (rule binary_typed [OF _ _ _ _ assms(2,3)], auto simp: arith_binary arithmetic_def)
next
  case 6
  then show ?case by (simp del: eval_kind.simps)
      (rule binary_typed [OF _ _ _ _ assms(2,3)], auto simp: comparison_binary comparison_def)
next
  case 7
  then show ?case using logical_typed [OF _ _ _ assms(2,3)] by (simp del: eval_kind.simps)
next
  case (11 brs b)
  then show ?case using branches_typed [OF _ assms(2,3), of R _ brs "Some b"] by simp
next
  case (12 brs)
  then show ?case using branches_typed [OF _ assms(2,3), of R TUnit brs None] by simp
qed (use assms(2,3) in \<open>simp_all add: ev_typed evb_typed\<close>)

end

text \<open>The interpreter is such an evaluator, at every bound.\<close>

lemma eval_stops:
  "expr_diverges e \<Longrightarrow> stops (eval n e locals s)"
  "block_diverges b \<Longrightarrow> stops (eval_block n b locals s)"
proof (induction n arbitrary: e b locals s)
  case (Suc n)
  then have ev: "diverging (eval n) (eval_block n)" by unfold_locales
  {
    case 1
    then show ?case using diverging.kind_stops [OF ev, of "expr_ty e" "expr_kind e"] by simp
  next
    case 2
    then show ?case using diverging.contents_stop [OF ev] by simp
  }
qed simp_all

lemma eval_typed:
  "typed G R e \<Longrightarrow> store_typed S s \<Longrightarrow> env_typed G S locals \<Longrightarrow> delivers S R (\<lambda>_. value_typed (expr_ty e)) (eval n e locals s)"
  "typed_block G R b \<Longrightarrow> store_typed S s \<Longrightarrow> env_typed G S locals \<Longrightarrow>
    delivers S R (\<lambda>_. value_typed (TypedBlock_ty b)) (eval_block n b locals s)"
proof (induction n arbitrary: e b locals s G S R)
  case (Suc n)
  then have ev: "typed_evaluator (eval n) (eval_block n)" by unfold_locales (simp_all add: eval_stops)
  {
    case 1
    then show ?case using typed_evaluator.kind_typed [OF ev] by simp
  next
    case 2
    then show ?case using typed_evaluator.contents_typed [OF ev] by simp
  }
qed (simp_all add: delivers_def)

interpretation te: typed_evaluator "eval n" "eval_block n" for n
  by unfold_locales (rule eval_stops eval_typed; assumption)+

end
