(* ===== verification/Interpreter_Bound.thy ===== *)
theory Interpreter_Bound
  imports Interpreter_Sound
begin

text \<open>
  The bound of the interpreter: a larger one never changes a result, and without loops the size of an
  expression or a block is enough.
\<close>

section \<open>A larger bound\<close>

definition extends_to :: "'a option \<Rightarrow> 'a option \<Rightarrow> bool" where
  "extends_to r r' = (r = None \<or> r' = r)"

lemma extends_to_refl [simp]: "extends_to r r"
  by (simp add: extends_to_def)

lemma extends_to_None [simp]: "extends_to None r"
  by (simp add: extends_to_def)

lemma extends_and_continue:
  assumes "extends_to (m s) (m' s)" "\<And>a s. extends_to (k a s) (k' a s)"
  shows "extends_to (and_continue m k s) (and_continue m' k' s)"
proof (cases "m s")
  case (Some r)
  with assms(1) have "m' s = Some r" by (simp add: extends_to_def)
  with Some assms(2) show ?thesis by (auto simp: and_continue_def split: outcome.split Flow.split)
qed (simp add: and_continue_def)

locale extending =
  fixes ev ev' :: eval_expr and evb evb' :: eval_blk and n n' :: nat
  assumes ev_extends: "extends_to (ev e locals s) (ev' e locals s)"
    and evb_extends: "extends_to (evb b locals s) (evb' b locals s)"
    and bound: "n \<le> n'"
begin

lemma branches_extend: "extends_to (eval_branches ev evb brs els locals s) (eval_branches ev' evb' brs els locals s)"
proof (induction brs arbitrary: s)
  case (Cons br brs)
  obtain c b where br: "br = (c, b)" by (cases br)
  from Cons show ?case by (cases c) (auto simp: br intro!: extends_and_continue ev_extends evb_extends)
qed (simp add: evb_extends split: option.splits)

lemma kind_extends: "extends_to (eval_kind ev evb k locals s) (eval_kind ev' evb' k locals s)"
  by (cases k) (auto intro!: extends_and_continue ev_extends evb_extends branches_extend)

lemma while_extends: "m \<le> m' \<Longrightarrow> extends_to (eval_while m ev evb c b locals s) (eval_while m' ev' evb' c b locals s)"
proof (induction m arbitrary: m' s)
  case (Suc m)
  then obtain k where "m' = Suc k" "m \<le> k" by (cases m') auto
  with Suc.IH show ?case by (auto intro!: extends_and_continue ev_extends evb_extends)
qed simp

lemma statement_extends: "extends_to (eval_statement n ev evb st locals s) (eval_statement n' ev' evb' st locals s)"
  by (cases "(n, ev, evb, st, locals)" rule: eval_statement.cases)
    (auto intro!: extends_and_continue ev_extends evb_extends while_extends bound split: option.splits)

lemma statements_extend:
  "extends_to (eval_statements n ev evb sts locals s) (eval_statements n' ev' evb' sts locals s)"
  by (induction sts arbitrary: locals s) (auto intro!: extends_and_continue statement_extends)

lemma contents_extend: "extends_to (eval_contents n ev evb b locals s) (eval_contents n' ev' evb' b locals s)"
  unfolding eval_contents_def
  by (auto intro!: extends_and_continue statements_extend ev_extends split: option.splits)

end

lemma eval_extends:
  "n \<le> n' \<Longrightarrow> extends_to (eval n e locals s) (eval n' e locals s)"
  "n \<le> n' \<Longrightarrow> extends_to (eval_block n b locals s) (eval_block n' b locals s)"
proof (induction n arbitrary: n' e b locals s)
  case (Suc n)
  {
    case 1
    then obtain k where k: "n' = Suc k" "n \<le> k" by (cases n') auto
    with Suc have "extending (eval n) (eval k) (eval_block n) (eval_block k) n k" by unfold_locales
    from extending.kind_extends [OF this] k show ?case by simp
  next
    case 2
    then obtain k where k: "n' = Suc k" "n \<le> k" by (cases n') auto
    with Suc have "extending (eval n) (eval k) (eval_block n) (eval_block k) n k" by unfold_locales
    from extending.contents_extend [OF this] k show ?case by simp
  }
qed simp_all

interpretation le: extending "eval n" "eval (n + d)" "eval_block n" "eval_block (n + d)" n "n + d" for n d
  by unfold_locales (simp_all add: eval_extends)

section \<open>Without loops\<close>

lemma size_branch [termination_simp]:
  "br \<in> set brs \<Longrightarrow> size (snd br) < k + size_list (size_prod size size) brs"
  "br \<in> set brs \<Longrightarrow> fst br = TIC_Bool c \<Longrightarrow> size (sp_node c) < k + size_list (size_prod size size) brs"
proof -
  assume "br \<in> set brs"
  then have "size_prod size size br < size_list (size_prod size size) brs"
    by (induction brs) auto
  then show "size (snd br) < k + size_list (size_prod size size) brs"
    "fst br = TIC_Bool c \<Longrightarrow> size (sp_node c) < k + size_list (size_prod size size) brs"
    by (cases br; auto simp: size_sp_node)+
qed

text \<open>The kinds of expression the interpreter does not support panic at once.\<close>

fun loop_free :: "TypedExpr \<Rightarrow> bool"
  and loop_free_block :: "TypedBlock \<Rightarrow> bool"
  and loop_free_statement :: "TypedStatement \<Rightarrow> bool" where
  "loop_free (TypedExpr T (X_Grouping e)) = loop_free (sp_node e)"
| "loop_free (TypedExpr T (X_Disclose e)) = loop_free (sp_node e)"
| "loop_free (TypedExpr T (X_Unary op e)) = loop_free (sp_node e)"
| "loop_free (TypedExpr T (X_Binary op l r)) = (loop_free (sp_node l) \<and> loop_free (sp_node r))"
| "loop_free (TypedExpr T (X_Block b)) = loop_free_block b"
| "loop_free (TypedExpr T (X_If brs els)) =
     (list_all (\<lambda>br. (case fst br of TIC_Bool c \<Rightarrow> loop_free (sp_node c) | _ \<Rightarrow> True) \<and> loop_free_block (snd br)) brs
      \<and> (case els of None \<Rightarrow> True | Some b \<Rightarrow> loop_free_block b))"
| "loop_free (TypedExpr T _) = True"
| "loop_free_block (TypedBlock statements tail) =
     (list_all loop_free_statement statements \<and> (case tail of None \<Rightarrow> True | Some e \<Rightarrow> loop_free (sp_node e)))"
| "loop_free_statement (TS_VariableDeclaration pub mut p e els) =
     (loop_free (sp_node e) \<and> (case els of None \<Rightarrow> True | Some b \<Rightarrow> loop_free_block b))"
| "loop_free_statement (TS_Assignment x e) = loop_free (sp_node e)"
| "loop_free_statement (TS_While c b) = False"
| "loop_free_statement (TS_Expression e) = loop_free (sp_node e)"
| "loop_free_statement (TS_Return (Some e)) = loop_free (sp_node e)"
| "loop_free_statement _ = True"

definition returns :: "'a option \<Rightarrow> bool" where
  "returns r = (r \<noteq> None)"

lemma and_continue_returns:
  "returns (m s) \<Longrightarrow> (\<And>a s. returns (k a s)) \<Longrightarrow> returns (and_continue m k s)"
  by (auto simp: returns_def and_continue_def split: option.splits outcome.splits Flow.splits)

lemma primitive_returns [simp]:
  "returns (ret a s)" "returns (panicking p s)" "returns (pure_op r s)"
  "returns (locals_get locals x s)" "returns (locals_set locals x v s)"
  by (simp_all add: returns_def ret_def panicking_def pure_op_def locals_get_def locals_set_def split: option.splits)

lemma returns_Some [simp]: "returns (Some x)"
  by (simp add: returns_def)

lemma insert_bindings_returns [simp]: "returns (insert_bindings bs locals s)"
  by (induction bs locals s rule: insert_bindings.induct) (simp_all del: fun_upd_apply)

text \<open>Evaluators that return on everything smaller than \<open>k\<close>.\<close>

locale returning =
  fixes ev :: eval_expr and evb :: eval_blk and k :: nat
  assumes ev_returns: "size e < k \<Longrightarrow> loop_free e \<Longrightarrow> returns (ev e locals s)"
    and evb_returns: "size b < k \<Longrightarrow> loop_free_block b \<Longrightarrow> returns (evb b locals s)"
begin

lemma branches_return:
  "size_list (size_prod size size) brs < k \<Longrightarrow>
   list_all (\<lambda>br. (case fst br of TIC_Bool c \<Rightarrow> loop_free (sp_node c) | _ \<Rightarrow> True) \<and> loop_free_block (snd br)) brs \<Longrightarrow>
   (\<And>b. els = Some b \<Longrightarrow> size b < k \<and> loop_free_block b) \<Longrightarrow>
   returns (eval_branches ev evb brs els locals s)"
proof (induction brs arbitrary: s)
  case (Cons br brs)
  obtain c b where br: "br = (c, b)" by (cases br)
  from Cons show ?case
    by (cases c) (auto simp: br size_sp_node intro!: and_continue_returns ev_returns evb_returns )
qed (auto simp: evb_returns  split: option.splits)

lemma kind_returns:
  "size (TypedExpr T kd) \<le> k \<Longrightarrow> loop_free (TypedExpr T kd) \<Longrightarrow> returns (eval_kind ev evb kd locals s)"
  by (cases "TypedExpr T kd" rule: loop_free.cases)
    (auto simp: size_sp_node  split: option.splits
      intro!: and_continue_returns ev_returns evb_returns branches_return)

lemma statement_returns:
  "size st < k \<Longrightarrow> loop_free_statement st \<Longrightarrow> returns (eval_statement n ev evb st locals s)"
  by (cases "(n, ev, evb, st, locals)" rule: eval_statement.cases)
    (auto simp: size_sp_node  split: option.splits
      intro!: and_continue_returns ev_returns evb_returns)

lemma statements_return:
  "size_list size sts < k \<Longrightarrow> list_all loop_free_statement sts \<Longrightarrow> returns (eval_statements n ev evb sts locals s)"
  by (induction sts arbitrary: locals s) (auto intro!: and_continue_returns statement_returns)

lemma contents_return:
  "size b \<le> k \<Longrightarrow> loop_free_block b \<Longrightarrow> returns (eval_contents n ev evb b locals s)"
  unfolding eval_contents_def
  by (cases b) (auto simp: size_sp_node  split: option.splits
      intro!: and_continue_returns statements_return ev_returns)

end

lemma eval_returns:
  "size e < n \<Longrightarrow> loop_free e \<Longrightarrow> returns (eval n e locals s)"
  "size b < n \<Longrightarrow> loop_free_block b \<Longrightarrow> returns (eval_block n b locals s)"
proof (induction n arbitrary: e b locals s)
  case (Suc n)
  then have ev: "returning (eval n) (eval_block n) n" by unfold_locales
  {
    case 1
    then show ?case using returning.kind_returns [OF ev, of "expr_ty e" "expr_kind e"] by simp
  next
    case 2
    then show ?case using returning.contents_return [OF ev, of b] by simp
  }
qed simp_all

interpretation rt: returning "eval n" "eval_block n" n for n
  by unfold_locales (rule eval_returns; assumption)+

end
