(* ===== verification/Machine_Ints.thy ===== *)
theory Machine_Ints
  imports Prelude "HOL-Library.Signed_Division"
begin

text \<open>
  Facts about machine integers that the operators of the interpreter and of the generated code share: wrapping,
  signs, and floored against truncating division.
\<close>

unbundle bit_operations_syntax

lemma sint_range: "- (2 ^ (LENGTH('w) - 1)) \<le> sint w" "sint w < 2 ^ (LENGTH('w) - 1)" for w :: "'w::len word"
  using sint_ge [of w] sint_lt [of w] by simp_all

text \<open>Truncation of an integer that is at most one range away from the range of the type.\<close>

lemma signed_wrap:
  fixes k :: int
  assumes "- (2 ^ Suc n) - 2 ^ n \<le> k" "k < 2 ^ Suc n + 2 ^ n"
  shows "signed_take_bit n k = (if k < - (2 ^ n) then k + 2 ^ Suc n else if k < 2 ^ n then k else k - 2 ^ Suc n)"
proof -
  let ?m = "2 ^ Suc n :: int"
  have st: "signed_take_bit n k = (k + 2 ^ n) mod ?m - 2 ^ n"
    by (simp add: signed_take_bit_eq_take_bit_shift take_bit_eq_mod)
  consider "k < - (2 ^ n)" | "- (2 ^ n) \<le> k" "k < 2 ^ n" | "2 ^ n \<le> k" by linarith
  then show ?thesis
  proof cases
    case 1
    then have "(k + 2 ^ n + ?m) mod ?m = k + 2 ^ n + ?m" using assms(1) by (intro mod_pos_pos_trivial) simp_all
    then have "(k + 2 ^ n) mod ?m = k + 2 ^ n + ?m" by (metis mod_add_self2)
    with 1 show ?thesis by (simp add: st)
  next
    case 2
    then have "(k + 2 ^ n) mod ?m = k + 2 ^ n" by (intro mod_pos_pos_trivial) simp_all
    with 2 show ?thesis by (simp add: st)
  next
    case 3
    then have "(k + 2 ^ n - ?m) mod ?m = k + 2 ^ n - ?m" using assms(2) by (intro mod_pos_pos_trivial) simp_all
    then have "(k + 2 ^ n) mod ?m = k + 2 ^ n - ?m" by (metis mod_add_self2 diff_add_cancel)
    moreover from 3 have "\<not> k < - (2 ^ n)" using zero_less_power [of "2 :: int" n] by linarith
    ultimately show ?thesis using 3 by (simp add: st)
  qed
qed

lemma sint_xor_neg: "sint (a XOR b) < 0 \<longleftrightarrow> (sint a < 0) \<noteq> (sint b < 0)" for a b :: "'w::len word"
  by (simp add: bit_last_iff [symmetric] bit_xor_iff)

lemma sint_of_int_fits:
  assumes "- (2 ^ (LENGTH('w) - 1)) \<le> k" "k < 2 ^ (LENGTH('w) - 1)"
  shows "sint (word_of_int k :: 'w::len word) = k"
  unfolding sint_sbintrunc' using assms by (intro signed_take_bit_int_eq_self) simp_all

section \<open>Division\<close>

lemma sdiv_floor:
  fixes a b :: int
  assumes "b \<noteq> 0"
  shows "a div b = a sdiv b + (if a smod b \<noteq> 0 \<and> (a < 0) \<noteq> (b < 0) then - 1 else 0)"
proof -
  have "a mod b \<noteq> b" using assms pos_mod_bound [of b a] neg_mod_bound [of b a] by linarith
  then show ?thesis
  using assms
  by (cases "a < 0"; cases "b < 0"; cases "a = 0")
    (auto simp: signed_divide_int_def signed_modulo_int_def sgn_if zdiv_zminus1_eq_if zdiv_zminus2_eq_if zmod_zminus1_eq_if zmod_zminus2_eq_if
      minus_mod_eq_mult_div [symmetric] mod_eq_0_iff_dvd)
qed

lemma correction_sign: "sint (signed_drop_bit 63 (a XOR b :: u64)) = (if (sint a < 0) \<noteq> (sint b < 0) then - 1 else 0)"
proof -
  have "sint (a XOR b) div 2 ^ 63 = (if sint (a XOR b) < 0 then - 1 else 0)"
    using sint_greater_eq [of "a XOR b"] sint_less [of "a XOR b"] by (auto simp: div_pos_pos_trivial div_eq_minus1)
  then show ?thesis by (simp add: sint_signed_drop_bit_eq drop_bit_eq_div sint_xor_neg)
qed

lemma sdiv_small:
  fixes a b :: int
  assumes "2 \<le> \<bar>b\<bar>"
  shows "\<bar>a sdiv b\<bar> \<le> \<bar>a\<bar> div 2"
proof -
  have "\<bar>a sdiv b\<bar> \<le> \<bar>a\<bar> div \<bar>b\<bar>"
    by (auto simp: signed_divide_int_def abs_mult abs_sgn_eq pos_imp_zdiv_nonneg_iff)
  also have "\<dots> \<le> \<bar>a\<bar> div 2" using assms by (intro zdiv_mono2) auto
  finally show ?thesis .
qed

end
