(* ===== verification/Interpreter_Ops.thy ===== *)
theory Interpreter_Ops
  imports Interpreter Machine_Ints
begin

text \<open>What the division operators of the interpreter compute.\<close>

lemma quotient_range:
  fixes a b :: int
  assumes "fits I64 a" "b \<noteq> 0"
  shows "fits I64 (a sdiv b) \<longleftrightarrow> fits I64 (a div b)"
proof (cases "2 \<le> \<bar>b\<bar>")
  case True
  from sdiv_small [OF this, of a] assms(1) have "\<bar>a sdiv b\<bar> \<le> 4611686018427387904" by (auto simp: fits_def abs_if split: if_splits)
  moreover from this sdiv_floor [OF assms(2), of a] have "\<bar>a div b\<bar> \<le> 4611686018427387905" by (auto split: if_splits)
  ultimately show ?thesis unfolding fits_def abs_le_iff by simp
next
  case False
  with assms(2) have "b = 1 \<or> b = - 1" by auto
  then show ?thesis by (auto simp: signed_divide_int_def sgn_if)
qed

lemma div_floor_exact:
  assumes "fits I64 a" "fits I64 b"
  shows "div_floor (word_of_int a) (word_of_int b) =
    (if b = 0 then Err Division_by_zero else if fits I64 (a div b) then Ok (a div b) else Err Overflow)"
proof -
  have s: "sint (word_of_int a :: u64) = a" "sint (word_of_int b :: u64) = b"
    using assms by (auto simp: fits_def intro!: sint_of_int_fits)
  then have "(word_of_int b = (0 :: u64)) = (b = 0)" by (metis of_int_0 signed_0)
  with s sdiv_floor [of b a] quotient_range [OF assms(1), of b] show ?thesis
    by (auto simp: div_floor_def Let_def correction_sign)
qed

lemma value_div_exact:
  assumes "fits I64 a" "fits I64 b"
  shows "value_div (V_Number (word_of_int a)) (V_Number (word_of_int b)) =
    (if b = 0 then Err Division_by_zero else number (a div b))"
  by (simp add: div_floor_exact [OF assms] number_def)

lemma value_rem_exact:
  assumes "fits I64 a" "fits I64 b"
  shows "value_rem (V_Number (word_of_int a)) (V_Number (word_of_int b)) =
    (if b = 0 then Err Division_by_zero else if \<not> fits I64 (a div b) \<or> \<not> fits I64 (a div b * b) then Err Overflow
     else Ok (V_Number (word_of_int (a mod b))))"
proof -
  have s: "sint (word_of_int a :: u64) = a" "sint (word_of_int b :: u64) = b"
    using assms by (auto simp: fits_def intro!: sint_of_int_fits)
  have "fits I64 (a mod b)" if "b \<noteq> 0"
  proof -
    from that have "0 \<le> a mod b \<and> a mod b < b \<or> b < a mod b \<and> a mod b \<le> 0"
      using pos_mod_bound [of b a] neg_mod_bound [of b a] pos_mod_sign [of b a] neg_mod_sign [of b a] by linarith
    with assms(2) show ?thesis unfolding fits_def by (simp, linarith)
  qed
  with s show ?thesis by (auto simp: div_floor_exact [OF assms] number_def minus_div_mult_eq_mod)
qed

end
