(* ===== verification/Wasm_Instr.thy ===== *)
theory Wasm_Instr
  imports Machine_Ints
begin

text \<open>
  The Wasm instructions that the modelled part of \<^verbatim>\<open>starstream-to-wasm\<close> emits, and what the Wasm
  specification says they do: the language in which the theorems on generated code are stated. A function
  body is the list of the instructions passed to \<^verbatim>\<open>InstructionSink\<close>; their binary encoding is the business
  of the crate \<^verbatim>\<open>wasm-encoder\<close>.

  Running code gives \<open>Ok\<close>, the \<open>Err\<close> of a trap, or \<open>Panic\<close> where the code is not valid Wasm.
\<close>

unbundle bit_operations_syntax

section \<open>Syntax\<close>

datatype ValType = VT_I32 | VT_I64 | VT_F32 | VT_F64

datatype val = V32 u32 | V64 u64

datatype ibin =
    I_add | I_sub | I_mul | I_div_s | I_div_u | I_rem_s | I_rem_u | I_and | I_or | I_xor | I_shl | I_shr_s

datatype irel = I_eq | I_ne | I_lt_s | I_lt_u | I_gt_s | I_gt_u | I_le_s | I_le_u | I_ge_s | I_ge_u

datatype instr =
    Local_get nat
  | Local_set nat
  | Local_tee nat
  | Drop
  | I32_const u32
  | I64_const u64
  | I32_bin ibin
  | I64_bin ibin
  | I32_rel irel
  | I64_rel irel
  | I32_eqz
  | Call nat
  | If_empty "instr list" \<comment> \<open>\<^verbatim>\<open>if_(BlockType::Empty)\<close> to its \<^verbatim>\<open>end\<close>\<close>
  | Unreachable

section \<open>Integer operations\<close>

definition int_min :: "'w::len itself \<Rightarrow> int" where
  "int_min _ = - (2 ^ (LENGTH('w) - 1))"

text \<open>\<open>None\<close> is a trap.\<close>

fun ibin_op :: "ibin \<Rightarrow> 'w::len word \<Rightarrow> 'w word \<Rightarrow> 'w word option" where
  "ibin_op I_add a b = Some (a + b)"
| "ibin_op I_sub a b = Some (a - b)"
| "ibin_op I_mul a b = Some (a * b)"
| "ibin_op I_div_s a b =
     (if b = 0 \<or> (sint a = int_min TYPE('w) \<and> sint b = - 1) then None else Some (word_of_int (sint a sdiv sint b)))"
| "ibin_op I_div_u a b = (if b = 0 then None else Some (word_of_int (uint a div uint b)))"
| "ibin_op I_rem_s a b = (if b = 0 then None else Some (word_of_int (sint a smod sint b)))"
| "ibin_op I_rem_u a b = (if b = 0 then None else Some (word_of_int (uint a mod uint b)))"
| "ibin_op I_and a b = Some (a AND b)"
| "ibin_op I_or a b = Some (a OR b)"
| "ibin_op I_xor a b = Some (a XOR b)"
| "ibin_op I_shl a b = Some (push_bit (unat b mod LENGTH('w)) a)"
| "ibin_op I_shr_s a b = Some (signed_drop_bit (unat b mod LENGTH('w)) a)"

fun irel_op :: "irel \<Rightarrow> 'w::len word \<Rightarrow> 'w word \<Rightarrow> bool" where
  "irel_op I_eq a b = (a = b)"
| "irel_op I_ne a b = (a \<noteq> b)"
| "irel_op I_lt_s a b = (sint a < sint b)"
| "irel_op I_lt_u a b = (uint a < uint b)"
| "irel_op I_gt_s a b = (sint a > sint b)"
| "irel_op I_gt_u a b = (uint a > uint b)"
| "irel_op I_le_s a b = (sint a \<le> sint b)"
| "irel_op I_le_u a b = (uint a \<le> uint b)"
| "irel_op I_ge_s a b = (sint a \<ge> sint b)"
| "irel_op I_ge_u a b = (uint a \<ge> uint b)"

definition bool_val :: "bool \<Rightarrow> val" where
  "bool_val b = V32 (if b then 1 else 0)"

section \<open>Execution\<close>

datatype trap = Trap

text \<open>The functions that code can call: by index, how many arguments each takes and what it returns.\<close>

type_synonym callees = "nat \<rightharpoonup> nat \<times> (val list \<Rightarrow> (trap, val list) outcome)"

text \<open>The locals, and the operand stack with its top first.\<close>

type_synonym frame = "val list \<times> val list"

definition of_op :: "('w word \<Rightarrow> val) \<Rightarrow> 'w word option \<Rightarrow> val list \<Rightarrow> val list \<Rightarrow> (trap, frame) outcome" where
  "of_op mk r ls st = (case r of None \<Rightarrow> Err Trap | Some v \<Rightarrow> Ok (ls, mk v # st))"

definition do_call :: "callees \<Rightarrow> nat \<Rightarrow> frame \<Rightarrow> (trap, frame) outcome" where
  "do_call fs f = (\<lambda>(ls, st).
     case fs f of
       None \<Rightarrow> Panic
     | Some (n, run) \<Rightarrow>
         if length st < n then Panic
         else andthen (run (rev (take n st))) (\<lambda>vs. Ok (ls, rev vs @ drop n st)))"

fun exec :: "callees \<Rightarrow> instr list \<Rightarrow> frame \<Rightarrow> (trap, frame) outcome"
  and exec1 :: "callees \<Rightarrow> instr \<Rightarrow> frame \<Rightarrow> (trap, frame) outcome" where
  "exec fs [] s = Ok s"
| "exec fs (i # is) s = andthen (exec1 fs i s) (exec fs is)"
| "exec1 fs (Local_get k) (ls, st) = at ls k (\<lambda>v. Ok (ls, v # st))"
| "exec1 fs (Local_set k) (ls, v # st) = put ls k v (\<lambda>ls. Ok (ls, st))"
| "exec1 fs (Local_tee k) (ls, v # st) = put ls k v (\<lambda>ls. Ok (ls, v # st))"
| "exec1 fs Drop (ls, v # st) = Ok (ls, st)"
| "exec1 fs (I32_const c) (ls, st) = Ok (ls, V32 c # st)"
| "exec1 fs (I64_const c) (ls, st) = Ok (ls, V64 c # st)"
| "exec1 fs (I32_bin bop) (ls, V32 b # V32 a # st) = of_op V32 (ibin_op bop a b) ls st"
| "exec1 fs (I64_bin bop) (ls, V64 b # V64 a # st) = of_op V64 (ibin_op bop a b) ls st"
| "exec1 fs (I32_rel rel) (ls, V32 b # V32 a # st) = Ok (ls, bool_val (irel_op rel a b) # st)"
| "exec1 fs (I64_rel rel) (ls, V64 b # V64 a # st) = Ok (ls, bool_val (irel_op rel a b) # st)"
| "exec1 fs I32_eqz (ls, V32 a # st) = Ok (ls, bool_val (a = 0) # st)"
| "exec1 fs (Call f) s = do_call fs f s"
| "exec1 fs (If_empty body) (ls, V32 c # st) =
     (if c = 0 then Ok (ls, st)
      else andthen (exec fs body (ls, [])) (\<lambda>(ls, st'). if st' = [] then Ok (ls, st) else Panic))"
| "exec1 fs Unreachable s = Err Trap"
| "exec1 fs _ _ = Panic"

lemma exec_append: "exec fs (is @ js) s = andthen (exec fs is s) (exec fs js)"
proof (induction "is" arbitrary: s)
  case (Cons i "is")
  then show ?case by (cases "exec1 fs i s") simp_all
qed simp

section \<open>Functions\<close>

record wfun =
  wf_params :: "ValType list"
  wf_results :: "ValType list"
  wf_locals :: "ValType list"
  wf_body :: "instr list"

fun zero_val :: "ValType \<Rightarrow> val" where
  "zero_val VT_I64 = V64 0"
| "zero_val _ = V32 0"

text \<open>A call of a function: its locals are the arguments and zeros, and its results are what its body leaves.\<close>

definition run_function :: "callees \<Rightarrow> wfun \<Rightarrow> val list \<Rightarrow> (trap, val list) outcome" where
  "run_function fs f args =
     andthen (exec fs (wf_body f) (args @ map zero_val (wf_locals f), [])) (\<lambda>(ls, st).
     if length st = length (wf_results f) then Ok (rev st) else Panic)"

end
