(* ===== verification/Wasm_Arith.thy ===== *)
theory Wasm_Arith
  imports Wasm_Instr Lang_Ast
begin

text \<open>
  Code for the operators of the language: the checked functions that the compiler adds on demand
  (\<^verbatim>\<open>starstream-to-wasm/src/intrinsics.rs\<close>) and the instructions that the arms of
  \<^verbatim>\<open>Compiler::visit_expr_stack\<close> for \<^verbatim>\<open>Binary\<close> and \<^verbatim>\<open>Unary\<close> append after their operands
  (\<^verbatim>\<open>starstream-to-wasm/src/lib.rs\<close>). Of \<^verbatim>\<open>Compiler\<close>, the fields they use; an arm that reports
  that an operator is not implemented for its operand types is \<open>None\<close>.
\<close>

section \<open>The compiler's functions\<close>

record Intrinsics =
  i64_add_checked :: "nat option"
  i64_sub_checked :: "nat option"
  i64_mul_checked :: "nat option"

record Compiler =
  check_overflows :: bool
  imported_functions :: nat
  code_bytes :: "wfun list"
  intrinsics :: Intrinsics

definition Compiler_new :: "bool \<Rightarrow> Compiler" where
  "Compiler_new checks = \<lparr>check_overflows = checks, imported_functions = 0, code_bytes = [],
     intrinsics = \<lparr>i64_add_checked = None, i64_sub_checked = None, i64_mul_checked = None\<rparr>\<rparr>"

definition add_function :: "wfun \<Rightarrow> Compiler \<Rightarrow> nat \<times> Compiler" where
  "add_function f c = (imported_functions c + length (code_bytes c), c\<lparr>code_bytes := code_bytes c @ [f]\<rparr>)"

section \<open>Checked functions\<close>

text \<open>Local 2 is the sum.\<close>

definition add_checked_fn :: wfun where
  "add_checked_fn = \<lparr>wf_params = [VT_I64, VT_I64], wf_results = [VT_I64], wf_locals = [VT_I64], wf_body =
     [Local_get 0, Local_get 1, I64_bin I_add, Local_tee 2,
      Local_get 0, Local_get 1, I64_bin I_xor, I64_const 0, I64_rel I_ge_s,
      Local_get 2, Local_get 0, I64_bin I_xor, I64_const 0, I64_rel I_lt_s, I32_bin I_and,
      I32_const 0, I32_rel I_ne, If_empty [Unreachable]]\<rparr>"

definition get_or_create_i64_add_checked :: "Compiler \<Rightarrow> nat \<times> Compiler" where
  "get_or_create_i64_add_checked c =
     (case i64_add_checked (intrinsics c) of
        Some checked_sum \<Rightarrow> (checked_sum, c)
      | None \<Rightarrow>
          let (idx, c) = add_function add_checked_fn c in
          (idx, c\<lparr>intrinsics := (intrinsics c)\<lparr>i64_add_checked := Some idx\<rparr>\<rparr>))"

text \<open>Local 2 is the difference.\<close>

definition sub_checked_fn :: wfun where
  "sub_checked_fn = \<lparr>wf_params = [VT_I64, VT_I64], wf_results = [VT_I64], wf_locals = [VT_I64], wf_body =
     [Local_get 0, Local_get 1, I64_bin I_sub, Local_tee 2,
      Local_get 0, Local_get 1, I64_bin I_xor, I64_const 0, I64_rel I_lt_s,
      Local_get 2, Local_get 0, I64_bin I_xor, I64_const 0, I64_rel I_lt_s, I32_bin I_and,
      I32_const 0, I32_rel I_ne, If_empty [Unreachable]]\<rparr>"

definition get_or_create_i64_sub_checked :: "Compiler \<Rightarrow> nat \<times> Compiler" where
  "get_or_create_i64_sub_checked c =
     (case i64_sub_checked (intrinsics c) of
        Some checked_sub \<Rightarrow> (checked_sub, c)
      | None \<Rightarrow>
          let (idx, c) = add_function sub_checked_fn c in
          (idx, c\<lparr>intrinsics := (intrinsics c)\<lparr>i64_sub_checked := Some idx\<rparr>\<rparr>))"

text \<open>\<^verbatim>\<open>i64::MIN\<close>\<close>

definition I64_MIN :: u64 where
  "I64_MIN = 0x8000000000000000"

text \<open>Local 2 is the product, 3 and 4 are the operands.\<close>

definition mul_checked_fn :: wfun where
  "mul_checked_fn = \<lparr>wf_params = [VT_I64, VT_I64], wf_results = [VT_I64], wf_locals = [VT_I64, VT_I64, VT_I64], wf_body =
     [Local_get 0, Local_tee 3, Local_get 1, Local_tee 4, I64_bin I_mul, Local_tee 2,
      Local_get 3, I64_const I64_MIN, I64_rel I_eq, Local_get 4, I64_const (- 1), I64_rel I_eq, I32_bin I_and,
      Local_get 4, I64_const I64_MIN, I64_rel I_eq, Local_get 3, I64_const (- 1), I64_rel I_eq, I32_bin I_and,
      I32_bin I_or, If_empty [Unreachable],
      Local_get 4, I64_const 0, I64_rel I_ne,
      If_empty
        [Local_get 2, Local_get 4, I64_bin I_div_s, Local_get 3, I64_rel I_ne, If_empty [Unreachable]]]\<rparr>"

definition get_or_create_i64_mul_checked :: "Compiler \<Rightarrow> nat \<times> Compiler" where
  "get_or_create_i64_mul_checked c =
     (case i64_mul_checked (intrinsics c) of
        Some checked_mul \<Rightarrow> (checked_mul, c)
      | None \<Rightarrow>
          let (idx, c) = add_function mul_checked_fn c in
          (idx, c\<lparr>intrinsics := (intrinsics c)\<lparr>i64_mul_checked := Some idx\<rparr>\<rparr>))"

fun emit_truncate :: "IntWidth \<Rightarrow> instr list" where
  "emit_truncate I8 = [I32_const 24, I32_bin I_shl, I32_const 24, I32_bin I_shr_s]"
| "emit_truncate I16 = [I32_const 16, I32_bin I_shl, I32_const 16, I32_bin I_shr_s]"
| "emit_truncate U8 = [I32_const 0xFF, I32_bin I_and]"
| "emit_truncate U16 = [I32_const 0xFFFF, I32_bin I_and]"
| "emit_truncate _ = []"

section \<open>Arithmetic\<close>

fun emit_add :: "Type \<Rightarrow> Type \<Rightarrow> Compiler \<Rightarrow> (instr list \<times> Compiler) option" where
  "emit_add (TInt w) (TInt _) c = Some
     (if is_64bit w then
        if check_overflows c then let (f, c) = get_or_create_i64_add_checked c in ([Call f], c)
        else ([I64_bin I_add], c)
      else (I32_bin I_add # emit_truncate w, c))"
| "emit_add _ _ c = None"

fun emit_subtract :: "Type \<Rightarrow> Type \<Rightarrow> Compiler \<Rightarrow> (instr list \<times> Compiler) option" where
  "emit_subtract (TInt w) (TInt _) c = Some
     (if is_64bit w then
        if check_overflows c then let (f, c) = get_or_create_i64_sub_checked c in ([Call f], c)
        else ([I64_bin I_sub], c)
      else (I32_bin I_sub # emit_truncate w, c))"
| "emit_subtract _ _ c = None"

fun emit_multiply :: "Type \<Rightarrow> Type \<Rightarrow> Compiler \<Rightarrow> (instr list \<times> Compiler) option" where
  "emit_multiply (TInt w) (TInt _) c = Some
     (if is_64bit w then
        if check_overflows c then let (f, c) = get_or_create_i64_mul_checked c in ([Call f], c)
        else ([I64_bin I_mul], c)
      else (I32_bin I_mul # emit_truncate w, c))"
| "emit_multiply _ _ c = None"

fun emit_divide :: "Type \<Rightarrow> Type \<Rightarrow> instr list option" where
  "emit_divide (TInt w) (TInt _) = Some
     (if is_64bit w then if is_signed w then [I64_bin I_div_s] else [I64_bin I_div_u]
      else if is_signed w then [I32_bin I_div_s] else [I32_bin I_div_u])"
| "emit_divide _ _ = None"

fun emit_remainder :: "Type \<Rightarrow> Type \<Rightarrow> instr list option" where
  "emit_remainder (TInt w) (TInt _) = Some
     (if is_64bit w then if is_signed w then [I64_bin I_rem_s] else [I64_bin I_rem_u]
      else if is_signed w then [I32_bin I_rem_s] else [I32_bin I_rem_u])"
| "emit_remainder _ _ = None"

text \<open>\<^verbatim>\<open>-x\<close> is \<^verbatim>\<open>0 - x\<close>: what comes before the operand and what comes after it.\<close>

fun emit_negate :: "Type \<Rightarrow> (instr list \<times> instr list) option" where
  "emit_negate (TInt w) = Some
     (if is_64bit w then ([I64_const 0], [I64_bin I_sub]) else ([I32_const 0], I32_bin I_sub # emit_truncate w))"
| "emit_negate _ = None"

fun emit_not :: "Type \<Rightarrow> instr list option" where
  "emit_not TBool = Some [I32_eqz]"
| "emit_not _ = None"

section \<open>Comparison\<close>

fun emit_equal :: "Type \<Rightarrow> Type \<Rightarrow> instr list option" where
  "emit_equal (TInt w) (TInt _) = Some (if is_64bit w then [I64_rel I_eq] else [I32_rel I_eq])"
| "emit_equal TBool TBool = Some [I32_rel I_eq]"
| "emit_equal _ _ = None"

fun emit_not_equal :: "Type \<Rightarrow> Type \<Rightarrow> instr list option" where
  "emit_not_equal (TInt w) (TInt _) = Some (if is_64bit w then [I64_rel I_ne] else [I32_rel I_ne])"
| "emit_not_equal TBool TBool = Some [I32_rel I_ne]"
| "emit_not_equal _ _ = None"

fun emit_less :: "Type \<Rightarrow> Type \<Rightarrow> instr list option" where
  "emit_less (TInt w) (TInt _) = Some
     (if is_64bit w then if is_signed w then [I64_rel I_lt_s] else [I64_rel I_lt_u]
      else if is_signed w then [I32_rel I_lt_s] else [I32_rel I_lt_u])"
| "emit_less TBool TBool = Some [I32_rel I_lt_u]"
| "emit_less _ _ = None"

fun emit_greater :: "Type \<Rightarrow> Type \<Rightarrow> instr list option" where
  "emit_greater (TInt w) (TInt _) = Some
     (if is_64bit w then if is_signed w then [I64_rel I_gt_s] else [I64_rel I_gt_u]
      else if is_signed w then [I32_rel I_gt_s] else [I32_rel I_gt_u])"
| "emit_greater TBool TBool = Some [I32_rel I_gt_u]"
| "emit_greater _ _ = None"

fun emit_less_equal :: "Type \<Rightarrow> Type \<Rightarrow> instr list option" where
  "emit_less_equal (TInt w) (TInt _) = Some
     (if is_64bit w then if is_signed w then [I64_rel I_le_s] else [I64_rel I_le_u]
      else if is_signed w then [I32_rel I_le_s] else [I32_rel I_le_u])"
| "emit_less_equal TBool TBool = Some [I32_rel I_le_u]"
| "emit_less_equal _ _ = None"

fun emit_greater_equal :: "Type \<Rightarrow> Type \<Rightarrow> instr list option" where
  "emit_greater_equal (TInt w) (TInt _) = Some
     (if is_64bit w then if is_signed w then [I64_rel I_ge_s] else [I64_rel I_ge_u]
      else if is_signed w then [I32_rel I_ge_s] else [I32_rel I_ge_u])"
| "emit_greater_equal TBool TBool = Some [I32_rel I_ge_u]"
| "emit_greater_equal _ _ = None"

section \<open>All binary operators without control flow\<close>

fun emit_binary :: "BinaryOp \<Rightarrow> Type \<Rightarrow> Type \<Rightarrow> Compiler \<Rightarrow> (instr list \<times> Compiler) option" where
  "emit_binary Add l r c = emit_add l r c"
| "emit_binary Subtract l r c = emit_subtract l r c"
| "emit_binary Multiply l r c = emit_multiply l r c"
| "emit_binary Divide l r c = map_option (\<lambda>is. (is, c)) (emit_divide l r)"
| "emit_binary Remainder l r c = map_option (\<lambda>is. (is, c)) (emit_remainder l r)"
| "emit_binary Equal l r c = map_option (\<lambda>is. (is, c)) (emit_equal l r)"
| "emit_binary NotEqual l r c = map_option (\<lambda>is. (is, c)) (emit_not_equal l r)"
| "emit_binary Less l r c = map_option (\<lambda>is. (is, c)) (emit_less l r)"
| "emit_binary Greater l r c = map_option (\<lambda>is. (is, c)) (emit_greater l r)"
| "emit_binary LessEqual l r c = map_option (\<lambda>is. (is, c)) (emit_less_equal l r)"
| "emit_binary GreaterEqual l r c = map_option (\<lambda>is. (is, c)) (emit_greater_equal l r)"
| "emit_binary And l r c = None"
| "emit_binary Or l r c = None"

end
