(* ===== verification/Wasm_Arith_Sound.thy ===== *)
theory Wasm_Arith_Sound
  imports Wasm_Arith
begin

text \<open>What the code for the operators computes.\<close>

section \<open>The checked functions\<close>

lemma run_simps: "length (args @ map zero_val tys) = length args + length tys"
  by simp

definition checked_result :: "int \<Rightarrow> (trap, val list) outcome" where
  "checked_result k = (if fits I64 k then Ok [V64 (word_of_int k)] else Err Trap)"

lemma sint64: "- 9223372036854775808 \<le> sint x" "sint x < 9223372036854775808" for x :: u64
  using sint_range [of x] by simp_all

lemma signed_take_bit_63: "- 27670116110564327424 \<le> k \<Longrightarrow> k < 27670116110564327424 \<Longrightarrow> signed_take_bit 63 k =
    (if k < - 9223372036854775808 then k + 18446744073709551616
     else if k < 9223372036854775808 then k else k - 18446744073709551616)" for k :: int
  using signed_wrap [of 63 k] by simp

lemma sint_add64: "sint (x + y) =
    (let k = sint x + sint y in
     if k < - 9223372036854775808 then k + 18446744073709551616
     else if k < 9223372036854775808 then k else k - 18446744073709551616)" for x y :: u64
  using sint64 [of x] sint64 [of y] by (simp add: sint_word_add signed_take_bit_63 Let_def)

lemma sint_sub64: "sint (x - y) =
    (let k = sint x - sint y in
     if k < - 9223372036854775808 then k + 18446744073709551616
     else if k < 9223372036854775808 then k else k - 18446744073709551616)" for x y :: u64
  using sint64 [of x] sint64 [of y] by (simp add: sint_word_diff signed_take_bit_63 Let_def)

lemma word_of_sint: "w = word_of_int (sint w)"
  by simp

lemma bool_word:
  "(if a then 1 else 0) AND (if b then 1 else 0) = (if a \<and> b then 1 else 0 :: u32)"
  "(if a then 1 else 0) OR (if b then 1 else 0) = (if a \<or> b then 1 else 0 :: u32)"
  "(if a then 1 else 0) = (0 :: u32) \<longleftrightarrow> \<not> a"
  by simp_all

lemmas exec_code = run_function_def at_def put_def of_op_def bool_val_def bool_word

lemma add_checked_exact:
  "run_function fs add_checked_fn [V64 x, V64 y] = checked_result (sint x + sint y)"
proof -
  have "x + y = word_of_int (sint x + sint y)" by simp
  moreover have "(sint (x XOR y) \<ge> 0 \<and> sint ((x + y) XOR x) < 0) = (\<not> fits I64 (sint x + sint y))"
    using sint64 [of x] sint64 [of y] by (auto simp: sint_xor_neg not_less [symmetric] sint_add64 Let_def fits_def)
  ultimately show ?thesis
    by (auto simp: run_function_def add_checked_fn_def at_def put_def of_op_def bool_val_def checked_result_def)
qed

lemma sub_checked_exact:
  "run_function fs sub_checked_fn [V64 x, V64 y] = checked_result (sint x - sint y)"
proof -
  have "x - y = word_of_int (sint x - sint y)" by simp
  moreover have "(sint (x XOR y) < 0 \<and> sint ((x - y) XOR x) < 0) = (\<not> fits I64 (sint x - sint y))"
    using sint64 [of x] sint64 [of y] by (auto simp: sint_xor_neg sint_sub64 Let_def fits_def)
  ultimately show ?thesis
    by (auto simp: run_function_def sub_checked_fn_def at_def put_def of_op_def bool_val_def checked_result_def)
qed

lemma sdiv_mult_self: "b \<noteq> 0 \<Longrightarrow> (a * b) sdiv b = a" for a b :: int
  by (cases "b < 0") (simp_all add: signed_divide_int_def abs_mult sgn_mult mult.assoc mult_sgn_abs sgn_mult_abs)

lemma abs_smod_less: "b \<noteq> 0 \<Longrightarrow> \<bar>a smod b\<bar> < \<bar>b\<bar>" for a b :: int
  using smod_int_range [of b a] by auto

lemma sint_quotient:
  fixes p y :: u64
  assumes "\<not> (sint p = - 9223372036854775808 \<and> sint y = - 1)"
  shows "sint (word_of_int (sint p sdiv sint y) :: u64) = sint p sdiv sint y"
proof -
  from sdiv_int_range [of "sint p" "sint y"] have r: "- \<bar>sint p\<bar> \<le> sint p sdiv sint y" "sint p sdiv sint y \<le> \<bar>sint p\<bar>" by simp_all
  have "sint p sdiv sint y \<noteq> 9223372036854775808"
  proof
    assume q: "sint p sdiv sint y = 9223372036854775808"
    with r sint64 [of p] have "sint p = - 9223372036854775808" by linarith
    moreover from this q have "sint p sdiv sint y = - sint p" "sint p \<noteq> 0" by simp_all
    then have "sint y = - 1" using int_sdiv_negated_is_minus1 [of "sint p" "sint y"] by blast
    ultimately show False using assms by blast
  qed
  with r sint64 [of p] have "- 9223372036854775808 \<le> sint p sdiv sint y" "sint p sdiv sint y < 9223372036854775808" by linarith+
  then show ?thesis unfolding sint_sbintrunc' by (intro signed_take_bit_int_eq_self) simp_all
qed

text \<open>Dividing a wrapped product by a factor gives the other factor back only if nothing wrapped.\<close>

lemma wrapped_product:
  fixes p x y :: int
  assumes y: "y \<noteq> 0" "\<bar>y\<bar> \<le> 9223372036854775808" and cong: "p mod 18446744073709551616 = (x * y) mod 18446744073709551616"
  shows "p sdiv y = x \<longleftrightarrow> p = x * y"
proof
  assume "p sdiv y = x"
  then have "p - x * y = p smod y" by (metis add_diff_cancel_left' mult.commute sdiv_mult_smod_eq)
  moreover from abs_smod_less [OF y(1), of p] y(2) have "\<bar>p smod y\<bar> < 18446744073709551616" by linarith
  moreover from cong have "18446744073709551616 dvd p - x * y" by (simp add: mod_eq_dvd_iff)
  ultimately show "p = x * y" by (metis dvd_imp_le_int eq_iff_diff_eq_0 not_le abs_of_nonneg zero_le_numeral)
qed (simp add: sdiv_mult_self y(1))

lemma sint_MIN: "sint I64_MIN = - 9223372036854775808" "x = I64_MIN \<longleftrightarrow> sint x = - 9223372036854775808"
  "x = - 1 \<longleftrightarrow> sint x = - 1" "x = 0 \<longleftrightarrow> sint x = 0" for x :: u64
proof -
  show min: "sint I64_MIN = - 9223372036854775808" by (simp add: I64_MIN_def)
  show "x = I64_MIN \<longleftrightarrow> sint x = - 9223372036854775808" using min by (metis signed_word_eqI)
  show "x = - 1 \<longleftrightarrow> sint x = - 1" using signed_word_eqI [of x "- 1"] by auto
  show "x = 0 \<longleftrightarrow> sint x = 0" by (metis signed_word_eqI sint_0)
qed

lemma mul_special:
  assumes "x = I64_MIN \<and> y = - 1 \<or> y = I64_MIN \<and> x = - 1"
  shows "\<not> fits I64 (sint x * sint y)"
  using assms by (auto simp: fits_def sint_MIN(1))

lemma mul_regular:
  fixes x y :: u64
  assumes y: "y \<noteq> 0" and ns: "\<not> (x = I64_MIN \<and> y = - 1 \<or> y = I64_MIN \<and> x = - 1)"
  shows "\<not> (sint (x * y) = - 9223372036854775808 \<and> sint y = - 1)"
    and "word_of_int (sint (x * y) sdiv sint y) = x \<longleftrightarrow> fits I64 (sint x * sint y)"
proof -
  show ex: "\<not> (sint (x * y) = - 9223372036854775808 \<and> sint y = - 1)"
  proof
    assume a: "sint (x * y) = - 9223372036854775808 \<and> sint y = - 1"
    then have "y = - 1" "x * y = I64_MIN" by (simp_all only: sint_MIN)
    then have "x = - I64_MIN" by (metis minus_minus mult_minus1_right)
    then have "x = I64_MIN" by (simp add: I64_MIN_def)
    with \<open>y = - 1\<close> ns show False by simp
  qed
  have "sint (x * y) mod 18446744073709551616 = (sint x * sint y) mod 18446744073709551616"
    using take_bit_signed_take_bit [of 64 63 "sint x * sint y"] by (simp add: sint_word_mult take_bit_eq_mod)
  with wrapped_product [of "sint y" "sint (x * y)" "sint x"] y sint64 [of y] sint_MIN(4) [of y]
  have "sint (x * y) sdiv sint y = sint x \<longleftrightarrow> sint (x * y) = sint x * sint y" by auto
  also have "\<dots> \<longleftrightarrow> fits I64 (sint x * sint y)"
    using sint64 [of "x * y"] by (auto simp: fits_def sint_word_mult intro!: signed_take_bit_int_eq_self)
  finally have "sint (word_of_int (sint (x * y) sdiv sint y) :: u64) = sint x \<longleftrightarrow> fits I64 (sint x * sint y)"
    by (simp only: sint_quotient [OF ex])
  then show "word_of_int (sint (x * y) sdiv sint y) = x \<longleftrightarrow> fits I64 (sint x * sint y)"
    by (metis signed_word_eqI)
qed

lemma mul_checked_run:
  "run_function fs mul_checked_fn [V64 x, V64 y] =
    (if x = I64_MIN \<and> y = - 1 \<or> y = I64_MIN \<and> x = - 1 then Err Trap
     else if y = 0 then Ok [V64 (x * y)]
     else case ibin_op I_div_s (x * y) y of None \<Rightarrow> Err Trap | Some q \<Rightarrow> if q \<noteq> x then Err Trap else Ok [V64 (x * y)])"
  by (simp add: mul_checked_fn_def exec_code del: ibin_op.simps(4) split: option.splits)

lemma mul_checked_exact:
  "run_function fs mul_checked_fn [V64 x, V64 y] = checked_result (sint x * sint y)"
proof -
  have prod: "word_of_int (sint x * sint y) = x * y" by simp
  let ?special = "x = I64_MIN \<and> y = - 1 \<or> y = I64_MIN \<and> x = - 1"
  consider ?special | "\<not> ?special" "y = 0" | "\<not> ?special" "y \<noteq> 0" by blast
  then show ?thesis
  proof cases
    case 1
    with mul_special [OF 1] show ?thesis by (simp only: mul_checked_run if_True checked_result_def if_False)
  next
    case 2
    then have "fits I64 (sint x * sint y)" by (simp add: fits_def)
    with 2 show ?thesis unfolding mul_checked_run checked_result_def prod by simp
  next
    case 3
    note R = mul_regular [OF 3(2,1)]
    have "ibin_op I_div_s (x * y) y = Some (word_of_int (sint (x * y) sdiv sint y))"
      using R(1) 3(2) by (simp add: int_min_def)
    with 3 R(2) show ?thesis unfolding mul_checked_run checked_result_def prod by (auto simp del: ibin_op.simps)
  qed
qed

section \<open>The functions of a module\<close>

definition callees_of :: "Compiler \<Rightarrow> callees" where
  "callees_of c i =
     (if imported_functions c \<le> i \<and> i - imported_functions c < length (code_bytes c) then
        let f = code_bytes c ! (i - imported_functions c) in
        Some (length (wf_params f), run_function Map.empty f)
      else None)"

definition checked_at :: "Compiler \<Rightarrow> nat option \<Rightarrow> wfun \<Rightarrow> bool" where
  "checked_at c idx f = (\<forall>i. idx = Some i \<longrightarrow>
     imported_functions c \<le> i \<and> i - imported_functions c < length (code_bytes c)
     \<and> code_bytes c ! (i - imported_functions c) = f)"

text \<open>The recorded functions are the checked ones.\<close>

definition intrinsics_ok :: "Compiler \<Rightarrow> bool" where
  "intrinsics_ok c = (checked_at c (i64_add_checked (intrinsics c)) add_checked_fn
     \<and> checked_at c (i64_sub_checked (intrinsics c)) sub_checked_fn
     \<and> checked_at c (i64_mul_checked (intrinsics c)) mul_checked_fn)"

text \<open>Adding a function keeps the ones there are.\<close>

definition grows :: "Compiler \<Rightarrow> Compiler \<Rightarrow> bool" where
  "grows c c' = (imported_functions c' = imported_functions c \<and> check_overflows c' = check_overflows c
     \<and> (\<exists>fs. code_bytes c' = code_bytes c @ fs))"

lemma grows_refl [simp]: "grows c c"
  by (simp add: grows_def)

lemma grows_trans: "grows a b \<Longrightarrow> grows b c \<Longrightarrow> grows a c"
  by (auto simp: grows_def)

lemma checked_at_grows: "grows c c' \<Longrightarrow> checked_at c idx f \<Longrightarrow> checked_at c' idx f"
  by (auto simp: grows_def checked_at_def nth_append)

lemma callees_of_grows: "grows c c' \<Longrightarrow> callees_of c i = Some r \<Longrightarrow> callees_of c' i = Some r"
  by (auto simp: grows_def callees_of_def nth_append Let_def split: if_splits)

lemma callees_of_checked:
  "checked_at c (Some i) f \<Longrightarrow> callees_of c i = Some (length (wf_params f), run_function Map.empty f)"
  by (simp add: checked_at_def callees_of_def Let_def)

lemma add_function_at: "add_function f c = (i, c') \<Longrightarrow> grows c c' \<and> checked_at c' (Some i) f \<and> intrinsics c' = intrinsics c"
  by (auto simp: add_function_def grows_def checked_at_def)

lemma get_or_create_add:
  assumes "intrinsics_ok c" "get_or_create_i64_add_checked c = (i, c')"
  shows "intrinsics_ok c'" "grows c c'" "checked_at c' (Some i) add_checked_fn"
  using assms add_function_at [of add_checked_fn c]
  by (auto simp: get_or_create_i64_add_checked_def intrinsics_ok_def Let_def grows_def checked_at_def nth_append
      add_function_def split: option.splits)

lemma get_or_create_sub:
  assumes "intrinsics_ok c" "get_or_create_i64_sub_checked c = (i, c')"
  shows "intrinsics_ok c'" "grows c c'" "checked_at c' (Some i) sub_checked_fn"
  using assms add_function_at [of sub_checked_fn c]
  by (auto simp: get_or_create_i64_sub_checked_def intrinsics_ok_def Let_def grows_def checked_at_def nth_append
      add_function_def split: option.splits)

lemma get_or_create_mul:
  assumes "intrinsics_ok c" "get_or_create_i64_mul_checked c = (i, c')"
  shows "intrinsics_ok c'" "grows c c'" "checked_at c' (Some i) mul_checked_fn"
  using assms add_function_at [of mul_checked_fn c]
  by (auto simp: get_or_create_i64_mul_checked_def intrinsics_ok_def Let_def grows_def checked_at_def nth_append
      add_function_def split: option.splits)

section \<open>Integers of the language on the operand stack\<close>

definition repr :: "IntWidth \<Rightarrow> int \<Rightarrow> val" where
  "repr w k = (if is_64bit w then V64 (word_of_int k) else V32 (word_of_int k))"

text \<open>The value of the width congruent to an integer.\<close>

definition wrap :: "IntWidth \<Rightarrow> int \<Rightarrow> int" where
  "wrap w k = (if is_signed w then signed_take_bit (bit_width w - 1) k else take_bit (bit_width w) k)"

lemma wrap_fits: "fits w (wrap w k)"
  using take_bit_int_less_exp [of "bit_width w" k] take_bit_nonnegative [of "bit_width w" k]
    signed_take_bit_int_less_exp [of "bit_width w - 1" k] signed_take_bit_int_greater_eq_minus_exp [of "bit_width w - 1" k]
  by (cases w) (simp_all add: wrap_def fits_def)

lemma wrap_of_fits: "fits w k \<Longrightarrow> wrap w k = k"
  by (cases w) (auto simp: wrap_def fits_def intro!: signed_take_bit_int_eq_self take_bit_int_eq_self)

lemma sint_repr:
  assumes "fits w k" "is_signed w"
  shows "sint (word_of_int k :: u64) = k" "\<not> is_64bit w \<Longrightarrow> sint (word_of_int k :: u32) = k"
proof -
  show "sint (word_of_int k :: u64) = k"
    unfolding sint_sbintrunc' using assms by (cases w) (auto simp: fits_def intro!: signed_take_bit_int_eq_self)
  show "\<not> is_64bit w \<Longrightarrow> sint (word_of_int k :: u32) = k"
    unfolding sint_sbintrunc' using assms by (cases w) (auto simp: fits_def is_64bit_def intro!: signed_take_bit_int_eq_self)
qed

lemma uint_repr:
  assumes "fits w k" "\<not> is_signed w"
  shows "uint (word_of_int k :: u64) = k" "\<not> is_64bit w \<Longrightarrow> uint (word_of_int k :: u32) = k"
  using assms by (cases w; auto simp: fits_def is_64bit_def unsigned_of_int intro!: take_bit_int_eq_self)+

lemma shift_pair:
  fixes k :: int
  assumes "0 < n" "n < 32"
  shows "signed_drop_bit (32 - n) (push_bit (32 - n) (word_of_int k :: u32)) = word_of_int (signed_take_bit (n - 1) k)"
proof (intro bit_word_eqI)
  fix m assume m: "m < LENGTH(32)"
  have "m = n - 1" if "\<not> n \<le> m" "n - 1 \<le> m" using that by linarith
  then show "bit (signed_drop_bit (32 - n) (push_bit (32 - n) (word_of_int k :: u32))) m
      \<longleftrightarrow> bit (word_of_int (signed_take_bit (n - 1) k) :: u32) m"
    using assms m
    by (cases "n \<le> m"; cases "n - 1 \<le> m")
      (auto simp: bit_signed_drop_bit_iff bit_push_bit_iff bit_word_of_int_iff bit_signed_take_bit_iff min_def)
qed

lemma exec_truncate:
  assumes "\<not> is_64bit w"
  shows "exec fs (emit_truncate w) (ls, V32 (word_of_int k) # st) = Ok (ls, repr w (wrap w k) # st)"
proof -
  have masks: "(0xFF :: u32) = mask 8" "(0xFFFF :: u32) = mask 16" by (simp_all add: mask_eq_exp_minus_1)
  have mask: "word_of_int k AND mask n = (word_of_int (take_bit n k) :: u32)" for n
    by (intro bit_word_eqI) (auto simp: bit_simps)
  have whole: "word_of_int (signed_take_bit 31 k) = (word_of_int k :: u32)" "word_of_int (take_bit 32 k) = (word_of_int k :: u32)"
    by (simp_all add: word_of_int_eq_iff take_bit_signed_take_bit)
  show ?thesis
    using assms shift_pair [of 8 k] shift_pair [of 16 k] whole
    by (cases w) (simp_all add: is_64bit_def repr_def wrap_def of_op_def masks mask)
qed

section \<open>The operators\<close>

fun int_op :: "BinaryOp \<Rightarrow> int \<Rightarrow> int \<Rightarrow> int" where
  "int_op Add a b = a + b"
| "int_op Subtract a b = a - b"
| "int_op Multiply a b = a * b"
| "int_op Divide a b = a sdiv b"
| "int_op Remainder a b = a smod b"
| "int_op _ a b = 0"

fun cmp_op :: "BinaryOp \<Rightarrow> int \<Rightarrow> int \<Rightarrow> bool" where
  "cmp_op Equal a b = (a = b)"
| "cmp_op NotEqual a b = (a \<noteq> b)"
| "cmp_op Less a b = (a < b)"
| "cmp_op Greater a b = (a > b)"
| "cmp_op LessEqual a b = (a \<le> b)"
| "cmp_op GreaterEqual a b = (a \<ge> b)"
| "cmp_op _ a b = False"

definition overflowing :: "BinaryOp \<Rightarrow> bool" where
  "overflowing op = (op \<in> {Add, Subtract, Multiply})"

definition comparing :: "BinaryOp \<Rightarrow> bool" where
  "comparing op = (op \<in> {Equal, NotEqual, Less, Greater, LessEqual, GreaterEqual})"

lemma emit_binary_ok:
  "op \<notin> {And, Or} \<Longrightarrow> \<exists>is c'. emit_binary op (TInt w) (TInt w') c = Some (is, c')"
  by (cases op) (auto split: prod.splits simp: Let_def)

text \<open>The functions added on the way.\<close>

lemma emit_binary_grows:
  assumes "intrinsics_ok c" "emit_binary op l r c = Some (is, c')"
  shows "intrinsics_ok c'" "grows c c'"
proof -
  have "intrinsics_ok c' \<and> grows c c'"
  proof (cases op)
    case Add
    with assms show ?thesis
      by (cases l; cases r) (auto split: prod.splits if_splits dest: get_or_create_add)
  next
    case Subtract
    with assms show ?thesis
      by (cases l; cases r) (auto split: prod.splits if_splits dest: get_or_create_sub)
  next
    case Multiply
    with assms show ?thesis
      by (cases l; cases r) (auto split: prod.splits if_splits dest: get_or_create_mul)
  qed (use assms in auto)
  then show "intrinsics_ok c'" "grows c c'" by simp_all
qed

lemma exec_checked:
  assumes "checked_at c (Some i) f" "length (wf_params f) = 2" "grows c c'"
    and "\<And>fs. run_function fs f [V64 x, V64 y] = checked_result k"
  shows "exec (callees_of c') [Call i] (ls, V64 y # V64 x # st) = (if fits I64 k then Ok (ls, repr I64 k # st) else Err Trap)"
  using callees_of_checked [OF checked_at_grows [OF assms(3,1)]] assms(2,4)
  by (simp add: do_call_def checked_result_def repr_def is_64bit_def)

text \<open>The code for a binary operator in any module that has at least the functions it needs.\<close>

lemma wide_overflowing:
  assumes "intrinsics_ok c" "check_overflows c" "overflowing op" "emit_binary op (TInt I64) (TInt I64) c = Some (is, c')"
    and "grows c' m" "fits I64 a" "fits I64 b"
  shows "exec (callees_of m) is (ls, repr I64 b # repr I64 a # st)
    = (if fits I64 (int_op op a b) then Ok (ls, repr I64 (int_op op a b) # st) else Err Trap)"
proof -
  have s: "sint (word_of_int a :: u64) = a" "sint (word_of_int b :: u64) = b" using sint_repr(1) assms(6,7) by auto
  have r: "repr I64 a = V64 (word_of_int a)" "repr I64 b = V64 (word_of_int b)" by (simp_all add: repr_def is_64bit_def)
  from assms(3) consider "op = Add" | "op = Subtract" | "op = Multiply" by (auto simp: overflowing_def)
  then show ?thesis
  proof cases
    case 1
    with assms(2,4) obtain i where i: "is = [Call i]" "get_or_create_i64_add_checked c = (i, c')"
      by (auto simp: is_64bit_def split: prod.splits)
    from exec_checked [OF get_or_create_add(3) [OF assms(1) i(2)] _ assms(5) add_checked_exact] 1 i s r show ?thesis
      by (simp add: add_checked_fn_def)
  next
    case 2
    with assms(2,4) obtain i where i: "is = [Call i]" "get_or_create_i64_sub_checked c = (i, c')"
      by (auto simp: is_64bit_def split: prod.splits)
    from exec_checked [OF get_or_create_sub(3) [OF assms(1) i(2)] _ assms(5) sub_checked_exact] 2 i s r show ?thesis
      by (simp add: sub_checked_fn_def)
  next
    case 3
    with assms(2,4) obtain i where i: "is = [Call i]" "get_or_create_i64_mul_checked c = (i, c')"
      by (auto simp: is_64bit_def split: prod.splits)
    from exec_checked [OF get_or_create_mul(3) [OF assms(1) i(2)] _ assms(5) mul_checked_exact] 3 i s r show ?thesis
      by (simp add: mul_checked_fn_def)
  qed
qed

lemma narrow_overflowing:
  assumes "overflowing op" "\<not> is_64bit w" "emit_binary op (TInt w) (TInt w') c = Some (is, c')"
  shows "c' = c" "exec fs is (ls, repr w b # repr w a # st) = Ok (ls, repr w (wrap w (int_op op a b)) # st)"
proof -
  have r: "repr w k = V32 (word_of_int k)" for k using assms(2) by (simp add: repr_def)
  from assms(1) consider "op = Add" | "op = Subtract" | "op = Multiply" by (auto simp: overflowing_def)
  then have "c' = c \<and> exec fs is (ls, repr w b # repr w a # st) = Ok (ls, repr w (wrap w (int_op op a b)) # st)"
    by cases (use assms(2,3) exec_truncate [OF assms(2), of fs ls "int_op op a b" st] in \<open>auto simp: r of_op_def\<close>)
  then show "c' = c" "exec fs is (ls, repr w b # repr w a # st) = Ok (ls, repr w (wrap w (int_op op a b)) # st)" by simp_all
qed

lemma compare_exact:
  assumes "comparing op" "emit_binary op (TInt w) (TInt w) c = Some (is, c')" "fits w a" "fits w b"
  shows "c' = c" "exec fs is (ls, repr w b # repr w a # st) = Ok (ls, bool_val (cmp_op op a b) # st)"
proof -
  have eq: "(word_of_int a = (word_of_int b :: u64)) = (a = b)" "\<not> is_64bit w \<Longrightarrow> (word_of_int a = (word_of_int b :: u32)) = (a = b)"
    using sint_repr [OF assms(3)] sint_repr [OF assms(4)] uint_repr [OF assms(3)] uint_repr [OF assms(4)] by metis+
  have "c' = c \<and> exec fs is (ls, repr w b # repr w a # st) = Ok (ls, bool_val (cmp_op op a b) # st)"
    using assms(1,2) eq sint_repr [OF assms(3)] sint_repr [OF assms(4)] uint_repr [OF assms(3)] uint_repr [OF assms(4)]
    by (cases op; cases "is_64bit w"; cases "is_signed w") (auto simp: comparing_def repr_def)
  then show "c' = c" "exec fs is (ls, repr w b # repr w a # st) = Ok (ls, bool_val (cmp_op op a b) # st)" by simp_all
qed

text \<open>Division truncates. It traps on a zero divisor, and on the only quotient out of range if the operands
  fill a machine word.\<close>

lemma sdiv_nonneg: "0 \<le> a \<Longrightarrow> 0 \<le> b \<Longrightarrow> a sdiv b = a div b" for a b :: int
  by (cases "a = 0"; cases "b = 0") (auto simp: signed_divide_int_def)

lemma quotient_fits:
  assumes "fits w a" "fits w b"
  shows "fits w (a sdiv b) \<longleftrightarrow> \<not> (is_signed w \<and> a = min_value w \<and> b = - 1)"
proof (cases "is_signed w")
  case True
  then have w: "max_value w = - min_value w - 1" "min_value w < 0" by (cases w; simp)+
  from sdiv_int_range [of a b] have r: "- \<bar>a\<bar> \<le> a sdiv b" "a sdiv b \<le> \<bar>a\<bar>" by simp_all
  have "fits w (a sdiv b) \<longleftrightarrow> a sdiv b \<noteq> - min_value w" using r assms(1) w by (auto simp: fits_def)
  also have "\<dots> \<longleftrightarrow> \<not> (a = min_value w \<and> b = - 1)"
  proof (cases "a = min_value w")
    case True
    with int_sdiv_negated_is_minus1 [of a b] w(2) show ?thesis by auto
  next
    case False
    with r assms(1) w show ?thesis by (auto simp: fits_def)
  qed
  finally show ?thesis using True by simp
next
  case False
  then have "min_value w = 0" by (cases w) simp_all
  moreover from this assms have "0 \<le> a" "0 \<le> b" by (simp_all add: fits_def)
  moreover from this have "0 \<le> a sdiv b" "a sdiv b \<le> a"
    using sdiv_int_range [of a b] by (cases "b = 0"; auto simp: sdiv_nonneg pos_imp_zdiv_nonneg_iff)+
  ultimately show ?thesis using assms(1) False by (auto simp: fits_def)
qed

lemma divide_exact:
  assumes "emit_divide (TInt w) (TInt w) = Some is" "fits w a" "fits w b"
  shows "exec fs is (ls, repr w b # repr w a # st)
    = (if b = 0 \<or> w \<in> {I32, I64} \<and> \<not> fits w (a sdiv b) then Err Trap else Ok (ls, repr w (a sdiv b) # st))"
proof (cases "is_signed w")
  case True
  have z: "(word_of_int b = (0 :: u64)) = (b = 0)" "\<not> is_64bit w \<Longrightarrow> (word_of_int b = (0 :: u32)) = (b = 0)"
    using sint_repr [OF assms(3) True] by (metis sint_0 of_int_0)+
  have m: "w \<in> {I32, I64} \<and> \<not> fits w (a sdiv b) \<longleftrightarrow> w \<in> {I32, I64} \<and> a = min_value w \<and> b = - 1"
    using quotient_fits [OF assms(2,3)] True by blast
  show ?thesis
    using assms(1,2) True z sint_repr [OF assms(2) True] sint_repr [OF assms(3) True]
    unfolding m by (cases w) (auto simp: repr_def of_op_def int_min_def is_64bit_def fits_def)
next
  case False
  have z: "(word_of_int b = (0 :: u64)) = (b = 0)" "\<not> is_64bit w \<Longrightarrow> (word_of_int b = (0 :: u32)) = (b = 0)"
    using uint_repr [OF assms(3) False] by (metis unsigned_0 of_int_0)+
  from False assms(2,3) have "0 \<le> a" "0 \<le> b" by (cases w; simp add: fits_def)+
  then show ?thesis
    using assms(1) False z uint_repr [OF assms(2) False] uint_repr [OF assms(3) False]
    by (cases "is_64bit w") (auto simp: repr_def of_op_def sdiv_nonneg)
qed

lemma remainder_exact:
  assumes "emit_remainder (TInt w) (TInt w) = Some is" "fits w a" "fits w b"
  shows "exec fs is (ls, repr w b # repr w a # st)
    = (if b = 0 then Err Trap else Ok (ls, repr w (a smod b) # st))"
proof (cases "is_signed w")
  case True
  have z: "(word_of_int b = (0 :: u64)) = (b = 0)" "\<not> is_64bit w \<Longrightarrow> (word_of_int b = (0 :: u32)) = (b = 0)"
    using sint_repr [OF assms(3) True] by (metis sint_0 of_int_0)+
  show ?thesis
    using assms(1,2) True z sint_repr [OF assms(2) True] sint_repr [OF assms(3) True]
    by (cases "is_64bit w") (auto simp: repr_def of_op_def)
next
  case False
  have z: "(word_of_int b = (0 :: u64)) = (b = 0)" "\<not> is_64bit w \<Longrightarrow> (word_of_int b = (0 :: u32)) = (b = 0)"
    using uint_repr [OF assms(3) False] by (metis unsigned_0 of_int_0)+
  from False assms(2,3) have "0 \<le> a" "0 \<le> b" by (cases w; simp add: fits_def)+
  then show ?thesis
    using assms(1) False z uint_repr [OF assms(2) False] uint_repr [OF assms(3) False]
    by (cases "is_64bit w") (auto simp: repr_def of_op_def smod_mod_positive)
qed

lemma remainder_fits:
  assumes "fits w a" "fits w b" "b \<noteq> 0"
  shows "fits w (a smod b)"
proof -
  from abs_smod_less [OF assms(3), of a] have "\<bar>a smod b\<bar> < \<bar>b\<bar>" .
  moreover have "0 \<le> a \<Longrightarrow> 0 \<le> b \<Longrightarrow> 0 \<le> a smod b" using assms(3) smod_int_compares(2) [of a b] by simp
  ultimately show ?thesis using assms(1,2) by (cases w) (auto simp: fits_def)
qed

lemma negate_exact:
  assumes "emit_negate (TInt w) = Some (pre, post)"
  shows "exec fs pre (ls, st) = Ok (ls, repr w 0 # st)"
    and "is_64bit w \<Longrightarrow> exec fs post (ls, repr w a # repr w 0 # st) = Ok (ls, repr w (- a) # st)"
    and "\<not> is_64bit w \<Longrightarrow> exec fs post (ls, repr w a # repr w 0 # st) = Ok (ls, repr w (wrap w (- a)) # st)"
  using assms exec_truncate [of w fs ls "- a" st] by (auto simp: repr_def of_op_def split: if_splits)

end
