(* ===== verification/Interpreter_Properties.thy ===== *)
theory Interpreter_Properties
  imports Interpreter_Bound Interpreter_Ops Wasm_Arith_Sound
begin

text \<open>The properties of the interpreter, and how its operators compare with the generated code.\<close>

section \<open>Evaluation\<close>

text \<open>\<^verbatim>\<open>{ let mut x = 127; while (x < 130) { x = x + 1; } return x; }\<close>\<close>

definition demo_sp :: "'a \<Rightarrow> 'a Spanned" where
  "demo_sp e = Spanned e DUMMY_SPAN"

definition demo_x :: Identifier where
  "demo_x = Identifier ''x'' DUMMY_SPAN"

definition demo_var :: TypedExpr where
  "demo_var = TypedExpr (TInt I64) (X_ScopedName [demo_x] None)"

definition demo_lit :: "string \<Rightarrow> TypedExpr" where
  "demo_lit d = TypedExpr (TInt I64) (X_Literal (L_Integer (IntegerLiteral d Decimal)))"

definition demo_body :: TypedBlock where
  "demo_body = TypedBlock [TS_Assignment demo_x (demo_sp (TypedExpr (TInt I64)
     (X_Binary Add (demo_sp demo_var) (demo_sp (demo_lit ''1'')))))] None"

definition demo_block :: TypedBlock where
  "demo_block = TypedBlock
     [TS_VariableDeclaration False True (TP_Binding demo_x) (demo_sp (demo_lit ''127'')) None,
      TS_While (demo_sp (TypedExpr TBool (X_Binary Less (demo_sp demo_var) (demo_sp (demo_lit ''130''))))) demo_body,
      TS_Return (Some (demo_sp demo_var))] None"

lemmas demo_defs = demo_sp_def demo_x_def demo_var_def demo_lit_def demo_body_def demo_block_def

lemma demo_lit_typed: "typed G R (demo_lit ''127'')" "typed G R (demo_lit ''130'')" "typed G R (demo_lit ''1'')"
  unfolding demo_lit_def by (rule t_literal, rule literal_typed.intros(1), code_simp, code_simp)+

lemma demo_var_typed: "G ''x'' = Some (TInt I64) \<Longrightarrow> typed G R demo_var"
  unfolding demo_var_def by (rule t_name [of _ demo_x]) (simp_all add: demo_x_def last_opt_def)

lemma demo_typed: "typed_block Map.empty (TInt I64) demo_block"
proof -
  let ?G = "Map.empty(''x'' \<mapsto> TInt I64)"
  have ty: "expr_ty demo_var = TInt I64" "\<And>d. expr_ty (demo_lit d) = TInt I64" "id_name demo_x = ''x''" "\<And>e. sp_node (demo_sp e) = e"
    by (simp_all add: demo_var_def demo_lit_def demo_x_def demo_sp_def)
  have "typed_statement ?G (TInt I64) (TS_Assignment demo_x (demo_sp (TypedExpr (TInt I64)
     (X_Binary Add (demo_sp demo_var) (demo_sp (demo_lit ''1'')))))) ?G"
    by (rule t_assignment) (simp_all add: ty t_arithmetic demo_lit_typed demo_var_typed arithmetic_def)
  then have body: "typed_block ?G (TInt I64) demo_body"
    unfolding demo_body_def by (intro t_contents) (auto intro: t_nil t_cons)
  have cond: "typed ?G (TInt I64) (TypedExpr TBool (X_Binary Less (demo_sp demo_var) (demo_sp (demo_lit ''130''))))"
    by (rule t_comparison [OF _ _ _ _ refl]) (simp_all add: ty demo_lit_typed demo_var_typed comparison_def)
  have "typed_statement Map.empty (TInt I64) (TS_VariableDeclaration False True (TP_Binding demo_x) (demo_sp (demo_lit ''127'')) None) ?G"
    by (rule t_let) (use pattern_typed.intros(1) [of demo_x "TInt I64" Map.empty] in \<open>simp_all add: ty demo_lit_typed\<close>)
  moreover have "typed_statement ?G (TInt I64)
      (TS_While (demo_sp (TypedExpr TBool (X_Binary Less (demo_sp demo_var) (demo_sp (demo_lit ''130''))))) demo_body) ?G"
    by (rule t_while) (simp_all add: ty cond body)
  moreover have "typed_statement ?G (TInt I64) (TS_Return (Some (demo_sp demo_var))) ?G"
    by (rule t_return) (simp_all add: ty demo_var_typed)
  ultimately show ?thesis unfolding demo_block_def by (intro t_contents) (auto intro: t_nil t_cons)
qed

text \<open>
C7: the interpreter on a typed block, in a typed environment, panics only on arithmetic: an overflow or a division by zero;
a variable is found, an operand has the kind its operator needs, a let pattern without an else branch matches. Otherwise
it ends with a value of the type of the block, which a block that diverges for the type checker never does, or returns
with a value of the result type of the function; and every cell still holds a value of its type.
\<close>

theorem interpreter_type_sound:
  assumes "typed_block G R b" "store_typed S s" "env_typed G S locals" "eval_block n b locals s = Some r"
  shows "r = Err Overflow \<or> r = Err Division_by_zero
    \<or> (\<exists>f s' S'. r = Ok (f, s') \<and> prefix S S' \<and> store_typed S' s'
        \<and> (case f of Continue v \<Rightarrow> value_typed (TypedBlock_ty b) v \<and> \<not> block_diverges b | Break v \<Rightarrow> value_typed R v))"
proof (cases r)
  case (Ok x)
  obtain f s' where x: "x = (f, s')" by (cases x)
  with te.evb_typed [OF assms(1-3), of n] assms(4) Ok obtain S' where "prefix S S'" "store_typed S' s'"
    "case f of Continue v \<Rightarrow> value_typed (TypedBlock_ty b) v | Break v \<Rightarrow> value_typed R v"
    by (auto simp: delivers_def)
  moreover have "\<not> block_diverges b" if "f = Continue v" for v
    using te.evb_stops [of b n locals s] assms(4) Ok x that by (auto simp: stops_def)
  ultimately show ?thesis using Ok x by (cases f) auto
qed (use te.evb_typed [OF assms(1-3), of n] assms(4) in \<open>auto simp: delivers_def\<close>)

lemma demo_run: "eval_block 8 demo_block Map.empty [] = Some (Ok (Break (V_Number 130), [V_Number 130]))"
  unfolding demo_defs by code_simp

theorem interpreter_type_sound_witness:
  "\<exists>v. eval_block 8 demo_block Map.empty [] = Some (Ok (Break v, [v])) \<and> value_typed (TInt I64) v"
  using interpreter_type_sound [OF demo_typed _ _ demo_run, of "[]"] demo_run
  by (auto simp: store_typed_def env_typed_def)

text \<open>
The bound of the interpreter model only cuts runs off: a larger bound never changes a result, and a block without
loops, however deep, has returned once the bound exceeds its size.
\<close>

theorem interpreter_bound:
  "(\<forall>r m. eval_block n b locals s = Some r \<and> n \<le> m \<longrightarrow> eval_block m b locals s = Some r)
   \<and> (loop_free_block b \<and> size b < n \<longrightarrow> (\<exists>r. eval_block n b locals s = Some r))"
  using le.evb_extends [of n b locals s] rt.evb_returns [of b n locals s]
  by (auto simp: extends_to_def returns_def dest: le_Suc_ex)

theorem interpreter_bound_witness:
  "eval_block (8 + 100) demo_block Map.empty [] = Some (Ok (Break (V_Number 130), [V_Number 130]))
   \<and> loop_free_block demo_body \<and> (\<exists>r. eval_block 100 demo_body Map.empty [] = Some r)"
proof -
  have "eval_block (8 + 100) demo_block Map.empty [] = Some (Ok (Break (V_Number 130), [V_Number 130]))"
    using interpreter_bound [of 8 demo_block Map.empty "[]"] demo_run by simp
  moreover have l: "loop_free_block demo_body" by (simp add: demo_defs)
  moreover have "size demo_body < 100" by (simp add: demo_defs size_sp_node)
  ultimately show ?thesis using interpreter_bound [of 100 demo_body Map.empty "[]"] by blast
qed

section \<open>Operators\<close>

text \<open>
C39: division in the interpreter rounds towards minus infinity and the remainder has the sign of the divisor, as the language
specification says; both panic on zero, the quotient when it is not an i64, and the remainder also when
the quotient times the divisor is not, although the remainder itself always is.
\<close>

theorem interpreter_division_floors:
  assumes "fits I64 a" "fits I64 b"
  shows "value_binary Divide (V_Number (word_of_int a)) (V_Number (word_of_int b)) =
      (if b = 0 then Err Division_by_zero else if fits I64 (a div b) then Ok (V_Number (word_of_int (a div b))) else Err Overflow)
    \<and> value_binary Remainder (V_Number (word_of_int a)) (V_Number (word_of_int b)) =
      (if b = 0 then Err Division_by_zero
       else if fits I64 (a div b) \<and> fits I64 (a div b * b) then Ok (V_Number (word_of_int (a mod b))) else Err Overflow)"
  using value_div_exact [OF assms] value_rem_exact [OF assms] by (simp add: number_def)

theorem interpreter_division_floors_witness:
  "value_binary Divide (V_Number (word_of_int (- 7))) (V_Number (word_of_int 2)) = Ok (V_Number (word_of_int (- 4)))
   \<and> value_binary Remainder (V_Number (word_of_int (- 7))) (V_Number (word_of_int 2)) = Ok (V_Number (word_of_int 1))"
proof -
  have "fits I64 (- 7)" "fits I64 2" "fits I64 (- 4)" "fits I64 (- 8)" "- 7 div 2 = (- 4 :: int)" "- 7 mod 2 = (1 :: int)"
    by (simp_all add: fits_def)
  with interpreter_division_floors [of "- 7" 2] show ?thesis by simp
qed

text \<open>The smallest i64 has remainder 1 when divided by 3, but the interpreter panics.\<close>

lemma interpreter_remainder_overflows:
  "value_binary Remainder (V_Number (word_of_int (min_value I64))) (V_Number (word_of_int 3)) = Err Overflow
   \<and> min_value I64 mod 3 = 1"
  by code_simp

text \<open>Addition of two i8 values is at 64 bits in the interpreter: 127 + 1 is 128.\<close>

lemma interpreter_ignores_width:
  "eval 2 (TypedExpr (TInt I8) (X_Binary Add
       (demo_sp (TypedExpr (TInt I8) (X_Literal (L_Integer (IntegerLiteral ''127'' Decimal)))))
       (demo_sp (TypedExpr (TInt I8) (X_Literal (L_Integer (IntegerLiteral ''1'' Decimal))))))) Map.empty []
     = Some (Ok (Continue (V_Number 128), []))
   \<and> \<not> fits I8 128"
  by code_simp

section \<open>The interpreter and the generated code\<close>

fun wasm_vals :: "IValue \<Rightarrow> val list" where
  "wasm_vals V_Unit = []"
| "wasm_vals (V_Number k) = [V64 k]"
| "wasm_vals (V_Boolean b) = [bool_val b]"

text \<open>The operands on which the two agree: for / and % those on which rounding towards minus infinity and towards
  zero are the same (an exact quotient, or operands of the same sign), less the one remainder whose quotient is out of
  range, and a zero divisor, which both refuse.\<close>

fun agrees :: "BinaryOp \<Rightarrow> int \<Rightarrow> int \<Rightarrow> bool" where
  "agrees Divide a b = (b = 0 \<or> b dvd a \<or> (a < 0) = (b < 0))"
| "agrees Remainder a b = (b = 0 \<or> (b dvd a \<or> (a < 0) = (b < 0)) \<and> \<not> (a = min_value I64 \<and> b = - 1))"
| "agrees op a b = True"

lemma div_sdiv:
  fixes a b :: int
  assumes "b \<noteq> 0"
  shows "a div b = (if b dvd a \<or> (a < 0) = (b < 0) then a sdiv b else a sdiv b - 1)"
proof -
  consider "a \<ge> 0" "b > 0" | "a < 0" "b < 0" | "a < 0" "b > 0" | "a \<ge> 0" "b < 0" using assms by linarith
  then show ?thesis
  proof cases
    case 3
    have "b dvd a = (- a mod b = 0)" by (simp add: dvd_eq_mod_eq_0 [symmetric])
    with 3 show ?thesis using zdiv_zminus1_eq_if [of b "- a"] by (simp add: signed_divide_int_def)
  next
    case 4
    have "b dvd a = (a mod (- b) = 0)" by (simp add: dvd_eq_mod_eq_0 [symmetric])
    with 4 show ?thesis using zdiv_zminus2_eq_if [of "- b" a] by (cases "a = 0") (simp_all add: signed_divide_int_def)
  qed (auto simp: signed_divide_int_def sgn_if)
qed

lemma mod_smod:
  fixes a b :: int
  assumes "b \<noteq> 0"
  shows "a mod b = (if b dvd a \<or> (a < 0) = (b < 0) then a smod b else a smod b + b)"
  using sdiv_mult_smod_eq [of a b] div_mult_mod_eq [of a b] div_sdiv [OF assms, of a]
  by (auto simp: algebra_simps split: if_splits)

lemma mod_fits:
  assumes "fits I64 b" "b \<noteq> 0"
  shows "fits I64 (a mod b)"
proof (cases "0 < b")
  case True
  from pos_mod_sign [OF True, of a] pos_mod_bound [OF True, of a] assms(1) show ?thesis
    by (simp add: fits_def)
next
  case False
  with assms(2) have b: "b < 0" by simp
  from neg_mod_sign [OF b, of a] neg_mod_bound [OF b, of a] assms(1) show ?thesis by (simp add: fits_def)
qed

lemma word_of_fits_eq:
  assumes "fits I64 x" "fits I64 y"
  shows "(word_of_int x = (word_of_int y :: u64)) = (x = y)"
proof
  assume "word_of_int x = (word_of_int y :: u64)"
  then have "sint (word_of_int x :: u64) = sint (word_of_int y :: u64)" by simp
  then show "x = y" using sint_repr(1) [OF assms(1)] sint_repr(1) [OF assms(2)] by simp
qed simp

lemma product_fits:
  assumes "fits I64 a" "b \<noteq> 0"
  shows "fits I64 (a sdiv b * b)"
proof -
  have "a sdiv b * b = sgn a * (\<bar>a\<bar> div \<bar>b\<bar> * \<bar>b\<bar>)"
    by (simp add: signed_divide_int_def mult.assoc) (simp add: mult.left_commute sgn_mult_abs abs_sgn mult.commute)
  moreover have "0 \<le> \<bar>a\<bar> div \<bar>b\<bar> * \<bar>b\<bar>" using assms(2) by (simp add: pos_imp_zdiv_nonneg_iff)
  moreover have "\<bar>a\<bar> div \<bar>b\<bar> * \<bar>b\<bar> \<le> \<bar>a\<bar>"
    using div_mult_mod_eq [of "\<bar>a\<bar>" "\<bar>b\<bar>"] pos_mod_sign [of "\<bar>b\<bar>" "\<bar>a\<bar>"] assms(2) by linarith
  ultimately show ?thesis using assms(1) by (auto simp: fits_def sgn_if abs_if split: if_splits)
qed

text \<open>
C8: in a module with overflow checks, the code for a binary operator on two i64 values does what the interpreter does,
leaves the value of the interpreter on the stack or traps where the interpreter panics, exactly on the operands that
\<open>agrees\<close> describes: on all of them for + - * and the comparisons; for / and % on a zero divisor, an exact quotient
and operands of the same sign, with the exception of the smallest i64 % -1, where only the interpreter panics. On
every other pair of operands of / and % the two differ.
\<close>

theorem generated_code_agrees:
  assumes "intrinsics_ok c" "check_overflows c" "emit_binary op (TInt I64) (TInt I64) c = Some (is, c')"
    and "fits I64 a" "fits I64 b"
  shows "exec (callees_of c') is (ls, repr I64 b # repr I64 a # st)
    = (case value_binary op (V_Number (word_of_int a)) (V_Number (word_of_int b)) of
         Ok v \<Rightarrow> Ok (ls, wasm_vals v @ st)
       | _ \<Rightarrow> Err Trap) \<longleftrightarrow> agrees op a b"
proof -
  have s: "sint (word_of_int a :: u64) = a" "sint (word_of_int b :: u64) = b" using sint_repr(1) assms(4,5) by auto
  have r: "repr I64 k = V64 (word_of_int k)" for k by (simp add: repr_def is_64bit_def)
  from assms(3) have "op \<notin> {And, Or}" by auto
  then consider "overflowing op" | "comparing op" | "op = Divide" | "op = Remainder"
    by (cases op) (auto simp: overflowing_def comparing_def)
  then show ?thesis
  proof cases
    case 1
    then show ?thesis using wide_overflowing [OF assms(1,2) 1 assms(3) grows_refl assms(4,5)] s
      by (auto simp: overflowing_def number_def r)
  next
    case 2
    have "(word_of_int a = (word_of_int b :: u64)) = (a = b)" using s by metis
    with 2 show ?thesis using compare_exact(2) [OF 2 assms(3-5)] s
      by (auto simp: comparing_def cmp_int_def)
  next
    case 3
    with assms(3) have "emit_divide (TInt I64) (TInt I64) = Some is" by (auto split: option.splits)
    note code = divide_exact [OF this assms(4,5)]
    show ?thesis
    proof (cases "b = 0 \<or> (b dvd a \<or> (a < 0) = (b < 0))")
      case True
      with 3 code show ?thesis using value_div_exact [OF assms(4,5)] div_sdiv [of b a] by (auto simp: number_def r)
    next
      case False
      then have d: "a div b = a sdiv b - 1" "\<not> (a = min_value I64 \<and> b = - 1)" using div_sdiv [of b a] by auto
      then have f: "fits I64 (a sdiv b)" using quotient_fits [OF assms(4,5)] by simp
      have "fits I64 (a div b) \<Longrightarrow> word_of_int (a div b) \<noteq> (word_of_int (a sdiv b) :: u64)"
        using word_of_fits_eq [OF _ f, of "a div b"] d(1) by simp
      with False 3 code f show ?thesis using value_div_exact [OF assms(4,5)] by (auto simp: number_def r)
    qed
  next
    case 4
    with assms(3) have "emit_remainder (TInt I64) (TInt I64) = Some is" by (auto split: option.splits)
    note code = remainder_exact [OF this assms(4,5)]
    show ?thesis
    proof (cases "b = 0 \<or> (b dvd a \<or> (a < 0) = (b < 0))")
      case True
      show ?thesis
      proof (cases "b = 0 \<or> a = min_value I64 \<and> b = - 1")
        case True
        with 4 code show ?thesis using value_rem_exact [OF assms(4,5)] by (auto simp: fits_def)
      next
        case False
        with True have d: "a div b = a sdiv b" "a mod b = a smod b" using div_sdiv [of b a] mod_smod [of b a] by auto
        with False have "fits I64 (a div b)" "fits I64 (a div b * b)"
          using quotient_fits [OF assms(4,5)] product_fits [OF assms(4), of b] by auto
        with d False True 4 code show ?thesis using value_rem_exact [OF assms(4,5)] by (auto simp: r)
      qed
    next
      case False
      then have d: "a mod b = a smod b + b" using mod_smod [of b a] by auto
      have "fits I64 (a smod b)" "fits I64 (a mod b)"
        using False remainder_fits [OF assms(4,5)] mod_fits [OF assms(5)] by auto
      from word_of_fits_eq [OF this(2,1)] d False have "word_of_int (a mod b) \<noteq> (word_of_int (a smod b) :: u64)" by simp
      with False 4 code show ?thesis using value_rem_exact [OF assms(4,5)] by (auto simp: r)
    qed
  qed
qed

theorem generated_code_agrees_witness:
  "\<exists>is c'. emit_binary Divide (TInt I64) (TInt I64) (Compiler_new True) = Some (is, c')
     \<and> exec (callees_of c') is ([], [repr I64 (- 3), repr I64 (- 7)]) = Ok ([], [V64 2])
     \<and> exec (callees_of c') is ([], [repr I64 3, repr I64 (- 7)]) \<noteq> Ok ([], [V64 (- 3)])"
proof -
  obtain "is" c' where e: "emit_binary Divide (TInt I64) (TInt I64) (Compiler_new True) = Some (is, c')"
    using emit_binary_ok [of Divide] by blast
  have new: "intrinsics_ok (Compiler_new True)" "check_overflows (Compiler_new True)"
    by (simp_all add: intrinsics_ok_def checked_at_def Compiler_new_def)
  have v: "value_binary Divide (V_Number (word_of_int (- 7))) (V_Number (word_of_int (- 3))) = Ok (V_Number 2)"
    "value_binary Divide (V_Number (word_of_int (- 7))) (V_Number (word_of_int 3)) = Ok (V_Number (- 3))"
    by code_simp+
  have "agrees Divide (- 7) (- 3)" "\<not> agrees Divide (- 7) 3" "fits I64 (- 7)" "fits I64 (- 3)" "fits I64 3"
    by (simp_all add: fits_def)
  with generated_code_agrees [OF new e, of "- 7" "- 3" "[]" "[]"] generated_code_agrees [OF new e, of "- 7" 3 "[]" "[]"]
    v e show ?thesis by (auto simp: v)
qed

end
