(* ===== verification/Wasm_Properties.thy ===== *)
theory Wasm_Properties
  imports Wasm_Arith_Sound
begin

text \<open>The properties of the code for the operators.\<close>

lemma Compiler_new_ok [simp]: "intrinsics_ok (Compiler_new checks)" "check_overflows (Compiler_new True)"
  by (simp_all add: intrinsics_ok_def checked_at_def Compiler_new_def)

text \<open>
C36: with overflow checks on, the code for +, - and * on two i64 values leaves the exact result on the stack when it
is an i64 and traps otherwise; the checked function it calls is in the module, and a later request finds it again.
\<close>

theorem checked_arithmetic_exact:
  assumes "intrinsics_ok c" "check_overflows c" "overflowing op" "emit_binary op (TInt I64) (TInt I64) c = Some (is, c')"
    and "fits I64 a" "fits I64 b"
  shows "exec (callees_of c') is (ls, repr I64 b # repr I64 a # st)
      = (if fits I64 (int_op op a b) then Ok (ls, repr I64 (int_op op a b) # st) else Err Trap)
    \<and> intrinsics_ok c' \<and> emit_binary op (TInt I64) (TInt I64) c' = Some (is, c')"
proof -
  have "emit_binary op (TInt I64) (TInt I64) c' = Some (is, c')"
    using assms(2,3,4)
    by (cases op)
      (auto simp: overflowing_def is_64bit_def get_or_create_i64_add_checked_def get_or_create_i64_sub_checked_def
        get_or_create_i64_mul_checked_def add_function_def Let_def split: option.splits)
  with wide_overflowing [OF assms(1,2,3,4) grows_refl assms(5,6)] emit_binary_grows(1) [OF assms(1,4)] show ?thesis
    by simp
qed

theorem checked_arithmetic_exact_witness:
  "\<exists>is c'. emit_binary Multiply (TInt I64) (TInt I64) (Compiler_new True) = Some (is, c')
     \<and> exec (callees_of c') is ([], [repr I64 4294967296, repr I64 4294967296]) = Err Trap"
proof -
  obtain "is" c' where e: "emit_binary Multiply (TInt I64) (TInt I64) (Compiler_new True) = Some (is, c')"
    using emit_binary_ok [of Multiply] by blast
  from checked_arithmetic_exact [OF Compiler_new_ok(1) Compiler_new_ok(2) _ e, of 4294967296 4294967296 "[]" "[]"]
  have "exec (callees_of c') is ([], [repr I64 4294967296, repr I64 4294967296]) = Err Trap"
    by (simp add: overflowing_def fits_def)
  with e show ?thesis by blast
qed

text \<open>
C37: on the widths below 64 bits the code for +, - and * and for negation never traps and leaves the result wrapped
to the width, also when overflow checks are on; the module gains no function.
\<close>

theorem narrow_arithmetic_wraps:
  assumes "\<not> is_64bit w" "overflowing op"
  shows "(\<exists>is. emit_binary op (TInt w) (TInt w) c = Some (is, c)
        \<and> exec fs is (ls, repr w b # repr w a # st) = Ok (ls, repr w (wrap w (int_op op a b)) # st))
    \<and> (\<exists>pre post. emit_negate (TInt w) = Some (pre, post)
        \<and> exec fs pre (ls, st) = Ok (ls, repr w 0 # st)
        \<and> exec fs post (ls, repr w a # repr w 0 # st) = Ok (ls, repr w (wrap w (- a)) # st))"
proof -
  obtain "is" c' where e: "emit_binary op (TInt w) (TInt w) c = Some (is, c')"
    using emit_binary_ok [of op w w c] assms(2) by (auto simp: overflowing_def)
  obtain pre post where n: "emit_negate (TInt w) = Some (pre, post)" by (cases "emit_negate (TInt w)") auto
  from narrow_overflowing [OF assms(2,1) e] e negate_exact(1) [OF n] negate_exact(3) [OF n assms(1)] n show ?thesis by blast
qed

theorem narrow_arithmetic_wraps_witness:
  "\<exists>is. emit_binary Add (TInt I8) (TInt I8) (Compiler_new True) = Some (is, Compiler_new True)
     \<and> exec Map.empty is ([], [repr I8 1, repr I8 127]) = Ok ([], [repr I8 (- 128)])"
  using narrow_arithmetic_wraps [of I8 Add "Compiler_new True" Map.empty "[]" 1 127 "[]"]
  by (simp add: is_64bit_def overflowing_def wrap_def)

text \<open>
C40: the code for a comparison of two values of any integer width leaves 1 if the comparison of the two integers holds
and 0 otherwise, signed and unsigned widths alike, and it never traps.
\<close>

theorem comparison_exact:
  assumes "comparing op" "fits w a" "fits w b"
  shows "\<exists>is. emit_binary op (TInt w) (TInt w) c = Some (is, c)
    \<and> exec fs is (ls, repr w b # repr w a # st) = Ok (ls, bool_val (cmp_op op a b) # st)"
proof -
  obtain "is" c' where e: "emit_binary op (TInt w) (TInt w) c = Some (is, c')"
    using emit_binary_ok [of op w w c] assms(1) by (auto simp: comparing_def)
  from compare_exact [OF assms(1) e assms(2,3)] e show ?thesis by blast
qed

theorem comparison_exact_witness:
  "\<exists>is. emit_binary Less (TInt U8) (TInt U8) (Compiler_new True) = Some (is, Compiler_new True)
     \<and> exec Map.empty is ([], [repr U8 1, repr U8 200]) = Ok ([], [bool_val False])"
  using comparison_exact [of Less U8 200 1 "Compiler_new True" Map.empty "[]" "[]"]
  by (simp add: comparing_def fits_def)

text \<open>
C38: the code for / and % on two values of any integer width leaves the quotient truncated towards zero, and the
remainder with the sign of the dividend; it traps on a zero divisor and, for i32 and i64, on the one quotient that
is out of range. Every remainder is in range again, and so is every quotient but that one.
\<close>

theorem division_truncates:
  assumes "fits w a" "fits w b"
  shows "(\<exists>is. emit_divide (TInt w) (TInt w) = Some is
      \<and> exec fs is (ls, repr w b # repr w a # st)
        = (if b = 0 \<or> w \<in> {I32, I64} \<and> a = min_value w \<and> b = - 1 then Err Trap else Ok (ls, repr w (a sdiv b) # st)))
    \<and> (\<exists>is. emit_remainder (TInt w) (TInt w) = Some is
      \<and> exec fs is (ls, repr w b # repr w a # st) = (if b = 0 then Err Trap else Ok (ls, repr w (a smod b) # st)))
    \<and> (if b = 0 then True else fits w (a smod b))
    \<and> fits w (a sdiv b) = (\<not> (is_signed w \<and> a = min_value w \<and> b = - 1))"
proof -
  obtain d where d: "emit_divide (TInt w) (TInt w) = Some d" by simp
  obtain r where r: "emit_remainder (TInt w) (TInt w) = Some r" by simp
  have "(w \<in> {I32, I64} \<and> \<not> fits w (a sdiv b)) = (w \<in> {I32, I64} \<and> a = min_value w \<and> b = - 1)"
    unfolding quotient_fits [OF assms] by auto
  with divide_exact [OF d assms, of fs ls st] have "exec fs d (ls, repr w b # repr w a # st)
      = (if b = 0 \<or> w \<in> {I32, I64} \<and> a = min_value w \<and> b = - 1 then Err Trap else Ok (ls, repr w (a sdiv b) # st))"
    by simp
  with d r remainder_exact [OF r assms, of fs ls st] remainder_fits [OF assms] quotient_fits [OF assms] show ?thesis by auto
qed

theorem division_truncates_witness:
  "\<exists>is. emit_divide (TInt I64) (TInt I64) = Some is
     \<and> exec Map.empty is ([], [repr I64 2, repr I64 (- 7)]) = Ok ([], [repr I64 (- 3)])"
  using division_truncates [of I64 "- 7" 2 Map.empty "[]" "[]"] by (simp add: fits_def)

text \<open>
The overflow check of u64 arithmetic is the one of i64: adding 1 to 2^63 - 1 traps although the sum is a u64, and
adding 1 to the largest u64 leaves 0 without a trap.
\<close>

theorem u64_addition_checked_as_i64:
  "\<exists>is c. emit_binary Add (TInt U64) (TInt U64) (Compiler_new True) = Some (is, c)
     \<and> fits U64 (9223372036854775807 + 1)
     \<and> exec (callees_of c) is ([], [repr U64 1, repr U64 9223372036854775807]) = Err Trap
     \<and> exec (callees_of c) is ([], [repr U64 1, repr U64 (max_value U64)]) = Ok ([], [repr U64 0])"
proof -
  define c where "c = snd (get_or_create_i64_add_checked (Compiler_new True))"
  have c: "get_or_create_i64_add_checked (Compiler_new True) = (0, c)"
    by (simp add: c_def get_or_create_i64_add_checked_def add_function_def Compiler_new_def Let_def)
  then have e: "emit_binary Add (TInt U64) (TInt U64) (Compiler_new True) = Some ([Call 0], c)"
    by (simp add: is_64bit_def)
  have f: "callees_of c 0 = Some (2, run_function Map.empty add_checked_fn)"
    by (simp add: c_def callees_of_def get_or_create_i64_add_checked_def add_function_def Compiler_new_def Let_def
        add_checked_fn_def)
  have run: "exec (callees_of c) [Call 0] ([], [V64 y, V64 x]) = andthen (checked_result (sint x + sint y)) (\<lambda>vs. Ok ([], rev vs))" for x y
    by (cases "checked_result (sint x + sint y)") (simp_all add: do_call_def f add_checked_exact)
  have "exec (callees_of c) [Call 0] ([], [repr U64 1, repr U64 9223372036854775807]) = Err Trap"
    "exec (callees_of c) [Call 0] ([], [repr U64 1, repr U64 18446744073709551615]) = Ok ([], [repr U64 0])"
    using run [of 1 9223372036854775807] run [of 1 18446744073709551615]
    by (simp_all add: repr_def is_64bit_def checked_result_def fits_def del: exec.simps)
  moreover have "fits U64 (9223372036854775807 + 1)" by (simp add: fits_def)
  ultimately show ?thesis using e by (intro exI [of _ "[Call 0]"] exI [of _ c]) (simp only: max_value.simps simp_thms)
qed

text \<open>
The quotient of the smallest i8 or i16 and -1 is left out of the range of its type: the code does not trap, as
for i32 and i64, and does not wrap, as for the other operators.
\<close>

theorem narrow_quotient_out_of_range:
  "\<exists>is. emit_divide (TInt I8) (TInt I8) = Some is
     \<and> exec Map.empty is ([], [repr I8 (- 1), repr I8 (- 128)]) = Ok ([], [V32 128]) \<and> \<not> fits I8 128"
proof -
  obtain "is" where e: "emit_divide (TInt I8) (TInt I8) = Some is" by simp
  from divide_exact [OF e, of "- 128" "- 1" Map.empty "[]" "[]"] e show ?thesis
    by (simp add: fits_def repr_def is_64bit_def)
qed

end
