(* ===== verification/Type_Env.thy ===== *)
theory Type_Env
  imports Unify "HOL-Library.AList"
begin

text \<open>
  The environment of the type checker (\<^verbatim>\<open>typecheck/env.rs\<close>): the stack of local scopes and the tree of
  namespaces. A \<^verbatim>\<open>HashMap\<close> is an association list without duplicate keys; where the source iterates over
  one, in no particular order, the model goes in the order of the list. The stack of scopes has its top at
  the head. \<open>with_child\<close> is \<^verbatim>\<open>add_child\<close> followed by a method on the reference that it returns.
\<close>

section \<open>Data\<close>

record TypeParam =
  tparam_id :: TypeVarId
  tparam_name :: string

datatype BindingClass = BC_Local | BC_Storage

datatype BindingVisibility = BV_Private | BV_Public

record Binding =
  b_decl_span :: Span
  b_mutable :: bool
  b_scheme :: Scheme
  b_class :: BindingClass
  b_visibility :: BindingVisibility

record ConstantInfo =
  ci_span :: Span
  ci_ty :: Type
  ci_type_params :: "TypeParam list"
  ci_variant :: nat

record StructConstructor =
  sc_span :: Span
  sc_ty :: Type
  sc_type_params :: "TypeParam list"
  sc_enum_variant :: nat

record TypeEntry =
  entry_ty :: Type
  entry_span :: Span
  entry_type_params :: "TypeParam list"
  entry_doc :: "string option"
  entry_variant_docs :: "(string \<times> string) list"

datatype (plugins only: size code) Namespace =
  Namespace (namespaces: "(string \<times> Namespace) list") (constants: "(string \<times> ConstantInfo) list")
    (struct_constructors: "(string \<times> StructConstructor) list") (types: "(string \<times> TypeEntry) list")

record TypeEnv =
  scopes :: "(string \<times> Binding) list list"
  root :: Namespace

section \<open>Scopes\<close>

definition Namespace_default :: Namespace where
  "Namespace_default = Namespace [] [] [] []"

definition TypeEnv_new :: TypeEnv where
  "TypeEnv_new = \<lparr>scopes = [[]], root = Namespace_default\<rparr>"

definition push_scope :: "TypeEnv \<Rightarrow> TypeEnv" where
  "push_scope env = env\<lparr>scopes := [] # scopes env\<rparr>"

text \<open>\<^verbatim>\<open>Vec::pop\<close> does nothing on an empty vector.\<close>

definition pop_scope :: "TypeEnv \<Rightarrow> TypeEnv" where
  "pop_scope env = env\<lparr>scopes := tl (scopes env)\<rparr>"

definition env_insert :: "string \<Rightarrow> Binding \<Rightarrow> TypeEnv \<Rightarrow> ('e, TypeEnv) outcome" where
  "env_insert name binding env =
     (case scopes env of
        [] \<Rightarrow> Panic
      | scope # outer \<Rightarrow> Ok (env\<lparr>scopes := AList.update name binding scope # outer\<rparr>))"

fun scopes_get :: "(string \<times> Binding) list list \<Rightarrow> string \<Rightarrow> Binding option" where
  "scopes_get [] name = None"
| "scopes_get (scope # outer) name =
     (case map_of scope name of Some binding \<Rightarrow> Some binding | None \<Rightarrow> scopes_get outer name)"

definition env_get :: "TypeEnv \<Rightarrow> string \<Rightarrow> Binding option" where
  "env_get env name = scopes_get (scopes env) name"

definition get_in_current_scope :: "TypeEnv \<Rightarrow> string \<Rightarrow> Binding option" where
  "get_in_current_scope env name = (case scopes env of [] \<Rightarrow> None | scope # _ \<Rightarrow> map_of scope name)"

text \<open>The schemes that \<^verbatim>\<open>TypeEnv::free_type_vars\<close> visits.\<close>

definition env_schemes :: "TypeEnv \<Rightarrow> Scheme list list" where
  "env_schemes env = map (map (\<lambda>(name, binding). b_scheme binding)) (scopes env)"

section \<open>Constructors\<close>

definition ConstantInfo_new :: "Span \<Rightarrow> Type \<Rightarrow> ConstantInfo" where
  "ConstantInfo_new span ty = \<lparr>ci_span = span, ci_ty = ty, ci_type_params = [], ci_variant = 0\<rparr>"

definition TypeEntry_from :: "Type \<Rightarrow> TypeEntry" where
  "TypeEntry_from ty =
     \<lparr>entry_ty = ty, entry_span = DUMMY_SPAN, entry_type_params = [], entry_doc = None, entry_variant_docs = []\<rparr>"

definition sc_fields :: "StructConstructor \<Rightarrow> ('e, Type RecordFieldType list) outcome" where
  "sc_fields sc =
     (case sc_ty sc of
        TRecord r \<Rightarrow> Ok (record_fields r)
      | TEnum e \<Rightarrow>
          at (enum_variants e) (sc_enum_variant sc) (\<lambda>v.
          case variant_kind v of EV_Struct r \<Rightarrow> Ok r | _ \<Rightarrow> Panic)
      | _ \<Rightarrow> Panic)"

definition collision :: "string \<Rightarrow> Span \<Rightarrow> Span \<Rightarrow> TypeError" where
  "collision name span prev =
     with_secondary (TypeError_new (TypeAlreadyDefined name) span) prev ''previously defined here''"

definition collision2 :: "string \<Rightarrow> Span \<Rightarrow> Span \<Rightarrow> TypeError" where
  "collision2 name span prev =
     with_secondary (TypeError_new (FunctionAlreadyDefined name) span) prev ''previously defined here''"

section \<open>Namespaces\<close>

definition with_child ::
  "string \<Rightarrow> (Namespace \<Rightarrow> ('e, Namespace) outcome) \<Rightarrow> Namespace \<Rightarrow> ('e, Namespace) outcome" where
  "with_child name f ns =
     andthen (f (case map_of (namespaces ns) name of Some child \<Rightarrow> child | None \<Rightarrow> Namespace_default)) (\<lambda>child.
     Ok (Namespace (AList.update name child (namespaces ns)) (constants ns) (struct_constructors ns) (types ns)))"

text \<open>\<^verbatim>\<open>if let Some(old) = self.constants.insert(k, v) { return Err(collision2(k, span, old.span)) }\<close>, and
  the same for the other two maps.\<close>

definition put_constant :: "string \<Rightarrow> Span \<Rightarrow> ConstantInfo \<Rightarrow> Namespace \<Rightarrow> (TypeError, Namespace) outcome" where
  "put_constant k span v ns =
     (case map_of (constants ns) k of
        Some old \<Rightarrow> Err (collision2 k span (ci_span old))
      | None \<Rightarrow>
          Ok (Namespace (namespaces ns) (AList.update k v (constants ns)) (struct_constructors ns) (types ns)))"

definition put_struct_constructor ::
  "string \<Rightarrow> Span \<Rightarrow> StructConstructor \<Rightarrow> Namespace \<Rightarrow> (TypeError, Namespace) outcome" where
  "put_struct_constructor k span v ns =
     (case map_of (struct_constructors ns) k of
        Some old \<Rightarrow> Err (collision k span (sc_span old))
      | None \<Rightarrow>
          Ok (Namespace (namespaces ns) (constants ns) (AList.update k v (struct_constructors ns)) (types ns)))"

definition put_type :: "string \<Rightarrow> Span \<Rightarrow> TypeEntry \<Rightarrow> Namespace \<Rightarrow> (TypeError, Namespace) outcome" where
  "put_type k span v ns =
     (case map_of (types ns) k of
        Some old \<Rightarrow> Err (collision k span (entry_span old))
      | None \<Rightarrow>
          Ok (Namespace (namespaces ns) (constants ns) (struct_constructors ns) (AList.update k v (types ns))))"

definition insert_constant :: "Identifier \<Rightarrow> ConstantInfo \<Rightarrow> Namespace \<Rightarrow> (TypeError, Namespace) outcome" where
  "insert_constant name v ns = put_constant (id_name name) (id_span name) v ns"

definition insert_struct_constructor ::
  "Identifier \<Rightarrow> StructConstructor \<Rightarrow> Namespace \<Rightarrow> (TypeError, Namespace) outcome" where
  "insert_struct_constructor name v ns = put_struct_constructor (id_name name) (id_span name) v ns"

definition insert_type :: "Identifier \<Rightarrow> TypeEntry \<Rightarrow> Namespace \<Rightarrow> (TypeError, Namespace) outcome" where
  "insert_type name v ns = put_type (id_name name) (id_span name) v ns"

lemma fold_out_cong [fundef_cong]:
  "xs = ys \<Longrightarrow> (\<And>x s. x \<in> set ys \<Longrightarrow> f x s = g x s) \<Longrightarrow> fold_out f xs = fold_out g ys"
proof (induction ys arbitrary: xs)
  case (Cons y ys)
  then have "fold_out f ys = fold_out g ys" by simp
  with Cons.prems show ?case by auto
qed (auto simp: fun_eq_iff)

lemma size_child [termination_simp]:
  "(k, v) \<in> set ch \<Longrightarrow> size v < Suc (size_list (size_prod (\<lambda>_. 0) size) ch + m)"
  by (induction ch) auto

fun import_all_from :: "Namespace \<Rightarrow> Namespace \<Rightarrow> (TypeError, Namespace) outcome" where
  "import_all_from (Namespace children cs scs ts) = (\<lambda>ns.
     andthen (fold_out (\<lambda>(k, v). with_child k (import_all_from v)) children ns) (\<lambda>ns.
     andthen (fold_out (\<lambda>(k, v). put_constant k (ci_span v) v) cs ns) (\<lambda>ns.
     andthen (fold_out (\<lambda>(k, v). put_struct_constructor k (sc_span v) v) scs ns) (\<lambda>ns.
     fold_out (\<lambda>(k, v). put_type k (entry_span v) v) ts ns))))"

definition import_as_namespace :: "Identifier \<Rightarrow> Namespace \<Rightarrow> Namespace \<Rightarrow> (TypeError, Namespace) outcome" where
  "import_as_namespace name other ns = with_child (id_name name) (import_all_from other) ns"

text \<open>The local \<^verbatim>\<open>ok\<close> says whether any of the four maps has the name.\<close>

definition import_name_from ::
  "Identifier \<Rightarrow> Namespace \<Rightarrow> string \<Rightarrow> string \<Rightarrow> Namespace \<Rightarrow> (TypeError, Namespace) outcome" where
  "import_name_from name other their_name source ns =
     andthen (case map_of (namespaces other) their_name of
         Some child \<Rightarrow> import_as_namespace name child ns | None \<Rightarrow> Ok ns) (\<lambda>ns.
     andthen (case map_of (constants other) their_name of
         Some v \<Rightarrow> insert_constant name v ns | None \<Rightarrow> Ok ns) (\<lambda>ns.
     andthen (case map_of (struct_constructors other) their_name of
         Some v \<Rightarrow> insert_struct_constructor name v ns | None \<Rightarrow> Ok ns) (\<lambda>ns.
     andthen (case map_of (types other) their_name of
         Some v \<Rightarrow> insert_type name v ns | None \<Rightarrow> Ok ns) (\<lambda>ns.
     if map_of (namespaces other) their_name = None \<and> map_of (constants other) their_name = None
         \<and> map_of (struct_constructors other) their_name = None \<and> map_of (types other) their_name = None
     then Err (TypeError_new (UnknownImportFunction source their_name) (id_span name))
     else Ok ns))))"

fun get_child :: "Namespace \<Rightarrow> ScopedName \<Rightarrow> (TypeError, Namespace) outcome" where
  "get_child ns [] = Ok ns"
| "get_child ns (seg # path) =
     (case map_of (namespaces ns) (id_name seg) of
        Some nxt \<Rightarrow> get_child nxt path
      | None \<Rightarrow> Err (TypeError_new (UnknownNamespace (id_name seg)) (id_span seg)))"

definition get_abi :: "Namespace \<Rightarrow> Identifier \<Rightarrow> (TypeError, Type AbiType) outcome" where
  "get_abi ns name =
     (case map_of (types ns) (id_name name) of
        Some entry \<Rightarrow> (case entry_ty entry of
            TAbi abi \<Rightarrow> Ok abi
          | _ \<Rightarrow> Err (TypeError_new (UnknownAbi (id_name name)) (id_span name)))
      | None \<Rightarrow> Err (TypeError_new (UnknownAbi (id_name name)) (id_span name)))"

end
