(* ===== verification/Type_Builtins.thy ===== *)
theory Type_Builtins
  imports Type_Env
begin

text \<open>
  The built-in names (\<^verbatim>\<open>typecheck/builtins.rs\<close>): the prelude with the primitive types, \<^verbatim>\<open>Option\<close>, \<^verbatim>\<open>Result\<close>
  and the \<^verbatim>\<open>Token\<close> ABI, and the tree of packages for \<^verbatim>\<open>import\<close>. Ids come from the two counters, which
  the functions thread through.
\<close>

record BuiltinRegistry =
  prelude :: Namespace
  wit_tree :: Namespace

definition add_type :: "string \<Rightarrow> TypeEntry \<Rightarrow> Namespace \<Rightarrow> Namespace" where
  "add_type name v ns =
     Namespace (namespaces ns) (constants ns) (struct_constructors ns) (AList.update name v (types ns))"

definition add_constant :: "string \<Rightarrow> ConstantInfo \<Rightarrow> Namespace \<Rightarrow> Namespace" where
  "add_constant name v ns =
     Namespace (namespaces ns) (AList.update name v (constants ns)) (struct_constructors ns) (types ns)"

definition add_struct_constructor :: "string \<Rightarrow> StructConstructor \<Rightarrow> Namespace \<Rightarrow> Namespace" where
  "add_struct_constructor name v ns =
     Namespace (namespaces ns) (constants ns) (AList.update name v (struct_constructors ns)) (types ns)"

definition primitives :: "(string \<times> Type) list" where
  "primitives =
     [(''()'', TUnit), (''bool'', TBool),
      (''i8'', TInt I8), (''i16'', TInt I16), (''i32'', TInt I32), (''i64'', TInt I64),
      (''u8'', TInt U8), (''u16'', TInt U16), (''u32'', TInt U32), (''u64'', TInt U64),
      (''Utxo'', TUtxoAny), (''Token'', TTokenAny)]"

section \<open>Enums of the prelude\<close>

text \<open>One variant of the enum \<open>ty\<close>, in the namespace of the enum.\<close>

definition register_prelude_variant ::
  "Type \<Rightarrow> TypeParam list \<Rightarrow> nat \<times> string \<times> Type EnumVariantKind \<Rightarrow> Namespace \<Rightarrow> Namespace" where
  "register_prelude_variant ty type_params = (\<lambda>(i, name, kind) ns.
     (case kind of
        EV_Unit \<Rightarrow> add_constant name
          \<lparr>ci_span = DUMMY_SPAN, ci_ty = ty, ci_type_params = type_params, ci_variant = i\<rparr> ns
      | EV_Tuple params \<Rightarrow> add_constant name
          \<lparr>ci_span = DUMMY_SPAN,
           ci_ty = TFunction (FunctionType FK_Normal DUMMY_SPAN (from_types params) ty (Some (SF_Constructor i))),
           ci_type_params = type_params, ci_variant = 0\<rparr> ns
      | EV_Struct sfields \<Rightarrow> add_struct_constructor name
          \<lparr>sc_span = DUMMY_SPAN, sc_ty = ty, sc_type_params = type_params, sc_enum_variant = i\<rparr> ns))"

definition register_prelude_enum ::
  "string \<Rightarrow> (string \<times> Type EnumVariantKind) list \<Rightarrow> TypeParam list \<Rightarrow> string \<Rightarrow> (string \<times> string) list
    \<Rightarrow> Namespace \<Rightarrow> Namespace" where
  "register_prelude_enum name variants type_params doc variant_docs ns =
     (let ty = TEnum (EnumType (Identifier_anon name)
            (map (\<lambda>(vname, kind). EnumVariantType (Identifier_anon vname) kind) variants) []);
          ns = add_type name
            \<lparr>entry_ty = ty, entry_span = DUMMY_SPAN, entry_type_params = type_params, entry_doc = Some doc,
             entry_variant_docs = variant_docs\<rparr> ns;
          child = (case map_of (namespaces ns) name of Some c \<Rightarrow> c | None \<Rightarrow> Namespace_default)
      in Namespace
           (AList.update name (fold (register_prelude_variant ty type_params) (enumerate 0 variants) child) (namespaces ns))
           (constants ns) (struct_constructors ns) (types ns))"

definition option_variants :: "TypeVarId \<Rightarrow> (string \<times> Type EnumVariantKind) list" where
  "option_variants t = [(''None'', EV_Unit), (''Some'', EV_Tuple [TVar t])]"

definition result_variants :: "TypeVarId \<Rightarrow> TypeVarId \<Rightarrow> (string \<times> Type EnumVariantKind) list" where
  "result_variants t e = [(''Ok'', EV_Tuple [TVar t]), (''Err'', EV_Tuple [TVar e])]"

section \<open>The prelude\<close>

definition token_method :: "string \<Rightarrow> NameId \<Rightarrow> ('e, Type TypedAbiMethodDecl \<times> NameId) outcome" where
  "token_method name next_name_id =
     andthen (NameId_fresh next_name_id) (\<lambda>(i, next_name_id).
     Ok (TypedAbiMethodDecl (Identifier name DUMMY_SPAN) i
           (FunctionType FK_Normal DUMMY_SPAN [TypedFunctionParam_anon ''utxo'' TUtxoAny] TUnit (Some (SF_Named i))),
         next_name_id))"

definition register_prelude ::
  "Namespace \<Rightarrow> TypeVarId \<Rightarrow> NameId \<Rightarrow> ('e, Namespace \<times> TypeVarId \<times> NameId) outcome" where
  "register_prelude ns tv nid =
     (let ns = fold (\<lambda>(name, ty). add_type name (TypeEntry_from ty)) primitives ns in
     andthen (TypeVarId_fresh tv) (\<lambda>(t, tv).
     let ns = register_prelude_enum ''Option'' (option_variants t) [\<lparr>tparam_id = t, tparam_name = ''T''\<rparr>]
         ''A value that may or may not be present.''
         [(''Some'', ''Contains a value.''), (''None'', ''No value present.'')] ns in
     andthen (TypeVarId_fresh tv) (\<lambda>(t2, tv).
     andthen (TypeVarId_fresh tv) (\<lambda>(e, tv).
     let ns = register_prelude_enum ''Result'' (result_variants t2 e)
         [\<lparr>tparam_id = t2, tparam_name = ''T''\<rparr>, \<lparr>tparam_id = e, tparam_name = ''E''\<rparr>]
         ''A value representing either success or failure.''
         [(''Ok'', ''Contains a success value.''), (''Err'', ''Contains an error value.'')] ns in
     andthen (token_method ''attach'' nid) (\<lambda>(attach, nid).
     andthen (token_method ''detach'' nid) (\<lambda>(detach, nid).
     let ns = add_type ''Token''
         (TypeEntry_from (TAbi (AbiType (Identifier ''Token'' DUMMY_SPAN) [attach, detach]))) ns in
     Ok (ns, tv, nid)))))))"

section \<open>Packages\<close>

definition runtime_int :: "NameId \<Rightarrow> ConstantInfo" where
  "runtime_int i =
     ConstantInfo_new DUMMY_SPAN (TFunction (FunctionType FK_Runtime DUMMY_SPAN [] Type_int (Some (SF_Named i))))"

definition register_std_cardano :: "Namespace \<Rightarrow> NameId \<Rightarrow> ('e, Namespace \<times> NameId) outcome" where
  "register_std_cardano ns nid =
     andthen (NameId_fresh nid) (\<lambda>(i, nid).
     let ns = add_constant ''blockHeight'' (runtime_int i) ns in
     andthen (NameId_fresh nid) (\<lambda>(i, nid).
     Ok (add_constant ''currentSlot'' (runtime_int i) ns, nid)))"

definition singleton_namespace :: "string \<Rightarrow> Namespace \<Rightarrow> Namespace" where
  "singleton_namespace name child = Namespace [(name, child)] [] [] []"

definition BuiltinRegistry_new :: "(BuiltinRegistry \<times> TypeVarId \<times> NameId) total" where
  "BuiltinRegistry_new =
     andthen (register_prelude Namespace_default (TypeVarId 0) (NameId 0)) (\<lambda>(pre, tv, nid).
     andthen (register_std_cardano Namespace_default nid) (\<lambda>(cardano, nid).
     Ok (\<lparr>prelude = pre,
          wit_tree = singleton_namespace ''starstream'' (singleton_namespace ''std''
            (singleton_namespace ''cardano'' cardano))\<rparr>, tv, nid)))"

definition get_as_namespace ::
  "BuiltinRegistry \<Rightarrow> Identifier \<Rightarrow> Identifier \<Rightarrow> Identifier option \<Rightarrow> (TypeError, Namespace) outcome" where
  "get_as_namespace b namespace package interface =
     (let unknown = (\<lambda>i. TypeError_new (UnknownImportPackage (id_name namespace) (id_name package)) (id_span i)) in
     need (unknown namespace) (map_of (namespaces (wit_tree b)) (id_name namespace)) (\<lambda>ns.
     need (unknown package) (map_of (namespaces ns) (id_name package)) (\<lambda>ns.
     case interface of
       None \<Rightarrow> Ok ns
     | Some i \<Rightarrow>
         need (TypeError_new
             (UnknownImportInterface (id_name namespace) (id_name package) (id_name i)) (id_span i))
           (map_of (namespaces ns) (id_name i)) Ok)))"

end
