(* ===== verification/Infer_State.thy ===== *)
theory Infer_State
  imports Type_Builtins Lang_Typed_Ast
begin

text \<open>
  What inference threads through the walk over the syntax tree (\<^verbatim>\<open>typecheck/infer.rs\<close>): \<^verbatim>\<open>self\<close> is
  \<open>Checker\<close>, with the part for type variables in \<open>inferencer\<close>, \<^verbatim>\<open>env\<close> the environment and \<^verbatim>\<open>ctx\<close> the
  function whose body is checked. A method of \<^verbatim>\<open>Inferencer\<close> that may fail is an \<open>infer\<close>; an error
  carries no state.

  \<^verbatim>\<open>PointerMap\<close> identifies a node of the tree by its address: here by its position, the indices that lead
  to it from the list of definitions. The parameters of \<open>InferHost\<close> are those of \<open>Host\<close>, the length
  of an expression as the formatter prints it (the crate \<^verbatim>\<open>pretty\<close>), \<^verbatim>\<open>Span::union\<close> of the crate
  \<^verbatim>\<open>chumsky\<close>, and whether the allocation of a type is unique (\<^verbatim>\<open>Arc::get_mut\<close>).
\<close>

section \<open>State\<close>

record InferHost =
  type_host :: Host
  formatted_len :: "Expr Spanned \<Rightarrow> nat"
  span_union :: "Span \<Rightarrow> Span \<Rightarrow> Span"
  unique_arc :: "Type \<Rightarrow> bool"

type_synonym node = "nat list"

record AbiCallTracker =
  tracked_var :: string
  tracked_abi :: string
  first_call_span :: "Span option"

record Checker =
  warnings :: "TypeWarning list"
  inferencer :: Inferencer
  builtins :: BuiltinRegistry
  next_name_id :: NameId
  function_names :: "node \<rightharpoonup> NameId"
  typed_definitions :: "node \<rightharpoonup> TypedDefinition"
  abi_call_trackers :: "AbiCallTracker list"  \<comment> \<open>the top of the stack first\<close>

record FunctionCtx =
  expected_return :: Type
  return_span :: Span
  saw_return :: bool
  private_param_decl_spans :: "Span list"
  is_coroutine :: bool

record InferState =
  chk :: Checker
  env :: TypeEnv
  ctx :: FunctionCtx

type_synonym 'a infer = "InferState \<Rightarrow> (TypeError, 'a \<times> InferState) outcome"

section \<open>Composition\<close>

definition give :: "'a \<Rightarrow> 'a infer" where
  "give x = (\<lambda>s. Ok (x, s))"

definition fail :: "TypeError \<Rightarrow> 'a infer" where
  "fail e = (\<lambda>s. Err e)"

definition panic_here :: "'a infer" where
  "panic_here = (\<lambda>s. Panic)"

text \<open>The operator \<^verbatim>\<open>?\<close>.\<close>

definition chain :: "'a infer \<Rightarrow> ('a \<Rightarrow> 'b infer) \<Rightarrow> 'b infer" where
  "chain m k = (\<lambda>s. andthen (m s) (\<lambda>(x, s). k x s))"

text \<open>Reading the state, with a fallible function of it; updating it.\<close>

definition reads :: "(InferState \<Rightarrow> (TypeError, 'a) outcome) \<Rightarrow> 'a infer" where
  "reads f = (\<lambda>s. andthen (f s) (\<lambda>x. Ok (x, s)))"

definition asks :: "(InferState \<Rightarrow> 'a) \<Rightarrow> 'a infer" where
  "asks f = (\<lambda>s. Ok (f s, s))"

definition updates :: "(InferState \<Rightarrow> (TypeError, InferState) outcome) \<Rightarrow> unit infer" where
  "updates f = (\<lambda>s. andthen (f s) (\<lambda>s. Ok ((), s)))"

definition from_option :: "TypeError \<Rightarrow> 'a option \<Rightarrow> 'a infer" where
  "from_option e opt = (case opt of None \<Rightarrow> fail e | Some x \<Rightarrow> give x)"

definition unwrap :: "'a option \<Rightarrow> 'a infer" where
  "unwrap opt = (case opt of None \<Rightarrow> panic_here | Some x \<Rightarrow> give x)"

fun map_infer :: "('x \<Rightarrow> 'y infer) \<Rightarrow> 'x list \<Rightarrow> 'y list infer" where
  "map_infer f [] = give []"
| "map_infer f (x # xs) = chain (f x) (\<lambda>y. chain (map_infer f xs) (\<lambda>ys. give (y # ys)))"

fun fold_infer :: "('x \<Rightarrow> 'a \<Rightarrow> 'a infer) \<Rightarrow> 'x list \<Rightarrow> 'a \<Rightarrow> 'a infer" where
  "fold_infer f [] a = give a"
| "fold_infer f (x # xs) a = chain (f x a) (fold_infer f xs)"

section \<open>Parts of the state\<close>

definition set_inferencer :: "Inferencer \<Rightarrow> InferState \<Rightarrow> InferState" where
  "set_inferencer i s = s\<lparr>chk := (chk s)\<lparr>inferencer := i\<rparr>\<rparr>"

definition set_env :: "TypeEnv \<Rightarrow> InferState \<Rightarrow> InferState" where
  "set_env e s = s\<lparr>env := e\<rparr>"

definition set_root :: "Namespace \<Rightarrow> InferState \<Rightarrow> InferState" where
  "set_root ns s = s\<lparr>env := (env s)\<lparr>root := ns\<rparr>\<rparr>"

definition set_trackers :: "AbiCallTracker list \<Rightarrow> InferState \<Rightarrow> InferState" where
  "set_trackers ts s = s\<lparr>chk := (chk s)\<lparr>abi_call_trackers := ts\<rparr>\<rparr>"

definition set_saw_return :: "bool \<Rightarrow> InferState \<Rightarrow> InferState" where
  "set_saw_return b s = s\<lparr>ctx := (ctx s)\<lparr>saw_return := b\<rparr>\<rparr>"

definition add_warning :: "TypeWarning \<Rightarrow> InferState \<Rightarrow> InferState" where
  "add_warning w s = s\<lparr>chk := (chk s)\<lparr>warnings := warnings (chk s) @ [w]\<rparr>\<rparr>"

text \<open>Methods of the type variable part, on the whole state.\<close>

definition on_inferencer :: "(Inferencer \<Rightarrow> ('a \<times> Inferencer) total) \<Rightarrow> 'a infer" where
  "on_inferencer f = (\<lambda>s.
     andthen (lift (f (inferencer (chk s)))) (\<lambda>(x, i). Ok (x, set_inferencer i s)))"

definition apply_in :: "nat \<Rightarrow> Type \<Rightarrow> Type infer" where
  "apply_in n ty = reads (\<lambda>s. lift (apply_subst n (inferencer (chk s)) ty))"

definition display_in :: "nat \<Rightarrow> Type \<Rightarrow> Type infer" where
  "display_in n ty = reads (\<lambda>s. lift (apply_for_display n (inferencer (chk s)) ty))"

text \<open>\<open>unify_in\<close> and \<open>unify_arms\<close> return the unified type.\<close>

definition unify_in :: "nat \<Rightarrow> InferHost \<Rightarrow> Type \<Rightarrow> Type \<Rightarrow> Span \<Rightarrow> Span \<Rightarrow> TypeErrorKind \<Rightarrow> Type infer" where
  "unify_in n h left right left_span right_span kind = (\<lambda>s.
     andthen (unify n (type_host h) (inferencer (chk s)) left right left_span right_span kind) (\<lambda>(i, ty).
     Ok (ty, set_inferencer i s)))"

definition unify_arms :: "nat \<Rightarrow> InferHost \<Rightarrow> Type \<Rightarrow> Type \<Rightarrow> Span \<Rightarrow> Span \<Rightarrow> Type infer" where
  "unify_arms n h arm_ty first_ty arm_span first_span = (\<lambda>s.
     andthen (unify_match_arms n (type_host h) (inferencer (chk s)) arm_ty first_ty arm_span first_span) (\<lambda>(i, ty).
     Ok (ty, set_inferencer i s)))"

definition generalize_in :: "nat \<Rightarrow> Type \<Rightarrow> Scheme infer" where
  "generalize_in n ty = reads (\<lambda>s. lift (generalize n (inferencer (chk s)) (env_schemes (env s)) ty))"

definition instantiate_in :: "nat \<Rightarrow> Scheme \<Rightarrow> Type infer" where
  "instantiate_in n scheme = on_inferencer (\<lambda>i. instantiate n i scheme)"

definition fresh_var_in :: "Type infer" where
  "fresh_var_in = on_inferencer fresh_var"

definition bind_name :: "string \<Rightarrow> Binding \<Rightarrow> unit infer" where
  "bind_name name binding = updates (\<lambda>s. andthen (env_insert name binding (env s)) (\<lambda>e. Ok (set_env e s)))"

definition open_scope :: "unit infer" where
  "open_scope = updates (\<lambda>s. Ok (set_env (push_scope (env s)) s))"

definition close_scope :: "unit infer" where
  "close_scope = updates (\<lambda>s. Ok (set_env (pop_scope (env s)) s))"

definition lookup_namespace :: "ScopedName \<Rightarrow> Namespace infer" where
  "lookup_namespace path = reads (\<lambda>s. get_child (root (env s)) path)"

definition lookup_abi :: "Identifier \<Rightarrow> Type AbiType infer" where
  "lookup_abi name = reads (\<lambda>s. get_abi (root (env s)) name)"

text \<open>A change of the root namespace.\<close>

definition on_root :: "(Namespace \<Rightarrow> (TypeError, Namespace) outcome) \<Rightarrow> unit infer" where
  "on_root f = updates (\<lambda>s. andthen (f (root (env s))) (\<lambda>ns. Ok (set_root ns s)))"

definition fresh_name_id :: "NameId infer" where
  "fresh_name_id = (\<lambda>s.
     andthen (NameId_fresh (next_name_id (chk s))) (\<lambda>(i, nxt).
     Ok (i, s\<lparr>chk := (chk s)\<lparr>next_name_id := nxt\<rparr>\<rparr>)))"

text \<open>A local \<^verbatim>\<open>FunctionCtx\<close>: its final value beside the result, the caller's back in the state.\<close>

definition with_ctx :: "FunctionCtx \<Rightarrow> 'a infer \<Rightarrow> ('a \<times> FunctionCtx) infer" where
  "with_ctx c m = (\<lambda>s. andthen (m (s\<lparr>ctx := c\<rparr>)) (\<lambda>(x, t). Ok ((x, ctx t), t\<lparr>ctx := ctx s\<rparr>)))"

text \<open>\<^verbatim>\<open>slice::split_last\<close>\<close>

definition split_last :: "'a list \<Rightarrow> ('a \<times> 'a list) option" where
  "split_last xs = (if xs = [] then None else Some (last xs, butlast xs))"

text \<open>\<^verbatim>\<open>iter().map(..).collect::<HashMap<_, _>>()\<close>: a later value for a key replaces an earlier one.\<close>

definition collect_map :: "('k \<times> 'v) list \<Rightarrow> ('k \<times> 'v) list" where
  "collect_map xs = fold (\<lambda>(k, v). AList.update k v) xs []"

end
