(* ===== verification/Infer_Pattern.thy ===== *)
theory Infer_Pattern
  imports Infer_State
begin

text \<open>
  Names, type annotations and patterns in \<^verbatim>\<open>typecheck/infer.rs\<close>. As in \<open>Unify\<close>, \<open>n\<close> is the stack depth
  available; recursion on the syntax takes its recursive calls as arguments.
\<close>

section \<open>Type annotations\<close>

definition scoped_name_span :: "InferHost \<Rightarrow> ScopedName \<Rightarrow> Span" where
  "scoped_name_span h name =
     foldl (\<lambda>s i.
         if s = DUMMY_SPAN then id_span i
         else if id_span i = DUMMY_SPAN then s
         else span_union h s (id_span i)) DUMMY_SPAN name"

fun annotation_name_span :: "InferHost \<Rightarrow> TypeAnnotation \<Rightarrow> Span" where
  "annotation_name_span h (TA_Named name _) = scoped_name_span h name"
| "annotation_name_span h (TA_Tuple _ span) = span"

definition apply_type_args :: "nat \<Rightarrow> Type \<Rightarrow> TypeParam list \<Rightarrow> Type list \<Rightarrow> Type total" where
  "apply_type_args n template_ty type_params type_args =
     (let mapping = map_of (rev (zip (map tparam_id type_params) type_args)) in
     andthen (own (substitute_type n mapping {}) template_ty) (\<lambda>ty.
     Ok (case ty of
           TEnum e \<Rightarrow> TEnum (EnumType (enum_name e) (enum_variants e) type_args)
         | _ \<Rightarrow> ty)))"

fun type_from_annotation :: "nat \<Rightarrow> InferHost \<Rightarrow> TypeEnv \<Rightarrow> TypeAnnotation \<Rightarrow> (TypeError, Type) outcome" where
  "type_from_annotation n h e (TA_Tuple items span) =
     andthen (map_out (type_from_annotation n h e) items) (\<lambda>item_tys. Ok (TTuple item_tys))"
| "type_from_annotation n h e (TA_Named name generics) =
     andthen (map_out (type_from_annotation n h e) generics) (\<lambda>type_args.
     case split_last name of
       None \<Rightarrow> Panic
     | Some (lst, path) \<Rightarrow>
         andthen (get_child (root e) path) (\<lambda>ns.
         (case map_of (types ns) (id_name lst) of
            None \<Rightarrow> Err (TypeError_new (UnknownTypeAnnotation (id_name lst)) (scoped_name_span h name))
          | Some entry \<Rightarrow>
              if length (entry_type_params entry) \<noteq> length generics then
                Err (TypeError_new
                  (WrongGenericArity (id_name lst) (length (entry_type_params entry)) (length generics))
                  (scoped_name_span h name))
              else if entry_type_params entry = [] then Ok (entry_ty entry)
              else lift (apply_type_args n (entry_ty entry) (entry_type_params entry) type_args))))"

definition annotated_type :: "nat \<Rightarrow> InferHost \<Rightarrow> TypeAnnotation \<Rightarrow> Type infer" where
  "annotated_type n h annotation = reads (\<lambda>s. type_from_annotation n h (env s) annotation)"

text \<open>An optional return type.\<close>

definition return_annotation :: "nat \<Rightarrow> InferHost \<Rightarrow> TypeAnnotation option \<Rightarrow> Type infer" where
  "return_annotation n h annotation = (case annotation of None \<Rightarrow> give TUnit | Some ann \<Rightarrow> annotated_type n h ann)"

section \<open>Names\<close>

definition refresh_type_params :: "nat \<Rightarrow> Type \<Rightarrow> TypeParam list \<Rightarrow> Type infer" where
  "refresh_type_params n ty type_params =
     (if type_params = [] then give ty
      else
        chain (map_infer (\<lambda>_. fresh_var_in) type_params) (\<lambda>fresh_args.
        reads (\<lambda>s. lift (apply_type_args n ty type_params fresh_args))))"

definition lookup_struct_info :: "ScopedName \<Rightarrow> StructConstructor infer" where
  "lookup_struct_info name =
     chain (unwrap (split_last name)) (\<lambda>(lst, path).
     chain (lookup_namespace path) (\<lambda>ns.
     from_option (TypeError_new (UnknownStruct (id_name lst)) (id_span lst))
       (map_of (struct_constructors ns) (id_name lst))))"

definition lookup_name :: "nat \<Rightarrow> ScopedName \<Rightarrow> (Type \<times> nat option) infer" where
  "lookup_name n name =
     chain (unwrap (split_last name)) (\<lambda>(lst, path).
     chain (asks (\<lambda>s. if path = [] then env_get (env s) (id_name lst) else None)) (\<lambda>found.
     (case found of
        Some local \<Rightarrow> chain (instantiate_in n (b_scheme local)) (\<lambda>ty. give (ty, None))
      | None \<Rightarrow>
          chain (lookup_namespace path) (\<lambda>ns.
          (case map_of (constants ns) (id_name lst) of
             Some constant \<Rightarrow>
               chain (refresh_type_params n (ci_ty constant) (ci_type_params constant)) (\<lambda>ty.
               give (ty, Some (ci_variant constant)))
           | None \<Rightarrow> fail (TypeError_new (UnknownName (id_name lst)) (id_span lst)))))))"

definition bind_pattern_identifier ::
  "nat \<Rightarrow> Identifier \<Rightarrow> Type \<Rightarrow> bool \<Rightarrow> BindingVisibility \<Rightarrow> unit infer" where
  "bind_pattern_identifier n ident ty mutable visibility =
     chain (asks (\<lambda>s. get_in_current_scope (env s) (id_name ident))) (\<lambda>previous.
     if previous \<noteq> None then fail (TypeError_new (Redeclaration (id_name ident)) (id_span ident))
     else
       chain (generalize_in n ty) (\<lambda>scheme.
       bind_name (id_name ident)
         \<lparr>b_decl_span = id_span ident, b_mutable = mutable, b_scheme = scheme, b_class = BC_Local,
          b_visibility = visibility\<rparr>))"

section \<open>Fields by name\<close>

text \<open>The loop over the fields of a struct pattern or a struct literal keeps the fields seen so far, with
  their spans, and those still expected. \<open>take_field\<close> is what it does for one field before its value is
  visited; \<open>no_field_left\<close> is the check after it.\<close>

type_synonym 'v field_maps = "(string \<times> Span) list \<times> (string \<times> 'v) list"

definition take_field :: "string \<Rightarrow> Identifier \<Rightarrow> 'v field_maps \<Rightarrow> ('v \<times> 'v field_maps) infer" where
  "take_field struct_name name = (\<lambda>(seen, expected).
     (case map_of seen (id_name name) of
        Some previous_span \<Rightarrow>
          fail (with_secondary
            (with_primary_message (TypeError_new (DuplicateStructLiteralField (id_name name)) (id_span name)) ''duplicate'')
            previous_span ''first used here'')
      | None \<Rightarrow>
          let seen = AList.update (id_name name) (id_span name) seen in
          chain (from_option (TypeError_new (UnknownStructField struct_name (id_name name)) (id_span name))
              (map_of expected (id_name name))) (\<lambda>v.
          give (v, seen, AList.delete (id_name name) expected))))"

definition no_field_left :: "Identifier \<Rightarrow> (string \<times> 'v) list \<Rightarrow> unit infer" where
  "no_field_left struct_name expected =
     (case expected of
        [] \<Rightarrow> give ()
      | (name, _) # _ \<Rightarrow>
          fail (TypeError_new (MissingStructField (id_name struct_name) name) (id_span struct_name)))"

section \<open>Patterns\<close>

type_synonym infer_pat = "Pattern \<Rightarrow> Type \<Rightarrow> TypedPattern infer"

definition infer_name_pattern ::
  "nat \<Rightarrow> InferHost \<Rightarrow> Span \<Rightarrow> bool \<Rightarrow> BindingVisibility \<Rightarrow> ScopedName \<Rightarrow> Type \<Rightarrow> TypedPattern infer" where
  "infer_name_pattern n h value_span mutable visibility name expected_ty =
     chain (unwrap (split_last name)) (\<lambda>(lst, rest).
     chain (lookup_namespace rest) (\<lambda>ns.
     (case map_of (constants ns) (id_name lst) of
        Some constant \<Rightarrow>
          chain (unify_in n h expected_ty (ci_ty constant) value_span (id_span lst)
            (PatternEnumMismatch (id_name (if rest = [] then lst else last rest)) expected_ty)) (\<lambda>_.
          give (TP_Constant name (ci_variant constant)))
      | None \<Rightarrow>
          if rest = [] then
            chain (bind_pattern_identifier n lst expected_ty mutable visibility) (\<lambda>_. give (TP_Binding lst))
          else fail (TypeError_new (UnknownName (id_name lst)) (id_span lst)))))"

definition infer_literal_pattern :: "nat \<Rightarrow> InferHost \<Rightarrow> Span \<Rightarrow> Literal \<Rightarrow> Span \<Rightarrow> Type \<Rightarrow> TypedPattern infer" where
  "infer_literal_pattern n h value_span literal span expected_ty =
     chain (case literal of
         L_Integer i \<Rightarrow>
           if literal_value i = None then
             fail (TypeError_new (LiteralOutOfRange (IntegerLiteral_to_string i) Type_int) span)
           else give Type_int
       | L_Boolean _ \<Rightarrow> give TBool
       | L_Unit \<Rightarrow> give TUnit) (\<lambda>literal_ty.
     chain (display_in n expected_ty) (\<lambda>expected.
     chain (unify_in n h expected_ty literal_ty value_span span (GeneralMismatch expected literal_ty)) (\<lambda>_.
     give (TP_Literal literal))))"

definition infer_struct_field_pattern ::
  "infer_pat \<Rightarrow> string \<Rightarrow> Pattern StructPatternField
    \<Rightarrow> Type field_maps \<times> TypedPattern TypedStructPatternField list
    \<Rightarrow> (Type field_maps \<times> TypedPattern TypedStructPatternField list) infer" where
  "infer_struct_field_pattern P struct_name field = (\<lambda>(maps, typed_fields).
     (case field of StructPatternField name pattern \<Rightarrow>
        chain (take_field struct_name name maps) (\<lambda>(expected_ty, maps).
        chain (P pattern expected_ty) (\<lambda>typed_pattern.
        give (maps, typed_fields @ [TypedStructPatternField name typed_pattern])))))"

definition infer_struct_pattern ::
  "nat \<Rightarrow> InferHost \<Rightarrow> infer_pat \<Rightarrow> Span \<Rightarrow> ScopedName \<Rightarrow> Pattern StructPatternField list \<Rightarrow> Type \<Rightarrow> TypedPattern infer" where
  "infer_struct_pattern n h P value_span name sfields expected_ty =
     chain (lookup_struct_info name) (\<lambda>info.
     chain (unify_in n h expected_ty (sc_ty info) value_span (id_span (last name))
       (GeneralMismatch (sc_ty info) expected_ty)) (\<lambda>_.
     chain (reads (\<lambda>_. sc_fields info)) (\<lambda>expected.
     chain (fold_infer (infer_struct_field_pattern P (id_name (last name))) sfields
         (([], collect_map (map (\<lambda>fd. (id_name (field_name fd), field_ty fd)) expected)), [])) (\<lambda>((seen, left), typed_fields).
     chain (no_field_left (last name) left) (\<lambda>_.
     give (TP_Struct name typed_fields))))))"

text \<open>The constructor of a tuple variant.\<close>

definition lookup_tuple_constructor :: "ScopedName \<Rightarrow> nat \<Rightarrow> Type FunctionType infer" where
  "lookup_tuple_constructor name arity =
     chain (unwrap (split_last name)) (\<lambda>(lst, rest).
     let enum_name = (if rest = [] then ''<anonymous>>'' else id_name (last rest)) in
     chain (lookup_namespace rest) (\<lambda>ns.
     (case map_of (constants ns) (id_name lst) of
        None \<Rightarrow> fail (TypeError_new (UnknownName (id_name lst)) (id_span lst))
      | Some callee \<Rightarrow>
          (case ci_ty callee of
             TFunction func \<Rightarrow>
               (case fn_callee func of
                  Some (SF_Constructor _) \<Rightarrow>
                    if arity \<noteq> length (fn_params func) then
                      fail (TypeError_new
                        (EnumPayloadMismatch enum_name (id_name lst) (EPK_Tuple (length (fn_params func))) (EPK_Tuple arity))
                        (id_span lst))
                    else give func
                | _ \<Rightarrow> fail (TypeError_new (UnknownEnumVariant enum_name (id_name lst)) (id_span lst)))
           | _ \<Rightarrow> fail (TypeError_new (UnknownName (id_name lst)) (id_span lst))))))"

definition infer_tuple_pattern ::
  "nat \<Rightarrow> InferHost \<Rightarrow> infer_pat \<Rightarrow> Span \<Rightarrow> ScopedName \<Rightarrow> Pattern list \<Rightarrow> Type \<Rightarrow> TypedPattern infer" where
  "infer_tuple_pattern n h P value_span name patterns expected_ty =
     chain (lookup_tuple_constructor name (length patterns)) (\<lambda>func.
     chain (display_in n expected_ty) (\<lambda>found.
     chain (unify_in n h expected_ty (fn_result func) value_span (id_span (last name))
       (PatternEnumMismatch (if butlast name = [] then ''<anonymous>>'' else id_name (last (butlast name))) found)) (\<lambda>_.
     chain (map_infer (\<lambda>(pattern, param). P pattern (param_ty param)) (zip patterns (fn_params func))) (\<lambda>typed.
     give (TP_Tuple name typed)))))"

definition infer_anon_tuple_pattern ::
  "nat \<Rightarrow> InferHost \<Rightarrow> infer_pat \<Rightarrow> Span \<Rightarrow> Pattern list \<Rightarrow> Span \<Rightarrow> Type \<Rightarrow> TypedPattern infer" where
  "infer_anon_tuple_pattern n h P value_span patterns span expected_ty =
     chain (map_infer (\<lambda>_. fresh_var_in) patterns) (\<lambda>field_tys.
     chain (display_in n expected_ty) (\<lambda>found.
     chain (unify_in n h expected_ty (TTuple field_tys) value_span span
       (PatternTupleMismatch (length patterns) found)) (\<lambda>_.
     chain (map_infer (\<lambda>(pattern, ty). P pattern ty) (zip patterns field_tys)) (\<lambda>typed.
     give (TP_AnonTuple typed)))))"

fun infer_pattern_step ::
  "nat \<Rightarrow> InferHost \<Rightarrow> infer_pat \<Rightarrow> Span \<Rightarrow> bool \<Rightarrow> BindingVisibility \<Rightarrow> infer_pat" where
  "infer_pattern_step n h P value_span mutable visibility (P_Name name) ty =
     infer_name_pattern n h value_span mutable visibility name ty"
| "infer_pattern_step n h P value_span mutable visibility (P_Wildcard span) ty = give TP_Wildcard"
| "infer_pattern_step n h P value_span mutable visibility (P_Literal literal span) ty =
     infer_literal_pattern n h value_span literal span ty"
| "infer_pattern_step n h P value_span mutable visibility (P_Struct name sfields) ty =
     infer_struct_pattern n h P value_span name sfields ty"
| "infer_pattern_step n h P value_span mutable visibility (P_Tuple name patterns) ty =
     infer_tuple_pattern n h P value_span name patterns ty"
| "infer_pattern_step n h P value_span mutable visibility (P_AnonTuple patterns span) ty =
     infer_anon_tuple_pattern n h P value_span patterns span ty"

fun infer_pattern :: "nat \<Rightarrow> InferHost \<Rightarrow> Span \<Rightarrow> bool \<Rightarrow> BindingVisibility \<Rightarrow> infer_pat" where
  "infer_pattern 0 h value_span mutable visibility = (\<lambda>pattern ty. panic_here)"
| "infer_pattern (Suc n) h value_span mutable visibility =
     infer_pattern_step n h (infer_pattern n h value_span mutable visibility) value_span mutable visibility"

end
