(* ===== verification/Infer_Expr.thy ===== *)
theory Infer_Expr
  imports Infer_Pattern
begin

text \<open>
  Expressions in \<^verbatim>\<open>typecheck/infer.rs\<close>: one definition per arm of \<^verbatim>\<open>infer_expr\<close>, given the functions \<open>X\<close>
  and \<open>B\<close> that infer the expressions and the blocks in it.
\<close>

type_synonym infer_ex = "Expr Spanned \<Rightarrow> TypedExpr Spanned infer"
type_synonym infer_blk = "Block \<Rightarrow> bool \<Rightarrow> TypedBlock infer"

definition typed_node :: "Type \<Rightarrow> TypedExprKind \<Rightarrow> Span \<Rightarrow> TypedExpr Spanned" where
  "typed_node ty kind span = Spanned (TypedExpr ty kind) span"

definition ty_of :: "TypedExpr Spanned \<Rightarrow> Type" where
  "ty_of e = expr_ty (sp_node e)"

definition label_span_for_expr :: "InferHost \<Rightarrow> Expr Spanned \<Rightarrow> Span" where
  "label_span_for_expr h e =
     (let max_len = span_end (sp_span e) - span_start (sp_span e)
      in Span (span_start (sp_span e)) (span_start (sp_span e) + min (formatted_len h e) max_len))"

section \<open>Visibility\<close>

lemma size_init_value [termination_simp]:
  "StructFieldInitializer name v \<in> set fs
    \<Longrightarrow> size (sp_node v) < Suc (size_list (size_StructFieldInitializer size) fs)"
  by (induction fs) (auto simp: size_sp_node)

fun source_expr_visibility :: "TypeEnv \<Rightarrow> Expr \<Rightarrow> BindingVisibility" where
  "source_expr_visibility e (E_Literal _) = BV_Public"
| "source_expr_visibility e (E_ScopedName name) =
     (case name of
        [solo] \<Rightarrow> (case env_get e (id_name solo) of Some binding \<Rightarrow> b_visibility binding | None \<Rightarrow> BV_Private)
      | _ \<Rightarrow> BV_Private)"
| "source_expr_visibility e (E_Unary _ inner) = source_expr_visibility e (sp_node inner)"
| "source_expr_visibility e (E_Grouping inner) = source_expr_visibility e (sp_node inner)"
| "source_expr_visibility e (E_Binary _ left right) =
     (if source_expr_visibility e (sp_node left) = BV_Public \<and> source_expr_visibility e (sp_node right) = BV_Public
      then BV_Public else BV_Private)"
| "source_expr_visibility e (E_StructConstructor _ inits) =
     (if list_all (\<lambda>i. case i of StructFieldInitializer _ v \<Rightarrow> source_expr_visibility e (sp_node v) = BV_Public) inits
      then BV_Public else BV_Private)"
| "source_expr_visibility e (E_Tuple items) =
     (if list_all (\<lambda>item. source_expr_visibility e (sp_node item) = BV_Public) items then BV_Public else BV_Private)"
| "source_expr_visibility e (E_FieldAccess target _) = source_expr_visibility e (sp_node target)"
| "source_expr_visibility e (E_Disclose _) = BV_Public"
| "source_expr_visibility e _ = BV_Private"

definition private_parameter_rhs_name :: "TypeEnv \<Rightarrow> FunctionCtx \<Rightarrow> Expr \<Rightarrow> string option" where
  "private_parameter_rhs_name e c expr =
     (case expr of
        E_ScopedName [solo] \<Rightarrow>
          (case env_get e (id_name solo) of
             Some binding \<Rightarrow>
               if b_decl_span binding \<in> set (private_param_decl_spans c) then Some (id_name solo) else None
           | None \<Rightarrow> None)
      | _ \<Rightarrow> None)"

definition visibility_of :: "Expr Spanned \<Rightarrow> BindingVisibility infer" where
  "visibility_of e = asks (\<lambda>s. source_expr_visibility (env s) (sp_node e))"

section \<open>Checks on operands\<close>

definition is_int_like_in :: "Type \<Rightarrow> InferState \<Rightarrow> bool" where
  "is_int_like_in ty s = (case ty of TInt _ \<Rightarrow> True | TVar v \<Rightarrow> v \<in> int_vars (inferencer (chk s)) | _ \<Rightarrow> False)"

definition require_bool :: "nat \<Rightarrow> Type \<Rightarrow> Span \<Rightarrow> ConditionContext \<Rightarrow> unit infer" where
  "require_bool n ty span context =
     chain (display_in n ty) (\<lambda>applied.
     if applied = TBool then give () else fail (TypeError_new (ConditionNotBool context applied) span))"

definition require_is :: "nat \<Rightarrow> InferHost \<Rightarrow> Type \<Rightarrow> Type \<Rightarrow> Span \<Rightarrow> Span \<Rightarrow> TypeErrorKind \<Rightarrow> unit infer" where
  "require_is n h actual expected left_span right_span kind =
     chain (unify_in n h actual expected left_span right_span kind) (\<lambda>_. give ())"

text \<open>\<^verbatim>\<open>BinaryOperandMismatch\<close> with the displayed types; \<open>operand_error\<close> adds the labels.\<close>

definition operand_mismatch :: "nat \<Rightarrow> BinaryOp \<Rightarrow> Type \<Rightarrow> Type \<Rightarrow> TypeErrorKind infer" where
  "operand_mismatch n op left right =
     chain (display_in n left) (\<lambda>l. chain (display_in n right) (\<lambda>r. give (BinaryOperandMismatch op l r)))"

definition operand_error :: "nat \<Rightarrow> InferHost \<Rightarrow> BinaryOp \<Rightarrow> Type \<Rightarrow> Type \<Rightarrow> Span \<Rightarrow> Span \<Rightarrow> 'a infer" where
  "operand_error n h op left right left_span right_span =
     chain (display_in n left) (\<lambda>l. chain (display_in n right) (\<lambda>r.
     fail (with_secondary
       (with_primary_message (TypeError_new (BinaryOperandMismatch op l r) left_span)
         (''has type `'' @ compact_display (type_host h) l @ ''`''))
       right_span (''has type `'' @ compact_display (type_host h) r @ ''`''))))"

text \<open>\<^verbatim>\<open>require_numeric_or_bool_pair\<close> and \<^verbatim>\<open>require_same_primitive\<close>, which differ in their traces only.\<close>

definition require_numeric_or_bool_pair ::
  "nat \<Rightarrow> InferHost \<Rightarrow> BinaryOp \<Rightarrow> TypedExpr Spanned \<Rightarrow> Span \<Rightarrow> TypedExpr Spanned \<Rightarrow> Span \<Rightarrow> unit infer" where
  "require_numeric_or_bool_pair n h op left left_span right right_span =
     chain (apply_in n (ty_of left)) (\<lambda>left_ty.
     chain (apply_in n (ty_of right)) (\<lambda>right_ty.
     chain (asks (\<lambda>s. is_int_like_in left_ty s \<and> is_int_like_in right_ty s)) (\<lambda>both_int.
     if both_int then
       chain (operand_mismatch n op (ty_of left) (ty_of right)) (\<lambda>kind.
       chain (unify_in n h left_ty right_ty left_span right_span kind) (\<lambda>_. give ()))
     else if left_ty = TBool \<and> right_ty = TBool then give ()
     else operand_error n h op (ty_of left) (ty_of right) left_span right_span)))"

definition require_same_primitive ::
  "nat \<Rightarrow> InferHost \<Rightarrow> BinaryOp \<Rightarrow> TypedExpr Spanned \<Rightarrow> Span \<Rightarrow> TypedExpr Spanned \<Rightarrow> Span \<Rightarrow> unit infer" where
  "require_same_primitive n h op left left_span right right_span =
     chain (apply_in n (ty_of left)) (\<lambda>left_ty.
     chain (apply_in n (ty_of right)) (\<lambda>right_ty.
     chain (asks (\<lambda>s. is_int_like_in left_ty s \<and> is_int_like_in right_ty s)) (\<lambda>both_int.
     if both_int then
       chain (operand_mismatch n op (ty_of left) (ty_of right)) (\<lambda>kind.
       chain (unify_in n h left_ty right_ty left_span right_span kind) (\<lambda>_. give ()))
     else if left_ty = TBool \<and> right_ty = TBool then give ()
     else operand_error n h op (ty_of left) (ty_of right) left_span right_span)))"

section \<open>Literals, names, operators\<close>

fun infer_literal :: "Literal \<Rightarrow> Span \<Rightarrow> TypedExpr Spanned infer" where
  "infer_literal (L_Integer i) span =
     chain (on_inferencer (infer_int_literal i span)) (\<lambda>ty. give (typed_node ty (X_Literal (L_Integer i)) span))"
| "infer_literal (L_Boolean b) span = give (typed_node TBool (X_Literal (L_Boolean b)) span)"
| "infer_literal L_Unit span = give (typed_node TUnit (X_Literal L_Unit) span)"

definition infer_name :: "nat \<Rightarrow> ScopedName \<Rightarrow> Span \<Rightarrow> TypedExpr Spanned infer" where
  "infer_name n name span =
     chain (lookup_name n name) (\<lambda>(ty, constant). give (typed_node ty (X_ScopedName name constant) span))"

definition check_negate :: "nat \<Rightarrow> TypedExpr Spanned \<Rightarrow> Span \<Rightarrow> unit infer" where
  "check_negate n inner span =
     chain (apply_in n (ty_of inner)) (\<lambda>inner_ty.
     chain (asks (\<lambda>s. int_vars (inferencer (chk s)))) (\<lambda>ivs.
     (case inner_ty of
        TInt w \<Rightarrow>
          if is_signed w then give ()
          else fail (with_primary_message (TypeError_new (UnaryMismatch Negate Type_int (TInt w)) span)
                 (''cannot negate unsigned type `'' @ display_name w @ ''`''))
      | TVar v \<Rightarrow>
          if v \<in> ivs then give () else fail (TypeError_new (UnaryMismatch Negate Type_int inner_ty) span)
      | _ \<Rightarrow> fail (TypeError_new (UnaryMismatch Negate Type_int inner_ty) span))))"

definition infer_unary :: "nat \<Rightarrow> InferHost \<Rightarrow> infer_ex \<Rightarrow> UnaryOp \<Rightarrow> Expr Spanned \<Rightarrow> Span \<Rightarrow> TypedExpr Spanned infer" where
  "infer_unary n h X op inner span =
     chain (X inner) (\<lambda>typed_inner.
     chain (case op of
         Negate \<Rightarrow> check_negate n typed_inner (sp_span inner)
       | Not \<Rightarrow>
           chain (display_in n (ty_of typed_inner)) (\<lambda>found.
           require_is n h (ty_of typed_inner) TBool (sp_span inner) (sp_span inner) (UnaryMismatch op TBool found))) (\<lambda>_.
     give (typed_node (ty_of typed_inner) (X_Unary op typed_inner) span)))"

text \<open>The type of a binary expression, from its operands; \<open>left_ty\<close> and \<open>right_ty\<close> are resolved.\<close>

definition infer_arithmetic ::
  "nat \<Rightarrow> InferHost \<Rightarrow> BinaryOp \<Rightarrow> TypedExpr Spanned \<Rightarrow> TypedExpr Spanned \<Rightarrow> Type \<Rightarrow> Type \<Rightarrow> Span \<Rightarrow> Span \<Rightarrow> Type infer" where
  "infer_arithmetic n h op left right left_ty right_ty left_span right_span =
     chain (asks (\<lambda>s. is_int_like_in left_ty s \<and> is_int_like_in right_ty s)) (\<lambda>both_int.
     if \<not> both_int then operand_error n h op (ty_of left) (ty_of right) left_span right_span
     else
       chain (operand_mismatch n op (ty_of left) (ty_of right)) (\<lambda>kind.
       unify_in n h left_ty right_ty left_span right_span kind))"

definition infer_logical ::
  "nat \<Rightarrow> InferHost \<Rightarrow> BinaryOp \<Rightarrow> TypedExpr Spanned \<Rightarrow> TypedExpr Spanned \<Rightarrow> Type \<Rightarrow> Type \<Rightarrow> Span \<Rightarrow> Span \<Rightarrow> Type infer" where
  "infer_logical n h op left right left_ty right_ty left_span right_span =
     (if \<not> (left_ty = TBool \<and> right_ty = TBool) then
        operand_error n h op (ty_of left) (ty_of right) left_span right_span
      else
        chain (operand_mismatch n op (ty_of left) (ty_of right)) (\<lambda>kind.
        chain (require_is n h (ty_of left) TBool left_span left_span kind) (\<lambda>_.
        chain (operand_mismatch n op (ty_of left) (ty_of right)) (\<lambda>kind.
        chain (require_is n h (ty_of right) TBool right_span right_span kind) (\<lambda>_.
        give TBool)))))"

definition binary_type ::
  "nat \<Rightarrow> InferHost \<Rightarrow> BinaryOp \<Rightarrow> TypedExpr Spanned \<Rightarrow> TypedExpr Spanned \<Rightarrow> Type \<Rightarrow> Type \<Rightarrow> Span \<Rightarrow> Span \<Rightarrow> Type infer" where
  "binary_type n h op left right left_ty right_ty left_span right_span =
     (if op \<in> {Add, Subtract, Multiply, Divide, Remainder} then
        infer_arithmetic n h op left right left_ty right_ty left_span right_span
      else if op \<in> {Less, LessEqual, Greater, GreaterEqual} then
        chain (require_numeric_or_bool_pair n h op left left_span right right_span) (\<lambda>_. give TBool)
      else if op \<in> {Equal, NotEqual} then
        chain (require_same_primitive n h op left left_span right right_span) (\<lambda>_. give TBool)
      else infer_logical n h op left right left_ty right_ty left_span right_span)"

definition infer_binary ::
  "nat \<Rightarrow> InferHost \<Rightarrow> infer_ex \<Rightarrow> BinaryOp \<Rightarrow> Expr Spanned \<Rightarrow> Expr Spanned \<Rightarrow> Span \<Rightarrow> TypedExpr Spanned infer" where
  "infer_binary n h X op left right span =
     chain (X left) (\<lambda>typed_left.
     chain (X right) (\<lambda>typed_right.
     chain (apply_in n (ty_of typed_left)) (\<lambda>left_ty.
     chain (apply_in n (ty_of typed_right)) (\<lambda>right_ty.
     chain (binary_type n h op typed_left typed_right left_ty right_ty
         (label_span_for_expr h left) (label_span_for_expr h right)) (\<lambda>expr_type.
     give (typed_node expr_type (X_Binary op typed_left typed_right) span))))))"

definition infer_grouping :: "infer_ex \<Rightarrow> Expr Spanned \<Rightarrow> Span \<Rightarrow> TypedExpr Spanned infer" where
  "infer_grouping X inner span =
     chain (X inner) (\<lambda>typed_inner. give (typed_node (ty_of typed_inner) (X_Grouping typed_inner) span))"

definition infer_disclose :: "infer_ex \<Rightarrow> Expr Spanned \<Rightarrow> Span \<Rightarrow> TypedExpr Spanned infer" where
  "infer_disclose X inner span =
     chain (X inner) (\<lambda>typed_inner.
     chain (visibility_of inner) (\<lambda>visibility.
     chain (if visibility = BV_Public then
         updates (\<lambda>s. Ok (add_warning
           \<lparr>tw_kind = UnnecessaryDisclose, tw_span = span,
            tw_help = Some ''`disclose(...)` is redundant because the wrapped value is already public.''\<rparr> s))
       else give ()) (\<lambda>_.
     give (typed_node (ty_of typed_inner) (X_Disclose typed_inner) span))))"

section \<open>Tuples, structs, fields\<close>

definition infer_tuple :: "infer_ex \<Rightarrow> Expr Spanned list \<Rightarrow> Span \<Rightarrow> TypedExpr Spanned infer" where
  "infer_tuple X items span =
     chain (map_infer X items) (\<lambda>typed_items. give (typed_node (TTuple (map ty_of typed_items)) (X_Tuple typed_items) span))"

definition infer_field_init ::
  "nat \<Rightarrow> InferHost \<Rightarrow> infer_ex \<Rightarrow> string \<Rightarrow> Expr StructFieldInitializer
    \<Rightarrow> Type field_maps \<times> TypedExpr TypedStructFieldInitializer list
    \<Rightarrow> (Type field_maps \<times> TypedExpr TypedStructFieldInitializer list) infer" where
  "infer_field_init n h X struct_name i = (\<lambda>(maps, typed_inits).
     (case i of StructFieldInitializer name v \<Rightarrow>
        chain (take_field struct_name name maps) (\<lambda>(expected_ty, maps).
        chain (X v) (\<lambda>typed_value.
        chain (display_in n (ty_of typed_value)) (\<lambda>found.
        chain (unify_in n h (ty_of typed_value) expected_ty (sp_span v) (span_or name (sp_span v))
          (GeneralMismatch expected_ty found)) (\<lambda>_.
        give (maps, typed_inits @ [TypedStructFieldInitializer name typed_value])))))))"

definition infer_struct_constructor ::
  "nat \<Rightarrow> InferHost \<Rightarrow> infer_ex \<Rightarrow> ScopedName \<Rightarrow> Expr StructFieldInitializer list \<Rightarrow> Span \<Rightarrow> TypedExpr Spanned infer" where
  "infer_struct_constructor n h X name inits span =
     chain (lookup_struct_info name) (\<lambda>info.
     chain (reads (\<lambda>_. sc_fields info)) (\<lambda>expected.
     chain (fold_infer (infer_field_init n h X (id_name (last name))) inits
         (([], collect_map (map (\<lambda>fd. (id_name (field_name fd), field_ty fd)) expected)), [])) (\<lambda>((seen, left), typed_inits).
     chain (no_field_left (last name) left) (\<lambda>_.
     chain (refresh_type_params n (sc_ty info) (sc_type_params info)) (\<lambda>ty.
     give (typed_node ty (X_StructConstructor name typed_inits (sc_enum_variant info)) span))))))"

definition find_method :: "Type TypedAbiMethodDecl list \<Rightarrow> Identifier \<Rightarrow> Type TypedAbiMethodDecl option" where
  "find_method methods name = find (\<lambda>m. id_name (method_name m) = id_name name) methods"

text \<open>A method of the first ABI in the list that has it.\<close>

fun find_abi_method :: "Type AbiType list \<Rightarrow> Identifier \<Rightarrow> Type TypedAbiMethodDecl option" where
  "find_abi_method [] name = None"
| "find_abi_method (abi # abis) name =
     (case find_method (abi_methods abi) name of Some m \<Rightarrow> Some m | None \<Rightarrow> find_abi_method abis name)"

definition field_type :: "Type \<Rightarrow> Identifier \<Rightarrow> Span \<Rightarrow> (TypeError, Type) outcome" where
  "field_type target_ty name target_span =
     (let missing = (\<lambda>owner. TypeError_new (AbiMethodNotFound owner (id_name name)) (id_span name)) in
     (case target_ty of
        TRecord r \<Rightarrow>
          need (TypeError_new (FieldAccessUnknownField (id_name name) target_ty) (id_span name))
            (find (\<lambda>fd. id_name (field_name fd) = id_name name) (record_fields r)) (\<lambda>fd. Ok (field_ty fd))
      | TAbi abi \<Rightarrow>
          need (missing (id_name (abi_name abi))) (find_method (abi_methods abi) name) (\<lambda>m. Ok (TFunction (method_ty m)))
      | TUtxo utxo \<Rightarrow>
          need (missing (utxo_name utxo)) (find_abi_method (always_abis utxo) name) (\<lambda>m. Ok (TFunction (method_ty m)))
      | TToken token \<Rightarrow>
          need (missing (token_name token)) (find_method (token_methods token) name) (\<lambda>m. Ok (TFunction (method_ty m)))
      | _ \<Rightarrow> Err (TypeError_new (FieldAccessNotStruct target_ty) target_span)))"

definition infer_field_access :: "nat \<Rightarrow> infer_ex \<Rightarrow> Expr Spanned \<Rightarrow> Identifier \<Rightarrow> Span \<Rightarrow> TypedExpr Spanned infer" where
  "infer_field_access n X target name span =
     chain (X target) (\<lambda>typed_target.
     chain (display_in n (ty_of typed_target)) (\<lambda>target_ty.
     chain (reads (\<lambda>_. field_type target_ty name (sp_span target))) (\<lambda>ty.
     give (typed_node ty (X_FieldAccess typed_target name) span))))"

section \<open>Blocks, if, match, yield\<close>

definition infer_block_expr :: "infer_blk \<Rightarrow> Block \<Rightarrow> Span \<Rightarrow> TypedExpr Spanned infer" where
  "infer_block_expr B block span =
     chain (B block False) (\<lambda>typed_block. give (typed_node (TypedBlock_ty typed_block) (X_Block typed_block) span))"

text \<open>The span of the tail of a block, or that of the whole expression.\<close>

definition tail_span_or :: "TypedBlock \<Rightarrow> Span \<Rightarrow> Span" where
  "tail_span_or b span = (case block_tail b of Some tail \<Rightarrow> sp_span tail | None \<Rightarrow> span)"

definition merge_branch :: "nat \<Rightarrow> InferHost \<Rightarrow> Span \<Rightarrow> Type option \<Rightarrow> Type \<Rightarrow> Span \<Rightarrow> Type infer" where
  "merge_branch n h span result_ty branch_ty branch_span =
     (case result_ty of
        None \<Rightarrow> give branch_ty
      | Some current \<Rightarrow>
          chain (display_in n branch_ty) (\<lambda>found.
          unify_in n h current branch_ty branch_span span (GeneralMismatch current found)))"

definition infer_condition :: "nat \<Rightarrow> infer_ex \<Rightarrow> Expr Spanned \<Rightarrow> ConditionContext \<Rightarrow> TypedExpr Spanned infer" where
  "infer_condition n X condition context =
     chain (X condition) (\<lambda>typed_condition.
     chain (require_bool n (ty_of typed_condition) (sp_span condition) context) (\<lambda>_.
     give typed_condition))"

text \<open>\<^verbatim>\<open>if name is abi\<close>: the variable has the ABI as its type in the block, where one method call is allowed.\<close>

definition infer_is_branch ::
  "nat \<Rightarrow> infer_blk \<Rightarrow> Identifier \<Rightarrow> Identifier \<Rightarrow> Block \<Rightarrow> (TypedIfCondition \<times> TypedBlock) infer" where
  "infer_is_branch n B name narrowed then_branch =
     chain (asks (\<lambda>s. env_get (env s) (id_name name))) (\<lambda>found.
     chain (from_option (TypeError_new (UnknownName (id_name name)) (id_span name)) found) (\<lambda>binding.
     chain (apply_in n (scheme_ty (b_scheme binding))) (\<lambda>var_ty.
     chain (case var_ty of
         TUtxoAny \<Rightarrow> give ()
       | TUtxo _ \<Rightarrow> give ()
       | _ \<Rightarrow> chain (display_in n var_ty) (\<lambda>found. fail (TypeError_new (IsCheckRequiresUtxo (id_name name) found) (id_span name)))) (\<lambda>_.
     chain (lookup_abi narrowed) (\<lambda>abi.
     chain open_scope (\<lambda>_.
     chain (bind_name (id_name name)
       \<lparr>b_decl_span = id_span name, b_mutable = False, b_scheme = Scheme_monomorphic (TAbi abi),
        b_class = BC_Local, b_visibility = BV_Private\<rparr>) (\<lambda>_.
     chain (updates (\<lambda>s. Ok (set_trackers
       (\<lparr>tracked_var = id_name name, tracked_abi = id_name narrowed, first_call_span = None\<rparr>
         # abi_call_trackers (chk s)) s))) (\<lambda>_.
     chain (B then_branch False) (\<lambda>typed_then.
     chain (updates (\<lambda>s. Ok (set_trackers (tl (abi_call_trackers (chk s))) s))) (\<lambda>_.
     chain close_scope (\<lambda>_.
     give (TIC_Is name var_ty abi (id_span narrowed), typed_then))))))))))))"

definition infer_branch ::
  "nat \<Rightarrow> InferHost \<Rightarrow> infer_ex \<Rightarrow> infer_blk \<Rightarrow> Span \<Rightarrow> IfCondition \<times> Block
    \<Rightarrow> Type option \<times> (TypedIfCondition \<times> TypedBlock) list
    \<Rightarrow> (Type option \<times> (TypedIfCondition \<times> TypedBlock) list) infer" where
  "infer_branch n h X B span = (\<lambda>(condition, then_branch) (result_ty, typed_branches).
     chain (case condition of
         IC_Bool c \<Rightarrow>
           chain (infer_condition n X c CC_If) (\<lambda>typed_condition.
           chain (B then_branch False) (\<lambda>typed_then.
           give (TIC_Bool typed_condition, typed_then)))
       | IC_Is name narrowed \<Rightarrow> infer_is_branch n B name narrowed then_branch) (\<lambda>(typed_condition, typed_then).
     chain (merge_branch n h span result_ty (TypedBlock_ty typed_then) (tail_span_or typed_then span)) (\<lambda>merged.
     give (Some merged, typed_branches @ [(typed_condition, typed_then)]))))"

definition infer_if ::
  "nat \<Rightarrow> InferHost \<Rightarrow> infer_ex \<Rightarrow> infer_blk \<Rightarrow> (IfCondition \<times> Block) list \<Rightarrow> Block option \<Rightarrow> Span
    \<Rightarrow> TypedExpr Spanned infer" where
  "infer_if n h X B branches else_branch span =
     chain (fold_infer (infer_branch n h X B span) branches (None, [])) (\<lambda>(result_ty, typed_branches).
     chain (case else_branch of
         None \<Rightarrow> give None
       | Some block \<Rightarrow> chain (B block False) (\<lambda>typed_block. give (Some typed_block))) (\<lambda>typed_else.
     chain (merge_branch n h span result_ty
         (case typed_else of None \<Rightarrow> TUnit | Some b \<Rightarrow> TypedBlock_ty b)
         (case typed_else of None \<Rightarrow> span | Some b \<Rightarrow> tail_span_or b span)) (\<lambda>ty.
     give (typed_node ty (X_If typed_branches typed_else) span))))"

fun source_tail_span :: "Block \<Rightarrow> Span \<Rightarrow> Span" where
  "source_tail_span (Block stmts tail block_span) span = (case tail of Some e \<Rightarrow> sp_span e | None \<Rightarrow> span)"

definition infer_match_arm ::
  "nat \<Rightarrow> InferHost \<Rightarrow> infer_blk \<Rightarrow> Span \<Rightarrow> Span \<Rightarrow> Type \<Rightarrow> Block MatchArm
    \<Rightarrow> (Type \<times> Span) option \<times> TypedBlock TypedMatchArm list
    \<Rightarrow> ((Type \<times> Span) option \<times> TypedBlock TypedMatchArm list) infer" where
  "infer_match_arm n h B span scrutinee_span scrutinee_ty arm = (\<lambda>(result_ty, typed_arms).
     (case arm of MatchArm pattern body arm_span \<Rightarrow>
        chain open_scope (\<lambda>_.
        chain (infer_pattern n h scrutinee_span False BV_Private pattern scrutinee_ty) (\<lambda>typed_pattern.
        chain (B body False) (\<lambda>typed_block.
        chain close_scope (\<lambda>_.
        let arm_ty = TypedBlock_ty typed_block; this_span = source_tail_span body span in
        chain (case result_ty of
            None \<Rightarrow> give (arm_ty, this_span)
          | Some (first_ty, first_span) \<Rightarrow>
              chain (unify_arms n h arm_ty first_ty this_span first_span) (\<lambda>merged. give (merged, first_span))) (\<lambda>merged.
        give (Some merged, typed_arms @ [TypedMatchArm typed_pattern typed_block]))))))))"

text \<open>The first error of the exhaustiveness check.\<close>

definition first_match_error :: "Type \<Rightarrow> TypedBlock TypedMatchArm list \<Rightarrow> Span \<Rightarrow> (TypeError, unit) outcome" where
  "first_match_error ty arms span =
     (case check_match ty arms span of
        Ok u \<Rightarrow> Ok u
      | Err [] \<Rightarrow> Panic
      | Err (e # _) \<Rightarrow> Err e
      | Panic \<Rightarrow> Panic)"

definition infer_match ::
  "nat \<Rightarrow> InferHost \<Rightarrow> infer_ex \<Rightarrow> infer_blk \<Rightarrow> Expr Spanned \<Rightarrow> Block MatchArm list \<Rightarrow> Span \<Rightarrow> TypedExpr Spanned infer" where
  "infer_match n h X B scrutinee arms span =
     chain (X scrutinee) (\<lambda>typed_scrutinee.
     chain (fold_infer (infer_match_arm n h B span (sp_span scrutinee) (ty_of typed_scrutinee)) arms (None, []))
       (\<lambda>(result_ty, typed_arms).
     chain (apply_in n (ty_of typed_scrutinee)) (\<lambda>scrutinee_ty.
     chain (reads (\<lambda>_. first_match_error scrutinee_ty typed_arms span)) (\<lambda>_.
     give (typed_node (case result_ty of None \<Rightarrow> TUnit | Some (ty, _) \<Rightarrow> ty) (X_Match typed_scrutinee typed_arms) span)))))"

definition infer_yield :: "Identifier list \<Rightarrow> Span \<Rightarrow> TypedExpr Spanned infer" where
  "infer_yield abis span =
     chain (asks (\<lambda>s. is_coroutine (ctx s))) (\<lambda>coroutine.
     if \<not> coroutine then fail (TypeError_new YieldOutsideMainFn span)
     else chain (map_infer lookup_abi abis) (\<lambda>abis. give (typed_node TUnit (X_Yield abis) span)))"

section \<open>Calls\<close>

fun expr_name :: "Expr \<Rightarrow> ('e, string option) outcome" where
  "expr_name (E_Grouping inner) = expr_name (sp_node inner)"
| "expr_name (E_ScopedName name) = (case last_opt name of None \<Rightarrow> Panic | Some i \<Rightarrow> Ok (Some (id_name i)))"
| "expr_name (E_FieldAccess target name) = Ok (Some (id_name name))"
| "expr_name _ = Ok None"

definition check_call_kind :: "FunctionKind \<Rightarrow> FunctionKind \<Rightarrow> string \<Rightarrow> Span \<Rightarrow> unit infer" where
  "check_call_kind used kind name span =
     (if used = kind then give ()
      else if used = FK_Normal then fail (TypeError_new (EmitRaiseRuntimeNeeded name kind) span)
      else if kind = FK_Normal then fail (TypeError_new (EmitRaiseRuntimeUnneeded name used) span)
      else fail (TypeError_new (EmitRaiseRuntimeMismatch name kind used) span))"

text \<open>The variable of an \<^verbatim>\<open>is\<close> block whose method a call uses.\<close>

fun narrowed_variable :: "TypedExprKind \<Rightarrow> string option" where
  "narrowed_variable (X_FieldAccess (Spanned (TypedExpr (TAbi _) (X_ScopedName [name] _)) _) _) = Some (id_name name)"
| "narrowed_variable _ = None"

fun track_call :: "string \<Rightarrow> Span \<Rightarrow> AbiCallTracker list \<Rightarrow> (TypeError, AbiCallTracker list) outcome" where
  "track_call name span [] = Ok []"
| "track_call name span (t # ts) =
     (if tracked_var t = name then
        (case first_call_span t of
           Some first_span \<Rightarrow>
             Err (with_secondary (TypeError_new (LinearMethodCallViolation (tracked_var t) (tracked_abi t)) span)
               first_span ''first method call here'')
         | None \<Rightarrow> Ok (t\<lparr>first_call_span := Some span\<rparr> # ts))
      else andthen (track_call name span ts) (\<lambda>ts. Ok (t # ts)))"

definition check_linearity :: "TypedExpr Spanned \<Rightarrow> Span \<Rightarrow> unit infer" where
  "check_linearity callee span =
     (case narrowed_variable (expr_kind (sp_node callee)) of
        None \<Rightarrow> give ()
      | Some name \<Rightarrow>
          updates (\<lambda>s. andthen (track_call name span (abi_call_trackers (chk s))) (\<lambda>ts. Ok (set_trackers ts s))))"

definition infer_argument ::
  "nat \<Rightarrow> InferHost \<Rightarrow> infer_ex \<Rightarrow> nat \<times> Expr Spanned \<times> Type TypedFunctionParam \<Rightarrow> TypedExpr Spanned infer" where
  "infer_argument n h X = (\<lambda>(index, arg, param).
     chain (X arg) (\<lambda>typed_arg.
     chain (display_in n (ty_of typed_arg)) (\<lambda>found.
     chain (unify_in n h (ty_of typed_arg) (param_ty param) (sp_span arg) (sp_span arg)
       (ArgumentTypeMismatch (param_ty param) found (index + 1)
         (if param_ty_span param = DUMMY_SPAN then None else Some (param_ty_span param)))) (\<lambda>_.
     give typed_arg))))"

definition infer_call ::
  "nat \<Rightarrow> InferHost \<Rightarrow> infer_ex \<Rightarrow> Span \<Rightarrow> Expr Spanned \<Rightarrow> Expr Spanned list \<Rightarrow> FunctionKind \<Rightarrow> TypedExpr Spanned infer" where
  "infer_call n h X span callee args used_kind =
     chain (X callee) (\<lambda>typed_callee.
     chain (display_in n (ty_of typed_callee)) (\<lambda>callee_ty.
     chain (reads (\<lambda>_. expr_name (sp_node callee))) (\<lambda>name.
     let callee_name = (case name of Some name \<Rightarrow> name | None \<Rightarrow> ''<anonymous>'') in
     (case callee_ty of
        TFunction func \<Rightarrow>
          chain (check_call_kind used_kind (fn_kind func) callee_name (sp_span callee)) (\<lambda>_.
          chain (check_linearity typed_callee span) (\<lambda>_.
          if length args \<noteq> length (fn_params func) then
            fail (TypeError_new (ArityMismatch (length (fn_params func)) (length args)) span)
          else
            chain (map_infer (infer_argument n h X) (enumerate 0 (zip args (fn_params func)))) (\<lambda>typed_args.
            give (typed_node (fn_result func) (X_Call typed_callee typed_args) (sp_span callee)))))
      | _ \<Rightarrow> fail (TypeError_new (NotAFunction callee_ty) (sp_span callee))))))"

section \<open>Expressions\<close>

fun infer_expr_kind :: "nat \<Rightarrow> InferHost \<Rightarrow> infer_ex \<Rightarrow> infer_blk \<Rightarrow> Expr \<Rightarrow> Span \<Rightarrow> TypedExpr Spanned infer" where
  "infer_expr_kind n h X B (E_Literal l) span = infer_literal l span"
| "infer_expr_kind n h X B (E_ScopedName name) span = infer_name n name span"
| "infer_expr_kind n h X B (E_Unary op inner) span = infer_unary n h X op inner span"
| "infer_expr_kind n h X B (E_Binary op left right) span = infer_binary n h X op left right span"
| "infer_expr_kind n h X B (E_Grouping inner) span = infer_grouping X inner span"
| "infer_expr_kind n h X B (E_Tuple items) span = infer_tuple X items span"
| "infer_expr_kind n h X B (E_StructConstructor name inits) span = infer_struct_constructor n h X name inits span"
| "infer_expr_kind n h X B (E_FieldAccess target name) span = infer_field_access n X target name span"
| "infer_expr_kind n h X B (E_Block block) span = infer_block_expr B block span"
| "infer_expr_kind n h X B (E_If branches else_branch) span = infer_if n h X B branches else_branch span"
| "infer_expr_kind n h X B (E_Match scrutinee arms) span = infer_match n h X B scrutinee arms span"
| "infer_expr_kind n h X B (E_Yield abis) span = infer_yield abis span"
| "infer_expr_kind n h X B (E_Disclose inner) span = infer_disclose X inner span"
| "infer_expr_kind n h X B (E_Call callee args) span = infer_call n h X span callee args FK_Normal"
| "infer_expr_kind n h X B (E_Emit callee args) span = infer_call n h X span callee args FK_Emit"
| "infer_expr_kind n h X B (E_Raise callee args) span = infer_call n h X span callee args FK_Raise"
| "infer_expr_kind n h X B (E_Runtime callee args) span = infer_call n h X span callee args FK_Runtime"

end
