(* ===== verification/Infer_Stmt.thy ===== *)
theory Infer_Stmt
  imports Infer_Expr
begin

text \<open>
  Statements and blocks in \<^verbatim>\<open>typecheck/infer.rs\<close>, one definition per arm of \<^verbatim>\<open>infer_statement\<close>, and the
  recursion over expressions, statements and blocks, bounded by the stack depth.
\<close>

section \<open>let\<close>

fun simple_binding :: "Pattern \<Rightarrow> Identifier option" where
  "simple_binding (P_Name [name]) = Some name"
| "simple_binding _ = None"

definition binding_span :: "Identifier option \<Rightarrow> Span \<Rightarrow> Span" where
  "binding_span simple span = (case simple of Some name \<Rightarrow> span_or name span | None \<Rightarrow> span)"

definition check_redeclaration :: "Identifier option \<Rightarrow> Span \<Rightarrow> unit infer" where
  "check_redeclaration simple span =
     (case simple of
        None \<Rightarrow> give ()
      | Some name \<Rightarrow>
          chain (asks (\<lambda>s. get_in_current_scope (env s) (id_name name))) (\<lambda>previous.
          (case previous of
             Some previous_decl \<Rightarrow>
               fail (with_secondary (TypeError_new (Redeclaration (id_name name)) (span_or name span))
                 (b_decl_span previous_decl) ''previously defined here'')
           | None \<Rightarrow> give ())))"

text \<open>The type of the value, unified with the annotation if there is one.\<close>

definition infer_annotated ::
  "nat \<Rightarrow> InferHost \<Rightarrow> Identifier option \<Rightarrow> TypeAnnotation option \<Rightarrow> Type \<Rightarrow> Span \<Rightarrow> Type infer" where
  "infer_annotated n h simple annotation value_type span =
     (case annotation of
        None \<Rightarrow> give value_type
      | Some ty \<Rightarrow>
          chain (annotated_type n h ty) (\<lambda>expected_type.
          chain (display_in n expected_type) (\<lambda>expected.
          chain (display_in n value_type) (\<lambda>found.
          unify_in n h expected_type value_type (binding_span simple span) span
            (AssignmentMismatch (case simple of Some name \<Rightarrow> id_name name | None \<Rightarrow> ''pattern'') expected found)))))"

definition private_param_help :: "string \<Rightarrow> string" where
  "private_param_help name =
     ''`'' @ name @ ''` is a private parameter; declare it as `pub '' @ name @
     '': ...` in the function signature if callers should provide a public value here.''"

definition let_help :: "Identifier option \<Rightarrow> string" where
  "let_help simple =
     (case simple of
        Some name \<Rightarrow>
          ''`'' @ id_name name @ ''` is public; wrap private RHS with `disclose(...)`, e.g., `let pub '' @ id_name name @
          '' = disclose(expr);`''
      | None \<Rightarrow> ''the pattern bindings are public; wrap the private RHS with `disclose(...)`'')"

text \<open>A public binding takes a public value.\<close>

definition require_public :: "bool \<Rightarrow> string \<Rightarrow> string \<Rightarrow> Expr Spanned \<Rightarrow> unit infer" where
  "require_public public variable_name help v =
     chain (visibility_of v) (\<lambda>visibility.
     if public \<and> visibility \<noteq> BV_Public then
       chain (asks (\<lambda>s. private_parameter_rhs_name (env s) (ctx s) (sp_node v))) (\<lambda>param.
       fail (with_help (TypeError_new (ExplicitDisclosureRequiredForPublicBinding variable_name) (sp_span v))
         (case param of Some param \<Rightarrow> private_param_help param | None \<Rightarrow> help)))
     else give ())"

fun source_block_span :: "Block \<Rightarrow> Span" where
  "source_block_span (Block _ _ span) = span"

text \<open>A \<^verbatim>\<open>return\<close> in the \<^verbatim>\<open>else\<close> block does not count for the function.\<close>

definition infer_else :: "infer_blk \<Rightarrow> Block option \<Rightarrow> TypedBlock option infer" where
  "infer_else B else_branch =
     (case else_branch of
        None \<Rightarrow> give None
      | Some block \<Rightarrow>
          chain (asks (\<lambda>s. saw_return (ctx s))) (\<lambda>saw_return_before_else.
          chain (B block False) (\<lambda>typed_block.
          chain (updates (\<lambda>s. Ok (set_saw_return saw_return_before_else s))) (\<lambda>_.
          if \<not> block_diverges typed_block then
            fail (with_help (TypeError_new LetElseDoesNotDiverge (source_block_span block))
              ''make the `else` block exit control flow with `return` or `resume`'')
          else give (Some typed_block)))))"

fun comma_separated :: "string list \<Rightarrow> string" where
  "comma_separated [] = ''''"
| "comma_separated [x] = x"
| "comma_separated (x # y # xs) = x @ '', '' @ comma_separated (y # xs)"

definition refutable_error :: "string list \<Rightarrow> Span \<Rightarrow> TypeError" where
  "refutable_error missing span =
     with_help (with_primary_message (TypeError_new (RefutableLetPattern missing) span)
         ''this value may not match the pattern'')
       (''add an `else` block to handle unmatched values such as '' @
        comma_separated (map (\<lambda>p. ''`'' @ p @ ''`'') (take 5 missing)))"

definition check_irrefutable :: "nat \<Rightarrow> Type \<Rightarrow> TypedPattern \<Rightarrow> Span \<Rightarrow> unit infer" where
  "check_irrefutable n value_type pattern span =
     chain (apply_in n value_type) (\<lambda>ty.
     (case missing_patterns ty pattern of
        Ok missing \<Rightarrow> if missing \<noteq> [] then fail (refutable_error missing span) else give ()
      | _ \<Rightarrow> panic_here))"

definition infer_let ::
  "nat \<Rightarrow> InferHost \<Rightarrow> infer_ex \<Rightarrow> infer_blk \<Rightarrow> bool \<Rightarrow> bool \<Rightarrow> Pattern \<Rightarrow> TypeAnnotation option \<Rightarrow> Expr Spanned
    \<Rightarrow> Block option \<Rightarrow> TypedStatement infer" where
  "infer_let n h X B public mutable pattern ty v else_branch =
     (let simple = simple_binding pattern in
     chain (check_redeclaration simple (sp_span v)) (\<lambda>_.
     chain (X v) (\<lambda>typed_value.
     chain (apply_in n (ty_of typed_value)) (\<lambda>value_type.
     chain (infer_annotated n h simple ty value_type (sp_span v)) (\<lambda>value_type.
     chain (require_public public (case simple of Some name \<Rightarrow> id_name name | None \<Rightarrow> ''pattern binding'') (let_help simple) v) (\<lambda>_.
     chain (infer_else B else_branch) (\<lambda>typed_else.
     chain (infer_pattern n h (sp_span v) mutable (if public then BV_Public else BV_Private) pattern value_type) (\<lambda>typed_pattern.
     chain (if typed_else = None then check_irrefutable n value_type typed_pattern (sp_span v) else give ()) (\<lambda>_.
     give (TS_VariableDeclaration public mutable typed_pattern typed_value typed_else))))))))))"

section \<open>Assignment, return, while, expression, resume\<close>

definition assign_help :: "string \<Rightarrow> BindingClass \<Rightarrow> string" where
  "assign_help name class =
     ''`'' @ name @ ''` is a '' @ (if class = BC_Storage then ''storage binding'' else ''public binding'') @
     ''; wrap private RHS with `disclose(...)`, e.g., `'' @ name @ '' = disclose(expr);`''"

definition infer_assignment :: "nat \<Rightarrow> InferHost \<Rightarrow> infer_ex \<Rightarrow> Identifier \<Rightarrow> Expr Spanned \<Rightarrow> TypedStatement infer" where
  "infer_assignment n h X target v =
     chain (asks (\<lambda>s. env_get (env s) (id_name target))) (\<lambda>found.
     chain (from_option (TypeError_new (UnknownName (id_name target)) (span_or target (sp_span v))) found) (\<lambda>binding.
     if \<not> b_mutable binding then
       fail (with_help (with_secondary (with_primary_message
           (TypeError_new (AssignmentToImmutable (id_name target)) (span_or target (sp_span v))) ''assigned here'')
           (b_decl_span binding) ''declared without `mut` here'') ''consider changing `let` to `let mut`'')
     else
       chain (instantiate_in n (b_scheme binding)) (\<lambda>expected_type.
       chain (X v) (\<lambda>typed_value.
       chain (require_public (b_visibility binding = BV_Public) (id_name target)
         (assign_help (id_name target) (b_class binding)) v) (\<lambda>_.
       chain (display_in n expected_type) (\<lambda>expected.
       chain (display_in n (ty_of typed_value)) (\<lambda>found.
       chain (unify_in n h (ty_of typed_value) expected_type (sp_span v) (span_or target (sp_span v))
         (AssignmentMismatch (id_name target) expected found)) (\<lambda>_.
       give (TS_Assignment target typed_value))))))))) "

text \<open>The type of a returned value agrees with that of the function; \<^verbatim>\<open>resume\<close> is like \<^verbatim>\<open>return ();\<close>.\<close>

definition unify_return :: "nat \<Rightarrow> InferHost \<Rightarrow> Type \<Rightarrow> Span \<Rightarrow> unit infer" where
  "unify_return n h actual span =
     chain (asks ctx) (\<lambda>c.
     chain (display_in n (expected_return c)) (\<lambda>expected.
     chain (display_in n actual) (\<lambda>found.
     chain (unify_in n h actual (expected_return c) span (return_span c) (ReturnMismatch expected found)) (\<lambda>_.
     give ()))))"

definition return_seen :: "unit infer" where
  "return_seen = updates (\<lambda>s. Ok (set_saw_return True s))"

definition infer_return :: "nat \<Rightarrow> InferHost \<Rightarrow> infer_ex \<Rightarrow> Expr Spanned option \<Rightarrow> TypedStatement infer" where
  "infer_return n h X v =
     (case v of
        Some expr \<Rightarrow>
          chain (X expr) (\<lambda>typed_expr.
          chain (unify_return n h (ty_of typed_expr) (sp_span expr)) (\<lambda>_.
          chain return_seen (\<lambda>_.
          give (TS_Return (Some typed_expr)))))
      | None \<Rightarrow>
          chain (asks (\<lambda>s. return_span (ctx s))) (\<lambda>span.
          chain (unify_return n h TUnit span) (\<lambda>_.
          chain return_seen (\<lambda>_.
          give (TS_Return None)))))"

definition infer_resume :: "nat \<Rightarrow> InferHost \<Rightarrow> TypedStatement infer" where
  "infer_resume n h =
     chain (asks (\<lambda>s. return_span (ctx s))) (\<lambda>span.
     chain (unify_return n h TUnit span) (\<lambda>_.
     chain return_seen (\<lambda>_.
     give TS_Resume)))"

definition infer_while :: "nat \<Rightarrow> infer_ex \<Rightarrow> infer_blk \<Rightarrow> Expr Spanned \<Rightarrow> Block \<Rightarrow> TypedStatement infer" where
  "infer_while n X B condition body =
     chain (infer_condition n X condition CC_While) (\<lambda>typed_condition.
     chain (B body False) (\<lambda>typed_body.
     give (TS_While typed_condition typed_body)))"

definition infer_expression_statement :: "infer_ex \<Rightarrow> Expr Spanned \<Rightarrow> TypedStatement infer" where
  "infer_expression_statement X e = chain (X e) (\<lambda>typed_expr. give (TS_Expression typed_expr))"

section \<open>try with\<close>

text \<open>The subject and the handlers have type \<^verbatim>\<open>()\<close>.\<close>

definition require_unit_block :: "nat \<Rightarrow> InferHost \<Rightarrow> TypedBlock \<Rightarrow> unit infer" where
  "require_unit_block n h b =
     chain (asks (\<lambda>s. return_span (ctx s))) (\<lambda>span.
     chain (display_in n (TypedBlock_ty b)) (\<lambda>found.
     chain (unify_in n h TUnit (TypedBlock_ty b) span (tail_span b) (GeneralMismatch TUnit found)) (\<lambda>_.
     give ())))"

definition lookup_effect :: "nat \<Rightarrow> ScopedName \<Rightarrow> nat \<Rightarrow> Type FunctionType infer" where
  "lookup_effect n name arity =
     chain (lookup_name n name) (\<lambda>(ty, _).
     let span = id_span (last name) in
     (case ty of
        TFunction func \<Rightarrow>
          if fn_kind func \<noteq> FK_Raise then
            fail (TypeError_new (WithRequiresEffect (id_name (last name)) (fn_kind func)) span)
          else if length (fn_params func) \<noteq> arity then
            fail (TypeError_new (ArityMismatch (length (fn_params func)) arity) span)
          else give func
      | _ \<Rightarrow> chain (display_in n ty) (\<lambda>found. fail (TypeError_new (NotAFunction found) span))))"

definition infer_handler ::
  "nat \<Rightarrow> InferHost \<Rightarrow> infer_blk \<Rightarrow> ScopedName \<times> Pattern list \<times> Block \<Rightarrow> (ScopedName \<times> TypedPattern list \<times> TypedBlock) infer"
  where
  "infer_handler n h B = (\<lambda>(name, patterns, block).
     chain open_scope (\<lambda>_.
     chain (lookup_effect n name (length patterns)) (\<lambda>func.
     chain (map_infer (\<lambda>(param, pat). infer_pattern n h DUMMY_SPAN False BV_Private pat (param_ty param))
         (zip (fn_params func) patterns)) (\<lambda>typed_patterns.
     chain (B block False) (\<lambda>typed_block.
     chain (require_unit_block n h typed_block) (\<lambda>_.
     chain close_scope (\<lambda>_.
     give (name, typed_patterns, typed_block))))))))"

definition infer_try_with ::
  "nat \<Rightarrow> InferHost \<Rightarrow> infer_blk \<Rightarrow> Block \<Rightarrow> (ScopedName \<times> Pattern list \<times> Block) list \<Rightarrow> TypedStatement infer" where
  "infer_try_with n h B subject effects =
     chain (B subject False) (\<lambda>typed_subject.
     chain (require_unit_block n h typed_subject) (\<lambda>_.
     chain (map_infer (infer_handler n h B) effects) (\<lambda>typed_effects.
     give (TS_TryWith typed_subject typed_effects))))"

fun infer_statement_kind :: "nat \<Rightarrow> InferHost \<Rightarrow> infer_ex \<Rightarrow> infer_blk \<Rightarrow> Statement \<Rightarrow> TypedStatement infer" where
  "infer_statement_kind n h X B (S_VariableDeclaration public mutable pattern ty v else_branch) =
     infer_let n h X B public mutable pattern ty v else_branch"
| "infer_statement_kind n h X B (S_Assignment target v) = infer_assignment n h X target v"
| "infer_statement_kind n h X B (S_Return v) = infer_return n h X v"
| "infer_statement_kind n h X B (S_While condition body) = infer_while n X B condition body"
| "infer_statement_kind n h X B (S_Expression e) = infer_expression_statement X e"
| "infer_statement_kind n h X B S_Resume = infer_resume n h"
| "infer_statement_kind n h X B (S_TryWith subject effects) = infer_try_with n h B subject effects"

section \<open>Blocks\<close>

definition infer_tail ::
  "nat \<Rightarrow> InferHost \<Rightarrow> infer_ex \<Rightarrow> bool \<Rightarrow> Expr Spanned option \<Rightarrow> TypedExpr Spanned option infer" where
  "infer_tail n h X treat_tail_as_return tail =
     (case tail of
        None \<Rightarrow> give None
      | Some expr \<Rightarrow>
          chain (X expr) (\<lambda>typed_expr.
          chain (if treat_tail_as_return then
              chain return_seen (\<lambda>_. unify_return n h (ty_of typed_expr) (sp_span expr))
            else give ()) (\<lambda>_.
          give (Some typed_expr))))"

fun infer_block_contents ::
  "nat \<Rightarrow> InferHost \<Rightarrow> infer_ex \<Rightarrow> (Statement \<Rightarrow> TypedStatement infer) \<Rightarrow> infer_blk" where
  "infer_block_contents n h X S (Block statements tail span) treat_tail_as_return =
     chain open_scope (\<lambda>_.
     chain (map_infer (\<lambda>statement. S (sp_node statement)) statements) (\<lambda>typed_statements.
     chain (infer_tail n h X treat_tail_as_return tail) (\<lambda>tail_expression.
     chain close_scope (\<lambda>_.
     give (TypedBlock typed_statements tail_expression)))))"

section \<open>The recursion\<close>

fun infer_expr :: "nat \<Rightarrow> InferHost \<Rightarrow> infer_ex"
  and infer_block :: "nat \<Rightarrow> InferHost \<Rightarrow> infer_blk"
  and infer_statement :: "nat \<Rightarrow> InferHost \<Rightarrow> Statement \<Rightarrow> TypedStatement infer" where
  "infer_expr 0 h e = panic_here"
| "infer_expr (Suc n) h e = infer_expr_kind n h (infer_expr n h) (infer_block n h) (sp_node e) (sp_span e)"
| "infer_block 0 h b treat_tail_as_return = panic_here"
| "infer_block (Suc n) h b treat_tail_as_return =
     infer_block_contents n h (infer_expr n h) (infer_statement n h) b treat_tail_as_return"
| "infer_statement 0 h statement = panic_here"
| "infer_statement (Suc n) h statement = infer_statement_kind n h (infer_expr n h) (infer_block n h) statement"

end
