(* ===== verification/Infer_Register.thy ===== *)
theory Infer_Register
  imports Infer_Stmt
begin

text \<open>
  The first passes over the definitions of a module in \<^verbatim>\<open>typecheck/infer.rs\<close>: registering imports, types,
  ABIs, utxos, tokens and function signatures. A definition is identified by its position (\<open>node\<close>).
\<close>

section \<open>Equality of types\<close>

text \<open>\<^verbatim>\<open>derive(PartialEq)\<close> on \<^verbatim>\<open>Type\<close> and its parts compares identifiers by name: it is equality after the
  spans of identifiers are erased.\<close>

definition erase_ident :: "Identifier \<Rightarrow> Identifier" where
  "erase_ident i = Identifier (id_name i) DUMMY_SPAN"

definition erase_param :: "Type TypedFunctionParam \<Rightarrow> Type TypedFunctionParam" where
  "erase_param p = TypedFunctionParam (param_public p) (erase_ident (param_name p)) (param_ty p) (param_ty_span p)"

definition erase_function :: "Type FunctionType \<Rightarrow> Type FunctionType" where
  "erase_function f =
     FunctionType (fn_kind f) (fn_name_span f) (map erase_param (fn_params f)) (fn_result f) (fn_callee f)"

definition erase_field :: "Type RecordFieldType \<Rightarrow> Type RecordFieldType" where
  "erase_field fd = RecordFieldType (erase_ident (field_name fd)) (field_ty fd)"

definition erase_record :: "Type RecordType \<Rightarrow> Type RecordType" where
  "erase_record r = RecordType (erase_ident (record_name r)) (map erase_field (record_fields r))"

fun erase_kind :: "Type EnumVariantKind \<Rightarrow> Type EnumVariantKind" where
  "erase_kind (EV_Struct fds) = EV_Struct (map erase_field fds)"
| "erase_kind k = k"

definition erase_enum :: "Type EnumType \<Rightarrow> Type EnumType" where
  "erase_enum e =
     EnumType (erase_ident (enum_name e))
       (map (\<lambda>v. EnumVariantType (erase_ident (variant_name v)) (erase_kind (variant_kind v))) (enum_variants e))
       (enum_type_args e)"

definition erase_methods :: "Type TypedAbiMethodDecl list \<Rightarrow> Type TypedAbiMethodDecl list" where
  "erase_methods ms =
     map (\<lambda>m. TypedAbiMethodDecl (erase_ident (method_name m)) (method_id m) (erase_function (method_ty m))) ms"

definition erase_abi :: "Type AbiType \<Rightarrow> Type AbiType" where
  "erase_abi a = AbiType (erase_ident (abi_name a)) (erase_methods (abi_methods a))"

definition erase_utxo :: "Type UtxoType \<Rightarrow> Type UtxoType" where
  "erase_utxo u = UtxoType (utxo_name u) (utxo_id u) (map erase_abi (possible_abis u)) (map erase_abi (always_abis u))"

definition erase_token :: "Type TokenType \<Rightarrow> Type TokenType" where
  "erase_token t = TokenType (token_name t) (token_id t) (erase_methods (token_methods t))"

primrec erase_spans :: "Type \<Rightarrow> Type" where
  "erase_spans (TVar v) = TVar v"
| "erase_spans (TInt w) = TInt w"
| "erase_spans TBool = TBool"
| "erase_spans TUnit = TUnit"
| "erase_spans (TFunction f) = TFunction (erase_function (map_FunctionType erase_spans f))"
| "erase_spans (TTuple items) = TTuple (map erase_spans items)"
| "erase_spans (TRecord r) = TRecord (erase_record (map_RecordType erase_spans r))"
| "erase_spans (TEnum e) = TEnum (erase_enum (map_EnumType erase_spans e))"
| "erase_spans TUtxoAny = TUtxoAny"
| "erase_spans (TUtxo u) = TUtxo (erase_utxo (map_UtxoType erase_spans u))"
| "erase_spans TTokenAny = TTokenAny"
| "erase_spans (TToken t) = TToken (erase_token (map_TokenType erase_spans t))"
| "erase_spans (TAbi a) = TAbi (erase_abi (map_AbiType erase_spans a))"

definition type_eq :: "Type \<Rightarrow> Type \<Rightarrow> bool" where
  "type_eq a b = (erase_spans a = erase_spans b)"

section \<open>Imports\<close>

text \<open>\<^verbatim>\<open>Display\<close> of the source of an import.\<close>

definition escape_char :: "char \<Rightarrow> string" where
  "escape_char c =
     (if c = CHR 0x22 then [CHR 0x5C, CHR 0x22]
      else if c = CHR 0x5C then [CHR 0x5C, CHR 0x5C]
      else if c = CHR 0x0A then [CHR 0x5C, CHR ''n'']
      else if c = CHR 0x0D then [CHR 0x5C, CHR ''r'']
      else if c = CHR 0x09 then [CHR 0x5C, CHR ''t'']
      else [c])"

fun import_source_to_string :: "ImportSource \<Rightarrow> string" where
  "import_source_to_string (IS_Wit namespace package (Some interface)) =
     id_name namespace @ '':'' @ id_name package @ ''/'' @ id_name interface"
| "import_source_to_string (IS_Wit namespace package None) = id_name namespace @ '':'' @ id_name package"
| "import_source_to_string (IS_Path path) = [CHR 0x22] @ concat (map escape_char (import_value path)) @ [CHR 0x22]"

definition put_typed_definition :: "node \<Rightarrow> TypedDefinition \<Rightarrow> unit infer" where
  "put_typed_definition k d =
     updates (\<lambda>s. Ok (s\<lparr>chk := (chk s)\<lparr>typed_definitions := (typed_definitions (chk s))(k \<mapsto> d)\<rparr>\<rparr>))"

text \<open>The namespace an import reads, or nothing for a path that was not resolved: then there is a warning,
  and the import is skipped.\<close>

definition import_namespace :: "Namespace option \<Rightarrow> ImportSource \<Rightarrow> Namespace option infer" where
  "import_namespace resolved source =
     (case (resolved, source) of
        (Some ns, _) \<Rightarrow> give (Some ns)
      | (None, IS_Wit namespace package interface) \<Rightarrow>
          chain (reads (\<lambda>s. get_as_namespace (builtins (chk s)) namespace package interface)) (\<lambda>ns. give (Some ns))
      | (None, IS_Path path) \<Rightarrow>
          chain (updates (\<lambda>s. Ok (add_warning
            \<lparr>tw_kind = PathImportIgnoredInSingleFile (import_value path), tw_span = import_span path, tw_help = None\<rparr> s)))
            (\<lambda>_. give None))"

definition import_named :: "Namespace \<Rightarrow> string \<Rightarrow> ImportNamedItem \<Rightarrow> TypedImportItem list infer" where
  "import_named ns source item =
     chain (on_root (import_name_from (import_local item) ns (id_name (imported item)) source)) (\<lambda>_.
     give (case map_of (constants ns) (id_name (imported item)) of
             Some ci \<Rightarrow> [TypedImportItem (imported item) (import_local item) (ci_ty ci)]
           | None \<Rightarrow> []))"

fun import_selected :: "Namespace \<Rightarrow> string \<Rightarrow> ImportItems \<Rightarrow> TypedImportItem list infer" where
  "import_selected ns source (II_Named items) =
     chain (map_infer (import_named ns source) items) (\<lambda>typed_items. give (concat typed_items))"
| "import_selected ns source (II_Namespace name) =
     chain (on_root (import_as_namespace name ns)) (\<lambda>_.
     give (map (\<lambda>(k, ci). TypedImportItem (Identifier k (id_span name)) (Identifier k (id_span name)) (ci_ty ci))
       (constants ns)))"

fun register_import :: "(nat \<rightharpoonup> Namespace) \<Rightarrow> nat \<times> Definition Spanned \<Rightarrow> unit infer" where
  "register_import resolved (i, Spanned (D_Import (ImportDef items source)) span) =
     chain (import_namespace (resolved i) source) (\<lambda>found.
     (case found of
        None \<Rightarrow> give ()
      | Some ns \<Rightarrow>
          chain (import_selected ns (import_source_to_string source) items) (\<lambda>typed_items.
          put_typed_definition [i] (TD_Import (TypedImportDef typed_items source)))))"
| "register_import resolved (i, _) = give ()"

definition register_imports :: "(nat \<rightharpoonup> Namespace) \<Rightarrow> Definition Spanned list \<Rightarrow> unit infer" where
  "register_imports resolved defs =
     chain (map_infer (register_import resolved) (enumerate 0 defs)) (\<lambda>_. give ())"

section \<open>Signatures\<close>

definition typed_param :: "nat \<Rightarrow> InferHost \<Rightarrow> bool \<Rightarrow> FunctionParam \<Rightarrow> Type TypedFunctionParam infer" where
  "typed_param n h public p =
     chain (annotated_type n h (fp_ty p)) (\<lambda>ty.
     give (TypedFunctionParam public (fp_name p) ty (annotation_name_span h (fp_ty p))))"

definition typed_params :: "nat \<Rightarrow> InferHost \<Rightarrow> FunctionParam list \<Rightarrow> Type TypedFunctionParam list infer" where
  "typed_params n h params = map_infer (\<lambda>p. typed_param n h (fp_public p) p) params"

definition set_function_name :: "node \<Rightarrow> NameId \<Rightarrow> unit infer" where
  "set_function_name k i =
     updates (\<lambda>s. Ok (s\<lparr>chk := (chk s)\<lparr>function_names := (function_names (chk s))(k \<mapsto> i)\<rparr>\<rparr>))"

text \<open>\<^verbatim>\<open>*self.function_names.entry(function).or_insert_with(|| self.next_name_id.fresh())\<close>\<close>

definition function_name_id :: "node \<Rightarrow> NameId infer" where
  "function_name_id k =
     chain (asks (\<lambda>s. function_names (chk s) k)) (\<lambda>found.
     (case found of
        Some i \<Rightarrow> give i
      | None \<Rightarrow> chain fresh_name_id (\<lambda>i. chain (set_function_name k i) (\<lambda>_. give i))))"

definition function_def_to_type :: "nat \<Rightarrow> InferHost \<Rightarrow> node \<Rightarrow> FunctionDef \<Rightarrow> Type FunctionType infer" where
  "function_def_to_type n h k f =
     chain (typed_params n h (fd_params f)) (\<lambda>params.
     chain (return_annotation n h (fd_return_type f)) (\<lambda>expected_return.
     chain (function_name_id k) (\<lambda>i.
     give (FunctionType FK_Normal (id_span (fd_name f)) params expected_return (Some (SF_Named i))))))"

section \<open>Structs and enums\<close>

definition duplicate_error :: "TypeErrorKind \<Rightarrow> Identifier \<Rightarrow> Span \<Rightarrow> TypeError" where
  "duplicate_error kind name previous_span =
     with_secondary (with_primary_message (TypeError_new kind (id_span name)) ''duplicate'')
       previous_span ''first defined here''"

text \<open>The fields of a struct or of a struct variant.\<close>

definition register_field ::
  "nat \<Rightarrow> InferHost \<Rightarrow> string \<Rightarrow> StructField \<Rightarrow> (string \<times> Span) list \<times> Type RecordFieldType list
    \<Rightarrow> ((string \<times> Span) list \<times> Type RecordFieldType list) infer" where
  "register_field n h struct_name sf = (\<lambda>(seen, fds).
     (case sf of StructField name ann span \<Rightarrow>
        (case map_of seen (id_name name) of
           Some previous_span \<Rightarrow> fail (duplicate_error (DuplicateStructField struct_name (id_name name)) name previous_span)
         | None \<Rightarrow>
             chain (annotated_type n h ann) (\<lambda>ty.
             give (AList.update (id_name name) (id_span name) seen, fds @ [RecordFieldType name ty])))))"

definition register_fields :: "nat \<Rightarrow> InferHost \<Rightarrow> string \<Rightarrow> StructField list \<Rightarrow> Type RecordFieldType list infer" where
  "register_fields n h struct_name sfs =
     chain (fold_infer (register_field n h struct_name) sfs ([], [])) (\<lambda>(_, fds). give fds)"

definition plain_entry :: "Type \<Rightarrow> Span \<Rightarrow> TypeEntry" where
  "plain_entry ty span =
     \<lparr>entry_ty = ty, entry_span = span, entry_type_params = [], entry_doc = None, entry_variant_docs = []\<rparr>"

fun register_struct :: "nat \<Rightarrow> InferHost \<Rightarrow> StructDef \<Rightarrow> Type RecordType infer" where
  "register_struct n h (StructDef name sfs) =
     chain (register_fields n h (id_name name) sfs) (\<lambda>fds.
     let record_ty = RecordType name fds; ty = TRecord record_ty in
     chain (on_root (insert_type name (plain_entry ty (id_span name)))) (\<lambda>_.
     chain (on_root (insert_struct_constructor name
       \<lparr>sc_span = id_span name, sc_ty = ty, sc_type_params = [], sc_enum_variant = 0\<rparr>)) (\<lambda>_.
     give record_ty)))"

definition register_payload :: "nat \<Rightarrow> InferHost \<Rightarrow> string \<Rightarrow> EnumVariantPayload \<Rightarrow> Type EnumVariantKind infer" where
  "register_payload n h variant_path payload =
     (case payload of
        EP_Unit \<Rightarrow> give EV_Unit
      | EP_Tuple items \<Rightarrow> chain (map_infer (annotated_type n h) items) (\<lambda>tys. give (EV_Tuple tys))
      | EP_Struct sfs \<Rightarrow> chain (register_fields n h variant_path sfs) (\<lambda>fds. give (EV_Struct fds)))"

definition register_variant ::
  "nat \<Rightarrow> InferHost \<Rightarrow> string \<Rightarrow> EnumVariant \<Rightarrow> (string \<times> Span) list \<times> Type EnumVariantType list
    \<Rightarrow> ((string \<times> Span) list \<times> Type EnumVariantType list) infer" where
  "register_variant n h owner v = (\<lambda>(seen, variants).
     (case v of EnumVariantDef name payload span \<Rightarrow>
        (case map_of seen (id_name name) of
           Some previous_span \<Rightarrow> fail (duplicate_error (DuplicateEnumVariant owner (id_name name)) name previous_span)
         | None \<Rightarrow>
             chain (register_payload n h (owner @ ''::'' @ id_name name) payload) (\<lambda>kind.
             give (AList.update (id_name name) (id_span name) seen, variants @ [EnumVariantType name kind])))))"

text \<open>The constructor of a variant in the namespace of the enum.\<close>

fun variant_span :: "EnumVariant \<Rightarrow> Span" where
  "variant_span (EnumVariantDef _ _ span) = span"

definition add_variant ::
  "Type \<Rightarrow> nat \<times> Type EnumVariantType \<times> EnumVariant \<Rightarrow> Namespace \<Rightarrow> (TypeError, Namespace) outcome" where
  "add_variant ty = (\<lambda>(i, v, base) ns.
     let name = variant_name v; span = variant_span base in
     (case variant_kind v of
        EV_Unit \<Rightarrow>
          insert_constant name \<lparr>ci_span = span, ci_ty = ty, ci_type_params = [], ci_variant = i\<rparr> ns
      | EV_Tuple params \<Rightarrow>
          insert_constant name (ConstantInfo_new span
            (TFunction (FunctionType FK_Normal DUMMY_SPAN (from_types params) ty (Some (SF_Constructor i))))) ns
      | EV_Struct _ \<Rightarrow>
          insert_struct_constructor name
            \<lparr>sc_span = span, sc_ty = ty, sc_type_params = [], sc_enum_variant = i\<rparr> ns))"

fun register_enum :: "nat \<Rightarrow> InferHost \<Rightarrow> EnumDef \<Rightarrow> Type EnumType infer" where
  "register_enum n h (EnumDef name vs) =
     chain (fold_infer (register_variant n h (id_name name)) vs ([], [])) (\<lambda>(_, variants).
     let enum_type = EnumType name variants []; ty = TEnum enum_type in
     chain (on_root (insert_type name (plain_entry ty (id_span name)))) (\<lambda>_.
     chain (on_root (with_child (id_name name) (fold_out (add_variant ty) (enumerate 0 (zip variants vs))))) (\<lambda>_.
     give enum_type)))"

section \<open>ABIs\<close>

text \<open>An event or an effect is a constant, too; \<open>k\<close> is the position of the part.\<close>

definition register_abi_constant ::
  "node \<Rightarrow> Identifier \<Rightarrow> FunctionKind \<Rightarrow> Type TypedFunctionParam list \<Rightarrow> Type \<Rightarrow> Type TypedAbiMethodDecl infer" where
  "register_abi_constant k name kind params result_ty =
     chain fresh_name_id (\<lambda>i.
     chain (set_function_name k i) (\<lambda>_.
     let func_ty = FunctionType kind (id_span name) params result_ty (Some (SF_Named i)) in
     chain (on_root (insert_constant name (ConstantInfo_new (id_span name) (TFunction func_ty)))) (\<lambda>_.
     give (TypedAbiMethodDecl name i func_ty))))"

fun register_event :: "nat \<Rightarrow> InferHost \<Rightarrow> node \<Rightarrow> EventDef \<Rightarrow> Type TypedAbiMethodDecl infer" where
  "register_event n h k (EventDef name params span) =
     chain (map_infer (typed_param n h True) params) (\<lambda>params.
     register_abi_constant k name FK_Emit params TUnit)"

fun register_effect :: "nat \<Rightarrow> InferHost \<Rightarrow> node \<Rightarrow> EffectDef \<Rightarrow> Type TypedAbiMethodDecl infer" where
  "register_effect n h k (EffectDef name params return_type span) =
     chain (typed_params n h params) (\<lambda>params.
     chain (return_annotation n h return_type) (\<lambda>return_type.
     register_abi_constant k name FK_Raise params return_type))"

fun register_method :: "nat \<Rightarrow> InferHost \<Rightarrow> node \<Rightarrow> AbiMethodDecl \<Rightarrow> Type TypedAbiMethodDecl infer" where
  "register_method n h k (AbiMethodDecl name params return_type span) =
     chain (return_annotation n h return_type) (\<lambda>return_type.
     chain fresh_name_id (\<lambda>i.
     chain (set_function_name k i) (\<lambda>_.
     chain (typed_params n h params) (\<lambda>params.
     give (TypedAbiMethodDecl name i
       (FunctionType FK_Normal (id_span name) params return_type (Some (SF_Named i))))))))"

text \<open>All functions of the ABI so far, and those that are methods.\<close>

definition register_abi_part ::
  "nat \<Rightarrow> InferHost \<Rightarrow> node \<Rightarrow> nat \<times> AbiPart \<Rightarrow> Type TypedAbiMethodDecl list \<times> Type TypedAbiMethodDecl list
    \<Rightarrow> (Type TypedAbiMethodDecl list \<times> Type TypedAbiMethodDecl list) infer" where
  "register_abi_part n h k = (\<lambda>(j, part) (functions, methods).
     (case part of
        AP_Event event \<Rightarrow> chain (register_event n h (k @ [j]) event) (\<lambda>f. give (functions @ [f], methods))
      | AP_Effect effect \<Rightarrow> chain (register_effect n h (k @ [j]) effect) (\<lambda>f. give (functions @ [f], methods))
      | AP_FnDecl method \<Rightarrow> chain (register_method n h (k @ [j]) method) (\<lambda>m. give (functions @ [m], methods @ [m]))))"

fun register_abi :: "nat \<Rightarrow> InferHost \<Rightarrow> node \<Rightarrow> AbiDef \<Rightarrow> (Type AbiType \<times> Type TypedAbiMethodDecl list) infer" where
  "register_abi n h k (AbiDef name parts) =
     (if id_name name = ''Token'' then fail (TypeError_new (ReservedAbiName (id_name name)) (id_span name))
      else
        chain (fold_infer (register_abi_part n h k) (enumerate 0 parts) ([], [])) (\<lambda>(functions, methods).
        let abi_ty = AbiType name methods in
        chain (on_root (insert_type name (TypeEntry_from (TAbi abi_ty)))) (\<lambda>_.
        give (abi_ty, functions))))"

section \<open>Yields\<close>

text \<open>The lists of ABIs of the \<^verbatim>\<open>yield\<close> expressions of a block, in order.\<close>

lemma size_match_arm [termination_simp]:
  "MatchArm p b s \<in> set arms \<Longrightarrow> size b < Suc (size_list (size_MatchArm size) arms + k)"
  by (induction arms) auto

lemma size_if_branch [termination_simp]:
  "(c, b) \<in> set branches \<Longrightarrow> size b < Suc (size_list (size_prod size size) branches + k)"
  "(c, b) \<in> set branches \<Longrightarrow> size c < Suc (size_list (size_prod size size) branches + k)"
  by (induction branches) auto

lemma size_handler [termination_simp]:
  "(c, p, b) \<in> set effects \<Longrightarrow> size b < Suc (m + size_list (size_prod f (size_prod g size)) effects)"
  by (induction effects) auto

fun collect_yields :: "Block \<Rightarrow> Identifier list list"
  and collect_yields_stmt :: "Statement \<Rightarrow> Identifier list list"
  and collect_yields_cond :: "IfCondition \<Rightarrow> Identifier list list"
  and collect_yields_expr :: "Expr \<Rightarrow> Identifier list list" where
  "collect_yields (Block statements tail span) =
     concat (map (\<lambda>st. collect_yields_stmt (sp_node st)) statements) @
     (case tail of Some e \<Rightarrow> collect_yields_expr (sp_node e) | None \<Rightarrow> [])"
| "collect_yields_stmt (S_VariableDeclaration _ _ _ _ v else_branch) =
     collect_yields_expr (sp_node v) @ (case else_branch of Some b \<Rightarrow> collect_yields b | None \<Rightarrow> [])"
| "collect_yields_stmt (S_Assignment _ v) = collect_yields_expr (sp_node v)"
| "collect_yields_stmt (S_While condition body) = collect_yields_expr (sp_node condition) @ collect_yields body"
| "collect_yields_stmt (S_Expression e) = collect_yields_expr (sp_node e)"
| "collect_yields_stmt (S_Return v) = (case v of Some e \<Rightarrow> collect_yields_expr (sp_node e) | None \<Rightarrow> [])"
| "collect_yields_stmt S_Resume = []"
| "collect_yields_stmt (S_TryWith subject effects) =
     collect_yields subject @ concat (map (\<lambda>(_, _, body). collect_yields body) effects)"
| "collect_yields_cond (IC_Bool e) = collect_yields_expr (sp_node e)"
| "collect_yields_cond (IC_Is _ _) = []"
| "collect_yields_expr (E_Yield abis) = [abis]"
| "collect_yields_expr (E_Grouping e) = collect_yields_expr (sp_node e)"
| "collect_yields_expr (E_ScopedName _) = []"
| "collect_yields_expr (E_Literal _) = []"
| "collect_yields_expr (E_Tuple items) = concat (map (\<lambda>e. collect_yields_expr (sp_node e)) items)"
| "collect_yields_expr (E_StructConstructor _ inits) =
     concat (map (\<lambda>i. case i of StructFieldInitializer _ v \<Rightarrow> collect_yields_expr (sp_node v)) inits)"
| "collect_yields_expr (E_Emit callee args) =
     collect_yields_expr (sp_node callee) @ concat (map (\<lambda>e. collect_yields_expr (sp_node e)) args)"
| "collect_yields_expr (E_Raise callee args) =
     collect_yields_expr (sp_node callee) @ concat (map (\<lambda>e. collect_yields_expr (sp_node e)) args)"
| "collect_yields_expr (E_Runtime callee args) =
     collect_yields_expr (sp_node callee) @ concat (map (\<lambda>e. collect_yields_expr (sp_node e)) args)"
| "collect_yields_expr (E_Call callee args) =
     collect_yields_expr (sp_node callee) @ concat (map (\<lambda>e. collect_yields_expr (sp_node e)) args)"
| "collect_yields_expr (E_Block b) = collect_yields b"
| "collect_yields_expr (E_If branches else_branch) =
     concat (map (\<lambda>(condition, b). collect_yields_cond condition @ collect_yields b) branches) @
     (case else_branch of Some b \<Rightarrow> collect_yields b | None \<Rightarrow> [])"
| "collect_yields_expr (E_Match scrutinee arms) =
     collect_yields_expr (sp_node scrutinee) @
     concat (map (\<lambda>arm. case arm of MatchArm _ body _ \<Rightarrow> collect_yields body) arms)"
| "collect_yields_expr (E_FieldAccess target _) = collect_yields_expr (sp_node target)"
| "collect_yields_expr (E_Disclose e) = collect_yields_expr (sp_node e)"
| "collect_yields_expr (E_Unary _ e) = collect_yields_expr (sp_node e)"
| "collect_yields_expr (E_Binary _ left right) = collect_yields_expr (sp_node left) @ collect_yields_expr (sp_node right)"

end
