(* ===== verification/Infer_Program.thy ===== *)
theory Infer_Program
  imports Infer_Register Module_Graph
begin

text \<open>
  Definitions and programs in \<^verbatim>\<open>typecheck/infer.rs\<close>: utxos and tokens, function bodies, the two passes over
  the definitions of a module, the final substitution, and the entry points. \<^verbatim>\<open>process_definitions\<close> goes on
  after a definition in error to collect the errors of the others; the model stops, and its \<open>Err\<close> has the
  head of the list of errors that the source reports (unless it panics on a later definition). On programs
  without errors the two are the same.
\<close>

section \<open>Utxos and tokens: registering\<close>

fun utxo_part_yields :: "UtxoPart \<Rightarrow> Identifier list list" where
  "utxo_part_yields (UP_Function f) = collect_yields (fd_body f)"
| "utxo_part_yields (UP_AbiImpl _ fs) = concat (map (\<lambda>f. collect_yields (fd_body f)) fs)"
| "utxo_part_yields (UP_Storage _) = []"

fun implemented_abi :: "UtxoPart \<Rightarrow> Type AbiType list infer" where
  "implemented_abi (UP_AbiImpl abi _) = chain (lookup_abi abi) (\<lambda>a. give [a])"
| "implemented_abi _ = give []"

text \<open>The ABIs that every \<^verbatim>\<open>yield\<close> names.\<close>

definition retain_common :: "Identifier list \<Rightarrow> Type AbiType list \<Rightarrow> Type AbiType list infer" where
  "retain_common abis always =
     chain (map_infer lookup_abi abis) (\<lambda>found.
     give (filter (\<lambda>a. list_ex (\<lambda>b. type_eq (TAbi a) (TAbi b)) found) always))"

definition always_abis_of :: "Identifier list list \<Rightarrow> Type AbiType list infer" where
  "always_abis_of yields =
     (case yields of
        [] \<Rightarrow> give []
      | fst_abis # rest \<Rightarrow> chain (map_infer lookup_abi fst_abis) (\<lambda>always. fold_infer retain_common rest always))"

text \<open>The constants of the namespace of a utxo or token: its functions with the given export, returning the
  type itself.\<close>

definition constructor_constant ::
  "nat \<Rightarrow> InferHost \<Rightarrow> FunctionExport \<Rightarrow> Type \<Rightarrow> node \<times> FunctionDef \<Rightarrow> Namespace \<Rightarrow> Namespace infer" where
  "constructor_constant n h export ty = (\<lambda>(k, f) ns.
     if fd_export f = Some export then
       chain (function_def_to_type n h k f) (\<lambda>func_ty.
       let func_ty = FunctionType (fn_kind func_ty) (fn_name_span func_ty) (fn_params func_ty) ty (fn_callee func_ty) in
       reads (\<lambda>_. insert_constant (fd_name f) (ConstantInfo_new (id_span (fd_name f)) (TFunction func_ty)) ns))
     else give ns)"

fun utxo_functions :: "node \<Rightarrow> UtxoPart list \<Rightarrow> (node \<times> FunctionDef) list" where
  "utxo_functions k parts =
     concat (map (\<lambda>(j, part). case part of UP_Function f \<Rightarrow> [(k @ [j], f)] | _ \<Rightarrow> []) (enumerate 0 parts))"

fun register_utxo :: "nat \<Rightarrow> InferHost \<Rightarrow> node \<Rightarrow> UtxoDef \<Rightarrow> unit infer" where
  "register_utxo n h k (UtxoDef name parts) =
     chain (map_infer implemented_abi parts) (\<lambda>possible.
     chain (always_abis_of (concat (map utxo_part_yields parts))) (\<lambda>always.
     chain fresh_name_id (\<lambda>i.
     let ty = TUtxo (UtxoType (id_name name) i (concat possible) always) in
     chain (on_root (insert_type name (plain_entry ty (id_span name)))) (\<lambda>_.
     chain (fold_infer (constructor_constant n h FE_UtxoMain ty) (utxo_functions k parts) Namespace_default) (\<lambda>ns.
     on_root (with_child (id_name name) (import_all_from ns)))))))"

fun token_functions :: "node \<Rightarrow> TokenPart list \<Rightarrow> (node \<times> FunctionDef) list" where
  "token_functions k parts =
     concat (map (\<lambda>(j, part). case part of KP_Function f \<Rightarrow> [(k @ [j], f)] | _ \<Rightarrow> []) (enumerate 0 parts))"

definition burn_method :: "nat \<Rightarrow> InferHost \<Rightarrow> node \<times> FunctionDef \<Rightarrow> Type TypedAbiMethodDecl list infer" where
  "burn_method n h = (\<lambda>(k, f).
     if fd_export f = Some FE_TokenBurn then
       chain (function_def_to_type n h k f) (\<lambda>ty.
       (case fn_callee ty of
          Some (SF_Named i) \<Rightarrow> give [TypedAbiMethodDecl (fd_name f) i ty]
        | _ \<Rightarrow> panic_here))
     else give [])"

fun register_token :: "nat \<Rightarrow> InferHost \<Rightarrow> node \<Rightarrow> TokenDef \<Rightarrow> unit infer" where
  "register_token n h k (TokenDef name parts) =
     chain fresh_name_id (\<lambda>i.
     chain (map_infer (burn_method n h) (token_functions k parts)) (\<lambda>methods.
     let ty = TToken (TokenType (id_name name) i (concat methods)) in
     chain (on_root (insert_type name (plain_entry ty (id_span name)))) (\<lambda>_.
     chain (fold_infer (constructor_constant n h FE_TokenMint ty) (token_functions k parts) Namespace_default) (\<lambda>ns.
     on_root (with_child (id_name name) (import_all_from ns))))))"

definition register_function :: "nat \<Rightarrow> InferHost \<Rightarrow> node \<Rightarrow> FunctionDef \<Rightarrow> unit infer" where
  "register_function n h k f =
     chain (function_def_to_type n h k f) (\<lambda>ty.
     on_root (insert_constant (fd_name f) (ConstantInfo_new (id_span (fd_name f)) (TFunction ty))))"

section \<open>Function bodies\<close>

definition fd_return_span :: "InferHost \<Rightarrow> FunctionDef \<Rightarrow> Span" where
  "fd_return_span h f =
     (case fd_return_type f of
        None \<Rightarrow> id_span (fd_name f)
      | Some ann \<Rightarrow>
          let span = annotation_name_span h ann in if span = DUMMY_SPAN then id_span (fd_name f) else span)"

definition local_binding :: "Span \<Rightarrow> bool \<Rightarrow> Type \<Rightarrow> BindingClass \<Rightarrow> BindingVisibility \<Rightarrow> Binding" where
  "local_binding span mutable ty class visibility =
     \<lparr>b_decl_span = span, b_mutable = mutable, b_scheme = Scheme_monomorphic ty, b_class = class,
      b_visibility = visibility\<rparr>"

definition bind_param :: "Identifier \<Rightarrow> Type TypedFunctionParam \<Rightarrow> unit infer" where
  "bind_param function_name p =
     bind_name (id_name (param_name p))
       (local_binding (span_or (param_name p) (id_span function_name)) False (param_ty p) BC_Local
         (if param_public p then BV_Public else BV_Private))"

definition private_spans :: "Identifier \<Rightarrow> Type TypedFunctionParam list \<Rightarrow> Span list" where
  "private_spans function_name params =
     map (\<lambda>p. span_or (param_name p) (id_span function_name)) (filter (\<lambda>p. \<not> param_public p) params)"

definition check_missing_return :: "FunctionDef \<Rightarrow> Span \<Rightarrow> Type \<Rightarrow> bool \<Rightarrow> TypedBlock \<Rightarrow> unit infer" where
  "check_missing_return f span result_ty saw body =
     (if result_ty \<noteq> TUnit \<and> \<not> saw \<and> block_tail body = None then
        fail (with_help (TypeError_new (MissingReturn result_ty) (span_or (fd_name f) span))
          ''add a `return` or tail expression to satisfy the signature'')
      else give ())"

definition infer_function :: "nat \<Rightarrow> InferHost \<Rightarrow> node \<Rightarrow> FunctionDef \<Rightarrow> TypedFunctionDef infer" where
  "infer_function n h k f =
     chain (function_def_to_type n h k f) (\<lambda>func_ty.
     chain (bind_name (id_name (fd_name f))
       (local_binding (id_span (fd_name f)) False (TFunction func_ty) BC_Local BV_Private)) (\<lambda>_.
     chain open_scope (\<lambda>_.
     chain (map_infer (bind_param (fd_name f)) (fn_params func_ty)) (\<lambda>_.
     chain (with_ctx
         \<lparr>expected_return = fn_result func_ty, return_span = fd_return_span h f, saw_return = False,
          private_param_decl_spans = private_spans (fd_name f) (fn_params func_ty),
          is_coroutine = (fd_export f = Some FE_UtxoMain)\<rparr>
         (infer_block n h (fd_body f) True)) (\<lambda>(typed_body, c).
     chain close_scope (\<lambda>_.
     chain (check_missing_return f (fd_return_span h f) (fn_result func_ty) (saw_return c) typed_body) (\<lambda>_.
     chain (asks (\<lambda>s. function_names (chk s) k)) (\<lambda>i.
     chain (unwrap i) (\<lambda>i.
     give (TypedFunctionDef (fd_export f) (fd_name f) i func_ty typed_body))))))))))"

section \<open>Utxos and tokens: checking\<close>

definition plural :: "nat \<Rightarrow> string" where
  "plural k = (if k = 1 then '''' else ''s'')"

definition arity_error :: "nat \<Rightarrow> nat \<Rightarrow> Span \<Rightarrow> Span \<Rightarrow> TypeError" where
  "arity_error expected found impl_span abi_span =
     with_secondary (with_primary_message (TypeError_new (ArityMismatch expected found) impl_span)
         (''implemented with '' @ nat_to_string found @ '' parameter'' @ plural found @ '' here''))
       abi_span (''declared with '' @ nat_to_string expected @ '' parameter'' @ plural expected @ '' here'')"

definition check_param :: "nat \<times> Type TypedFunctionParam \<times> Type TypedFunctionParam \<Rightarrow> (TypeError, unit) outcome" where
  "check_param = (\<lambda>(i, abi_param, impl_param).
     if \<not> type_eq (param_ty abi_param) (param_ty impl_param) then
       Err (TypeError_new
         (ArgumentTypeMismatch (param_ty abi_param) (param_ty impl_param) i (Some (param_ty_span abi_param)))
         (id_span (param_name impl_param)))
     else Ok ())"

definition check_method :: "Type TypedAbiMethodDecl \<Rightarrow> TypedFunctionDef \<Rightarrow> (TypeError, unit) outcome" where
  "check_method abi_method impl_method =
     (let abi_ty = method_ty abi_method; impl_ty = tf_ty impl_method;
          expected = length (fn_params abi_ty); found = length (fn_params impl_ty) in
     if expected \<noteq> found then
       Err (arity_error expected found (id_span (tf_name impl_method)) (id_span (method_name abi_method)))
     else
       andthen (each check_param (enumerate 0 (zip (fn_params abi_ty) (fn_params impl_ty)))) (\<lambda>_.
       if \<not> type_eq (fn_result abi_ty) (fn_result impl_ty) then
         Err (TypeError_new (ReturnMismatch (fn_result abi_ty) (fn_result impl_ty)) (id_span (method_name abi_method)))
       else Ok ()))"

definition check_abi_impl :: "Identifier \<Rightarrow> Type AbiType \<Rightarrow> TypedFunctionDef list \<Rightarrow> (TypeError, unit) outcome" where
  "check_abi_impl name abi impls =
     andthen (fold_out (\<lambda>impl left.
         (case map_of left (id_name (tf_name impl)) of
            Some abi_method \<Rightarrow>
              andthen (check_method abi_method impl) (\<lambda>_. Ok (AList.delete (id_name (tf_name impl)) left))
          | None \<Rightarrow>
              Err (TypeError_new (AbiMethodNotFound (id_name name) (id_name (tf_name impl))) (id_span (tf_name impl)))))
       impls (collect_map (map (\<lambda>m. (id_name (method_name m), m)) (abi_methods abi)))) (\<lambda>left.
     (case left of
        [] \<Rightarrow> Ok ()
      | (method, _) # _ \<Rightarrow> Err (TypeError_new (AbiMethodNotFound (id_name name) method) (id_span name))))"

fun infer_utxo_global :: "nat \<Rightarrow> InferHost \<Rightarrow> UtxoGlobal \<Rightarrow> TypedUtxoGlobal infer" where
  "infer_utxo_global n h (UtxoGlobal name ann) =
     chain (annotated_type n h ann) (\<lambda>ty.
     chain (bind_name (id_name name) (local_binding (id_span name) True ty BC_Storage BV_Public)) (\<lambda>_.
     give (TypedUtxoGlobal name ty)))"

fun infer_token_global :: "nat \<Rightarrow> InferHost \<Rightarrow> TokenGlobal \<Rightarrow> TypedTokenGlobal infer" where
  "infer_token_global n h (TokenGlobal indexed name ann) =
     chain (annotated_type n h ann) (\<lambda>ty.
     chain (bind_name (id_name name) (local_binding (id_span name) True ty BC_Storage BV_Public)) (\<lambda>_.
     give (TypedTokenGlobal indexed name ty)))"

text \<open>A constructor does not declare a return type.\<close>

definition check_constructor :: "FunctionExport \<Rightarrow> FunctionDef \<Rightarrow> unit infer" where
  "check_constructor export f =
     (if fd_export f = Some export \<and> fd_return_type f \<noteq> None
      then fail (TypeError_new ReturnTypeNotAllowed (id_span (fd_name f))) else give ())"

definition infer_abi_impl ::
  "nat \<Rightarrow> InferHost \<Rightarrow> node \<Rightarrow> Identifier \<Rightarrow> FunctionDef list \<Rightarrow> (Type AbiType \<times> TypedFunctionDef list) infer" where
  "infer_abi_impl n h k abi fs =
     chain (map_infer (\<lambda>(l, f). infer_function n h (k @ [l]) f) (enumerate 0 fs)) (\<lambda>parts.
     chain (lookup_abi abi) (\<lambda>abi_info.
     chain (reads (\<lambda>_. check_abi_impl abi abi_info parts)) (\<lambda>_.
     give (abi_info, parts))))"

definition infer_utxo_part :: "nat \<Rightarrow> InferHost \<Rightarrow> node \<Rightarrow> nat \<times> UtxoPart \<Rightarrow> TypedUtxoPart infer" where
  "infer_utxo_part n h k = (\<lambda>(j, part).
     (case part of
        UP_Storage vars \<Rightarrow> chain (map_infer (infer_utxo_global n h) vars) (\<lambda>vars. give (TUP_Storage vars))
      | UP_Function f \<Rightarrow>
          chain (check_constructor FE_UtxoMain f) (\<lambda>_.
          chain (infer_function n h (k @ [j]) f) (\<lambda>func. give (TUP_Function func)))
      | UP_AbiImpl abi fs \<Rightarrow>
          chain (infer_abi_impl n h (k @ [j]) abi fs) (\<lambda>(abi_info, parts).
          give (TUP_AbiImpl (id_span abi) abi_info parts))))"

definition registered_type :: "Identifier \<Rightarrow> Type infer" where
  "registered_type name =
     chain (asks (\<lambda>s. map_of (types (root (env s))) (id_name name))) (\<lambda>found.
     chain (unwrap found) (\<lambda>entry. give (entry_ty entry)))"

fun infer_utxo :: "nat \<Rightarrow> InferHost \<Rightarrow> node \<Rightarrow> UtxoDef \<Rightarrow> TypedUtxoDef infer" where
  "infer_utxo n h k (UtxoDef name parts) =
     chain open_scope (\<lambda>_.
     chain (map_infer (infer_utxo_part n h k) (enumerate 0 parts)) (\<lambda>typed_parts.
     chain close_scope (\<lambda>_.
     chain (registered_type name) (\<lambda>ty.
     (case ty of TUtxo u \<Rightarrow> give (TypedUtxoDef name typed_parts u) | _ \<Rightarrow> panic_here)))))"

fun is_mint :: "TokenPart \<Rightarrow> bool" where
  "is_mint (KP_Function f) = (fd_export f = Some FE_TokenMint)"
| "is_mint _ = False"

fun is_token_impl :: "TokenPart \<Rightarrow> bool" where
  "is_token_impl (KP_AbiImpl abi _) = (id_name abi = ''Token'')"
| "is_token_impl _ = False"

definition check_token_shape :: "Identifier \<Rightarrow> TokenPart list \<Rightarrow> unit infer" where
  "check_token_shape name parts =
     (let mint_count = length (filter is_mint parts); token_impl_count = length (filter is_token_impl parts) in
     if mint_count = 0 then fail (TypeError_new (TokenMissingMintFn (id_name name)) (id_span name))
     else if token_impl_count = 0 then fail (TypeError_new (TokenMissingImpl (id_name name)) (id_span name))
     else if token_impl_count = 1 then give ()
     else fail (TypeError_new (TokenDuplicateImpl (id_name name)) (id_span name)))"

definition infer_token_part :: "nat \<Rightarrow> InferHost \<Rightarrow> node \<Rightarrow> nat \<times> TokenPart \<Rightarrow> TypedTokenPart infer" where
  "infer_token_part n h k = (\<lambda>(j, part).
     (case part of
        KP_Storage vars \<Rightarrow> chain (map_infer (infer_token_global n h) vars) (\<lambda>vars. give (TKP_Storage vars))
      | KP_Function f \<Rightarrow>
          chain (check_constructor FE_TokenMint f) (\<lambda>_.
          chain (infer_function n h (k @ [j]) f) (\<lambda>func. give (TKP_Function func)))
      | KP_AbiImpl abi fs \<Rightarrow>
          chain (infer_abi_impl n h (k @ [j]) abi fs) (\<lambda>(abi_info, parts).
          give (TKP_AbiImpl (id_span abi) abi_info parts))))"

fun infer_token :: "nat \<Rightarrow> InferHost \<Rightarrow> node \<Rightarrow> TokenDef \<Rightarrow> TypedTokenDef infer" where
  "infer_token n h k (TokenDef name parts) =
     chain (check_token_shape name parts) (\<lambda>_.
     chain open_scope (\<lambda>_.
     chain (map_infer (infer_token_part n h k) (enumerate 0 parts)) (\<lambda>typed_parts.
     chain close_scope (\<lambda>_.
     chain (registered_type name) (\<lambda>ty.
     (case ty of TToken t \<Rightarrow> give (TypedTokenDef name typed_parts t) | _ \<Rightarrow> panic_here))))))"

section \<open>The passes over a module\<close>

definition register_definition :: "nat \<Rightarrow> InferHost \<Rightarrow> nat \<times> Definition Spanned \<Rightarrow> unit infer" where
  "register_definition n h = (\<lambda>(i, d).
     (case sp_node d of
        D_Contract \<Rightarrow> put_typed_definition [i] TD_Contract
      | D_Import _ \<Rightarrow> give ()
      | D_Struct def \<Rightarrow> chain (register_struct n h def) (\<lambda>ty. put_typed_definition [i] (TD_Struct ty))
      | D_Enum def \<Rightarrow> chain (register_enum n h def) (\<lambda>ty. put_typed_definition [i] (TD_Enum ty))
      | D_Abi def \<Rightarrow> chain (register_abi n h [i] def) (\<lambda>(ty, functions). put_typed_definition [i] (TD_Abi ty functions))
      | D_Utxo def \<Rightarrow> register_utxo n h [i] def
      | D_Token def \<Rightarrow> register_token n h [i] def
      | D_Function f \<Rightarrow> register_function n h [i] f))"

definition infer_definition :: "nat \<Rightarrow> InferHost \<Rightarrow> nat \<times> Definition Spanned \<Rightarrow> unit infer" where
  "infer_definition n h = (\<lambda>(i, d).
     (case sp_node d of
        D_Utxo def \<Rightarrow> chain (infer_utxo n h [i] def) (\<lambda>u. put_typed_definition [i] (TD_Utxo u))
      | D_Token def \<Rightarrow> chain (infer_token n h [i] def) (\<lambda>t. put_typed_definition [i] (TD_Token t))
      | D_Function f \<Rightarrow> chain (infer_function n h [i] f) (\<lambda>f. put_typed_definition [i] (TD_Function f))
      | _ \<Rightarrow> give ()))"

text \<open>\<^verbatim>\<open>self.typed_definitions.remove(&definition.node)\<close>, and the panic when there is none. The assertion that
  the map is empty afterwards holds here: an error stops the model, so no definition is left over.\<close>

definition take_typed_definition :: "nat \<times> Definition Spanned \<Rightarrow> TypedDefinition infer" where
  "take_typed_definition = (\<lambda>(i, d).
     chain (asks (\<lambda>s. typed_definitions (chk s) [i])) (\<lambda>found.
     chain (unwrap found) (\<lambda>def.
     chain (updates (\<lambda>s. Ok (s\<lparr>chk := (chk s)\<lparr>typed_definitions := (typed_definitions (chk s))([i] := None)\<rparr>\<rparr>)))
       (\<lambda>_. give def))))"

definition process_definitions :: "nat \<Rightarrow> InferHost \<Rightarrow> Definition Spanned list \<Rightarrow> TypedProgram infer" where
  "process_definitions n h defs =
     chain (map_infer (register_definition n h) (enumerate 0 defs)) (\<lambda>_.
     chain (map_infer (infer_definition n h) (enumerate 0 defs)) (\<lambda>_.
     chain (map_infer take_typed_definition (enumerate 0 defs)) (\<lambda>typed.
     give (TypedProgram typed))))"

section \<open>The final substitution\<close>

text \<open>\<open>sub\<close> is \<^verbatim>\<open>substitute_in_place\<close> on the types of the tree; \<open>X\<close>, \<open>B\<close> and \<open>S\<close> are the recursive calls.\<close>

type_synonym applies = "Type \<Rightarrow> Type total"

definition apply_in_expr :: "(TypedExpr \<Rightarrow> TypedExpr total) \<Rightarrow> TypedExpr Spanned \<Rightarrow> TypedExpr Spanned total" where
  "apply_in_expr X e = andthen (X (sp_node e)) (\<lambda>x. Ok (Spanned x (sp_span e)))"

definition map_opt_out :: "('x \<Rightarrow> 'y total) \<Rightarrow> 'x option \<Rightarrow> 'y option total" where
  "map_opt_out f opt = (case opt of None \<Rightarrow> Ok None | Some x \<Rightarrow> andthen (f x) (\<lambda>y. Ok (Some y)))"

fun apply_condition :: "applies \<Rightarrow> (TypedExpr \<Rightarrow> TypedExpr total) \<Rightarrow> TypedIfCondition \<Rightarrow> TypedIfCondition total" where
  "apply_condition sub X (TIC_Bool e) = andthen (apply_in_expr X e) (\<lambda>e. Ok (TIC_Bool e))"
| "apply_condition sub X (TIC_Is name ty abi span) = andthen (sub ty) (\<lambda>ty. Ok (TIC_Is name ty abi span))"

definition apply_callee_args ::
  "(TypedExpr \<Rightarrow> TypedExpr total) \<Rightarrow> TypedExpr Spanned \<Rightarrow> TypedExpr Spanned list
    \<Rightarrow> (TypedExpr Spanned \<times> TypedExpr Spanned list) total" where
  "apply_callee_args X callee args =
     andthen (apply_in_expr X callee) (\<lambda>callee.
     andthen (map_out (apply_in_expr X) args) (\<lambda>args. Ok (callee, args)))"

fun apply_kind ::
  "applies \<Rightarrow> (TypedExpr \<Rightarrow> TypedExpr total) \<Rightarrow> (TypedBlock \<Rightarrow> TypedBlock total) \<Rightarrow> TypedExprKind \<Rightarrow> TypedExprKind total" where
  "apply_kind sub X B (X_Literal l) = Ok (X_Literal l)"
| "apply_kind sub X B (X_ScopedName name constant) = Ok (X_ScopedName name constant)"
| "apply_kind sub X B (X_Unary op e) = andthen (apply_in_expr X e) (\<lambda>e. Ok (X_Unary op e))"
| "apply_kind sub X B (X_Binary op l r) =
     andthen (apply_in_expr X l) (\<lambda>l. andthen (apply_in_expr X r) (\<lambda>r. Ok (X_Binary op l r)))"
| "apply_kind sub X B (X_Grouping e) = andthen (apply_in_expr X e) (\<lambda>e. Ok (X_Grouping e))"
| "apply_kind sub X B (X_Tuple items) = andthen (map_out (apply_in_expr X) items) (\<lambda>items. Ok (X_Tuple items))"
| "apply_kind sub X B (X_StructConstructor name inits variant) =
     andthen (map_out (\<lambda>i. andthen (apply_in_expr X (init_value i)) (\<lambda>v.
       Ok (TypedStructFieldInitializer (init_name i) v))) inits) (\<lambda>inits.
     Ok (X_StructConstructor name inits variant))"
| "apply_kind sub X B (X_FieldAccess e name) = andthen (apply_in_expr X e) (\<lambda>e. Ok (X_FieldAccess e name))"
| "apply_kind sub X B (X_Block b) = andthen (B b) (\<lambda>b. Ok (X_Block b))"
| "apply_kind sub X B (X_If branches else_branch) =
     andthen (map_out (\<lambda>(c, b). andthen (apply_condition sub X c) (\<lambda>c. andthen (B b) (\<lambda>b. Ok (c, b)))) branches) (\<lambda>branches.
     andthen (map_opt_out B else_branch) (\<lambda>else_branch. Ok (X_If branches else_branch)))"
| "apply_kind sub X B (X_Match scrutinee arms) =
     andthen (apply_in_expr X scrutinee) (\<lambda>scrutinee.
     andthen (map_out (\<lambda>arm. andthen (B (arm_body arm)) (\<lambda>b. Ok (TypedMatchArm (arm_pattern arm) b))) arms) (\<lambda>arms.
     Ok (X_Match scrutinee arms)))"
| "apply_kind sub X B (X_Yield abis) = Ok (X_Yield abis)"
| "apply_kind sub X B (X_Call callee args) =
     andthen (apply_callee_args X callee args) (\<lambda>(callee, args). Ok (X_Call callee args))"
| "apply_kind sub X B (X_Disclose e) = andthen (apply_in_expr X e) (\<lambda>e. Ok (X_Disclose e))"
| "apply_kind sub X B (X_Emit callee args) =
     andthen (apply_callee_args X callee args) (\<lambda>(callee, args). Ok (X_Emit callee args))"
| "apply_kind sub X B (X_Raise callee args) =
     andthen (apply_callee_args X callee args) (\<lambda>(callee, args). Ok (X_Raise callee args))"
| "apply_kind sub X B (X_Runtime callee args) =
     andthen (apply_callee_args X callee args) (\<lambda>(callee, args). Ok (X_Runtime callee args))"

fun apply_statement_kind ::
  "(TypedExpr \<Rightarrow> TypedExpr total) \<Rightarrow> (TypedBlock \<Rightarrow> TypedBlock total) \<Rightarrow> TypedStatement \<Rightarrow> TypedStatement total" where
  "apply_statement_kind X B (TS_VariableDeclaration public mutable p e else_branch) =
     andthen (apply_in_expr X e) (\<lambda>e.
     andthen (map_opt_out B else_branch) (\<lambda>else_branch. Ok (TS_VariableDeclaration public mutable p e else_branch)))"
| "apply_statement_kind X B (TS_Assignment x e) = andthen (apply_in_expr X e) (\<lambda>e. Ok (TS_Assignment x e))"
| "apply_statement_kind X B (TS_While c b) =
     andthen (apply_in_expr X c) (\<lambda>c. andthen (B b) (\<lambda>b. Ok (TS_While c b)))"
| "apply_statement_kind X B (TS_Expression e) = andthen (apply_in_expr X e) (\<lambda>e. Ok (TS_Expression e))"
| "apply_statement_kind X B (TS_Return e) = andthen (map_opt_out (apply_in_expr X) e) (\<lambda>e. Ok (TS_Return e))"
| "apply_statement_kind X B TS_Resume = Ok TS_Resume"
| "apply_statement_kind X B (TS_TryWith subject effects) =
     andthen (B subject) (\<lambda>subject.
     andthen (map_out (\<lambda>(name, ps, b). andthen (B b) (\<lambda>b. Ok (name, ps, b))) effects) (\<lambda>effects.
     Ok (TS_TryWith subject effects)))"

definition apply_contents ::
  "(TypedExpr \<Rightarrow> TypedExpr total) \<Rightarrow> (TypedStatement \<Rightarrow> TypedStatement total) \<Rightarrow> TypedBlock \<Rightarrow> TypedBlock total" where
  "apply_contents X S b =
     andthen (map_out S (block_statements b)) (\<lambda>statements.
     andthen (map_opt_out (apply_in_expr X) (block_tail b)) (\<lambda>tail. Ok (TypedBlock statements tail)))"

fun apply_expr :: "nat \<Rightarrow> applies \<Rightarrow> TypedExpr \<Rightarrow> TypedExpr total"
  and apply_block :: "nat \<Rightarrow> applies \<Rightarrow> TypedBlock \<Rightarrow> TypedBlock total"
  and apply_statement :: "nat \<Rightarrow> applies \<Rightarrow> TypedStatement \<Rightarrow> TypedStatement total" where
  "apply_expr 0 sub e = Panic"
| "apply_expr (Suc n) sub e =
     andthen (sub (expr_ty e)) (\<lambda>ty.
     andthen (apply_kind sub (apply_expr n sub) (apply_block n sub) (expr_kind e)) (\<lambda>kind.
     Ok (TypedExpr ty kind)))"
| "apply_block 0 sub b = Panic"
| "apply_block (Suc n) sub b = apply_contents (apply_expr n sub) (apply_statement n sub) b"
| "apply_statement 0 sub st = Panic"
| "apply_statement (Suc n) sub st = apply_statement_kind (apply_expr n sub) (apply_block n sub) st"

definition sub_in_place :: "nat \<Rightarrow> InferHost \<Rightarrow> Inferencer \<Rightarrow> applies" where
  "sub_in_place n h i = substitute_in_place (unique_arc h) n (solution i) (int_vars i)"

definition sub_by_ref :: "nat \<Rightarrow> Inferencer \<Rightarrow> Type \<Rightarrow> Type Cow total" where
  "sub_by_ref n i = substitute_type n (solution i) (int_vars i)"

definition apply_function :: "nat \<Rightarrow> InferHost \<Rightarrow> Inferencer \<Rightarrow> TypedFunctionDef \<Rightarrow> TypedFunctionDef total" where
  "apply_function n h i f =
     andthen (sip_arc (unique_arc h (TFunction (tf_ty f))) (sip_function (sub_in_place n h i) (tf_ty f))
         (sub_function (sub_by_ref n i) (tf_ty f))) (\<lambda>ty.
     andthen (apply_block n (sub_in_place n h i) (tf_body f)) (\<lambda>body.
     Ok (TypedFunctionDef (tf_export f) (tf_name f) (tf_id f) ty body)))"

definition apply_abi :: "nat \<Rightarrow> InferHost \<Rightarrow> Inferencer \<Rightarrow> Type AbiType \<Rightarrow> Type AbiType total" where
  "apply_abi n h i abi =
     sip_arc (unique_arc h (TAbi abi)) (sip_abi (unique_arc h) (sub_in_place n h i) (sub_by_ref n i) abi)
       (sub_abi (sub_by_ref n i) abi)"

fun apply_utxo_part :: "nat \<Rightarrow> InferHost \<Rightarrow> Inferencer \<Rightarrow> TypedUtxoPart \<Rightarrow> TypedUtxoPart total" where
  "apply_utxo_part n h i (TUP_Storage vars) =
     andthen (map_out (\<lambda>v. case v of TypedUtxoGlobal name ty \<Rightarrow>
       andthen (sub_in_place n h i ty) (\<lambda>ty. Ok (TypedUtxoGlobal name ty))) vars) (\<lambda>vars. Ok (TUP_Storage vars))"
| "apply_utxo_part n h i (TUP_Function f) = andthen (apply_function n h i f) (\<lambda>f. Ok (TUP_Function f))"
| "apply_utxo_part n h i (TUP_AbiImpl span abi fs) =
     andthen (apply_abi n h i abi) (\<lambda>abi.
     andthen (map_out (apply_function n h i) fs) (\<lambda>fs. Ok (TUP_AbiImpl span abi fs)))"

fun apply_utxo :: "nat \<Rightarrow> InferHost \<Rightarrow> Inferencer \<Rightarrow> TypedUtxoDef \<Rightarrow> TypedUtxoDef total" where
  "apply_utxo n h i (TypedUtxoDef name parts u) =
     andthen (sip_arc (unique_arc h (TUtxo u)) (sip_utxo (unique_arc h) (sub_in_place n h i) (sub_by_ref n i) u)
         (sub_utxo (sub_by_ref n i) u)) (\<lambda>u.
     andthen (map_out (apply_utxo_part n h i) parts) (\<lambda>parts. Ok (TypedUtxoDef name parts u)))"

fun apply_token_part :: "nat \<Rightarrow> InferHost \<Rightarrow> Inferencer \<Rightarrow> TypedTokenPart \<Rightarrow> TypedTokenPart total" where
  "apply_token_part n h i (TKP_Storage vars) =
     andthen (map_out (\<lambda>v. case v of TypedTokenGlobal indexed name ty \<Rightarrow>
       andthen (sub_in_place n h i ty) (\<lambda>ty. Ok (TypedTokenGlobal indexed name ty))) vars) (\<lambda>vars. Ok (TKP_Storage vars))"
| "apply_token_part n h i (TKP_Function f) = andthen (apply_function n h i f) (\<lambda>f. Ok (TKP_Function f))"
| "apply_token_part n h i (TKP_AbiImpl span abi fs) =
     andthen (apply_abi n h i abi) (\<lambda>abi.
     andthen (map_out (apply_function n h i) fs) (\<lambda>fs. Ok (TKP_AbiImpl span abi fs)))"

fun apply_token :: "nat \<Rightarrow> InferHost \<Rightarrow> Inferencer \<Rightarrow> TypedTokenDef \<Rightarrow> TypedTokenDef total" where
  "apply_token n h i (TypedTokenDef name parts t) =
     andthen (sip_arc (unique_arc h (TToken t)) (sip_token (sub_in_place n h i) t) (sub_token (sub_by_ref n i) t)) (\<lambda>t.
     andthen (map_out (apply_token_part n h i) parts) (\<lambda>parts. Ok (TypedTokenDef name parts t)))"

definition apply_definition :: "nat \<Rightarrow> InferHost \<Rightarrow> Inferencer \<Rightarrow> TypedDefinition \<Rightarrow> TypedDefinition total" where
  "apply_definition n h i d =
     (case d of
        TD_Function f \<Rightarrow> andthen (apply_function n h i f) (\<lambda>f. Ok (TD_Function f))
      | TD_Utxo u \<Rightarrow> andthen (apply_utxo n h i u) (\<lambda>u. Ok (TD_Utxo u))
      | TD_Token t \<Rightarrow> andthen (apply_token n h i t) (\<lambda>t. Ok (TD_Token t))
      | _ \<Rightarrow> Ok d)"

definition apply_substitutions_program :: "nat \<Rightarrow> InferHost \<Rightarrow> Inferencer \<Rightarrow> TypedProgram \<Rightarrow> TypedProgram total" where
  "apply_substitutions_program n h i p =
     andthen (map_out (apply_definition n h i) (tp_definitions p)) (\<lambda>defs. Ok (TypedProgram defs))"

section \<open>The entry points\<close>

definition Inferencer_new :: "Checker total" where
  "Inferencer_new =
     andthen BuiltinRegistry_new (\<lambda>(b, tv, nid).
     Ok \<lparr>warnings = [],
         inferencer = \<lparr>next_type_var = tv, solution = Map.empty, int_vars = {}, int_literal_values = Map.empty\<rparr>,
         builtins = b, next_name_id = nid, function_names = Map.empty, typed_definitions = Map.empty,
         abi_call_trackers = []\<rparr>)"

text \<open>No function is being checked outside \<open>infer_function\<close>.\<close>

definition no_ctx :: FunctionCtx where
  "no_ctx = \<lparr>expected_return = TUnit, return_span = DUMMY_SPAN, saw_return = False,
     private_param_decl_spans = [], is_coroutine = False\<rparr>"

text \<open>The state in which a module starts: a new environment with the prelude, which the source unwraps.\<close>

definition start_module :: "Checker \<Rightarrow> ('e, InferState) outcome" where
  "start_module c =
     (case import_all_from (prelude (builtins c)) Namespace_default of
        Ok ns \<Rightarrow> Ok \<lparr>chk = c, env = TypeEnv_new\<lparr>root := ns\<rparr>, ctx = no_ctx\<rparr>
      | _ \<Rightarrow> Panic)"

text \<open>Both passes over one module.\<close>

definition infer_module :: "nat \<Rightarrow> InferHost \<Rightarrow> (nat \<rightharpoonup> Namespace) \<Rightarrow> Definition Spanned list \<Rightarrow> TypedProgram infer" where
  "infer_module n h resolved defs =
     chain (register_imports resolved defs) (\<lambda>_. process_definitions n h defs)"

text \<open>Defaulting, the range check, and the final substitution. The iteration orders are parameters:
  \<open>var_order\<close> lists the hash set of integer variables, \<open>literal_order\<close> the hash map of literals.\<close>

record Orders =
  var_order :: "Inferencer \<Rightarrow> TypeVarId list"
  literal_order :: "Inferencer \<Rightarrow> (TypeVarId \<times> IntegerLiteral \<times> Span) list"

definition finish_inference :: "nat \<Rightarrow> Orders \<Rightarrow> Inferencer \<Rightarrow> (TypeError list, Inferencer) outcome" where
  "finish_inference n orders i =
     andthen (lift (default_int_vars n (var_order orders i) i)) (\<lambda>i.
     andthen (check_int_literal_ranges n (literal_order orders i) i) (\<lambda>_. Ok i))"

text \<open>The generic types of the prelude, with their parameters as arguments. The hash map is the list of its
  entries.\<close>

record GenericTypeDef =
  gen_ty :: Type
  gen_type_params :: "TypeParam list"
  gen_doc :: "string option"
  gen_variant_docs :: "(string \<times> string) list"

definition generic_type_def :: "TypeEntry \<Rightarrow> GenericTypeDef" where
  "generic_type_def entry =
     \<lparr>gen_ty =
        (case entry_ty entry of
           TEnum e \<Rightarrow> TEnum (EnumType (enum_name e) (enum_variants e) (map (\<lambda>p. TVar (tparam_id p)) (entry_type_params entry)))
         | ty \<Rightarrow> ty),
      gen_type_params = entry_type_params entry, gen_doc = entry_doc entry, gen_variant_docs = entry_variant_docs entry\<rparr>"

definition build_generic_type_defs :: "Namespace \<Rightarrow> (string \<times> GenericTypeDef) list" where
  "build_generic_type_defs ns =
     map (\<lambda>(name, entry). (name, generic_type_def entry))
       (filter (\<lambda>(name, entry). entry_type_params entry \<noteq> [] \<or> entry_doc entry \<noteq> None) (types ns))"

record TypecheckSuccess =
  ts_program :: TypedProgram
  ts_generic_types :: "(string \<times> GenericTypeDef) list"
  ts_warnings :: "TypeWarning list"

definition typecheck_program ::
  "nat \<Rightarrow> InferHost \<Rightarrow> Orders \<Rightarrow> Program \<Rightarrow> (TypeError list, TypecheckSuccess) outcome" where
  "typecheck_program n h orders p =
     andthen (lift Inferencer_new) (\<lambda>c.
     andthen (start_module c) (\<lambda>s.
     andthen (map_err (\<lambda>e. [e]) (infer_module n h Map.empty (definitions p) s)) (\<lambda>(typed, s).
     andthen (finish_inference n orders (inferencer (chk s))) (\<lambda>i.
     andthen (lift (apply_substitutions_program n h i typed)) (\<lambda>typed.
     Ok \<lparr>ts_program = typed, ts_generic_types = build_generic_type_defs (prelude (builtins (chk s))),
         ts_warnings = warnings (chk s)\<rparr>)))))"

end
