(* ===== verification/Infer_Frame.thy ===== *)
theory Infer_Frame
  imports Infer_Program
begin

text \<open>
  What inference leaves alone. The contract of an operation is a preorder on states that it moves along; the
  locale \<open>state_preorder\<close> closes such contracts under the ways operations are composed.
\<close>

section \<open>Results of compositions\<close>

lemma chain_Ok: "chain m k s = Ok (y, t) \<longleftrightarrow> (\<exists>x u. m s = Ok (x, u) \<and> k x u = Ok (y, t))"
  by (auto simp: chain_def outcome_simps)

lemma give_Ok: "give x s = Ok (y, t) \<longleftrightarrow> y = x \<and> t = s"
  by (auto simp: give_def)

lemma fail_Ok: "fail e s \<noteq> Ok r" "panic_here s \<noteq> Ok r"
  by (simp_all add: fail_def panic_here_def)

lemma reads_Ok: "reads f s = Ok (x, t) \<longleftrightarrow> f s = Ok x \<and> t = s"
  by (auto simp: reads_def outcome_simps)

lemma asks_Ok: "asks f s = Ok (x, t) \<longleftrightarrow> x = f s \<and> t = s"
  by (auto simp: asks_def)

lemma updates_Ok: "updates f s = Ok (x, t) \<longleftrightarrow> f s = Ok t"
  by (auto simp: updates_def outcome_simps)

lemma from_option_Ok: "from_option e opt s = Ok (x, t) \<longleftrightarrow> opt = Some x \<and> t = s"
  by (auto simp: from_option_def give_def fail_def split: option.splits)

lemma unwrap_Ok: "unwrap opt s = Ok (x, t) \<longleftrightarrow> opt = Some x \<and> t = s"
  by (auto simp: unwrap_def give_def panic_here_def split: option.splits)

lemma lift_Ok: "lift m = Ok x \<longleftrightarrow> m = Ok x"
  by (cases m) auto

lemma on_inferencer_Ok:
  "on_inferencer f s = Ok (x, t) \<longleftrightarrow> (\<exists>i. f (inferencer (chk s)) = Ok (x, i) \<and> t = set_inferencer i s)"
  by (auto simp: on_inferencer_def outcome_simps lift_Ok)

lemma unify_in_Ok:
  "unify_in n h l r ls rs kind s = Ok (ty, t) \<longleftrightarrow>
    (\<exists>i. unify n (type_host h) (inferencer (chk s)) l r ls rs kind = Ok (i, ty) \<and> t = set_inferencer i s)"
  by (auto simp: unify_in_def outcome_simps)

lemmas infer_results = chain_Ok give_Ok fail_Ok reads_Ok asks_Ok updates_Ok from_option_Ok unwrap_Ok lift_Ok

section \<open>Contracts\<close>

definition keeps :: "(InferState \<Rightarrow> InferState \<Rightarrow> bool) \<Rightarrow> 'a infer \<Rightarrow> bool" where
  "keeps R m = (\<forall>s x t. m s = Ok (x, t) \<longrightarrow> R s t)"

lemma keepsI: "(\<And>s x t. m s = Ok (x, t) \<Longrightarrow> R s t) \<Longrightarrow> keeps R m"
  by (simp add: keeps_def)

lemma keepsD: "keeps R m \<Longrightarrow> m s = Ok (x, t) \<Longrightarrow> R s t"
  by (simp add: keeps_def)

lemma keeps_weaken: "keeps R m \<Longrightarrow> (\<And>s t. R s t \<Longrightarrow> Q s t) \<Longrightarrow> keeps Q m"
  by (auto simp: keeps_def)

locale state_preorder =
  fixes R :: "InferState \<Rightarrow> InferState \<Rightarrow> bool"
  assumes refl: "R s s" and trans: "R s t \<Longrightarrow> R t u \<Longrightarrow> R s u"
begin

lemma give: "keeps R (give x)" by (simp add: keeps_def give_def refl)
lemma fail: "keeps R (fail e)" by (simp add: keeps_def fail_def)
lemma panic: "keeps R panic_here" by (simp add: keeps_def panic_here_def)
lemma reads: "keeps R (reads f)" by (auto simp: keeps_def reads_Ok refl)
lemma asks: "keeps R (asks f)" by (auto simp: keeps_def asks_Ok refl)
lemma from_opt: "keeps R (from_option e opt)" by (auto simp: keeps_def from_option_Ok refl)
lemma unwrapped: "keeps R (unwrap opt)" by (auto simp: keeps_def unwrap_Ok refl)

lemma chain: "keeps R m \<Longrightarrow> (\<And>x. keeps R (k x)) \<Longrightarrow> keeps R (chain m k)"
  by (rule keepsI) (auto simp: chain_Ok dest!: keepsD intro: trans)

lemma mapped: "(\<And>x. x \<in> set xs \<Longrightarrow> keeps R (f x)) \<Longrightarrow> keeps R (map_infer f xs)"
  by (induction xs) (auto intro!: chain give)

lemma folded: "(\<And>x a. x \<in> set xs \<Longrightarrow> keeps R (f x a)) \<Longrightarrow> keeps R (fold_infer f xs a)"
  by (induction xs arbitrary: a) (auto intro!: chain give)

lemmas basic = give fail panic reads asks from_opt unwrapped

end

section \<open>Below the top scopes\<close>

text \<open>
  \<open>moves a b s t\<close>: below the \<open>a\<close> scopes on top of \<open>s\<close> and the \<open>b\<close> on top of \<open>t\<close> the scopes agree, and so do
  the root namespace, the registered names and definitions and the declared part of the function context.
\<close>

definition same_rest :: "InferState \<Rightarrow> InferState \<Rightarrow> bool" where
  "same_rest s t =
     (root (env t) = root (env s) \<and> builtins (chk t) = builtins (chk s)
      \<and> next_name_id (chk t) = next_name_id (chk s) \<and> function_names (chk t) = function_names (chk s)
      \<and> typed_definitions (chk t) = typed_definitions (chk s)
      \<and> expected_return (ctx t) = expected_return (ctx s) \<and> return_span (ctx t) = return_span (ctx s)
      \<and> private_param_decl_spans (ctx t) = private_param_decl_spans (ctx s)
      \<and> is_coroutine (ctx t) = is_coroutine (ctx s))"

definition moves :: "nat \<Rightarrow> nat \<Rightarrow> InferState \<Rightarrow> InferState \<Rightarrow> bool" where
  "moves a b s t =
     (same_rest s t \<and>
      (a \<le> length (scopes (env s)) \<longrightarrow>
        b \<le> length (scopes (env t)) \<and> drop b (scopes (env t)) = drop a (scopes (env s))))"

lemma moves_trans: "moves a b s t \<Longrightarrow> moves b c t u \<Longrightarrow> moves a c s u"
  by (auto simp: moves_def same_rest_def)

interpretation mv: state_preorder "moves a a" for a
  by unfold_locales (auto simp: moves_def same_rest_def)

lemma moves_deeper: "moves a b s t \<Longrightarrow> moves (Suc a) (Suc b) s t"
proof -
  assume m: "moves a b s t"
  have "Suc b \<le> length (scopes (env t)) \<and> drop (Suc b) (scopes (env t)) = drop (Suc a) (scopes (env s))"
    if "Suc a \<le> length (scopes (env s))"
  proof -
    from m that have e: "drop b (scopes (env t)) = drop a (scopes (env s))" "b \<le> length (scopes (env t))"
      by (auto simp: moves_def)
    then have "length (scopes (env t)) - b = length (scopes (env s)) - a" by (metis length_drop)
    with that e have "Suc b \<le> length (scopes (env t))" by linarith
    moreover have "drop (Suc b) (scopes (env t)) = drop 1 (drop b (scopes (env t)))" by simp
    ultimately show ?thesis using e by simp
  qed
  with m show ?thesis by (simp add: moves_def)
qed

lemma keeps_chain: "keeps (moves a b) m \<Longrightarrow> (\<And>x. keeps (moves b c) (k x)) \<Longrightarrow> keeps (moves a c) (chain m k)"
  by (rule keepsI) (auto simp: chain_Ok dest!: keepsD intro: moves_trans)

lemma keeps_deeper: "keeps (moves a b) m \<Longrightarrow> keeps (moves (Suc a) (Suc b)) m"
  by (auto simp: keeps_def intro: moves_deeper)

subsection \<open>The operations on the state\<close>

lemma moves_parts [simp]:
  "moves a a s (set_inferencer i s)" "moves a a s (set_trackers ts s)"
  "moves a a s (set_saw_return b s)" "moves a a s (add_warning w s)"
  by (simp_all add: moves_def same_rest_def set_inferencer_def set_trackers_def set_saw_return_def add_warning_def)

named_theorems moved

lemma keeps_unify [moved]: "keeps (moves a a) (unify_in n h l r ls rs kind)"
  by (auto simp: keeps_def unify_in_Ok)

lemma keeps_unify_arms [moved]: "keeps (moves a a) (unify_arms n h l r ls rs)"
  by (auto simp: keeps_def unify_arms_def outcome_simps)

lemma keeps_on_inferencer [moved]: "keeps (moves a a) (on_inferencer f)"
  by (auto simp: keeps_def on_inferencer_Ok)

lemma keeps_updates [moved]:
  "keeps (moves a a) (updates (\<lambda>s. Ok (set_trackers (f s) s)))"
  "keeps (moves a a) (updates (\<lambda>s. Ok (set_saw_return (g s) s)))"
  "keeps (moves a a) (updates (\<lambda>s. Ok (add_warning w s)))"
  by (auto simp: keeps_def updates_Ok)

lemma keeps_track [moved]: "keeps (moves a a) (updates (\<lambda>s. andthen (f s) (\<lambda>ts. Ok (set_trackers ts s))))"
  by (auto simp: keeps_def updates_Ok outcome_simps)

lemma keeps_open: "keeps (moves 0 1) open_scope"
  by (auto simp: keeps_def open_scope_def updates_Ok moves_def same_rest_def set_env_def push_scope_def)

lemma keeps_close: "keeps (moves 1 0) close_scope"
  by (auto simp: keeps_def close_scope_def updates_Ok moves_def same_rest_def set_env_def pop_scope_def drop_Suc)

lemma keeps_bind [moved]: "keeps (moves (Suc 0) (Suc 0)) (bind_name x b)"
  by (auto simp: keeps_def bind_name_def updates_Ok outcome_simps env_insert_def moves_def same_rest_def set_env_def
      split: list.splits)

lemmas [moved] = mv.basic mv.chain mv.mapped mv.folded

subsection \<open>Names and patterns\<close>

lemma keeps_refresh [moved]: "keeps (moves a a) (refresh_type_params n ty ps)"
  by (auto simp: refresh_type_params_def fresh_var_in_def intro!: moved)

lemma keeps_lookups [moved]:
  "keeps (moves a a) (lookup_namespace path)" "keeps (moves a a) (lookup_abi name)"
  "keeps (moves a a) (apply_in n ty)" "keeps (moves a a) (display_in n ty)"
  "keeps (moves a a) (generalize_in n ty)" "keeps (moves a a) (instantiate_in n sch)"
  "keeps (moves a a) (annotated_type n h ann)" "keeps (moves a a) fresh_var_in"
  unfolding lookup_namespace_def lookup_abi_def apply_in_def display_in_def generalize_in_def instantiate_in_def
    annotated_type_def fresh_var_in_def by (rule moved)+

lemma keeps_lookup_name [moved]: "keeps (moves a a) (lookup_name n name)"
  by (auto simp: lookup_name_def split: option.splits intro!: moved)

lemma keeps_lookup_struct [moved]: "keeps (moves a a) (lookup_struct_info name)"
  by (auto simp: lookup_struct_info_def intro!: moved)

lemma keeps_take_field [moved]: "keeps (moves a a) (take_field sn name maps)"
  by (auto simp: take_field_def Let_def split: prod.splits option.splits intro!: moved)

lemma keeps_no_field_left [moved]: "keeps (moves a a) (no_field_left sn maps)"
  by (auto simp: no_field_left_def split: list.splits intro!: moved)

lemma keeps_lookup_tuple [moved]: "keeps (moves a a) (lookup_tuple_constructor name k)"
  by (auto simp: lookup_tuple_constructor_def Let_def split: option.splits Type.splits StaticFunction.splits intro!: moved)

lemma keeps_bind_pattern [moved]: "keeps (moves (Suc 0) (Suc 0)) (bind_pattern_identifier n i ty mutable v)"
  by (auto simp: bind_pattern_identifier_def intro!: moved)

lemma keeps_pattern: "keeps (moves (Suc 0) (Suc 0)) (infer_pattern n h span mutable v p ty)"
proof (induction n arbitrary: p ty)
  case (Suc n)
  then show ?case
    by (cases p) (auto simp: infer_name_pattern_def infer_literal_pattern_def infer_struct_pattern_def
        infer_tuple_pattern_def infer_anon_tuple_pattern_def infer_struct_field_pattern_def
        split: option.splits prod.splits Literal.splits StructPatternField.splits intro!: moved)
qed (simp add: moved)

section \<open>Expressions, statements, blocks\<close>

text \<open>Checkers of expressions and blocks that leave the scopes as they were.\<close>

locale framed =
  fixes X :: infer_ex and B :: infer_blk
  assumes X0: "keeps (moves 0 0) (X e)" and B0: "keeps (moves 0 0) (B b r)"
begin

lemma X1: "keeps (moves (Suc 0) (Suc 0)) (X e)" by (rule keeps_deeper [OF X0])
lemma B1: "keeps (moves (Suc 0) (Suc 0)) (B b r)" by (rule keeps_deeper [OF B0])

lemmas calls = X0 B0 X1 B1

lemma checks [moved]:
  "keeps (moves a a) (require_bool n ty span c)" "keeps (moves a a) (require_is n h l r ls rs kind)"
  "keeps (moves a a) (operand_mismatch n op l r)" "keeps (moves a a) (operand_error n h op l r ls rs)"
  "keeps (moves a a) (check_negate n e span)" "keeps (moves a a) (visibility_of v)"
  by (auto simp: require_bool_def require_is_def operand_mismatch_def operand_error_def check_negate_def visibility_of_def
      split: Type.splits intro!: moved)

lemma binary_checks [moved]:
  "keeps (moves a a) (require_numeric_or_bool_pair n h op l ls r rs)"
  "keeps (moves a a) (require_same_primitive n h op l ls r rs)"
  "keeps (moves a a) (binary_type n h op l r lt rt ls rs)"
  by (auto simp: require_numeric_or_bool_pair_def require_same_primitive_def binary_type_def infer_arithmetic_def
      infer_logical_def intro!: moved)

lemma condition: "keeps (moves 0 0) (infer_condition n X c k)"
  by (auto simp: infer_condition_def intro!: moved calls)

lemma merge [moved]: "keeps (moves a a) (merge_branch n h span r ty s)"
  by (auto simp: merge_branch_def split: option.splits intro!: moved)

lemma is_branch: "keeps (moves 0 0) (infer_is_branch n B name abi b)"
  unfolding infer_is_branch_def
  by (intro keeps_chain [where b = 0] keeps_chain [OF keeps_open] keeps_chain [OF keeps_close]
      keeps_chain [where a = 1 and b = 1] moved calls)
    (auto split: Type.splits intro!: moved calls)

lemma match_arm: "keeps (moves 0 0) (infer_match_arm n h B span ss ty arm acc)"
  unfolding infer_match_arm_def
  by (auto simp: Let_def split: MatchArm.splits prod.splits option.splits
      intro!: keeps_chain [OF keeps_open] keeps_chain [OF keeps_close] keeps_chain [where a = 1 and b = 1 and c = 0]
        keeps_pattern moved calls)

lemma argument: "keeps (moves 0 0) (infer_argument n h X arg)"
  by (auto simp: infer_argument_def split: prod.splits intro!: moved calls)

lemma linearity [moved]: "keeps (moves a a) (check_linearity c span)" "keeps (moves a a) (check_call_kind u k name span)"
  by (auto simp: check_linearity_def check_call_kind_def split: option.splits intro!: moved)

lemma call: "keeps (moves 0 0) (infer_call n h X span callee args kind)"
  by (auto simp: infer_call_def Let_def split: Type.splits intro!: moved calls argument)

lemma field_init: "keeps (moves 0 0) (infer_field_init n h X sn i acc)"
  by (auto simp: infer_field_init_def split: StructFieldInitializer.splits prod.splits intro!: moved calls)

lemma branch: "keeps (moves 0 0) (infer_branch n h X B span br acc)"
  by (auto simp: infer_branch_def split: IfCondition.splits prod.splits intro!: moved calls condition is_branch)

lemma literal [moved]: "keeps (moves a a) (infer_literal l span)"
  by (cases l) (auto intro!: moved)

lemma expr_kind: "keeps (moves 0 0) (infer_expr_kind n h X B e span)"
  by (cases e) (auto simp: infer_name_def infer_unary_def infer_binary_def infer_grouping_def infer_tuple_def
      infer_struct_constructor_def infer_field_access_def infer_block_expr_def infer_if_def infer_match_def
      infer_yield_def infer_disclose_def split: UnaryOp.splits option.splits prod.splits
      intro!: moved calls call field_init branch match_arm)

lemma annotated [moved]: "keeps (moves a a) (infer_annotated n h s ann ty span)"
  by (auto simp: infer_annotated_def split: option.splits intro!: moved)

lemma public_checks [moved]:
  "keeps (moves a a) (check_redeclaration s span)" "keeps (moves a a) (require_public pb name help v)"
  "keeps (moves a a) (check_irrefutable n ty p span)" "keeps (moves a a) (unify_return n h ty span)"
  "keeps (moves a a) return_seen" "keeps (moves a a) (require_unit_block n h b)"
  by (auto simp: check_redeclaration_def require_public_def check_irrefutable_def unify_return_def return_seen_def
      require_unit_block_def split: option.splits outcome.splits intro!: moved)

lemma else_block: "keeps (moves (Suc 0) (Suc 0)) (infer_else B e)"
  by (auto simp: infer_else_def split: option.splits intro!: moved calls)

lemma effect [moved]: "keeps (moves a a) (lookup_effect n name k)"
  by (auto simp: lookup_effect_def Let_def split: Type.splits prod.splits intro!: moved)

lemma handler: "keeps (moves 0 0) (infer_handler n h B hdl)"
  unfolding infer_handler_def
  by (auto split: prod.splits intro!: keeps_chain [OF keeps_open] keeps_chain [OF keeps_close]
      keeps_chain [where a = 1 and b = 1 and c = 0] keeps_pattern moved calls)

lemma try_with: "keeps (moves (Suc 0) (Suc 0)) (infer_try_with n h B b hs)"
  by (auto simp: infer_try_with_def intro!: moved calls keeps_deeper [OF handler])

lemma statement_kind: "keeps (moves (Suc 0) (Suc 0)) (infer_statement_kind n h X B st)"
  by (cases st) (auto simp: infer_let_def Let_def infer_assignment_def infer_return_def infer_while_def
      infer_expression_statement_def infer_resume_def split: option.splits
      intro!: moved calls keeps_deeper [OF condition] keeps_pattern else_block try_with)

lemma tail: "keeps (moves (Suc 0) (Suc 0)) (infer_tail n h X r e)"
  by (auto simp: infer_tail_def split: option.splits intro!: moved calls)

lemma contents:
  assumes "\<And>st. keeps (moves (Suc 0) (Suc 0)) (S st)"
  shows "keeps (moves 0 0) (infer_block_contents n h X S b r)"
  by (cases b) (auto intro!: keeps_chain [OF keeps_open] keeps_chain [OF keeps_close]
      keeps_chain [where a = 1 and b = 1 and c = 0] moved tail assms)

end

lemma keeps_infer:
  "keeps (moves 0 0) (infer_expr n h e)" "keeps (moves 0 0) (infer_block n h b r)"
  "keeps (moves (Suc 0) (Suc 0)) (infer_statement n h st)"
proof (induction n arbitrary: e b r st)
  case (Suc n)
  then have f: "framed (infer_expr n h) (infer_block n h)" by unfold_locales
  {
    case 1
    show ?case by (simp add: framed.expr_kind [OF f])
  next
    case 2
    show ?case using framed.contents [OF f Suc.IH(3)] by simp
  next
    case 3
    show ?case by (simp add: framed.statement_kind [OF f])
  }
qed (simp_all add: moved)

interpretation fr: framed "infer_expr n h" "infer_block n h" for n h
  by unfold_locales (rule keeps_infer)+

end
