(* ===== verification/Infer_Scalar.thy ===== *)
theory Infer_Scalar
  imports Infer_Frame Unify_Literals Interpreter_Sound
begin

text \<open>
  Inference on scalar types: integers, \<^verbatim>\<open>bool\<close> and \<^verbatim>\<open>()\<close>, where every type variable comes from an integer
  literal. A model \<open>\<rho>\<close> gives the variables the types they have in the end; what inference does later only
  adds constraints on it.
\<close>

section \<open>Scalar types\<close>

definition sty :: "TypeVarId set \<Rightarrow> Type \<Rightarrow> bool" where
  "sty I t = (t = TUnit \<or> t = TBool \<or> int_like I t)"

lemma sty_simps [simp]: "sty I TUnit" "sty I TBool" "sty I (TInt w)" "sty I (TVar v) \<longleftrightarrow> v \<in> I"
  by (simp_all add: sty_def int_like_def)

lemma sty_cases:
  assumes "sty I t"
  obtains "t = TUnit" | "t = TBool" | w where "t = TInt w" | v where "t = TVar v" "v \<in> I"
  using assms by (cases t) (auto simp: sty_def int_like_def)

lemma sty_mono: "sty I t \<Longrightarrow> I \<subseteq> J \<Longrightarrow> sty J t"
  by (auto elim!: sty_cases)

lemma sty_covered: "sty I t \<Longrightarrow> covered t"
  by (auto elim!: sty_cases)

definition scalar_inf :: "Inferencer \<Rightarrow> bool" where
  "scalar_inf i = (inferencer_ok i \<and> dom (solution i) \<subseteq> int_vars i
     \<and> (\<forall>v t. solution i v = Some t \<longrightarrow> sty (int_vars i) t) \<and> (\<forall>v\<in>int_vars i. v < next_type_var i))"

definition grows :: "Inferencer \<Rightarrow> Inferencer \<Rightarrow> bool" where
  "grows i j = (solution i \<subseteq>\<^sub>m solution j \<and> int_vars i \<subseteq> int_vars j \<and> int_literal_values i \<subseteq>\<^sub>m int_literal_values j)"

lemma frame_grows_same [simp]: "grows i i"
  by (simp add: grows_def)

lemma grows_then: "grows i j \<Longrightarrow> grows j k \<Longrightarrow> grows i k"
  by (auto simp: grows_def intro: map_le_trans)

lemma sty_grows: "sty (int_vars i) t \<Longrightarrow> grows i j \<Longrightarrow> sty (int_vars j) t"
  by (auto simp: grows_def intro: sty_mono)

definition model :: "Inferencer \<Rightarrow> (Type \<Rightarrow> Type) \<Rightarrow> bool" where
  "model i \<rho> = (\<rho> TUnit = TUnit \<and> \<rho> TBool = TBool \<and> (\<forall>w. \<rho> (TInt w) = TInt w)
     \<and> (\<forall>v t. solution i v = Some t \<longrightarrow> \<rho> (TVar v) = \<rho> t) \<and> (\<forall>v\<in>int_vars i. \<exists>w. \<rho> (TVar v) = TInt w)
     \<and> (\<forall>v l span. int_literal_values i v = Some (l, span) \<longrightarrow> literal_typed (L_Integer l) (\<rho> (TVar v))))"

lemma model_grows: "model j \<rho> \<Longrightarrow> grows i j \<Longrightarrow> model i \<rho>"
  unfolding model_def grows_def map_le_def by (metis domIff option.distinct(1) subsetD)

lemma model_base: "model i \<rho> \<Longrightarrow> \<rho> TUnit = TUnit" "model i \<rho> \<Longrightarrow> \<rho> TBool = TBool" "model i \<rho> \<Longrightarrow> \<rho> (TInt w) = TInt w"
  by (simp_all add: model_def)

lemma model_int: "model i \<rho> \<Longrightarrow> int_like (int_vars i) t \<Longrightarrow> \<exists>w. \<rho> t = TInt w"
  by (cases t) (auto simp: model_def int_like_def)

section \<open>Resolving\<close>

lemma substitute_scalar:
  assumes i: "scalar_inf i"
  shows "sty (int_vars i) t \<Longrightarrow> substitute_type n (solution i) {} t = Ok c \<Longrightarrow>
    sty (int_vars i) (into_owned c) \<and> full (solution i) t = into_owned c
    \<and> (\<forall>v. into_owned c = TVar v \<longrightarrow> unsolved (solution i) v) \<and> (\<forall>\<rho>. model i \<rho> \<longrightarrow> \<rho> (into_owned c) = \<rho> t)"
proof (induction n arbitrary: t c)
  case (Suc n)
  from i have ok: "subst_ok (solution i)" by (simp add: scalar_inf_def inferencer_ok_def)
  from Suc.prems(1) show ?case
  proof (cases rule: sty_cases)
    case (4 v)
    show ?thesis
    proof (cases "solution i v")
      case None
      with 4 Suc.prems show ?thesis by (auto simp: resolve_rec [OF ok] unsolved_def)
    next
      case (Some u)
      with i have "sty (int_vars i) u" by (simp add: scalar_inf_def)
      from Suc.prems(2) 4 Some obtain d where "substitute_type n (solution i) {} u = Ok d" "c = Owned (into_owned d)"
        by (auto simp: outcome_simps)
      with Suc.IH [OF \<open>sty (int_vars i) u\<close>] 4 Some show ?thesis
        by (auto simp: resolve_rec [OF ok, of _ v] model_def)
    qed
  qed (use Suc.prems in auto)
qed simp

lemma apply_scalar:
  assumes "scalar_inf i" "sty (int_vars i) t" "apply_subst n i t = Ok r"
  shows "sty (int_vars i) r" "full (solution i) r = r" "r = TVar v \<Longrightarrow> unsolved (solution i) v" "model i \<rho> \<Longrightarrow> \<rho> r = \<rho> t"
proof -
  from assms(3) obtain c where c: "substitute_type n (solution i) {} t = Ok c" "r = into_owned c"
    by (auto simp: apply_subst_def own_def outcome_simps)
  note s = substitute_scalar [OF assms(1,2) c(1), folded c(2)]
  from assms(1) have "subst_ok (solution i)" by (simp add: scalar_inf_def inferencer_ok_def)
  from full_idem [OF this sty_covered [OF assms(2)]] s show "full (solution i) r = r" by simp
  from s show "sty (int_vars i) r" "r = TVar v \<Longrightarrow> unsolved (solution i) v" "model i \<rho> \<Longrightarrow> \<rho> r = \<rho> t" by auto
qed

lemma display_bool:
  assumes i: "scalar_inf i" and m: "model i \<rho>"
  shows "sty (int_vars i) t \<Longrightarrow> substitute_type n (solution i) (int_vars i) t = Ok c \<Longrightarrow> into_owned c = TBool \<Longrightarrow> \<rho> t = TBool"
proof (induction n arbitrary: t c)
  case (Suc n)
  from Suc.prems(1) show ?case
  proof (cases rule: sty_cases)
    case (4 v)
    show ?thesis
    proof (cases "solution i v")
      case None
      with 4 Suc.prems show ?thesis by (auto simp: Type_int_def)
    next
      case (Some u)
      with i have "sty (int_vars i) u" by (simp add: scalar_inf_def)
      from Suc.prems(2) 4 Some obtain d where "substitute_type n (solution i) (int_vars i) u = Ok d" "c = Owned (into_owned d)"
        by (auto simp: outcome_simps)
      with Suc.IH [OF \<open>sty (int_vars i) u\<close>] Suc.prems(3) m 4 Some show ?thesis by (auto simp: model_def)
    qed
  qed (use Suc.prems m in \<open>auto simp: model_def\<close>)
qed simp

section \<open>Unification\<close>

lemma bind_scalar:
  assumes i: "scalar_inf i" and v: "v \<in> int_vars i" "unsolved (solution i) v"
    and t: "sty (int_vars i) t" "full (solution i) t = t" "bind n i v t sp1 sp2 kind = Ok j"
  shows "scalar_inf j \<and> grows i j \<and> (\<forall>\<rho>. model j \<rho> \<longrightarrow> \<rho> (TVar v) = \<rho> t)"
proof (cases "t = TVar v")
  case True
  with i t(3) show ?thesis by (simp add: bind_def)
next
  case False
  with t(3) obtain e s1 where c: "constrain (e :: TypeError) i v t = Ok s1" and j: "j = insert_subst v t s1"
    by (auto simp: bind_def outcome_simps split: if_splits)
  from t(1) False have "v \<notin> free_type_vars t" by (auto elim: sty_cases)
  from bind_step [OF _ v(2) sty_covered [OF t(1)] t(2) this c] i
  have "step i j" by (simp add: scalar_inf_def j)
  from c v(1) t(1) have s1: "solution s1 = solution i" "int_vars s1 = int_vars i" "next_type_var s1 = next_type_var i"
    by (auto simp: constrain_def Let_def insert_absorb split: Type.splits option.splits if_splits)
  with i v t(1) \<open>step i j\<close> have "scalar_inf j" "grows i j"
    by (auto simp: scalar_inf_def step_def j insert_subst_def grows_def map_le_def unsolved_def dom_def)
  then show ?thesis by (auto simp: model_def j insert_subst_def)
qed

lemma unify_resolved_scalar:
  assumes "unify_resolved h n u i l r sp1 sp2 kind = Ok (j, t)" "sty I l" "sty I r"
  shows "j = i \<and> l = r \<and> t = l
    \<or> (\<exists>v. l = TVar v \<and> bind n i v r sp1 sp2 kind = Ok j \<and> t = r)
    \<or> (\<exists>v. r = TVar v \<and> bind n i v l sp2 sp1 kind = Ok j \<and> t = l)"
  using assms(2)
proof (cases rule: sty_cases)
  case (4 v)
  with assms(1) show ?thesis by (auto simp: unify_resolved_def unify_rest_def outcome_simps)
qed (use assms(3) in \<open>cases rule: sty_cases; use assms(1) in
      \<open>auto simp: unify_resolved_def unify_rest_def Let_def outcome_simps split: if_splits\<close>\<close>)+

lemma unify_scalar:
  assumes i: "scalar_inf i" and l: "sty (int_vars i) l" and r: "sty (int_vars i) r"
    and u: "unify n h i l r sp1 sp2 kind = Ok (j, t)"
  shows "scalar_inf j" "grows i j" "sty (int_vars j) t" "model j \<rho> \<Longrightarrow> \<rho> l = \<rho> t" "model j \<rho> \<Longrightarrow> \<rho> r = \<rho> t"
proof -
  from u obtain m where n: "n = Suc m" by (cases n) auto
  with u obtain l' r' where l': "apply_subst m i l = Ok l'" and r': "apply_subst m i r = Ok r'"
    and body: "unify_resolved h m (unify m h) i l' r' sp1 sp2 kind = Ok (j, t)"
    by (auto simp: unify_step_def outcome_simps lift_Ok)
  note L = apply_scalar [OF i l l'] and R = apply_scalar [OF i r r']
  have *: "scalar_inf j \<and> grows i j \<and> sty (int_vars i) t \<and> (\<forall>\<rho>. model j \<rho> \<longrightarrow> \<rho> l' = \<rho> t \<and> \<rho> r' = \<rho> t)"
    using unify_resolved_scalar [OF body L(1) R(1)]
  proof (elim disjE exE conjE)
    fix v assume "l' = TVar v" "bind m i v r' sp1 sp2 kind = Ok j" "t = r'"
    with bind_scalar [OF i _ _ R(1,2)] L R show ?thesis by auto
  next
    fix v assume "r' = TVar v" "bind m i v l' sp2 sp1 kind = Ok j" "t = l'"
    with bind_scalar [OF i _ _ L(1,2)] L R show ?thesis by auto
  qed (use i L in auto)
  then show "scalar_inf j" "grows i j" "sty (int_vars j) t" by (auto intro: sty_grows)
  from * L(4) R(4) show "model j \<rho> \<Longrightarrow> \<rho> l = \<rho> t" "model j \<rho> \<Longrightarrow> \<rho> r = \<rho> t"
    by (metis model_grows)+
qed

section \<open>Schemes and literals\<close>

definition mono :: "TypeVarId set \<Rightarrow> Scheme \<Rightarrow> bool" where
  "mono I sc = (scheme_vars sc = [] \<and> sty I (scheme_ty sc))"

lemma generalize_scalar:
  assumes "scalar_inf i" "sty (int_vars i) t" "generalize n i scs t = Ok sc"
  shows "mono (int_vars i) sc" "model i \<rho> \<Longrightarrow> \<rho> (scheme_ty sc) = \<rho> t"
proof -
  from assms(3) obtain r where r: "apply_subst n i t = Ok r" and
    sc: "sc = \<lparr>scheme_vars = sorted_list_of_set {v \<in> free_type_vars r. v \<notin> env_free_type_vars scs \<and> v \<notin> int_vars i}, scheme_ty = r\<rparr>"
    by (auto simp: generalize_def outcome_simps Let_def)
  note R = apply_scalar [OF assms(1,2) r]
  from R(1) have "{v \<in> free_type_vars r. v \<notin> env_free_type_vars scs \<and> v \<notin> int_vars i} = {}" by (auto elim: sty_cases)
  with R sc show "mono (int_vars i) sc" "model i \<rho> \<Longrightarrow> \<rho> (scheme_ty sc) = \<rho> t" by (simp_all add: mono_def)
qed

lemma instantiate_mono:
  assumes "mono I sc" "instantiate n i sc = Ok (t, j)"
  shows "t = scheme_ty sc \<and> j = i"
proof -
  from assms obtain c where "sty I (scheme_ty sc)" "substitute_type n Map.empty {} (scheme_ty sc) = Ok c" "t = into_owned c" "j = i"
    by (auto simp: mono_def instantiate_def own_def outcome_simps)
  then show ?thesis by (cases n) (auto elim!: sty_cases)
qed

lemma int_literal_scalar:
  assumes i: "scalar_inf i" and l: "infer_int_literal l span i = Ok (t, j)"
  shows "scalar_inf j" "grows i j" "int_like (int_vars j) t" "model j \<rho> \<Longrightarrow> literal_typed (L_Integer l) (\<rho> t)"
proof -
  obtain k where k: "next_type_var i = TypeVarId k" by (cases "next_type_var i")
  let ?v = "TypeVarId k"
  from l have "k \<noteq> - 1" and t: "t = TVar ?v" and
    j: "j = i\<lparr>next_type_var := TypeVarId (k + 1), int_vars := insert ?v (int_vars i),
        int_literal_values := (int_literal_values i)(?v \<mapsto> (l, span))\<rparr>"
    by (auto simp: infer_int_literal_def fresh_int_var_def fresh_var_id_def k outcome_simps split: if_splits)
  from \<open>k \<noteq> - 1\<close> have "k + 1 \<noteq> 0" by (metis add.inverse_inverse add_eq_0_iff)
  then have "unat (1 + k) = Suc (unat k)" by (intro unatSuc) (simp add: add.commute)
  then have k1: "k < k + 1" by (simp add: word_less_nat_alt add.commute)
  from i k have fresh: "\<forall>v\<in>int_vars i. v < ?v" by (simp add: scalar_inf_def)
  then have new: "?v \<notin> int_vars i" by (auto simp: less_TypeVarId_def)
  moreover from i have "dom (solution i) \<subseteq> int_vars i" "dom (int_literal_values i) \<subseteq> int_vars i"
    by (simp_all add: scalar_inf_def inferencer_ok_def)
  ultimately have un: "solution i ?v = None" "int_literal_values i ?v = None" by (meson domIff subsetD)+
  have "v < TypeVarId (k + 1)" if "v \<in> insert ?v (int_vars i)" for v
    using that fresh k1 by (auto simp: less_TypeVarId_def intro: less_trans)
  moreover from i have ok: "subst_ok (solution i)" by (simp add: scalar_inf_def inferencer_ok_def)
  have "int_like (insert ?v (int_vars i)) (resolve (solution i) {} v)" if "v \<in> insert ?v (int_vars i)" for v
    using that i un(1) by (auto simp: scalar_inf_def inferencer_ok_def int_like_def resolve_rec [OF ok, of _ ?v] split: Type.splits)
  ultimately show "scalar_inf j" using i
    by (auto simp: scalar_inf_def inferencer_ok_def j intro: sty_mono [of "int_vars i"])
  show "grows i j" using un(2) by (auto simp: grows_def j map_le_def)
  show "int_like (int_vars j) t" by (simp add: t j int_like_def)
  show "model j \<rho> \<Longrightarrow> literal_typed (L_Integer l) (\<rho> t)" by (auto simp: model_def t j)
qed

end
