(* ===== verification/Infer_Final.thy ===== *)
theory Infer_Final
  imports Infer_Scalar
begin

text \<open>
  Typing of a tree before the final substitution: whatever the substitution makes of it, when it agrees with the
  model \<open>\<rho>\<close> on scalar types, is typed in the sense of the interpreter. One rule per construct.
\<close>

definition scalar :: "Type \<Rightarrow> bool" where
  "scalar t = sty UNIV t"

lemma sty_scalar: "sty I t \<Longrightarrow> scalar t"
  by (auto simp: scalar_def intro: sty_mono)

definition final :: "(Type \<Rightarrow> Type) \<Rightarrow> applies \<Rightarrow> bool" where
  "final \<rho> sub = (\<forall>t t'. scalar t \<longrightarrow> sub t = Ok t' \<longrightarrow> t' = \<rho> t)"

definition good_expr :: "(Type \<Rightarrow> Type) \<Rightarrow> tenv \<Rightarrow> Type \<Rightarrow> TypedExpr \<Rightarrow> bool" where
  "good_expr \<rho> G R e = (\<forall>n sub e'. final \<rho> sub \<longrightarrow> apply_expr n sub e = Ok e' \<longrightarrow> typed G R e' \<and> expr_ty e' = \<rho> (expr_ty e))"

definition good_block :: "(Type \<Rightarrow> Type) \<Rightarrow> tenv \<Rightarrow> Type \<Rightarrow> TypedBlock \<Rightarrow> bool" where
  "good_block \<rho> G R b = (\<forall>n sub b'. final \<rho> sub \<longrightarrow> apply_block n sub b = Ok b' \<longrightarrow>
     typed_block G R b' \<and> TypedBlock_ty b' = \<rho> (TypedBlock_ty b))"

definition good_statement :: "(Type \<Rightarrow> Type) \<Rightarrow> tenv \<Rightarrow> Type \<Rightarrow> TypedStatement \<Rightarrow> tenv \<Rightarrow> bool" where
  "good_statement \<rho> G R st G' = (\<forall>n sub st'. final \<rho> sub \<longrightarrow> apply_statement n sub st = Ok st' \<longrightarrow> typed_statement G R st' G')"

definition good_statements :: "(Type \<Rightarrow> Type) \<Rightarrow> tenv \<Rightarrow> Type \<Rightarrow> TypedStatement list \<Rightarrow> tenv \<Rightarrow> bool" where
  "good_statements \<rho> G R sts G' = (\<forall>n sub sts'. final \<rho> sub \<longrightarrow> map_out (apply_statement n sub) sts = Ok sts' \<longrightarrow>
     typed_statements G R sts' G')"

definition good_branches :: "(Type \<Rightarrow> Type) \<Rightarrow> tenv \<Rightarrow> Type \<Rightarrow> Type \<Rightarrow> (TypedIfCondition \<times> TypedBlock) list \<Rightarrow> bool" where
  "good_branches \<rho> G R T brs = (\<forall>(c, b)\<in>set brs. \<exists>e. c = TIC_Bool e \<and> good_expr \<rho> G R (sp_node e)
     \<and> \<rho> (ty_of e) = TBool \<and> good_block \<rho> G R b \<and> \<rho> (TypedBlock_ty b) = T)"

lemma good_exprD: "good_expr \<rho> G R e \<Longrightarrow> final \<rho> sub \<Longrightarrow> apply_expr n sub e = Ok e' \<Longrightarrow> typed G R e' \<and> expr_ty e' = \<rho> (expr_ty e)"
  by (simp add: good_expr_def)

lemma good_blockD: "good_block \<rho> G R b \<Longrightarrow> final \<rho> sub \<Longrightarrow> apply_block n sub b = Ok b' \<Longrightarrow>
    typed_block G R b' \<and> TypedBlock_ty b' = \<rho> (TypedBlock_ty b)"
  by (simp add: good_block_def)

lemma finalD: "final \<rho> sub \<Longrightarrow> scalar t \<Longrightarrow> sub t = Ok t' \<Longrightarrow> t' = \<rho> t"
  by (simp add: final_def)

text \<open>An expression is typed when its kind is, after the substitution.\<close>

lemma good_exprI:
  assumes "scalar ty"
    and "\<And>n sub kind'. final \<rho> sub \<Longrightarrow> apply_kind sub (apply_expr n sub) (apply_block n sub) kind = Ok kind' \<Longrightarrow>
      typed G R (TypedExpr (\<rho> ty) kind')"
  shows "good_expr \<rho> G R (TypedExpr ty kind)"
  unfolding good_expr_def
proof (intro allI impI)
  fix n sub e' assume f: "final \<rho> sub" and e': "apply_expr n sub (TypedExpr ty kind) = Ok e'"
  then obtain m where "n = Suc m" by (cases n) auto
  with e' obtain kind' ty' where "sub ty = Ok ty'" "apply_kind sub (apply_expr m sub) (apply_block m sub) kind = Ok kind'"
    "e' = TypedExpr ty' kind'" by (auto simp: outcome_simps)
  with assms(2) [OF f] finalD [OF f assms(1)] show "typed G R e' \<and> expr_ty e' = \<rho> (expr_ty (TypedExpr ty kind))" by auto
qed

lemma apply_in_expr_Ok: "apply_in_expr X e = Ok e' \<longleftrightarrow> (\<exists>x. X (sp_node e) = Ok x \<and> e' = Spanned x (sp_span e))"
  by (auto simp: apply_in_expr_def outcome_simps)

lemma map_opt_out_Ok: "map_opt_out f opt = Ok r \<longleftrightarrow>
    (case opt of None \<Rightarrow> r = None | Some x \<Rightarrow> (\<exists>y. f x = Ok y \<and> r = Some y))"
  by (auto simp: map_opt_out_def outcome_simps split: option.splits)

lemmas applied = apply_in_expr_Ok map_opt_out_Ok outcome_simps

section \<open>Expressions\<close>

lemma good_literal: "scalar ty \<Longrightarrow> literal_typed l (\<rho> ty) \<Longrightarrow> good_expr \<rho> G R (TypedExpr ty (X_Literal l))"
  by (rule good_exprI) (auto intro: t_literal)

lemma good_name: "scalar ty \<Longrightarrow> G (id_name x) = Some (\<rho> ty) \<Longrightarrow> good_expr \<rho> G R (TypedExpr ty (X_ScopedName [x] c))"
  by (rule good_exprI) (auto intro!: t_name simp: last_opt_def)

lemma good_negate:
  assumes "scalar ty" "good_expr \<rho> G R (sp_node e)" "ty_of e = ty" "\<rho> ty = TInt w"
  shows "good_expr \<rho> G R (TypedExpr ty (X_Unary Negate e))"
  using assms by (intro good_exprI) (auto simp: applied ty_of_def dest!: good_exprD intro!: t_negate)

lemma good_not:
  assumes "scalar ty" "good_expr \<rho> G R (sp_node e)" "ty_of e = ty" "\<rho> ty = TBool"
  shows "good_expr \<rho> G R (TypedExpr ty (X_Unary Not e))"
  using assms by (intro good_exprI) (auto simp: applied ty_of_def dest!: good_exprD intro!: t_not)

lemma good_grouping:
  assumes "scalar (ty_of e)" "good_expr \<rho> G R (sp_node e)"
  shows "good_expr \<rho> G R (TypedExpr (ty_of e) (X_Grouping e))" "good_expr \<rho> G R (TypedExpr (ty_of e) (X_Disclose e))"
  using assms by (intro good_exprI; auto simp: applied ty_of_def dest!: good_exprD intro!: t_grouping t_disclose)+

text \<open>How the type of a binary expression goes with those of its operands.\<close>

definition binary_typed_as :: "BinaryOp \<Rightarrow> Type \<Rightarrow> Type \<Rightarrow> Type \<Rightarrow> bool" where
  "binary_typed_as op l r t =
     (arithmetic op \<and> (\<exists>w. t = TInt w \<and> l = TInt w \<and> r = TInt w)
      \<or> comparison op \<and> t = TBool \<and> l = r \<and> (r = TBool \<or> (\<exists>w. r = TInt w))
      \<or> (op = And \<or> op = Or) \<and> t = TBool \<and> l = TBool \<and> r = TBool)"

lemma good_binary:
  assumes "scalar ty" "good_expr \<rho> G R (sp_node l)" "good_expr \<rho> G R (sp_node r)"
    "binary_typed_as op (\<rho> (ty_of l)) (\<rho> (ty_of r)) (\<rho> ty)"
  shows "good_expr \<rho> G R (TypedExpr ty (X_Binary op l r))"
proof (rule good_exprI [OF assms(1)])
  fix n sub kind' assume f: "final \<rho> sub"
    and "apply_kind sub (apply_expr n sub) (apply_block n sub) (X_Binary op l r) = Ok kind'"
  then obtain l' r' where "apply_expr n sub (sp_node l) = Ok l'" "apply_expr n sub (sp_node r) = Ok r'"
    and k: "kind' = X_Binary op (Spanned l' (sp_span l)) (Spanned r' (sp_span r))" by (auto simp: applied)
  with assms(2,3) f have "typed G R l'" "expr_ty l' = \<rho> (ty_of l)" "typed G R r'" "expr_ty r' = \<rho> (ty_of r)"
    by (auto simp: ty_of_def dest: good_exprD)
  with k t_arithmetic [of G R "Spanned l' (sp_span l)" "Spanned r' (sp_span r)" op]
    t_comparison [of G R "Spanned l' (sp_span l)" "Spanned r' (sp_span r)" op]
    t_logical [of G R "Spanned l' (sp_span l)" "Spanned r' (sp_span r)" op] assms(4)
  show "typed G R (TypedExpr (\<rho> ty) kind')" unfolding binary_typed_as_def by (elim disjE conjE exE) simp_all
qed

lemma good_block_expr:
  assumes "scalar (TypedBlock_ty b)" "good_block \<rho> G R b"
  shows "good_expr \<rho> G R (TypedExpr (TypedBlock_ty b) (X_Block b))"
  using assms by (intro good_exprI) (auto simp: applied dest!: good_blockD intro!: t_block)

lemma good_branches_typed:
  assumes f: "final \<rho> sub" and "map_out (\<lambda>(c, b). andthen (apply_condition sub (apply_expr n sub) c) (\<lambda>c.
      andthen (apply_block n sub b) (\<lambda>b. Ok (c, b)))) brs = Ok brs'" and "good_branches \<rho> G R T brs"
  shows "typed_branches G R T brs'"
  using assms(2,3)
proof (induction brs arbitrary: brs')
  case (Cons br brs)
  obtain c b where br: "br = (c, b)" by (cases br)
  with Cons.prems(2) obtain e where e: "c = TIC_Bool e" "good_expr \<rho> G R (sp_node e)" "\<rho> (ty_of e) = TBool"
      "good_block \<rho> G R b" "\<rho> (TypedBlock_ty b) = T" and rest: "good_branches \<rho> G R T brs"
    by (auto simp: good_branches_def)
  from Cons.prems(1) br e(1) obtain e' b' rest' where "apply_expr n sub (sp_node e) = Ok e'" "apply_block n sub b = Ok b'"
    "map_out (\<lambda>(c, b). andthen (apply_condition sub (apply_expr n sub) c) (\<lambda>c.
      andthen (apply_block n sub b) (\<lambda>b. Ok (c, b)))) brs = Ok rest'"
    "brs' = (TIC_Bool (Spanned e' (sp_span e)), b') # rest'" by (auto simp: applied)
  with e f Cons.IH [OF _ rest] good_exprD [OF e(2) f] good_blockD [OF e(4) f] show ?case
    by (auto simp: ty_of_def intro!: t_branch)
qed (simp add: t_no_branch)

lemma good_if:
  assumes "scalar ty" "good_branches \<rho> G R (\<rho> ty) brs"
    and "case els of None \<Rightarrow> \<rho> ty = TUnit | Some b \<Rightarrow> good_block \<rho> G R b \<and> \<rho> (TypedBlock_ty b) = \<rho> ty"
  shows "good_expr \<rho> G R (TypedExpr ty (X_If brs els))"
proof (rule good_exprI [OF assms(1)])
  fix n sub kind' assume f: "final \<rho> sub"
    and k: "apply_kind sub (apply_expr n sub) (apply_block n sub) (X_If brs els) = Ok kind'"
  then obtain brs' els' where b: "typed_branches G R (\<rho> ty) brs'"
    and els': "map_opt_out (apply_block n sub) els = Ok els'" and k': "kind' = X_If brs' els'"
    using good_branches_typed [OF f _ assms(2)] by (auto simp: outcome_simps)
  show "typed G R (TypedExpr (\<rho> ty) kind')"
  proof (cases els)
    case None
    with els' k' b assms(3) show ?thesis by (auto simp: applied intro: t_if)
  next
    case (Some e)
    with els' obtain e' where "apply_block n sub e = Ok e'" "els' = Some e'" by (auto simp: applied)
    with Some assms(3) k' b good_blockD [OF _ f] show ?thesis by (auto intro!: t_if_else)
  qed
qed

section \<open>Divergence\<close>

text \<open>The substitution keeps the structure that \<open>block_diverges\<close> looks at.\<close>

lemma list_all_mapped:
  assumes "map_out f xs = Ok ys" "\<And>x y. f x = Ok y \<Longrightarrow> P x \<Longrightarrow> Q y" "list_all P xs"
  shows "list_all Q ys"
  using assms(1,3) by (induction xs arbitrary: ys) (auto simp: outcome_simps intro: assms(2))

lemma list_ex_mapped:
  assumes "map_out f xs = Ok ys" "list_ex P xs" "\<And>x y. f x = Ok y \<Longrightarrow> P x \<Longrightarrow> Q y"
  shows "list_ex Q ys"
  using assms(1,2) by (induction xs arbitrary: ys) (auto simp: outcome_simps intro: assms(3))

lemma map_out_length: "map_out f xs = Ok ys \<Longrightarrow> length ys = length xs"
  by (induction xs arbitrary: ys) (auto simp: outcome_simps)

lemma apply_diverges:
  "apply_block n sub b = Ok b' \<Longrightarrow> block_diverges b \<Longrightarrow> block_diverges b'"
  "apply_statement n sub st = Ok st' \<Longrightarrow> statement_diverges st \<Longrightarrow> statement_diverges st'"
  "apply_expr n sub e = Ok e' \<Longrightarrow> expr_diverges e \<Longrightarrow> expr_diverges e'"
proof (induction n arbitrary: b b' st st' e e')
  case (Suc n)
  {
    case 1
    obtain sts tl where b: "b = TypedBlock sts tl" by (cases b)
    with 1 obtain sts' tl' where sts: "map_out (apply_statement n sub) sts = Ok sts'"
      and "map_opt_out (apply_in_expr (apply_expr n sub)) tl = Ok tl'" "b' = TypedBlock sts' tl'"
      by (auto simp: apply_contents_def outcome_simps)
    with 1(2) b Suc.IH(3) list_ex_mapped [OF sts _ Suc.IH(2), of statement_diverges] show ?case
      by (auto simp: applied split: option.splits)
  next
    case 2
    then show ?case using Suc.IH(3) by (cases st) (auto simp: applied split: option.splits)
  next
    case 3
    obtain ty kind where e: "e = TypedExpr ty kind" by (cases e)
    with 3(1) obtain ty' kind' where k: "apply_kind sub (apply_expr n sub) (apply_block n sub) kind = Ok kind'"
      and e': "e' = TypedExpr ty' kind'" by (auto simp: outcome_simps)
    from 3(2) e show ?case
    proof (cases kind)
      case (X_If brs els)
      with 3(2) e obtain b where els: "els = Some b" and d: "list_all (\<lambda>br. block_diverges (snd br)) brs" "block_diverges b"
        by (cases els) auto
      from k X_If els obtain brs' b' where brs: "map_out (\<lambda>(c, b). andthen (apply_condition sub (apply_expr n sub) c) (\<lambda>c.
          andthen (apply_block n sub b) (\<lambda>b. Ok (c, b)))) brs = Ok brs'" and b': "apply_block n sub b = Ok b'"
          "kind' = X_If brs' (Some b')" by (auto simp: applied)
      have "list_all (\<lambda>br. block_diverges (snd br)) brs'"
        by (rule list_all_mapped [OF brs _ d(1)]) (auto simp: outcome_simps dest: Suc.IH(1))
      with b' d(2) e' Suc.IH(1) show ?thesis by auto
    next
      case (X_Match sc arms)
      with k obtain sc' arms' where arms: "map_out (\<lambda>arm. andthen (apply_block n sub (arm_body arm))
          (\<lambda>b. Ok (TypedMatchArm (arm_pattern arm) b))) arms = Ok arms'" "kind' = X_Match sc' arms'"
        by (auto simp: outcome_simps)
      from X_Match 3(2) e have d: "arms \<noteq> []" "list_all (\<lambda>arm. block_diverges (arm_body arm)) arms" by auto
      have "list_all (\<lambda>arm. block_diverges (arm_body arm)) arms'"
        by (rule list_all_mapped [OF arms(1) _ d(2)]) (auto simp: outcome_simps dest: Suc.IH(1))
      with map_out_length [OF arms(1)] d(1) arms(2) e' show ?thesis by auto
    qed (use k e' Suc.IH(1) in \<open>auto simp: outcome_simps\<close>)
  }
qed simp_all

section \<open>Statements and blocks\<close>

lemma good_statementI:
  assumes "\<And>n sub st'. final \<rho> sub \<Longrightarrow> apply_statement_kind (apply_expr n sub) (apply_block n sub) st = Ok st' \<Longrightarrow>
      typed_statement G R st' G'"
  shows "good_statement \<rho> G R st G'"
  unfolding good_statement_def
proof (intro allI impI)
  fix n sub st' assume "final \<rho> sub" "apply_statement n sub st = Ok st'"
  with assms show "typed_statement G R st' G'" by (cases n) auto
qed

lemma good_let:
  assumes "good_expr \<rho> G R (sp_node e)" "pattern_typed p (\<rho> (ty_of e)) G G'"
    and "case els of None \<Rightarrow> irrefutable p | Some b \<Rightarrow> good_block \<rho> G R b \<and> block_diverges b"
  shows "good_statement \<rho> G R (TS_VariableDeclaration public mutable p e els) G'"
proof (rule good_statementI)
  fix n sub st' assume f: "final \<rho> sub"
    and st': "apply_statement_kind (apply_expr n sub) (apply_block n sub) (TS_VariableDeclaration public mutable p e els) = Ok st'"
  then obtain e' els' where e': "apply_expr n sub (sp_node e) = Ok e'" and els': "map_opt_out (apply_block n sub) els = Ok els'"
    and st: "st' = TS_VariableDeclaration public mutable p (Spanned e' (sp_span e)) els'" by (auto simp: applied)
  from good_exprD [OF assms(1) f e'] have *: "typed G R e'" "expr_ty e' = \<rho> (ty_of e)" by (simp_all add: ty_of_def)
  show "typed_statement G R st' G'"
  proof (cases els)
    case None
    with els' st * assms(2,3) show ?thesis by (auto simp: applied intro!: t_let)
  next
    case (Some b)
    with els' obtain b' where "apply_block n sub b = Ok b'" "els' = Some b'" by (auto simp: applied)
    with Some st * assms(2,3) good_blockD [OF _ f] apply_diverges(1) show ?thesis by (auto intro!: t_let_else)
  qed
qed

lemma good_assignment:
  assumes "good_expr \<rho> G R (sp_node e)" "G (id_name x) = Some (\<rho> (ty_of e))"
  shows "good_statement \<rho> G R (TS_Assignment x e) G"
  using assms by (intro good_statementI) (auto simp: applied ty_of_def dest!: good_exprD intro!: t_assignment)

lemma good_while:
  assumes "good_expr \<rho> G R (sp_node c)" "\<rho> (ty_of c) = TBool" "good_block \<rho> G R b"
  shows "good_statement \<rho> G R (TS_While c b) G"
  using assms by (intro good_statementI) (auto simp: applied ty_of_def dest!: good_exprD good_blockD intro!: t_while)

lemma good_expression: "good_expr \<rho> G R (sp_node e) \<Longrightarrow> good_statement \<rho> G R (TS_Expression e) G"
  by (intro good_statementI) (auto simp: applied dest!: good_exprD intro!: t_expression)

lemma good_return:
  assumes "case opt of None \<Rightarrow> R = TUnit | Some e \<Rightarrow> good_expr \<rho> G R (sp_node e) \<and> \<rho> (ty_of e) = R"
  shows "good_statement \<rho> G R (TS_Return opt) G"
  using assms
  by (intro good_statementI)
    (auto simp: applied ty_of_def dest!: good_exprD intro: t_return t_return_unit split: option.splits)

lemma good_resume: "R = TUnit \<Longrightarrow> good_statement \<rho> G R TS_Resume G"
  by (intro good_statementI) (auto intro: t_resume)

lemma good_nil: "good_statements \<rho> G R [] G"
  by (simp add: good_statements_def t_nil)

lemma good_cons: "good_statement \<rho> G R st G' \<Longrightarrow> good_statements \<rho> G' R sts G'' \<Longrightarrow> good_statements \<rho> G R (st # sts) G''"
  by (force simp: good_statements_def good_statement_def outcome_simps intro: t_cons)

lemma good_contents:
  assumes "\<rho> TUnit = TUnit" "good_statements \<rho> G R sts G'"
    and "case tail of None \<Rightarrow> True | Some e \<Rightarrow> good_expr \<rho> G' R (sp_node e)"
  shows "good_block \<rho> G R (TypedBlock sts tail)"
  unfolding good_block_def
proof (intro allI impI)
  fix n sub b' assume f: "final \<rho> sub" and "apply_block n sub (TypedBlock sts tail) = Ok b'"
  then obtain m sts' tail' where "map_out (apply_statement m sub) sts = Ok sts'"
      "map_opt_out (apply_in_expr (apply_expr m sub)) tail = Ok tail'" "b' = TypedBlock sts' tail'"
    by (cases n) (auto simp: apply_contents_def outcome_simps)
  with assms f show "typed_block G R b' \<and> TypedBlock_ty b' = \<rho> (TypedBlock_ty (TypedBlock sts tail))"
    by (auto simp: good_statements_def TypedBlock_ty_def applied split: option.splits dest!: good_exprD
        intro!: t_contents [of G R _ G'])
qed

end
