(* ===== verification/Infer_Sound.thy ===== *)
theory Infer_Sound
  imports Infer_Final
begin

text \<open>
  Soundness of inference for the scalar fragment: what it returns for a scalar expression, statement or block is
  typed, in the sense of the interpreter, by the environment in which it was inferred.
\<close>

section \<open>The fragment\<close>

text \<open>The constructs that the interpreter supports, on scalar types. \<open>F\<close> are the names of functions, which the
  fragment does not use.\<close>

definition scalar_names :: "string list" where
  "scalar_names = [''()'', ''bool'', ''i8'', ''i16'', ''i32'', ''i64'', ''u8'', ''u16'', ''u32'', ''u64'']"

fun scalar_annotation :: "TypeAnnotation \<Rightarrow> bool" where
  "scalar_annotation (TA_Named [name] []) = (id_name name \<in> set scalar_names)"
| "scalar_annotation _ = False"

fun scalar_pattern :: "string set \<Rightarrow> bool \<Rightarrow> Pattern \<Rightarrow> bool" where
  "scalar_pattern F has_else (P_Name [x]) = (id_name x \<notin> F)"
| "scalar_pattern F has_else (P_Wildcard span) = True"
| "scalar_pattern F has_else (P_Literal l span) = (has_else \<or> l = L_Unit)"
| "scalar_pattern F has_else _ = False"

fun scalar_expr :: "string set \<Rightarrow> Expr \<Rightarrow> bool"
  and scalar_block :: "string set \<Rightarrow> Block \<Rightarrow> bool"
  and scalar_statement :: "string set \<Rightarrow> Statement \<Rightarrow> bool"
  and scalar_condition :: "string set \<Rightarrow> IfCondition \<Rightarrow> bool" where
  "scalar_expr F (E_Literal l) = True"
| "scalar_expr F (E_ScopedName name) = (case name of [x] \<Rightarrow> id_name x \<notin> F | _ \<Rightarrow> False)"
| "scalar_expr F (E_Unary op e) = scalar_expr F (sp_node e)"
| "scalar_expr F (E_Binary op l r) = (scalar_expr F (sp_node l) \<and> scalar_expr F (sp_node r))"
| "scalar_expr F (E_Grouping e) = scalar_expr F (sp_node e)"
| "scalar_expr F (E_Disclose e) = scalar_expr F (sp_node e)"
| "scalar_expr F (E_Block b) = scalar_block F b"
| "scalar_expr F (E_If branches els) =
     (list_all (\<lambda>(c, b). scalar_condition F c \<and> scalar_block F b) branches
      \<and> (case els of None \<Rightarrow> True | Some b \<Rightarrow> scalar_block F b))"
| "scalar_expr F _ = False"
| "scalar_condition F (IC_Bool e) = scalar_expr F (sp_node e)"
| "scalar_condition F (IC_Is _ _) = False"
| "scalar_block F (Block statements tail span) =
     (list_all (\<lambda>st. scalar_statement F (sp_node st)) statements
      \<and> (case tail of None \<Rightarrow> True | Some e \<Rightarrow> scalar_expr F (sp_node e)))"
| "scalar_statement F (S_VariableDeclaration public mutable p ann e els) =
     (scalar_pattern F (els \<noteq> None) p \<and> (case ann of None \<Rightarrow> True | Some a \<Rightarrow> scalar_annotation a)
      \<and> scalar_expr F (sp_node e) \<and> (case els of None \<Rightarrow> True | Some b \<Rightarrow> scalar_block F b))"
| "scalar_statement F (S_Assignment x e) = (id_name x \<notin> F \<and> scalar_expr F (sp_node e))"
| "scalar_statement F (S_While c b) = (scalar_expr F (sp_node c) \<and> scalar_block F b)"
| "scalar_statement F (S_Expression e) = scalar_expr F (sp_node e)"
| "scalar_statement F (S_Return e) = (case e of None \<Rightarrow> True | Some e \<Rightarrow> scalar_expr F (sp_node e))"
| "scalar_statement F S_Resume = True"
| "scalar_statement F (S_TryWith _ _) = False"

section \<open>States\<close>

abbreviation solver :: "InferState \<Rightarrow> Inferencer" where
  "solver s \<equiv> inferencer (chk s)"

abbreviation vars :: "InferState \<Rightarrow> TypeVarId set" where
  "vars s \<equiv> int_vars (solver s)"

definition binds_ok :: "string set \<Rightarrow> TypeVarId set \<Rightarrow> (string \<times> Binding) list list \<Rightarrow> bool" where
  "binds_ok F I scs = (\<forall>x b. x \<notin> F \<longrightarrow> scopes_get scs x = Some b \<longrightarrow> mono I (b_scheme b))"

definition root_ok :: "string set \<Rightarrow> Namespace \<Rightarrow> bool" where
  "root_ok F ns = ((\<forall>x. x \<notin> F \<longrightarrow> map_of (constants ns) x = None)
     \<and> (\<forall>x\<in>set scalar_names. \<exists>e. map_of (types ns) x = Some e \<and> entry_type_params e = [] \<and> sty {} (entry_ty e)))"

definition ok_state :: "string set \<Rightarrow> InferState \<Rightarrow> bool" where
  "ok_state F s = (scalar_inf (solver s) \<and> binds_ok F (vars s) (scopes (env s)) \<and> root_ok F (root (env s))
     \<and> sty (vars s) (expected_return (ctx s)))"

text \<open>The types of the variables in scope, in the end.\<close>

definition tenv_of :: "string set \<Rightarrow> (Type \<Rightarrow> Type) \<Rightarrow> (string \<times> Binding) list list \<Rightarrow> tenv" where
  "tenv_of F \<rho> scs x = (if x \<in> F then None else map_option (\<lambda>b. \<rho> (scheme_ty (b_scheme b))) (scopes_get scs x))"

text \<open>What an operation that binds nothing does to the state.\<close>

definition quiet :: "string set \<Rightarrow> InferState \<Rightarrow> InferState \<Rightarrow> bool" where
  "quiet F s t = (ok_state F t \<and> grows (solver s) (solver t) \<and> scopes (env t) = scopes (env s)
     \<and> root (env t) = root (env s) \<and> expected_return (ctx t) = expected_return (ctx s))"

lemma quiet_refl: "ok_state F s \<Longrightarrow> quiet F s s"
  by (simp add: quiet_def)

lemma quiet_trans: "quiet F s t \<Longrightarrow> quiet F t u \<Longrightarrow> quiet F s u"
  by (auto simp: quiet_def intro: grows_then)

lemma quiet_ok: "quiet F s t \<Longrightarrow> ok_state F t"
  by (simp add: quiet_def)

lemma quiet_sty: "quiet F s t \<Longrightarrow> sty (vars s) ty \<Longrightarrow> sty (vars t) ty"
  by (auto simp: quiet_def intro: sty_grows)

lemma quiet_model: "quiet F s t \<Longrightarrow> model (solver t) \<rho> \<Longrightarrow> model (solver s) \<rho>"
  by (auto simp: quiet_def intro: model_grows)

lemma quiet_names: "quiet F s t \<Longrightarrow> scopes (env t) = scopes (env s) \<and> expected_return (ctx t) = expected_return (ctx s)"
  by (simp add: quiet_def)

lemma mono_mono: "mono I sc \<Longrightarrow> I \<subseteq> J \<Longrightarrow> mono J sc"
  by (auto simp: mono_def intro: sty_mono)

lemma binds_mono: "binds_ok F I scs \<Longrightarrow> I \<subseteq> J \<Longrightarrow> binds_ok F J scs"
  by (auto simp: binds_ok_def intro: mono_mono)

lemma quiet_inferencer:
  assumes "ok_state F s" "scalar_inf j" "grows (solver s) j"
  shows "quiet F s (set_inferencer j s)"
  using assms unfolding quiet_def ok_state_def
  by (auto simp: set_inferencer_def grows_def intro: binds_mono sty_mono)

lemma set_inferencer_solver [simp]: "solver (set_inferencer j s) = j"
  by (simp add: set_inferencer_def)

section \<open>Operations\<close>

lemma sound_unify:
  assumes s: "ok_state F s" and ty: "sty (vars s) l" "sty (vars s) r" and u: "unify_in n h l r ls rs kind s = Ok (t, s')"
  shows "quiet F s s'" "sty (vars s') t" "model (solver s') \<rho> \<Longrightarrow> \<rho> l = \<rho> t" "model (solver s') \<rho> \<Longrightarrow> \<rho> r = \<rho> t"
proof -
  from u obtain j where "unify n (type_host h) (solver s) l r ls rs kind = Ok (j, t)" and s': "s' = set_inferencer j s"
    by (auto simp: unify_in_Ok)
  moreover from s have "scalar_inf (solver s)" by (simp add: ok_state_def)
  note U = unify_scalar [OF this ty calculation(1)]
  show "quiet F s s'" unfolding s' by (rule quiet_inferencer [OF s U(1,2)])
  from U s' show "sty (vars s') t" "model (solver s') \<rho> \<Longrightarrow> \<rho> l = \<rho> t" "model (solver s') \<rho> \<Longrightarrow> \<rho> r = \<rho> t" by simp_all
qed

lemma sound_apply:
  assumes "ok_state F s" "sty (vars s) ty" "apply_in n ty s = Ok (t, s')"
  shows "s' = s" "sty (vars s) t" "model (solver s) \<rho> \<Longrightarrow> \<rho> t = \<rho> ty"
  using assms apply_scalar [of "solver s" ty n t] by (auto simp: apply_in_def infer_results ok_state_def)

lemma display_Ok: "display_in n ty s = Ok (t, s') \<longleftrightarrow> apply_for_display n (solver s) ty = Ok t \<and> s' = s"
  by (auto simp: display_in_def infer_results)

lemma sound_require_bool:
  assumes "ok_state F s" "sty (vars s) ty" "require_bool n ty span c s = Ok (t, s')"
  shows "s' = s" "model (solver s) \<rho> \<Longrightarrow> \<rho> ty = TBool"
proof -
  from assms(3) have "s' = s" and d: "apply_for_display n (solver s) ty = Ok TBool"
    by (auto simp: require_bool_def display_Ok infer_results split: if_splits)
  then show "s' = s" by simp
  from d obtain c where "substitute_type n (solution (solver s)) (vars s) ty = Ok c" "into_owned c = TBool"
    by (auto simp: apply_for_display_def own_def outcome_simps)
  with assms(1,2) show "model (solver s) \<rho> \<Longrightarrow> \<rho> ty = TBool" by (auto simp: ok_state_def intro: display_bool)
qed

lemma sound_require_is:
  assumes "ok_state F s" "sty (vars s) l" "sty (vars s) r" "require_is n h l r ls rs kind s = Ok (t, s')"
  shows "quiet F s s'" "model (solver s') \<rho> \<Longrightarrow> \<rho> l = \<rho> r"
proof -
  from assms(4) obtain x where u: "unify_in n h l r ls rs kind s = Ok (x, s')" by (auto simp: require_is_def infer_results)
  note U = sound_unify [OF assms(1-3) u]
  from U(1) show "quiet F s s'" .
  show "model (solver s') \<rho> \<Longrightarrow> \<rho> l = \<rho> r" by (rule trans [OF U(3) U(4) [symmetric]])
qed

lemma annotation_type:
  assumes "root_ok F (root e)" "scalar_annotation ann" "type_from_annotation n h e ann = Ok ty"
  shows "sty {} ty"
proof -
  from assms(2) obtain x where x: "ann = TA_Named [x] []" "id_name x \<in> set scalar_names"
    by (cases ann rule: scalar_annotation.cases) auto
  with assms(1) obtain entry where "map_of (types (root e)) (id_name x) = Some entry" "entry_type_params entry = []"
    "sty {} (entry_ty entry)" unfolding root_ok_def by blast
  with assms(3) x(1) show ?thesis by (simp add: split_last_def)
qed

lemma sound_annotated:
  assumes "ok_state F s" "scalar_annotation ann" "annotated_type n h ann s = Ok (ty, s')"
  shows "s' = s" "sty {} ty"
  using assms annotation_type [of F "env s" ann n h ty] by (auto simp: annotated_type_def infer_results ok_state_def)

lemma sound_return_annotation:
  assumes "ok_state F s" "case ann of None \<Rightarrow> True | Some a \<Rightarrow> scalar_annotation a" "return_annotation n h ann s = Ok (ty, s')"
  shows "s' = s" "sty {} ty"
  using assms sound_annotated [OF assms(1)] by (auto simp: return_annotation_def infer_results split: option.splits)

lemma sound_instantiate:
  assumes "mono I sc" "instantiate_in n sc s = Ok (ty, s')"
  shows "s' = s" "ty = scheme_ty sc" "sty I ty"
proof -
  from assms(2) obtain j where "instantiate n (solver s) sc = Ok (ty, j)" "s' = set_inferencer j s"
    by (auto simp: instantiate_in_def on_inferencer_Ok)
  with instantiate_mono [OF assms(1)] assms(1) show "s' = s" "ty = scheme_ty sc" "sty I ty"
    by (auto simp: set_inferencer_def mono_def)
qed

lemma sound_updates:
  assumes "ok_state F s"
  shows "quiet F s (set_saw_return b s)" "quiet F s (add_warning w s)"
  using assms by (simp_all add: quiet_def ok_state_def set_saw_return_def add_warning_def)

lemma sound_unify_return:
  assumes "ok_state F s" "sty (vars s) ty" "unify_return n h ty span s = Ok (u, s')"
  shows "quiet F s s'" "model (solver s') \<rho> \<Longrightarrow> \<rho> ty = \<rho> (expected_return (ctx s))"
proof -
  from assms(1) have "sty (vars s) (expected_return (ctx s))" by (simp add: ok_state_def)
  note U = sound_unify [OF assms(1,2) this]
  from assms(3) obtain rs kind x where "unify_in n h ty (expected_return (ctx s)) span rs kind s = Ok (x, s')"
    by (auto simp: unify_return_def infer_results display_Ok)
  note U = U [OF this]
  from U(1) show "quiet F s s'" .
  show "model (solver s') \<rho> \<Longrightarrow> \<rho> ty = \<rho> (expected_return (ctx s))" by (rule trans [OF U(3) U(4) [symmetric]])
qed

section \<open>Expressions\<close>

text \<open>A typed expression that inference returned in \<open>s'\<close>, starting in \<open>s\<close>.\<close>

definition sound_expr :: "string set \<Rightarrow> InferState \<Rightarrow> TypedExpr Spanned \<Rightarrow> InferState \<Rightarrow> bool" where
  "sound_expr F s t s' = (quiet F s s' \<and> sty (vars s') (ty_of t)
     \<and> (\<forall>\<rho>. model (solver s') \<rho> \<longrightarrow>
          good_expr \<rho> (tenv_of F \<rho> (scopes (env s))) (\<rho> (expected_return (ctx s))) (sp_node t)))"

definition sound_block :: "string set \<Rightarrow> InferState \<Rightarrow> TypedBlock \<Rightarrow> InferState \<Rightarrow> bool" where
  "sound_block F s b s' = (quiet F s s' \<and> sty (vars s') (TypedBlock_ty b)
     \<and> (\<forall>\<rho>. model (solver s') \<rho> \<longrightarrow>
          good_block \<rho> (tenv_of F \<rho> (scopes (env s))) (\<rho> (expected_return (ctx s))) b))"

lemma sound_exprI:
  assumes "quiet F s s'" "sty (vars s') ty"
    and "\<And>\<rho>. model (solver s') \<rho> \<Longrightarrow> scalar ty \<Longrightarrow>
      good_expr \<rho> (tenv_of F \<rho> (scopes (env s))) (\<rho> (expected_return (ctx s))) (TypedExpr ty kind)"
  shows "sound_expr F s (typed_node ty kind span) s'"
  using assms sty_scalar [OF assms(2)] by (simp add: sound_expr_def typed_node_def ty_of_def)

text \<open>What is known of an earlier result in a later state.\<close>

lemma sound_exprD:
  assumes "sound_expr F s t s1" "quiet F s1 s'" "model (solver s') \<rho>"
  shows "good_expr \<rho> (tenv_of F \<rho> (scopes (env s))) (\<rho> (expected_return (ctx s))) (sp_node t)"
  using assms by (auto simp: sound_expr_def dest: quiet_model)

lemma sound_blockD:
  assumes "sound_block F s b s1" "quiet F s1 s'" "model (solver s') \<rho>"
  shows "good_block \<rho> (tenv_of F \<rho> (scopes (env s))) (\<rho> (expected_return (ctx s))) b"
  using assms by (auto simp: sound_block_def dest: quiet_model)

lemma sound_quiet: "sound_expr F s t s' \<Longrightarrow> quiet F s s'" "sound_block F s b s' \<Longrightarrow> quiet F s s'"
  by (simp_all add: sound_expr_def sound_block_def)

lemma sound_ty: "sound_expr F s t s' \<Longrightarrow> sty (vars s') (ty_of t)" "sound_block F s b s' \<Longrightarrow> sty (vars s') (TypedBlock_ty b)"
  by (simp_all add: sound_expr_def sound_block_def)

lemma sound_literal:
  assumes "ok_state F s" "infer_literal l span s = Ok (t, s')"
  shows "sound_expr F s t s'"
proof (cases l)
  case (L_Integer i)
  with assms(2) obtain ty j where j: "infer_int_literal i span (solver s) = Ok (ty, j)" "s' = set_inferencer j s"
    and t: "t = typed_node ty (X_Literal l) span" by (auto simp: infer_results on_inferencer_Ok)
  from assms(1) have "scalar_inf (solver s)" by (simp add: ok_state_def)
  note I = int_literal_scalar [OF this j(1)]
  show ?thesis unfolding t
    by (rule sound_exprI) (use I j(2) L_Integer quiet_inferencer [OF assms(1) I(1,2)] in
        \<open>auto simp: sty_def intro!: good_literal\<close>)
next
  case (L_Boolean b)
  with assms(2) have t: "t = typed_node TBool (X_Literal l) span" "s' = s" by (simp_all add: give_Ok)
  show ?thesis unfolding t
    by (rule sound_exprI) (use assms(1) L_Boolean in \<open>auto simp: quiet_refl model_base intro!: good_literal literal_typed.intros\<close>)
next
  case L_Unit
  with assms(2) have t: "t = typed_node TUnit (X_Literal l) span" "s' = s" by (simp_all add: give_Ok)
  show ?thesis unfolding t
    by (rule sound_exprI) (use assms(1) L_Unit in \<open>auto simp: quiet_refl model_base intro!: good_literal literal_typed.intros\<close>)
qed

lemma sound_name:
  assumes s: "ok_state F s" and x: "id_name x \<notin> F" and m: "infer_name n [x] span s = Ok (t, s')"
  shows "sound_expr F s t s'"
proof -
  from s x have root: "map_of (constants (root (env s))) (id_name x) = None" by (simp add: ok_state_def root_ok_def)
  with m obtain b ty where b: "scopes_get (scopes (env s)) (id_name x) = Some b"
    and i: "instantiate_in n (b_scheme b) s = Ok (ty, s')" and t: "t = typed_node ty (X_ScopedName [x] None) span"
    by (auto simp: infer_name_def lookup_name_def infer_results split_last_def env_get_def lookup_namespace_def split: option.splits)
  from s x b have mono: "mono (vars s) (b_scheme b)" by (auto simp: ok_state_def binds_ok_def)
  note I = sound_instantiate [OF mono i]
  show ?thesis unfolding t
    by (rule sound_exprI) (use s I b x in \<open>auto simp: quiet_refl tenv_of_def intro!: good_name\<close>)
qed

lemma operand_mismatch_Ok: "operand_mismatch n op l r s = Ok (k, s') \<Longrightarrow> s' = s"
  by (auto simp: operand_mismatch_def infer_results display_Ok)

lemma operand_error_Ok: "operand_error n h op l r ls rs s \<noteq> Ok p"
  by (cases p) (auto simp: operand_error_def infer_results display_Ok)

lemma int_like_in: "is_int_like_in t s = int_like (vars s) t"
  by (simp add: is_int_like_in_def int_like_def split: Type.splits)

lemma same_primitive: "require_same_primitive = require_numeric_or_bool_pair"
  by (intro ext) (simp add: require_same_primitive_def require_numeric_or_bool_pair_def)

lemma sound_pair:
  assumes s: "ok_state F s" and ty: "sty (vars s) (ty_of l)" "sty (vars s) (ty_of r)"
    and m: "require_numeric_or_bool_pair n h op l ls r rs s = Ok (u, s')"
  shows "quiet F s s'" "model (solver s') \<rho> \<Longrightarrow> \<rho> (ty_of l) = \<rho> (ty_of r) \<and> (\<rho> (ty_of r) = TBool \<or> (\<exists>w. \<rho> (ty_of r) = TInt w))"
proof -
  from m obtain lt rt s1 s2 where lt: "apply_in n (ty_of l) s = Ok (lt, s1)" and rt: "apply_in n (ty_of r) s1 = Ok (rt, s2)"
    and rest: "(if int_like (vars s2) lt \<and> int_like (vars s2) rt then
        chain (operand_mismatch n op (ty_of l) (ty_of r)) (\<lambda>kind. chain (unify_in n h lt rt ls rs kind) (\<lambda>_. give ()))
      else if lt = TBool \<and> rt = TBool then give ()
      else operand_error n h op (ty_of l) (ty_of r) ls rs) s2 = Ok (u, s')"
    by (auto simp: require_numeric_or_bool_pair_def infer_results int_like_in)
  note L = sound_apply [OF s ty(1) lt]
  with rt have rt': "apply_in n (ty_of r) s = Ok (rt, s2)" by simp
  note R = sound_apply [OF s ty(2) rt']
  have *: "quiet F s s' \<and> (\<forall>\<rho>. model (solver s') \<rho> \<longrightarrow> \<rho> lt = \<rho> rt \<and> (\<rho> rt = TBool \<or> (\<exists>w. \<rho> rt = TInt w)))"
  proof (cases "int_like (vars s2) lt \<and> int_like (vars s2) rt")
    case True
    with rest obtain kind x where u: "unify_in n h lt rt ls rs kind s = Ok (x, s')"
      by (auto simp: infer_results R(1) dest!: operand_mismatch_Ok)
    note U = sound_unify [OF s L(2) R(2) u]
    have "\<rho> lt = \<rho> rt \<and> (\<rho> rt = TBool \<or> (\<exists>w. \<rho> rt = TInt w))" if m: "model (solver s') \<rho>" for \<rho>
      using U(3,4) [OF m] model_int [OF quiet_model [OF U(1) m], of rt] True R(1) by simp
    with U(1) show ?thesis by blast
  next
    case False
    with rest R(1) s show ?thesis
      by (auto simp: infer_results operand_error_Ok quiet_refl model_base split: if_splits)
  qed
  then show "quiet F s s'" by blast
  fix \<rho> assume m: "model (solver s') \<rho>"
  from * quiet_model [OF _ m] have "model (solver s) \<rho>" by blast
  from L(3) [OF this] R(3) [OF this] * m
  show "\<rho> (ty_of l) = \<rho> (ty_of r) \<and> (\<rho> (ty_of r) = TBool \<or> (\<exists>w. \<rho> (ty_of r) = TInt w))" by metis
qed

lemma binary_type_classes:
  "binary_type n h op l r lt rt ls rs =
    (if arithmetic op then infer_arithmetic n h op l r lt rt ls rs
     else if comparison op then chain (require_numeric_or_bool_pair n h op l ls r rs) (\<lambda>_. give TBool)
     else infer_logical n h op l r lt rt ls rs)"
  by (cases op) (simp_all add: binary_type_def arithmetic_def comparison_def same_primitive)

lemma op_classes: "arithmetic op \<or> comparison op \<or> op = And \<or> op = Or"
  by (cases op) (simp_all add: arithmetic_def comparison_def)

lemma sound_binary_type:
  assumes s: "ok_state F s" and ty: "sty (vars s) (ty_of l)" "sty (vars s) (ty_of r)"
    and lt: "sty (vars s) lt" "\<And>\<rho>. model (solver s) \<rho> \<Longrightarrow> \<rho> lt = \<rho> (ty_of l)"
    and rt: "sty (vars s) rt" "\<And>\<rho>. model (solver s) \<rho> \<Longrightarrow> \<rho> rt = \<rho> (ty_of r)"
    and m: "binary_type n h op l r lt rt ls rs s = Ok (t, s')"
  shows "quiet F s s' \<and> sty (vars s') t
    \<and> (\<forall>\<rho>. model (solver s') \<rho> \<longrightarrow> binary_typed_as op (\<rho> (ty_of l)) (\<rho> (ty_of r)) (\<rho> t))"
proof -
  consider (arith) "arithmetic op" | (cmp) "\<not> arithmetic op" "comparison op"
    | (logic) "\<not> arithmetic op" "\<not> comparison op" "op = And \<or> op = Or"
    using op_classes by blast
  then show ?thesis
  proof cases
    case arith
    with m have b: "int_like (vars s) lt" "int_like (vars s) rt" and u: "\<exists>kind. unify_in n h lt rt ls rs kind s = Ok (t, s')"
      by (auto simp: binary_type_classes infer_arithmetic_def infer_results int_like_in operand_error_Ok
          split: if_splits dest!: operand_mismatch_Ok)
    from u obtain kind where u: "unify_in n h lt rt ls rs kind s = Ok (t, s')" by blast
    note U = sound_unify [OF s lt(1) rt(1) u]
    have "binary_typed_as op (\<rho> (ty_of l)) (\<rho> (ty_of r)) (\<rho> t)" if m: "model (solver s') \<rho>" for \<rho>
      using U(3,4) [OF m] model_int [OF quiet_model [OF U(1) m] b(2)] lt(2) [OF quiet_model [OF U(1) m]]
        rt(2) [OF quiet_model [OF U(1) m]] arith
      by (auto simp: binary_typed_as_def)
    with U show ?thesis by blast
  next
    case cmp
    with m have p: "require_numeric_or_bool_pair n h op l ls r rs s = Ok ((), s')" and t: "t = TBool"
      by (auto simp: binary_type_classes infer_results)
    from sound_pair [OF s ty p] cmp t show ?thesis by (auto simp: binary_typed_as_def model_base)
  next
    case logic
    with m have b: "lt = TBool" "rt = TBool" and t: "t = TBool" and
      "\<exists>k1 k2 s1. require_is n h (ty_of l) TBool ls ls k1 s = Ok ((), s1) \<and> require_is n h (ty_of r) TBool rs rs k2 s1 = Ok ((), s')"
      by (auto simp: binary_type_classes infer_logical_def infer_results operand_error_Ok
          split: if_splits dest!: operand_mismatch_Ok)
    then obtain k1 k2 s1 where r1: "require_is n h (ty_of l) TBool ls ls k1 s = Ok ((), s1)"
      and r2: "require_is n h (ty_of r) TBool rs rs k2 s1 = Ok ((), s')" by blast
    note R1 = sound_require_is [OF s ty(1) _ r1]
    have "quiet F s s1" by (rule R1) simp
    note R2 = sound_require_is [OF quiet_ok [OF this] quiet_sty [OF this ty(2)] _ r2]
    have "quiet F s1 s'" by (rule R2) simp
    with \<open>quiet F s s1\<close> have q: "quiet F s s'" by (rule quiet_trans)
    have "binary_typed_as op (\<rho> (ty_of l)) (\<rho> (ty_of r)) (\<rho> t)" if m: "model (solver s') \<rho>" for \<rho>
      using lt(2) [OF quiet_model [OF q m]] rt(2) [OF quiet_model [OF q m]] quiet_model [OF q m] b logic(3) t
      by (auto simp: binary_typed_as_def model_base)
    with q t show ?thesis by simp
  qed
qed

end
