(* ===== verification/Infer_Walk.thy ===== *)
theory Infer_Walk
  imports Infer_Sound
begin

text \<open>
  The walk over expressions, statements and blocks keeps the promises of \<open>Infer_Sound\<close>: first for one level,
  given checkers of subexpressions and blocks that keep them, then for \<open>infer_expr\<close>, \<open>infer_block\<close> and
  \<open>infer_statement\<close>.
\<close>

section \<open>Patterns\<close>

text \<open>An operation that may bind names in the current scope.\<close>

definition binds :: "string set \<Rightarrow> InferState \<Rightarrow> InferState \<Rightarrow> bool" where
  "binds F s t = (ok_state F t \<and> grows (solver s) (solver t) \<and> expected_return (ctx t) = expected_return (ctx s))"

lemma quiet_binds: "quiet F s t \<Longrightarrow> binds F s t"
  by (simp add: quiet_def binds_def)

lemma binds_trans: "binds F s t \<Longrightarrow> binds F t u \<Longrightarrow> binds F s u"
  by (auto simp: binds_def intro: grows_then)

lemma binds_model: "binds F s t \<Longrightarrow> model (solver t) \<rho> \<Longrightarrow> model (solver s) \<rho>"
  by (auto simp: binds_def intro: model_grows)

lemma tenv_update: "x \<notin> F \<Longrightarrow>
    tenv_of F \<rho> (AList.update x b sc # outer) = (tenv_of F \<rho> (sc # outer))(x \<mapsto> \<rho> (scheme_ty (b_scheme b)))"
  by (auto simp: tenv_of_def fun_eq_iff update_conv' split: option.splits)

lemma binds_update: "binds_ok F I (sc # outer) \<Longrightarrow> mono I (b_scheme b) \<Longrightarrow> binds_ok F I (AList.update x b sc # outer)"
  by (auto simp: binds_ok_def update_conv' split: if_splits option.splits)

lemma sound_bind:
  assumes s: "ok_state F s" and m: "mono (vars s) (b_scheme b)" and "bind_name x b s = Ok (u, s')"
  shows "binds F s s'" "x \<notin> F \<Longrightarrow> tenv_of F \<rho> (scopes (env s')) = (tenv_of F \<rho> (scopes (env s)))(x \<mapsto> \<rho> (scheme_ty (b_scheme b)))"
    "solver s' = solver s"
proof -
  from assms(3) obtain sc outer where sc: "scopes (env s) = sc # outer"
    and s': "s' = set_env ((env s)\<lparr>scopes := AList.update x b sc # outer\<rparr>) s"
    by (auto simp: bind_name_def infer_results env_insert_def outcome_simps split: list.splits)
  from s m sc show "binds F s s'" by (auto simp: binds_def ok_state_def s' set_env_def intro!: binds_update)
  show "x \<notin> F \<Longrightarrow> tenv_of F \<rho> (scopes (env s')) = (tenv_of F \<rho> (scopes (env s)))(x \<mapsto> \<rho> (scheme_ty (b_scheme b)))"
    by (simp add: s' set_env_def sc tenv_update)
  show "solver s' = solver s" by (simp add: s' set_env_def)
qed

lemma sound_bind_pattern:
  assumes s: "ok_state F s" and ty: "sty (vars s) ty" and "bind_pattern_identifier n x ty mutable v s = Ok (u, s')"
  shows "binds F s s'" "id_name x \<notin> F \<Longrightarrow> model (solver s') \<rho> \<Longrightarrow>
    tenv_of F \<rho> (scopes (env s')) = (tenv_of F \<rho> (scopes (env s)))(id_name x \<mapsto> \<rho> ty)"
proof -
  from assms(3) obtain sc b where g: "generalize n (solver s) (env_schemes (env s)) ty = Ok sc"
    and b: "bind_name (id_name x) b s = Ok (u, s')" "b_scheme b = sc"
    by (auto simp: bind_pattern_identifier_def generalize_in_def infer_results split: if_splits)
  from s have "scalar_inf (solver s)" by (simp add: ok_state_def)
  note G = generalize_scalar [OF this ty g]
  with b(2) have "mono (vars s) (b_scheme b)" by simp
  note B = sound_bind [OF s this b(1)]
  from B(1) show "binds F s s'" .
  show "id_name x \<notin> F \<Longrightarrow> model (solver s') \<rho> \<Longrightarrow>
    tenv_of F \<rho> (scopes (env s')) = (tenv_of F \<rho> (scopes (env s)))(id_name x \<mapsto> \<rho> ty)"
    using B(2) [of \<rho>] G(2) [of \<rho>] b(2) B(3) by simp
qed

lemma sound_pattern:
  assumes s: "ok_state F s" and ty: "sty (vars s) ty" and p: "scalar_pattern F has_else p"
    and m: "infer_pattern n h span mutable v p ty s = Ok (tp, s')"
  shows "binds F s s'" "\<not> has_else \<Longrightarrow> irrefutable tp"
    "model (solver s') \<rho> \<Longrightarrow> pattern_typed tp (\<rho> ty) (tenv_of F \<rho> (scopes (env s))) (tenv_of F \<rho> (scopes (env s')))"
proof -
  from m obtain k where n: "n = Suc k" by (cases n) (auto simp: infer_results)
  have "binds F s s' \<and> (\<not> has_else \<longrightarrow> irrefutable tp) \<and> (\<forall>\<rho>. model (solver s') \<rho> \<longrightarrow>
      pattern_typed tp (\<rho> ty) (tenv_of F \<rho> (scopes (env s))) (tenv_of F \<rho> (scopes (env s'))))"
    using p
  proof (cases "(F, has_else, p)" rule: scalar_pattern.cases)
    case (1 F' e' x)
    with p have x: "id_name x \<notin> F" by simp
    with s have "map_of (constants (root (env s))) (id_name x) = None" by (simp add: ok_state_def root_ok_def)
    with m n 1 have b: "bind_pattern_identifier k x ty mutable v s = Ok ((), s')" and tp: "tp = TP_Binding x"
      by (auto simp: infer_name_pattern_def infer_results split_last_def lookup_namespace_def)
    from sound_bind_pattern [OF s ty b] x tp show ?thesis by (auto intro: pattern_typed.intros)
  next
    case (2 F' e' sp)
    with m n s show ?thesis by (auto simp: infer_results quiet_binds quiet_refl intro: pattern_typed.intros)
  next
    case (3 F' e' l sp)
    with m n obtain lty kind x where lty: "case l of L_Integer i \<Rightarrow> lty = Type_int | L_Boolean b \<Rightarrow> lty = TBool | L_Unit \<Rightarrow> lty = TUnit"
      and u: "unify_in k h ty lty span sp kind s = Ok (x, s')" and tp: "tp = TP_Literal l"
      by (auto simp: infer_literal_pattern_def infer_results display_Ok split: Literal.splits if_splits)
    from lty have l: "sty (vars s) lty" "literal_of_type l lty" by (auto simp: Type_int_def split: Literal.splits)
    note U = sound_unify [OF s ty l(1) u]
    have "\<rho> ty = lty" if m: "model (solver s') \<rho>" for \<rho>
      using U(3,4) [OF m] lty model_base [OF m] by (auto simp: Type_int_def split: Literal.splits)
    with U(1) l(2) tp p 3 show ?thesis
      by (auto simp: quiet_binds quiet_names [OF U(1)] intro!: pattern_typed.intros)
  qed simp_all
  then show "binds F s s'" "\<not> has_else \<Longrightarrow> irrefutable tp"
    "model (solver s') \<rho> \<Longrightarrow> pattern_typed tp (\<rho> ty) (tenv_of F \<rho> (scopes (env s))) (tenv_of F \<rho> (scopes (env s')))"
    by blast+
qed

section \<open>One level\<close>

definition sound_statement :: "string set \<Rightarrow> InferState \<Rightarrow> TypedStatement \<Rightarrow> InferState \<Rightarrow> bool" where
  "sound_statement F s t s' = (binds F s s' \<and> (\<forall>\<rho>. model (solver s') \<rho> \<longrightarrow>
     good_statement \<rho> (tenv_of F \<rho> (scopes (env s))) (\<rho> (expected_return (ctx s))) t (tenv_of F \<rho> (scopes (env s')))))"

lemma sound_merge:
  assumes s: "ok_state F s" and ty: "sty (vars s) ty" and rt: "case rt of None \<Rightarrow> True | Some T \<Rightarrow> sty (vars s) T"
    and m: "merge_branch n h span rt ty bs s = Ok (t, s')"
  shows "quiet F s s'" "sty (vars s') t" "model (solver s') \<rho> \<Longrightarrow> \<rho> ty = \<rho> t"
    "rt = Some T \<Longrightarrow> model (solver s') \<rho> \<Longrightarrow> \<rho> T = \<rho> t"
proof -
  have "quiet F s s' \<and> sty (vars s') t \<and> (\<forall>\<rho>. model (solver s') \<rho> \<longrightarrow> \<rho> ty = \<rho> t \<and> (\<forall>T. rt = Some T \<longrightarrow> \<rho> T = \<rho> t))"
  proof (cases rt)
    case None
    with m s ty show ?thesis by (auto simp: merge_branch_def infer_results quiet_refl)
  next
    case (Some T)
    with m obtain kind where u: "unify_in n h T ty bs span kind s = Ok (t, s')"
      by (auto simp: merge_branch_def infer_results display_Ok)
    from rt Some have "sty (vars s) T" by simp
    from sound_unify [OF s this ty u] Some show ?thesis by auto
  qed
  then show "quiet F s s'" "sty (vars s') t" "model (solver s') \<rho> \<Longrightarrow> \<rho> ty = \<rho> t"
    "rt = Some T \<Longrightarrow> model (solver s') \<rho> \<Longrightarrow> \<rho> T = \<rho> t" by blast+
qed

locale walker = framed +
  fixes F :: "string set"
  assumes X_sound: "ok_state F s \<Longrightarrow> scalar_expr F (sp_node e) \<Longrightarrow> X e s = Ok (t, s') \<Longrightarrow> sound_expr F s t s'"
    and B_sound: "ok_state F s \<Longrightarrow> scalar_block F b \<Longrightarrow> B b r s = Ok (tb, s') \<Longrightarrow> sound_block F s tb s'"
begin

lemma unary:
  assumes s: "ok_state F s" and e: "scalar_expr F (sp_node e)" and m: "infer_unary n h X op e span s = Ok (t, s')"
  shows "sound_expr F s t s'"
proof -
  from m obtain te s1 where x: "X e s = Ok (te, s1)" and t: "t = typed_node (ty_of te) (X_Unary op te) span"
    and c: "(case op of Negate \<Rightarrow> check_negate n te (sp_span e)
       | Not \<Rightarrow> chain (display_in n (ty_of te)) (\<lambda>found.
           require_is n h (ty_of te) TBool (sp_span e) (sp_span e) (UnaryMismatch op TBool found))) s1 = Ok ((), s')"
    by (auto simp: infer_unary_def infer_results)
  note S = X_sound [OF s e x]
  note s1 = quiet_ok [OF sound_quiet(1) [OF S]] and ty = sound_ty(1) [OF S]
  show ?thesis
  proof (cases op)
    case Negate
    with c obtain it s2 where a: "apply_in n (ty_of te) s1 = Ok (it, s2)" by (auto simp: check_negate_def infer_results)
    note A = sound_apply [OF s1 ty a]
    from c Negate a have "s' = s1" and "int_like (vars s1) it"
      by (auto simp: check_negate_def infer_results A(1) int_like_def split: Type.splits if_splits)
    have "\<exists>w. \<rho> (ty_of te) = TInt w" if m: "model (solver s1) \<rho>" for \<rho>
      using model_int [OF m \<open>int_like (vars s1) it\<close>] A(3) [OF m] by simp
    then have "good_expr \<rho> (tenv_of F \<rho> (scopes (env s))) (\<rho> (expected_return (ctx s))) (TypedExpr (ty_of te) (X_Unary Negate te))"
      if m: "model (solver s1) \<rho>" for \<rho>
      using m sound_exprD [OF S quiet_refl [OF s1] m] sty_scalar [OF ty] by (blast intro: good_negate)
    with S ty show ?thesis unfolding t Negate \<open>s' = s1\<close> by (intro sound_exprI) (simp_all add: sound_quiet)
  next
    case Not
    with c obtain kind where r: "require_is n h (ty_of te) TBool (sp_span e) (sp_span e) kind s1 = Ok ((), s')"
      by (auto simp: infer_results display_Ok)
    note R = sound_require_is [OF s1 ty _ r]
    from R(1) have q: "quiet F s1 s'" by simp
    show ?thesis unfolding t Not
      by (rule sound_exprI) (use R(2) q S ty in \<open>auto simp: model_base intro!: good_not sound_exprD [OF S q]
          intro: quiet_trans sound_quiet quiet_sty\<close>)
  qed
qed

lemma binary:
  assumes s: "ok_state F s" and e: "scalar_expr F (sp_node l)" "scalar_expr F (sp_node r)"
    and m: "infer_binary n h X op l r span s = Ok (t, s')"
  shows "sound_expr F s t s'"
proof -
  from m obtain tl tr lt rt ty s1 s2 s3 s4 where x: "X l s = Ok (tl, s1)" "X r s1 = Ok (tr, s2)"
      and a: "apply_in n (ty_of tl) s2 = Ok (lt, s3)" "apply_in n (ty_of tr) s3 = Ok (rt, s4)"
      and b: "binary_type n h op tl tr lt rt (label_span_for_expr h l) (label_span_for_expr h r) s4 = Ok (ty, s')" and t: "t = typed_node ty (X_Binary op tl tr) span"
    by (auto simp: infer_binary_def infer_results)
  note L = X_sound [OF s e(1) x(1)]
  note s1 = quiet_ok [OF sound_quiet(1) [OF L]]
  note R = X_sound [OF s1 e(2) x(2)]
  note q = sound_quiet(1) [OF R]
  note s2 = quiet_ok [OF q]
  note lt = quiet_sty [OF q sound_ty(1) [OF L]] and rt = sound_ty(1) [OF R]
  note LA = sound_apply [OF s2 lt a(1)]
  note RA = sound_apply [OF s2 rt a(2) [unfolded LA(1)]]
  note T = sound_binary_type [OF s2 lt rt LA(2,3) RA(2,3) b [unfolded RA(1)]]
  then have q': "quiet F s2 s'" "quiet F s1 s'" using quiet_trans [OF q] by blast+
  note n = quiet_names [OF sound_quiet(1) [OF L]]
  show ?thesis unfolding t
    by (rule sound_exprI) (use T q' n sound_exprD [OF L q'(2)] sound_exprD [OF R q'(1)] sound_quiet(1) [OF L] in
        \<open>auto intro!: good_binary intro: quiet_trans\<close>)
qed

lemma wrapped:
  assumes s: "ok_state F s" and e: "scalar_expr F (sp_node e)"
  shows "infer_grouping X e span s = Ok (t, s') \<Longrightarrow> sound_expr F s t s'"
    "infer_disclose X e span s = Ok (t, s') \<Longrightarrow> sound_expr F s t s'"
proof -
  have *: "sound_expr F s (typed_node (ty_of te) k span) s'"
    if x: "X e s = Ok (te, s1)" "quiet F s1 s'" "k = X_Grouping te \<or> k = X_Disclose te" for te s1 k
  proof -
    note S = X_sound [OF s e x(1)]
    show ?thesis
      by (rule sound_exprI) (use x(2,3) quiet_trans [OF sound_quiet(1) [OF S] x(2)] quiet_sty [OF x(2) sound_ty(1) [OF S]]
          sound_exprD [OF S x(2)] in \<open>auto intro: good_grouping\<close>)
  qed
  show "sound_expr F s t s'" if m: "infer_grouping X e span s = Ok (t, s')"
  proof -
    from m obtain te where te: "X e s = Ok (te, s')" "t = typed_node (ty_of te) (X_Grouping te) span"
      by (auto simp: infer_grouping_def infer_results)
    show ?thesis unfolding te(2)
      by (rule * [OF te(1) quiet_refl [OF quiet_ok [OF sound_quiet(1) [OF X_sound [OF s e te(1)]]]]]) simp
  qed
  show "sound_expr F s t s'" if m: "infer_disclose X e span s = Ok (t, s')"
  proof -
    from m obtain te s1 where te: "X e s = Ok (te, s1)" "t = typed_node (ty_of te) (X_Disclose te) span"
      and s': "s' = s1 \<or> (\<exists>w. s' = add_warning w s1)"
      by (auto simp: infer_disclose_def visibility_of_def infer_results split: if_splits)
    note s1 = quiet_ok [OF sound_quiet(1) [OF X_sound [OF s e te(1)]]]
    from s' have "quiet F s1 s'" using quiet_refl [OF s1] sound_updates(2) [OF s1] by auto
    then show ?thesis unfolding te(2) by (rule * [OF te(1)]) simp
  qed
qed

lemma block_expr:
  assumes s: "ok_state F s" and b: "scalar_block F b" and m: "infer_block_expr B b span s = Ok (t, s')"
  shows "sound_expr F s t s'"
proof -
  from m obtain tb where tb: "B b False s = Ok (tb, s')" and t: "t = typed_node (TypedBlock_ty tb) (X_Block tb) span"
    by (auto simp: infer_block_expr_def infer_results)
  note S = B_sound [OF s b tb]
  show ?thesis unfolding t
    by (rule sound_exprI) (use S sound_blockD [OF S quiet_refl [OF quiet_ok [OF sound_quiet(2) [OF S]]]] in
        \<open>auto simp: sound_quiet sound_ty intro: good_block_expr\<close>)
qed

lemma condition_sound:
  assumes s: "ok_state F s" and e: "scalar_expr F (sp_node c)" and m: "infer_condition n X c k s = Ok (t, s')"
  shows "sound_expr F s t s'" "model (solver s') \<rho> \<Longrightarrow> \<rho> (ty_of t) = TBool"
proof -
  from m obtain s1 where x: "X c s = Ok (t, s1)" and r: "require_bool n (ty_of t) (sp_span c) k s1 = Ok ((), s')"
    by (auto simp: infer_condition_def infer_results)
  note S = X_sound [OF s e x]
  note R = sound_require_bool [OF quiet_ok [OF sound_quiet(1) [OF S]] sound_ty(1) [OF S] r]
  from R(1) S show "sound_expr F s t s'" by simp
  from R show "model (solver s') \<rho> \<Longrightarrow> \<rho> (ty_of t) = TBool" by simp
qed

end

end
