(* ===== verification/Infer_Blocks.thy ===== *)
theory Infer_Blocks
  imports Infer_Walk
begin

text \<open>
  Conditionals, statements and blocks of the scalar fragment, and the induction over the recursion of inference.
\<close>

section \<open>Conditionals\<close>

text \<open>What the loop over the branches knows of those it has seen: \<open>rt\<close> is their type so far.\<close>

definition branches_ok ::
  "string set \<Rightarrow> InferState \<Rightarrow> Type option \<Rightarrow> (TypedIfCondition \<times> TypedBlock) list \<Rightarrow> InferState \<Rightarrow> bool" where
  "branches_ok F s0 rt brs s = (quiet F s0 s \<and> (case rt of
       None \<Rightarrow> brs = []
     | Some T \<Rightarrow> sty (vars s) T \<and> (\<forall>\<rho>. model (solver s) \<rho> \<longrightarrow>
         good_branches \<rho> (tenv_of F \<rho> (scopes (env s0))) (\<rho> (expected_return (ctx s0))) (\<rho> T) brs)))"

lemma good_branches_snoc:
  "good_branches \<rho> G R T brs \<Longrightarrow> good_expr \<rho> G R (sp_node e) \<Longrightarrow> \<rho> (ty_of e) = TBool \<Longrightarrow> good_block \<rho> G R b
    \<Longrightarrow> \<rho> (TypedBlock_ty b) = T \<Longrightarrow> good_branches \<rho> G R T (brs @ [(TIC_Bool e, b)])"
  by (auto simp: good_branches_def)

context walker
begin

lemma branch_sound:
  assumes ok: "branches_ok F s0 rt brs s" and f: "scalar_expr F (sp_node c)" "scalar_block F b"
    and m: "infer_branch n h X B span (IC_Bool c, b) (rt, brs) s = Ok ((rt', brs'), s')"
  shows "branches_ok F s0 rt' brs' s'"
proof -
  from m obtain tc tb T s1 s2 where c: "infer_condition n X c CC_If s = Ok (tc, s1)" and b: "B b False s1 = Ok (tb, s2)"
    and mg: "merge_branch n h span rt (TypedBlock_ty tb) (tail_span_or tb span) s2 = Ok (T, s')"
    and r: "rt' = Some T" "brs' = brs @ [(TIC_Bool tc, tb)]"
    by (auto simp: infer_branch_def infer_results)
  from ok have q0: "quiet F s0 s" by (simp add: branches_ok_def)
  note s = quiet_ok [OF q0]
  note C = condition_sound [OF s f(1) c]
  note s1 = quiet_ok [OF sound_quiet(1) [OF C(1)]]
  note Bs = B_sound [OF s1 f(2) b]
  note q1 = sound_quiet(1) [OF C(1)] and q2 = sound_quiet(2) [OF Bs]
  note s2 = quiet_ok [OF q2] and q = quiet_trans [OF q1 q2]
  have rt: "case rt of None \<Rightarrow> True | Some T \<Rightarrow> sty (vars s2) T"
    using ok quiet_sty [OF q] by (auto simp: branches_ok_def split: option.splits)
  note M = sound_merge [OF s2 sound_ty(2) [OF Bs] rt mg]
  have names: "scopes (env s) = scopes (env s0)" "scopes (env s1) = scopes (env s0)"
    "expected_return (ctx s) = expected_return (ctx s0)" "expected_return (ctx s1) = expected_return (ctx s0)"
    using quiet_names [OF q0] quiet_names [OF q1] by simp_all
  have "good_branches \<rho> (tenv_of F \<rho> (scopes (env s0))) (\<rho> (expected_return (ctx s0))) (\<rho> T) (brs @ [(TIC_Bool tc, tb)])"
    if m: "model (solver s') \<rho>" for \<rho>
  proof (rule good_branches_snoc)
    note m2 = quiet_model [OF M(1) m]
    show "good_expr \<rho> (tenv_of F \<rho> (scopes (env s0))) (\<rho> (expected_return (ctx s0))) (sp_node tc)"
      using sound_exprD [OF C(1) q2 m2] by (simp add: names)
    show "\<rho> (ty_of tc) = TBool" by (rule C(2) [OF quiet_model [OF q2 m2]])
    show "good_block \<rho> (tenv_of F \<rho> (scopes (env s0))) (\<rho> (expected_return (ctx s0))) tb"
      using sound_blockD [OF Bs M(1) m] by (simp add: names)
    show "\<rho> (TypedBlock_ty tb) = \<rho> T" by (rule M(3) [OF m])
    show "good_branches \<rho> (tenv_of F \<rho> (scopes (env s0))) (\<rho> (expected_return (ctx s0))) (\<rho> T) brs"
    proof (cases rt)
      case None
      with ok show ?thesis by (simp add: branches_ok_def good_branches_def)
    next
      case (Some U)
      with ok quiet_model [OF q m2] M(4) [OF Some m] show ?thesis by (auto simp: branches_ok_def)
    qed
  qed
  with M(1,2) r quiet_trans [OF q0 quiet_trans [OF q M(1)]] show ?thesis by (simp add: branches_ok_def)
qed

lemma branches_sound:
  assumes "branches_ok F s0 rt brs s" "list_all (\<lambda>(c, b). scalar_condition F c \<and> scalar_block F b) xs"
    and "fold_infer (infer_branch n h X B span) xs (rt, brs) s = Ok ((rt', brs'), s')"
  shows "branches_ok F s0 rt' brs' s'"
  using assms
proof (induction xs arbitrary: rt brs s)
  case (Cons x xs)
  obtain c b where x: "x = (c, b)" by (cases x)
  with Cons.prems(2) obtain e where c: "c = IC_Bool e" "scalar_expr F (sp_node e)" "scalar_block F b" by (cases c) auto
  from Cons.prems(3) obtain rt1 brs1 s1 where "infer_branch n h X B span (IC_Bool e, b) (rt, brs) s = Ok ((rt1, brs1), s1)"
    "fold_infer (infer_branch n h X B span) xs (rt1, brs1) s1 = Ok ((rt', brs'), s')" by (auto simp: x c chain_Ok)
  with Cons.prems(2) branch_sound [OF Cons.prems(1) c(2,3)] show ?case by (intro Cons.IH) (simp_all)
qed (simp add: give_Ok)

lemma if_sound:
  assumes s: "ok_state F s" and f: "scalar_expr F (E_If brs els)" and m: "infer_if n h X B brs els span s = Ok (t, s')"
  shows "sound_expr F s t s'"
proof -
  from m obtain rt tbrs tels ty s1 s2 where b: "fold_infer (infer_branch n h X B span) brs (None, []) s = Ok ((rt, tbrs), s1)"
    and e: "(case els of None \<Rightarrow> give None | Some b \<Rightarrow> chain (B b False) (\<lambda>tb. give (Some tb))) s1 = Ok (tels, s2)"
    and mg: "merge_branch n h span rt (case tels of None \<Rightarrow> TUnit | Some b \<Rightarrow> TypedBlock_ty b)
         (case tels of None \<Rightarrow> span | Some b \<Rightarrow> tail_span_or b span) s2 = Ok (ty, s')"
    and t: "t = typed_node ty (X_If tbrs tels) span"
    by (auto simp: infer_if_def infer_results)
  have "branches_ok F s None [] s" using s by (simp add: branches_ok_def quiet_refl)
  from branches_sound [OF this _ b] f have ok: "branches_ok F s rt tbrs s1" by simp
  then have q1: "quiet F s s1" by (simp add: branches_ok_def)
  note names = quiet_names [OF q1]
  have "quiet F s1 s2 \<and> sty (vars s2) (case tels of None \<Rightarrow> TUnit | Some b \<Rightarrow> TypedBlock_ty b)
      \<and> (\<forall>b. tels = Some b \<longrightarrow> sound_block F s1 b s2)"
  proof (cases els)
    case None
    with e quiet_refl [OF quiet_ok [OF q1]] show ?thesis by (simp add: infer_results)
  next
    case (Some b)
    with e obtain tb where b: "B b False s1 = Ok (tb, s2)" "tels = Some tb" by (auto simp: infer_results)
    from f Some have "scalar_block F b" by simp
    from B_sound [OF quiet_ok [OF q1] this b(1)] b(2) show ?thesis by (simp add: sound_quiet sound_ty)
  qed
  then have q2: "quiet F s1 s2" and ty: "sty (vars s2) (case tels of None \<Rightarrow> TUnit | Some b \<Rightarrow> TypedBlock_ty b)"
    and els: "\<And>b. tels = Some b \<Longrightarrow> sound_block F s1 b s2" by blast+
  have rt: "case rt of None \<Rightarrow> True | Some T \<Rightarrow> sty (vars s2) T"
    using ok quiet_sty [OF q2] by (auto simp: branches_ok_def split: option.splits)
  note M = sound_merge [OF quiet_ok [OF q2] ty rt mg]
  show ?thesis unfolding t
  proof (rule sound_exprI [OF quiet_trans [OF q1 quiet_trans [OF q2 M(1)]] M(2)])
    fix \<rho> assume m: "model (solver s') \<rho>" and sc: "scalar ty"
    note m2 = quiet_model [OF M(1) m]
    have "good_branches \<rho> (tenv_of F \<rho> (scopes (env s))) (\<rho> (expected_return (ctx s))) (\<rho> ty) tbrs"
    proof (cases rt)
      case None
      with ok show ?thesis by (simp add: branches_ok_def good_branches_def)
    next
      case (Some T)
      with ok quiet_model [OF q2 m2] M(4) [OF Some m] show ?thesis by (auto simp: branches_ok_def)
    qed
    moreover have "case tels of None \<Rightarrow> \<rho> ty = TUnit | Some b \<Rightarrow> good_block \<rho> (tenv_of F \<rho> (scopes (env s)))
        (\<rho> (expected_return (ctx s))) b \<and> \<rho> (TypedBlock_ty b) = \<rho> ty"
      using M(3) [OF m] model_base(1) [OF m] sound_blockD [OF els M(1) m] names by (auto split: option.splits)
    ultimately show "good_expr \<rho> (tenv_of F \<rho> (scopes (env s))) (\<rho> (expected_return (ctx s))) (TypedExpr ty (X_If tbrs tels))"
      by (rule good_if [OF sc])
  qed
qed

lemma kind_sound:
  assumes "ok_state F s" "scalar_expr F e" "infer_expr_kind n h X B e span s = Ok (t, s')"
  shows "sound_expr F s t s'"
proof (cases e)
  case (E_ScopedName name)
  with assms(2) obtain x where "name = [x]" "id_name x \<notin> F" by (auto split: list.splits)
  with E_ScopedName assms show ?thesis by (auto intro: sound_name)
qed (use assms in \<open>auto simp del: scalar_expr.simps(8) intro: sound_literal unary binary wrapped block_expr if_sound\<close>)

section \<open>Statements\<close>

lemma require_public_Ok: "require_public p x help v s = Ok (u, s') \<Longrightarrow> s' = s"
  by (auto simp: require_public_def visibility_of_def infer_results split: if_splits)

lemma check_redeclaration_Ok: "check_redeclaration x span s = Ok (u, s') \<Longrightarrow> s' = s"
  by (auto simp: check_redeclaration_def infer_results split: option.splits)

lemma check_irrefutable_Ok: "check_irrefutable n ty p span s = Ok (u, s') \<Longrightarrow> s' = s"
  unfolding check_irrefutable_def apply_in_def chain_Ok reads_Ok
  by (elim exE conjE, rename_tac x r, case_tac "missing_patterns x p") (simp_all add: infer_results split: if_splits)

lemma annotated_sound:
  assumes s: "ok_state F s" and ty: "sty (vars s) ty" and a: "case ann of None \<Rightarrow> True | Some a \<Rightarrow> scalar_annotation a"
    and m: "infer_annotated n h simple ann ty span s = Ok (t, s')"
  shows "quiet F s s'" "sty (vars s') t" "model (solver s') \<rho> \<Longrightarrow> \<rho> ty = \<rho> t"
proof -
  have "quiet F s s' \<and> sty (vars s') t \<and> (\<forall>\<rho>. model (solver s') \<rho> \<longrightarrow> \<rho> ty = \<rho> t)"
  proof (cases ann)
    case None
    with m s ty show ?thesis by (auto simp: infer_annotated_def infer_results quiet_refl)
  next
    case (Some a')
    with m obtain ety ls kind where e: "annotated_type n h a' s = Ok (ety, s)" and u: "unify_in n h ety ty ls span kind s = Ok (t, s')"
      by (auto simp: infer_annotated_def infer_results display_Ok annotated_type_def)
    from sound_annotated [OF s _ e] a Some have "sty (vars s) ety" by (auto intro: sty_mono)
    from sound_unify [OF s this ty u] show ?thesis by auto
  qed
  then show "quiet F s s'" "sty (vars s') t" "model (solver s') \<rho> \<Longrightarrow> \<rho> ty = \<rho> t" by blast+
qed

lemma else_sound:
  assumes s: "ok_state F s" and f: "case els of None \<Rightarrow> True | Some b \<Rightarrow> scalar_block F b"
    and m: "infer_else B els s = Ok (tels, s')"
  shows "quiet F s s'" "tels = None \<longleftrightarrow> els = None"
    "tels = Some b \<Longrightarrow> block_diverges b \<and> (\<forall>\<rho>. model (solver s') \<rho> \<longrightarrow>
      good_block \<rho> (tenv_of F \<rho> (scopes (env s))) (\<rho> (expected_return (ctx s))) b)"
proof -
  have "quiet F s s' \<and> (tels = None \<longleftrightarrow> els = None) \<and> (\<forall>b. tels = Some b \<longrightarrow> block_diverges b \<and> (\<forall>\<rho>. model (solver s') \<rho> \<longrightarrow>
      good_block \<rho> (tenv_of F \<rho> (scopes (env s))) (\<rho> (expected_return (ctx s))) b))"
  proof (cases els)
    case None
    with m s show ?thesis by (auto simp: infer_else_def infer_results quiet_refl)
  next
    case (Some b)
    with m obtain tb s1 sr where b: "B b False s = Ok (tb, s1)" "block_diverges tb" "tels = Some tb" "s' = set_saw_return sr s1"
      by (auto simp: infer_else_def infer_results split: if_splits)
    from f Some have "scalar_block F b" by simp
    note S = B_sound [OF s this b(1)]
    note q = sound_updates(1) [OF quiet_ok [OF sound_quiet(2) [OF S]]]
    from sound_blockD [OF S q] quiet_trans [OF sound_quiet(2) [OF S] q] b Some show ?thesis by auto
  qed
  then show "quiet F s s'" "tels = None \<longleftrightarrow> els = None"
    "tels = Some b \<Longrightarrow> block_diverges b \<and> (\<forall>\<rho>. model (solver s') \<rho> \<longrightarrow>
      good_block \<rho> (tenv_of F \<rho> (scopes (env s))) (\<rho> (expected_return (ctx s))) b)" by blast+
qed

lemma let_sound:
  assumes s: "ok_state F s" and f: "scalar_statement F (S_VariableDeclaration public mutable p ann e els)"
    and m: "infer_let n h X B public mutable p ann e els s = Ok (t, s')"
  shows "sound_statement F s t s'"
proof -
  let ?G = "\<lambda>\<rho>. tenv_of F \<rho> (scopes (env s))" and ?R = "\<lambda>\<rho>. \<rho> (expected_return (ctx s))"
  from m obtain te vty wty tels tp s1 s2 s3 s4 s5 where x: "X e s = Ok (te, s1)"
    and a: "apply_in n (ty_of te) s1 = Ok (vty, s2)"
    and w: "infer_annotated n h (simple_binding p) ann vty (sp_span e) s2 = Ok (wty, s3)"
    and els: "infer_else B els s3 = Ok (tels, s4)"
    and pt: "infer_pattern n h (sp_span e) mutable (if public then BV_Public else BV_Private) p wty s4 = Ok (tp, s5)"
    and s5: "s5 = s'" and t: "t = TS_VariableDeclaration public mutable tp te tels"
    by (auto simp: infer_let_def Let_def infer_results split: if_splits
        dest!: check_redeclaration_Ok require_public_Ok check_irrefutable_Ok)
  from f have fs: "scalar_pattern F (els \<noteq> None) p" "case ann of None \<Rightarrow> True | Some a \<Rightarrow> scalar_annotation a"
    "scalar_expr F (sp_node e)" "case els of None \<Rightarrow> True | Some b \<Rightarrow> scalar_block F b" by simp_all
  note S = X_sound [OF s fs(3) x]
  note q1 = sound_quiet(1) [OF S]
  note A = sound_apply [OF quiet_ok [OF q1] sound_ty(1) [OF S] a]
  note W = annotated_sound [OF quiet_ok [OF q1] A(2) fs(2) w [unfolded A(1)]]
  note E = else_sound [OF quiet_ok [OF W(1)] fs(4) els]
  note P = sound_pattern [OF quiet_ok [OF E(1)] quiet_sty [OF E(1) W(2)] fs(1) pt, unfolded s5]
  note q3 = quiet_trans [OF W(1) E(1)] and q4 = quiet_trans [OF q1 quiet_trans [OF W(1) E(1)]]
  have names: "scopes (env s4) = scopes (env s)" "scopes (env s3) = scopes (env s)"
    "expected_return (ctx s3) = expected_return (ctx s)"
    using quiet_names [OF q4] quiet_names [OF quiet_trans [OF q1 W(1)]] by simp_all
  have "good_statement \<rho> (?G \<rho>) (?R \<rho>) t (tenv_of F \<rho> (scopes (env s')))" if m: "model (solver s') \<rho>" for \<rho>
    unfolding t
  proof (rule good_let)
    note m4 = binds_model [OF P(1) m]
    show "good_expr \<rho> (?G \<rho>) (?R \<rho>) (sp_node te)" by (rule sound_exprD [OF S q3 m4])
    have "\<rho> (ty_of te) = \<rho> wty"
      using A(3) [OF quiet_model [OF q3 m4]] W(3) [OF quiet_model [OF E(1) m4]] by simp
    then show "pattern_typed tp (\<rho> (ty_of te)) (?G \<rho>) (tenv_of F \<rho> (scopes (env s')))"
      using P(3) [OF m] by (simp add: names)
    show "case tels of None \<Rightarrow> irrefutable tp | Some b \<Rightarrow> good_block \<rho> (?G \<rho>) (?R \<rho>) b \<and> block_diverges b"
      using P(2) E(2) E(3) m4 by (auto simp: names split: option.splits)
  qed
  with binds_trans [OF quiet_binds [OF q4] P(1)] show ?thesis by (simp add: sound_statement_def)
qed

text \<open>A statement that binds nothing.\<close>

lemma quiet_statement:
  assumes "quiet F s s'" "\<And>\<rho>. model (solver s') \<rho> \<Longrightarrow>
      good_statement \<rho> (tenv_of F \<rho> (scopes (env s))) (\<rho> (expected_return (ctx s))) t (tenv_of F \<rho> (scopes (env s)))"
  shows "sound_statement F s t s'"
  using assms quiet_names [OF assms(1)] by (simp add: sound_statement_def quiet_binds)

lemma assignment_sound:
  assumes s: "ok_state F s" and f: "id_name x \<notin> F" "scalar_expr F (sp_node e)"
    and m: "infer_assignment n h X x e s = Ok (t, s')"
  shows "sound_statement F s t s'"
proof -
  from m obtain b ety te s1 s2 where b: "scopes_get (scopes (env s)) (id_name x) = Some b"
    and i: "instantiate_in n (b_scheme b) s = Ok (ety, s1)" and xe: "X e s1 = Ok (te, s2)"
    and u: "\<exists>ls rs kind r. unify_in n h (ty_of te) ety ls rs kind s2 = Ok (r, s')" and t: "t = TS_Assignment x te"
    by (force simp: infer_assignment_def infer_results env_get_def display_Ok split: if_splits dest!: require_public_Ok)
  from s f(1) b have "mono (vars s) (b_scheme b)" by (auto simp: ok_state_def binds_ok_def)
  note I = sound_instantiate [OF this i]
  note S = X_sound [OF s f(2) xe [unfolded I(1)]]
  note q = sound_quiet(1) [OF S]
  from u obtain ls rs kind r where u: "unify_in n h (ty_of te) ety ls rs kind s2 = Ok (r, s')" by blast
  note U = sound_unify [OF quiet_ok [OF q] sound_ty(1) [OF S] quiet_sty [OF q I(3)] u]
  show ?thesis unfolding t
  proof (rule quiet_statement [OF quiet_trans [OF q U(1)] good_assignment])
    fix \<rho> assume m: "model (solver s') \<rho>"
    show "good_expr \<rho> (tenv_of F \<rho> (scopes (env s))) (\<rho> (expected_return (ctx s))) (sp_node te)"
      by (rule sound_exprD [OF S U(1) m])
    show "tenv_of F \<rho> (scopes (env s)) (id_name x) = Some (\<rho> (ty_of te))"
      using U(3,4) [OF m] b f(1) I(2) by (simp add: tenv_of_def)
  qed
qed

lemma while_sound:
  assumes s: "ok_state F s" and f: "scalar_expr F (sp_node c)" "scalar_block F b" and m: "infer_while n X B c b s = Ok (t, s')"
  shows "sound_statement F s t s'"
proof -
  from m obtain tc tb s1 where c: "infer_condition n X c CC_While s = Ok (tc, s1)" and b: "B b False s1 = Ok (tb, s')"
    and t: "t = TS_While tc tb" by (auto simp: infer_while_def infer_results)
  note C = condition_sound [OF s f(1) c]
  note q = sound_quiet(1) [OF C(1)]
  note Bs = B_sound [OF quiet_ok [OF q] f(2) b]
  note q2 = sound_quiet(2) [OF Bs]
  show ?thesis unfolding t
  proof (rule quiet_statement [OF quiet_trans [OF q q2] good_while])
    fix \<rho> assume m: "model (solver s') \<rho>"
    show "good_expr \<rho> (tenv_of F \<rho> (scopes (env s))) (\<rho> (expected_return (ctx s))) (sp_node tc)"
      by (rule sound_exprD [OF C(1) q2 m])
    show "\<rho> (ty_of tc) = TBool" by (rule C(2) [OF quiet_model [OF q2 m]])
    show "good_block \<rho> (tenv_of F \<rho> (scopes (env s))) (\<rho> (expected_return (ctx s))) tb"
      using sound_blockD [OF Bs quiet_refl [OF quiet_ok [OF q2]] m] quiet_names [OF q] by simp
  qed
qed

lemma expression_sound:
  assumes "ok_state F s" "scalar_expr F (sp_node e)" "infer_expression_statement X e s = Ok (t, s')"
  shows "sound_statement F s t s'"
proof -
  from assms(3) obtain te where x: "X e s = Ok (te, s')" and t: "t = TS_Expression te"
    by (auto simp: infer_expression_statement_def infer_results)
  note S = X_sound [OF assms(1,2) x]
  show ?thesis unfolding t
    by (rule quiet_statement [OF sound_quiet(1) [OF S]])
      (rule good_expression [OF sound_exprD [OF S quiet_refl [OF quiet_ok [OF sound_quiet(1) [OF S]]]]])
qed

lemma return_sound:
  assumes s: "ok_state F s" and f: "case opt of None \<Rightarrow> True | Some e \<Rightarrow> scalar_expr F (sp_node e)"
    and m: "infer_return n h X opt s = Ok (t, s')"
  shows "sound_statement F s t s'"
proof (cases opt)
  case None
  with m obtain span s1 u where u: "unify_return n h TUnit span s = Ok (u, s1)" and s': "s' = set_saw_return True s1"
    and t: "t = TS_Return None" by (auto simp: infer_return_def return_seen_def infer_results)
  note U = sound_unify_return [OF s _ u]
  have "quiet F s s1" by (rule U) simp
  note q = sound_updates(1) [OF quiet_ok [OF this], of True, folded s']
  have unit: "\<rho> (expected_return (ctx s)) = TUnit" if m: "model (solver s') \<rho>" for \<rho>
    using U(2) [OF _ quiet_model [OF q m]] model_base(1) [OF m] by simp
  show ?thesis unfolding t
    by (rule quiet_statement [OF quiet_trans [OF \<open>quiet F s s1\<close> q]])
      (use unit in \<open>simp add: good_return\<close>)
next
  case (Some e)
  with m obtain te span s1 s2 u where x: "X e s = Ok (te, s1)" and u: "unify_return n h (ty_of te) span s1 = Ok (u, s2)"
    and s': "s' = set_saw_return True s2" and t: "t = TS_Return (Some te)"
    by (auto simp: infer_return_def return_seen_def infer_results)
  from f Some have f: "scalar_expr F (sp_node e)" by simp
  note S = X_sound [OF s f x]
  note q1 = sound_quiet(1) [OF S]
  note U = sound_unify_return [OF quiet_ok [OF q1] sound_ty(1) [OF S] u]
  note q = sound_updates(1) [OF quiet_ok [OF U(1)], of True, folded s']
  show ?thesis unfolding t
  proof (rule quiet_statement [OF quiet_trans [OF q1 quiet_trans [OF U(1) q]] good_return])
    fix \<rho> assume m: "model (solver s') \<rho>"
    show "case Some te of None \<Rightarrow> \<rho> (expected_return (ctx s)) = TUnit
      | Some e \<Rightarrow> good_expr \<rho> (tenv_of F \<rho> (scopes (env s))) (\<rho> (expected_return (ctx s))) (sp_node e)
          \<and> \<rho> (ty_of e) = \<rho> (expected_return (ctx s))"
      using sound_exprD [OF S quiet_trans [OF U(1) q] m] U(2) [OF quiet_model [OF q m]] quiet_names [OF q1] by simp
  qed
qed

lemma resume_sound:
  assumes s: "ok_state F s" and m: "infer_resume n h s = Ok (t, s')"
  shows "sound_statement F s t s'"
proof -
  from m obtain span s1 u where u: "unify_return n h TUnit span s = Ok (u, s1)" and s': "s' = set_saw_return True s1"
    and t: "t = TS_Resume" by (auto simp: infer_resume_def return_seen_def infer_results)
  note U = sound_unify_return [OF s _ u]
  have "quiet F s s1" by (rule U) simp
  note q = sound_updates(1) [OF quiet_ok [OF this], of True, folded s']
  have unit: "\<rho> (expected_return (ctx s)) = TUnit" if m: "model (solver s') \<rho>" for \<rho>
    using U(2) [OF _ quiet_model [OF q m]] model_base(1) [OF m] by simp
  show ?thesis unfolding t
    by (rule quiet_statement [OF quiet_trans [OF \<open>quiet F s s1\<close> q]])
      (use unit in \<open>simp add: good_resume\<close>)
qed

lemma statement_sound:
  assumes "ok_state F s" "scalar_statement F st" "infer_statement_kind n h X B st s = Ok (t, s')"
  shows "sound_statement F s t s'"
  using assms by (cases st)
    (auto simp del: scalar_statement.simps(1) intro: let_sound assignment_sound while_sound expression_sound return_sound resume_sound)

section \<open>Blocks\<close>

lemma statements_sound:
  assumes S: "\<And>s st t s'. ok_state F s \<Longrightarrow> scalar_statement F st \<Longrightarrow> S st s = Ok (t, s') \<Longrightarrow> sound_statement F s t s'"
  shows "ok_state F s \<Longrightarrow> list_all (\<lambda>st. scalar_statement F (sp_node st)) sts \<Longrightarrow>
    map_infer (\<lambda>st. S (sp_node st)) sts s = Ok (ts, s') \<Longrightarrow> binds F s s' \<and> (\<forall>\<rho>. model (solver s') \<rho> \<longrightarrow>
      good_statements \<rho> (tenv_of F \<rho> (scopes (env s))) (\<rho> (expected_return (ctx s))) ts (tenv_of F \<rho> (scopes (env s'))))"
proof (induction sts arbitrary: s ts)
  case Nil
  then show ?case by (simp add: give_Ok quiet_binds quiet_refl good_nil)
next
  case (Cons st sts)
  from Cons.prems(3) obtain t1 s1 ts1 where st: "S (sp_node st) s = Ok (t1, s1)"
    and rest: "map_infer (\<lambda>st. S (sp_node st)) sts s1 = Ok (ts1, s')" and ts: "ts = t1 # ts1"
    by (auto simp: infer_results)
  from Cons.prems(2) have f: "scalar_statement F (sp_node st)" "list_all (\<lambda>st. scalar_statement F (sp_node st)) sts" by simp_all
  from S [OF Cons.prems(1) f(1) st] have b: "binds F s s1" and g: "\<And>\<rho>. model (solver s1) \<rho> \<Longrightarrow> good_statement \<rho>
      (tenv_of F \<rho> (scopes (env s))) (\<rho> (expected_return (ctx s))) t1 (tenv_of F \<rho> (scopes (env s1)))"
    by (simp_all add: sound_statement_def)
  from b have "ok_state F s1" "expected_return (ctx s1) = expected_return (ctx s)" by (simp_all add: binds_def)
  from Cons.IH [OF this(1) f(2) rest] this(2) b ts g binds_trans [OF b]
  show ?case by (auto intro!: good_cons dest: binds_model)
qed

lemma contents_sound:
  assumes S: "\<And>s st t s'. ok_state F s \<Longrightarrow> scalar_statement F st \<Longrightarrow> S st s = Ok (t, s') \<Longrightarrow> sound_statement F s t s'"
    and keep: "\<And>st. keeps (moves (Suc 0) (Suc 0)) (S st)"
    and s: "ok_state F s" and f: "scalar_block F b" and m: "infer_block_contents n h X S b r s = Ok (tb, s')"
  shows "sound_block F s tb s'"
proof -
  obtain sts tl sp where b: "b = Block sts tl sp" by (cases b)
  let ?s0 = "set_env (push_scope (env s)) s"
  from m b obtain ts tt s1 s2 where st: "map_infer (\<lambda>st. S (sp_node st)) sts ?s0 = Ok (ts, s1)"
    and tail: "infer_tail n h X r tl s1 = Ok (tt, s2)" and s': "s' = set_env (pop_scope (env s2)) s2" and tb: "tb = TypedBlock ts tt"
    by (auto simp: infer_results open_scope_def close_scope_def)
  have s0: "ok_state F ?s0" "solver ?s0 = solver s" "\<And>\<rho>. tenv_of F \<rho> (scopes (env ?s0)) = tenv_of F \<rho> (scopes (env s))"
      "expected_return (ctx ?s0) = expected_return (ctx s)"
    using s by (auto simp: ok_state_def set_env_def push_scope_def binds_ok_def tenv_of_def fun_eq_iff)
  from f b have fs: "list_all (\<lambda>st. scalar_statement F (sp_node st)) sts" "case tl of None \<Rightarrow> True | Some e \<Rightarrow> scalar_expr F (sp_node e)"
    by simp_all
  from statements_sound [OF S s0(1) fs(1) st] s0 have b1: "binds F ?s0 s1" and g: "\<And>\<rho>. model (solver s1) \<rho> \<Longrightarrow>
      good_statements \<rho> (tenv_of F \<rho> (scopes (env s))) (\<rho> (expected_return (ctx s))) ts (tenv_of F \<rho> (scopes (env s1)))"
    by auto
  then have s1: "ok_state F s1" and r1: "expected_return (ctx s1) = expected_return (ctx s)" using s0(4) by (simp_all add: binds_def)
  have T: "quiet F s1 s2 \<and> (case tt of None \<Rightarrow> True | Some e \<Rightarrow> sty (vars s2) (ty_of e) \<and> (\<forall>\<rho>. model (solver s2) \<rho> \<longrightarrow>
      good_expr \<rho> (tenv_of F \<rho> (scopes (env s1))) (\<rho> (expected_return (ctx s))) (sp_node e)))"
  proof (cases tl)
    case None
    with tail s1 show ?thesis by (simp add: infer_tail_def infer_results quiet_refl)
  next
    case (Some e)
    with tail obtain te s3 where x: "X e s1 = Ok (te, s3)" and tt: "tt = Some te"
      and ret: "s2 = s3 \<or> (\<exists>span u. unify_return n h (ty_of te) span (set_saw_return True s3) = Ok (u, s2))"
      by (force simp: infer_tail_def return_seen_def infer_results split: if_splits)
    from fs Some have "scalar_expr F (sp_node e)" by simp
    note E = X_sound [OF s1 this x]
    note q = sound_quiet(1) [OF E] and s3 = quiet_ok [OF sound_quiet(1) [OF E]]
    note w = sound_updates(1) [OF s3, of True]
    have q2: "quiet F s3 s2"
      using ret quiet_refl [OF s3] sound_unify_return(1) [OF quiet_ok [OF w] quiet_sty [OF w sound_ty(1) [OF E]]] quiet_trans [OF w]
      by blast
    from quiet_trans [OF q q2] quiet_sty [OF q2 sound_ty(1) [OF E]] sound_exprD [OF E q2] tt r1 show ?thesis by simp
  qed
  then have q: "quiet F s1 s2" by blast
  have e: "solver s' = solver s2" "expected_return (ctx s') = expected_return (ctx s)" "root (env s') = root (env s2)"
    using quiet_names [OF q] r1 by (simp_all add: s' set_env_def pop_scope_def)
  have "moves 0 0 s s'" using keepsD [OF contents [OF keep] m] .
  then have sc: "scopes (env s') = scopes (env s)" "root (env s') = root (env s)" by (simp_all add: moves_def same_rest_def)
  from b1 q s0(2) have gr: "grows (solver s) (solver s')" by (auto simp: binds_def quiet_def e intro: grows_then)
  from quiet_ok [OF q] s sc e gr have "ok_state F s'"
    by (auto simp: ok_state_def grows_def intro: binds_mono sty_mono)
  with gr sc e have quiet: "quiet F s s'" by (simp add: quiet_def)
  have "good_block \<rho> (tenv_of F \<rho> (scopes (env s))) (\<rho> (expected_return (ctx s))) tb" if m: "model (solver s') \<rho>" for \<rho>
    unfolding tb
    by (rule good_contents [OF _ g]) (use m T quiet_model [OF q] model_base(1) e(1) in \<open>auto split: option.splits\<close>)
  moreover have "sty (vars s') (TypedBlock_ty tb)" using T e(1) by (auto simp: tb TypedBlock_ty_def ty_of_def split: option.splits)
  ultimately show ?thesis using quiet by (simp add: sound_block_def)
qed

end

section \<open>The recursion\<close>

lemma infer_sound:
  "ok_state F s \<Longrightarrow> scalar_expr F (sp_node e) \<Longrightarrow> infer_expr n h e s = Ok (t, s') \<Longrightarrow> sound_expr F s t s'"
  "ok_state F s \<Longrightarrow> scalar_block F b \<Longrightarrow> infer_block n h b r s = Ok (tb, s') \<Longrightarrow> sound_block F s tb s'"
  "ok_state F s \<Longrightarrow> scalar_statement F st \<Longrightarrow> infer_statement n h st s = Ok (ts, s') \<Longrightarrow> sound_statement F s ts s'"
proof (induction n arbitrary: e b r st s t tb ts s')
  case (Suc n)
  have w: "walker (infer_expr n h) (infer_block n h) F" by unfold_locales (rule keeps_infer Suc.IH; assumption?)+
  {
    case 1
    then show ?case using walker.kind_sound [OF w] by simp
  next
    case 2
    then show ?case using walker.contents_sound [OF w Suc.IH(3) keeps_infer(3)] by simp
  next
    case 3
    then show ?case using walker.statement_sound [OF w] by simp
  }
qed (simp_all add: infer_results)

interpretation wk: walker "infer_expr n h" "infer_block n h" F for n h F
  by unfold_locales (rule infer_sound; assumption)+

end
