(* ===== verification/Infer_Finish.thy ===== *)
theory Infer_Finish
  imports Infer_Blocks
begin

text \<open>
  The end of inference on scalar types: defaulting gives the variables the types of a model, the range check
  gives the literals, and the final substitution agrees with the model.
\<close>

section \<open>Defaulting\<close>

lemma default_int_var_eq:
  assumes "scalar_inf s" "v \<in> int_vars s" "default_int_var n v s = Ok u"
  shows "u = (case resolve (solution s) {} v of TVar _ \<Rightarrow> insert_subst v Type_int s | _ \<Rightarrow> s)"
proof -
  from assms(3) obtain c where c: "substitute_type n (solution s) {} (TVar v) = Ok c"
    and u: "u = (case into_owned c of TVar _ \<Rightarrow> insert_subst v Type_int s | _ \<Rightarrow> s)"
    by (auto simp: default_int_var_def apply_subst_def own_def outcome_simps)
  from substitute_scalar [OF assms(1) _ c] assms(2) u show ?thesis by simp
qed

lemma default_one:
  assumes s: "scalar_inf s" and v: "v \<in> int_vars s" and u: "default_int_var n v s = Ok u"
  shows "scalar_inf u \<and> defaulted s u \<and> int_typed v u \<and> int_literal_values u = int_literal_values s"
proof -
  from s have "inferencer_ok s" by (simp add: scalar_inf_def)
  from default_step [OF this v] obtain u' where "settles (\<lambda>n. default_int_var n v s) (Ok u')"
    and d: "defaulted s u'" "int_typed v u'" by blast
  then obtain N where "default_int_var N v s = Ok u'" unfolding settles_def by blast
  with default_int_var_eq [OF s v] u have "u' = u" by metis
  with d have d: "defaulted s u" "int_typed v u" by simp_all
  from default_int_var_eq [OF s v u] have "u = s \<or> u = insert_subst v Type_int s" by (auto split: Type.splits)
  then have "scalar_inf u \<and> int_literal_values u = int_literal_values s"
  proof
    assume u: "u = insert_subst v Type_int s"
    have "inferencer_ok u" using d(1) by (simp add: defaulted_def)
    with s v show ?thesis by (simp add: scalar_inf_def u insert_subst_def Type_int_def)
  qed (use s in simp)
  with d show ?thesis by simp
qed

lemma default_all:
  assumes "scalar_inf s" "set vs \<subseteq> int_vars s" "fold_out (default_int_var n) vs s = Ok u"
  shows "scalar_inf u \<and> defaulted s u \<and> (\<forall>v\<in>set vs. int_typed v u) \<and> int_literal_values u = int_literal_values s"
  using assms
proof (induction vs arbitrary: s)
  case Nil
  then show ?case by (auto simp: scalar_inf_def defaulted_refl)
next
  case (Cons v vs)
  from Cons.prems(3) obtain t where t: "default_int_var n v s = Ok t" "fold_out (default_int_var n) vs t = Ok u"
    by (auto simp: outcome_simps)
  from Cons.prems(2) have v: "v \<in> int_vars s" "set vs \<subseteq> int_vars s" by simp_all
  from default_one [OF Cons.prems(1) v(1) t(1)]
  have T: "scalar_inf t" "defaulted s t" "int_typed v t" "int_literal_values t = int_literal_values s" by simp_all
  from T(2) v(2) have "set vs \<subseteq> int_vars t" by (simp add: defaulted_def)
  with Cons.IH [OF T(1) _ t(2)] T defaulted_trans [of s t u] int_typed_defaulted [of v t u] show ?case by auto
qed

section \<open>The model\<close>

text \<open>The order in which the hash containers are visited: every element once or more. The ids in them were
  allocated, so they are below the counter.\<close>

definition orders_ok :: "Orders \<Rightarrow> bool" where
  "orders_ok orders =
     (\<forall>i. ((\<forall>v\<in>int_vars i. v < next_type_var i) \<longrightarrow> set (var_order orders i) = int_vars i)
        \<and> ((\<forall>v\<in>dom (int_literal_values i). v < next_type_var i) \<longrightarrow>
             set (literal_order orders i) = {(v, l, span). int_literal_values i v = Some (l, span)}))"

lemma literals_resolved:
  "fold_out (check_literal n s) lits errs = Ok errs' \<Longrightarrow> (v, l, span) \<in> set lits \<Longrightarrow> \<exists>r. apply_subst n s (TVar v) = Ok r"
  by (induction lits arbitrary: errs) (auto simp: check_literal_def outcome_simps)

lemma defaulted_equation:
  assumes i: "scalar_inf i" and d: "defaulted i u" "\<forall>v\<in>int_vars i. int_typed v u" and t: "solution i v = Some t"
  shows "full (solution u) (TVar v) = full (solution u) t"
proof -
  from i have ok: "subst_ok (solution i)" and v: "v \<in> int_vars i" and ty: "sty (int_vars i) t" and
    like: "\<forall>w\<in>int_vars i. int_like (int_vars i) (resolve (solution i) {} w)"
    using t by (auto simp: scalar_inf_def inferencer_ok_def)
  have v': "resolve (solution i) {} v = full (solution i) t" using t by (simp add: resolve_rec [OF ok, of _ v])
  from d(1) have D: "\<forall>w\<in>int_vars i. resolve (solution u) {} w = resolve (solution i) {} w
      \<or> is_var (resolve (solution i) {} w) \<and> resolve (solution u) {} w = Type_int" by (simp add: defaulted_def)
  from d(2) have N: "\<forall>w\<in>int_vars i. \<not> is_var (resolve (solution u) {} w)" by (simp add: int_typed_def)
  from ty show ?thesis
  proof (cases rule: sty_cases)
    case (3 w)
    with v' D v show ?thesis by (auto simp: is_var_def)
  next
    case (4 x)
    with v' D N v show ?thesis by (metis inst.simps(1))
  qed (use v' like v in \<open>auto simp: int_like_def\<close>)
qed

lemma finished_model:
  assumes i: "scalar_inf i" and o: "orders_ok orders" and f: "finish_inference n orders i = Ok u"
  shows "model i (full (solution u))" "scalar_inf (u\<lparr>int_vars := int_vars i\<rparr>)" "int_vars u = {}"
proof -
  from f obtain u0 where u0: "fold_out (default_int_var n) (var_order orders i) i = Ok u0" and u: "u = u0\<lparr>int_vars := {}\<rparr>"
    and c: "check_int_literal_ranges n (literal_order orders u) u = Ok ()"
    by (auto simp: finish_inference_def default_int_vars_def outcome_simps lift_Ok)
  from i o have vars: "set (var_order orders i) = int_vars i" by (simp add: orders_ok_def scalar_inf_def)
  from default_all [OF i _ u0] vars have D: "scalar_inf u0" "defaulted i u0" "\<forall>v\<in>int_vars i. int_typed v u0"
    "int_literal_values u0 = int_literal_values i" by simp_all
  have iv: "int_vars u0 = int_vars i" using D(2) by (simp add: defaulted_def)
  have "\<forall>v\<in>dom (int_literal_values u). v < next_type_var u"
    using D(1) iv by (auto simp: u scalar_inf_def inferencer_ok_def)
  with o have lits: "set (literal_order orders u) = {(v, l, span). int_literal_values u v = Some (l, span)}"
    by (simp add: orders_ok_def)
  from iv have "u\<lparr>int_vars := int_vars i\<rparr> = u0" by (simp add: u)
  with D(1) show "scalar_inf (u\<lparr>int_vars := int_vars i\<rparr>)" by simp
  show "int_vars u = {}" by (simp add: u)
  from D(1) have ok: "inferencer_ok u0" by (simp add: scalar_inf_def)
  have width: "\<exists>w. resolve (solution u) {} v = TInt w" if "v \<in> int_vars i" for v
    using int_typed_width [OF ok] D(3) that by (simp add: u)
  have app: "apply_subst n u (TVar v) = Ok r \<Longrightarrow> v \<in> int_vars i \<Longrightarrow> r = resolve (solution u) {} v" for v r
    using substitute_scalar [OF D(1), of "TVar v" n] iv by (auto simp: u apply_subst_def own_def outcome_simps)
  have lit: "\<exists>w. resolve (solution u) {} v = TInt w \<and> literal_fits w l" if "int_literal_values i v = Some (l, span)" for v l span
  proof -
    from that D(4) lits have v: "(v, l, span) \<in> set (literal_order orders u)" by (simp add: u)
    from c obtain errs where e: "fold_out (check_literal n u) (literal_order orders u) [] = Ok errs"
      by (auto simp: check_int_literal_ranges_def outcome_simps lift_Ok split: if_splits)
    have sub: "w \<in> int_vars i" if "(w, m, sp) \<in> set (literal_order orders u)" for w m sp
      using that lits D(4) i by (auto simp: u scalar_inf_def inferencer_ok_def)
    have "\<exists>k. apply_subst n u (TVar w) = Ok (TInt k)" if m: "(w, m, sp) \<in> set (literal_order orders u)" for w m sp
    proof -
      from literals_resolved [OF e m] obtain r where "apply_subst n u (TVar w) = Ok r" ..
      with app [OF this sub [OF m]] width [OF sub [OF m]] show ?thesis by (simp add: exE)
    qed
    then have "\<forall>(w, m, sp)\<in>set (literal_order orders u). \<exists>k. apply_subst n u (TVar w) = Ok (TInt k)" by blast
    from range_check [OF this] c have "\<forall>(w, m, sp)\<in>set (literal_order orders u). \<exists>k. apply_subst n u (TVar w) = Ok (TInt k) \<and> literal_fits k m"
      by blast
    with v obtain k where k: "apply_subst n u (TVar v) = Ok (TInt k)" "literal_fits k l" by blast
    with app [OF k(1) sub [OF v]] show ?thesis by (intro exI [of _ k]) simp
  qed
  show "model i (full (solution u))"
    unfolding model_def
  proof (intro conjI allI impI ballI)
    fix v t assume "solution i v = Some t"
    from defaulted_equation [OF i D(2,3) this] show "full (solution u) (TVar v) = full (solution u) t" by (simp add: u)
  next
    fix v l span assume "int_literal_values i v = Some (l, span)"
    from lit [OF this] show "literal_typed (L_Integer l) (full (solution u) (TVar v))"
      by (auto simp: literal_fits_def split: option.splits intro: literal_typed.intros)
  qed (use width in simp_all)
qed

text \<open>The final substitution.\<close>

lemma finished_final:
  assumes u: "scalar_inf (u\<lparr>int_vars := I\<rparr>)" "int_vars u = {}"
  shows "final (full (solution u)) (sub_in_place n h u)"
  unfolding final_def
proof (intro allI impI)
  let ?u = "u\<lparr>int_vars := I\<rparr>"
  fix t t' assume "scalar t" and t': "sub_in_place n h u t = Ok t'"
  from t' obtain m where n: "n = Suc m" by (cases n) (auto simp: sub_in_place_def)
  from u(1) have ok: "subst_ok (solution u)" and dom: "\<forall>v t. solution u v = Some t \<longrightarrow> sty I t"
    by (simp_all add: scalar_inf_def inferencer_ok_def)
  from \<open>scalar t\<close> have "sty UNIV t" by (simp add: scalar_def)
  then show "t' = full (solution u) t"
  proof (cases rule: sty_cases)
    case (4 v)
    show ?thesis
    proof (cases "solution u v")
      case None
      then have "full (solution u) (TVar v) = TVar v" by (simp add: resolve_rec [OF ok, of _ v])
      moreover have "sub_in_place n h u (TVar v) = Ok (TVar v)" using None n u(2) by (simp add: sub_in_place_def)
      ultimately have "t' = TVar v" using t' 4 by simp
      with \<open>full (solution u) (TVar v) = TVar v\<close> 4 show ?thesis by (simp only:)
    next
      case (Some s)
      with t' n 4 u(2) obtain c where "substitute_type m (solution u) {} s = Ok c" "t' = into_owned c"
        by (auto simp: sub_in_place_def outcome_simps)
      with substitute_scalar [OF u(1), of s m c] dom Some 4 show ?thesis by (simp add: resolve_rec [OF ok, of _ v])
    qed
  qed (use t' n in \<open>auto simp: sub_in_place_def\<close>)
qed

end
