(* ===== verification/Infer_Imports.thy ===== *)
theory Infer_Imports
  imports Infer_Frame
begin

text \<open>
  Who writes \<open>typed_definitions\<close>, the map from which \<open>process_definitions\<close> collects the typed program.
\<close>

text \<open>The entry at \<open>k\<close> stays.\<close>

definition entry_kept :: "node \<Rightarrow> InferState \<Rightarrow> InferState \<Rightarrow> bool" where
  "entry_kept k s t = (typed_definitions (chk t) k = typed_definitions (chk s) k)"

interpretation ek: state_preorder "entry_kept k" for k
  by unfold_locales (simp_all add: entry_kept_def)

named_theorems entry

lemmas [entry] = ek.basic ek.chain ek.mapped ek.folded

lemma moves_entry: "keeps (moves a b) m \<Longrightarrow> keeps (entry_kept k) m"
  by (auto simp: keeps_def moves_def same_rest_def entry_kept_def)

lemma entry_root [entry]: "keeps (entry_kept k) (on_root f)"
  by (auto simp: keeps_def on_root_def updates_Ok outcome_simps entry_kept_def set_root_def)

lemma entry_names [entry]:
  "keeps (entry_kept k) fresh_name_id" "keeps (entry_kept k) (set_function_name j i)"
  by (auto simp: keeps_def fresh_name_id_def set_function_name_def updates_Ok outcome_simps entry_kept_def)

lemma entry_put [entry]: "k \<noteq> j \<Longrightarrow> keeps (entry_kept k) (put_typed_definition j d)"
  by (auto simp: keeps_def put_typed_definition_def updates_Ok entry_kept_def)

lemma entry_scopes [entry]:
  "keeps (entry_kept k) open_scope" "keeps (entry_kept k) close_scope" "keeps (entry_kept k) (bind_name x b)"
  by (rule moves_entry keeps_open keeps_close keeps_bind)+

lemma entry_annotated [entry]:
  "keeps (entry_kept k) (annotated_type n h ann)" "keeps (entry_kept k) (return_annotation n h opt)"
  "keeps (entry_kept k) (lookup_abi name)"
  by (auto simp: return_annotation_def annotated_type_def lookup_abi_def split: option.splits intro!: entry)

lemma entry_warn [entry]: "keeps (entry_kept k) (updates (\<lambda>s. Ok (add_warning w s)))"
  by (rule moves_entry [OF keeps_updates(3)])

section \<open>Registering\<close>

lemma entry_param [entry]: "keeps (entry_kept k) (typed_param n h p f)" "keeps (entry_kept k) (typed_params n h ps)"
  by (auto simp: typed_params_def typed_param_def intro!: entry)

lemma entry_signature [entry]: "keeps (entry_kept k) (function_def_to_type n h j f)"
  by (auto simp: function_def_to_type_def function_name_id_def split: option.splits intro!: entry)

lemma entry_fields [entry]: "keeps (entry_kept k) (register_fields n h name sfs)"
  by (auto simp: register_fields_def register_field_def split: prod.splits StructField.splits option.splits intro!: entry)

lemma entry_variant [entry]: "keeps (entry_kept k) (register_variant n h owner v acc)"
  by (auto simp: register_variant_def register_payload_def
      split: prod.splits EnumVariant.splits option.splits EnumVariantPayload.splits intro!: entry)

lemma entry_types [entry]:
  "keeps (entry_kept k) (register_struct n h sd)" "keeps (entry_kept k) (register_enum n h ed)"
  by (cases sd; auto simp: Let_def intro!: entry) (cases ed; auto simp: Let_def split: prod.splits intro!: entry)

lemma entry_constant [entry]: "keeps (entry_kept k) (register_abi_constant j name kind ps ty)"
  by (auto simp: register_abi_constant_def Let_def intro!: entry)

lemma entry_abi_part [entry]: "keeps (entry_kept k) (register_abi_part n h j part acc)"
proof -
  have "keeps (entry_kept k) (register_event n h l e)" for l e by (cases e) (auto intro!: entry)
  moreover have "keeps (entry_kept k) (register_effect n h l e)" for l e by (cases e) (auto intro!: entry)
  moreover have "keeps (entry_kept k) (register_method n h l m)" for l m by (cases m) (auto intro!: entry)
  ultimately show ?thesis by (auto simp: register_abi_part_def split: prod.splits AbiPart.splits intro!: entry)
qed

lemma entry_abi [entry]: "keeps (entry_kept k) (register_abi n h j ad)"
  by (cases ad) (auto simp: Let_def intro!: entry)

lemma entry_constructor [entry]: "keeps (entry_kept k) (constructor_constant n h ex ty kf ns)"
  by (auto simp: constructor_constant_def Let_def split: prod.splits intro!: entry)

lemma entry_burn [entry]: "keeps (entry_kept k) (burn_method n h kf)"
  by (auto simp: burn_method_def split: prod.splits option.splits StaticFunction.splits intro!: entry)

lemma entry_contracts [entry]:
  "keeps (entry_kept k) (register_utxo n h j ud)" "keeps (entry_kept k) (register_token n h j td)"
proof -
  have "keeps (entry_kept k) (implemented_abi p)" for p by (cases p) (auto intro!: entry)
  moreover have "keeps (entry_kept k) (always_abis_of ys)" for ys
    by (auto simp: always_abis_of_def retain_common_def split: list.splits intro!: entry)
  ultimately show "keeps (entry_kept k) (register_utxo n h j ud)" "keeps (entry_kept k) (register_token n h j td)"
    by (cases ud; auto simp: Let_def intro!: entry) (cases td; auto simp: Let_def intro!: entry)
qed

lemma entry_register:
  assumes "k \<noteq> [i]"
  shows "keeps (entry_kept k) (register_definition n h (i, d))"
  using assms by (auto simp: register_definition_def register_function_def split: Definition.splits intro!: entry)

section \<open>Checking\<close>

lemma entry_with_ctx: "keeps (entry_kept k) m \<Longrightarrow> keeps (entry_kept k) (with_ctx c m)"
  by (fastforce simp: keeps_def with_ctx_def outcome_simps entry_kept_def)

lemma entry_function [entry]: "keeps (entry_kept k) (infer_function n h j f)"
  by (auto simp: infer_function_def bind_param_def check_missing_return_def
      intro!: entry entry_with_ctx moves_entry [OF keeps_infer(2)])

lemma entry_impl [entry]: "keeps (entry_kept k) (infer_abi_impl n h j abi fs)"
  by (auto simp: infer_abi_impl_def intro!: entry)

lemma entry_utxo [entry]: "keeps (entry_kept k) (infer_utxo n h j ud)"
proof -
  have "keeps (entry_kept k) (infer_utxo_global n h g)" for g by (cases g) (auto intro!: entry)
  then have "keeps (entry_kept k) (infer_utxo_part n h j p)" for p
    by (auto simp: infer_utxo_part_def check_constructor_def split: prod.splits UtxoPart.splits intro!: entry)
  then show ?thesis by (cases ud) (auto simp: registered_type_def split: Type.splits intro!: entry)
qed

lemma entry_token [entry]: "keeps (entry_kept k) (infer_token n h j td)"
proof -
  have "keeps (entry_kept k) (infer_token_global n h g)" for g by (cases g) (auto intro!: entry)
  then have "keeps (entry_kept k) (infer_token_part n h j p)" for p
    by (auto simp: infer_token_part_def check_constructor_def split: prod.splits TokenPart.splits intro!: entry)
  then show ?thesis
    by (cases td) (auto simp: registered_type_def check_token_shape_def Let_def split: Type.splits intro!: entry)
qed

lemma entry_infer:
  assumes "k \<noteq> [i]"
  shows "keeps (entry_kept k) (infer_definition n h (i, d))"
  using assms by (auto simp: infer_definition_def split: Definition.splits intro!: entry)

section \<open>Imports\<close>

text \<open>An import by path that the module graph did not resolve leaves no entry, and then collecting panics.\<close>

lemma entry_import:
  assumes "k \<noteq> [i]"
  shows "keeps (entry_kept k) (register_import resolved (i, d))"
proof -
  have "keeps (entry_kept k) (import_selected ns source items)" for ns source items
    by (cases items) (auto simp: import_named_def intro!: entry)
  moreover have "keeps (entry_kept k) (import_namespace r source)" for r source
    by (auto simp: import_namespace_def split: option.splits ImportSource.splits intro!: entry)
  ultimately have *: "keeps (entry_kept k) (import_selected ns source items)"
    "keeps (entry_kept k) (import_namespace r src)" for ns source items r src by blast+
  obtain dn span where "d = Spanned dn span" by (cases d)
  show ?thesis
  proof (cases dn)
    case (D_Import im)
    with \<open>d = Spanned dn span\<close> assms * show ?thesis by (cases im) (auto split: option.splits intro!: entry)
  qed (use \<open>d = Spanned dn span\<close> in \<open>auto intro!: entry\<close>)
qed

definition unresolved_import :: "Definition Spanned \<Rightarrow> bool" where
  "unresolved_import d = (\<exists>items path span. d = Spanned (D_Import (ImportDef items (IS_Path path))) span)"

lemma unresolved_skipped:
  assumes "unresolved_import d"
  shows "keeps (entry_kept k) (register_import Map.empty (i, d))"
  using assms by (auto simp: unresolved_import_def import_namespace_def chain_Ok give_Ok updates_Ok keeps_def
      entry_kept_def add_warning_def)

lemma import_not_checked:
  assumes "unresolved_import d"
  shows "keeps (entry_kept k) (register_definition n h (i, d))" "keeps (entry_kept k) (infer_definition n h (i, d))"
  using assms by (auto simp: unresolved_import_def register_definition_def infer_definition_def intro!: entry)

lemma enumerate_nth: "(i, d) \<in> set (enumerate 0 xs) \<longleftrightarrow> i < length xs \<and> d = xs ! i"
  by (auto simp: in_set_enumerate_eq)

text \<open>The three passes leave the entry of such an import alone.\<close>

lemma passes_keep:
  assumes "j < length defs" "unresolved_import (defs ! j)"
  shows "keeps (entry_kept [j]) (map_infer (register_import Map.empty) (enumerate 0 defs))"
    "keeps (entry_kept [j]) (map_infer (register_definition n h) (enumerate 0 defs))"
    "keeps (entry_kept [j]) (map_infer (infer_definition n h) (enumerate 0 defs))"
proof -
  have "keeps (entry_kept [j]) (register_import Map.empty (i, d)) \<and> keeps (entry_kept [j]) (register_definition n h (i, d))
      \<and> keeps (entry_kept [j]) (infer_definition n h (i, d))" if "(i, d) \<in> set (enumerate 0 defs)" for i d
    using that assms unresolved_skipped import_not_checked entry_import entry_register entry_infer
    by (cases "i = j") (auto simp: enumerate_nth)
  then show "keeps (entry_kept [j]) (map_infer (register_import Map.empty) (enumerate 0 defs))"
    "keeps (entry_kept [j]) (map_infer (register_definition n h) (enumerate 0 defs))"
    "keeps (entry_kept [j]) (map_infer (infer_definition n h) (enumerate 0 defs))"
    by (auto intro!: ek.mapped)
qed

lemma taking_fails:
  assumes "typed_definitions (chk s) [j] = None" "(j, d) \<in> set ids"
  shows "map_infer take_typed_definition ids s \<noteq> Ok r"
  using assms
proof (induction ids arbitrary: s r)
  case (Cons a ids)
  obtain i e where a: "a = (i, e)" by (cases a)
  show ?case
  proof
    assume "map_infer take_typed_definition (a # ids) s = Ok r"
    then obtain x u ys where u: "take_typed_definition (i, e) s = Ok (x, u)" "map_infer take_typed_definition ids u = Ok ys"
      by (cases r) (auto simp: a chain_Ok)
    from u(1) Cons.prems(1) have "i \<noteq> j" "typed_definitions (chk u) [j] = None"
      by (auto simp: take_typed_definition_def infer_results)
    with Cons.prems(2) u(2) Cons.IH [of u] show False by (auto simp: a)
  qed
qed simp

lemma never_typed:
  assumes "j < length defs" "unresolved_import (defs ! j)" "typed_definitions (chk s) [j] = None"
  shows "infer_module n h Map.empty defs s \<noteq> Ok (p, t)"
proof
  assume "infer_module n h Map.empty defs s = Ok (p, t)"
  then obtain x1 x2 x3 s1 s2 s3 r where m: "map_infer (register_import Map.empty) (enumerate 0 defs) s = Ok (x1, s1)"
      "map_infer (register_definition n h) (enumerate 0 defs) s1 = Ok (x2, s2)"
      "map_infer (infer_definition n h) (enumerate 0 defs) s2 = Ok (x3, s3)"
      "map_infer take_typed_definition (enumerate 0 defs) s3 = Ok r"
    by (auto simp: infer_module_def register_imports_def process_definitions_def chain_Ok give_Ok)
  note k = passes_keep [OF assms(1,2)]
  from keepsD [OF k(1) m(1)] keepsD [OF k(2) m(2)] keepsD [OF k(3) m(3)] assms(3)
  have "typed_definitions (chk s3) [j] = None" by (simp add: entry_kept_def)
  with m(4) taking_fails [of s3 j "defs ! j"] assms(1) show False by (auto simp: enumerate_nth)
qed

end
