(* ===== verification/Infer_Accept.thy ===== *)
theory Infer_Accept
  imports Infer_Finish Infer_Imports
begin

text \<open>
  Programs of scalar functions: the passes over their definitions, from the initial state of a module to the
  typed program, and what the final substitution makes of the bodies.
\<close>

section \<open>The programs\<close>

definition scalar_signature :: "string set \<Rightarrow> FunctionDef \<Rightarrow> bool" where
  "scalar_signature F f =
     (list_all (\<lambda>p. id_name (fp_name p) \<notin> F \<and> scalar_annotation (fp_ty p)) (fd_params f)
      \<and> (case fd_return_type f of None \<Rightarrow> True | Some a \<Rightarrow> scalar_annotation a))"

fun scalar_definition :: "string set \<Rightarrow> Definition \<Rightarrow> bool" where
  "scalar_definition F D_Contract = True"
| "scalar_definition F (D_Function f) =
     (id_name (fd_name f) \<in> F \<and> scalar_signature F f \<and> scalar_block F (fd_body f))"
| "scalar_definition F _ = False"

fun function_of :: "Definition \<Rightarrow> FunctionDef option" where
  "function_of (D_Function f) = Some f"
| "function_of _ = None"

definition functions_of :: "Definition Spanned list \<Rightarrow> FunctionDef list" where
  "functions_of defs = List.map_filter (\<lambda>d. function_of (sp_node d)) defs"

text \<open>A program of scalar functions, the first of which has no parameters: it is the one that runs.\<close>

definition scalar_program :: "Program \<Rightarrow> bool" where
  "scalar_program p =
     (let fs = functions_of (definitions p); F = set (map (\<lambda>f. id_name (fd_name f)) fs) in
      list_all (\<lambda>d. scalar_definition F (sp_node d)) (definitions p)
      \<and> (case fs of [] \<Rightarrow> True | f # _ \<Rightarrow> fd_params f = []))"

section \<open>Signatures\<close>

text \<open>Between functions there is one scope, with the names of functions.\<close>

definition flat :: "string set \<Rightarrow> InferState \<Rightarrow> bool" where
  "flat F s = (ok_state F s \<and> (\<exists>sc. scopes (env s) = [sc] \<and> fst ` set sc \<subseteq> F))"

definition scalar_params :: "string set \<Rightarrow> Type TypedFunctionParam list \<Rightarrow> bool" where
  "scalar_params F = list_all (\<lambda>p. id_name (param_name p) \<notin> F \<and> sty {} (param_ty p))"

lemma params_sound:
  assumes "ok_state F s" "list_all (\<lambda>p. id_name (fp_name p) \<notin> F \<and> scalar_annotation (fp_ty p)) ps"
    and "typed_params n h ps s = Ok (tps, t)"
  shows "t = s \<and> scalar_params F tps \<and> (ps = [] \<longrightarrow> tps = [])"
  using assms(2,3) unfolding typed_params_def
proof (induction ps arbitrary: tps)
  case (Cons p ps)
  from Cons.prems(2) obtain ty s1 rest where a: "annotated_type n h (fp_ty p) s = Ok (ty, s1)"
    and r: "map_infer (\<lambda>p. typed_param n h (fp_public p) p) ps s1 = Ok (rest, t)"
    and tps: "tps = TypedFunctionParam (fp_public p) (fp_name p) ty (annotation_name_span h (fp_ty p)) # rest"
    by (auto simp: typed_param_def infer_results)
  from Cons.prems(1) sound_annotated [OF assms(1) _ a] have ty: "s1 = s" "sty {} ty" by simp_all
  with r Cons.IH Cons.prems(1) have "t = s \<and> scalar_params F rest" by auto
  with ty Cons.prems(1) show ?case by (simp add: tps scalar_params_def)
qed (simp add: scalar_params_def infer_results)

lemma signature_sound:
  assumes "ok_state F s" "scalar_signature F f" "function_def_to_type n h k f s = Ok (ft, t)"
  shows "solver t = solver s \<and> env t = env s \<and> ctx t = ctx s
    \<and> scalar_params F (fn_params ft) \<and> sty {} (fn_result ft) \<and> (fd_params f = [] \<longrightarrow> fn_params ft = [])"
proof -
  from assms(3) obtain ps s1 R s2 i where p: "typed_params n h (fd_params f) s = Ok (ps, s1)"
    and r: "return_annotation n h (fd_return_type f) s1 = Ok (R, s2)" and i: "function_name_id k s2 = Ok (i, t)"
    and ft: "ft = FunctionType FK_Normal (id_span (fd_name f)) ps R (Some (SF_Named i))"
    by (auto simp: function_def_to_type_def infer_results)
  from assms(2) params_sound [OF assms(1) _ p] have P: "s1 = s" "scalar_params F ps" "fd_params f = [] \<longrightarrow> ps = []"
    by (simp_all add: scalar_signature_def)
  from assms(2) sound_return_annotation [OF assms(1) _ r [unfolded P(1)]] have R: "s2 = s" "sty {} R"
    by (simp_all add: scalar_signature_def)
  from i R(1) have "solver t = solver s \<and> env t = env s \<and> ctx t = ctx s"
    by (auto simp: function_name_id_def fresh_name_id_def set_function_name_def infer_results outcome_simps split: option.splits)
  with P R show ?thesis by (simp add: ft)
qed

lemma flat_same: "flat F s \<Longrightarrow> solver t = solver s \<Longrightarrow> env t = env s \<Longrightarrow> ctx t = ctx s \<Longrightarrow> flat F t"
  by (simp add: flat_def ok_state_def)

lemma insert_constant_root:
  assumes "root_ok F ns" "id_name x \<in> F" "insert_constant x c ns = Ok ns'"
  shows "root_ok F ns'"
  using assms by (cases ns) (auto simp: insert_constant_def put_constant_def update_conv' root_ok_def outcome_simps split: if_splits option.splits)

lemma register_function_flat:
  assumes s: "flat F s" and f: "scalar_signature F f" "id_name (fd_name f) \<in> F" and "register_function n h k f s = Ok (u, t)"
  shows "flat F t \<and> solver t = solver s \<and> typed_definitions (chk t) = typed_definitions (chk s)"
proof -
  from assms(4) obtain ft s1 ns where t: "function_def_to_type n h k f s = Ok (ft, s1)"
    and i: "insert_constant (fd_name f) (ConstantInfo_new (id_span (fd_name f)) (TFunction ft)) (root (env s1)) = Ok ns"
    and t': "t = set_root ns s1"
    by (auto simp: register_function_def on_root_def infer_results outcome_simps)
  from s have ok: "ok_state F s" by (simp add: flat_def)
  note S = signature_sound [OF ok f(1) t]
  with ok have "root_ok F (root (env s1))" by (simp add: ok_state_def)
  from insert_constant_root [OF this f(2) i] have "root_ok F ns" .
  with S s have "flat F t \<and> solver t = solver s" by (simp add: flat_def ok_state_def t' set_root_def)
  moreover have "typed_definitions (chk t) j = typed_definitions (chk s) j" for j
    using keepsD [OF entry_signature [of j] t] by (simp add: t' entry_kept_def set_root_def)
  ultimately show ?thesis by (simp add: fun_eq_iff)
qed

section \<open>Function bodies\<close>

lemma bind_function_name:
  assumes s: "flat F s" and x: "x \<in> F" and b: "bind_name x b s = Ok (u, t)"
  shows "flat F t \<and> solver t = solver s"
proof -
  from b obtain sc outer where sc: "scopes (env s) = sc # outer"
    and t: "t = set_env ((env s)\<lparr>scopes := AList.update x b sc # outer\<rparr>) s"
    by (auto simp: bind_name_def infer_results env_insert_def outcome_simps split: list.splits)
  from s sc have o: "outer = []" "fst ` set sc \<subseteq> F" "binds_ok F (vars s) [sc]" by (auto simp: flat_def ok_state_def)
  have "fst ` set (AList.update x b sc) \<subseteq> F" using o(2) x by (simp add: dom_update)
  moreover have "binds_ok F (vars s) [AList.update x b sc]"
    using o(3) x by (auto simp: binds_ok_def update_conv' split: if_splits option.splits)
  ultimately show ?thesis using s o(1) by (simp add: flat_def ok_state_def t set_env_def)
qed

lemma params_bound:
  assumes "ok_state F s" "scalar_params F ps" "map_infer (bind_param name) ps s = Ok (us, t)"
  shows "ok_state F t \<and> solver t = solver s \<and> root (env t) = root (env s) \<and> (ps = [] \<longrightarrow> t = s)"
  using assms
proof (induction ps arbitrary: s us)
  case (Cons p ps)
  from Cons.prems(3) obtain u s1 us' where b: "bind_param name p s = Ok (u, s1)" and r: "map_infer (bind_param name) ps s1 = Ok (us', t)"
    by (auto simp: infer_results)
  from Cons.prems(2) have p: "sty {} (param_ty p)" and ps: "scalar_params F ps" by (simp_all add: scalar_params_def)
  have "mono (vars s) (b_scheme (local_binding span m (param_ty p) c v))" for span m c v
    using p by (auto simp: mono_def local_binding_def Scheme_monomorphic_def intro: sty_mono)
  note B = sound_bind [OF Cons.prems(1) this b [unfolded bind_param_def]]
  have "ok_state F s1" using B(1) by (simp add: binds_def)
  moreover have "root (env s1) = root (env s)"
    using keepsD [OF keeps_bind b [unfolded bind_param_def]] by (simp add: moves_def same_rest_def)
  ultimately show ?case using Cons.IH [OF _ ps r] B(3) by simp
qed (simp add: infer_results)

lemma function_scope: "fst ` set sc \<subseteq> F \<Longrightarrow> x \<notin> F \<Longrightarrow> map_of sc x = None"
  by (force simp: map_of_eq_None_iff)

text \<open>What is known of the typed body of a function without parameters.\<close>

definition body_ok :: "InferState \<Rightarrow> TypedFunctionDef \<Rightarrow> bool" where
  "body_ok s tf = (\<exists>R. \<forall>\<rho>. model (solver s) \<rho> \<longrightarrow> good_block \<rho> Map.empty (\<rho> R) (tf_body tf))"

lemma body_same: "solver t = solver s \<Longrightarrow> body_ok t tf = body_ok s tf"
  by (simp add: body_ok_def)

lemma body_later: "body_ok s tf \<Longrightarrow> grows (solver s) (solver t) \<Longrightarrow> body_ok t tf"
  unfolding body_ok_def using model_grows by blast

lemma function_sound:
  assumes s: "flat F s" and f: "scalar_definition F (D_Function f)" and m: "infer_function n h k f s = Ok (tf, t)"
  shows "flat F t \<and> grows (solver s) (solver t) \<and> (fd_params f = [] \<longrightarrow> body_ok t tf)"
proof -
  let ?c = "\<lambda>ft. \<lparr>expected_return = fn_result ft, return_span = fd_return_span h f, saw_return = False,
          private_param_decl_spans = private_spans (fd_name f) (fn_params ft),
          is_coroutine = (fd_export f = Some FE_UtxoMain)\<rparr>"
  from m obtain ft s1 u2 s2 s3 u4 s4 b s5 i where t: "function_def_to_type n h k f s = Ok (ft, s1)"
    and bn: "bind_name (id_name (fd_name f)) (local_binding (id_span (fd_name f)) False (TFunction ft) BC_Local BV_Private) s1 = Ok (u2, s2)"
    and s3: "s3 = set_env (push_scope (env s2)) s2"
    and ps: "map_infer (bind_param (fd_name f)) (fn_params ft) s3 = Ok (u4, s4)"
    and b: "infer_block n h (fd_body f) True (s4\<lparr>ctx := ?c ft\<rparr>) = Ok (b, s5)"
    and t': "t = set_env (pop_scope (env s5)) (s5\<lparr>ctx := ctx s4\<rparr>)"
    and tf: "tf = TypedFunctionDef (fd_export f) (fd_name f) i ft b"
    by (auto simp: infer_function_def open_scope_def close_scope_def with_ctx_def check_missing_return_def infer_results
        outcome_simps set_env_def split: if_splits)
  from f have sig: "scalar_signature F f" "id_name (fd_name f) \<in> F" "scalar_block F (fd_body f)" by simp_all
  from s have "ok_state F s" by (simp add: flat_def)
  note S = signature_sound [OF this sig(1) t]
  from S s have "flat F s1" by (blast intro: flat_same)
  from bind_function_name [OF this sig(2) bn] have s2: "flat F s2" "solver s2 = solver s" using S by simp_all
  then obtain sc where sc: "scopes (env s2) = [sc]" "fst ` set sc \<subseteq> F" by (auto simp: flat_def)
  have s3': "ok_state F s3" "scopes (env s3) = [[], sc]" "solver s3 = solver s"
    using s2 sc by (auto simp: flat_def ok_state_def s3 set_env_def push_scope_def binds_ok_def)
  from S have "scalar_params F (fn_params ft)" by blast
  note P = params_bound [OF s3'(1) this ps]
  have "keeps (moves (Suc 0) (Suc 0)) (map_infer (bind_param (fd_name f)) (fn_params ft))"
    unfolding bind_param_def by (intro mv.mapped keeps_bind)
  from keepsD [OF this ps] s3'(2) have d: "drop (Suc 0) (scopes (env s4)) = [sc]" by (simp add: moves_def)
  have s4: "ok_state F (s4\<lparr>ctx := ?c ft\<rparr>)"
    using P S by (auto simp: ok_state_def intro: sty_mono)
  have B: "sound_block F (s4\<lparr>ctx := ?c ft\<rparr>) b s5" by (rule infer_sound(2) [OF s4 sig(3) b])
  note q = sound_quiet(2) [OF B]
  from q P s3'(3) have g: "grows (solver s) (solver s5)" by (simp add: quiet_def)
  have e: "tl (scopes (env s5)) = [sc]" using q d by (simp add: quiet_def drop_Suc)
  have "binds_ok F I [sc]" for I using function_scope [OF sc(2)] by (simp add: binds_ok_def)
  moreover have "sty (vars s5) (expected_return (ctx s4))"
    using P g s3'(3) by (auto simp: ok_state_def grows_def intro: sty_mono)
  ultimately have "flat F t"
    using q e sc(2) by (auto simp: flat_def quiet_def ok_state_def t' set_env_def pop_scope_def)
  moreover have "body_ok t tf" if "fd_params f = []"
  proof -
    from that S P have "s4 = s3" by simp
    then have "tenv_of F \<rho> (scopes (env s4)) = Map.empty" for \<rho>
      using s3'(2) function_scope [OF sc(2)] by (simp add: tenv_of_def fun_eq_iff)
    with B show ?thesis
      unfolding body_ok_def sound_block_def by (intro exI [of _ "fn_result ft"]) (simp add: t' tf set_env_def)
  qed
  ultimately show ?thesis using g by (simp add: t' set_env_def)
qed

section \<open>The passes\<close>

text \<open>The entry for a definition: a function gets its typed body, the contract marker nothing that runs.\<close>

definition entry_ok :: "InferState \<Rightarrow> Definition \<Rightarrow> TypedDefinition \<Rightarrow> bool" where
  "entry_ok s d t = (case function_of d of
       None \<Rightarrow> is_function t = None
     | Some f \<Rightarrow> \<exists>tf. is_function t = Some tf \<and> (fd_params f = [] \<longrightarrow> body_ok s tf))"

definition entries_ok :: "string set \<Rightarrow> Definition Spanned list \<Rightarrow> InferState \<Rightarrow> bool" where
  "entries_ok F defs s = (flat F s \<and> (\<forall>i t. i < length defs \<longrightarrow> typed_definitions (chk s) [i] = Some t \<longrightarrow>
     entry_ok s (sp_node (defs ! i)) t))"

lemma entry_same: "solver t = solver s \<Longrightarrow> entry_ok t = entry_ok s"
  by (intro ext) (simp add: entry_ok_def body_same [of t s] cong: option.case_cong)

lemma entry_later: "entry_ok s d t \<Longrightarrow> grows (solver s) (solver s') \<Longrightarrow> entry_ok s' d t"
  by (auto simp: entry_ok_def split: option.splits intro: body_later)

lemma entries_put:
  assumes s: "entries_ok F defs s" and t: "flat F t" "grows (solver s) (solver t)"
    and k: "\<And>j. j \<noteq> i \<Longrightarrow> typed_definitions (chk t) [j] = typed_definitions (chk s) [j]"
    and e: "\<And>d. i < length defs \<Longrightarrow> typed_definitions (chk t) [i] = Some d \<Longrightarrow> entry_ok t (sp_node (defs ! i)) d"
  shows "entries_ok F defs t"
  unfolding entries_ok_def
proof (intro conjI allI impI)
  fix j d assume j: "j < length defs" "typed_definitions (chk t) [j] = Some d"
  show "entry_ok t (sp_node (defs ! j)) d"
  proof (cases "j = i")
    case False
    with j k s have "entry_ok s (sp_node (defs ! j)) d" by (simp add: entries_ok_def)
    then show ?thesis using t(2) by (rule entry_later)
  qed (use e j in simp)
qed (rule t(1))

lemma register_step:
  assumes s: "entries_ok F defs s" and d: "i < length defs" "scalar_definition F (sp_node (defs ! i))"
    and m: "register_definition n h (i, defs ! i) s = Ok (u, t)"
  shows "entries_ok F defs t"
proof (cases "sp_node (defs ! i)")
  case D_Contract
  with m have t: "put_typed_definition [i] TD_Contract s = Ok (u, t)" by (simp add: register_definition_def)
  then have "flat F t" "solver t = solver s" "typed_definitions (chk t) = (typed_definitions (chk s))([i] \<mapsto> TD_Contract)"
    using s by (auto simp: put_typed_definition_def infer_results entries_ok_def flat_def ok_state_def)
  then show ?thesis by (intro entries_put [OF s, of t i]) (auto simp: D_Contract entry_ok_def)
next
  case (D_Function f)
  with m have m: "register_function n h [i] f s = Ok (u, t)" by (simp add: register_definition_def)
  from d(2) D_Function have "scalar_signature F f" "id_name (fd_name f) \<in> F" by simp_all
  from register_function_flat [OF _ this m] s show ?thesis by (simp add: entries_ok_def entry_ok_def body_ok_def cong: option.case_cong)
qed (use d(2) in simp_all)

lemma infer_step:
  assumes s: "entries_ok F defs s" and d: "i < length defs" "scalar_definition F (sp_node (defs ! i))"
    and m: "infer_definition n h (i, defs ! i) s = Ok (u, t)"
  shows "entries_ok F defs t"
proof (cases "sp_node (defs ! i)")
  case D_Contract
  with m s show ?thesis by (simp add: infer_definition_def infer_results)
next
  case (D_Function f)
  with m obtain tf s1 where f: "infer_function n h [i] f s = Ok (tf, s1)"
    and t: "put_typed_definition [i] (TD_Function tf) s1 = Ok (u, t)"
    by (auto simp: infer_definition_def infer_results)
  from s have "flat F s" by (simp add: entries_ok_def)
  from function_sound [OF this _ f] d(2) D_Function
  have S: "flat F s1" "grows (solver s) (solver s1)" "fd_params f = [] \<longrightarrow> body_ok s1 tf" by simp_all
  from t have t': "t = s1\<lparr>chk := (chk s1)\<lparr>typed_definitions := (typed_definitions (chk s1))([i] \<mapsto> TD_Function tf)\<rparr>\<rparr>"
    by (simp add: put_typed_definition_def infer_results)
  have k: "typed_definitions (chk s1) k = typed_definitions (chk s) k" for k
    using keepsD [OF entry_function [of k] f] by (simp add: entry_kept_def)
  have e: "solver t = solver s1" by (simp add: t')
  show ?thesis
  proof (rule entries_put [OF s, of t i])
    show "flat F t" by (rule flat_same [OF S(1) e]) (simp_all add: t')
    show "grows (solver s) (solver t)" using S(2) by (simp only: e)
    show "typed_definitions (chk t) [j] = typed_definitions (chk s) [j]" if "j \<noteq> i" for j using that k by (simp add: t')
    fix td assume "typed_definitions (chk t) [i] = Some td"
    then have "td = TD_Function tf" by (simp add: t')
    then show "entry_ok t (sp_node (defs ! i)) td" using S(3) by (simp add: D_Function entry_ok_def body_same [OF e])
  qed
qed (use d(2) in simp_all)

text \<open>An invariant of states is a preorder.\<close>

interpretation iv: state_preorder "\<lambda>s t. I s \<longrightarrow> I t" for I :: "InferState \<Rightarrow> bool"
  by unfold_locales simp_all

lemma pass_keeps:
  assumes "\<And>i s u t. i < length defs \<Longrightarrow> I s \<Longrightarrow> f (i, defs ! i) s = Ok (u, t) \<Longrightarrow> I t"
    and "map_infer f (enumerate 0 defs) s = Ok (us, t)" "I s"
  shows "I t"
proof -
  have "keeps (\<lambda>s t. I s \<longrightarrow> I t) (map_infer f (enumerate 0 defs))"
    using assms(1) by (intro iv.mapped) (auto simp: keeps_def enumerate_nth)
  from keepsD [OF this assms(2)] assms(3) show ?thesis by blast
qed

lemma imports_skipped:
  assumes "list_all (\<lambda>d. scalar_definition F (sp_node d)) defs" "register_imports resolved defs s = Ok (u, t)"
  shows "t = s"
proof -
  from assms(2) obtain us where m: "map_infer (register_import resolved) (enumerate 0 defs) s = Ok (us, t)"
    by (auto simp: register_imports_def infer_results)
  have "register_import resolved (i, defs ! i) s' = Ok (v, s'') \<Longrightarrow> s'' = s'" if "i < length defs" for i s' v s''
    using that assms(1) by (cases "(resolved, i, defs ! i)" rule: register_import.cases) (auto simp: list_all_length infer_results)
  from pass_keeps [of defs "\<lambda>x. x = s", OF _ m] this show ?thesis by blast
qed

lemma take_all:
  assumes "entries_ok F defs s" "set xs \<subseteq> set (enumerate 0 defs)" "map_infer take_typed_definition xs s = Ok (ts, t)"
  shows "solver t = solver s \<and> list_all2 (\<lambda>(i, d). entry_ok s (sp_node d)) xs ts"
  using assms
proof (induction xs arbitrary: s ts)
  case (Cons x xs)
  obtain i d where x: "x = (i, d)" by (cases x)
  with Cons.prems(2) have d: "i < length defs" "d = defs ! i" by (simp_all add: enumerate_nth)
  from Cons.prems(3) x obtain td ts' s1 where e: "typed_definitions (chk s) [i] = Some td"
    and s1: "s1 = s\<lparr>chk := (chk s)\<lparr>typed_definitions := (typed_definitions (chk s))([i] := None)\<rparr>\<rparr>"
    and r: "map_infer take_typed_definition xs s1 = Ok (ts', t)" and ts: "ts = td # ts'"
    by (auto simp: take_typed_definition_def infer_results)
  have e1: "solver s1 = solver s" by (simp add: s1)
  note eq = entry_same [OF e1]
  from Cons.prems(1) have "entries_ok F defs s1" by (auto simp: entries_ok_def eq) (auto simp: s1 flat_def ok_state_def split: if_splits)
  from Cons.IH [OF this _ r] Cons.prems(1,2) e d e1 eq show ?case by (simp add: x ts entries_ok_def)
qed (simp add: infer_results)

lemma list_all2_enumerate: "list_all2 (\<lambda>(i, d). P d) (enumerate 0 ds) ts \<longleftrightarrow> list_all2 P ds ts"
  by (simp add: list_all2_conv_all_nth nth_enumerate_eq)

lemma module_sound:
  assumes d: "list_all (\<lambda>d. scalar_definition F (sp_node d)) defs" and s: "entries_ok F defs s"
    and m: "infer_module n h Map.empty defs s = Ok (p, t)"
  shows "scalar_inf (solver t)" "list_all2 (\<lambda>d. entry_ok t (sp_node d)) defs (tp_definitions p)"
proof -
  from m obtain u0 s0 where "register_imports Map.empty defs s = Ok (u0, s0)" "process_definitions n h defs s0 = Ok (p, t)"
    by (auto simp: infer_module_def infer_results)
  with imports_skipped [OF d] have "process_definitions n h defs s = Ok (p, t)" by blast
  then obtain x2 x3 s1 s2 ts where r: "map_infer (register_definition n h) (enumerate 0 defs) s = Ok (x2, s1)"
    and i: "map_infer (infer_definition n h) (enumerate 0 defs) s1 = Ok (x3, s2)"
    and t: "map_infer take_typed_definition (enumerate 0 defs) s2 = Ok (ts, t)" and p: "p = TypedProgram ts"
    by (auto simp: process_definitions_def infer_results)
  have s1: "entries_ok F defs s1" by (rule pass_keeps [of _ "entries_ok F defs", OF _ r s]) (use d in \<open>auto simp: list_all_length intro: register_step\<close>)
  have e: "entries_ok F defs s2" by (rule pass_keeps [of _ "entries_ok F defs", OF _ i s1]) (use d in \<open>auto simp: list_all_length intro: infer_step\<close>)
  note T = take_all [OF e subset_refl t]
  from T have T1: "solver t = solver s2" and T2: "list_all2 (\<lambda>(i, d). entry_ok s2 (sp_node d)) (enumerate 0 defs) ts" by blast+
  from T2 have "list_all2 (\<lambda>d. entry_ok s2 (sp_node d)) defs ts" by (simp only: list_all2_enumerate)
  then show "list_all2 (\<lambda>d. entry_ok t (sp_node d)) defs (tp_definitions p)"
    by (simp add: p entry_same [OF T1])
  from e T1 show "scalar_inf (solver t)" by (simp add: entries_ok_def flat_def ok_state_def)
qed

section \<open>The start\<close>

fun base_type :: "Type \<Rightarrow> bool" where
  "base_type TUnit = True"
| "base_type TBool = True"
| "base_type (TInt w) = True"
| "base_type _ = False"

definition scalar_entry :: "Namespace \<Rightarrow> string \<Rightarrow> bool" where
  "scalar_entry ns x = (case map_of (types ns) x of Some e \<Rightarrow> entry_type_params e = [] \<and> base_type (entry_ty e) | None \<Rightarrow> False)"

lemma base_sty: "base_type t \<Longrightarrow> sty {} t"
  by (cases t) simp_all

text \<open>The prelude has the scalar types and no constants; inference starts without variables.\<close>

definition prelude_scalar :: "Checker \<Rightarrow> bool" where
  "prelude_scalar c = (case import_all_from (prelude (builtins c)) Namespace_default of
       Ok ns \<Rightarrow> List.null (constants ns) \<and> list_all (scalar_entry ns) scalar_names
     | _ \<Rightarrow> False)"

lemma starts_scalar: "case Inferencer_new of Ok c \<Rightarrow> prelude_scalar c | _ \<Rightarrow> False"
  by code_simp

lemma starts_empty:
  "Inferencer_new = Ok c \<Longrightarrow> solution (inferencer c) = Map.empty \<and> int_vars (inferencer c) = {}
    \<and> int_literal_values (inferencer c) = Map.empty \<and> typed_definitions c = Map.empty"
  by (auto simp: Inferencer_new_def outcome_simps)

lemma start_ok:
  assumes c: "Inferencer_new = Ok c" and s: "start_module c = Ok s"
  shows "entries_ok F defs s"
proof -
  from s obtain ns where ns: "import_all_from (prelude (builtins c)) Namespace_default = Ok ns"
    and s': "s = \<lparr>chk = c, env = TypeEnv_new\<lparr>root := ns\<rparr>, ctx = no_ctx\<rparr>"
    by (auto simp: start_module_def split: outcome.splits)
  from starts_scalar have "prelude_scalar c" unfolding c outcome.case .
  with ns have "constants ns = []" "\<forall>x\<in>set scalar_names. scalar_entry ns x"
    unfolding prelude_scalar_def list_all_iff by simp_all
  then have r: "root_ok F ns" unfolding root_ok_def scalar_entry_def
    by (fastforce split: option.splits dest: base_sty)
  have "scalar_inf (inferencer c)"
    using starts_empty [OF c] by (simp add: scalar_inf_def inferencer_ok_def subst_ok_def ranked_def)
  with r show ?thesis using starts_empty [OF c]
    by (simp add: entries_ok_def flat_def ok_state_def binds_ok_def s' TypeEnv_new_def no_ctx_def)
qed

section \<open>The typed program\<close>

lemma apply_definition_function:
  assumes "apply_definition n h i d = Ok d'"
  shows "is_function d = None \<Longrightarrow> is_function d' = None"
    "is_function d = Some tf \<Longrightarrow> \<exists>tf'. is_function d' = Some tf' \<and> apply_function n h i tf = Ok tf'"
  using assms by (cases d; auto simp: apply_definition_def outcome_simps)+

lemma first_function:
  assumes "list_all2 (\<lambda>d. entry_ok s (sp_node d)) defs ts" "map_out (apply_definition n h i) ts = Ok ts'"
  shows "case functions_of defs of
      [] \<Rightarrow> List.map_filter is_function ts' = []
    | f # _ \<Rightarrow> \<exists>tf tf' rest. List.map_filter is_function ts' = tf' # rest \<and> (fd_params f = [] \<longrightarrow> body_ok s tf)
        \<and> apply_function n h i tf = Ok tf'"
  using assms
proof (induction defs ts arbitrary: ts' rule: list_all2_induct)
  case Nil
  then show ?case by (simp add: functions_of_def List.map_filter_def)
next
  case (Cons d defs t ts)
  from Cons.prems obtain t' rest where t: "apply_definition n h i t = Ok t'" "map_out (apply_definition n h i) ts = Ok rest" "ts' = t' # rest"
    by (auto simp: outcome_simps)
  note A = apply_definition_function [OF t(1)]
  show ?case
  proof (cases "function_of (sp_node d)")
    case None
    with Cons.hyps(1) A(1) have "is_function t' = None" by (simp add: entry_ok_def)
    with None Cons.IH [OF t(2)] show ?thesis by (simp add: functions_of_def List.map_filter_def t(3) cong: list.case_cong)
  next
    case (Some f)
    with Cons.hyps(1) obtain tf where "is_function t = Some tf" "fd_params f = [] \<longrightarrow> body_ok s tf" by (auto simp: entry_ok_def)
    with A(2) Some show ?thesis by (auto simp: functions_of_def List.map_filter_def t(3))
  qed
qed

definition safe_result :: "unit may_panic option \<Rightarrow> bool" where
  "safe_result r = (r = None \<or> r = Some (Ok ()) \<or> r = Some (Err Overflow) \<or> r = Some (Err Division_by_zero))"

lemma typed_function_safe:
  assumes "typed_block Map.empty R (tf_body f)"
  shows "safe_result (eval_function m f)"
proof -
  have "store_typed [] []" by (simp add: store_typed_def)
  moreover have "env_typed Map.empty [] Map.empty" by (simp add: env_typed_def)
  ultimately have "delivers [] R (\<lambda>_. value_typed (TypedBlock_ty (tf_body f))) (eval_block m (tf_body f) Map.empty [])"
    by (rule eval_typed(2) [OF assms])
  then show ?thesis
    by (auto simp: eval_function_def safe_result_def delivers_def andthen_eq split: option.splits outcome.splits)
qed

lemma accepted_safe:
  assumes p: "scalar_program p" and o: "orders_ok orders" and t: "typecheck_program n h orders p = Ok r"
  shows "safe_result (exec_program m (ts_program r))"
proof -
  let ?F = "set (map (\<lambda>f. id_name (fd_name f)) (functions_of (definitions p)))"
  from t obtain c s tp s' u q where c: "Inferencer_new = Ok c" and s: "(start_module c :: (TypeError list, _) outcome) = Ok s"
    and m: "infer_module n h Map.empty (definitions p) s = Ok (tp, s')"
    and f: "finish_inference n orders (solver s') = Ok u"
    and q: "apply_substitutions_program n h u tp = Ok q"
    and r': "r = \<lparr>ts_program = q, ts_generic_types = build_generic_type_defs (prelude (builtins (chk s'))), ts_warnings = warnings (chk s')\<rparr>"
    by (auto simp: typecheck_program_def outcome_simps lift_Ok)
  from r' have r: "ts_program r = q" by simp
  from p have d: "list_all (\<lambda>d. scalar_definition ?F (sp_node d)) (definitions p)" by (simp add: scalar_program_def Let_def)
  note M = module_sound [OF d start_ok [OF c s] m]
  note D = finished_model [OF M(1) o f]
  note fin = finished_final [OF D(2,3), of n h]
  from q obtain ts' where ts': "map_out (apply_definition n h u) (tp_definitions tp) = Ok ts'" "q = TypedProgram ts'"
    by (auto simp: apply_substitutions_program_def outcome_simps)
  note W = first_function [OF M(2) ts'(1)]
  show ?thesis
  proof (cases "functions_of (definitions p)")
    case Nil
    with W show ?thesis by (simp add: exec_program_def r ts'(2) safe_result_def)
  next
    case (Cons f fs)
    with p have "fd_params f = []" by (simp add: scalar_program_def)
    with W Cons obtain tf tf' rest where x: "List.map_filter is_function ts' = tf' # rest" "body_ok s' tf" "apply_function n h u tf = Ok tf'"
      by auto
    from x(2) D(1) obtain R where "good_block (full (solution u)) Map.empty R (tf_body tf)" unfolding body_ok_def by blast
    moreover from x(3) have "apply_block n (sub_in_place n h u) (tf_body tf) = Ok (tf_body tf')"
      by (auto simp: apply_function_def outcome_simps)
    ultimately have "typed_block Map.empty R (tf_body tf')" using good_blockD [OF _ fin] by blast
    from typed_function_safe [OF this] show ?thesis by (simp add: exec_program_def r ts'(2) x(1))
  qed
qed

end
