(* ===== verification/Infer_Run.thy ===== *)
theory Infer_Run
  imports Infer_Accept
begin

text \<open>
  Running the type checker on concrete programs by rewriting: the equations of the state monad and of the
  recursive functions on numerals, and the definitions to unfold. The sequencing function is evaluated from the
  left (\<open>andthen_left\<close>), so a continuation is unfolded only once its argument is known.
\<close>

lemma andthen_left: "m = m' \<Longrightarrow> andthen m k = andthen m' k"
  by simp

lemma monad_run:
  "chain m k s = andthen (m s) (\<lambda>(x, t). k x t)" "give x s = Ok (x, s)" "asks f s = Ok (f s, s)" "fail e s = Err e"
  "panic_here s = Panic" "reads g s = andthen (g s) (\<lambda>x. Ok (x, s))" "updates u s = andthen (u s) (\<lambda>t. Ok ((), t))"
  by (simp_all add: chain_def give_def asks_def fail_def panic_here_def reads_def updates_def)

lemma walk_run:
  "infer_expr (Suc n) h e s = infer_expr_kind n h (infer_expr n h) (infer_block n h) (sp_node e) (sp_span e) s"
  "infer_block (Suc n) h b r s = infer_block_contents n h (infer_expr n h) (infer_statement n h) b r s"
  "infer_statement (Suc n) h st s = infer_statement_kind n h (infer_expr n h) (infer_block n h) st s"
  "infer_pattern (Suc n) h vs m v p ty s = infer_pattern_step n h (infer_pattern n h vs m v) vs m v p ty s"
  "unify (Suc n) th i l ty ls rs kind = unify_step th n (unify n th) i l ty ls rs kind"
  by simp_all

lemmas walk_num = walk_run [of "pred_numeral k" for k, folded numeral_eq_Suc]

lemmas fuel_num =
  contains_var.simps(2) [of "pred_numeral k" for k, folded numeral_eq_Suc]
  substitute_type.simps(2) [of "pred_numeral k" for k, folded numeral_eq_Suc]
  substitute_in_place.simps(2) [of _ "pred_numeral k" for k, folded numeral_eq_Suc]
  apply_expr.simps(2) [of "pred_numeral k" for k, folded numeral_eq_Suc]
  apply_block.simps(2) [of "pred_numeral k" for k, folded numeral_eq_Suc]
  apply_statement.simps(2) [of "pred_numeral k" for k, folded numeral_eq_Suc]

declare infer_expr.simps [simp del] infer_block.simps [simp del] infer_statement.simps [simp del]
  infer_pattern.simps [simp del]

lemma irrefutable_run:
  "missing_patterns (TInt w) (TP_Binding x) = Ok []" "missing_patterns (TVar v) (TP_Binding x) = Ok []"
  by code_simp+

section \<open>A host\<close>

text \<open>No \<^verbatim>\<open>Arc\<close> is shared, a type is displayed as a question mark, and the sets are visited by increasing id.\<close>

definition plain_host :: InferHost where
  "plain_host =
     \<lparr>type_host = \<lparr>same_arc = (\<lambda>_ _. False), compact_display = (\<lambda>_. ''?'')\<rparr>, formatted_len = (\<lambda>_. 1),
      span_union = (\<lambda>a b. a), unique_arc = (\<lambda>_. False)\<rparr>"

definition ids_below :: "TypeVarId \<Rightarrow> TypeVarId list" where
  "ids_below v = map (\<lambda>k. TypeVarId (of_nat k)) [0..<unat (TypeVarId_index v)]"

definition id_orders :: Orders where
  "id_orders =
     \<lparr>var_order = (\<lambda>i. filter (\<lambda>v. v \<in> int_vars i) (ids_below (next_type_var i))),
      literal_order = (\<lambda>i. List.map_filter (\<lambda>v. map_option (Pair v) (int_literal_values i v))
        (ids_below (next_type_var i)))\<rparr>"

lemma ids_below_set: "set (ids_below v) = {w. w < v}"
proof
  show "set (ids_below v) \<subseteq> {w. w < v}"
  proof
    fix w assume "w \<in> set (ids_below v)"
    then obtain k where k: "k < unat (TypeVarId_index v)" and w: "w = TypeVarId (of_nat k)" by (auto simp: ids_below_def)
    then have "k < 2 ^ 32" using unsigned_less [of "TypeVarId_index v", where ?'a = nat] by simp
    with k show "w \<in> {w. w < v}" by (simp add: w less_TypeVarId_def word_less_nat_alt unat_of_nat)
  qed
  show "{w. w < v} \<subseteq> set (ids_below v)"
  proof
    fix w assume "w \<in> {w. w < v}"
    then have "unat (TypeVarId_index w) < unat (TypeVarId_index v)" by (simp add: less_TypeVarId_def word_less_nat_alt)
    then show "w \<in> set (ids_below v)" by (cases w) (force simp: ids_below_def)
  qed
qed

section \<open>The definitions to unfold\<close>

lemmas evals =
  fuel_num monad_run walk_run walk_num with_ctx_def Let_def plain_host_def id_orders_def ids_below_def
  DUMMY_SPAN_def irrefutable_run upt_conv_Cons Collect_conv_if free_type_vars_scheme_def enumerate_eq_zip
  apply_for_display_def apply_subst_def format_type_def fresh_var_id_def fresh_var_def fresh_int_var_def infer_int_literal_def env_free_type_vars_def
  generalize_def instantiate_def constrain_def insert_subst_def bind_def unify_pairs_def unified_function_def same_names_def
  unify_functions_def unify_tuples_def unify_records_def unify_variant_def unify_enums_def unify_rest_def unify_resolved_def unify_step_def
  inner_pair_def inner_field_def inner_variant_def inner_bind_def inner_rest_def inner_step_def unify_match_arms_def default_int_var_def
  default_int_vars_def IntegerLiteral_to_string_def literal_fits_def check_literal_def check_int_literal_ranges_def Namespace_default_def TypeEnv_new_def push_scope_def
  pop_scope_def env_insert_def env_get_def get_in_current_scope_def env_schemes_def ConstantInfo_new_def TypeEntry_from_def sc_fields_def
  collision_def collision2_def with_child_def put_constant_def put_struct_constructor_def put_type_def insert_constant_def insert_struct_constructor_def
  insert_type_def import_as_namespace_def import_name_from_def get_abi_def from_option_def unwrap_def set_inferencer_def set_env_def
  set_root_def set_trackers_def set_saw_return_def add_warning_def on_inferencer_def apply_in_def display_in_def unify_in_def
  unify_arms_def generalize_in_def instantiate_in_def fresh_var_in_def bind_name_def open_scope_def close_scope_def lookup_namespace_def
  lookup_abi_def on_root_def fresh_name_id_def split_last_def collect_map_def scoped_name_span_def apply_type_args_def annotated_type_def
  return_annotation_def refresh_type_params_def lookup_struct_info_def lookup_name_def bind_pattern_identifier_def take_field_def no_field_left_def infer_name_pattern_def
  infer_literal_pattern_def infer_struct_field_pattern_def infer_struct_pattern_def lookup_tuple_constructor_def infer_tuple_pattern_def infer_anon_tuple_pattern_def typed_node_def ty_of_def
  label_span_for_expr_def private_parameter_rhs_name_def visibility_of_def is_int_like_in_def require_bool_def require_is_def operand_mismatch_def operand_error_def
  require_numeric_or_bool_pair_def require_same_primitive_def infer_name_def check_negate_def infer_unary_def infer_arithmetic_def infer_logical_def binary_type_def
  infer_binary_def infer_grouping_def infer_disclose_def infer_tuple_def infer_field_init_def infer_struct_constructor_def find_method_def field_type_def
  infer_field_access_def infer_block_expr_def tail_span_or_def merge_branch_def infer_condition_def infer_is_branch_def infer_branch_def infer_if_def
  infer_match_arm_def first_match_error_def infer_match_def infer_yield_def check_call_kind_def check_linearity_def infer_argument_def infer_call_def
  binding_span_def check_redeclaration_def infer_annotated_def private_param_help_def let_help_def require_public_def infer_else_def refutable_error_def
  check_irrefutable_def infer_let_def assign_help_def infer_assignment_def unify_return_def return_seen_def infer_return_def infer_resume_def
  infer_while_def infer_expression_statement_def require_unit_block_def lookup_effect_def infer_handler_def infer_try_with_def infer_tail_def erase_ident_def
  erase_param_def erase_function_def erase_field_def erase_record_def erase_enum_def erase_methods_def erase_abi_def erase_utxo_def
  erase_token_def escape_char_def put_typed_definition_def import_namespace_def import_named_def register_imports_def typed_param_def typed_params_def
  set_function_name_def function_name_id_def function_def_to_type_def duplicate_error_def register_field_def register_fields_def plain_entry_def register_payload_def
  register_variant_def add_variant_def register_abi_constant_def register_abi_part_def retain_common_def always_abis_of_def constructor_constant_def burn_method_def
  register_function_def fd_return_span_def local_binding_def bind_param_def private_spans_def check_missing_return_def infer_function_def plural_def
  arity_error_def check_param_def check_method_def check_abi_impl_def check_constructor_def infer_abi_impl_def infer_utxo_part_def registered_type_def
  check_token_shape_def infer_token_part_def register_definition_def infer_definition_def take_typed_definition_def process_definitions_def apply_in_expr_def map_opt_out_def
  apply_callee_args_def apply_contents_def sub_in_place_def sub_by_ref_def apply_function_def apply_abi_def apply_definition_def apply_substitutions_program_def
  Inferencer_new_def no_ctx_def start_module_def infer_module_def finish_inference_def typecheck_program_def add_type_def add_constant_def
  add_struct_constructor_def primitives_def register_prelude_variant_def register_prelude_enum_def option_variants_def result_variants_def token_method_def register_prelude_def
  runtime_int_def register_std_cardano_def singleton_namespace_def BuiltinRegistry_new_def get_as_namespace_def own_def rewrap_def cv_function_def
  cv_record_def cv_enum_def cv_abi_def cv_utxo_def cv_token_def fv_function_def fv_record_def fv_enum_def
  fv_abi_def fv_utxo_def sub_vec_def sub_param_def sub_function_def sub_field_def sub_record_def sub_variant_def
  sub_enum_def sub_method_def sub_abi_def sub_utxo_def sub_token_def sip_param_def sip_function_def sip_field_def
  sip_record_def sip_variant_def sip_enum_def sip_arc_def sip_method_def sip_abi_def sip_utxo_def sip_token_def


lemmas starts = Inferencer_new_def BuiltinRegistry_new_def register_prelude_def primitives_def add_type_def add_constant_def TypeEntry_from_def register_prelude_enum_def
 option_variants_def result_variants_def register_prelude_variant_def token_method_def register_std_cardano_def singleton_namespace_def Namespace_default_def Let_def runtime_int_def ConstantInfo_new_def start_module_def
 TypeEnv_new_def no_ctx_def with_child_def put_constant_def put_struct_constructor_def put_type_def

lemma entries_set:
  "set (List.map_filter (\<lambda>v. map_option (Pair v) (m v)) vs)
     = {(v, l, span). v \<in> set vs \<and> m v = Some (l, span)}"
  by (induction vs) (auto simp: map_filter_simps split: option.splits)

lemma id_orders_ok: "orders_ok id_orders"
  by (auto simp: orders_ok_def id_orders_def ids_below_set entries_set)

section \<open>Programs\<close>

abbreviation at_span :: "'a \<Rightarrow> 'a Spanned" where
  "at_span e \<equiv> Spanned e (Span 0 1)"

abbreviation named :: "string \<Rightarrow> Identifier" where
  "named x \<equiv> Identifier x (Span 1 2)"

abbreviation integer :: "string \<Rightarrow> Expr Spanned" where
  "integer d \<equiv> at_span (E_Literal (L_Integer (IntegerLiteral d Decimal)))"

abbreviation variable :: "string \<Rightarrow> Expr Spanned" where
  "variable x \<equiv> at_span (E_ScopedName [named x])"

abbreviation program_of :: "Definition list \<Rightarrow> Program" where
  "program_of ds \<equiv> \<lparr>shebang = None, definitions = map at_span ds\<rparr>"

abbreviation main_of :: "TypeAnnotation option \<Rightarrow> Statement list \<Rightarrow> Expr Spanned option \<Rightarrow> Definition" where
  "main_of ty sts result \<equiv> D_Function (FunctionDef None (named ''main'') [] ty (Block (map at_span sts) result (Span 0 9)))"

text \<open>A counter: \<^verbatim>\<open>let x: u8 = 5; let mut y = 1; while (y < 10) { y = y + 1; } y\<close>.\<close>

definition counter :: Program where
  "counter = program_of [main_of (Some (TA_Named [named ''i64''] []))
     [S_VariableDeclaration False False (P_Name [named ''x'']) (Some (TA_Named [named ''u8''] [])) (integer ''5'') None,
      S_VariableDeclaration False True (P_Name [named ''y'']) None (integer ''1'') None,
      S_While (at_span (E_Binary Less (variable ''y'') (integer ''10'')))
        (Block [at_span (S_Assignment (named ''y'') (at_span (E_Binary Add (variable ''y'') (integer ''1''))))] None (Span 0 9))]
     (Some (variable ''y''))]"

fun succeeds :: "('e, 'a) outcome \<Rightarrow> bool" where
  "succeeds (Ok _) = True"
| "succeeds _ = False"

lemma succeeds_Ok: "succeeds m \<longleftrightarrow> (\<exists>r. m = Ok r)"
  by (cases m) simp_all

lemma counter_accepted: "succeeds (typecheck_program 20 plain_host id_orders counter)"
  unfolding typecheck_program_def
  apply (simp add: starts enumerate_eq_zip cong: andthen_left)
  apply (simp add: counter_def evals cong: andthen_left)
  apply code_simp
  done

text \<open>\<^verbatim>\<open>let x: u8 = -5;\<close>\<close>

definition negative :: Program where
  "negative = program_of [main_of None
     [S_VariableDeclaration False False (P_Name [named ''x'']) (Some (TA_Named [named ''u8''] []))
        (at_span (E_Unary Negate (integer ''5''))) None] None]"

lemma negative_accepted: "succeeds (typecheck_program 20 plain_host id_orders negative)"
  unfolding typecheck_program_def
  apply (simp add: starts enumerate_eq_zip cong: andthen_left)
  apply (simp add: negative_def evals cong: andthen_left)
  apply code_simp
  done

text \<open>\<^verbatim>\<open>import { a } from "b.star";\<close>\<close>

definition importing :: Program where
  "importing = program_of [D_Import (ImportDef (II_Named [ImportNamedItem (named ''a'') (named ''a'')]) (IS_Path (ImportPath ''b.star'' (Span 0 1))))]"

lemma importing_panics: "typecheck_program 20 plain_host id_orders importing = Panic"
  unfolding typecheck_program_def
  apply (simp add: starts enumerate_eq_zip cong: andthen_left)
  apply (simp add: importing_def evals cong: andthen_left)
  done

end
