(* ===== verification/Infer_Properties.thy ===== *)
theory Infer_Properties
  imports Infer_Run
begin

text \<open>
  Properties of type inference, up to the entry point \<open>typecheck_program\<close>.
\<close>

lemma no_entries: "Inferencer_new = Ok c \<Longrightarrow> start_module c = Ok s \<Longrightarrow> typed_definitions (chk s) k = None"
  using starts_empty [of c] by (auto simp: start_module_def split: outcome.splits)

text \<open>A state to infer in: a new environment, no variables.\<close>

definition empty_state :: InferState where
  "empty_state =
     \<lparr>chk = \<lparr>warnings = [],
        inferencer = \<lparr>next_type_var = TypeVarId 0, solution = Map.empty, int_vars = {}, int_literal_values = Map.empty\<rparr>,
        builtins = \<lparr>prelude = Namespace_default, wit_tree = Namespace_default\<rparr>, next_name_id = NameId 0,
        function_names = Map.empty, typed_definitions = Map.empty, abi_call_trackers = []\<rparr>,
      env = TypeEnv_new, ctx = no_ctx\<rparr>"

definition let_x :: Statement where
  "let_x = S_VariableDeclaration False False (P_Name [named ''x'']) None (integer ''5'') None"

definition shadowing :: Block where
  "shadowing = Block [at_span (S_VariableDeclaration False False (P_Name [named ''y'']) None (variable ''x'') None)]
     (Some (variable ''y'')) (Span 0 9)"

lemma let_then_block:
  "succeeds (chain (infer_statement 9 plain_host let_x) (\<lambda>_. infer_block 9 plain_host shadowing False) empty_state)"
  by (simp add: empty_state_def let_x_def shadowing_def no_ctx_def evals cong: andthen_left)

text \<open>
C2: A program of scalar functions that the type checker accepts runs safely. Scalar functions take and return
integers, booleans and the unit value, and their bodies are built from literals, variables, operators, blocks, \<^verbatim>\<open>if\<close>,
\<^verbatim>\<open>while\<close>, \<^verbatim>\<open>let\<close> with and without annotation or \<^verbatim>\<open>else\<close>, assignment and \<^verbatim>\<open>return\<close>, without calls; the first
function has no parameters. Inference, defaulting, the range check of the literals and the final substitution
together leave a typed program which the interpreter runs without a panic other than overflow and division by
zero: never an unbound name, a missing pattern, or an operand of the wrong kind. \<open>None\<close> is a run that exceeds the
bound \<open>m\<close> of the interpreter; the hash maps of the solver are visited in any order that lists them (\<open>orders_ok\<close>).
\<close>

theorem accepted_programs_run_safely:
  assumes "scalar_program p" "orders_ok orders" "typecheck_program n h orders p = Ok r"
  shows "exec_program m (ts_program r) \<in> {None, Some (Ok ()), Some (Err Overflow), Some (Err Division_by_zero)}"
  using accepted_safe [OF assms, of m] by (auto simp: safe_result_def)

theorem accepted_programs_run_safely_witness:
  "scalar_program counter \<and> orders_ok id_orders \<and> (\<exists>r. typecheck_program 20 plain_host id_orders counter = Ok r
     \<and> exec_program 9 (ts_program r) \<in> {None, Some (Ok ()), Some (Err Overflow), Some (Err Division_by_zero)})"
proof -
  have c: "scalar_program counter" by code_simp
  from counter_accepted obtain r where r: "typecheck_program 20 plain_host id_orders counter = Ok r"
    by (auto simp: succeeds_Ok)
  from accepted_programs_run_safely [OF c id_orders_ok r, of 9] c id_orders_ok r show ?thesis by blast
qed

text \<open>
Inference leaves the environment as it found it. A statement changes at most the innermost scope; a block after
it changes none, it closes the scopes it opens. Neither touches the namespace of the module, the registered
functions and definitions, nor the declared part of the function context.
\<close>

theorem inference_restores_environment:
  assumes "infer_statement n h st s = Ok (ts, t)" "infer_block n h b r t = Ok (tb, u)" "scopes (env s) = sc # outer"
  shows "(\<exists>sc'. scopes (env t) = sc' # outer) \<and> root (env t) = root (env s) \<and> env u = env t
    \<and> function_names (chk u) = function_names (chk s) \<and> typed_definitions (chk u) = typed_definitions (chk s)
    \<and> expected_return (ctx u) = expected_return (ctx s) \<and> is_coroutine (ctx u) = is_coroutine (ctx s)"
proof -
  note st = keepsD [OF keeps_infer(3) assms(1)] and b = keepsD [OF keeps_infer(2) assms(2)]
  from st assms(3) have "Suc 0 \<le> length (scopes (env t))" "drop (Suc 0) (scopes (env t)) = outer" by (simp_all add: moves_def)
  then have "\<exists>sc'. scopes (env t) = sc' # outer" by (cases "scopes (env t)") simp_all
  moreover from b have "env u = env t" by (cases "env u"; cases "env t") (simp add: moves_def same_rest_def)
  moreover from st b have "root (env t) = root (env s)" "function_names (chk u) = function_names (chk s)"
    "typed_definitions (chk u) = typed_definitions (chk s)" "expected_return (ctx u) = expected_return (ctx s)"
    "is_coroutine (ctx u) = is_coroutine (ctx s)" by (simp_all add: moves_def same_rest_def)
  ultimately show ?thesis by blast
qed

theorem inference_restores_environment_witness:
  "\<exists>ts t tb u. infer_statement 9 plain_host let_x empty_state = Ok (ts, t)
     \<and> infer_block 9 plain_host shadowing False t = Ok (tb, u) \<and> env u = env t"
proof -
  from let_then_block obtain ts t tb u where r: "infer_statement 9 plain_host let_x empty_state = Ok (ts, t)"
    "infer_block 9 plain_host shadowing False t = Ok (tb, u)" by (auto simp: succeeds_Ok chain_Ok)
  have "scopes (env empty_state) = [] # []" by (simp add: empty_state_def TypeEnv_new_def)
  from inference_restores_environment [OF r this] r show ?thesis by blast
qed

text \<open>
  A program with an import by path is never accepted as a single file. \<open>register_imports\<close> only warns that
  the import is ignored, but then nothing enters a typed definition for it, and collecting the typed program
  panics (unless another definition was in error before).
\<close>

theorem path_import_never_accepted:
  assumes "j < length (definitions p)" "unresolved_import (definitions p ! j)"
  shows "typecheck_program n h orders p \<noteq> Ok r"
proof
  assume "typecheck_program n h orders p = Ok r"
  then obtain c s tp s' where c: "Inferencer_new = Ok c" and s: "(start_module c :: (TypeError list, _) outcome) = Ok s"
    and m: "infer_module n h Map.empty (definitions p) s = Ok (tp, s')"
    by (auto simp: typecheck_program_def outcome_simps lift_Ok)
  with never_typed [OF assms no_entries [OF c s]] show False by blast
qed

theorem path_import_never_accepted_witness:
  "unresolved_import (definitions importing ! 0) \<and> typecheck_program 20 plain_host id_orders importing = Panic
     \<and> (\<forall>r. typecheck_program 20 plain_host id_orders importing \<noteq> Ok r)"
proof -
  have "unresolved_import (definitions importing ! 0)" "0 < length (definitions importing)"
    by (simp_all add: importing_def unresolved_import_def)
  with path_import_never_accepted [OF this(2,1)] importing_panics show ?thesis by blast
qed

end
