(* ===== verification/Infer_Modules.thy ===== *)
theory Infer_Modules
  imports Infer_Program
begin

text \<open>
  Type checking a graph of modules, \<^verbatim>\<open>typecheck_modules\<close> in \<^verbatim>\<open>typecheck/infer.rs\<close>: the modules in
  topological order, each with the exports of the modules it imports, then one defaulting and one final
  substitution for all. As in \<open>Infer_Program\<close> the model stops at the first error, where the source goes on with
  the next module to collect more of them; \<open>Err\<close> has the head of its list.
\<close>

text \<open>\<^verbatim>\<open>resolve_path_imports\<close>: the namespace for each import by path, by the index of its definition. The \<^verbatim>\<open>else\<close>
  branch is \<^verbatim>\<open>unreachable!()\<close>.\<close>

definition resolve_edge ::
  "(ModuleId \<rightharpoonup> Namespace) \<Rightarrow> PathImport \<Rightarrow> (nat \<rightharpoonup> Namespace) \<Rightarrow> (nat \<rightharpoonup> Namespace) total" where
  "resolve_edge module_exports edge result =
     (case module_exports (target edge) of
        None \<Rightarrow> Panic
      | Some target_exports \<Rightarrow> Ok (result(def_index edge \<mapsto> target_exports)))"

definition resolve_path_imports ::
  "ModuleGraph \<Rightarrow> ModuleId \<Rightarrow> (ModuleId \<rightharpoonup> Namespace) \<Rightarrow> (nat \<rightharpoonup> Namespace) total" where
  "resolve_path_imports graph importer module_exports =
     fold_out (resolve_edge module_exports) (edges_of graph importer) Map.empty"

text \<open>The local variables of the loop.\<close>

record ModulesState =
  checker :: Checker
  module_exports :: "ModuleId \<rightharpoonup> Namespace"
  typed_modules :: "ModuleId \<rightharpoonup> TypedProgram"
  module_warnings :: "(ModuleId \<times> TypeWarning) list"

text \<open>One module. The keys of \<open>function_names\<close> are addresses of nodes of the syntax tree; those of an earlier
  module are never looked up again, so the map of paths starts empty.\<close>

definition forget_names :: "Checker \<Rightarrow> Checker" where
  "forget_names c = c\<lparr>function_names := Map.empty\<rparr>"

definition drain_warnings :: "Checker \<Rightarrow> Checker" where
  "drain_warnings c = c\<lparr>warnings := []\<rparr>"

definition typecheck_module ::
  "nat \<Rightarrow> InferHost \<Rightarrow> ModuleGraph \<Rightarrow> ModuleId \<Rightarrow> ModulesState
    \<Rightarrow> ((ModuleId \<times> TypeError) list, ModulesState) outcome" where
  "typecheck_module n h graph i st =
     at (modules graph) (mod_index i) (\<lambda>m.
     andthen (start_module (forget_names (checker st))) (\<lambda>s.
     andthen (lift (resolve_path_imports graph i (module_exports st))) (\<lambda>resolved_imports.
     andthen (map_err (\<lambda>e. [(i, e)]) (infer_module n h resolved_imports (definitions (program m)) s)) (\<lambda>(typed, s).
     Ok \<lparr>checker = drain_warnings (chk s),
         module_exports = (module_exports st)(i \<mapsto> root (env s)),
         typed_modules = (typed_modules st)(i \<mapsto> typed),
         module_warnings = module_warnings st @ map (\<lambda>w. (i, w)) (warnings (chk s))\<rparr>))))"

definition ModulesState_new :: "Checker \<Rightarrow> ModulesState" where
  "ModulesState_new c =
     \<lparr>checker = c, module_exports = Map.empty, typed_modules = Map.empty, module_warnings = []\<rparr>"

record TypedModule =
  tm_id :: ModuleId
  tm_abs_path :: Path
  tm_source :: string
  tm_program :: TypedProgram
  tm_edges :: "ModuleId list"

record TypedModuleGraph =
  tg_modules :: "TypedModule list"
  tg_topo_order :: "ModuleId list"
  tg_contract_entries :: "ModuleId list"
  tg_generic_types :: "(string \<times> GenericTypeDef) list"
  tg_warnings :: "(ModuleId \<times> TypeWarning) list"

text \<open>\<^verbatim>\<open>typed_modules.remove(&source_module.id).unwrap_or_default()\<close>, after the final substitution.\<close>

definition typed_module ::
  "nat \<Rightarrow> InferHost \<Rightarrow> Inferencer \<Rightarrow> ModuleGraph \<Rightarrow> (ModuleId \<rightharpoonup> TypedProgram) \<Rightarrow> Module \<Rightarrow> TypedModule total" where
  "typed_module n h i graph typed m =
     andthen (case typed (mod_id m) of
         None \<Rightarrow> Ok (TypedProgram [])
       | Some p \<Rightarrow> apply_substitutions_program n h i p) (\<lambda>p.
     Ok \<lparr>tm_id = mod_id m, tm_abs_path = abs_path m, tm_source = mod_source m, tm_program = p,
         tm_edges = map target (edges_of graph (mod_id m))\<rparr>)"

text \<open>The module to which errors of the range check are attributed.\<close>

definition fallback_module :: "ModuleGraph \<Rightarrow> ModuleId option" where
  "fallback_module graph =
     (case contract_entries graph of
        i # _ \<Rightarrow> Some i
      | [] \<Rightarrow> (case modules graph of m # _ \<Rightarrow> Some (mod_id m) | [] \<Rightarrow> None))"

definition typecheck_modules ::
  "nat \<Rightarrow> InferHost \<Rightarrow> Orders \<Rightarrow> ModuleGraph \<Rightarrow> ((ModuleId \<times> TypeError) list, TypedModuleGraph) outcome" where
  "typecheck_modules n h orders graph =
     andthen (lift Inferencer_new) (\<lambda>c.
     andthen (fold_out (typecheck_module n h graph) (topo graph) (ModulesState_new c)) (\<lambda>st.
     (case finish_inference n orders (inferencer (checker st)) of
        Panic \<Rightarrow> Panic
      | Err errors \<Rightarrow> expect (fallback_module graph) (\<lambda>fallback. Err (map (\<lambda>e. (fallback, e)) errors))
      | Ok i \<Rightarrow>
          andthen (lift (map_out (typed_module n h i graph (typed_modules st)) (modules graph))) (\<lambda>ms.
          Ok \<lparr>tg_modules = ms, tg_topo_order = topo graph, tg_contract_entries = contract_entries graph,
              tg_generic_types = build_generic_type_defs (prelude (builtins (checker st))),
              tg_warnings = module_warnings st\<rparr>))))"

end
