(* ===== verification/Module_Typing.thy ===== *)
theory Module_Typing
  imports Infer_Imports Infer_Modules Infer_Run Module_Properties
begin

text \<open>
  Collecting the typed program: what each pass leaves in \<open>typed_definitions\<close>, why no definition is missing when
  every import by path is resolved, and why those of an accepted module graph are.
\<close>

section \<open>One pass\<close>




section \<open>The passes\<close>



fun is_import :: "Definition \<Rightarrow> bool" where
  "is_import (D_Import i) = True"
| "is_import _ = False"








section \<open>All passes\<close>


lemma register_import_skips: "\<not> is_import (sp_node d) \<Longrightarrow> register_import resolved (i, d) s = Ok (u, t) \<Longrightarrow> t = s"
  by (cases d; cases "sp_node d") (auto simp: give_Ok)





section \<open>A module\<close>






section \<open>The modules of a graph\<close>









end
