(* ===== verification/Spec2Isabelle.thy ===== *)
theory Spec2Isabelle
  imports Ledger_Properties Match_Properties Decision_Tree_Properties Unify_Properties Module_Properties
    Interpreter_Properties Wasm_Properties Infer_Properties Module_Typing
begin

text \<open>
  A verification development for Starstream, a language and runtime for UTXO coroutines: its compiler
  (Rust crates \<^verbatim>\<open>starstream-types\<close>, \<^verbatim>\<open>starstream-compiler\<close>, \<^verbatim>\<open>starstream-to-wasm\<close>) turns a program into
  Wasm, the program runs as communicating coroutines, and the ledger accepts a transaction when the
  traces of its coroutines interleave. Modelled are how a transaction is verified and applied, the type checker
  from the module graph to the typed program, the interpreter, and of code generation the compilation of
  pattern matching and the operators on integers.

  \<^bold>\<open>Conventions\<close> (\<open>Prelude\<close>). A function that may fail or panic returns \<open>outcome\<close>: \<open>Ok\<close>, \<open>Err\<close> or
  \<open>Panic\<close>; \<open>'a total\<close> is a function that can only panic. Structs are records, or datatypes with one
  constructor where they nest; enums are datatypes; \<^verbatim>\<open>Vec\<close> is a list, \<^verbatim>\<open>HashMap\<close> a map, \<^verbatim>\<open>HashSet\<close> a set.
  Where the iteration order of a hash container can be observed, the definition takes the order as a list
  and the property holds for every order. The order of effects, checks and early returns is the source's.
  \<open>loop_contract\<close> is the contract of a \<^verbatim>\<open>for\<close> loop over a state.

  \<^bold>\<open>The interleaving verifier\<close> (\<^verbatim>\<open>interleaving/starstream-interleaving-spec-legacy/src\<close>)
  \<^item> \<open>Interleaving_Types\<close>: \<^verbatim>\<open>transaction_effects/\<close> (\<^verbatim>\<open>witness.rs\<close>, \<^verbatim>\<open>abi.rs\<close>, \<^verbatim>\<open>instance.rs\<close>) and
    \<^verbatim>\<open>memory_tags.rs\<close>: the effects a process traces, their discriminants and the public instance.
  \<^item> \<open>Interleaving_Machine\<close>: \<^verbatim>\<open>InterleavingState\<close>, \<^verbatim>\<open>ROM\<close> and \<^verbatim>\<open>state_transition\<close> of
    \<^verbatim>\<open>mocked_verifier.rs\<close>, one definition \<open>op_...\<close> per arm; \<open>Interleaving_Verify\<close>: the run loop and the
    final conditions of \<^verbatim>\<open>verify_interleaving_semantics\<close>. The loop ends because each transition consumes
    a trace entry.
  \<^item> \<open>Interleaving_Steps\<close> inverts each arm; \<open>Interleaving_Invariants\<close> has the invariants of the machine
    (sizes, control, arena, ownership, burning) as interpretations of \<open>step_invariant\<close> and
    \<open>step_preorder\<close>; \<open>Interleaving_Schedule\<close> refines the loop by a small-step relation whose executions
    interleave the traces; \<open>Interleaving_Safety\<close> says when no input makes the verifier panic;
    \<open>Interleaving_Claims\<close> has the guarantees across steps, and \<open>Interleaving_Properties\<close> the properties.

  \<^bold>\<open>The ledger\<close> (\<^verbatim>\<open>lib.rs\<close> of the same crate)
  \<^item> \<open>Ledger\<close>: \<^verbatim>\<open>Ledger\<close>, \<^verbatim>\<open>verify_witness\<close> (which calls the interleaving verifier) and
    \<^verbatim>\<open>apply_transaction\<close>, one definition per loop body. The fold verifier \<^verbatim>\<open>neo_fold_clean\<close> is the
    parameter \<open>fold_lib\<close>.
  \<^item> \<open>Ledger_Invariants\<close>: the well-formedness of the ledger and the contract of each loop;
    \<open>Ledger_Verify\<close>: what verification establishes for application; \<open>Ledger_Properties\<close>: the properties.

  \<^bold>\<open>Exhaustiveness checking\<close> (\<^verbatim>\<open>starstream-compiler/src/typecheck/exhaustiveness.rs\<close>)
  \<^item> \<open>Lang_Types\<close> and \<open>Lang_Patterns\<close>: the types of \<^verbatim>\<open>starstream-types/src/types.rs\<close>, literals and typed
    patterns; \<open>Type_Errors\<close>: the errors of the checker.
  \<^item> \<open>Exhaustiveness\<close>: the pattern matrix, \<^verbatim>\<open>is_useful\<close> and \<^verbatim>\<open>collect_missing_patterns\<close>; \<open>Match_Check\<close>:
    \<^verbatim>\<open>lower_pattern\<close>, \<^verbatim>\<open>check_match\<close> and \<^verbatim>\<open>missing_patterns\<close>. The recursion of the usefulness test ends by
    a measure on types and rows; no fuel is needed.
  \<^item> \<open>Exhaustiveness_Sound\<close>, \<open>Missing_Sound\<close> and \<open>Match_Check_Sound\<close> specify values, their typing and
    matching, and prove the algorithms correct for them; \<open>Match_Properties\<close> has the properties.

  \<^bold>\<open>Decision trees\<close> (\<^verbatim>\<open>starstream-to-wasm/src/decision_tree.rs\<close> and the lowering of patterns in \<^verbatim>\<open>lib.rs\<close>)
  \<^item> \<open>Decision_Tree\<close>: the compilation of a pattern matrix. Its recursion ends by a measure.
  \<^item> \<open>Decision_Tree_Sound\<close> says what a tree does on values (a specification: the emission of instructions
    is not modelled). A run ends in a leaf (\<open>Runs\<close>), in a \<^verbatim>\<open>Fail\<close> node (\<open>Fails\<close>: the \<^verbatim>\<open>else\<close> block of a
    \<^verbatim>\<open>let\<close>, an \<^verbatim>\<open>unreachable\<close> of a \<^verbatim>\<open>match\<close>) or in an \<^verbatim>\<open>unreachable\<close> that a switch emits (\<open>Traps\<close>).
    \<open>Decision_Tree_Correct\<close> and \<open>Decision_Tree_Lowering\<close> prove the compilation and the lowering correct, with
    the variables bound: all of the pattern unless an earlier arm inspects the value where this one binds a
    variable (\<open>hides\<close> on lowered, \<open>inspects\<close> on typed patterns). \<open>Decision_Tree_Properties\<close> composes them
    with exhaustiveness checking; its hypothesis \<open>lit_fitting\<close> asks integer literals to fit \<^verbatim>\<open>i64\<close>.

  \<^bold>\<open>Unification\<close> (\<^verbatim>\<open>starstream-types/src/types/subst.rs\<close> and the unification of
  \<^verbatim>\<open>starstream-compiler/src/typecheck/infer.rs\<close>)
  \<^item> \<open>Types_Subst\<close>: the four methods of \<^verbatim>\<open>SubstituteType\<close>; \<open>Unify\<close>: the type variables of \<^verbatim>\<open>Inferencer\<close>,
    \<^verbatim>\<open>unify\<close>, \<^verbatim>\<open>unify_match_arms\<close>, \<^verbatim>\<open>bind\<close>, generalization, instantiation and integer literals.
  \<^item> The recursion follows the substitution and does not end on a cyclic one, so these functions take the
    stack depth available and overflow with \<open>Panic\<close>. \<open>settles\<close> says that from some depth on the result no
    longer changes and is no overflow; every property of termination is stated this way.
  \<^item> \<open>Subst_Sound\<close> gives the meaning of substitution on acyclic substitutions, \<open>Unify_Sound\<close> shows that
    unification keeps them acyclic, returns, and makes types equal up to the names that it ignores (\<open>sim\<close>);
    \<open>Unify_Literals\<close> treats defaulting; \<open>Unify_Properties\<close> has the properties.
  \<^item> Parameters: whether two types share an allocation (\<^verbatim>\<open>Arc::as_ptr\<close>, taken as a function of the two
    types that holds only for equal ones), whether an allocation is unique (\<^verbatim>\<open>Arc::get_mut\<close>), and the
    printer of types. \<open>covered\<close> states what the source's comments take for granted of types.

  \<^bold>\<open>The module graph\<close> (\<^verbatim>\<open>starstream-compiler/src/module_graph.rs\<close>)
  \<^item> \<open>Module_Graph\<close>: loading from an entry or a workspace, the check on imports of contracts, the topological
    order and reachability. The files and the parser are the parameter \<open>Host\<close>. Loading takes the number of
    modules it may resolve; \<open>loading_ends\<close> says how many suffice. The depth-first searches end by measures.
  \<^item> \<open>Module_Load\<close> and \<open>Module_Topo\<close> have the invariants, \<open>Module_Properties\<close> the properties.

  \<^bold>\<open>Type checking\<close> (\<^verbatim>\<open>starstream-compiler/src/typecheck\<close>: \<^verbatim>\<open>env.rs\<close>, \<^verbatim>\<open>builtins.rs\<close>, \<^verbatim>\<open>infer.rs\<close>)
  \<^item> \<open>Lang_Ast\<close> and \<open>Lang_Typed_Ast\<close>: the syntax trees of \<^verbatim>\<open>starstream-types\<close>; \<open>Type_Env\<close> and
    \<open>Type_Builtins\<close>: scopes, namespaces (association lists for hash maps) and the built-in names.
  \<^item> \<open>Infer_State\<close>, \<open>Infer_Pattern\<close>, \<open>Infer_Expr\<close>, \<open>Infer_Stmt\<close>, \<open>Infer_Register\<close>, \<open>Infer_Program\<close> and
    \<open>Infer_Modules\<close>: the methods of \<^verbatim>\<open>Inferencer\<close>, one definition per arm, up to \<^verbatim>\<open>typecheck_program\<close> and
    \<^verbatim>\<open>typecheck_modules\<close>. They thread \<open>InferState\<close>: \<^verbatim>\<open>self\<close>, \<^verbatim>\<open>env\<close> and \<^verbatim>\<open>ctx\<close>. The recursion takes the
    stack depth \<open>n\<close> and overflows with \<open>Panic\<close>. A node of the tree, whose address the source uses as a key, is
    its path. Printing lengths, spans and allocations are the parameter \<open>InferHost\<close>, the order in which the
    solver visits its hash containers the parameter \<open>Orders\<close>. The model stops at the first error, where
    \<^verbatim>\<open>process_definitions\<close> and \<^verbatim>\<open>typecheck_modules\<close> go on to collect more; \<open>Err\<close> has the head of their list.
  \<^item> \<open>Infer_Frame\<close> and \<open>Infer_Imports\<close>: what inference leaves alone (scopes, names, the entries of typed
    definitions), by the locale \<open>state_preorder\<close>.
  \<^item> Soundness for scalar programs (integers, \<^verbatim>\<open>bool\<close> and \<^verbatim>\<open>()\<close>, without calls): \<open>Infer_Scalar\<close> models the
    integer variables by their final types, \<open>Infer_Final\<close>, \<open>Infer_Sound\<close>, \<open>Infer_Walk\<close> and \<open>Infer_Blocks\<close>
    show that inference leaves a tree that the final substitution makes well typed for the interpreter,
    \<open>Infer_Finish\<close> and \<open>Infer_Accept\<close> lift this to programs. \<open>Infer_Run\<close> evaluates the checker on example
    programs; \<open>Infer_Properties\<close> has the properties.
  \<^item> \<open>Module_Typing\<close> joins the two: on an accepted graph every import by path is resolved, and every definition
    of a module is found when its typed program is collected.

  \<^bold>\<open>The interpreter\<close> (\<^verbatim>\<open>starstream-interpreter/src/lib.rs\<close>)
  \<^item> \<open>Interpreter\<close>: values, cells, control flow and evaluation; panics are errors that say why, arithmetic is
    under Rust's overflow checks. Evaluation takes a bound on nesting and iterations and is \<open>None\<close> beyond it;
    \<open>Interpreter_Bound\<close> shows that a larger bound never changes a result and that size is enough without loops.
  \<^item> \<open>Interpreter_Sound\<close>: type soundness; \<open>Interpreter_Ops\<close>: division; \<open>Interpreter_Properties\<close>: the
    properties, and on which operands the generated code agrees.

  \<^bold>\<open>Operators in generated code\<close> (\<^verbatim>\<open>starstream-to-wasm/src/lib.rs\<close>, \<^verbatim>\<open>intrinsics.rs\<close>)
  \<^item> \<open>Machine_Ints\<close> has facts on words, \<open>Wasm_Instr\<close> the instructions with the semantics of the Wasm
    specification, \<open>Wasm_Arith\<close> the code emitted for each operator and width and the checked functions.
  \<^item> \<open>Wasm_Arith_Sound\<close> computes what this code does, \<open>Wasm_Properties\<close> has the properties.

  \<^bold>\<open>What is not modelled.\<close> The traces of inference and the errors after the first; the parser and formatter
  (combinators of the crates \<^verbatim>\<open>chumsky\<close> and \<^verbatim>\<open>pretty\<close>); the rest of the emission of Wasm and of component types
  (crates \<^verbatim>\<open>wasm-encoder\<close> and \<^verbatim>\<open>wit-parser\<close>); the circuits (arkworks gadgets) and hashing; the runtime (host
  functions of \<^verbatim>\<open>wasmtime\<close>); servers, clients, the command line and the language server (input and output);
  the printing of errors; exhaustion of memory.
\<close>

end
